(* ===== verification/Prelude.thy ===== *)
theory Prelude
  imports Complex_Main "HOL-Library.Char_ord" "HOL-Library.List_Lexorder" "HOL-Library.AList"
begin

text \<open>
  The parts of JavaScript that the frontend's TypeScript uses, as HOL functions, and the generic
  lemmas the component theories share.

  \<^item> A value of type \<^verbatim>\<open>any\<close> (a parsed JSON frame, a row built from it) is a \<open>jval\<close>. JSON numbers
    of the Kubernetes API are integers, so \<open>JNum\<close> holds an \<open>int\<close> (\<open>JNaN\<close> is what arithmetic makes of
    anything else); an object is its property list in
    insertion order.
  \<^item> A string is a HOL \<open>string\<close>: one \<open>char\<close> per UTF-16 code unit, for texts whose code units are
    below 256 (names, labels, paths, permission keys). Chat texts, which hold other letters, are
    lists of code units in their own theory.
  \<^item> A \<^verbatim>\<open>Map\<close> is an association list in insertion order (\<open>AList.update\<close> keeps a key's place and
    appends a new one, as \<^verbatim>\<open>Map.set\<close> does), a \<^verbatim>\<open>Set\<close> a distinct list in insertion order.
  \<^item> \<^verbatim>\<open>findIndex\<close> answers \<open>None\<close> where JavaScript answers -1.
\<close>

named_theorems js_simps \<open>evaluation of the JavaScript operators on values\<close>

section \<open>Values\<close>

datatype jval =
    JUndef
  | JNull
  | JBool bool
  | JNum int
  | JNaN
  | JStr string
  | JArr "jval list"
  | JObj "(string \<times> jval) list"

fun truthy :: "jval \<Rightarrow> bool" where
  "truthy JUndef = False"
| "truthy JNull = False"
| "truthy (JBool b) = b"
| "truthy (JNum n) = (n \<noteq> 0)"
| "truthy JNaN = False"
| "truthy (JStr s) = (s \<noteq> [])"
| "truthy (JArr _) = True"
| "truthy (JObj _) = True"

fun nullish :: "jval \<Rightarrow> bool" where
  "nullish JUndef = True"
| "nullish JNull = True"
| "nullish _ = False"

text \<open>\<^verbatim>\<open>a || b\<close> and \<^verbatim>\<open>a ?? b\<close>.\<close>

definition jor :: "jval \<Rightarrow> jval \<Rightarrow> jval" where
  "jor a b = (if truthy a then a else b)"

definition jnn :: "jval \<Rightarrow> jval \<Rightarrow> jval" where
  "jnn a b = (if nullish a then b else a)"

text \<open>\<^verbatim>\<open>a?.k\<close> and the chain \<^verbatim>\<open>a?.k1?.k2\<close>.\<close>

fun jget :: "jval \<Rightarrow> string \<Rightarrow> jval" where
  "jget (JObj kvs) k = (case map_of kvs k of Some v \<Rightarrow> v | None \<Rightarrow> JUndef)"
| "jget _ k = JUndef"

definition jpath :: "jval \<Rightarrow> string list \<Rightarrow> jval" where
  "jpath v ks = foldl jget v ks"

fun is_string :: "jval \<Rightarrow> bool" where
  "is_string (JStr _) = True"
| "is_string _ = False"

fun is_number :: "jval \<Rightarrow> bool" where
  "is_number (JNum _) = True"
| "is_number JNaN = True"
| "is_number _ = False"

fun is_array :: "jval \<Rightarrow> bool" where
  "is_array (JArr _) = True"
| "is_array _ = False"

text \<open>\<^verbatim>\<open>typeof v === 'object'\<close>, which is also true of null and of an array.\<close>

fun typeof_object :: "jval \<Rightarrow> bool" where
  "typeof_object JNull = True"
| "typeof_object (JArr _) = True"
| "typeof_object (JObj _) = True"
| "typeof_object _ = False"

text \<open>\<^verbatim>\<open>Array.isArray(v) ? v : []\<close> as a list, and the own property names.\<close>

fun elems :: "jval \<Rightarrow> jval list" where
  "elems (JArr xs) = xs"
| "elems _ = []"

fun props :: "jval \<Rightarrow> (string \<times> jval) list" where
  "props (JObj kvs) = kvs"
| "props _ = []"

text \<open>
  \<^verbatim>\<open>===\<close>: by value on primitive values. Two objects or arrays of different frames are different
  references, so never equal.
\<close>

fun js_eq :: "jval \<Rightarrow> jval \<Rightarrow> bool" where
  "js_eq JUndef b = (b = JUndef)"
| "js_eq JNull b = (b = JNull)"
| "js_eq (JBool x) b = (b = JBool x)"
| "js_eq (JNum x) b = (b = JNum x)"
| "js_eq (JStr x) b = (b = JStr x)"
| "js_eq _ b = False"

lemma js_eq_str [simp]: "js_eq (JStr x) b \<longleftrightarrow> b = JStr x" "js_eq a (JStr y) \<longleftrightarrow> a = JStr y"
  by (cases a; auto)+

lemma js_eqD: "js_eq a b \<Longrightarrow> a = b"
  by (cases a) auto

lemmas js_evals [js_simps] = jor_def jnn_def jpath_def

lemma jnn_simps [simp]:
  "jnn JUndef b = b" "jnn JNull b = b" "jnn (JBool x) b = JBool x" "jnn (JNum n) b = JNum n" "jnn JNaN b = JNaN"
  "jnn (JStr s) b = JStr s" "jnn (JArr xs) b = JArr xs" "jnn (JObj kvs) b = JObj kvs"
  by (simp_all add: jnn_def)

lemma jpath_simps [simp]: "jpath v [] = v" "jpath v (k # ks) = jpath (jget v k) ks"
  by (simp_all add: jpath_def)

lemma jget_nonobj: "(\<And>kvs. v \<noteq> JObj kvs) \<Longrightarrow> jget v k = JUndef"
  by (cases v) auto

section \<open>Strings\<close>

fun digits_of :: "nat \<Rightarrow> string" where
  "digits_of n = (if n < 10 then [char_of (48 + n)] else digits_of (n div 10) @ [char_of (48 + n mod 10)])"

declare digits_of.simps [simp del]

definition show_nat :: "nat \<Rightarrow> string" where
  "show_nat n = digits_of n"

text \<open>\<^verbatim>\<open>String(n)\<close> of an integer below \<open>10\<^sup>21\<close>, where JavaScript prints plain digits.\<close>

definition show_int :: "int \<Rightarrow> string" where
  "show_int i = (if i < 0 then CHR ''-'' # digits_of (nat (- i)) else digits_of (nat i))"

fun join :: "string \<Rightarrow> string list \<Rightarrow> string" where
  "join sep [] = []"
| "join sep [s] = s"
| "join sep (s # ss) = s @ sep @ join sep ss"

text \<open>
  \<^verbatim>\<open>String(v)\<close>, which a template literal uses: an array joins its elements with commas, null and
  undefined elements as nothing.
\<close>

fun jstr :: "jval \<Rightarrow> string" where
  "jstr JUndef = ''undefined''"
| "jstr JNull = ''null''"
| "jstr (JBool b) = (if b then ''true'' else ''false'')"
| "jstr (JNum n) = show_int n"
| "jstr JNaN = ''NaN''"
| "jstr (JStr s) = s"
| "jstr (JArr xs) = join '','' (map (\<lambda>x. if nullish x then [] else jstr x) xs)"
| "jstr (JObj _) = ''[object Object]''"

definition is_ws :: "char \<Rightarrow> bool" where
  "is_ws c \<longleftrightarrow> (of_char c :: nat) \<in> {9, 10, 11, 12, 13, 32, 160}"

definition lower :: "char \<Rightarrow> char" where
  "lower c = (let n = of_char c :: nat in
     if (65 \<le> n \<and> n \<le> 90) \<or> (192 \<le> n \<and> n \<le> 222 \<and> n \<noteq> 215) then char_of (n + 32) else c)"

definition toLowerCase :: "string \<Rightarrow> string" where
  "toLowerCase s = map lower s"

definition trimStart :: "string \<Rightarrow> string" where
  "trimStart s = dropWhile is_ws s"

definition trimEnd :: "string \<Rightarrow> string" where
  "trimEnd s = rev (dropWhile is_ws (rev s))"

definition trim :: "string \<Rightarrow> string" where
  "trim s = trimEnd (trimStart s)"

definition startsWith :: "'a list \<Rightarrow> 'a list \<Rightarrow> bool" where
  "startsWith s p \<longleftrightarrow> take (length p) s = p"

definition endsWith :: "'a list \<Rightarrow> 'a list \<Rightarrow> bool" where
  "endsWith s p \<longleftrightarrow> startsWith (rev s) (rev p)"

text \<open>\<^verbatim>\<open>s.indexOf(p)\<close>, \<open>None\<close> for -1, and \<^verbatim>\<open>s.includes(p)\<close>.\<close>

fun indexOf :: "'a list \<Rightarrow> 'a list \<Rightarrow> nat option" where
  "indexOf [] p = (if p = [] then Some 0 else None)"
| "indexOf (c # s) p = (if startsWith (c # s) p then Some 0 else map_option Suc (indexOf s p))"

definition contains :: "'a list \<Rightarrow> 'a list \<Rightarrow> bool" where
  "contains s p \<longleftrightarrow> indexOf s p \<noteq> None"

text \<open>\<^verbatim>\<open>s.lastIndexOf(c)\<close> of one character.\<close>

fun lastIndexOf :: "'a list \<Rightarrow> 'a \<Rightarrow> nat option" where
  "lastIndexOf [] c = None"
| "lastIndexOf (x # s) c = (case lastIndexOf s c of
     Some i \<Rightarrow> Some (Suc i) | None \<Rightarrow> if x = c then Some 0 else None)"

text \<open>\<^verbatim>\<open>s.split(c)\<close> at a one-character separator: never empty.\<close>

fun split :: "'a \<Rightarrow> 'a list \<Rightarrow> 'a list list" where
  "split c [] = [[]]"
| "split c (x # s) = (if x = c then [] # split c s
     else (case split c s of [] \<Rightarrow> [[x]] | w # ws \<Rightarrow> (x # w) # ws))"

text \<open>\<^verbatim>\<open>s.split(/[\<dots>]+/)\<close>: a run of separators is one cut.\<close>

fun splitRuns :: "('a \<Rightarrow> bool) \<Rightarrow> 'a list \<Rightarrow> 'a list list" where
  "splitRuns p [] = [[]]"
| "splitRuns p [x] = (if p x then [[], []] else [[x]])"
| "splitRuns p (x # y # s) =
     (if p x \<and> p y then splitRuns p (y # s)
      else if p x then [] # splitRuns p (y # s)
      else (case splitRuns p (y # s) of [] \<Rightarrow> [[x]] | w # ws \<Rightarrow> (x # w) # ws))"

lemma split_not_Nil [simp]: "split c s \<noteq> []"
  by (induction s) (auto split: list.splits)

lemma split_no_sep: "w \<in> set (split c s) \<Longrightarrow> c \<notin> set w"
proof (induction s arbitrary: w)
  case (Cons x s)
  then show ?case by (cases "split c s") (auto split: if_splits)
qed simp

lemma split_single: "c \<notin> set s \<Longrightarrow> split c s = [s]"
  by (induction s) auto

lemma split_append_sep: "c \<notin> set a \<Longrightarrow> split c (a @ c # s) = a # split c s"
  by (induction a) auto

lemma split_join: "ws \<noteq> [] \<Longrightarrow> \<forall>w\<in>set ws. c \<notin> set w \<Longrightarrow> split c (join [c] ws) = ws"
proof (induction "[c]" ws rule: join.induct)
  case (3 s s' ss)
  then show ?case by (simp add: split_append_sep)
qed (simp_all add: split_single)

lemma join_inj:
  assumes "join [c] us = join [c] ws" "\<forall>w\<in>set us \<union> set ws. w \<noteq> [] \<and> c \<notin> set w"
  shows "us = ws"
proof -
  have nil: "join [c] vs \<noteq> []" if "vs \<noteq> []" "\<forall>w\<in>set vs. w \<noteq> [] \<and> c \<notin> set w" for vs
    by (cases "([c], vs)" rule: join.cases) (use that in auto)
  show ?thesis
  proof (cases "us = [] \<or> ws = []")
    case True
    then show ?thesis using nil [of us] nil [of ws] assms by auto
  next
    case False
    then show ?thesis using split_join [of us c] split_join [of ws c] assms by (metis UnCI)
  qed
qed

lemma trimStart_idem: "\<not> is_ws (hd (trimStart s)) \<or> trimStart s = []"
  using hd_dropWhile [of is_ws s] by (auto simp: trimStart_def)

lemma trimEnd_shape: "trimEnd s = [] \<or> \<not> is_ws (last (trimEnd s))"
  using hd_dropWhile [of is_ws "rev s"] by (auto simp: trimEnd_def last_rev)

lemma trimEnd_prefix: "\<exists>r. s = trimEnd s @ r"
proof -
  have "rev s = takeWhile is_ws (rev s) @ dropWhile is_ws (rev s)" by simp
  then have "s = rev (dropWhile is_ws (rev s)) @ rev (takeWhile is_ws (rev s))" by (metis rev_append rev_rev_ident)
  then show ?thesis by (auto simp: trimEnd_def)
qed

lemma trim_same: "s \<noteq> [] \<Longrightarrow> \<not> is_ws (hd s) \<Longrightarrow> \<not> is_ws (last s) \<Longrightarrow> trim s = s"
proof -
  assume a: "s \<noteq> []" "\<not> is_ws (hd s)" "\<not> is_ws (last s)"
  have "trimStart s = s" using a(1,2) by (cases s) (auto simp: trimStart_def)
  moreover have "trimEnd s = s" using a(1,3) by (cases s rule: rev_cases) (auto simp: trimEnd_def)
  ultimately show ?thesis by (simp add: trim_def)
qed

lemma trim_Nil: "trim [] = []"
  by (simp add: trim_def trimStart_def trimEnd_def)

lemma trim_ended: "trim s = s \<Longrightarrow> s \<noteq> [] \<Longrightarrow> \<not> is_ws (last s)"
  by (metis trimEnd_shape trim_def)

lemma startsWith_append [simp]: "startsWith (p @ s) p"
  by (simp add: startsWith_def)

lemma startsWith_iff: "startsWith s p \<longleftrightarrow> (\<exists>t. s = p @ t)"
  by (metis append_eq_conv_conj append_take_drop_id startsWith_def)

lemma startsWith_Nil [simp]: "startsWith s []"
  by (simp add: startsWith_def)

lemma splitRuns_not_Nil [simp]: "splitRuns p s \<noteq> []"
  by (induction p s rule: splitRuns.induct) (auto split: list.split)

section \<open>Arrays, maps and sets\<close>

fun findIndex :: "('a \<Rightarrow> bool) \<Rightarrow> 'a list \<Rightarrow> nat option" where
  "findIndex p [] = None"
| "findIndex p (x # xs) = (if p x then Some 0 else map_option Suc (findIndex p xs))"

text \<open>\<^verbatim>\<open>xs.splice(i, 1)\<close>.\<close>

definition splice1 :: "nat \<Rightarrow> 'a list \<Rightarrow> 'a list" where
  "splice1 i xs = take i xs @ drop (Suc i) xs"

definition set_add :: "'a \<Rightarrow> 'a list \<Rightarrow> 'a list" where
  "set_add x xs = (if x \<in> set xs then xs else xs @ [x])"

text \<open>\<^verbatim>\<open>[...new Set(xs)]\<close>: the first of each value, in order.\<close>

definition uniq :: "'a list \<Rightarrow> 'a list" where
  "uniq xs = fold set_add xs []"

lemma findIndex_None_iff: "findIndex p xs = None \<longleftrightarrow> (\<forall>x\<in>set xs. \<not> p x)"
  by (induction xs) auto

lemma findIndex_SomeD: "findIndex p xs = Some i \<Longrightarrow> i < length xs \<and> p (xs ! i) \<and> (\<forall>j<i. \<not> p (xs ! j))"
proof (induction xs arbitrary: i)
  case (Cons x xs)
  show ?case
  proof (cases "p x")
    case True
    with Cons.prems show ?thesis by auto
  next
    case False
    with Cons.prems obtain k where k: "findIndex p xs = Some k" "i = Suc k" by auto
    then have "k < length xs \<and> p (xs ! k) \<and> (\<forall>j<k. \<not> p (xs ! j))" using Cons.IH by blast
    with False k(2) show ?thesis by (auto simp: less_Suc_eq_0_disj)
  qed
qed simp

lemma findIndex_cong: "(\<And>x. x \<in> set xs \<Longrightarrow> p x = q x) \<Longrightarrow> findIndex p xs = findIndex q xs"
  by (induction xs) auto

text \<open>What a hit of \<open>findIndex\<close> says about the list: it splits around the first match.\<close>

lemma findIndex_split:
  assumes "findIndex p xs = Some i"
  obtains ys x zs where "xs = ys @ x # zs" "length ys = i" "p x" "\<forall>y\<in>set ys. \<not> p y"
proof -
  from findIndex_SomeD [OF assms] have i: "i < length xs" "p (xs ! i)" "\<forall>j<i. \<not> p (xs ! j)" by auto
  have "xs = take i xs @ xs ! i # drop (Suc i) xs" using i(1) by (rule id_take_nth_drop)
  moreover have "length (take i xs) = i" using i(1) by simp
  moreover have "\<forall>y\<in>set (take i xs). \<not> p y" using i by (auto simp: in_set_conv_nth)
  ultimately show thesis using that i(2) by blast
qed

lemma splice1_split [simp]: "splice1 (length ys) (ys @ x # zs) = ys @ zs"
  by (simp add: splice1_def)

lemma set_set_add [simp]: "set (set_add x xs) = insert x (set xs)"
  by (auto simp: set_add_def)

lemma distinct_set_add [simp]: "distinct (set_add x xs) \<longleftrightarrow> distinct xs"
  by (auto simp: set_add_def)

lemma set_fold_set_add: "set (fold set_add xs acc) = set xs \<union> set acc"
  by (induction xs arbitrary: acc) auto

lemma distinct_fold_set_add: "distinct acc \<Longrightarrow> distinct (fold set_add xs acc)"
  by (induction xs arbitrary: acc) auto

lemma set_uniq [simp]: "set (uniq xs) = set xs"
  by (simp add: uniq_def set_fold_set_add)

lemma distinct_uniq [simp]: "distinct (uniq xs)"
  by (simp add: uniq_def distinct_fold_set_add)

lemma fold_set_add_distinct: "distinct xs \<Longrightarrow> set xs \<inter> set acc = {} \<Longrightarrow> fold set_add xs acc = acc @ xs"
  by (induction xs arbitrary: acc) (auto simp: set_add_def)

lemma uniq_distinct: "distinct xs \<Longrightarrow> uniq xs = xs"
  by (simp add: uniq_def fold_set_add_distinct)

lemma map_of_None_keys: "map_of kvs k = None \<longleftrightarrow> k \<notin> set (map fst kvs)"
  by (auto simp: map_of_eq_None_iff)

lemma fst_AList_update: "map fst (AList.update k v m) = (if k \<in> set (map fst m) then map fst m else map fst m @ [k])"
  by (induction m) auto

lemma fst_AList_delete: "map fst (AList.delete k m) = removeAll k (map fst m)"
  by (induction m) (auto simp: AList.delete_eq)

end
