(* ===== verification/Access.thy ===== *)
theory Access
  imports Prelude
begin

text \<open>
  What the screen lets a person do: the permission matrix of \<^verbatim>\<open>GET /auth/me\<close>
  (\<^verbatim>\<open>frontend/src/utils/permissions.ts\<close>), the admin pages' keys (\<^verbatim>\<open>adminAccess.ts\<close>), the
  impersonation group of a role (\<^verbatim>\<open>roleGroup.ts\<close>), the namespace lists of grants
  (\<^verbatim>\<open>namespaceScope.ts\<close>) and the cache keys dropped on a cluster switch
  (\<^verbatim>\<open>clusterQueryScope.ts\<close>).
\<close>

section \<open>Matching a permission key\<close>

text \<open>The loop of \<open>permMatches\<close> over the pattern's segments, from index \<open>i\<close>.\<close>

function perm_loop :: "string list \<Rightarrow> string list \<Rightarrow> nat \<Rightarrow> bool" where
  "perm_loop ps qs i =
     (if i < length ps then
        (if ps ! i = ''*'' \<and> i = length ps - 1 then length ps \<le> length qs
         else if length qs \<le> i \<or> (ps ! i \<noteq> ''*'' \<and> ps ! i \<noteq> qs ! i) then False
         else perm_loop ps qs (Suc i))
      else length ps = length qs)"
  by pat_completeness auto
termination
  by (relation "measure (\<lambda>(ps, qs, i). length ps - i)") auto

declare perm_loop.simps [simp del]

definition permMatches :: "string \<Rightarrow> string \<Rightarrow> bool" where
  "permMatches pattern perm =
     (if pattern = ''*'' \<or> pattern = perm then True
      else perm_loop (split CHR ''.'' pattern) (split CHR ''.'' perm) 0)"

text \<open>Clusters are rows of the matrix; the row \<open>''*''\<close> holds what counts on every cluster.\<close>

type_synonym permission_matrix = "(string \<times> string list) list"

definition matchAny :: "string list option \<Rightarrow> string \<Rightarrow> bool" where
  "matchAny perms perm = (case perms of None \<Rightarrow> False | Some ps \<Rightarrow> (\<exists>p\<in>set ps. permMatches p perm))"

definition hasPermission :: "permission_matrix \<Rightarrow> string \<Rightarrow> string \<Rightarrow> bool" where
  "hasPermission matrix perm clusterID =
     (if matchAny (map_of matrix ''*'') perm then True
      else if startsWith perm ''admin.'' then False
      else if clusterID \<noteq> [] then matchAny (map_of matrix clusterID) perm else False)"

definition holdsOnAnyCluster :: "permission_matrix \<Rightarrow> string \<Rightarrow> bool" where
  "holdsOnAnyCluster matrix perm = (\<exists>(c, perms)\<in>set matrix. matchAny (Some perms) perm)"

definition waitsForCluster :: "string list \<Rightarrow> string \<Rightarrow> permission_matrix \<Rightarrow> bool" where
  "waitsForCluster keys currentCluster matrix =
     (if currentCluster \<noteq> [] \<or> (\<exists>k\<in>set keys. hasPermission matrix k []) then False
      else (\<exists>k\<in>set keys. \<not> startsWith k ''admin.'' \<and> holdsOnAnyCluster matrix k))"

text \<open>The strings of an array (\<^verbatim>\<open>v.filter((p) => typeof p === 'string')\<close>).\<close>

definition strings :: "jval list \<Rightarrow> string list" where
  "strings vs = concat (map (\<lambda>v. case v of JStr s \<Rightarrow> [s] | _ \<Rightarrow> []) vs)"

definition parsePermissions :: "jval \<Rightarrow> permission_matrix" where
  "parsePermissions raw =
     (if \<not> truthy raw \<or> \<not> typeof_object raw \<or> is_array raw then []
      else fold (\<lambda>(cid, v) out. if is_array v then AList.update cid (strings (elems v)) out else out)
             (props raw) [])"

definition PERM_RESOURCE_ALIASES :: "(string \<times> string) list" where
  "PERM_RESOURCE_ALIASES =
     [(''horizontalpodautoscaler'', ''hpa''), (''verticalpodautoscaler'', ''vpa''),
      (''poddisruptionbudget'', ''pdb''), (''persistentvolume'', ''pv''),
      (''persistentvolumeclaim'', ''pvc''), (''customresourcedefinition'', ''crd''),
      (''customresourceinstance'', ''customresource'')]"

definition PERM_RESOURCES :: "string list" where
  "PERM_RESOURCES =
     [''pod'', ''deployment'', ''statefulset'', ''daemonset'', ''replicaset'', ''job'', ''cronjob'',
      ''service'', ''endpoints'', ''endpointslice'', ''ingress'', ''ingressclass'', ''networkpolicy'',
      ''configmap'', ''secret'', ''serviceaccount'',
      ''role'', ''rolebinding'', ''clusterrole'', ''clusterrolebinding'',
      ''namespace'', ''node'', ''storageclass'', ''volumeattachment'',
      ''resourcequota'', ''limitrange'', ''priorityclass'', ''runtimeclass'', ''lease'',
      ''mutatingwebhookconfiguration'', ''validatingwebhookconfiguration'',
      ''validatingadmissionpolicy'', ''validatingadmissionpolicybinding'',
      ''mutatingadmissionpolicy'', ''mutatingadmissionpolicybinding'',
      ''gateway'', ''gatewayclass'', ''httproute'', ''grpcroute'', ''referencegrant'', ''backendtlspolicy'',
      ''deviceclass'', ''resourceclaim'', ''resourceclaimtemplate'', ''resourceslice'',
      ''cost'', ''policyreport'', ''networkflow'',
      ''hpa'', ''vpa'', ''pdb'', ''pv'', ''pvc'', ''crd'']"

definition permResource :: "string \<Rightarrow> string" where
  "permResource kind =
     (let k = toLowerCase kind;
          name = (case map_of PERM_RESOURCE_ALIASES k of Some a \<Rightarrow> a | None \<Rightarrow> k)
      in if name \<in> set PERM_RESOURCES then name else ''customresource'')"

section \<open>Admin pages, role groups, namespace lists, cache keys\<close>

definition ADMIN_PAGE_PERMISSIONS :: "(string \<times> string list) list" where
  "ADMIN_PAGE_PERMISSIONS =
     [(''/setup'', [''admin.clusters.create'']),
      (''/admin/clusters'', [''admin.clusters.list'']),
      (''/admin/users'', [''admin.users.read'']),
      (''/admin/roles'', [''admin.roles.create'', ''admin.roles.update'', ''admin.roles.delete'']),
      (''/admin/access-requests'', [''admin.users.update'']),
      (''/admin/access-review'', [''admin.review.read'']),
      (''/cluster/hygiene'', [''admin.hygiene.read'', ''resource.hygiene.scan'']),
      (''/admin/organizations'', [''admin.organizations.create'', ''admin.organizations.delete'']),
      (''/admin/ai-models'', [''admin.ai_models.*'']),
      (''/admin/audit'', [''admin.audit.read'']),
      (''/admin/session-recordings'', [''admin.sessions.read'']),
      (''/admin/ai-usage'', [''admin.audit.read'']),
      (''/admin/investigations'', [''admin.investigations.read''])]"

text \<open>\<open>has\<close> is the caller's \<open>hasPermission\<close> at the cluster; \<open>namespaces\<close> a grant's limit, if any.\<close>

definition readsHygiene :: "(string \<Rightarrow> bool) \<Rightarrow> string list option \<Rightarrow> bool" where
  "readsHygiene has namespaces \<longleftrightarrow> has ''admin.hygiene.read'' \<or>
     (has ''resource.hygiene.scan'' \<and> (case namespaces of None \<Rightarrow> True | Some ns \<Rightarrow> ns = []))"

definition isGlobalAdmin :: "permission_matrix \<Rightarrow> bool" where
  "isGlobalAdmin matrix \<longleftrightarrow> ''*'' \<in> set (case map_of matrix ''*'' of None \<Rightarrow> [] | Some ps \<Rightarrow> ps)"

definition roleReachesEveryCluster :: "string list option \<Rightarrow> bool" where
  "roleReachesEveryCluster permissions \<longleftrightarrow> ''*'' \<in> set (case permissions of None \<Rightarrow> [] | Some ps \<Rightarrow> ps)"

text \<open>\<^verbatim>\<open>/^[a-z0-9._-]$/\<close>.\<close>

definition slug_char :: "char \<Rightarrow> bool" where
  "slug_char c \<longleftrightarrow> (let n = of_char c :: nat in (97 \<le> n \<and> n \<le> 122) \<or> (48 \<le> n \<and> n \<le> 57)) \<or>
     c \<in> {CHR ''.'', CHR ''_'', CHR ''-''}"

definition roleGroupSlug :: "string \<Rightarrow> string" where
  "roleGroupSlug name = map (\<lambda>c. if slug_char c then c else CHR ''-'') (toLowerCase (trim name))"

definition customRoleGroup :: "string option \<Rightarrow> string option" where
  "customRoleGroup role =
     (let name = trim (case role of None \<Rightarrow> [] | Some r \<Rightarrow> r) in
      if name = [] \<or> toLowerCase name \<in> {''read'', ''write'', ''admin''} then None
      else Some (''kubeast:role:'' @ roleGroupSlug name))"

definition MAX_GRANT_NAMESPACES :: nat where
  "MAX_GRANT_NAMESPACES = 50"

definition add_namespace :: "string \<Rightarrow> string list \<Rightarrow> string list" where
  "add_namespace raw seen = (let n = toLowerCase (trim raw) in if n \<noteq> [] then set_add n seen else seen)"

definition parseNamespaceList :: "string \<Rightarrow> string list" where
  "parseNamespaceList text = sort (fold add_namespace (splitRuns (\<lambda>c. is_ws c \<or> c = CHR '','') text) [])"

definition sameNamespaces :: "string list option \<Rightarrow> string list option \<Rightarrow> bool" where
  "sameNamespaces a b =
     (let x = (case a of None \<Rightarrow> [] | Some v \<Rightarrow> v); y = (case b of None \<Rightarrow> [] | Some v \<Rightarrow> v)
      in length x = length y \<and> (\<forall>i\<in>set [0..<length x]. x ! i = y ! i))"

definition CLUSTER_INDEPENDENT_KEYS :: "string list" where
  "CLUSTER_INDEPENDENT_KEYS =
     [''me'', ''roles'', ''permissions'', ''organizations'', ''admin-users'', ''sessions'', ''session'',
      ''clusters'', ''cluster-roles'', ''setup'', ''setup-status'', ''deployment-mode'', ''ai-models'',
      ''audit-logs'']"

definition isClusterScopedQueryKey :: "jval \<Rightarrow> bool" where
  "isClusterScopedQueryKey queryKey =
     (case queryKey of JArr (head # _) \<Rightarrow> (case head of JStr h \<Rightarrow> h \<notin> set CLUSTER_INDEPENDENT_KEYS | _ \<Rightarrow> False)
      | _ \<Rightarrow> False)"

section \<open>Lemmas\<close>

text \<open>What a pattern means, segment by segment.\<close>

definition segment_ok :: "string \<Rightarrow> string \<Rightarrow> bool" where
  "segment_ok p q \<longleftrightarrow> p = ''*'' \<or> p = q"

fun seg_match :: "string list \<Rightarrow> string list \<Rightarrow> bool" where
  "seg_match [] qs = (qs = [])"
| "seg_match [p] qs = (if p = ''*'' then qs \<noteq> [] else qs = [p])"
| "seg_match (p # p' # ps) [] = False"
| "seg_match (p # p' # ps) (q # qs) = (segment_ok p q \<and> seg_match (p' # ps) qs)"

lemma seg_match_split: "Suc i < length ps \<Longrightarrow>
    seg_match (drop i ps) (drop i qs) \<longleftrightarrow>
      i < length qs \<and> segment_ok (ps ! i) (qs ! i) \<and> seg_match (drop (Suc i) ps) (drop (Suc i) qs)"
  by (cases "i < length qs")
    (simp_all flip: Cons_nth_drop_Suc [of i ps] Cons_nth_drop_Suc [of i qs] Cons_nth_drop_Suc [of "Suc i" ps])

lemma seg_match_last:
  assumes "Suc i = length ps"
  shows "seg_match (drop i ps) (drop i qs) \<longleftrightarrow>
      i < length qs \<and> (ps ! i = ''*'' \<or> (ps ! i = qs ! i \<and> length ps = length qs))"
proof -
  have p: "drop i ps = [ps ! i]" using Cons_nth_drop_Suc [of i ps] assms by simp
  show ?thesis
  proof (cases "i < length qs")
    case True
    then show ?thesis using assms by (auto simp: p simp flip: Cons_nth_drop_Suc)
  next
    case False
    then show ?thesis by (simp add: p)
  qed
qed

lemma perm_loop_seg_match:
  "i \<le> length ps \<Longrightarrow> i \<le> length qs \<Longrightarrow> perm_loop ps qs i \<longleftrightarrow> seg_match (drop i ps) (drop i qs)"
proof (induction ps qs i rule: perm_loop.induct)
  case (1 ps qs i)
  consider "i = length ps" | "Suc i = length ps" | "Suc i < length ps"
    using "1.prems" by linarith
  then show ?case
  proof cases
    case 1
    then show ?thesis by (subst perm_loop.simps) (use "1.prems" in auto)
  next
    case 2
    have "perm_loop ps qs (Suc i) \<longleftrightarrow> length ps = length qs"
      using 2 by (subst perm_loop.simps) simp
    then show ?thesis
      using 2 "1.prems" by (subst perm_loop.simps) (auto simp: seg_match_last [OF 2])
  next
    case 3
    then show ?thesis
      using "1.IH" "1.prems" by (subst perm_loop.simps) (auto simp: seg_match_split segment_ok_def)
  qed
qed

text \<open>A pattern either matches segment by segment, or ends in a star that takes one segment or more.\<close>

lemma seg_match_iff:
  "seg_match ps qs \<longleftrightarrow> list_all2 segment_ok ps qs \<or>
     (ps \<noteq> [] \<and> last ps = ''*'' \<and> length ps \<le> length qs \<and>
      list_all2 segment_ok (butlast ps) (take (length ps - 1) qs))"
  by (induction ps qs rule: seg_match.induct)
    (auto simp: segment_ok_def list_all2_Cons1 Suc_le_length_iff neq_Nil_conv)

lemma segment_ok_refl [simp]: "segment_ok p p"
  by (simp add: segment_ok_def)

lemma map_of_fold_parse:
  "distinct (map fst kvs) \<Longrightarrow>
   map_of (fold (\<lambda>(cid, v) out. if is_array v then AList.update cid (strings (elems v)) out else out) kvs out) c =
     (case map_of kvs c of
        Some (JArr vs) \<Rightarrow> Some (strings vs)
      | _ \<Rightarrow> map_of out c)"
proof (induction kvs arbitrary: out)
  case (Cons kv kvs)
  obtain k v where kv: "kv = (k, v)" by force
  show ?case
  proof (cases "k = c")
    case True
    with Cons.prems kv have "map_of kvs c = None" by (auto simp: map_of_eq_None_iff)
    with Cons kv True show ?thesis by (cases v) (simp_all add: update_conv')
  next
    case False
    with Cons kv show ?thesis
      by (cases v) (simp_all add: update_conv' split: option.split jval.split)
  qed
qed simp

lemma splitRuns_no_sep: "w \<in> set (splitRuns p s) \<Longrightarrow> c \<in> set w \<Longrightarrow> \<not> p c"
  by (induction p s arbitrary: w rule: splitRuns.induct) (fastforce split: if_splits list.splits)+

lemma splitRuns_word: "w \<noteq> [] \<Longrightarrow> \<forall>c\<in>set w. \<not> p c \<Longrightarrow> splitRuns p w = [w]"
  by (induction p w rule: splitRuns.induct) auto

lemma splitRuns_append: "w \<noteq> [] \<Longrightarrow> \<forall>c\<in>set w. \<not> p c \<Longrightarrow> p d \<Longrightarrow> s \<noteq> [] \<Longrightarrow> \<not> p (hd s) \<Longrightarrow>
    splitRuns p (w @ d # s) = w # splitRuns p s"
proof (induction w)
  case (Cons c w)
  then show ?case by (cases w; cases s) auto
qed simp

lemma join_nonempty: "ws \<noteq> [] \<Longrightarrow> \<forall>w\<in>set ws. w \<noteq> [] \<Longrightarrow> join sep ws \<noteq> [] \<and> hd (join sep ws) = hd (hd ws)"
  by (induction sep ws rule: join.induct) auto

lemma splitRuns_join:
  "ws \<noteq> [] \<Longrightarrow> \<forall>w\<in>set ws. w \<noteq> [] \<and> (\<forall>c\<in>set w. \<not> p c) \<Longrightarrow> p d \<Longrightarrow> splitRuns p (join [d] ws) = ws"
proof (induction "[d]" ws rule: join.induct)
  case (3 w v vs)
  then have "join [d] (v # vs) \<noteq> [] \<and> hd (join [d] (v # vs)) = hd v"
    using join_nonempty [of "v # vs" "[d]"] by simp
  moreover have "\<not> p (hd v)" using 3(3) by (cases v) auto
  ultimately show ?case using 3 splitRuns_append [of w p d "join [d] (v # vs)"] by simp
qed (auto intro: splitRuns_word)

text \<open>A lower-case letter stays, and no letter becomes a separator.\<close>

lemma char_cases: "(\<And>n. n < 256 \<Longrightarrow> P (char_of (n :: nat))) \<Longrightarrow> P c"
  by (metis char_of_char nat_of_char_less_256)

lemma lower_code: "of_char (lower c) = (let n = of_char c :: nat in
    if (65 \<le> n \<and> n \<le> 90) \<or> (192 \<le> n \<and> n \<le> 222 \<and> n \<noteq> 215) then n + 32 else n)"
  by (simp add: lower_def Let_def of_char_of)

lemma lower_lower [simp]: "lower (lower c) = lower c"
  by (simp add: lower_def Let_def of_char_of)

lemma is_ws_lower [simp]: "is_ws (lower c) = is_ws c"
  by (auto simp: is_ws_def lower_code Let_def)

lemma lower_comma [simp]: "lower c = CHR '','' \<longleftrightarrow> c = CHR '',''"
proof
  assume "lower c = CHR '',''"
  then have "(of_char (lower c) :: nat) = 44" by simp
  then have "(of_char c :: nat) = 44" by (auto simp: lower_code Let_def split: if_splits)
  then have "(of_char c :: nat) = of_char (CHR '','')" by simp
  then show "c = CHR '',''" by (simp only: of_char_eq_iff)
qed (simp add: lower_def)

lemma dropWhile_none: "\<forall>x\<in>set xs. \<not> P x \<Longrightarrow> dropWhile P xs = xs"
  by (cases xs) auto

lemma trim_no_ws: "\<forall>c\<in>set s. \<not> is_ws c \<Longrightarrow> trim s = s"
  by (simp add: trim_def trimStart_def trimEnd_def dropWhile_none)

lemma set_add_namespaces:
  "set (fold add_namespace ws acc) = {n. \<exists>w\<in>set ws. n = toLowerCase (trim w) \<and> n \<noteq> []} \<union> set acc"
  by (induction ws arbitrary: acc) (auto simp: add_namespace_def Let_def)

lemma distinct_add_namespaces: "distinct acc \<Longrightarrow> distinct (fold add_namespace ws acc)"
  by (induction ws arbitrary: acc) (auto simp: add_namespace_def Let_def)

text \<open>A word of a parsed list: not empty, lower case, without a separator.\<close>

definition ns_word :: "string \<Rightarrow> bool" where
  "ns_word n \<longleftrightarrow> n \<noteq> [] \<and> toLowerCase n = n \<and> (\<forall>c\<in>set n. \<not> is_ws c \<and> c \<noteq> CHR '','')"

lemma parseNamespaceList_words:
  assumes "n \<in> set (parseNamespaceList text)"
  shows "ns_word n"
proof -
  from assms obtain w where w: "w \<in> set (splitRuns (\<lambda>c. is_ws c \<or> c = CHR '','') text)"
      "n = toLowerCase (trim w)" "n \<noteq> []"
    by (auto simp: parseNamespaceList_def set_add_namespaces)
  then have "\<forall>c\<in>set w. \<not> is_ws c \<and> c \<noteq> CHR '',''"
    using splitRuns_no_sep [OF w(1)] by blast
  with w(2,3) show ?thesis by (auto simp: ns_word_def toLowerCase_def trim_no_ws)
qed

lemma add_namespaces_fixed: "\<forall>n\<in>set ws. ns_word n \<Longrightarrow> fold add_namespace ws acc = fold set_add ws acc"
  by (induction ws arbitrary: acc) (auto simp: ns_word_def trim_no_ws add_namespace_def)

section \<open>Properties\<close>

text \<open>
  C9: a permission key is granted by a pattern exactly when their dot-separated segments agree one by
  one, a star standing for any one segment, or the pattern's last segment is a star that stands for the
  key's remaining segments (at least one). The two shortcuts of the code (\<^verbatim>\<open>*\<close> alone, equal texts) add
  nothing to this rule.
\<close>

theorem permMatches_iff:
  "permMatches pattern perm \<longleftrightarrow>
     (let ps = split CHR ''.'' pattern; qs = split CHR ''.'' perm in
      list_all2 segment_ok ps qs \<or>
      (last ps = ''*'' \<and> length ps \<le> length qs \<and>
       list_all2 segment_ok (butlast ps) (take (length ps - 1) qs)))"
proof -
  have "Suc 0 \<le> length (split CHR ''.'' perm)"
    by (simp add: Suc_le_eq)
  moreover have "list_all2 segment_ok qs qs" for qs
    by (simp add: list_all2_refl)
  ultimately show ?thesis
    using split_single [of "CHR ''.''" "''*''"]
    by (auto simp: permMatches_def Let_def perm_loop_seg_match seg_match_iff)
qed

text \<open>
  C10: permissions are isolated per cluster. The answer for a cluster depends only on that cluster's row
  and the \<open>*\<close> row of the matrix, and the answer for an \<^verbatim>\<open>admin.\<close> key on the \<open>*\<close> row alone,
  whatever cluster is asked about.
\<close>

theorem hasPermission_isolated:
  assumes "map_of m ''*'' = map_of m' ''*''"
  shows "(map_of m c = map_of m' c \<longrightarrow> hasPermission m perm c = hasPermission m' perm c) \<and>
    (startsWith perm ''admin.'' \<longrightarrow> hasPermission m perm c = hasPermission m' perm c')"
  using assms by (auto simp: hasPermission_def)

theorem hasPermission_isolated_witness:
  "map_of [(''*'', [''ai.*'']), (''a'', [''resource.*.read''])] ''*'' = map_of [(''*'', [''ai.*''])] ''*'' \<and>
   hasPermission [(''*'', [''ai.*'']), (''a'', [''resource.*.read''])] ''admin.users.read'' ''a'' =
   hasPermission [(''*'', [''ai.*''])] ''admin.users.read'' ''b''"
  using hasPermission_isolated [of "[(''*'', [''ai.*'']), (''a'', [''resource.*.read''])]" "[(''*'', [''ai.*''])]"
      "''a''" "''admin.users.read''" "''b''"]
  by (simp add: startsWith_def)

text \<open>
  a route waits for the cluster picker exactly when no cluster is chosen, none of its keys passes
  without one, and some choice of a cluster would let one of its keys pass.
\<close>

theorem waitsForCluster_iff:
  assumes "distinct (map fst matrix)" "[] \<notin> set (map fst matrix)"
  shows "waitsForCluster keys current matrix \<longleftrightarrow>
    current = [] \<and> (\<forall>k\<in>set keys. \<not> hasPermission matrix k []) \<and>
    (\<exists>k\<in>set keys. \<exists>c. hasPermission matrix k c)"
proof -
  have held: "holdsOnAnyCluster matrix k \<longleftrightarrow> (\<exists>c. matchAny (map_of matrix c) k)" for k
  proof
    assume "holdsOnAnyCluster matrix k"
    then obtain c ps where "(c, ps) \<in> set matrix" "matchAny (Some ps) k"
      by (auto simp: holdsOnAnyCluster_def)
    then show "\<exists>c. matchAny (map_of matrix c) k"
      using map_of_is_SomeI [OF assms(1)] by metis
  next
    assume "\<exists>c. matchAny (map_of matrix c) k"
    then obtain c where c: "matchAny (map_of matrix c) k" ..
    then obtain ps where "map_of matrix c = Some ps" by (cases "map_of matrix c") (auto simp: matchAny_def)
    with c show "holdsOnAnyCluster matrix k"
      by (auto simp: holdsOnAnyCluster_def dest!: map_of_SomeD)
  qed
  have empty: "map_of matrix [] = None"
    using assms(2) by (simp add: map_of_None_keys)
  have none: "\<not> matchAny (map_of matrix []) k" for k
    by (simp add: empty matchAny_def)
  have "\<not> hasPermission matrix k [] \<Longrightarrow>
      (\<not> startsWith k ''admin.'' \<and> holdsOnAnyCluster matrix k) \<longleftrightarrow> (\<exists>c. hasPermission matrix k c)" for k
    unfolding held hasPermission_def using none [of k] by metis
  then show ?thesis
    unfolding waitsForCluster_def by (simp only: if_bool_eq_conj) blast
qed

theorem waitsForCluster_iff_witness:
  "waitsForCluster [''resource.pod.read''] [] [(''*'', []), (''a'', [''resource.*.read''])] \<longleftrightarrow>
    ([] :: string) = [] \<and> (\<forall>k\<in>set [''resource.pod.read'']. \<not> hasPermission [(''*'', []), (''a'', [''resource.*.read''])] k []) \<and>
    (\<exists>k\<in>set [''resource.pod.read'']. \<exists>c. hasPermission [(''*'', []), (''a'', [''resource.*.read''])] k c)"
  by (rule waitsForCluster_iff) simp_all

text \<open>
  the matrix read from the server's answer. Anything that is not an object (an older token's flat
  list, nothing at all) grants nothing on any cluster; of an object, a cluster's row is the strings of
  its array, and a property that is not an array makes no row.
\<close>

theorem parsePermissions_rows:
  "((\<forall>kvs. raw \<noteq> JObj kvs) \<longrightarrow> \<not> hasPermission (parsePermissions raw) perm c) \<and>
   (distinct (map fst kvs) \<longrightarrow> map_of (parsePermissions (JObj kvs)) c =
     (case map_of kvs c of Some (JArr vs) \<Rightarrow> Some (strings vs) | _ \<Rightarrow> None))"
proof
  show "(\<forall>kvs. raw \<noteq> JObj kvs) \<longrightarrow> \<not> hasPermission (parsePermissions raw) perm c"
    by (cases raw) (simp_all add: parsePermissions_def hasPermission_def matchAny_def)
  show "distinct (map fst kvs) \<longrightarrow> map_of (parsePermissions (JObj kvs)) c =
     (case map_of kvs c of Some (JArr vs) \<Rightarrow> Some (strings vs) | _ \<Rightarrow> None)"
    by (simp add: parsePermissions_def map_of_fold_parse split: option.split jval.split)
qed

theorem parsePermissions_rows_witness:
  "\<not> hasPermission (parsePermissions (JArr [JStr ''*''])) ''resource.pod.read'' ''a'' \<and>
   map_of (parsePermissions (JObj [(''a'', JArr [JStr ''x.y'', JNum 3])])) ''a'' = Some [''x.y'']"
  using parsePermissions_rows [of "JArr [JStr ''*'']" "''resource.pod.read''" "''a''"
      "[(''a'', JArr [JStr ''x.y'', JNum 3])]"]
  by (simp add: strings_def)

text \<open>
  the namespace list of a grant. What the form's text parses to is sorted, without repeats, and of
  lower-case words without separators; writing it back with commas and parsing again gives the same list.
\<close>

theorem parseNamespaceList_canonical:
  "sorted (parseNamespaceList text) \<and> distinct (parseNamespaceList text) \<and>
   list_all ns_word (parseNamespaceList text) \<and>
   parseNamespaceList (join '','' (parseNamespaceList text)) = parseNamespaceList text"
proof -
  let ?l = "parseNamespaceList text" and ?sep = "\<lambda>c. is_ws c \<or> c = CHR '',''"
  have d: "sorted ?l" "distinct ?l"
    by (simp_all add: parseNamespaceList_def distinct_add_namespaces)
  have w: "\<forall>n\<in>set ?l. ns_word n"
    using parseNamespaceList_words by blast
  have "parseNamespaceList (join '','' ?l) = ?l"
  proof (cases "?l = []")
    case True
    have "parseNamespaceList [] = []" by (simp add: parseNamespaceList_def trim_no_ws toLowerCase_def add_namespace_def)
    with True show ?thesis by simp
  next
    case False
    with w have "splitRuns ?sep (join '','' ?l) = ?l"
      by (intro splitRuns_join) (auto simp: ns_word_def)
    then have "parseNamespaceList (join '','' ?l) = sort (fold add_namespace ?l [])"
      by (simp only: parseNamespaceList_def [of "join '','' ?l"])
    also have "\<dots> = sort (fold set_add ?l [])" by (simp only: add_namespaces_fixed [OF w])
    finally have "parseNamespaceList (join '','' ?l) = sort (fold set_add ?l [])" .
    then show ?thesis
      using d by (simp add: fold_set_add_distinct sorted_sort_id)
  qed
  with d w show ?thesis by (simp add: list_all_iff)
qed

end
