(* ===== verification/Chat_Value.thy ===== *)
theory Chat_Value
  imports Prelude
begin

text \<open>
  Texts and values of the chat. An answer holds letters of every language and emoji, and the chat
  stream keeps positions in it, so a text here is the list of its UTF-16 code units (\<open>ustr\<close>), as
  JavaScript's \<^verbatim>\<open>length\<close>, \<^verbatim>\<open>indexOf\<close> and \<^verbatim>\<open>slice\<close> count them. A value of a stream event is a \<open>cval\<close>;
  \<open>json_pretty\<close> is \<^verbatim>\<open>JSON.stringify(value, null, 2)\<close> of it.
\<close>

type_synonym ustr = "nat list"

definition u :: "string \<Rightarrow> ustr" where
  "u s = map of_char s"

abbreviation nl :: ustr where
  "nl \<equiv> [10]"

text \<open>Code units with no ASCII name that the sources write.\<close>

definition WRENCH :: ustr where "WRENCH = [55357, 56615]"
definition CLIPBOARD :: ustr where "CLIPBOARD = [55357, 56523]"
definition BAR_CHART :: ustr where "BAR_CHART = [55357, 56522]"
definition LOCK :: ustr where "LOCK = [55357, 56592]"
definition RECEIPT :: ustr where "RECEIPT = [55358, 56830]"
definition WARNING :: ustr where "WARNING = [9888, 65039]"
definition MIDDLE_DOT :: ustr where "MIDDLE_DOT = [183]"
definition ARROW :: ustr where "ARROW = [8594]"
definition CHECK_MARK :: ustr where "CHECK_MARK = [10003]"

lemma length_u [simp]: "length (u s) = length s"
  by (simp add: u_def)

text \<open>\<^verbatim>\<open>\s\<close> of a regular expression, which is also what \<^verbatim>\<open>trim\<close> drops.\<close>

definition ws_unit :: "nat \<Rightarrow> bool" where
  "ws_unit c \<longleftrightarrow> c \<in> {9, 10, 11, 12, 13, 32, 160, 5760, 8232, 8233, 8239, 8287, 12288, 65279} \<or> (8192 \<le> c \<and> c \<le> 8202)"

definition utrim_start :: "ustr \<Rightarrow> ustr" where
  "utrim_start s = dropWhile ws_unit s"

text \<open>\<^verbatim>\<open>s.replace(/\s+$/, '')\<close>.\<close>

definition utrim_end :: "ustr \<Rightarrow> ustr" where
  "utrim_end s = rev (dropWhile ws_unit (rev s))"

definition utrim :: "ustr \<Rightarrow> ustr" where
  "utrim s = utrim_end (utrim_start s)"

text \<open>\<^verbatim>\<open>s.indexOf(p, at)\<close>.\<close>

definition indexFrom :: "ustr \<Rightarrow> ustr \<Rightarrow> nat \<Rightarrow> nat option" where
  "indexFrom s p i = map_option ((+) i) (indexOf (drop i s) p)"

fun ujoin :: "ustr \<Rightarrow> ustr list \<Rightarrow> ustr" where
  "ujoin sep [] = []"
| "ujoin sep [s] = s"
| "ujoin sep (s # ss) = s @ sep @ ujoin sep ss"

text \<open>\<^verbatim>\<open>for (const ch of s)\<close>: the code points, a surrogate pair as one.\<close>

definition high_surrogate :: "nat \<Rightarrow> bool" where
  "high_surrogate c \<longleftrightarrow> 55296 \<le> c \<and> c \<le> 56319"

definition low_surrogate :: "nat \<Rightarrow> bool" where
  "low_surrogate c \<longleftrightarrow> 56320 \<le> c \<and> c \<le> 57343"

fun code_points :: "ustr \<Rightarrow> ustr list" where
  "code_points [] = []"
| "code_points [c] = [[c]]"
| "code_points (c # d # s) = (if high_surrogate c \<and> low_surrogate d then [c, d] # code_points s
     else [c] # code_points (d # s))"

lemma concat_code_points [simp]: "concat (code_points s) = s"
  by (induction s rule: code_points.induct) auto

section \<open>Values\<close>

datatype cval =
    CUndef
  | CNull
  | CBool bool
  | CNum int
  | CStr ustr
  | CArr "cval list"
  | CObj "(ustr \<times> cval) list"

fun ctruthy :: "cval \<Rightarrow> bool" where
  "ctruthy CUndef = False"
| "ctruthy CNull = False"
| "ctruthy (CBool b) = b"
| "ctruthy (CNum n) = (n \<noteq> 0)"
| "ctruthy (CStr s) = (s \<noteq> [])"
| "ctruthy (CArr _) = True"
| "ctruthy (CObj _) = True"

fun cnullish :: "cval \<Rightarrow> bool" where
  "cnullish CUndef = True"
| "cnullish CNull = True"
| "cnullish _ = False"

fun cget :: "cval \<Rightarrow> string \<Rightarrow> cval" where
  "cget (CObj kvs) k = (case map_of kvs (u k) of Some v \<Rightarrow> v | None \<Rightarrow> CUndef)"
| "cget _ k = CUndef"

fun ctypeof_object :: "cval \<Rightarrow> bool" where
  "ctypeof_object CNull = True"
| "ctypeof_object (CArr _) = True"
| "ctypeof_object (CObj _) = True"
| "ctypeof_object _ = False"

text \<open>The number of own property names (\<^verbatim>\<open>Object.keys(v).length\<close>).\<close>

fun key_count :: "cval \<Rightarrow> nat" where
  "key_count (CObj kvs) = length kvs"
| "key_count (CArr xs) = length xs"
| "key_count _ = 0"

fun cstr :: "cval \<Rightarrow> ustr" where
  "cstr CUndef = u ''undefined''"
| "cstr CNull = u ''null''"
| "cstr (CBool b) = (if b then u ''true'' else u ''false'')"
| "cstr (CNum n) = u (show_int n)"
| "cstr (CStr s) = s"
| "cstr (CArr xs) = ujoin (u '','') (map (\<lambda>x. if cnullish x then [] else cstr x) xs)"
| "cstr (CObj _) = u ''[object Object]''"

text \<open>\<^verbatim>\<open>String(v || '')\<close>.\<close>

definition cstr_or_empty :: "cval \<Rightarrow> ustr" where
  "cstr_or_empty v = (if ctruthy v then cstr v else [])"

section \<open>JSON.stringify(value, null, 2)\<close>

definition hex_digit :: "nat \<Rightarrow> nat" where
  "hex_digit d = (if d < 10 then 48 + d else 87 + d)"

definition unicode_escape :: "nat \<Rightarrow> ustr" where
  "unicode_escape c = u [CHR 0x5C, CHR ''u''] @
     [hex_digit (c div 4096 mod 16), hex_digit (c div 256 mod 16), hex_digit (c div 16 mod 16), hex_digit (c mod 16)]"

definition quote_unit :: "nat \<Rightarrow> ustr" where
  "quote_unit c =
     (if c = 34 then [92, 34] else if c = 92 then [92, 92]
      else if c = 8 then [92, 98] else if c = 12 then [92, 102] else if c = 10 then [92, 110]
      else if c = 13 then [92, 114] else if c = 9 then [92, 116]
      else if c < 32 then unicode_escape c else [c])"

text \<open>A surrogate without its other half is escaped.\<close>

definition quote_point :: "ustr \<Rightarrow> ustr" where
  "quote_point p = (case p of
      [c] \<Rightarrow> if high_surrogate c \<or> low_surrogate c then unicode_escape c else quote_unit c
    | _ \<Rightarrow> p)"

definition json_quote :: "ustr \<Rightarrow> ustr" where
  "json_quote s = [34] @ concat (map quote_point (code_points s)) @ [34]"

fun json_pretty :: "ustr \<Rightarrow> cval \<Rightarrow> ustr" where
  "json_pretty ind CUndef = u ''undefined''"
| "json_pretty ind CNull = u ''null''"
| "json_pretty ind (CBool b) = (if b then u ''true'' else u ''false'')"
| "json_pretty ind (CNum n) = u (show_int n)"
| "json_pretty ind (CStr s) = json_quote s"
| "json_pretty ind (CArr xs) =
     (if xs = [] then u ''[]''
      else let inner = ind @ [32, 32] in
        [91, 10] @ ujoin ([44, 10]) (map (\<lambda>x. inner @ (if x = CUndef then u ''null'' else json_pretty inner x)) xs) @
        [10] @ ind @ [93])"
| "json_pretty ind (CObj kvs) =
     (let inner = ind @ [32, 32];
          shown = concat (map (\<lambda>(k, x). if x = CUndef then [] else [inner @ json_quote k @ [58, 32] @ json_pretty inner x]) kvs)
      in if shown = [] then u ''{}'' else [123, 10] @ ujoin [44, 10] shown @ [10] @ ind @ [125])"

section \<open>Positions\<close>

lemma startsWith_drop_append:
  "i + length p \<le> length a \<Longrightarrow> startsWith (drop i (a @ b)) p = startsWith (drop i a) p"
  by (simp add: startsWith_def)

lemma startsWith_bound: "startsWith (drop i s) p \<Longrightarrow> p \<noteq> [] \<Longrightarrow> i + length p \<le> length s"
  by (metis Nat.le_diff_conv2 add.commute drop_all length_append length_drop length_greater_0_conv le_add1
      nat_le_linear startsWith_iff append_is_Nil_conv)

lemma indexOf_SomeD: "indexOf s p = Some i \<Longrightarrow> startsWith (drop i s) p \<and> i \<le> length s \<and> (\<forall>j<i. \<not> startsWith (drop j s) p)"
proof (induction s arbitrary: i)
  case (Cons c s)
  show ?case
  proof (cases "startsWith (c # s) p")
    case True
    with Cons.prems show ?thesis by simp
  next
    case False
    with Cons.prems obtain k where k: "indexOf s p = Some k" "i = Suc k" by auto
    with Cons.IH False show ?thesis by (auto simp: less_Suc_eq_0_disj)
  qed
qed (auto split: if_splits)

lemma indexOf_le: "startsWith (drop j s) p \<Longrightarrow> j \<le> length s \<Longrightarrow> \<exists>i\<le>j. indexOf s p = Some i"
proof (induction s arbitrary: j)
  case Nil
  then show ?case by (auto simp: startsWith_def)
next
  case (Cons c s)
  show ?case
  proof (cases "startsWith (c # s) p")
    case False
    with Cons.prems obtain k where "j = Suc k" by (cases j) auto
    with Cons False show ?thesis by force
  qed auto
qed

lemma indexFrom_SomeD:
  "indexFrom s p i = Some e \<Longrightarrow> i \<le> e \<and> startsWith (drop e s) p"
  by (auto simp: indexFrom_def dest!: indexOf_SomeD simp: add.commute)

lemma indexFrom_le:
  assumes "startsWith (drop j s) p" "i \<le> j" "j \<le> length s"
  shows "\<exists>e. indexFrom s p i = Some e \<and> i \<le> e \<and> e \<le> j"
proof -
  have "startsWith (drop (j - i) (drop i s)) p" using assms by simp
  moreover have "j - i \<le> length (drop i s)" using assms by simp
  ultimately obtain k where "k \<le> j - i" "indexOf (drop i s) p = Some k"
    using indexOf_le by blast
  then show ?thesis using assms(2) by (simp add: indexFrom_def)
qed

lemma utrim_end_nonws: "s \<noteq> [] \<Longrightarrow> \<not> ws_unit (last s) \<Longrightarrow> utrim_end s = s"
  by (cases s rule: rev_cases) (simp_all add: utrim_end_def)

text \<open>What \<open>utrim_end\<close> drops is a run of spaces at the end.\<close>

lemma utrim_end_split: "\<exists>w. s = utrim_end s @ w \<and> (\<forall>c\<in>set w. ws_unit c)"
proof (intro exI conjI)
  have "rev s = takeWhile ws_unit (rev s) @ dropWhile ws_unit (rev s)" by simp
  then have "rev (rev s) = rev (dropWhile ws_unit (rev s)) @ rev (takeWhile ws_unit (rev s))"
    by (metis rev_append)
  then show "s = utrim_end s @ rev (takeWhile ws_unit (rev s))" by (simp add: utrim_end_def)
  show "\<forall>c\<in>set (rev (takeWhile ws_unit (rev s))). ws_unit c" by (auto dest: set_takeWhileD)
qed

text \<open>A word that ends in no space stays where it is when the spaces at the end go.\<close>

lemma append_prefix_ws:
  assumes "a @ p @ t = b @ w" "p \<noteq> []" "\<not> ws_unit (last p)" "\<forall>c\<in>set w. ws_unit c"
  shows "length (a @ p) \<le> length b"
proof (rule ccontr)
  assume n: "\<not> ?thesis"
  define x where "x = a @ p"
  define r where "r = drop (length b) x"
  have "x @ t = b @ w" "length b < length x" using assms(1) n by (simp_all add: x_def)
  then have x: "take (length b) x = b" "r @ t = w"
    by (auto simp: append_eq_append_conv_if r_def)
  have r: "a @ p = b @ r" "r \<noteq> []"
    using x(1) \<open>length b < length x\<close> append_take_drop_id [of "length b" x] by (simp add: r_def x_def, simp add: r_def)
  have "w = r @ t" using x(2) by simp
  moreover have "last p = last r" using r assms(2) by (metis last_appendR)
  ultimately have "last p \<in> set w" using r(2) by simp
  with assms(3,4) show False by blast
qed

lemma utrim_end_keeps:
  assumes "startsWith (drop i s) p" "p \<noteq> []" "\<not> ws_unit (last p)" "i \<le> length s"
  shows "i + length p \<le> length (utrim_end s) \<and> startsWith (drop i (utrim_end s)) p"
proof -
  from utrim_end_split obtain w where w: "s = utrim_end s @ w" "\<forall>c\<in>set w. ws_unit c" by blast
  from assms(1) obtain t where t: "drop i s = p @ t" by (auto simp: startsWith_iff)
  have "take i s @ p @ t = utrim_end s @ w" using t w(1) by (metis append_take_drop_id)
  then have "length (take i s @ p) \<le> length (utrim_end s)"
    using append_prefix_ws assms(2,3) w(2) by blast
  then have le: "i + length p \<le> length (utrim_end s)" using assms(4) by simp
  have "startsWith (drop i (utrim_end s @ w)) p" using assms(1) w(1) by simp
  with le show ?thesis using startsWith_drop_append [OF le] by simp
qed

end
