(* ===== verification/Chat_Text.thy ===== *)
theory Chat_Text
  imports Chat_Value "HOL-Library.Sublist"
begin

text \<open>
  Fenced code blocks and tool blocks in a chat answer (\<^verbatim>\<open>frontend/src/services/chatTextUtils.ts\<close>).

  The fence reader is a closure over \<^verbatim>\<open>unclosed\<close>, the shortest fence of each mark known to have no
  closing line; here the reader takes that table and returns the next one. \<open>block_end\<close> and
  \<open>closing_spec\<close> read every fence afresh; the lemmas show the table changes no answer.
\<close>

section \<open>Lines and fences\<close>

abbreviation backtick :: nat where "backtick \<equiv> 96"
abbreviation tilde :: nat where "tilde \<equiv> 126"
abbreviation space :: nat where "space \<equiv> 32"

definition slice :: "ustr \<Rightarrow> nat \<Rightarrow> nat \<Rightarrow> ustr" where
  "slice s i j = take (j - i) (drop i s)"

definition lineEnd :: "ustr \<Rightarrow> nat \<Rightarrow> nat" where
  "lineEnd s i = (case indexFrom s nl i of None \<Rightarrow> length s | Some e \<Rightarrow> e)"

text \<open>\<^verbatim>\<open>/^ {0,3}(?:(`{3,})[^`]*|(~{3,})[^\n]*)$/\<close>: the run of marks, if the line opens a block.\<close>

definition FENCE_OPEN :: "ustr \<Rightarrow> ustr option" where
  "FENCE_OPEN line =
     (let rest = dropWhile ((=) space) line; ticks = takeWhile ((=) backtick) rest; tildes = takeWhile ((=) tilde) rest in
      if length line - length rest > 3 then None
      else if length ticks \<ge> 3 \<and> backtick \<notin> set (drop (length ticks) rest) then Some ticks
      else if length tildes \<ge> 3 \<and> 10 \<notin> set rest then Some tildes
      else None)"

text \<open>\<^verbatim>\<open>/^ {0,3}(`{3,}|~{3,})[ \t\r]*$/\<close>.\<close>

definition FENCE_CLOSE :: "ustr \<Rightarrow> ustr option" where
  "FENCE_CLOSE line =
     (let rest = dropWhile ((=) space) line; ticks = takeWhile ((=) backtick) rest; tildes = takeWhile ((=) tilde) rest in
      if length line - length rest > 3 then None
      else if length ticks \<ge> 3 \<and> set (drop (length ticks) rest) \<subseteq> {32, 9, 13} then Some ticks
      else if length tildes \<ge> 3 \<and> set (drop (length tildes) rest) \<subseteq> {32, 9, 13} then Some tildes
      else None)"

text \<open>A line closes a fence: the same mark, at least as long.\<close>

definition closes :: "ustr \<Rightarrow> ustr \<Rightarrow> bool" where
  "closes fence line \<longleftrightarrow> (case FENCE_CLOSE line of
      None \<Rightarrow> False
    | Some c \<Rightarrow> hd c = hd fence \<and> length fence \<le> length c)"

lemma lineEnd_ge: "i \<le> length s \<Longrightarrow> i \<le> lineEnd s i"
  by (auto simp: lineEnd_def dest: indexFrom_SomeD split: option.splits)

lemma startsWith_unit: "startsWith (drop i s) [c] \<longleftrightarrow> i < length s \<and> s ! i = c"
  by (cases "i < length s") (auto simp: startsWith_def simp flip: Cons_nth_drop_Suc)

lemma indexFrom_nl_bound: "indexFrom s nl i = Some e \<Longrightarrow> e < length s \<and> s ! e = 10"
  by (drule indexFrom_SomeD) (simp add: startsWith_unit)

lemma lineEnd_le: "lineEnd s i \<le> length s"
  using indexFrom_nl_bound [of s i] by (auto simp: lineEnd_def split: option.splits)

text \<open>The next line is nearer to the end of the text.\<close>

lemma next_line_decr:
  "i \<le> length s \<Longrightarrow> length s - lineEnd s i < Suc (length s) - i"
  "i < length s \<Longrightarrow> length s - Suc (lineEnd s i) < length s - i"
  using lineEnd_ge [of i s] by linarith+

text \<open>The loop of the fence reader over the lines below the opening one.\<close>

function find_close :: "ustr \<Rightarrow> ustr \<Rightarrow> nat \<Rightarrow> nat option" where
  "find_close s fence line =
     (if line \<le> length s then
        (let e = lineEnd s line in
         if closes fence (slice s line e) then Some (min (e + 1) (length s))
         else find_close s fence (e + 1))
      else None)"
  by pat_completeness auto
termination
  by (relation "measure (\<lambda>(s, fence, line). Suc (length s) - line)")
    (auto simp: next_line_decr)

declare find_close.simps [simp del]

text \<open>
  One call of the reader: where the block that opens at \<open>i\<close> ends (\<open>None\<close> for -1), and the table
  after the call.
\<close>

definition fence_end :: "ustr \<Rightarrow> (nat \<times> nat) list \<Rightarrow> nat \<Rightarrow> nat option \<times> (nat \<times> nat) list" where
  "fence_end s unclosed i =
     (case FENCE_OPEN (slice s i (lineEnd s i)) of
        None \<Rightarrow> (None, unclosed)
      | Some fence \<Rightarrow>
          if (case map_of unclosed (hd fence) of None \<Rightarrow> False | Some n \<Rightarrow> n \<le> length fence) then (None, unclosed)
          else case find_close s fence (lineEnd s i + 1) of
            Some e \<Rightarrow> (Some e, unclosed)
          | None \<Rightarrow> (None, AList.update (hd fence) (length fence) unclosed))"

lemma find_close_bound: "find_close s fence line = Some e \<Longrightarrow> line \<le> e \<and> e \<le> length s"
proof (induction s fence line rule: find_close.induct)
  case (1 s fence line)
  then have l: "line \<le> length s" by (subst (asm) find_close.simps) (auto split: if_splits)
  with 1 show ?case
    using lineEnd_ge [OF l]
    by (subst (asm) (2) find_close.simps) (auto simp: Let_def split: if_splits)
qed

lemma fence_end_gt: "fence_end s un i = (Some e, un') \<Longrightarrow> i < length s \<Longrightarrow> i < e \<and> e \<le> length s"
  using lineEnd_ge [of i s]
  by (fastforce simp: fence_end_def dest: find_close_bound split: option.splits if_splits)

lemma fence_end_decr: "(Some e, un') = fence_end s un i \<Longrightarrow> i < length s \<Longrightarrow> length s - e < length s - i"
  using fence_end_gt [of s un i e un'] by (auto intro: diff_less_mono2)

section \<open>closingFence and codeBlocks\<close>

definition indentOf :: "ustr \<Rightarrow> nat" where
  "indentOf line = length line - length (utrim_start line)"

definition ended_below :: "ustr \<Rightarrow> nat \<Rightarrow> bool" where
  "ended_below rest indent = list_ex (\<lambda>line. utrim line \<noteq> [] \<and> indentOf line < indent) (split 10 rest)"

function closing_from :: "ustr \<Rightarrow> (nat \<times> nat) list \<Rightarrow> nat \<Rightarrow> ustr option" where
  "closing_from s un i =
     (if i < length s then
        (case fence_end s un i of
           (Some e, un') \<Rightarrow> closing_from s un' e
         | (None, un') \<Rightarrow>
             (let next = lineEnd s i; line = slice s i next in
              case FENCE_OPEN line of
                Some fence \<Rightarrow>
                  if ended_below (drop next s) (indentOf line) then closing_from s un' (next + 1)
                  else Some (replicate (indentOf line) space @ fence)
              | None \<Rightarrow> closing_from s un' (next + 1)))
      else None)"
  by pat_completeness auto
termination
  by (relation "measure (\<lambda>(s, un, i). length s - i)") (auto simp: next_line_decr fence_end_decr)

definition closingFence :: "ustr \<Rightarrow> ustr option" where
  "closingFence s = closing_from s [] 0"

function blocks_from :: "ustr \<Rightarrow> (nat \<times> nat) list \<Rightarrow> nat \<Rightarrow> (nat \<times> nat) list" where
  "blocks_from s un i =
     (if i < length s then
        (case fence_end s un i of
           (Some e, un') \<Rightarrow> (i, e) # blocks_from s un' e
         | (None, un') \<Rightarrow> blocks_from s un' (lineEnd s i + 1))
      else [])"
  by pat_completeness auto
termination
  by (relation "measure (\<lambda>(s, un, i). length s - i)") (auto simp: next_line_decr fence_end_decr)

definition codeBlocks :: "ustr \<Rightarrow> (nat \<times> nat) list" where
  "codeBlocks s = blocks_from s [] 0"

declare closing_from.simps [simp del] blocks_from.simps [simp del]

section \<open>stripToolDetails\<close>

text \<open>The first position from \<open>i\<close> on where a pattern matches (a global regular expression's \<^verbatim>\<open>lastIndex\<close>).\<close>

fun search :: "(ustr \<Rightarrow> bool) \<Rightarrow> ustr \<Rightarrow> nat option" where
  "search p [] = None"
| "search p (c # s) = (if p (c # s) then Some 0 else map_option Suc (search p s))"

definition search_from :: "(ustr \<Rightarrow> bool) \<Rightarrow> ustr \<Rightarrow> nat \<Rightarrow> nat option" where
  "search_from p s i = map_option ((+) i) (search p (drop i s))"

definition DETAILS :: ustr where "DETAILS = u ''<details>''"
definition END_DETAILS :: ustr where "END_DETAILS = u ''</details>''"

definition TOOL_BLOCK_START :: "ustr \<Rightarrow> bool" where
  "TOOL_BLOCK_START s \<longleftrightarrow> startsWith s DETAILS \<and>
     startsWith (dropWhile (\<lambda>c. c \<in> {32, 9, 13, 10}) (drop (length DETAILS) s)) (u ''<summary>'' @ WRENCH)"

definition DETAILS_TAG :: "ustr \<Rightarrow> bool" where
  "DETAILS_TAG s \<longleftrightarrow> startsWith s DETAILS \<or> startsWith s END_DETAILS"

text \<open>
  \<^verbatim>\<open>codeEnd\<close>: the blocks from \<^verbatim>\<open>inBlock\<close> on are a list; the blocks that end at or before the position
  leave it.
\<close>

definition codeEnd :: "(nat \<times> nat) list \<Rightarrow> nat \<Rightarrow> nat option \<times> (nat \<times> nat) list" where
  "codeEnd blocks i =
     (let rest = dropWhile (\<lambda>b. snd b \<le> i) blocks in
      case rest of
        [] \<Rightarrow> (None, rest)
      | b # _ \<Rightarrow> if fst b \<le> i then (Some (snd b), rest) else (None, rest))"

lemma dropWhile_hd: "dropWhile p xs = x # ys \<Longrightarrow> \<not> p x"
  by (induction xs) (auto split: if_splits)

lemma codeEnd_gt: "codeEnd blocks i = (Some e, rest) \<Longrightarrow> i < e"
  by (auto simp: codeEnd_def Let_def split: list.splits if_splits dest!: dropWhile_hd [OF sym])

lemma search_bound: "search p s = Some j \<Longrightarrow> j < length s \<and> p (drop j s)"
  by (induction s arbitrary: j) (auto split: if_splits)

lemma search_from_bound: "search_from p s i = Some j \<Longrightarrow> i \<le> j \<and> j < length s \<and> p (drop j s)"
  by (auto simp: search_from_def add.commute dest!: search_bound)

text \<open>The end of an outer block: the depth of the tags outside code comes back to 0.\<close>

function details_end :: "ustr \<Rightarrow> (nat \<times> nat) list \<Rightarrow> int \<Rightarrow> nat \<Rightarrow> nat \<times> (nat \<times> nat) list" where
  "details_end s blocks depth j =
     (case search_from DETAILS_TAG s j of
        None \<Rightarrow> (length s, blocks)
      | Some t \<Rightarrow>
          (case codeEnd blocks t of
             (Some e, blocks') \<Rightarrow> details_end s blocks' depth e
           | (None, blocks') \<Rightarrow>
               (let opening = startsWith (drop t s) DETAILS;
                    j' = t + (if opening then length DETAILS else length END_DETAILS);
                    depth' = depth + (if opening then 1 else -1) in
                if depth' = 0 then (j', blocks') else details_end s blocks' depth' j')))"
  by pat_completeness auto
termination
  by (relation "measure (\<lambda>(s, blocks, depth, j). length s - j)")
    (auto simp: DETAILS_def END_DETAILS_def dest!: codeEnd_gt [OF sym] search_from_bound intro!: diff_less_mono2)

declare details_end.simps [simp del]

lemma details_end_ge: "fst (details_end s blocks depth j) \<ge> min j (length s)"
proof (induction s blocks depth j rule: details_end.induct)
  case (1 s blocks depth j)
  then show ?case
    by (subst details_end.simps)
      (fastforce simp: Let_def dest: codeEnd_gt search_from_bound split: option.split prod.split)
qed

lemma details_end_gt:
  assumes "(e, blocks') = details_end s blocks depth j" "j < length s"
  shows "j < e"
proof -
  have "j < fst (details_end s blocks depth j)"
  proof (cases "search_from DETAILS_TAG s j")
    case None
    with assms(2) show ?thesis by (simp add: details_end.simps)
  next
    case (Some t)
    then have t: "j \<le> t" "t < length s" by (auto dest: search_from_bound)
    obtain c bl where c: "codeEnd blocks t = (c, bl)" by fastforce
    have later: "t < k \<Longrightarrow> j < fst (details_end s bl' d k)" for bl' d k
      using details_end_ge [of k s bl' d] t by (auto simp: min_def split: if_splits)
    show ?thesis
      by (cases c) (use c codeEnd_gt [of blocks t _ bl] t Some later in
          \<open>auto simp: details_end.simps [of s blocks] Let_def DETAILS_def END_DETAILS_def\<close>)
  qed
  with assms(1) show ?thesis by (metis fst_conv)
qed

definition skip_blanks :: "ustr \<Rightarrow> nat \<Rightarrow> nat" where
  "skip_blanks s i = i + length (takeWhile (\<lambda>c. c \<in> {10, 13, 32, 9}) (drop i s))"

lemma skip_blanks_ge: "i \<le> skip_blanks s i"
  by (simp add: skip_blanks_def)

function strip_from :: "ustr \<Rightarrow> (nat \<times> nat) list \<Rightarrow> ustr \<Rightarrow> nat \<Rightarrow> ustr" where
  "strip_from s blocks result i =
     (case search_from TOOL_BLOCK_START s i of
        None \<Rightarrow> result @ drop i s
      | Some j \<Rightarrow>
          (case codeEnd blocks j of
             (Some e, blocks') \<Rightarrow> strip_from s blocks' (result @ slice s i e) e
           | (None, blocks') \<Rightarrow>
               if j > 0 \<and> s ! (j - 1) \<noteq> 10 then strip_from s blocks' (result @ slice s i (j + 1)) (j + 1)
               else (case details_end s blocks' 0 j of
                  (e, blocks'') \<Rightarrow> strip_from s blocks'' (result @ slice s i j) (skip_blanks s e))))"
  by pat_completeness auto
termination
  by (relation "measure (\<lambda>(s, blocks, result, i). length s - i)")
    (auto dest!: codeEnd_gt [OF sym] search_from_bound details_end_gt
      intro!: diff_less_mono2 elim!: le_less_trans intro: less_le_trans [OF _ skip_blanks_ge])

declare strip_from.simps [simp del]

definition stripToolDetails :: "ustr \<Rightarrow> ustr" where
  "stripToolDetails s = (if s = [] then s else strip_from s (codeBlocks s) [] 0)"

section \<open>The table of unclosed fences changes no answer\<close>

text \<open>What the reader answers without the table.\<close>

definition block_end :: "ustr \<Rightarrow> nat \<Rightarrow> nat option" where
  "block_end s i = (case FENCE_OPEN (slice s i (lineEnd s i)) of
      None \<Rightarrow> None
    | Some fence \<Rightarrow> find_close s fence (lineEnd s i + 1))"

lemma closes_longer: "closes f' line \<Longrightarrow> hd f = hd f' \<Longrightarrow> length f \<le> length f' \<Longrightarrow> closes f line"
  by (auto simp: closes_def split: option.splits)

lemma find_close_longer:
  "find_close s f line = None \<Longrightarrow> hd f = hd f' \<Longrightarrow> length f \<le> length f' \<Longrightarrow> find_close s f' line = None"
proof (induction s f' line rule: find_close.induct)
  case (1 s f' line)
  show ?case
    using 1 closes_longer [of f' _ f]
    by (subst find_close.simps, subst (asm) (2) find_close.simps) (auto simp: Let_def split: if_splits)
qed

lemma lineEnd_within:
  assumes "i \<le> x" "x \<le> lineEnd s i"
  shows "lineEnd s x = lineEnd s i"
proof (cases "indexFrom s nl i")
  case None
  then have n: "\<not> (k < length s \<and> s ! k = 10)" if "i \<le> k" for k
    using indexFrom_le [of k s nl i] that by (auto simp: startsWith_unit)
  have "indexFrom s nl x = None"
  proof (rule ccontr)
    assume "indexFrom s nl x \<noteq> None"
    then obtain k where "indexFrom s nl x = Some k" by blast
    then show False
      using indexFrom_nl_bound [of s x k] indexFrom_SomeD [of s nl x k] n [of k] assms(1) by simp
  qed
  with None show ?thesis by (simp add: lineEnd_def)
next
  case (Some e)
  then have e: "e < length s" "s ! e = 10" "lineEnd s i = e" "i \<le> e"
    by (auto simp: lineEnd_def dest: indexFrom_nl_bound indexFrom_SomeD)
  then obtain k where k: "indexFrom s nl x = Some k" "x \<le> k" "k \<le> e"
    using indexFrom_le [of e s nl x] assms(2) by (auto simp: startsWith_unit)
  then obtain k' where "indexFrom s nl i = Some k'" "k' \<le> k"
    using indexFrom_le [of k s nl i] indexFrom_SomeD [of s nl x k] assms(1) indexFrom_nl_bound [OF k(1)] by auto
  with Some k e show ?thesis by (simp add: lineEnd_def)
qed

lemma find_close_later:
  "find_close s f line = None \<Longrightarrow> line \<le> x \<Longrightarrow> find_close s f (lineEnd s x + 1) = None"
proof (induction s f line rule: find_close.induct)
  case (1 s f line)
  show ?case
  proof (cases "x \<le> length s")
    case True
    then have next_line: "\<not> closes f (slice s line (lineEnd s line))" "find_close s f (lineEnd s line + 1) = None"
      using 1(2,3) by (subst (asm) find_close.simps; auto simp: Let_def split: if_splits)+
    show ?thesis
    proof (cases "x \<le> lineEnd s line")
      case True
      with next_line 1(3) show ?thesis by (simp add: lineEnd_within)
    next
      case False
      with 1(1) [OF _ refl next_line] True 1(3) show ?thesis by simp
    qed
  next
    case False
    then have "lineEnd s x = length s"
      by (simp add: lineEnd_def indexFrom_def)
    then show ?thesis by (subst find_close.simps) simp
  qed
qed

text \<open>The table is right from position \<open>i\<close> on: no fence of a mark and a length it names closes.\<close>

definition unclosed_ok :: "ustr \<Rightarrow> nat \<Rightarrow> (nat \<times> nat) list \<Rightarrow> bool" where
  "unclosed_ok s i un \<longleftrightarrow> (\<forall>f. (\<exists>n. map_of un (hd f) = Some n \<and> n \<le> length f) \<longrightarrow>
     (\<forall>x\<ge>i. find_close s f (lineEnd s x + 1) = None))"

lemma unclosed_ok_Nil [simp]: "unclosed_ok s i []"
  by (simp add: unclosed_ok_def)

lemma unclosed_ok_mono: "unclosed_ok s i un \<Longrightarrow> i \<le> j \<Longrightarrow> unclosed_ok s j un"
  by (auto simp: unclosed_ok_def)

lemma fence_end_block_end:
  assumes "unclosed_ok s i un" "i < length s"
  shows "fst (fence_end s un i) = block_end s i \<and> unclosed_ok s i (snd (fence_end s un i))"
proof (cases "FENCE_OPEN (slice s i (lineEnd s i))")
  case None
  with assms show ?thesis by (simp add: fence_end_def block_end_def)
next
  case (Some fence)
  show ?thesis
  proof (cases "find_close s fence (lineEnd s i + 1)")
    case None
    have "find_close s f (lineEnd s x + 1) = None" if "hd f = hd fence" "length fence \<le> length f" "i \<le> x" for f x
    proof (cases "x \<le> lineEnd s i")
      case True
      then show ?thesis using find_close_longer [OF None] that lineEnd_within [OF that(3)] by simp
    next
      case False
      then show ?thesis using find_close_longer [OF None] that find_close_later [of s f "lineEnd s i + 1" x] by simp
    qed
    with assms(1) have "unclosed_ok s i (AList.update (hd fence) (length fence) un)"
      by (auto simp: unclosed_ok_def update_conv')
    with assms Some None show ?thesis
      by (auto simp: fence_end_def block_end_def split: option.split)
  next
    case (Some e)
    with assms(1) \<open>FENCE_OPEN _ = Some fence\<close> show ?thesis
      by (fastforce simp: fence_end_def block_end_def unclosed_ok_def split: option.split)
  qed
qed

function closing_spec :: "ustr \<Rightarrow> nat \<Rightarrow> ustr option" where
  "closing_spec s i =
     (if i < length s then
        (let next = lineEnd s i; line = slice s i next in
         case FENCE_OPEN line of
           None \<Rightarrow> closing_spec s (next + 1)
         | Some fence \<Rightarrow>
             (case find_close s fence (next + 1) of
                Some e \<Rightarrow> if i < e then closing_spec s e else None
              | None \<Rightarrow> if ended_below (drop next s) (indentOf line) then closing_spec s (next + 1)
                         else Some (replicate (indentOf line) space @ fence)))
      else None)"
  by pat_completeness auto
termination
  by (relation "measure (\<lambda>(s, i). length s - i)") (auto simp: next_line_decr intro: diff_less_mono2)

declare closing_spec.simps [simp del]

function blocks_spec :: "ustr \<Rightarrow> nat \<Rightarrow> (nat \<times> nat) list" where
  "blocks_spec s i =
     (if i < length s then
        (case block_end s i of
           Some e \<Rightarrow> if i < e then (i, e) # blocks_spec s e else []
         | None \<Rightarrow> blocks_spec s (lineEnd s i + 1))
      else [])"
  by pat_completeness auto
termination
  by (relation "measure (\<lambda>(s, i). length s - i)") (auto simp: next_line_decr intro: diff_less_mono2)

declare blocks_spec.simps [simp del]

lemma closing_from_spec: "unclosed_ok s i un \<Longrightarrow> closing_from s un i = closing_spec s i"
proof (induction s un i rule: closing_from.induct)
  case (1 s un i)
  show ?case
  proof (cases "i < length s")
    case True
    obtain r un' where f: "fence_end s un i = (r, un')" by fastforce
    with fence_end_block_end [OF "1.prems" True] have r: "r = block_end s i" "unclosed_ok s i un'" by auto
    have le: "i \<le> lineEnd s i + 1" using lineEnd_ge [of i s] True by simp
    show ?thesis
    proof (cases r)
      case None
      with "1.IH" [OF True f [symmetric]] f r True unclosed_ok_mono [OF r(2) le] show ?thesis
        by (subst closing_from.simps, subst closing_spec.simps)
          (auto simp: block_end_def Let_def split: option.splits)
    next
      case (Some e)
      then have "i < e" using fence_end_gt f True by blast
      with Some "1.IH" [OF True f [symmetric]] f r True unclosed_ok_mono [OF r(2), of e] show ?thesis
        by (subst closing_from.simps, subst closing_spec.simps)
          (auto simp: block_end_def Let_def split: option.splits)
    qed
  qed (subst closing_from.simps, subst closing_spec.simps, simp)
qed

lemma blocks_from_spec: "unclosed_ok s i un \<Longrightarrow> blocks_from s un i = blocks_spec s i"
proof (induction s un i rule: blocks_from.induct)
  case (1 s un i)
  show ?case
  proof (cases "i < length s")
    case True
    obtain r un' where f: "fence_end s un i = (r, un')" by fastforce
    with fence_end_block_end [OF "1.prems" True] have r: "r = block_end s i" "unclosed_ok s i un'" by auto
    have "i \<le> lineEnd s i + 1" using lineEnd_ge [of i s] True by simp
    moreover have "i < e" if "r = Some e" for e using fence_end_gt f True that by blast
    ultimately show ?thesis
      using "1.IH" [OF True f [symmetric]] f r True unclosed_ok_mono [OF r(2)]
      by (subst blocks_from.simps, subst blocks_spec.simps) (auto split: option.splits)
  qed (subst blocks_from.simps, subst blocks_spec.simps, simp)
qed

lemma closingFence_spec: "closingFence s = closing_spec s 0"
  by (simp add: closingFence_def closing_from_spec)

text \<open>The code blocks found: each is a fence and its closing line, in order, apart from each other.\<close>

definition blocks_ok :: "ustr \<Rightarrow> nat \<Rightarrow> (nat \<times> nat) list \<Rightarrow> bool" where
  "blocks_ok s i bs \<longleftrightarrow> sorted_wrt (\<lambda>b c. snd b \<le> fst c) bs \<and>
     (\<forall>(a, b)\<in>set bs. i \<le> a \<and> a < b \<and> b \<le> length s \<and> block_end s a = Some b)"

lemma blocks_ok_mono: "blocks_ok s j bs \<Longrightarrow> i \<le> j \<Longrightarrow> blocks_ok s i bs"
  by (auto simp: blocks_ok_def)

lemma blocks_from_ok: "unclosed_ok s i un \<Longrightarrow> blocks_ok s i (blocks_from s un i)"
proof (induction s un i rule: blocks_from.induct)
  case (1 s un i)
  show ?case
  proof (cases "i < length s")
    case True
    obtain r un' where f: "fence_end s un i = (r, un')" by fastforce
    with fence_end_block_end [OF "1.prems" True] have r: "r = block_end s i" "unclosed_ok s i un'" by auto
    have le: "i \<le> lineEnd s i + 1" using lineEnd_ge [of i s] True by simp
    show ?thesis
    proof (cases r)
      case None
      with "1.IH" [OF True f [symmetric]] f True unclosed_ok_mono [OF r(2) le] show ?thesis
        by (subst blocks_from.simps) (auto intro: blocks_ok_mono [OF _ le [simplified]])
    next
      case (Some e)
      then have e: "i < e" "e \<le> length s" using fence_end_gt f True by blast+
      have "blocks_ok s e (blocks_from s un' e)"
        using Some "1.IH" [OF True f [symmetric]] unclosed_ok_mono [OF r(2)] e by simp
      then have "blocks_ok s i ((i, e) # blocks_from s un' e)"
        using e r(1) Some by (fastforce simp: blocks_ok_def)
      then show ?thesis using f True Some by (subst blocks_from.simps) simp
    qed
  qed (subst blocks_from.simps, simp add: blocks_ok_def)
qed

section \<open>The closing line closes\<close>

lemma indexOf_unit: "indexOf s [c] = (if c \<in> set s then Some (length (takeWhile ((\<noteq>) c) s)) else None)"
  by (induction s) (auto simp: startsWith_def)

lemma takeWhile_without [simp]: "c \<notin> set xs \<Longrightarrow> takeWhile (\<lambda>y. y \<noteq> c) xs = xs"
  by (induction xs) auto

lemma lineEnd_takeWhile: "i \<le> length s \<Longrightarrow> lineEnd s i = i + length (takeWhile ((\<noteq>) 10) (drop i s))"
  by (auto simp: lineEnd_def indexFrom_def indexOf_unit)

lemma lineEnd_append: "i \<le> length s \<Longrightarrow> lineEnd (s @ 10 # c) i = lineEnd s i"
  by (simp add: lineEnd_takeWhile takeWhile_append)
    (simp add: takeWhile_eq_all_conv [THEN iffD2])

lemma line_append: "i \<le> length s \<Longrightarrow> slice (s @ 10 # c) i (lineEnd s i) = slice s i (lineEnd s i)"
  using lineEnd_le [of s i] by (simp add: slice_def)

lemma find_close_append_Some:
  "find_close s f line = Some e \<Longrightarrow> e < length s \<Longrightarrow> find_close (s @ 10 # c) f line = Some e"
proof (induction s f line rule: find_close.induct)
  case (1 s f line)
  have l: "line \<le> length s" using "1.prems" by (subst (asm) find_close.simps) (auto split: if_splits)
  with "1.prems" "1.IH" [OF l refl] show ?case
    by (subst find_close.simps, subst (asm) (2) find_close.simps)
      (auto simp: Let_def lineEnd_append line_append split: if_splits)
qed

lemma find_close_append_None:
  "find_close s f line = None \<Longrightarrow> line \<le> length s + 1 \<Longrightarrow> 10 \<notin> set c \<Longrightarrow>
     find_close (s @ 10 # c) f line = (if closes f c then Some (length (s @ 10 # c)) else None)"
proof (induction s f line rule: find_close.induct)
  case (1 s f line)
  show ?case
  proof (cases "line \<le> length s")
    case True
    with "1.prems" have n: "\<not> closes f (slice s line (lineEnd s line))" "find_close s f (lineEnd s line + 1) = None"
      by (subst (asm) find_close.simps; auto simp: Let_def split: if_splits)+
    with True show ?thesis
      using "1.IH" [OF True refl n] lineEnd_le [of s line] "1.prems"(3)
      by (subst find_close.simps) (simp add: Let_def lineEnd_append line_append)
  next
    case False
    with "1.prems" have line: "line = length s + 1" by simp
    moreover have e: "lineEnd (s @ 10 # c) line = length (s @ 10 # c)"
      using "1.prems"(3) by (simp add: line lineEnd_takeWhile)
    moreover have "find_close (s @ 10 # c) f (length (s @ 10 # c) + 1) = None"
      by (subst find_close.simps) simp
    ultimately show ?thesis
      by (subst find_close.simps) (simp add: Let_def slice_def)
  qed
qed

lemma split_append: "split c (a @ c # b) = split c a @ split c b"
  by (induction a) (auto split: list.split)

lemma ended_below_append: "ended_below r k \<Longrightarrow> ended_below (r @ 10 # c) k"
  by (simp add: ended_below_def split_append)

text \<open>An opening line is some spaces, the fence, and the rest; the closing line is the first two.\<close>

lemma takeWhile_replicate: "takeWhile ((=) m) s = replicate (length (takeWhile ((=) m) s)) m"
  by (induction s) auto

lemma FENCE_OPEN_shape:
  assumes "FENCE_OPEN line = Some f"
  obtains n m k rest where "3 \<le> n" "m \<in> {backtick, tilde}" "f = replicate n m" "k \<le> 3"
    "line = replicate k space @ f @ rest"
proof -
  define rest where "rest = dropWhile ((=) space) line"
  define k where "k = length (takeWhile ((=) space) line)"
  have line: "line = replicate k space @ rest"
    using takeWhile_dropWhile_id [of "(=) space" line] takeWhile_replicate [of space line]
    by (simp add: rest_def k_def)
  then have k: "length line - length rest = k" by (metis add_diff_cancel_right' length_append length_replicate)
  from assms k have "k \<le> 3" and "\<exists>m\<in>{backtick, tilde}. f = takeWhile ((=) m) rest \<and> 3 \<le> length f"
    by (auto simp: FENCE_OPEN_def Let_def rest_def [symmetric] split: if_splits)
  then obtain m where m: "m \<in> {backtick, tilde}" "f = takeWhile ((=) m) rest" "3 \<le> length f" by blast
  moreover have "rest = f @ dropWhile ((=) m) rest" using m(2) by simp
  moreover have "f = replicate (length f) m" using m(2) takeWhile_replicate [of m rest] by simp
  ultimately show thesis using that line \<open>k \<le> 3\<close> by metis
qed

lemma closing_line_closes:
  assumes "FENCE_OPEN line = Some f"
  shows "closes f (replicate (indentOf line) space @ f) \<and> 10 \<notin> set (replicate (indentOf line) space @ f)"
proof -
  from FENCE_OPEN_shape [OF assms] obtain n m k rest where
    s: "3 \<le> n" "m \<in> {backtick, tilde}" "f = replicate n m" "k \<le> 3" "line = replicate k space @ f @ rest" .
  then obtain n' where n: "n = Suc n'" by (cases n) auto
  have "indentOf line = k"
    using s n by (auto simp: indentOf_def utrim_start_def dropWhile_append ws_unit_def)
  moreover have "FENCE_CLOSE (replicate k space @ f) = Some f"
    using s n by (auto simp: FENCE_CLOSE_def Let_def dropWhile_append takeWhile_eq_all_conv [THEN iffD2])
  ultimately show ?thesis using s by (auto simp: closes_def)
qed

lemma closing_spec_line: "closing_spec s i = Some c \<Longrightarrow> 10 \<notin> set c"
proof (induction s i rule: closing_spec.induct)
  case (1 s i)
  then have i: "i < length s" by (subst (asm) (4) closing_spec.simps) (auto split: if_splits)
  show ?case
    using 1(4) 1(1-3) [OF i refl refl] i
    by (subst (asm) closing_spec.simps)
      (auto simp: Let_def dest: closing_line_closes split: option.splits if_splits)
qed

lemma closing_spec_closed:
  "closing_spec s i = Some c \<Longrightarrow> closing_spec (s @ 10 # c) i = None"
proof (induction s i rule: closing_spec.induct)
  case (1 s i)
  let ?n = "lineEnd s i" and ?t = "s @ 10 # c"
  have i: "i < length s" using 1(4) by (subst (asm) closing_spec.simps) (auto split: if_splits)
  then have t: "lineEnd ?t i = ?n" "slice ?t i ?n = slice s i ?n" "drop ?n ?t = drop ?n s @ 10 # c"
    using lineEnd_le [of s i] by (simp_all add: lineEnd_append line_append)
  have c: "10 \<notin> set c" using closing_spec_line 1(4) .
  note IH = 1(1-3) [OF i refl refl]
  show ?case
  proof (cases "FENCE_OPEN (slice s i ?n)")
    case None
    then show ?thesis using IH 1(4) i t by (simp add: closing_spec.simps [of _ i] Let_def)
  next
    case (Some f)
    note open_f = this
    show ?thesis
    proof (cases "find_close s f (?n + 1)")
      case None
      then have fc: "find_close ?t f (?n + 1) = (if closes f c then Some (length ?t) else None)"
        using find_close_append_None [OF None _ c] lineEnd_le [of s i] by simp
      have "closing_spec ?t (length ?t) = None" by (subst closing_spec.simps) simp
      then show ?thesis
        using IH 1(4) i t open_f None fc closing_line_closes [OF open_f] ended_below_append
        by (auto simp: closing_spec.simps [of _ i] Let_def split: if_splits)
    next
      case (Some e)
      with 1(4) i open_f have e: "i < e" "closing_spec s e = Some c"
        by (auto simp: closing_spec.simps [of _ i] Let_def split: if_splits)
      then have "e < length s" by (subst (asm) closing_spec.simps) (auto split: if_splits)
      then have "find_close ?t f (?n + 1) = Some e" using find_close_append_Some [OF Some] by simp
      then show ?thesis using IH e i t open_f Some by (simp add: closing_spec.simps [of _ i] Let_def)
    qed
  qed
qed

section \<open>Stripping\<close>

lemma slice_take: "i \<le> j \<Longrightarrow> take i s @ slice s i j = take j s"
  by (simp add: slice_def take_add [symmetric])

lemma subseq_slice: "subseq r (take i s) \<Longrightarrow> i \<le> j \<Longrightarrow> subseq (r @ slice s i j) (take j s)"
  using slice_take [of i j s] by (metis list_emb_append_mono subseq_order.refl)

lemma subseq_take_mono: "subseq (r :: ustr) (take i s) \<Longrightarrow> i \<le> j \<Longrightarrow> subseq r (take j s)"
  using slice_take [of i j s] by (metis subseq_rev_drop_many list_emb_prefix)

lemma strip_from_subseq: "subseq result (take i s) \<Longrightarrow> subseq (strip_from s blocks result i) s"
proof (induction s blocks result i rule: strip_from.induct)
  case (1 s blocks result i)
  show ?case
  proof (cases "search_from TOOL_BLOCK_START s i")
    case None
    have "subseq (result @ drop i s) (take i s @ drop i s)"
      using "1.prems" by (intro list_emb_append_mono) auto
    with None show ?thesis by (subst strip_from.simps) simp
  next
    case (Some j)
    then have j: "i \<le> j" "j < length s" by (auto dest: search_from_bound)
    obtain c bl where c: "codeEnd blocks j = (c, bl)" by fastforce
    obtain e bl' where e: "details_end s bl 0 j = (e, bl')" by fastforce
    have "j \<le> skip_blanks s e"
      using details_end_gt [OF e [symmetric] j(2)] skip_blanks_ge [of e s] by simp
    then have "subseq (result @ slice s i j) (take (skip_blanks s e) s)"
      using subseq_slice [OF "1.prems" j(1)] by (rule subseq_take_mono [rotated])
    moreover have "i \<le> e'" if "c = Some e'" for e' using codeEnd_gt c that j(1) by fastforce
    ultimately show ?thesis
      using "1.IH" [OF Some c [symmetric]] Some c e j(1) subseq_slice [OF "1.prems"]
      by (subst strip_from.simps) (auto split: option.split)
  qed
qed

text \<open>The rules that run the fence reader on a given text.\<close>

lemmas text_evals = closingFence_def closing_from.simps fence_end_def find_close.simps closes_def
  FENCE_OPEN_def FENCE_CLOSE_def lineEnd_def indexFrom_def slice_def indentOf_def ended_below_def
  utrim_start_def ws_unit_def startsWith_def Let_def

section \<open>Properties\<close>

text \<open>
  the line a tool block gets above it when the text leaves a code block open does close it: with that
  line below the text, no code block is open any more, and the line is one line.
\<close>

theorem closingFence_closes:
  assumes "closingFence s = Some c"
  shows "closingFence (s @ nl @ c) = None \<and> 10 \<notin> set c"
  using closing_spec_closed [of s 0 c] closing_spec_line [of s 0 c] assms
  by (simp add: closingFence_spec)

theorem closingFence_closes_witness:
  "closingFence [97, 10, 126, 126, 126, 10, 98] = Some [126, 126, 126] \<and>
   closingFence ([97, 10, 126, 126, 126, 10, 98] @ nl @ [126, 126, 126]) = None"
proof -
  have "closingFence [97, 10, 126, 126, 126, 10, 98] = Some [126, 126, 126]"
    by (simp add: text_evals)
  then show ?thesis using closingFence_closes by blast
qed

text \<open>
  the fence reader's table of unclosed fences, kept so that a text of open fences is read in one
  pass, changes nothing: the closing line and the code blocks are those of a reader that looks for the
  closing line of every fence afresh. The blocks come in order, do not overlap and stay in the text.
\<close>

theorem fence_table_transparent:
  "closingFence s = closing_spec s 0 \<and> codeBlocks s = blocks_spec s 0 \<and> blocks_ok s 0 (codeBlocks s)"
  using blocks_from_ok [of s 0 "[]"] by (simp add: closingFence_spec codeBlocks_def blocks_from_spec)

text \<open>
  copying an answer without its tool blocks never invents or reorders a letter: what is copied is
  the answer with letters left out, and an answer with no tool block is copied as it is.
\<close>

theorem stripToolDetails_subseq:
  "subseq (stripToolDetails s) s \<and> (search_from TOOL_BLOCK_START s 0 = None \<longrightarrow> stripToolDetails s = s)"
  using strip_from_subseq [of "[]" 0 s "codeBlocks s"]
  by (auto simp: stripToolDetails_def strip_from.simps [of s])

theorem stripToolDetails_subseq_witness:
  "search_from TOOL_BLOCK_START (u ''a <details> b'') 0 = None \<and>
   stripToolDetails (u ''a <details> b'') = u ''a <details> b''"
proof -
  have "search_from TOOL_BLOCK_START (u ''a <details> b'') 0 = None"
    by (simp add: search_from_def TOOL_BLOCK_START_def DETAILS_def WRENCH_def u_def startsWith_def)
  with stripToolDetails_subseq [of "u ''a <details> b''"] show ?thesis by blast
qed

end
