(* ===== verification/Chat_Blocks.thy ===== *)
theory Chat_Blocks
  imports Chat_Text
begin

text \<open>
  The tool blocks of a chat answer: the text a tool call gets, where it goes in the answer, and how its
  result and its identity line are written into it (the free functions of
  \<^verbatim>\<open>frontend/src/services/chatStreamManager.ts\<close>). The stream keeps a position pair per block; the
  invariant \<open>blocks_fit\<close> says what those positions point at.
\<close>

section \<open>Operations\<close>

definition RESULT_PLACEHOLDER :: ustr where
  "RESULT_PLACEHOLDER = u ''Executing...''"

definition SUMMARY_END :: ustr where
  "SUMMARY_END = u ''</summary>'' @ nl"

text \<open>The values a tool call has come from JSON, which \<^verbatim>\<open>JSON.stringify\<close> always prints.\<close>

definition safeJsonStringify :: "cval \<Rightarrow> ustr" where
  "safeJsonStringify v = json_pretty [] v"

definition args_section :: "cval \<Rightarrow> ustr" where
  "args_section args =
     (if ctruthy args \<and> ctypeof_object args \<and> key_count args > 0
      then u ''<details>'' @ nl @ u ''<summary><strong>'' @ CLIPBOARD @ u '' Arguments</strong></summary>'' @ nl @ nl @
           u ''```json'' @ nl @ safeJsonStringify args @ nl @ u ''```'' @ nl @ nl @ u ''</details>''
      else u ''<p><strong>'' @ CLIPBOARD @ u '' Arguments:</strong> No arguments</p>'')"

text \<open>The block up to its first summary line, from there to the placeholder, and after it.\<close>

definition block_head :: "cval \<Rightarrow> ustr" where
  "block_head functionName = u ''<details>'' @ nl @ u ''<summary>'' @ WRENCH @ u '' <strong>'' @ cstr functionName @ u ''</strong>''"

definition block_middle :: "cval \<Rightarrow> ustr" where
  "block_middle args = nl @ args_section args @ nl @ nl @ u ''<details>'' @ nl @ u ''<summary><strong>'' @ BAR_CHART @
     u '' Results</strong></summary>'' @ nl @ nl"

definition block_tail :: ustr where
  "block_tail = nl @ nl @ u ''</details>'' @ nl @ nl @ u ''</details>'' @ nl @ nl"

definition buildToolCallBlock :: "cval \<Rightarrow> cval \<Rightarrow> ustr" where
  "buildToolCallBlock functionName args =
     block_head functionName @ SUMMARY_END @ block_middle args @ RESULT_PLACEHOLDER @ block_tail"

definition resultTarget :: "cval list \<Rightarrow> ustr \<Rightarrow> cval \<Rightarrow> nat option" where
  "resultTarget toolCalls functionName callId =
     (let waiting = findIndex (\<lambda>tc. cget tc ''function'' = CStr functionName \<and> \<not> ctruthy (cget tc ''result'')) toolCalls in
      case callId of
        CNum n \<Rightarrow> (case findIndex (\<lambda>tc. cget tc ''call_id'' = CNum n) toolCalls of Some i \<Rightarrow> Some i | None \<Rightarrow> waiting)
      | _ \<Rightarrow> waiting)"

definition appendToolBlock :: "ustr \<Rightarrow> ustr \<Rightarrow> ustr" where
  "appendToolBlock content block =
     (let before = utrim_end content in
      if before = [] then block
      else before @ (case closingFence before of Some closing \<Rightarrow> nl @ closing | None \<Rightarrow> []) @ nl @ nl @ block)"

definition withToolResult :: "ustr \<Rightarrow> nat \<Rightarrow> ustr \<Rightarrow> ustr" where
  "withToolResult content i result =
     (if \<not> startsWith (drop i content) RESULT_PLACEHOLDER then content
      else take i content @ result @ drop (i + length RESULT_PLACEHOLDER) content)"

text \<open>The lengths of the runs of backticks (\<^verbatim>\<open>text.match(/`+/g)\<close>), and the fence longer than all.\<close>

fun tick_runs :: "nat \<Rightarrow> ustr \<Rightarrow> nat list" where
  "tick_runs run [] = (if run > 0 then [run] else [])"
| "tick_runs run (c # s) = (if c = backtick then tick_runs (Suc run) s
     else (if run > 0 then run # tick_runs 0 s else tick_runs 0 s))"

definition codeFence :: "ustr \<Rightarrow> ustr" where
  "codeFence s = replicate (fold max (tick_runs 0 s) 2 + 1) backtick"

definition withToolAccess :: "ustr \<Rightarrow> nat \<Rightarrow> ustr \<Rightarrow> ustr" where
  "withToolAccess content i line =
     (case indexFrom content SUMMARY_END i of
        None \<Rightarrow> content
      | Some e \<Rightarrow>
          if line = [] then content
          else let cut = e + length SUMMARY_END in take cut content @ nl @ line @ nl @ drop cut content)"

text \<open>\<^verbatim>\<open>s.lastIndexOf(p)\<close>.\<close>

fun lastIndexOfText :: "ustr \<Rightarrow> ustr \<Rightarrow> nat option" where
  "lastIndexOfText [] p = (if p = [] then Some 0 else None)"
| "lastIndexOfText (c # s) p = (case lastIndexOfText s p of
     Some i \<Rightarrow> Some (Suc i) | None \<Rightarrow> if startsWith (c # s) p then Some 0 else None)"

text \<open>\<^verbatim>\<open>{ start: number; resultAt: number }\<close>, \<open>None\<close> for -1.\<close>

record tool_block =
  start :: nat
  resultAt :: "nat option"

definition new_block :: "ustr \<Rightarrow> ustr \<Rightarrow> tool_block" where
  "new_block content block =
     (let s = length content - length block in
      \<lparr>start = s, resultAt = map_option ((+) s) (lastIndexOfText block RESULT_PLACEHOLDER)\<rparr>)"

text \<open>
  \<^verbatim>\<open>_withToolOutcome\<close>: the content with a tool's result and its line, and the positions after it. A
  position past the block is at least the placeholder's length, so adding the growth never goes below 0.
\<close>

definition shift_block :: "nat \<Rightarrow> nat \<Rightarrow> nat \<Rightarrow> tool_block \<Rightarrow> tool_block" where
  "shift_block s new old other =
     (if start other < s then other
      else \<lparr>start = start other + new - old, resultAt = map_option (\<lambda>r. r + new - old) (resultAt other)\<rparr>)"

definition tool_outcome :: "ustr \<Rightarrow> tool_block list \<Rightarrow> nat option \<Rightarrow> ustr \<Rightarrow> ustr \<Rightarrow> ustr \<times> tool_block list" where
  "tool_outcome content blocks target result access =
     (case target of
        None \<Rightarrow> (content, blocks)
      | Some n \<Rightarrow>
          if n \<ge> length blocks then (content, blocks)
          else (case resultAt (blocks ! n) of
             None \<Rightarrow> (content, blocks)
           | Some r \<Rightarrow>
               (let s = start (blocks ! n);
                    filled = withToolAccess (withToolResult content r result) s access
                in (filled, (map (shift_block s (length filled) (length content)) blocks)[n := \<lparr>start = s, resultAt = None\<rparr>]))))"

section \<open>What the positions point at\<close>

definition sits :: "ustr \<Rightarrow> nat \<Rightarrow> ustr \<Rightarrow> bool" where
  "sits c i p \<longleftrightarrow> i + length p \<le> length c \<and> startsWith (drop i c) p"

lemma sits_append: "i + length p \<le> length a \<Longrightarrow> sits (a @ b) i p = sits a i p"
  by (simp add: sits_def startsWith_def)

lemma sits_appendI: "sits a i p \<Longrightarrow> sits (a @ b) i p"
  by (simp add: sits_append sits_def [of a])

lemma sits_shift: "sits (a @ b) (length a + i) p = sits b i p"
  by (auto simp: sits_def)

lemma sits_moved: "sits (a @ c) i p \<Longrightarrow> length a \<le> i \<Longrightarrow> sits (b @ c) (i + length b - length a) p"
  using sits_shift [of a c "i - length a" p] sits_shift [of b c "i - length a" p] by (simp add: add.commute)

lemma sits_utrim_end: "sits c i p \<Longrightarrow> p \<noteq> [] \<Longrightarrow> \<not> ws_unit (last p) \<Longrightarrow> sits (utrim_end c) i p"
  using utrim_end_keeps [of i c p] by (simp add: sits_def)

definition block_fits :: "ustr \<Rightarrow> tool_block \<Rightarrow> bool" where
  "block_fits c b \<longleftrightarrow> sits c (start b) DETAILS \<and>
     (\<forall>r. resultAt b = Some r \<longrightarrow> sits c r RESULT_PLACEHOLDER \<and>
        (\<exists>e\<ge>start b. e + length SUMMARY_END \<le> r \<and> sits c e SUMMARY_END))"

text \<open>A block lies before another: it starts before it, and its result place ends before it.\<close>

definition block_before :: "tool_block \<Rightarrow> tool_block \<Rightarrow> bool" where
  "block_before b b' \<longleftrightarrow> start b < start b' \<and>
     (\<forall>r. resultAt b = Some r \<longrightarrow> r + length RESULT_PLACEHOLDER \<le> start b')"

definition blocks_fit :: "ustr \<Rightarrow> tool_block list \<Rightarrow> bool" where
  "blocks_fit c bs \<longleftrightarrow> (\<forall>b\<in>set bs. block_fits c b) \<and> sorted_wrt block_before bs"

lemma mark_lengths [simp]: "length RESULT_PLACEHOLDER = 12" "length SUMMARY_END = 11" "length DETAILS = 9"
  by (simp_all add: RESULT_PLACEHOLDER_def SUMMARY_END_def DETAILS_def)

lemma mark_ends [simp]:
  "RESULT_PLACEHOLDER \<noteq> []" "\<not> ws_unit (last RESULT_PLACEHOLDER)"
  "DETAILS \<noteq> []" "\<not> ws_unit (last DETAILS)"
  by (simp_all add: RESULT_PLACEHOLDER_def DETAILS_def u_def ws_unit_def)

lemma block_fits_append: "block_fits c b \<Longrightarrow> block_fits (c @ t) b"
  unfolding block_fits_def using sits_appendI by blast

lemma blocks_fit_append: "blocks_fit c bs \<Longrightarrow> blocks_fit (c @ t) bs"
  by (simp add: blocks_fit_def block_fits_append)

lemma block_fits_trim:
  assumes "block_fits c b"
  shows "block_fits (utrim_end c) b"
proof -
  obtain w where w: "c = utrim_end c @ w" using utrim_end_split by blast
  show ?thesis unfolding block_fits_def
  proof (intro conjI allI impI)
    show "sits (utrim_end c) (start b) DETAILS"
      using assms by (simp add: block_fits_def sits_utrim_end)
  next
    fix r assume r: "resultAt b = Some r"
    then show ph: "sits (utrim_end c) r RESULT_PLACEHOLDER"
      using assms by (simp add: block_fits_def sits_utrim_end)
    from assms r obtain e where e: "start b \<le> e" "e + length SUMMARY_END \<le> r" "sits c e SUMMARY_END"
      by (auto simp: block_fits_def)
    moreover from this ph have "sits (utrim_end c) e SUMMARY_END"
      using sits_append [of e SUMMARY_END "utrim_end c" w] w by (simp add: sits_def [of _ r])
    ultimately show "\<exists>e\<ge>start b. e + length SUMMARY_END \<le> r \<and> sits (utrim_end c) e SUMMARY_END"
      by blast
  qed
qed

lemma lastIndexOfText_append: "lastIndexOfText s p = Some i \<Longrightarrow> lastIndexOfText (a @ s) p = Some (length a + i)"
  by (induction a) auto

lemma placeholder_last: "lastIndexOfText (RESULT_PLACEHOLDER @ block_tail) RESULT_PLACEHOLDER = Some 0"
  by (simp add: RESULT_PLACEHOLDER_def block_tail_def u_def startsWith_def)

lemma new_block_fits:
  assumes "content = pre @ buildToolCallBlock f args"
  shows "start (new_block content (buildToolCallBlock f args)) = length pre"
    and "block_fits content (new_block content (buildToolCallBlock f args))"
    and "\<exists>r. resultAt (new_block content (buildToolCallBlock f args)) = Some r"
proof -
  let ?b = "new_block content (buildToolCallBlock f args)"
  let ?h = "block_head f" and ?m = "block_middle args"
  have r: "lastIndexOfText (buildToolCallBlock f args) RESULT_PLACEHOLDER = Some (length ?h + (11 + length ?m))"
    using lastIndexOfText_append [OF placeholder_last, of "?h @ SUMMARY_END @ ?m"]
    by (simp add: buildToolCallBlock_def)
  then show s: "start ?b = length pre" and "\<exists>r. resultAt ?b = Some r"
    using assms by (simp_all add: new_block_def Let_def)
  have ra: "resultAt ?b = Some (length pre + (length ?h + (11 + length ?m)))"
    using assms r by (simp add: new_block_def Let_def)
  have c: "content = (pre @ ?h) @ SUMMARY_END @ ?m @ RESULT_PLACEHOLDER @ block_tail"
    using assms by (simp add: buildToolCallBlock_def)
  have "?h = DETAILS @ drop 9 ?h" by (simp add: block_head_def DETAILS_def)
  then have d: "content = pre @ DETAILS @ drop 9 ?h @ SUMMARY_END @ ?m @ RESULT_PLACEHOLDER @ block_tail"
    using c by (metis append.assoc)
  have "sits content (length pre) DETAILS"
    unfolding d using sits_shift [of pre _ 0 DETAILS] by (simp add: sits_def [of _ 0])
  moreover have "sits content (length (pre @ ?h)) SUMMARY_END"
    unfolding c using sits_shift [of "pre @ ?h" _ 0 SUMMARY_END] by (simp add: sits_def [of _ 0])
  moreover have "sits content (length (pre @ ?h @ SUMMARY_END @ ?m)) RESULT_PLACEHOLDER"
    unfolding c using sits_shift [of "pre @ ?h @ SUMMARY_END @ ?m" _ 0 RESULT_PLACEHOLDER] by (simp add: sits_def [of _ 0])
  ultimately show "block_fits content ?b"
    unfolding block_fits_def s ra
    by (auto simp: ac_simps intro!: exI [of _ "length (pre @ ?h)"])
qed

lemma appendToolBlock_split:
  "\<exists>pre t. appendToolBlock content block = pre @ block \<and> pre = utrim_end content @ t"
  by (auto simp: appendToolBlock_def Let_def split: option.split)

lemma appendToolBlock_fits:
  fixes f args :: cval
  assumes "blocks_fit content bs"
  defines "block \<equiv> buildToolCallBlock f args"
  defines "content' \<equiv> appendToolBlock content block"
  shows "blocks_fit content' (bs @ [new_block content' block])"
proof -
  obtain pre t where p: "content' = pre @ block" "pre = utrim_end content @ t"
    using appendToolBlock_split content'_def by blast
  have old: "block_fits (utrim_end content) b" if "b \<in> set bs" for b
    using assms(1) that by (simp add: blocks_fit_def block_fits_trim)
  have "block_fits content' b" if "b \<in> set bs" for b
    using block_fits_append [OF old [OF that], of "t @ block"] p by simp
  moreover have "block_before b (new_block content' block)" if "b \<in> set bs" for b
    using old [OF that] new_block_fits(1) [OF p(1) [unfolded block_def], folded block_def] p(2)
    by (auto simp: block_before_def block_fits_def sits_def)
  ultimately show ?thesis
    using assms(1) new_block_fits(2) [OF p(1) [unfolded block_def], folded block_def]
    by (auto simp: blocks_fit_def sorted_wrt_append)
qed

text \<open>
  Writing an outcome: with \<open>c = A @ B @ placeholder @ C\<close> at the block's place, the result is
  \<open>A @ X @ B @ result @ C\<close>, where \<open>X\<close> is the line below the block's name.
\<close>

lemma outcome_split:
  assumes "block_fits c b" "resultAt b = Some r"
  obtains A X B C where "c = A @ B @ RESULT_PLACEHOLDER @ C" "length (A @ B) = r"
    "start b + length DETAILS \<le> length A"
    "withToolAccess (withToolResult c r result) (start b) access = A @ X @ B @ result @ C"
    "X = (if access = [] then [] else nl @ access @ nl)"
proof -
  from assms obtain e where ph: "sits c r RESULT_PLACEHOLDER" and e: "start b \<le> e" "e + 11 \<le> r" "sits c e SUMMARY_END"
    by (auto simp: block_fits_def)
  define C where "C = drop (r + 12) c"
  have r: "r + 12 \<le> length c" using ph by (simp add: sits_def)
  have c: "c = take r c @ RESULT_PLACEHOLDER @ C"
    using ph r by (simp add: sits_def startsWith_def C_def) (metis append_take_drop_id drop_drop add.commute)
  have filled: "withToolResult c r result = take r c @ result @ C"
    using ph by (simp add: withToolResult_def sits_def C_def)
  have "sits (take r c) e SUMMARY_END"
    using e r sits_append [of e SUMMARY_END "take r c" "drop r c"] by simp
  then have "startsWith (drop e (take r c @ result @ C)) SUMMARY_END"
    using sits_appendI [of "take r c"] by (simp add: sits_def)
  then obtain e' where e': "indexFrom (take r c @ result @ C) SUMMARY_END (start b) = Some e'" "start b \<le> e'" "e' \<le> e"
    using indexFrom_le [of e _ SUMMARY_END "start b"] e r by fastforce
  define A B where "A = take (e' + 11) c" and "B = drop (e' + 11) (take r c)"
  have AB: "take r c = A @ B" "length (A @ B) = r" "start b + 9 \<le> length A"
    using e e' r by (simp_all add: A_def B_def min_def)
      (metis append_take_drop_id take_take min.absorb1 add_le_mono1 le_trans)
  have "withToolAccess (take r c @ result @ C) (start b) access =
      (if access = [] then A @ B @ result @ C else A @ nl @ access @ nl @ B @ result @ C)"
    using e' AB e r by (auto simp: withToolAccess_def Let_def A_def)
  then show thesis
    using that [of A B C "if access = [] then [] else nl @ access @ nl"] c AB filled by auto
qed

lemma sits_same_prefix: "sits (A @ D) i p \<Longrightarrow> i + length p \<le> length A \<Longrightarrow> sits (A @ D') i p"
  by (simp add: sits_append)

lemma block_fits_before:
  assumes "block_fits (A @ D) y" "block_before y b" "start b + length DETAILS \<le> length A"
  shows "block_fits (A @ D') y"
  unfolding block_fits_def
proof (intro conjI allI impI)
  have "sits (A @ D) (start y) DETAILS" "start y + length DETAILS \<le> length A"
    using assms by (simp_all add: block_fits_def block_before_def)
  then show "sits (A @ D') (start y) DETAILS" by (rule sits_same_prefix)
next
  fix r assume r: "resultAt y = Some r"
  with assms have le: "r + 12 \<le> length A" by (auto simp: block_before_def)
  have "sits (A @ D) r RESULT_PLACEHOLDER" using assms(1) r by (simp add: block_fits_def)
  with le show "sits (A @ D') r RESULT_PLACEHOLDER" by (simp add: sits_same_prefix [of A D])
  from assms(1) r obtain e where "start y \<le> e" "e + length SUMMARY_END \<le> r" "sits (A @ D) e SUMMARY_END"
    by (auto simp: block_fits_def)
  moreover from this le have "sits (A @ D') e SUMMARY_END"
    by (simp add: sits_same_prefix [of A D])
  ultimately show "\<exists>e\<ge>start y. e + length SUMMARY_END \<le> r \<and> sits (A @ D') e SUMMARY_END" by blast
qed

lemma block_fits_after:
  assumes "block_fits (P @ C) z" "length P \<le> start z" "start b \<le> start z"
  shows "block_fits (P' @ C) (shift_block (start b) (length (P' @ C)) (length (P @ C)) z)"
proof -
  have moved: "sits (P' @ C) (i + length (P' @ C) - length (P @ C)) p" if "sits (P @ C) i p" "length P \<le> i" for i p
    using sits_moved [OF that, of P'] by simp
  show ?thesis unfolding block_fits_def
  proof (intro conjI allI impI)
    show "sits (P' @ C) (start (shift_block (start b) (length (P' @ C)) (length (P @ C)) z)) DETAILS"
      using assms moved [of "start z" DETAILS] by (simp add: shift_block_def block_fits_def)
  next
    fix r assume r: "resultAt (shift_block (start b) (length (P' @ C)) (length (P @ C)) z) = Some r"
    then obtain r0 where r0: "resultAt z = Some r0" "r = r0 + length (P' @ C) - length (P @ C)"
      using assms(3) by (auto simp: shift_block_def)
    then obtain e where e: "start z \<le> e" "e + 11 \<le> r0" "sits (P @ C) e SUMMARY_END"
      using assms(1) by (auto simp: block_fits_def)
    then show "sits (P' @ C) r RESULT_PLACEHOLDER"
      using moved [of r0 RESULT_PLACEHOLDER] r0 assms(1,2) by (simp add: block_fits_def)
    show "\<exists>e\<ge>start (shift_block (start b) (length (P' @ C)) (length (P @ C)) z).
        e + length SUMMARY_END \<le> r \<and> sits (P' @ C) e SUMMARY_END"
      using moved [of e SUMMARY_END] e r0 assms(2,3)
      by (intro exI [of _ "e + length (P' @ C) - length (P @ C)"]) (auto simp: shift_block_def)
  qed
qed

lemma block_fits_result: "block_fits c z \<Longrightarrow> resultAt z = Some r \<Longrightarrow> start z \<le> r"
  by (fastforce simp: block_fits_def)

lemma shift_block_before:
  assumes "block_before z z'" "s \<le> start z" "old \<le> start z + new" "\<And>r. resultAt z = Some r \<Longrightarrow> start z \<le> r"
  shows "block_before (shift_block s new old z) (shift_block s new old z')"
proof (cases "resultAt z")
  case None
  with assms show ?thesis by (simp add: block_before_def shift_block_def)
next
  case (Some r)
  with assms(4) [OF Some] assms(1-3) show ?thesis by (simp add: block_before_def shift_block_def) linarith
qed

lemma tool_outcome_open:
  assumes "blocks_fit c (ys @ b # zs)" "resultAt b = Some r"
    "tool_outcome c (ys @ b # zs) (Some (length ys)) result access = (c', bs')"
  shows "blocks_fit c' bs'"
proof -
  from assms(1) have fits: "\<forall>y\<in>set ys. block_fits c y \<and> block_before y b" "block_fits c b"
      "\<forall>z\<in>set zs. block_fits c z \<and> block_before b z"
    and ord: "sorted_wrt block_before ys" "sorted_wrt block_before zs" "\<forall>y\<in>set ys. \<forall>z\<in>set zs. block_before y z"
    by (auto simp: blocks_fit_def sorted_wrt_append)
  from outcome_split [OF fits(2) assms(2)] obtain A X B C where
    s: "c = A @ B @ RESULT_PLACEHOLDER @ C" "length (A @ B) = r" "start b + length DETAILS \<le> length A"
       "withToolAccess (withToolResult c r result) (start b) access = A @ X @ B @ result @ C" by metis
  let ?P = "A @ B @ RESULT_PLACEHOLDER" and ?P' = "A @ X @ B @ result"
  let ?sh = "shift_block (start b) (length (?P' @ C)) (length (?P @ C))"
  have P: "c = ?P @ C" "length ?P = r + 12" using s(1,2) by simp_all
  have ys: "map ?sh ys = ys" using fits(1) by (auto simp: shift_block_def block_before_def intro!: map_idI)
  have c': "c' = ?P' @ C" and bs': "bs' = ys @ \<lparr>start = start b, resultAt = None\<rparr> # map ?sh zs"
    using assms(2,3) s(4) P(1) ys
    by (auto simp: tool_outcome_def Let_def nth_append list_update_append)
  have z: "r + 12 \<le> start z" "start b \<le> start z" if "z \<in> set zs" for z
    using fits(3) that assms(2) by (auto simp: block_before_def)
  have late: "start (?sh z) = start z + length ?P' - length ?P" "length A \<le> start (?sh z)" if "z \<in> set zs" for z
    using z [OF that] P(2) by (auto simp: shift_block_def)
  have "block_fits c' y" if "y \<in> set ys" for y
    using block_fits_before [of A "B @ RESULT_PLACEHOLDER @ C" y b "X @ B @ result @ C"] fits(1) that s c' by simp
  moreover have "block_fits c' \<lparr>start = start b, resultAt = None\<rparr>"
    using fits(2) s c' sits_same_prefix [of A "B @ RESULT_PLACEHOLDER @ C" "start b" DETAILS] by (simp add: block_fits_def)
  moreover have "block_fits c' (?sh z)" if "z \<in> set zs" for z
    using block_fits_after [of ?P C z b ?P'] fits(3) that z [OF that] P c' by simp
  moreover have "block_before y \<lparr>start = start b, resultAt = None\<rparr>" if "y \<in> set ys" for y
    using fits(1) that by (simp add: block_before_def)
  moreover have "block_before y (?sh z)" if "y \<in> set ys" "z \<in> set zs" for y z
    using fits(1) that late [OF that(2)] s(3) by (fastforce simp: block_before_def)
  moreover have "block_before \<lparr>start = start b, resultAt = None\<rparr> (?sh z)" if "z \<in> set zs" for z
    using late [OF that] s(3) by (simp add: block_before_def)
  moreover have "block_before (?sh z) (?sh z')" if "z \<in> set zs" "z' \<in> set zs" "block_before z z'" for z z'
    using z [OF that(1)] P(2) fits(3) that(1) by (intro shift_block_before [OF that(3)]) (auto intro: block_fits_result)
  then have "sorted_wrt block_before (map ?sh zs)"
    using ord(2) unfolding sorted_wrt_map by (rule sorted_wrt_mono_rel)
  ultimately show ?thesis
    using ord(1) by (auto simp: blocks_fit_def sorted_wrt_append bs')
qed

lemma tool_outcome_fits:
  assumes "blocks_fit c bs"
  shows "blocks_fit (fst (tool_outcome c bs target result access)) (snd (tool_outcome c bs target result access))"
proof (cases "\<exists>n r. target = Some n \<and> n < length bs \<and> resultAt (bs ! n) = Some r")
  case True
  then obtain n r where n: "target = Some n" "n < length bs" "resultAt (bs ! n) = Some r" by blast
  then have "bs = take n bs @ bs ! n # drop (Suc n) bs" "length (take n bs) = n" by (simp_all add: id_take_nth_drop)
  then show ?thesis
    using tool_outcome_open [of c "take n bs" "bs ! n" "drop (Suc n) bs" r result access] n assms
    by (metis prod.collapse)
next
  case False
  then have "tool_outcome c bs target result access = (c, bs)"
    by (auto simp: tool_outcome_def Let_def split: option.split)
  with assms show ?thesis by simp
qed

lemma length_tool_outcome [simp]: "length (snd (tool_outcome c bs target result access)) = length bs"
  by (simp add: tool_outcome_def Let_def split: option.split)

section \<open>The fence around a result\<close>

lemma tick_runs_run: "0 < n + k \<Longrightarrow> \<exists>r\<in>set (tick_runs n (replicate k backtick @ b)). n + k \<le> r"
proof (induction k arbitrary: n)
  case 0
  then show ?case
  proof (induction b arbitrary: n)
    case (Cons c b)
    from Cons.IH [of "Suc n"] Cons.prems show ?case by auto (meson Suc_leD)
  qed simp
next
  case (Suc k)
  from Suc.IH [of "Suc n"] show ?case by simp
qed

lemma tick_runs_inner: "0 < k \<Longrightarrow> \<exists>r\<in>set (tick_runs n (a @ replicate k backtick @ b)). k \<le> r"
proof (induction a arbitrary: n)
  case Nil
  then show ?case using tick_runs_run [of n k b] by (metis add_leD2 append_Nil trans_less_add2)
qed auto

lemma fold_max_ge: "m \<le> fold max rs (m :: nat)"
  by (induction rs arbitrary: m) (auto intro: le_trans [OF max.cobounded2])

lemma fold_max_le: "r \<in> set rs \<Longrightarrow> r \<le> fold max rs (m :: nat)"
  by (induction rs arbitrary: m) (auto intro: le_trans [OF max.cobounded1 fold_max_ge])

lemma FENCE_CLOSE_run:
  assumes "FENCE_CLOSE line = Some c"
  shows "\<exists>m. c = replicate (length c) m \<and> 3 \<le> length c \<and> sublist c line"
proof -
  let ?rest = "dropWhile ((=) space) line"
  from assms obtain m where m: "c = takeWhile ((=) m) ?rest" "3 \<le> length c"
    by (auto simp: FENCE_CLOSE_def Let_def split: if_splits)
  have "sublist c ?rest" unfolding m(1)
    by (metis sublist_appendI append_Nil takeWhile_dropWhile_id)
  moreover have "sublist ?rest line"
    by (metis append_Nil2 sublist_appendI takeWhile_dropWhile_id)
  ultimately have "sublist c line" by (rule sublist_order.order_trans)
  with m takeWhile_replicate [of m ?rest] show ?thesis by metis
qed

lemma codeFence_not_closed:
  assumes "sublist line s"
  shows "\<not> closes (codeFence s) line"
proof
  assume "closes (codeFence s) line"
  then obtain c where c: "FENCE_CLOSE line = Some c" "hd c = backtick" "length (codeFence s) \<le> length c"
    by (auto simp: closes_def codeFence_def split: option.splits)
  from FENCE_CLOSE_run [OF c(1)] obtain m where m: "c = replicate (length c) m" "3 \<le> length c" "sublist c line" by blast
  then have "m = backtick" using c(2) hd_replicate [of "length c" m] by (metis list.size(3) not_numeral_le_zero)
  then have "sublist (replicate (length c) backtick) s"
    using m(1,3) sublist_order.order_trans [OF _ assms] by metis
  then obtain a b where "s = a @ replicate (length c) backtick @ b" by (auto simp: sublist_def)
  then obtain r where "r \<in> set (tick_runs 0 s)" "length c \<le> r"
    using tick_runs_inner [of "length c" 0 a b] m(2) by (metis not_numeral_le_zero not_gr_zero)
  then have "length c \<le> fold max (tick_runs 0 s) 2" using fold_max_le le_trans by blast
  with c(3) show False by (simp add: codeFence_def)
qed

section \<open>Properties\<close>

text \<open>
  a tool result cannot end its own code block. The fence written around it has at least three
  backticks, and no piece of the result is a line that closes that fence.
\<close>

theorem codeFence_safe:
  "3 \<le> length (codeFence s) \<and> (\<forall>line. sublist line s \<longrightarrow> \<not> closes (codeFence s) line)"
  using codeFence_not_closed [of _ s] fold_max_ge [of 2 "tick_runs 0 s"] by (auto simp: codeFence_def)

theorem codeFence_safe_witness:
  "sublist (u ''```'') (u ''a```b'') \<and> \<not> closes (codeFence (u ''a```b'')) (u ''```'') \<and>
   codeFence (u ''a```b'') = u ''````''"
proof -
  have "u ''a```b'' = u ''a'' @ u ''```'' @ u ''b''" by (simp add: u_def)
  then have "sublist (u ''```'') (u ''a```b'')" by (simp only: sublist_appendI)
  moreover have "codeFence (u ''a```b'') = u ''````''" by (simp add: codeFence_def u_def numeral_eq_Suc)
  ultimately show ?thesis using codeFence_safe [of "u ''a```b''"] by blast
qed

text \<open>
  a tool block is put below the answer so far on a line of its own, with an empty line above it,
  where no code block is open; only spaces at the end of the answer are given up for it.
\<close>

theorem appendToolBlock_own_line:
  "list_all ws_unit content \<and> appendToolBlock content block = block \<or>
   (\<exists>p spaces closing. content = p @ spaces \<and> p \<noteq> [] \<and> list_all ws_unit spaces \<and>
      appendToolBlock content block = p @ closing @ nl @ nl @ block \<and> closingFence (p @ closing) = None)"
proof (cases "utrim_end content = []")
  case True
  with utrim_end_split [of content] have "list_all ws_unit content" by (auto simp: list_all_iff)
  with True show ?thesis by (simp add: appendToolBlock_def)
next
  case False
  obtain spaces where sp: "content = utrim_end content @ spaces" "list_all ws_unit spaces"
    using utrim_end_split by (metis list_all_iff)
  define closing where "closing = (case closingFence (utrim_end content) of Some c \<Rightarrow> nl @ c | None \<Rightarrow> [])"
  have "closingFence (utrim_end content @ closing) = None"
    using closing_spec_closed [of "utrim_end content" 0]
    by (auto simp: closing_def closingFence_spec split: option.split)
  moreover have "appendToolBlock content block = utrim_end content @ closing @ nl @ nl @ block"
    using False by (simp add: appendToolBlock_def Let_def closing_def)
  ultimately show ?thesis using sp False by metis
qed

end
