(* ===== verification/Tool_Access.thy ===== *)
theory Tool_Access
  imports Chat_Value
begin

text \<open>
  The identity an AI tool call reached its cluster as, and the requests it made, as the lines under the
  tool block's name (\<^verbatim>\<open>frontend/src/services/toolAccess.ts\<close>). \<open>requestText\<close> reads properties of an
  entry without a guard, so an entry that is null or undefined throws: it and its callers return \<open>None\<close>
  there.
\<close>

section \<open>Operations\<close>

text \<open>\<^verbatim>\<open>s.replace(/c/g, t)\<close> of one code unit.\<close>

definition replace_unit :: "nat \<Rightarrow> ustr \<Rightarrow> ustr \<Rightarrow> ustr" where
  "replace_unit c t s = concat (map (\<lambda>x. if x = c then t else [x]) s)"

definition escapeHtml :: "ustr \<Rightarrow> ustr" where
  "escapeHtml s = replace_unit 39 (u ''&#x27;'') (replace_unit 34 (u ''&quot;'')
     (replace_unit 62 (u ''&gt;'') (replace_unit 60 (u ''&lt;'') (replace_unit 38 (u ''&amp;'') s))))"

definition code :: "ustr \<Rightarrow> ustr" where
  "code s = u ''<code>'' @ escapeHtml s @ u ''</code>''"

fun strings_of :: "cval \<Rightarrow> ustr list" where
  "strings_of (CArr xs) = concat (map (\<lambda>x. case x of CStr s \<Rightarrow> [s] | _ \<Rightarrow> []) xs)"
| "strings_of _ = []"

definition is_text :: "cval \<Rightarrow> string \<Rightarrow> bool" where
  "is_text v s \<longleftrightarrow> v = CStr (u s)"

definition access_parts :: "cval \<Rightarrow> ustr list" where
  "access_parts access =
     (if \<not> ctruthy (cget access ''impersonation'')
      then [WARNING @ u '' Kubeast's own credential, not this user's permissions (impersonation is off)'']
      else [code (cstr_or_empty (cget access ''user'')) @
              (if is_text (cget access ''kind'') ''api_key'' then u '' (API key)'' else [])] @
           (let groups = strings_of (cget access ''groups'') in
            if groups = [] then [] else [u ''groups '' @ ujoin (u '' '') (map code groups)])) @
     (if is_text (cget access ''kind'') ''investigator'' then [u ''alert investigator'']
      else if is_text (cget access ''kind'') ''person'' \<or> is_text (cget access ''kind'') ''api_key'' then
        (let role = cstr_or_empty (cget access ''role''); namespaces = strings_of (cget access ''namespaces'') in
         [if role = u ''*'' then u ''global admin''
          else if role \<noteq> [] then u ''role '' @ escapeHtml role else u ''no role in this cluster'',
          if namespaces \<noteq> [] then u ''namespaces '' @ ujoin (u '', '') (map escapeHtml namespaces)
          else u ''whole cluster''])
      else []) @
     [if is_text (cget access ''mode'') ''write'' then u ''write'' else u ''read-only'']"

definition accessLine :: "cval \<Rightarrow> ustr" where
  "accessLine access =
     (if \<not> ctruthy access \<or> \<not> ctypeof_object access then []
      else u ''<p><strong>'' @ LOCK @ u '' Ran as:</strong> '' @
        ujoin (u '' '' @ MIDDLE_DOT @ u '' '') (access_parts access) @ u ''</p>'')"

definition requestText :: "cval \<Rightarrow> ustr option" where
  "requestText r =
     (if cnullish r then None
      else if is_text (cget r ''source'') ''cache'' then
        Some (u ''answered from Kubeast's own store ('' @ escapeHtml (cstr_or_empty (cget r ''cache'')) @
              u ''), no cluster request'')
      else
        (let verb = escapeHtml (cstr_or_empty (cget r ''verb''));
             what = (if ctruthy (cget r ''resource'')
               then escapeHtml (ujoin (u ''/'') (map cstr (filter ctruthy
                      [cget r ''group'', cget r ''resource'', cget r ''subresource'']))) @
                    (if ctruthy (cget r ''name'') then u '' '' @ escapeHtml (cstr (cget r ''name'')) else [])
               else escapeHtml (cstr_or_empty (cget r ''path'')));
             place = (if ctruthy (cget r ''namespace'') then u '' in '' @ escapeHtml (cstr (cget r ''namespace'')) else []);
             status = (case cget r ''status'' of
               CNum n \<Rightarrow> if n \<noteq> 0 then u '' '' @ ARROW @ u '' '' @ u (show_int n) else u '' '' @ ARROW @ u '' no answer''
             | _ \<Rightarrow> u '' '' @ ARROW @ u '' no answer'');
             audit = (if ctruthy (cget r ''audit_id'')
               then u '' '' @ MIDDLE_DOT @ u '' Audit-ID '' @ code (cstr (cget r ''audit_id'')) @
                    (if ctruthy (cget r ''echoed'') then u '' '' @ CHECK_MARK else u '' (not echoed)'')
               else [])
         in Some (verb @ u '' '' @ what @ place @ status @ audit)))"

fun request_items :: "cval list \<Rightarrow> ustr list option" where
  "request_items [] = Some []"
| "request_items (r # rs) = (case requestText r of
     None \<Rightarrow> None
   | Some t \<Rightarrow> map_option ((#) (u ''<li>'' @ t @ u ''</li>'')) (request_items rs))"

text \<open>The list items of the block: the first twenty requests, and how many more there were.\<close>

definition listed_items :: "cval list \<Rightarrow> int \<Rightarrow> ustr list option" where
  "listed_items requests X =
     (let shown = take 20 requests in
      map_option (\<lambda>items. if X > int (length shown)
         then items @ [u ''<li>and '' @ u (show_int (X - int (length shown))) @ u '' more</li>''] else items)
       (request_items shown))"

definition requestsBlock :: "cval \<Rightarrow> ustr option" where
  "requestsBlock value =
     (case (cget value ''requests'', cget value ''X'') of
        (CArr requests, CNum X) \<Rightarrow>
          if X \<le> 0 then Some []
          else map_option (\<lambda>items.
            u ''<details>'' @ nl @ u ''<summary><strong>'' @ RECEIPT @ u '' Cluster requests ('' @ u (show_int X) @
            u '')</strong></summary>'' @ nl @ nl @ u ''<ul>'' @ nl @ ujoin nl items @ nl @ u ''</ul>'' @ nl @ nl @ u ''</details>'')
            (listed_items requests X)
      | _ \<Rightarrow> Some [])"

definition accessSection :: "cval \<Rightarrow> cval \<Rightarrow> ustr option" where
  "accessSection access requests =
     map_option (\<lambda>block. ujoin (nl @ nl) (filter (\<lambda>s. s \<noteq> []) [accessLine access, block])) (requestsBlock requests)"

section \<open>Escaping\<close>

text \<open>The five replacements one after the other are one replacement of each unit.\<close>

definition escape_unit :: "nat \<Rightarrow> ustr" where
  "escape_unit c = (if c = 38 then u ''&amp;'' else if c = 60 then u ''&lt;'' else if c = 62 then u ''&gt;''
     else if c = 34 then u ''&quot;'' else if c = 39 then u ''&#x27;'' else [c])"

lemma replace_unit_simps [simp]:
  "replace_unit c t [] = []"
  "replace_unit c t (x # s) = (if x = c then t else [x]) @ replace_unit c t s"
  "replace_unit c t (s @ s') = replace_unit c t s @ replace_unit c t s'"
  by (simp_all add: replace_unit_def)

lemma escapeHtml_units: "escapeHtml s = concat (map escape_unit s)"
  by (induction s) (simp_all add: escapeHtml_def escape_unit_def u_def)

text \<open>What a browser reads: the five entities back to their characters.\<close>

fun unescape :: "ustr \<Rightarrow> ustr" where
  "unescape [] = []"
| "unescape (c # s) =
     (if startsWith (c # s) (u ''&amp;'') then 38 # unescape (drop 4 s)
      else if startsWith (c # s) (u ''&lt;'') then 60 # unescape (drop 3 s)
      else if startsWith (c # s) (u ''&gt;'') then 62 # unescape (drop 3 s)
      else if startsWith (c # s) (u ''&quot;'') then 34 # unescape (drop 5 s)
      else if startsWith (c # s) (u ''&#x27;'') then 39 # unescape (drop 5 s)
      else c # unescape s)"

lemma unescape_unit: "unescape (escape_unit c @ s) = c # unescape s"
  by (simp add: escape_unit_def u_def startsWith_def)

lemma unescape_escapeHtml: "unescape (escapeHtml s) = s"
  by (induction s) (simp_all add: escapeHtml_units unescape_unit)

lemma escape_unit_no_markup: "set (escape_unit x) \<inter> {60, 62, 34, 39} = {}"
  by (simp add: escape_unit_def u_def)

lemma escapeHtml_no_markup: "c \<in> set (escapeHtml s) \<Longrightarrow> c \<notin> {60, 62, 34, 39}"
  using escape_unit_no_markup by (fastforce simp: escapeHtml_units)

lemma requestText_None: "requestText r = None \<longleftrightarrow> cnullish r"
  by (simp add: requestText_def Let_def)

lemma request_items_iff:
  "(\<exists>items. request_items rs = Some items) \<longleftrightarrow> (\<forall>r\<in>set rs. \<not> cnullish r)"
proof (induction rs)
  case (Cons r rs)
  then show ?case
    by (cases "requestText r"; cases "request_items rs") (auto simp flip: requestText_None)
qed simp

lemma request_items_length: "request_items rs = Some items \<Longrightarrow> length items = length rs"
  by (induction rs arbitrary: items) (auto split: option.splits)

section \<open>Properties\<close>

text \<open>
  what a tool call's identity writes into the answer cannot be markup. An escaped value has none of
  the characters that open or close a tag or an attribute, and a reader that decodes the entities gets
  the value back, so no two values look the same.
\<close>

theorem escapeHtml_safe:
  "(\<forall>c. c \<in> {60, 62, 34, 39} \<longrightarrow> c \<notin> set (escapeHtml s)) \<and> unescape (escapeHtml s) = s \<and> inj escapeHtml"
proof -
  have "inj escapeHtml" by (rule inj_on_inverseI [of _ unescape]) (rule unescape_escapeHtml)
  with escapeHtml_no_markup [of _ s] show ?thesis by (auto simp: unescape_escapeHtml)
qed

theorem escapeHtml_safe_witness:
  "(60 :: nat) \<in> {60, 62, 34, 39} \<and> 60 \<notin> set (escapeHtml (u ''<b>a&b</b>'')) \<and>
   unescape (escapeHtml (u ''<b>a&b</b>'')) = u ''<b>a&b</b>''"
  using escapeHtml_safe [of "u ''<b>a&b</b>''"] by blast

text \<open>
  the list of a call's cluster requests. It is drawn exactly when none of the first twenty entries is
  missing; it then lists at most twenty requests, and one more line exactly when the count the server
  gives is higher than what is listed.
\<close>

theorem listed_items_bound:
  "((\<exists>items. listed_items requests X = Some items) \<longleftrightarrow> (\<forall>r\<in>set (take 20 requests). \<not> cnullish r)) \<and>
   (\<forall>items. listed_items requests X = Some items \<longrightarrow>
      length items = min 20 (length requests) + (if X > int (min 20 (length requests)) then 1 else 0))"
proof -
  have "length (take 20 requests) = min 20 (length requests)" by simp
  then show ?thesis
    using request_items_iff [of "take 20 requests"] request_items_length [of "take 20 requests"]
    by (auto simp: listed_items_def Let_def split: option.splits)
qed

theorem listed_items_bound_witness:
  "listed_items [CObj [(u ''verb'', CStr (u ''list''))], CObj []] 5 \<noteq> None \<and>
   length (the (listed_items [CObj [(u ''verb'', CStr (u ''list''))], CObj []] 5)) = 3"
proof -
  let ?rs = "[CObj [(u ''verb'', CStr (u ''list''))], CObj []]"
  obtain items where "listed_items ?rs 5 = Some items"
    using listed_items_bound [of ?rs 5] by auto
  then show ?thesis using listed_items_bound [of ?rs 5] by simp
qed

end
