(* ===== verification/Chat_Stream.thy ===== *)
theory Chat_Stream
  imports Chat_Blocks Tool_Access
begin

text \<open>
  The chat stream manager (\<^verbatim>\<open>frontend/src/services/chatStreamManager.ts\<close>, class
  \<^verbatim>\<open>ChatStreamManager\<close>): one answer at a time, read as server-sent events, drawn letter by letter from a
  queue, with tool blocks filled in as results come.

  \<^item> \<open>chat_state\<close> and \<open>manager\<close> are the class's fields (\<^verbatim>\<open>updatedAt\<close> and the listeners, which only
    observe, are left out); a \<^verbatim>\<open>Partial<ChatStreamState>\<close> is an update of the state.
  \<^item> What happens outside the class is an event of \<open>stream_step\<close>: the response, a decoded chunk, the end
    of the body, a rejected read, a timer tick, the user's start and stop. A request lives from its start to
    the return of \<^verbatim>\<open>startSessionChat\<close>; a turn starts after the one before has returned (\<^verbatim>\<open>await stop()\<close>).
  \<^item> \<^verbatim>\<open>JSON.parse\<close> is the parameter \<open>parse\<close>: \<open>None\<close> where it throws.
\<close>

section \<open>State\<close>

datatype streaming_phase = Waiting | Tools | Answer

datatype stream_status = Idle | Streaming | Completed | Aborted | Failed

record failed_turn =
  question :: ustr
  ft_content :: ustr
  ft_toolCalls :: "cval list"
  ft_error :: "ustr option"
  ft_errorKey :: "ustr option"
  ft_errorArgs :: "cval option"
  stopped :: bool
  askedAt :: nat
  ft_savedBefore :: nat

record chat_state =
  status :: stream_status
  isStreaming :: bool
  sessionId :: "ustr option"
  userMessage :: "ustr option"
  content :: ustr
  toolCalls :: "cval list"
  streamingPhase :: "streaming_phase option"
  error :: "ustr option"
  errorKey :: "ustr option"
  errorArgs :: "cval option"
  savedBefore :: nat
  failedTurns :: "failed_turn list"

type_synonym patch = "chat_state \<Rightarrow> chat_state"

definition initialState :: chat_state where
  "initialState = \<lparr>status = Idle, isStreaming = False, sessionId = None, userMessage = None, content = [],
     toolCalls = [], streamingPhase = None, error = None, errorKey = None, errorArgs = None,
     savedBefore = 0, failedTurns = []\<rparr>"

record manager =
  state :: chat_state
  charQueue :: "ustr list"
  typewriterTimer :: bool
  streamDone :: bool
  pendingDonePatch :: "patch option"
  toolBlocks :: "tool_block list"

definition initial_manager :: manager where
  "initial_manager = \<lparr>state = initialState, charQueue = [], typewriterTimer = False, streamDone = False,
     pendingDonePatch = None, toolBlocks = []\<rparr>"

section \<open>The typewriter\<close>

definition stopTypewriter :: "manager \<Rightarrow> manager" where
  "stopTypewriter m = m\<lparr>typewriterTimer := False\<rparr>"

definition startTypewriter :: "manager \<Rightarrow> manager" where
  "startTypewriter m = m\<lparr>typewriterTimer := True\<rparr>"

text \<open>\<^verbatim>\<open>Math.max(1, Math.ceil(n / 4))\<close>.\<close>

definition batch :: "nat \<Rightarrow> nat" where
  "batch n = max 1 ((n + 3) div 4)"

definition drainQueue :: "manager \<Rightarrow> manager" where
  "drainQueue m =
     (if charQueue m = [] then
        (let m = stopTypewriter m in
         case pendingDonePatch m of
           Some patch \<Rightarrow>
             if streamDone m then m\<lparr>pendingDonePatch := None, streamDone := False, state := patch (state m)\<rparr> else m
         | None \<Rightarrow> m)
      else
        (let b = batch (length (charQueue m)); chars = concat (take b (charQueue m)) in
         m\<lparr>charQueue := drop b (charQueue m),
           state := (state m)\<lparr>content := content (state m) @ chars, streamingPhase := Some Answer\<rparr>\<rparr>))"

definition flushQueue :: "manager \<Rightarrow> manager" where
  "flushQueue m =
     (if charQueue m = [] then m
      else stopTypewriter (m\<lparr>charQueue := [],
             state := (state m)\<lparr>content := content (state m) @ concat (charQueue m)\<rparr>\<rparr>))"

definition finishWhenDrained :: "patch \<Rightarrow> manager \<Rightarrow> manager" where
  "finishWhenDrained patch m =
     (let m = m\<lparr>streamDone := True, pendingDonePatch := Some patch\<rparr> in
      if charQueue m = [] then drainQueue m else m)"

definition setState :: "patch \<Rightarrow> bool \<Rightarrow> manager \<Rightarrow> manager" where
  "setState patch immediate m =
     (let m = m\<lparr>state := patch (state m)\<rparr> in
      if immediate then (flushQueue m)\<lparr>streamDone := False, pendingDonePatch := None\<rparr> else m)"

definition fail :: "patch \<Rightarrow> manager \<Rightarrow> manager" where
  "fail patch m =
     (if status (state m) \<noteq> Streaming then m
      else setState (\<lambda>s. patch (s\<lparr>status := Failed, isStreaming := False, streamingPhase := None\<rparr>)) True m)"

definition withToolOutcome :: "nat option \<Rightarrow> ustr \<Rightarrow> ustr \<Rightarrow> manager \<Rightarrow> ustr \<times> manager" where
  "withToolOutcome n result access m =
     (let (filled, blocks) = tool_outcome (content (state m)) (toolBlocks m) n result access in
      (filled, m\<lparr>toolBlocks := blocks\<rparr>))"

definition failedTurnsBefore :: "ustr \<Rightarrow> nat \<Rightarrow> chat_state \<Rightarrow> failed_turn list" where
  "failedTurnsBefore sid savedMessages s =
     (if sessionId s \<noteq> Some sid then []
      else if status s \<noteq> Failed \<and> status s \<noteq> Aborted then failedTurns s
      else case userMessage s of
        None \<Rightarrow> failedTurns s
      | Some q \<Rightarrow> failedTurns s @
          [\<lparr>question = q, ft_content = content s, ft_toolCalls = toolCalls s, ft_error = error s,
            ft_errorKey = errorKey s, ft_errorArgs = errorArgs s, stopped = (status s = Aborted),
            askedAt = savedBefore s, ft_savedBefore = savedMessages\<rparr>])"

section \<open>Events of the stream\<close>

text \<open>\<^verbatim>\<open>{ ...tc, k: v }\<close>.\<close>

fun cset :: "string \<Rightarrow> cval \<Rightarrow> cval \<Rightarrow> cval" where
  "cset k v (CObj kvs) = CObj (AList.update (u k) v kvs)"
| "cset k v _ = CObj [(u k, v)]"

definition on_content :: "cval \<Rightarrow> manager \<Rightarrow> manager" where
  "on_content data m = startTypewriter (m\<lparr>charQueue := charQueue m @ code_points (cstr (cget data ''content''))\<rparr>)"

text \<open>The first call of that tool without an approval gets it.\<close>

fun attach_approval :: "cval \<Rightarrow> ustr \<Rightarrow> ustr \<Rightarrow> cval list \<Rightarrow> cval list" where
  "attach_approval data approvalId functionName [] = []"
| "attach_approval data approvalId functionName (tc # tcs) =
     (if cget tc ''function'' = CStr functionName \<and> \<not> ctruthy (cget tc ''approval_id'')
      then cset ''expires_at'' (cget data ''expires_at'') (cset ''cluster'' (cget data ''cluster'')
             (cset ''approval_status'' (CStr (u ''pending'')) (cset ''approval_id'' (CStr approvalId) tc))) # tcs
      else tc # attach_approval data approvalId functionName tcs)"

definition on_approval :: "cval \<Rightarrow> manager \<Rightarrow> manager" where
  "on_approval data m =
     (let tcs = attach_approval data (cstr (cget data ''approval_required''))
                  (cstr_or_empty (cget data ''function'')) (toolCalls (state m)) in
      setState (\<lambda>s. s\<lparr>toolCalls := tcs, streamingPhase := Some Tools\<rparr>) False m)"

definition args_of :: "cval \<Rightarrow> cval" where
  "args_of data = (if ctruthy (cget data ''args'') then cget data ''args'' else CObj [])"

definition new_call :: "cval \<Rightarrow> cval" where
  "new_call data = CObj ([(u ''function'', cget data ''function''), (u ''args'', args_of data), (u ''result'', CStr []),
     (u ''is_json'', CBool False), (u ''is_yaml'', CBool False)] @
     (case cget data ''call_id'' of CNum n \<Rightarrow> [(u ''call_id'', CNum n)] | _ \<Rightarrow> []))"

definition on_function :: "cval \<Rightarrow> manager \<Rightarrow> manager" where
  "on_function data m =
     (let m = flushQueue m;
          block = buildToolCallBlock (cget data ''function'') (args_of data);
          c = appendToolBlock (content (state m)) block;
          m = m\<lparr>toolBlocks := toolBlocks m @ [new_block c block]\<rparr> in
      setState (\<lambda>s. s\<lparr>toolCalls := toolCalls s @ [new_call data], content := c, streamingPhase := Some Tools\<rparr>) False m)"

definition is_true :: "cval \<Rightarrow> cval" where
  "is_true v = CBool (ctruthy v)"

definition set_if :: "cval \<Rightarrow> string \<Rightarrow> cval \<Rightarrow> cval" where
  "set_if data k tc = (if ctruthy (cget data k) then cset k (cget data k) tc else tc)"

definition answered_call :: "cval \<Rightarrow> cval \<Rightarrow> cval" where
  "answered_call data tc =
     (let resultText = (if cnullish (cget data ''result'') then [] else cstr (cget data ''result''));
          displayText = cstr_or_empty (cget data ''display'');
          tc = cset ''is_yaml'' (is_true (cget data ''is_yaml'')) (cset ''is_json'' (is_true (cget data ''is_json''))
                 (cset ''result'' (CStr resultText) tc));
          tc = (if displayText \<noteq> [] then cset ''display_format'' (CStr (cstr_or_empty (cget data ''display_format'')))
                 (cset ''display'' (CStr displayText) tc) else tc)
      in set_if data ''requests'' (set_if data ''access'' (set_if data ''chart'' tc)))"

definition result_block :: "cval \<Rightarrow> ustr" where
  "result_block data =
     (let resultText = (if cnullish (cget data ''result'') then [] else cstr (cget data ''result''));
          displayText = cstr_or_empty (cget data ''display'');
          bodyText = (if displayText \<noteq> [] then displayText else resultText);
          fence = codeFence bodyText;
          language = (if displayText \<noteq> [] then [] else if ctruthy (cget data ''is_yaml'') then u ''yaml''
                      else if ctruthy (cget data ''is_json'') then u ''json'' else [])
      in fence @ language @ nl @ bodyText @ nl @ fence)"

text \<open>\<open>accessSection\<close> is evaluated before anything is written, so where it throws the event is ignored.\<close>

definition on_result :: "cval \<Rightarrow> manager \<Rightarrow> manager" where
  "on_result data m =
     (case accessSection (cget data ''access'') (cget data ''requests'') of
        None \<Rightarrow> m
      | Some access \<Rightarrow>
          (let target = resultTarget (toolCalls (state m)) (cstr (cget data ''function_result'')) (cget data ''call_id'');
               merged = (case target of
                   None \<Rightarrow> toolCalls (state m)
                 | Some i \<Rightarrow> (toolCalls (state m))[i := answered_call data (toolCalls (state m) ! i)]);
               (c, m) = withToolOutcome target (result_block data) access m in
           setState (\<lambda>s. s\<lparr>toolCalls := merged, content := c, streamingPhase := Some Tools\<rparr>) False m))"

definition on_error :: "cval \<Rightarrow> manager \<Rightarrow> manager" where
  "on_error data = fail (\<lambda>s. s\<lparr>error := Some (cstr (cget data ''error'')),
     errorKey := (case cget data ''error_key'' of CStr k \<Rightarrow> Some k | _ \<Rightarrow> None),
     errorArgs := (if ctruthy (cget data ''error_args'') \<and> ctypeof_object (cget data ''error_args'')
                   then Some (cget data ''error_args'') else None)\<rparr>)"

text \<open>One parsed event: the manager after it, and whether \<^verbatim>\<open>startSessionChat\<close> returns.\<close>

definition on_data :: "cval \<Rightarrow> manager \<Rightarrow> manager \<times> bool" where
  "on_data data m =
     (if ctruthy (cget data ''model_info'') \<or> ctruthy (cget data ''usage'') then (m, False)
      else if ctruthy (cget data ''content'') then (on_content data m, False)
      else if ctruthy (cget data ''approval_required'') then (on_approval data m, False)
      else if ctruthy (cget data ''function'') then (on_function data m, False)
      else if ctruthy (cget data ''function_result'') then (on_result data m, False)
      else if ctruthy (cget data ''error'') then (on_error data m, True)
      else (m, False))"

definition done_patch :: patch where
  "done_patch s = s\<lparr>status := Completed, isStreaming := False, streamingPhase := None\<rparr>"

definition on_line :: "(ustr \<Rightarrow> cval option) \<Rightarrow> ustr \<Rightarrow> manager \<Rightarrow> manager \<times> bool" where
  "on_line parse rawLine m =
     (let line = utrim rawLine in
      if line = [] then (m, False)
      else if \<not> startsWith line (u ''data: '') then (m, False)
      else let dataStr = drop 6 line in
        if dataStr = u ''[DONE]'' then (finishWhenDrained done_patch m, True)
        else case parse dataStr of
          None \<Rightarrow> (m, False)
        | Some data \<Rightarrow> on_data data m)"

fun on_lines :: "(ustr \<Rightarrow> cval option) \<Rightarrow> ustr list \<Rightarrow> manager \<Rightarrow> manager \<times> bool" where
  "on_lines parse [] m = (m, False)"
| "on_lines parse (l # ls) m = (case on_line parse l m of
     (m', True) \<Rightarrow> (m', True)
   | (m', False) \<Rightarrow> on_lines parse ls m')"

section \<open>Requests\<close>

text \<open>The running \<^verbatim>\<open>startSessionChat\<close>: whether its response was accepted, its line buffer, and whether its controller was aborted.\<close>

record request =
  reading :: bool
  buffer :: ustr
  aborted :: bool

record world =
  mgr :: manager
  req :: "request option"

text \<open>The synchronous part of \<^verbatim>\<open>startSessionChat\<close>; \<open>None\<close> where it throws.\<close>

definition startSessionChat :: "ustr \<Rightarrow> ustr \<Rightarrow> nat \<Rightarrow> manager \<Rightarrow> manager option" where
  "startSessionChat sid message savedMessages m =
     (if isStreaming (state m) then None
      else
        let m = (stopTypewriter m)\<lparr>charQueue := [], streamDone := False, pendingDonePatch := None, toolBlocks := []\<rparr>;
            turns = failedTurnsBefore sid savedMessages (state m) in
        Some (setState (\<lambda>s. s\<lparr>status := Streaming, isStreaming := True, sessionId := Some sid,
          userMessage := Some message, content := [], toolCalls := [], streamingPhase := Some Waiting,
          error := None, errorKey := None, errorArgs := None, savedBefore := savedMessages,
          failedTurns := turns\<rparr>) False m))"

definition stop :: "manager \<Rightarrow> manager" where
  "stop m = (if status (state m) = Streaming
     then setState (\<lambda>s. s\<lparr>status := Aborted, isStreaming := False\<rparr>) True m else m)"

definition refusal :: "(ustr \<Rightarrow> cval option) \<Rightarrow> nat \<Rightarrow> ustr \<Rightarrow> patch" where
  "refusal parse httpStatus body s =
     (let detail = (case parse body of None \<Rightarrow> []
                    | Some v \<Rightarrow> (case cget v ''detail'' of CStr d \<Rightarrow> take 300 d | _ \<Rightarrow> []));
          status_text = u ''HTTP '' @ u (show_nat httpStatus) in
      if detail \<noteq> []
      then s\<lparr>error := Some (status_text @ u '': '' @ detail), errorKey := Some (u ''streamHttp''),
             errorArgs := Some (CObj [(u ''status'', CNum (int httpStatus)), (u ''detail'', CStr detail)])\<rparr>
      else s\<lparr>error := Some status_text, errorKey := Some (u ''streamHttpStatus''),
             errorArgs := Some (CObj [(u ''status'', CNum (int httpStatus))])\<rparr>)"

definition STREAM_CUT :: ustr where
  "STREAM_CUT = u ''The connection closed before the answer finished, so the text above may be incomplete. Ask again for the whole answer.''"

definition STREAM_EMPTY :: ustr where
  "STREAM_EMPTY = u ''The connection closed without an answer. Ask again.''"

text \<open>What \<^verbatim>\<open>fetch\<close> answers: its status, and the body of a refusal or whether there is a body to read.\<close>

datatype response = Refused nat ustr | NoBody nat | Body

text \<open>\<^verbatim>\<open>catch (error)\<close>: an abort by name, anything else by its text.\<close>

datatype rejection = AbortError | OtherError ustr

definition catch_error :: "rejection \<Rightarrow> manager \<Rightarrow> manager" where
  "catch_error e m = (case e of
      AbortError \<Rightarrow> setState (\<lambda>s. s\<lparr>status := Aborted, isStreaming := False, streamingPhase := None\<rparr>) True m
    | OtherError msg \<Rightarrow> fail (\<lambda>s. s\<lparr>error := Some msg\<rparr>) m)"

text \<open>The manager after the response, and whether the body is read.\<close>

definition on_response :: "(ustr \<Rightarrow> cval option) \<Rightarrow> response \<Rightarrow> manager \<Rightarrow> manager \<times> bool" where
  "on_response parse r m = (case r of
      Refused httpStatus body \<Rightarrow>
        if httpStatus = 401 then (catch_error (OtherError (u ''Error: Unauthorized'')) m, False)
        else (fail (refusal parse httpStatus body) m, False)
    | NoBody _ \<Rightarrow> (catch_error (OtherError (u ''Error: No response body'')) m, False)
    | Body \<Rightarrow> (m, True))"

text \<open>One chunk: the manager after its whole lines, and the rest of the buffer unless the turn returned.\<close>

definition on_chunk :: "(ustr \<Rightarrow> cval option) \<Rightarrow> ustr \<Rightarrow> ustr \<Rightarrow> manager \<Rightarrow> manager \<times> ustr option" where
  "on_chunk parse buf chunk m =
     (let lines = split 10 (buf @ chunk) in
      case on_lines parse (butlast lines) m of
        (m', True) \<Rightarrow> (m', None)
      | (m', False) \<Rightarrow> (m', Some (last lines)))"

text \<open>The end of the body without \<^verbatim>\<open>[DONE]\<close> on a line of its own.\<close>

definition on_end :: "ustr \<Rightarrow> manager \<Rightarrow> manager" where
  "on_end buf m =
     (if utrim buf = u ''data: [DONE]'' then finishWhenDrained done_patch m
      else if content (state m) \<noteq> [] \<or> charQueue m \<noteq> []
      then fail (\<lambda>s. s\<lparr>error := Some STREAM_CUT, errorKey := Some (u ''streamCut'')\<rparr>) m
      else fail (\<lambda>s. s\<lparr>error := Some STREAM_EMPTY, errorKey := Some (u ''streamEmpty'')\<rparr>) m)"

definition initial_world :: world where
  "initial_world = \<lparr>mgr = initial_manager, req = None\<rparr>"

inductive stream_step :: "(ustr \<Rightarrow> cval option) \<Rightarrow> world \<Rightarrow> world \<Rightarrow> bool" for parse where
  start_turn: "req w = None \<Longrightarrow> startSessionChat sid msg saved (mgr w) = Some m \<Longrightarrow>
    stream_step parse w \<lparr>mgr = m, req = Some \<lparr>reading = False, buffer = [], aborted = False\<rparr>\<rparr>"
| stop_turn: "stream_step parse w \<lparr>mgr = stop (mgr w), req = map_option (\<lambda>r. r\<lparr>aborted := True\<rparr>) (req w)\<rparr>"
| respond: "req w = Some r \<Longrightarrow> \<not> reading r \<Longrightarrow> \<not> aborted r \<Longrightarrow> on_response parse resp (mgr w) = (m, ok) \<Longrightarrow>
    stream_step parse w \<lparr>mgr = m, req = (if ok then Some (r\<lparr>reading := True\<rparr>) else None)\<rparr>"
| chunk: "req w = Some r \<Longrightarrow> reading r \<Longrightarrow> \<not> aborted r \<Longrightarrow> on_chunk parse (buffer r) s (mgr w) = (m, buf) \<Longrightarrow>
    stream_step parse w \<lparr>mgr = m, req = map_option (\<lambda>b. r\<lparr>buffer := b\<rparr>) buf\<rparr>"
| end_of_body: "req w = Some r \<Longrightarrow> reading r \<Longrightarrow> \<not> aborted r \<Longrightarrow>
    stream_step parse w \<lparr>mgr = on_end (buffer r) (mgr w), req = None\<rparr>"
| reject: "req w = Some r \<Longrightarrow> aborted r \<longrightarrow> e = AbortError \<Longrightarrow>
    stream_step parse w \<lparr>mgr = catch_error e (mgr w), req = None\<rparr>"
| tick: "typewriterTimer (mgr w) \<Longrightarrow> stream_step parse w \<lparr>mgr = drainQueue (mgr w), req = req w\<rparr>"

inductive stream_reachable :: "(ustr \<Rightarrow> cval option) \<Rightarrow> world \<Rightarrow> bool" for parse where
  initial: "stream_reachable parse initial_world"
| step: "stream_reachable parse w \<Longrightarrow> stream_step parse w w' \<Longrightarrow> stream_reachable parse w'"

section \<open>The invariant\<close>

text \<open>
  \<open>queue_inv\<close>: letters wait only while the timer runs; a turn that is done waits for them and for
  nothing else. \<open>blocks_inv\<close>: the tool blocks are where the manager thinks they are.
\<close>

definition queue_inv :: "manager \<Rightarrow> bool" where
  "queue_inv m \<longleftrightarrow> (charQueue m \<noteq> [] \<longrightarrow> typewriterTimer m \<and> status (state m) = Streaming) \<and>
     (streamDone m \<longleftrightarrow> pendingDonePatch m \<noteq> None) \<and>
     (pendingDonePatch m \<noteq> None \<longrightarrow> pendingDonePatch m = Some done_patch \<and> typewriterTimer m \<and> status (state m) = Streaming) \<and>
     (isStreaming (state m) \<longleftrightarrow> status (state m) = Streaming)"

definition blocks_inv :: "manager \<Rightarrow> bool" where
  "blocks_inv m \<longleftrightarrow> blocks_fit (content (state m)) (toolBlocks m) \<and>
     length (toolBlocks m) = length (toolCalls (state m))"

text \<open>A turn that streams has a request that goes on, or is done and waits for its letters.\<close>

definition request_inv :: "world \<Rightarrow> bool" where
  "request_inv w \<longleftrightarrow> (case req w of
      None \<Rightarrow> status (state (mgr w)) = Streaming \<longrightarrow> streamDone (mgr w)
    | Some r \<Rightarrow> \<not> streamDone (mgr w) \<and> (status (state (mgr w)) = Streaming \<longleftrightarrow> \<not> aborted r))"

definition stream_inv :: "world \<Rightarrow> bool" where
  "stream_inv w \<longleftrightarrow> queue_inv (mgr w) \<and> blocks_inv (mgr w) \<and> request_inv w"

definition live :: "manager \<Rightarrow> bool" where
  "live m \<longleftrightarrow> queue_inv m \<and> blocks_inv m \<and> status (state m) = Streaming \<and> \<not> streamDone m"

definition settled :: "manager \<Rightarrow> bool" where
  "settled m \<longleftrightarrow> queue_inv m \<and> blocks_inv m \<and> (status (state m) = Streaming \<longrightarrow> streamDone m)"

lemmas manager_defs = queue_inv_def blocks_inv_def live_def settled_def

lemmas op_defs = stopTypewriter_def startTypewriter_def flushQueue_def setState_def Let_def

lemma live_content: "live m \<Longrightarrow> live (on_content data m)"
  by (auto simp: on_content_def manager_defs op_defs)

lemma live_approval: "live m \<Longrightarrow> live (on_approval data m)"
proof -
  have len: "length (attach_approval data a f tcs) = length tcs" for a f tcs
    by (induction tcs) auto
  assume "live m"
  then show ?thesis by (auto simp: on_approval_def manager_defs op_defs len)
qed

lemma live_flush: "live m \<Longrightarrow> live (flushQueue m)"
  by (auto simp: manager_defs op_defs blocks_fit_append)

lemma live_function:
  assumes "live m"
  shows "live (on_function data m)"
proof -
  have "live (flushQueue m)" using assms by (rule live_flush)
  then have "blocks_fit (content (state (flushQueue m))) (toolBlocks (flushQueue m))" by (simp add: manager_defs)
  from appendToolBlock_fits [OF this] \<open>live (flushQueue m)\<close> show ?thesis
    by (auto simp: on_function_def Let_def setState_def manager_defs)
qed

lemma live_result:
  assumes "live m"
  shows "live (on_result data m)"
proof (cases "accessSection (cget data ''access'') (cget data ''requests'')")
  case None
  with assms show ?thesis by (simp add: on_result_def)
next
  case (Some access)
  let ?target = "resultTarget (toolCalls (state m)) (cstr (cget data ''function_result'')) (cget data ''call_id'')"
  obtain c bs where o: "tool_outcome (content (state m)) (toolBlocks m) ?target (result_block data) access = (c, bs)"
    by fastforce
  have "blocks_fit (content (state m)) (toolBlocks m)" using assms by (simp add: manager_defs)
  from tool_outcome_fits [OF this, of ?target "result_block data" access] o
  have "blocks_fit c bs" by simp
  moreover have "length bs = length (toolBlocks m)"
    using length_tool_outcome [of "content (state m)" "toolBlocks m" ?target "result_block data" access] o by simp
  ultimately show ?thesis
    using Some assms o
    by (auto simp: on_result_def withToolOutcome_def Let_def setState_def manager_defs split: option.splits)
qed

lemma settled_fail:
  assumes "live m" "\<And>s. status (patch s) = status s \<and> isStreaming (patch s) = isStreaming s \<and>
    content (patch s) = content s \<and> toolCalls (patch s) = toolCalls s"
  shows "settled (fail patch m)"
  using assms by (auto simp: fail_def manager_defs op_defs blocks_fit_append)

lemma settled_done: "live m \<Longrightarrow> settled (finishWhenDrained done_patch m)"
  by (auto simp: finishWhenDrained_def drainQueue_def done_patch_def manager_defs op_defs)

lemma on_data_live:
  assumes "live m" "on_data data m = (m', ret)"
  shows "if ret then settled m' else live m'"
proof -
  have "settled (on_error data m)" unfolding on_error_def by (rule settled_fail [OF assms(1)]) simp
  with assms live_content live_approval live_function live_result show ?thesis
    by (auto simp: on_data_def split: if_splits)
qed

lemma on_line_live:
  assumes "live m" "on_line parse l m = (m', ret)"
  shows "if ret then settled m' else live m'"
  using assms settled_done [OF assms(1)] on_data_live [OF assms(1)]
  by (auto simp: on_line_def Let_def split: if_splits option.splits)

lemma on_lines_live: "live m \<Longrightarrow> on_lines parse ls m = (m', ret) \<Longrightarrow> if ret then settled m' else live m'"
proof (induction ls arbitrary: m)
  case (Cons l ls)
  obtain m1 r where l: "on_line parse l m = (m1, r)" by fastforce
  from on_line_live [OF Cons.prems(1) l] show ?case
    using Cons.IH [of m1] Cons.prems(2) l by (cases r) auto
qed simp

lemma on_chunk_live:
  assumes "live m" "on_chunk parse buf s m = (m', buf')"
  shows "case buf' of None \<Rightarrow> settled m' | Some _ \<Rightarrow> live m'"
proof -
  obtain m1 ret where l: "on_lines parse (butlast (split 10 (buf @ s))) m = (m1, ret)" by fastforce
  with on_lines_live [OF assms(1) l] assms(2) show ?thesis
    by (cases ret) (auto simp: on_chunk_def Let_def)
qed

lemma on_end_settled: "live m \<Longrightarrow> settled (on_end buf m)"
  unfolding on_end_def by (auto intro!: settled_done settled_fail)

lemma on_response_live:
  assumes "live m" "on_response parse r m = (m', ok)"
  shows "if ok then live m' else settled m'"
proof -
  have "settled (fail (refusal parse k b) m)" for k b
    by (rule settled_fail [OF assms(1)]) (auto simp: refusal_def Let_def)
  moreover have "settled (fail (\<lambda>s. s\<lparr>error := Some e\<rparr>) m)" for e
    by (rule settled_fail [OF assms(1)]) simp
  ultimately show ?thesis
    using assms by (auto simp: on_response_def catch_error_def split: response.splits if_splits)
qed

lemma live_start: "startSessionChat sid msg saved m = Some m' \<Longrightarrow> live m'"
  by (auto simp: startSessionChat_def manager_defs op_defs blocks_fit_def split: if_splits)

lemma settled_stop: "queue_inv m \<Longrightarrow> blocks_inv m \<Longrightarrow>
    queue_inv (stop m) \<and> blocks_inv (stop m) \<and> status (state (stop m)) \<noteq> Streaming \<and> \<not> streamDone (stop m)"
  by (auto simp: stop_def manager_defs op_defs blocks_fit_append)

lemma settled_abort: "queue_inv m \<Longrightarrow> blocks_inv m \<Longrightarrow> settled (catch_error AbortError m)"
  by (auto simp: catch_error_def manager_defs op_defs blocks_fit_append)

lemma drain_inv: "queue_inv m \<Longrightarrow> blocks_inv m \<Longrightarrow> queue_inv (drainQueue m) \<and> blocks_inv (drainQueue m)"
  by (auto simp: drainQueue_def done_patch_def manager_defs op_defs blocks_fit_append split: option.splits)

text \<open>The letters of a done turn end it; before that a tick changes neither the status nor whether it is done.\<close>

lemma drain_status:
  assumes "queue_inv m"
  shows "status (state (drainQueue m)) = Streaming \<longleftrightarrow> status (state m) = Streaming \<and> (streamDone m \<longrightarrow> streamDone (drainQueue m))"
    "streamDone (drainQueue m) \<Longrightarrow> streamDone m"
    "\<not> streamDone m \<Longrightarrow> status (state (drainQueue m)) = status (state m)"
  using assms by (auto simp: drainQueue_def done_patch_def manager_defs op_defs split: option.splits if_splits)

lemma step_inv: "stream_step parse w w' \<Longrightarrow> stream_inv w \<Longrightarrow> stream_inv w'"
proof (induction rule: stream_step.induct)
  case (start_turn w sid msg saved m)
  with live_start show ?case by (auto simp: stream_inv_def request_inv_def live_def)
next
  case (stop_turn w)
  with settled_stop [of "mgr w"] show ?case
    by (auto simp: stream_inv_def request_inv_def split: option.splits)
next
  case (respond w r resp m ok)
  then have "live (mgr w)" by (auto simp: stream_inv_def request_inv_def live_def)
  from on_response_live [OF this respond(4)] respond show ?case
    by (auto simp: stream_inv_def request_inv_def live_def settled_def split: if_splits)
next
  case (chunk w r s m buf)
  then have "live (mgr w)" by (auto simp: stream_inv_def request_inv_def live_def)
  from on_chunk_live [OF this chunk(4)] chunk show ?case
    by (auto simp: stream_inv_def request_inv_def live_def settled_def split: option.splits)
next
  case (end_of_body w r)
  then have "live (mgr w)" by (auto simp: stream_inv_def request_inv_def live_def)
  from on_end_settled [OF this] show ?case
    by (auto simp: stream_inv_def request_inv_def settled_def)
next
  case (reject w r e)
  have "settled (catch_error e (mgr w))"
  proof (cases e)
    case AbortError
    with settled_abort reject(3) show ?thesis by (auto simp: stream_inv_def)
  next
    case (OtherError msg)
    with reject have "live (mgr w)" by (auto simp: stream_inv_def request_inv_def live_def)
    then have "settled (fail (\<lambda>s. s\<lparr>error := Some msg\<rparr>) (mgr w))" by (rule settled_fail) simp
    with OtherError show ?thesis by (simp add: catch_error_def)
  qed
  then show ?case by (auto simp: stream_inv_def request_inv_def settled_def)
next
  case (tick w)
  then have q: "queue_inv (mgr w)" "blocks_inv (mgr w)" "request_inv w" by (auto simp: stream_inv_def)
  with drain_inv [OF q(1,2)] drain_status [OF q(1)] show ?case
    by (auto simp: stream_inv_def request_inv_def split: option.splits)
qed

lemma reachable_inv: "stream_reachable parse w \<Longrightarrow> stream_inv w"
proof (induction rule: stream_reachable.induct)
  case initial
  show ?case
    by (simp add: initial_world_def initial_manager_def initialState_def stream_inv_def request_inv_def manager_defs blocks_fit_def)
qed (auto intro: step_inv)

section \<open>Letters\<close>

text \<open>All the letters that came: those drawn and those waiting.\<close>

definition letters :: "manager \<Rightarrow> ustr" where
  "letters m = content (state m) @ concat (charQueue m)"

lemma letters_drain: "queue_inv m \<Longrightarrow> letters (drainQueue m) = letters m"
proof -
  have "concat (take b q) @ concat (drop b q) = concat q" for b :: nat and q :: "ustr list"
    by (metis append_take_drop_id concat_append)
  moreover assume "queue_inv m"
  ultimately show ?thesis
    by (auto simp: letters_def drainQueue_def done_patch_def queue_inv_def op_defs split: option.splits)
qed

lemma letters_fail:
  assumes "\<And>s. content (patch s) = content s"
  shows "letters (fail patch m) = letters m"
  using assms by (simp add: letters_def fail_def op_defs)

lemma letters_finish: "letters (finishWhenDrained done_patch m) = letters m"
  by (simp add: letters_def finishWhenDrained_def drainQueue_def done_patch_def op_defs)

lemma letters_stop: "letters (stop m) = letters m"
  by (simp add: letters_def stop_def op_defs)

lemma letters_catch: "letters (catch_error e m) = letters m"
proof (cases e)
  case AbortError
  then show ?thesis by (simp add: letters_def catch_error_def op_defs)
next
  case (OtherError msg)
  have "letters (fail (\<lambda>s. s\<lparr>error := Some msg\<rparr>) m) = letters m" by (rule letters_fail) simp
  with OtherError show ?thesis by (simp add: catch_error_def)
qed

lemma letters_end: "letters (on_end buf m) = letters m"
  unfolding on_end_def by (auto intro!: letters_fail simp: letters_finish)

lemma letters_content: "letters (on_content data m) = letters m @ cstr (cget data ''content'')"
  by (simp add: letters_def on_content_def op_defs)

text \<open>Each tick takes letters off the queue; the tick after the last letter ends the turn.\<close>

lemma batch_pos: "0 < batch n"
  by (simp add: batch_def)

lemma drain_shorter: "charQueue m \<noteq> [] \<Longrightarrow> length (charQueue (drainQueue m)) < length (charQueue m)"
  using batch_pos [of "length (charQueue m)"] by (simp add: drainQueue_def Let_def)

lemma ticks_complete:
  assumes "queue_inv (mgr w)" "streamDone (mgr w)"
  shows "\<exists>n w'. n \<le> length (charQueue (mgr w)) + 1 \<and> (stream_step parse ^^ n) w w' \<and>
    status (state (mgr w')) = Completed \<and> \<not> isStreaming (state (mgr w')) \<and> \<not> typewriterTimer (mgr w') \<and>
    content (state (mgr w')) = letters (mgr w)"
  using assms
proof (induction "length (charQueue (mgr w))" arbitrary: w rule: less_induct)
  case less
  let ?w = "\<lparr>mgr = drainQueue (mgr w), req = req w\<rparr>"
  have t: "typewriterTimer (mgr w)" "pendingDonePatch (mgr w) = Some done_patch"
    using less.prems by (auto simp: queue_inv_def)
  then have step: "stream_step parse w ?w" by (intro stream_step.tick)
  show ?case
  proof (cases "charQueue (mgr w) = []")
    case True
    with t less.prems(2) have "status (state (mgr ?w)) = Completed \<and> \<not> isStreaming (state (mgr ?w)) \<and>
        \<not> typewriterTimer (mgr ?w) \<and> content (state (mgr ?w)) = letters (mgr w)"
      by (simp add: drainQueue_def done_patch_def letters_def op_defs)
    with step show ?thesis by (intro exI [of _ 1] exI [of _ ?w]) (simp add: eq_OO)
  next
    case False
    have q: "queue_inv (drainQueue (mgr w))" "streamDone (drainQueue (mgr w))"
      using less.prems False by (auto simp: drainQueue_def queue_inv_def Let_def)
    from less.hyps [of ?w] drain_shorter [OF False] q obtain n w' where
      n: "n \<le> length (charQueue (drainQueue (mgr w))) + 1" "(stream_step parse ^^ n) ?w w'"
        "status (state (mgr w')) = Completed \<and> \<not> isStreaming (state (mgr w')) \<and> \<not> typewriterTimer (mgr w') \<and>
         content (state (mgr w')) = letters (drainQueue (mgr w))" by auto
    have "(stream_step parse ^^ Suc n) w w'" using step n(2) by (rule relpowp_Suc_I2)
    with n drain_shorter [OF False] letters_drain [OF less.prems(1)] show ?thesis
      by (intro exI [of _ "Suc n"] exI [of _ w']) auto
  qed
qed

text \<open>A small run: a turn, two letters, and the end of the answer.\<close>

definition demo_parse :: "ustr \<Rightarrow> cval option" where
  "demo_parse s = Some (CObj [(u ''content'', CStr (u ''ab''))])"

definition demo_started :: world where
  "demo_started = \<lparr>mgr = \<lparr>state = \<lparr>status = Streaming, isStreaming = True, sessionId = Some (u ''s''),
      userMessage = Some (u ''q''), content = [], toolCalls = [], streamingPhase = Some Waiting, error = None,
      errorKey = None, errorArgs = None, savedBefore = 0, failedTurns = []\<rparr>, charQueue = [],
      typewriterTimer = False, streamDone = False, pendingDonePatch = None, toolBlocks = []\<rparr>,
    req = Some \<lparr>reading = False, buffer = [], aborted = False\<rparr>\<rparr>"

definition demo_done :: world where
  "demo_done = \<lparr>mgr = (mgr demo_started)\<lparr>charQueue := [[97], [98]], typewriterTimer := True, streamDone := True,
     pendingDonePatch := Some done_patch\<rparr>, req = None\<rparr>"

lemma demo_started_reachable: "stream_reachable parse demo_started"
proof (rule stream_reachable.step [OF stream_reachable.initial])
  have "startSessionChat (u ''s'') (u ''q'') 0 (mgr initial_world) = Some (mgr demo_started)"
    by (simp add: startSessionChat_def initial_world_def initial_manager_def initialState_def demo_started_def
        failedTurnsBefore_def op_defs)
  from stream_step.start_turn [OF _ this] show "stream_step parse initial_world demo_started"
    by (simp add: initial_world_def demo_started_def)
qed

lemma demo_done_reachable: "stream_reachable demo_parse demo_done"
proof -
  let ?r = "\<lparr>reading = True, buffer = [], aborted = False\<rparr>" and ?lines = "u ''data: x'' @ nl @ u ''data: [DONE]'' @ nl"
  let ?w = "\<lparr>mgr = mgr demo_started, req = Some ?r\<rparr>"
  have "stream_step demo_parse demo_started ?w"
    using stream_step.respond [of demo_started _ demo_parse Body "mgr demo_started" True]
    by (simp add: demo_started_def on_response_def)
  then have w: "stream_reachable demo_parse ?w"
    using demo_started_reachable by (rule stream_reachable.step [rotated])
  have lines: "split 10 ?lines = [u ''data: x'', u ''data: [DONE]'', []]" by (simp add: u_def)
  have "on_line demo_parse (u ''data: x'') (mgr ?w) =
      ((mgr demo_started)\<lparr>charQueue := [[97], [98]], typewriterTimer := True\<rparr>, False)"
    by (simp add: on_line_def utrim_def utrim_end_def utrim_start_def ws_unit_def u_def startsWith_def demo_parse_def
        on_data_def on_content_def op_defs demo_started_def high_surrogate_def)
  moreover have "on_line demo_parse (u ''data: [DONE]'') ((mgr demo_started)\<lparr>charQueue := [[97], [98]], typewriterTimer := True\<rparr>) =
      (mgr demo_done, True)"
    by (simp add: on_line_def utrim_def utrim_end_def utrim_start_def ws_unit_def u_def startsWith_def
        finishWhenDrained_def demo_started_def demo_done_def)
  ultimately have "on_chunk demo_parse [] ?lines (mgr ?w) = (mgr demo_done, None)"
    by (simp add: on_chunk_def lines [unfolded append.simps] Let_def)
  from stream_step.chunk [of ?w ?r demo_parse ?lines, simplified, OF this [simplified]]
  have "stream_step demo_parse ?w demo_done" by (simp add: demo_done_def)
  with w show ?thesis by (rule stream_reachable.step)
qed

text \<open>The same turn with a tool call that waits for its result.\<close>

definition demo_call :: cval where
  "demo_call = CObj [(u ''function'', CStr (u ''get_pods''))]"

definition demo_tool :: world where
  "demo_tool = \<lparr>mgr = on_function demo_call (mgr demo_started), req = Some \<lparr>reading = True, buffer = [], aborted = False\<rparr>\<rparr>"

lemma demo_tool_open: "0 < length (toolBlocks (mgr demo_tool)) \<and> (\<exists>r. resultAt (toolBlocks (mgr demo_tool) ! 0) = Some r)"
proof -
  let ?block = "buildToolCallBlock (cget demo_call ''function'') (args_of demo_call)"
  have "toolBlocks (mgr demo_tool) = [new_block ?block ?block]"
    by (simp add: demo_tool_def on_function_def demo_started_def op_defs appendToolBlock_def utrim_end_def)
  with new_block_fits(3) [of ?block "[]"] show ?thesis by simp
qed

lemma demo_tool_reachable: "stream_reachable (\<lambda>_. Some demo_call) demo_tool"
proof -
  let ?p = "\<lambda>_. Some demo_call" and ?r = "\<lparr>reading = True, buffer = [], aborted = False\<rparr>"
  let ?w = "\<lparr>mgr = mgr demo_started, req = Some ?r\<rparr>" and ?s = "u ''data: x'' @ nl"
  have "stream_step ?p demo_started ?w"
    using stream_step.respond [of demo_started _ ?p Body "mgr demo_started" True]
    by (simp add: demo_started_def on_response_def)
  then have w: "stream_reachable ?p ?w"
    using demo_started_reachable by (rule stream_reachable.step [rotated])
  have "on_line ?p (u ''data: x'') (mgr ?w) = (mgr demo_tool, False)"
    by (simp add: on_line_def utrim_def utrim_end_def utrim_start_def ws_unit_def u_def startsWith_def
        on_data_def demo_call_def demo_tool_def)
  moreover have "split 10 ?s = [u ''data: x'', []]" by (simp add: u_def)
  ultimately have "on_chunk ?p [] ?s (mgr ?w) = (mgr demo_tool, Some [])"
    by (simp add: on_chunk_def Let_def)
  from stream_step.chunk [of ?w ?r ?p ?s, simplified, OF this [simplified]]
  have "stream_step ?p ?w demo_tool" by (simp add: demo_tool_def)
  with w show ?thesis by (rule stream_reachable.step)
qed

section \<open>Properties\<close>

text \<open>
  C5: the chat is never stuck in an answer. In every reachable state the streaming flag and the status
  agree; while an answer streams, either its request is still running and was not stopped, or the answer is
  complete and the timer that draws its last letters and ends it is running; and waiting letters always have
  the timer running.
\<close>

theorem chat_never_stuck:
  assumes "stream_reachable parse w"
  shows "(isStreaming (state (mgr w)) \<longleftrightarrow> status (state (mgr w)) = Streaming) \<and>
    (charQueue (mgr w) \<noteq> [] \<longrightarrow> typewriterTimer (mgr w)) \<and>
    (status (state (mgr w)) = Streaming \<longrightarrow>
       (\<exists>r. req w = Some r \<and> \<not> aborted r \<and> \<not> streamDone (mgr w)) \<or>
       (req w = None \<and> typewriterTimer (mgr w) \<and> streamDone (mgr w) \<and> pendingDonePatch (mgr w) = Some done_patch))"
  using reachable_inv [OF assms]
  by (auto simp: stream_inv_def queue_inv_def request_inv_def split: option.splits)

theorem chat_never_stuck_witness:
  "status (state (mgr demo_done)) = Streaming \<and> req demo_done = None \<and> typewriterTimer (mgr demo_done)"
  using chat_never_stuck [OF demo_done_reachable] by (simp add: demo_done_def demo_started_def)

text \<open>
  C7: an answer that came whole is shown whole. Once the end of the answer was received, as many timer
  ticks as there are letters waiting, and one more, are enough: the chat is then completed, its timer is off, and it
  shows every letter in order.
\<close>

theorem done_answer_completes:
  assumes "stream_reachable parse w" "streamDone (mgr w)"
  shows "\<exists>n w'. n \<le> length (charQueue (mgr w)) + 1 \<and> (stream_step parse ^^ n) w w' \<and>
    status (state (mgr w')) = Completed \<and> \<not> isStreaming (state (mgr w')) \<and> \<not> typewriterTimer (mgr w') \<and>
    content (state (mgr w')) = content (state (mgr w)) @ concat (charQueue (mgr w))"
  using ticks_complete [of w parse] reachable_inv [OF assms(1)] assms(2)
  by (simp add: stream_inv_def letters_def)

theorem done_answer_completes_witness:
  "\<exists>n w'. n \<le> 3 \<and> (stream_step demo_parse ^^ n) demo_done w' \<and>
    status (state (mgr w')) = Completed \<and> content (state (mgr w')) = u ''ab''"
proof -
  have "streamDone (mgr demo_done)" "length (charQueue (mgr demo_done)) + 1 = 3"
      "content (state (mgr demo_done)) @ concat (charQueue (mgr demo_done)) = u ''ab''"
    by (simp_all add: demo_done_def demo_started_def u_def)
  with done_answer_completes [OF demo_done_reachable] show ?thesis by metis
qed

text \<open>
  C8: no letter of an answer is lost. Drawing, stopping, a failed or an aborted read and the end of the
  stream keep every letter that came, drawn or waiting, in order; a text event adds its letters at the end.
\<close>

theorem letters_kept:
  assumes "stream_reachable parse w"
  shows "letters (drainQueue (mgr w)) = letters (mgr w) \<and> letters (stop (mgr w)) = letters (mgr w) \<and>
    letters (catch_error e (mgr w)) = letters (mgr w) \<and> letters (on_end buf (mgr w)) = letters (mgr w) \<and>
    letters (on_content data (mgr w)) = letters (mgr w) @ cstr (cget data ''content'')"
  using reachable_inv [OF assms]
  by (simp add: stream_inv_def letters_drain letters_stop letters_catch letters_end letters_content)

theorem letters_kept_witness:
  "letters (mgr demo_done) = u ''ab'' \<and> letters (stop (mgr demo_done)) = letters (mgr demo_done)"
  using letters_kept [OF demo_done_reachable, of AbortError "[]" CNull]
  by (simp add: letters_def demo_done_def demo_started_def u_def)



text \<open>
  the turns that failed or were stopped stay on screen when the next question of the same
  conversation is sent: the earlier ones in order and the one that just ended, with its letters, last. A question in
  another conversation starts with none, and a question while an answer streams is refused.
\<close>

theorem failed_turns_kept:
  "(isStreaming (state m) \<longrightarrow> startSessionChat sid msg saved m = None) \<and>
   (\<not> isStreaming (state m) \<longrightarrow> (\<exists>m'. startSessionChat sid msg saved m = Some m' \<and>
      status (state m') = Streaming \<and> content (state m') = [] \<and> charQueue m' = [] \<and> toolBlocks m' = [] \<and>
      (sessionId (state m) \<noteq> Some sid \<longrightarrow> failedTurns (state m') = []) \<and>
      (sessionId (state m) = Some sid \<longrightarrow> (\<exists>new. failedTurns (state m') = failedTurns (state m) @ new \<and>
         (if status (state m) \<in> {Failed, Aborted} \<and> userMessage (state m) \<noteq> None
          then \<exists>t. new = [t] \<and> Some (question t) = userMessage (state m) \<and> ft_content t = content (state m) \<and>
                 stopped t = (status (state m) = Aborted)
          else new = [])))))"
  by (auto simp: startSessionChat_def failedTurnsBefore_def op_defs split: option.split)

theorem failed_turns_kept_witness:
  "startSessionChat [] [] 0 (mgr demo_started) = None \<and>
   (\<exists>m'. startSessionChat (u ''s'') [] 0 (stop (mgr demo_done)) = Some m' \<and>
     (\<exists>t. failedTurns (state m') = [t] \<and> ft_content t = u ''ab''))"
proof -
  have "sessionId (state (stop (mgr demo_done))) = Some (u ''s'')" "\<not> isStreaming (state (stop (mgr demo_done)))"
      "status (state (stop (mgr demo_done))) = Aborted" "userMessage (state (stop (mgr demo_done))) = Some (u ''q'')"
      "content (state (stop (mgr demo_done))) = u ''ab''" "failedTurns (state (stop (mgr demo_done))) = []"
    by (simp_all add: stop_def demo_done_def demo_started_def op_defs u_def)
  then show ?thesis
    using failed_turns_kept [of "stop (mgr demo_done)" "u ''s''" "[]" 0] failed_turns_kept [of "mgr demo_started" "[]" "[]" 0]
    by (auto simp: demo_started_def)
qed

end
