(* ===== verification/Watch_Rows.thy ===== *)
theory Watch_Rows
  imports Prelude
begin

text \<open>
  Live lists: what one watch event does to the rows of a list on screen
  (\<^verbatim>\<open>frontend/src/services/useKubeWatchList.ts applyWatchEvent\<close>, \<^verbatim>\<open>services/applyRowEvent.ts\<close>,
  and the body that the pages' own \<^verbatim>\<open>apply<Kind>WatchEvent\<close> functions share).

  The contract of all of them is the locale \<open>row_feed\<close>: a list with one row per object that
  implements a map from object keys to rows. The kinds' normalizers and their interpretations of the
  locale are in the theories \<open>Rows_*\<close>.
\<close>

section \<open>Events\<close>

text \<open>\<^verbatim>\<open>{ type?: string; object?: any }\<close>; a missing property reads as undefined.\<close>

record watch_event =
  ev_type :: jval
  ev_object :: jval

abbreviation is_deleted :: "watch_event \<Rightarrow> bool" where
  "is_deleted ev \<equiv> ev_type ev = JStr ''DELETED''"

abbreviation prev_items :: "'a list option \<Rightarrow> 'a list" where
  "prev_items prev \<equiv> (case prev of None \<Rightarrow> [] | Some xs \<Rightarrow> xs)"

text \<open>
  The end of every apply function: the row at \<open>findIndex\<close> is spliced out by DELETED and replaced by
  anything else; a row not found is appended (and nothing by DELETED).
\<close>

definition place_row :: "('a \<Rightarrow> bool) \<Rightarrow> bool \<Rightarrow> 'a \<Rightarrow> 'a list \<Rightarrow> 'a list" where
  "place_row same deleted row items =
     (case findIndex same items of
        Some i \<Rightarrow> if deleted then splice1 i items else items[i := row]
      | None \<Rightarrow> if deleted then items else items @ [row])"

section \<open>The apply functions\<close>

text \<open>\<^verbatim>\<open>item?.name || item?.metadata?.name\<close>, the same of the namespace, and the key of the two.\<close>

definition item_name :: "jval \<Rightarrow> jval" where
  "item_name item = jor (jget item ''name'') (jpath item [''metadata'', ''name''])"

definition item_namespace :: "jval \<Rightarrow> jval" where
  "item_namespace item = jor (jget item ''namespace'') (jpath item [''metadata'', ''namespace''])"

definition item_key :: "jval \<Rightarrow> jval" where
  "item_key item = (if truthy (item_namespace item)
     then JStr (jstr (item_namespace item) @ ''/'' @ jstr (item_name item)) else item_name item)"

definition applyWatchEvent :: "jval list option \<Rightarrow> watch_event \<Rightarrow> jval list" where
  "applyWatchEvent prev ev =
     (let items = prev_items prev; obj = ev_object ev in
      if \<not> truthy obj then items
      else if \<not> truthy (item_name obj) then items
      else place_row (\<lambda>item. js_eq (item_key item) (item_key obj)) (is_deleted ev) obj items)"

definition same_row :: "jval \<Rightarrow> jval \<Rightarrow> bool" where
  "same_row item row \<longleftrightarrow> js_eq (jget item ''name'') (jget row ''name'') \<and>
     js_eq (jnn (jget item ''namespace'') (JStr [])) (jnn (jget row ''namespace'') (JStr []))"

definition applyRowEvent :: "(jval \<Rightarrow> jval) \<Rightarrow> jval list option \<Rightarrow> watch_event \<Rightarrow> jval list" where
  "applyRowEvent toRow prev ev =
     (let items = prev_items prev; obj = ev_object ev in
      if \<not> truthy obj then items
      else let row = toRow obj in
        if \<not> truthy (jget row ''name'') then items
        else place_row (\<lambda>item. same_row item row) (is_deleted ev) row items)"

text \<open>
  The body of \<^verbatim>\<open>apply<Kind>WatchEvent\<close> of a namespaced kind: the key is the template literal
  \<^verbatim>\<open>`${namespace}/${name}`\<close>, compared as strings.
\<close>

definition ns_key :: "jval \<Rightarrow> string" where
  "ns_key item = jstr (jget item ''namespace'') @ ''/'' @ jstr (jget item ''name'')"

definition applyNamespacedEvent :: "(jval \<Rightarrow> jval) \<Rightarrow> jval list option \<Rightarrow> watch_event \<Rightarrow> jval list" where
  "applyNamespacedEvent toRow prev ev =
     (let items = prev_items prev; obj = ev_object ev in
      if \<not> truthy obj then items
      else let normalized = toRow obj in
        if \<not> truthy (jget normalized ''name'') \<or> \<not> truthy (jget normalized ''namespace'') then items
        else place_row (\<lambda>item. ns_key item = ns_key normalized) (is_deleted ev) normalized items)"

text \<open>The body of a cluster-scoped kind's: rows are compared by \<^verbatim>\<open>item.name === name\<close>.\<close>

definition applyNamedEvent :: "(jval \<Rightarrow> jval) \<Rightarrow> jval list option \<Rightarrow> watch_event \<Rightarrow> jval list" where
  "applyNamedEvent toRow prev ev =
     (let items = prev_items prev; obj = ev_object ev in
      if \<not> truthy obj then items
      else let normalized = toRow obj in
        if \<not> truthy (jget normalized ''name'') then items
        else place_row (\<lambda>item. js_eq (jget item ''name'') (jget normalized ''name''))
               (is_deleted ev) normalized items)"

section \<open>The contract of a live list\<close>

text \<open>
  A feed is given by what an event carries (\<open>carried\<close>: the row, or nothing when the event is
  ignored), the key of a row, and which rows are proper (\<open>proper\<close>: their key is comparable). The map a
  list stands for is \<open>rows_of\<close>; \<open>feed_spec\<close> is what an event does to that map.
\<close>

definition rows_of :: "('a \<Rightarrow> 'k) \<Rightarrow> 'a list \<Rightarrow> 'k \<Rightarrow> 'a option" where
  "rows_of key xs = map_of (map (\<lambda>r. (key r, r)) xs)"

definition rows_inv :: "('a \<Rightarrow> bool) \<Rightarrow> ('a \<Rightarrow> 'k) \<Rightarrow> 'a list \<Rightarrow> bool" where
  "rows_inv proper key xs \<longleftrightarrow> list_all proper xs \<and> distinct (map key xs)"

definition feed_spec :: "(watch_event \<Rightarrow> 'a option) \<Rightarrow> ('a \<Rightarrow> 'k) \<Rightarrow> ('k \<Rightarrow> 'a option) \<Rightarrow> watch_event \<Rightarrow> 'k \<Rightarrow> 'a option" where
  "feed_spec carried key m ev = (case carried ev of
      None \<Rightarrow> m
    | Some r \<Rightarrow> if is_deleted ev then m(key r := None) else m(key r \<mapsto> r))"

lemma rows_of_simps [simp]:
  "rows_of key [] = Map.empty"
  "rows_of key (x # xs) = (rows_of key xs)(key x \<mapsto> x)"
  by (simp_all add: rows_of_def)

lemma rows_of_append: "rows_of key (xs @ ys) = rows_of key ys ++ rows_of key xs"
  by (induction xs) (auto simp: map_add_def fun_eq_iff split: option.splits)

lemma rows_of_notin: "k \<notin> key ` set xs \<Longrightarrow> rows_of key xs k = None"
  by (induction xs) auto

lemma rows_of_mem: "distinct (map key xs) \<Longrightarrow> x \<in> set xs \<Longrightarrow> rows_of key xs (key x) = Some x"
  by (simp add: rows_of_def map_of_is_SomeI comp_def)

lemma rows_of_SomeD: "rows_of key xs k = Some r \<Longrightarrow> r \<in> set xs \<and> key r = k"
  by (induction xs) (auto split: if_splits)

text \<open>Placing a row by key, on the list and on the map.\<close>

lemma place_row_cases:
  assumes "\<forall>x\<in>set xs. same x \<longleftrightarrow> key x = key r" and "distinct (map key xs)"
  shows "key r \<notin> key ` set xs \<and> place_row same d r xs = (if d then xs else xs @ [r]) \<or>
    (\<exists>ys x zs. xs = ys @ x # zs \<and> key x = key r \<and> key r \<notin> key ` set (ys @ zs) \<and>
       place_row same d r xs = (if d then ys @ zs else ys @ r # zs))"
proof (cases "findIndex same xs")
  case None
  have "place_row same d r xs = (if d then xs else xs @ [r])"
    by (simp add: place_row_def None)
  moreover have "key r \<notin> key ` set xs"
    using None assms(1) by (auto simp: findIndex_None_iff)
  ultimately show ?thesis by blast
next
  case (Some i)
  then obtain ys x zs where s: "xs = ys @ x # zs" "length ys = i" "same x"
    by (rule findIndex_split)
  then have "key x = key r" using assms(1) by simp
  moreover have "key r \<notin> key ` set (ys @ zs)"
    using assms(2) \<open>key x = key r\<close> s(1) by auto
  moreover have "place_row same d r xs = (if d then ys @ zs else ys @ r # zs)"
    unfolding place_row_def Some using s(1,2) by auto
  ultimately show ?thesis using s(1) by blast
qed

lemma place_row_distinct:
  assumes "\<forall>x\<in>set xs. same x \<longleftrightarrow> key x = key r" and "distinct (map key xs)"
  shows "distinct (map key (place_row same d r xs))"
  using place_row_cases [OF assms, of d] assms(2)
  by (elim disjE exE conjE) auto

lemma rows_of_place_row:
  assumes "\<forall>x\<in>set xs. same x \<longleftrightarrow> key x = key r" and "distinct (map key xs)"
  shows "rows_of key (place_row same d r xs) =
    (if d then (rows_of key xs)(key r := None) else (rows_of key xs)(key r \<mapsto> r))"
proof -
  have upd: "(m ++ (m'(k := v))) = (m ++ m')(k := (case v of None \<Rightarrow> m k | Some y \<Rightarrow> Some y))"
    for m m' :: "'b \<Rightarrow> 'a option" and k v
    by (auto simp: map_add_def fun_eq_iff split: option.splits)
  from place_row_cases [OF assms, of d] show ?thesis
  proof (elim disjE exE conjE)
    assume k: "key r \<notin> key ` set xs" and p: "place_row same d r xs = (if d then xs else xs @ [r])"
    from k have "rows_of key xs (key r) = None" by (rule rows_of_notin)
    with p show ?thesis
      by (auto simp: rows_of_append map_add_def fun_eq_iff split: option.splits)
  next
    fix ys x zs
    assume s: "xs = ys @ x # zs" "key x = key r" "key r \<notin> key ` set (ys @ zs)"
      and p: "place_row same d r xs = (if d then ys @ zs else ys @ r # zs)"
    from s(3) have "rows_of key ys (key r) = None" "rows_of key zs (key r) = None"
      by (auto intro: rows_of_notin)
    with s(1,2) p show ?thesis
      by (auto simp: rows_of_append map_add_def fun_eq_iff split: option.splits)
  qed
qed

lemma set_place_row: "set (place_row same d r xs) \<subseteq> insert r (set xs)"
  by (auto simp: place_row_def splice1_def split: option.splits if_splits
        dest: in_set_takeD in_set_dropD set_update_subset_insert [THEN subsetD])

text \<open>Rows of other keys are neither changed nor reordered.\<close>

lemma filter_place_row:
  assumes "\<forall>x\<in>set xs. same x \<longleftrightarrow> key x = key r" and "distinct (map key xs)"
  shows "filter (\<lambda>x. key x \<noteq> key r) (place_row same d r xs) = filter (\<lambda>x. key x \<noteq> key r) xs"
  using place_row_cases [OF assms, of d]
  by (elim disjE exE conjE) auto

locale row_feed =
  fixes apply_event :: "'a list option \<Rightarrow> watch_event \<Rightarrow> 'a list"
    and carried :: "watch_event \<Rightarrow> 'a option"
    and same :: "'a \<Rightarrow> 'a \<Rightarrow> bool"
    and key :: "'a \<Rightarrow> 'k"
    and proper :: "'a \<Rightarrow> bool"
  assumes no_list: "apply_event None ev = apply_event (Some []) ev"
    and ignored: "carried ev = None \<Longrightarrow> apply_event (Some xs) ev = xs"
    and placed: "carried ev = Some r \<Longrightarrow>
      apply_event (Some xs) ev = place_row (\<lambda>x. same x r) (is_deleted ev) r xs"
    and same_key: "proper x \<Longrightarrow> proper r \<Longrightarrow> same x r \<longleftrightarrow> key x = key r"
begin

definition proper_event :: "watch_event \<Rightarrow> bool" where
  "proper_event ev \<longleftrightarrow> (\<forall>r. carried ev = Some r \<longrightarrow> proper r)"

lemma same_on:
  "list_all proper xs \<Longrightarrow> proper r \<Longrightarrow> \<forall>x\<in>set xs. same x r \<longleftrightarrow> key x = key r"
  by (simp add: list_all_iff same_key)

lemma apply_inv:
  assumes "rows_inv proper key xs" "proper_event ev"
  shows "rows_inv proper key (apply_event (Some xs) ev)"
proof (cases "carried ev")
  case None
  with assms show ?thesis by (simp add: ignored)
next
  case (Some r)
  with assms have "proper r" "list_all proper xs" "distinct (map key xs)"
    by (auto simp: proper_event_def rows_inv_def)
  moreover from this have "distinct (map key (place_row (\<lambda>x. same x r) (is_deleted ev) r xs))"
    by (intro place_row_distinct same_on)
  ultimately show ?thesis
    using set_place_row [of "\<lambda>x. same x r" "is_deleted ev" r xs]
    by (auto simp: placed [OF Some] rows_inv_def list_all_iff)
qed

lemma apply_refines:
  assumes "rows_inv proper key xs" "proper_event ev"
  shows "rows_of key (apply_event (Some xs) ev) = feed_spec carried key (rows_of key xs) ev"
proof (cases "carried ev")
  case None
  with assms show ?thesis by (simp add: ignored feed_spec_def)
next
  case (Some r)
  with assms have "proper r" "list_all proper xs" "distinct (map key xs)"
    by (auto simp: proper_event_def rows_inv_def)
  then show ?thesis
    using rows_of_place_row [OF same_on, of xs r]
    by (simp add: placed [OF Some] feed_spec_def Some)
qed

lemma apply_others:
  assumes "rows_inv proper key xs" "proper_event ev" "carried ev = Some r"
  shows "filter (\<lambda>x. key x \<noteq> key r) (apply_event (Some xs) ev) = filter (\<lambda>x. key x \<noteq> key r) xs"
proof -
  from assms have "proper r" "list_all proper xs" "distinct (map key xs)"
    by (auto simp: proper_event_def rows_inv_def)
  then show ?thesis
    using filter_place_row [OF same_on, of xs r]
    by (simp add: placed [OF assms(3)])
qed

text \<open>A whole watch: the events of a connection, one after the other.\<close>

lemma run_inv:
  "rows_inv proper key xs \<Longrightarrow> \<forall>ev\<in>set evs. proper_event ev \<Longrightarrow>
     rows_inv proper key (foldl (\<lambda>ys ev. apply_event (Some ys) ev) xs evs)"
  by (induction evs arbitrary: xs) (auto intro: apply_inv)

lemma run_refines:
  "rows_inv proper key xs \<Longrightarrow> \<forall>ev\<in>set evs. proper_event ev \<Longrightarrow>
     rows_of key (foldl (\<lambda>ys ev. apply_event (Some ys) ev) xs evs) =
     foldl (feed_spec carried key) (rows_of key xs) evs"
  by (induction evs arbitrary: xs) (simp_all add: apply_refines apply_inv)

text \<open>The rows of objects no event is about keep their order.\<close>

lemma run_others:
  assumes "rows_inv proper key xs" "\<forall>ev\<in>set evs. proper_event ev" "\<forall>ev\<in>set evs. \<forall>r. carried ev = Some r \<longrightarrow> key r \<in> K"
  shows "filter (\<lambda>x. key x \<notin> K) (foldl (\<lambda>ys ev. apply_event (Some ys) ev) xs evs) = filter (\<lambda>x. key x \<notin> K) xs"
  using assms
proof (induction evs arbitrary: xs)
  case (Cons ev evs)
  have "filter (\<lambda>x. key x \<notin> K) (apply_event (Some xs) ev) = filter (\<lambda>x. key x \<notin> K) xs"
  proof (cases "carried ev")
    case (Some r)
    then have r: "key r \<in> K" and o: "filter (\<lambda>x. key x \<noteq> key r) (apply_event (Some xs) ev) = filter (\<lambda>x. key x \<noteq> key r) xs"
      using Cons.prems by (auto intro: apply_others)
    have "filter (\<lambda>x. key x \<notin> K) ys = filter (\<lambda>x. key x \<notin> K) (filter (\<lambda>x. key x \<noteq> key r) ys)" for ys
      using r by (induction ys) auto
    with o show ?thesis by metis
  qed (simp add: ignored)
  with Cons show ?case by (simp add: apply_inv)
qed simp

text \<open>The same frame delivered twice in a row changes nothing the second time.\<close>

lemma apply_twice:
  assumes "rows_inv proper key xs" "proper_event ev"
  shows "rows_of key (apply_event (Some (apply_event (Some xs) ev)) ev) =
         rows_of key (apply_event (Some xs) ev)"
  using assms apply_inv [OF assms]
  by (auto simp: apply_refines feed_spec_def split: option.splits)

end

section \<open>The apply functions are feeds\<close>

definition carried_ns :: "(jval \<Rightarrow> jval) \<Rightarrow> watch_event \<Rightarrow> jval option" where
  "carried_ns toRow ev = (let obj = ev_object ev; r = toRow obj in
     if truthy obj \<and> truthy (jget r ''name'') \<and> truthy (jget r ''namespace'') then Some r else None)"

definition carried_named :: "(jval \<Rightarrow> jval) \<Rightarrow> watch_event \<Rightarrow> jval option" where
  "carried_named toRow ev = (let obj = ev_object ev; r = toRow obj in
     if truthy obj \<and> truthy (jget r ''name'') then Some r else None)"

definition carried_kube :: "watch_event \<Rightarrow> jval option" where
  "carried_kube ev = (let obj = ev_object ev in
     if truthy obj \<and> truthy (item_name obj) then Some obj else None)"

text \<open>The rows whose name and namespace are strings: those whose \<^verbatim>\<open>===\<close> is equality of strings.\<close>

definition named_row :: "jval \<Rightarrow> bool" where
  "named_row r \<longleftrightarrow> is_string (jget r ''name'')"

definition scoped_row :: "jval \<Rightarrow> bool" where
  "scoped_row r \<longleftrightarrow> is_string (jget r ''name'') \<and>
     (nullish (jget r ''namespace'') \<or> is_string (jget r ''namespace''))"

definition keyed_item :: "jval \<Rightarrow> bool" where
  "keyed_item r \<longleftrightarrow> is_string (item_key r)"

definition scoped_key :: "jval \<Rightarrow> jval \<times> jval" where
  "scoped_key r = (jget r ''name'', jnn (jget r ''namespace'') (JStr []))"

lemma is_stringE: "is_string v \<Longrightarrow> (\<And>s. v = JStr s \<Longrightarrow> P) \<Longrightarrow> P"
  by (cases v) auto

lemma nullish_or_string: "nullish v \<or> is_string v \<Longrightarrow> is_string (jnn v (JStr s))"
  by (cases v) auto

lemma applyNamespacedEvent_feed:
  "row_feed (applyNamespacedEvent toRow) (carried_ns toRow) (\<lambda>x r. ns_key x = ns_key r) ns_key (\<lambda>_. True)"
  by unfold_locales
    (auto simp: applyNamespacedEvent_def carried_ns_def Let_def split: if_splits)

lemma applyNamedEvent_feed:
  "row_feed (applyNamedEvent toRow) (carried_named toRow)
     (\<lambda>x r. js_eq (jget x ''name'') (jget r ''name'')) (\<lambda>r. jget r ''name'') named_row"
  by unfold_locales
    (auto simp: applyNamedEvent_def carried_named_def Let_def named_row_def elim!: is_stringE split: if_splits)

lemma applyRowEvent_feed:
  "row_feed (applyRowEvent toRow) (carried_named toRow) same_row scoped_key scoped_row"
proof unfold_locales
  fix x r assume "scoped_row x" "scoped_row r"
  then have "is_string (jget x ''name'')" "is_string (jnn (jget x ''namespace'') (JStr []))"
    by (auto simp: scoped_row_def intro: nullish_or_string)
  then show "same_row x r \<longleftrightarrow> scoped_key x = scoped_key r"
    by (auto simp: same_row_def scoped_key_def elim!: is_stringE)
qed (auto simp: applyRowEvent_def carried_named_def Let_def split: if_splits)

interpretation kube: row_feed applyWatchEvent carried_kube "\<lambda>x r. js_eq (item_key x) (item_key r)" item_key keyed_item
  by unfold_locales
    (auto simp: applyWatchEvent_def carried_kube_def Let_def keyed_item_def elim!: is_stringE split: if_splits)

text \<open>The two shared bodies and \<open>applyRowEvent\<close>, whatever the kind's normalizer.\<close>

interpretation namespaced: row_feed "applyNamespacedEvent toRow" "carried_ns toRow" "\<lambda>x r. ns_key x = ns_key r" ns_key "\<lambda>_. True"
  for toRow by (rule applyNamespacedEvent_feed)

interpretation named: row_feed "applyNamedEvent toRow" "carried_named toRow"
    "\<lambda>x r. js_eq (jget x ''name'') (jget r ''name'')" "\<lambda>r. jget r ''name''" named_row
  for toRow by (rule applyNamedEvent_feed)

interpretation scoped: row_feed "applyRowEvent toRow" "carried_named toRow" same_row scoped_key scoped_row
  for toRow by (rule applyRowEvent_feed)

section \<open>Properties\<close>

abbreviation live :: "(jval list option \<Rightarrow> watch_event \<Rightarrow> jval list) \<Rightarrow> jval list \<Rightarrow> watch_event list \<Rightarrow> jval list" where
  "live apply_event \<equiv> foldl (\<lambda>ys ev. apply_event (Some ys) ev)"

text \<open>
  C1: A list a watch keeps with \<^verbatim>\<open>applyWatchEvent\<close> holds one row per object, and after any events it is the map of
  objects the events describe: an object's row is the last it was sent with, a deleted object has none, an event that is no
  object or has no name changes nothing; rows of objects no event is about keep their order.
\<close>

theorem applyWatchEvent_live:
  assumes "list_all keyed_item xs" "distinct (map item_key xs)"
    and "\<forall>ev\<in>set evs. truthy (ev_object ev) \<and> truthy (item_name (ev_object ev)) \<longrightarrow> keyed_item (ev_object ev)"
  shows "distinct (map item_key (live applyWatchEvent xs evs)) \<and>
    rows_of item_key (live applyWatchEvent xs evs) = foldl (feed_spec carried_kube item_key) (rows_of item_key xs) evs \<and>
    (\<forall>K. (\<forall>ev\<in>set evs. item_key (ev_object ev) \<in> K) \<longrightarrow>
       filter (\<lambda>x. item_key x \<notin> K) (live applyWatchEvent xs evs) = filter (\<lambda>x. item_key x \<notin> K) xs)"
proof (intro conjI allI impI)
  have inv: "rows_inv keyed_item item_key xs" and pe: "\<forall>ev\<in>set evs. kube.proper_event ev"
    using assms by (auto simp: rows_inv_def kube.proper_event_def carried_kube_def Let_def split: if_splits)
  show "distinct (map item_key (live applyWatchEvent xs evs))"
    using kube.run_inv [OF inv pe] by (simp add: rows_inv_def)
  show "rows_of item_key (live applyWatchEvent xs evs) = foldl (feed_spec carried_kube item_key) (rows_of item_key xs) evs"
    by (rule kube.run_refines [OF inv pe])
  fix K assume "\<forall>ev\<in>set evs. item_key (ev_object ev) \<in> K"
  then show "filter (\<lambda>x. item_key x \<notin> K) (live applyWatchEvent xs evs) = filter (\<lambda>x. item_key x \<notin> K) xs"
    by (intro kube.run_others [OF inv pe]) (auto simp: carried_kube_def Let_def split: if_splits)
qed

definition kube_item :: "string \<Rightarrow> string \<Rightarrow> jval" where
  "kube_item name version = JObj [(''metadata'', JObj [(''name'', JStr name), (''namespace'', JStr ''default''), (''resourceVersion'', JStr version)])]"

theorem applyWatchEvent_live_witness:
  "live applyWatchEvent [kube_item ''web'' ''1'', kube_item ''db'' ''2'']
     [\<lparr>ev_type = JStr ''MODIFIED'', ev_object = kube_item ''web'' ''3''\<rparr>, \<lparr>ev_type = JStr ''DELETED'', ev_object = kube_item ''db'' ''4''\<rparr>]
     = [kube_item ''web'' ''3''] \<and>
   distinct (map item_key (live applyWatchEvent [kube_item ''web'' ''1'', kube_item ''db'' ''2'']
     [\<lparr>ev_type = JStr ''MODIFIED'', ev_object = kube_item ''web'' ''3''\<rparr>, \<lparr>ev_type = JStr ''DELETED'', ev_object = kube_item ''db'' ''4''\<rparr>]))"
proof
  show "live applyWatchEvent [kube_item ''web'' ''1'', kube_item ''db'' ''2'']
     [\<lparr>ev_type = JStr ''MODIFIED'', ev_object = kube_item ''web'' ''3''\<rparr>, \<lparr>ev_type = JStr ''DELETED'', ev_object = kube_item ''db'' ''4''\<rparr>]
     = [kube_item ''web'' ''3'']"
    by (simp add: applyWatchEvent_def place_row_def splice1_def item_key_def item_namespace_def item_name_def kube_item_def js_simps)
next
  show "distinct (map item_key (live applyWatchEvent [kube_item ''web'' ''1'', kube_item ''db'' ''2'']
     [\<lparr>ev_type = JStr ''MODIFIED'', ev_object = kube_item ''web'' ''3''\<rparr>, \<lparr>ev_type = JStr ''DELETED'', ev_object = kube_item ''db'' ''4''\<rparr>]))"
    by (rule applyWatchEvent_live [THEN conjunct1])
      (simp_all add: keyed_item_def item_key_def item_namespace_def item_name_def kube_item_def js_simps)
qed

end
