(* ===== verification/Watch_List.thy ===== *)
theory Watch_List
  imports Watch_Rows "HOL-Library.Sublist"
begin

text \<open>
  What a watch subscription does to the lists it feeds (\<^verbatim>\<open>frontend/src/services/useKubeWatchList.ts\<close>:
  \<^verbatim>\<open>scopedPaths\<close>, \<^verbatim>\<open>applyWatchMessage\<close>, \<^verbatim>\<open>frameHolder\<close>), and the Helm release feed
  (\<^verbatim>\<open>services/useHelmWatchList.ts applyHelmWatchEvent\<close>), whose rows also carry a revision.

  The query cache is a map from keys to rows, with the keys whose list was asked for again; the hooks
  themselves (effects, refs) are left to React.
\<close>

section \<open>Paths of a namespace-scoped grant\<close>

definition scopedPaths :: "string \<Rightarrow> string list option \<Rightarrow> string list" where
  "scopedPaths path scope =
     (case scope of
        None \<Rightarrow> [path]
      | Some nss \<Rightarrow>
          if nss = [] \<or> contains path ''/namespaces/'' then [path]
          else (case lastIndexOf path CHR ''/'' of
             None \<Rightarrow> [path]
           | Some i \<Rightarrow> if i = 0 then [path]
               else map (\<lambda>ns. take i path @ ''/namespaces/'' @ ns @ drop i path) nss))"

section \<open>One frame\<close>

datatype watch_message = Resync | Data watch_event | OtherFrame

record query_cache =
  rows :: "string \<Rightarrow> jval list option"
  invalidated :: "string list"

definition applyWatchMessage ::
    "(jval list option \<Rightarrow> watch_event \<Rightarrow> jval list) option \<Rightarrow> string \<Rightarrow> watch_message \<Rightarrow> query_cache \<Rightarrow> query_cache" where
  "applyWatchMessage applyEvent queryKey message c =
     (case message of
        Resync \<Rightarrow> c\<lparr>invalidated := invalidated c @ [queryKey]\<rparr>
      | OtherFrame \<Rightarrow> c
      | Data event \<Rightarrow>
          (case rows c queryKey of
             None \<Rightarrow> c
           | Some prev \<Rightarrow> c\<lparr>rows := (rows c)(queryKey \<mapsto>
               (case applyEvent of Some f \<Rightarrow> f | None \<Rightarrow> applyWatchEvent) (Some prev) event)\<rparr>))"

section \<open>Gathering frames\<close>

record 'm frame_holder =
  held :: "'m list"
  timer :: bool

definition holder_push :: "'m \<Rightarrow> 'm frame_holder \<Rightarrow> 'm frame_holder" where
  "holder_push m h = (let h = h\<lparr>held := held h @ [m]\<rparr> in if timer h then h else h\<lparr>timer := True\<rparr>)"

text \<open>The timer's callback: the frames it delivers, and the holder after it.\<close>

definition holder_fire :: "'m frame_holder \<Rightarrow> 'm list \<times> 'm frame_holder" where
  "holder_fire h = (held h, h\<lparr>timer := False, held := []\<rparr>)"

definition holder_stop :: "'m frame_holder \<Rightarrow> 'm frame_holder" where
  "holder_stop h = h\<lparr>timer := False, held := []\<rparr>"

datatype 'm holder_event = Push 'm | Fire

text \<open>A holder in use: pushes, and the timer when it runs; the frames delivered so far.\<close>

fun holder_run :: "'m holder_event list \<Rightarrow> 'm list \<times> 'm frame_holder \<Rightarrow> 'm list \<times> 'm frame_holder" where
  "holder_run [] s = s"
| "holder_run (Push m # es) (out, h) = holder_run es (out, holder_push m h)"
| "holder_run (Fire # es) (out, h) =
     (if timer h then (case holder_fire h of (ms, h') \<Rightarrow> holder_run es (out @ ms, h')) else holder_run es (out, h))"

fun pushed :: "'m holder_event list \<Rightarrow> 'm list" where
  "pushed [] = []"
| "pushed (Push m # es) = m # pushed es"
| "pushed (Fire # es) = pushed es"

lemma holder_run_inv:
  "timer h \<longleftrightarrow> held h \<noteq> [] \<Longrightarrow> holder_run es (out, h) = (out', h') \<Longrightarrow>
     out' @ held h' = out @ held h @ pushed es \<and> (timer h' \<longleftrightarrow> held h' \<noteq> [])"
proof (induction es arbitrary: out h)
  case (Cons e es)
  show ?case
  proof (cases e)
    case (Push m)
    with Cons.IH [of "holder_push m h" out] Cons.prems show ?thesis
      by (auto simp: holder_push_def Let_def split: if_splits)
  next
    case Fire
    with Cons.IH [of h out] Cons.IH [of "h\<lparr>timer := False, held := []\<rparr>" "out @ held h"] Cons.prems show ?thesis
      by (auto simp: holder_fire_def split: if_splits)
  qed
qed simp

section \<open>Helm releases\<close>

record helm_release =
  hr_name :: string
  hr_namespace :: string
  revision :: int
  hr_status :: string
  chart :: string
  chartVersion :: string
  appVersion :: string
  updated :: string

datatype helm_event_type = ADDED | MODIFIED | DELETED

definition releaseKey :: "helm_release \<Rightarrow> string" where
  "releaseKey rel = hr_namespace rel @ ''/'' @ hr_name rel"

text \<open>\<^verbatim>\<open>event.object\<close> is \<open>None\<close> when the frame has none.\<close>

definition applyHelmWatchEvent ::
    "helm_release list option \<Rightarrow> helm_event_type \<times> helm_release option \<Rightarrow> helm_release list" where
  "applyHelmWatchEvent prev event =
     (let items = prev_items prev in
      case event of
        (_, None) \<Rightarrow> items
      | (type, Some obj) \<Rightarrow>
          if hr_name obj = [] \<or> hr_namespace obj = [] then items
          else
            (let idx = findIndex (\<lambda>item. releaseKey item = releaseKey obj) items in
             if type = DELETED then
               (case idx of Some i \<Rightarrow> if revision obj \<ge> revision (items ! i) then splice1 i items else items
                | None \<Rightarrow> items)
             else
               (case idx of Some i \<Rightarrow> if revision (items ! i) > revision obj then items else items[i := obj]
                | None \<Rightarrow> items @ [obj])))"

text \<open>The same on the map from release keys to the revision on screen.\<close>

definition helm_spec :: "(string \<Rightarrow> helm_release option) \<Rightarrow> helm_event_type \<times> helm_release option \<Rightarrow> string \<Rightarrow> helm_release option" where
  "helm_spec m event = (case event of
      (_, None) \<Rightarrow> m
    | (type, Some obj) \<Rightarrow>
        if hr_name obj = [] \<or> hr_namespace obj = [] then m
        else (case m (releaseKey obj) of
           None \<Rightarrow> if type = DELETED then m else m(releaseKey obj \<mapsto> obj)
         | Some old \<Rightarrow> if revision obj < revision old then m
             else if type = DELETED then m(releaseKey obj := None) else m(releaseKey obj \<mapsto> obj)))"

lemma helm_as_place:
  assumes "hr_name obj \<noteq> []" "hr_namespace obj \<noteq> []"
  shows "applyHelmWatchEvent (Some xs) (type, Some obj) =
    (case findIndex (\<lambda>x. releaseKey x = releaseKey obj) xs of
       Some i \<Rightarrow> if revision obj < revision (xs ! i) then xs
                 else place_row (\<lambda>x. releaseKey x = releaseKey obj) (type = DELETED) obj xs
     | None \<Rightarrow> place_row (\<lambda>x. releaseKey x = releaseKey obj) (type = DELETED) obj xs)"
  using assms by (auto simp: applyHelmWatchEvent_def Let_def place_row_def split: option.split)

lemma helm_found:
  assumes "findIndex (\<lambda>x. releaseKey x = releaseKey obj) xs = Some i" "distinct (map releaseKey xs)"
  shows "rows_of releaseKey xs (releaseKey obj) = Some (xs ! i)"
  using findIndex_SomeD [OF assms(1)] rows_of_mem [OF assms(2), of "xs ! i"] by simp

lemma helm_step:
  assumes "distinct (map releaseKey xs)"
  shows "distinct (map releaseKey (applyHelmWatchEvent (Some xs) ev)) \<and>
    rows_of releaseKey (applyHelmWatchEvent (Some xs) ev) = helm_spec (rows_of releaseKey xs) ev"
proof (cases "\<exists>type obj. ev = (type, Some obj) \<and> hr_name obj \<noteq> [] \<and> hr_namespace obj \<noteq> []")
  case False
  then show ?thesis
    using assms by (cases ev; cases "snd ev") (auto simp: applyHelmWatchEvent_def helm_spec_def)
next
  case True
  then obtain type obj where ev: "ev = (type, Some obj)" "hr_name obj \<noteq> []" "hr_namespace obj \<noteq> []" by blast
  let ?same = "\<lambda>x. releaseKey x = releaseKey obj"
  note place = place_row_distinct [of xs ?same releaseKey obj "type = DELETED"]
    rows_of_place_row [of xs ?same releaseKey obj "type = DELETED"]
  show ?thesis
  proof (cases "findIndex ?same xs")
    case None
    then have "rows_of releaseKey xs (releaseKey obj) = None"
      by (intro rows_of_notin) (auto simp: findIndex_None_iff)
    with None place assms ev show ?thesis by (auto simp: helm_as_place helm_spec_def)
  next
    case (Some i)
    with place assms ev helm_found [OF Some assms] show ?thesis by (simp add: helm_as_place helm_spec_def)
  qed
qed

lemma helm_run:
  "distinct (map releaseKey xs) \<Longrightarrow>
     distinct (map releaseKey (foldl (\<lambda>ys ev. applyHelmWatchEvent (Some ys) ev) xs evs)) \<and>
     rows_of releaseKey (foldl (\<lambda>ys ev. applyHelmWatchEvent (Some ys) ev) xs evs) =
     foldl helm_spec (rows_of releaseKey xs) evs"
  by (induction evs arbitrary: xs) (simp_all add: helm_step)

text \<open>The revisions an event stream names for a release.\<close>

definition revisions_of :: "string \<Rightarrow> (helm_event_type \<times> helm_release option) list \<Rightarrow> int list" where
  "revisions_of k evs = concat (map (\<lambda>(t, o'). case o' of
      Some r \<Rightarrow> if hr_name r \<noteq> [] \<and> hr_namespace r \<noteq> [] \<and> releaseKey r = k then [revision r] else [] | None \<Rightarrow> []) evs)"

lemma helm_spec_max:
  assumes "\<forall>(t, o')\<in>set evs. t \<noteq> DELETED"
  shows "map_option revision (foldl helm_spec m evs k) =
    (let rs = revisions_of k evs in
     case m k of None \<Rightarrow> if rs = [] then None else Some (fold max (tl rs) (hd rs))
     | Some r \<Rightarrow> Some (fold max rs (revision r)))"
  using assms
proof (induction evs arbitrary: m)
  case (Cons ev evs)
  obtain t o' where ev: "ev = (t, o')" by force
  have IH: "map_option revision (foldl helm_spec (helm_spec m ev) evs k) =
    (let rs = revisions_of k evs in
     case helm_spec m ev k of None \<Rightarrow> if rs = [] then None else Some (fold max (tl rs) (hd rs))
     | Some r \<Rightarrow> Some (fold max rs (revision r)))" using Cons by simp
  show ?case
  proof (cases "\<exists>r. o' = Some r \<and> hr_name r \<noteq> [] \<and> hr_namespace r \<noteq> [] \<and> releaseKey r = k")
    case True
    then obtain r where r: "o' = Some r" "hr_name r \<noteq> []" "hr_namespace r \<noteq> []" "releaseKey r = k" by blast
    have rs: "revisions_of k (ev # evs) = revision r # revisions_of k evs"
      using r ev by (simp add: revisions_of_def)
    have "helm_spec m ev k = Some (case m k of None \<Rightarrow> r | Some old \<Rightarrow> if revision r < revision old then old else r)"
      using r ev Cons.prems by (auto simp: helm_spec_def split: option.split)
    with IH rs show ?thesis by (auto simp: Let_def max_def split: option.split)
  next
    case False
    then have "helm_spec m ev k = m k" "revisions_of k (ev # evs) = revisions_of k evs"
      using ev by (auto simp: helm_spec_def revisions_of_def split: option.splits)
    with IH show ?thesis by simp
  qed
qed (simp add: revisions_of_def split: option.split)

section \<open>Properties\<close>

lemma lastIndexOf_split: "lastIndexOf s c = Some i \<Longrightarrow> i < length s \<and> s ! i = c"
  by (induction s arbitrary: i) (auto split: option.splits if_splits)

text \<open>
  the watch paths of a grant on some namespaces. The cluster-wide path becomes one path per granted
  namespace, in order, each the old path with that namespace before its last segment; a caller without a scope, and a
  path that already names a namespace, keep the path. There is always at least one path.
\<close>

theorem scopedPaths_cases:
  "scopedPaths path scope \<noteq> [] \<and>
   (scopedPaths path scope = [path] \<or>
    (\<exists>nss prefix kind. scope = Some nss \<and> nss \<noteq> [] \<and> \<not> contains path ''/namespaces/'' \<and>
       path = prefix @ kind \<and> prefix \<noteq> [] \<and> startsWith kind ''/'' \<and>
       scopedPaths path scope = map (\<lambda>ns. prefix @ ''/namespaces/'' @ ns @ kind) nss)) \<and>
   (scope = None \<longrightarrow> scopedPaths path scope = [path])"
proof (cases scope)
  case None
  then show ?thesis by (simp add: scopedPaths_def)
next
  case (Some nss)
  show ?thesis
  proof (cases "nss = [] \<or> contains path ''/namespaces/''")
    case True
    with Some show ?thesis by (auto simp: scopedPaths_def)
  next
    case False
    show ?thesis
    proof (cases "lastIndexOf path CHR ''/''")
      case None
      with Some False show ?thesis by (simp add: scopedPaths_def)
    next
      case (Some i)
      show ?thesis
      proof (cases "i = 0")
        case True
        with Some \<open>scope = Some nss\<close> False show ?thesis by (simp add: scopedPaths_def)
      next
        case i: False
        have p: "scopedPaths path scope = map (\<lambda>ns. take i path @ ''/namespaces/'' @ ns @ drop i path) nss"
          using Some \<open>scope = Some nss\<close> False i by (simp add: scopedPaths_def)
        have "take i path \<noteq> []" "startsWith (drop i path) ''/''"
          using lastIndexOf_split [OF Some] i by (auto simp: startsWith_def simp flip: Cons_nth_drop_Suc)
        with p False \<open>scope = Some nss\<close> have "\<exists>nss prefix kind. scope = Some nss \<and> nss \<noteq> [] \<and> \<not> contains path ''/namespaces/'' \<and>
            path = prefix @ kind \<and> prefix \<noteq> [] \<and> startsWith kind ''/'' \<and>
            scopedPaths path scope = map (\<lambda>ns. prefix @ ''/namespaces/'' @ ns @ kind) nss"
          by (intro exI [of _ nss] exI [of _ "take i path"] exI [of _ "drop i path"]) simp
        with p False \<open>scope = Some nss\<close> show ?thesis by simp
      qed
    qed
  qed
qed

theorem scopedPaths_cases_witness:
  "(None :: string list option) = None \<and> scopedPaths ''/api/v1/pods'' None = [''/api/v1/pods'']"
  using scopedPaths_cases [of "''/api/v1/pods''" None] by blast

text \<open>
  a frame touches only its own list, and never makes one: a list that has not answered yet stays
  unanswered, so a frame that comes before it cannot pass for the list; a RESYNC keeps the rows and asks for the list
  again; frames of other types change nothing.
\<close>

theorem applyWatchMessage_frame:
  "let c' = applyWatchMessage f k msg c in
     (\<forall>k'. k' \<noteq> k \<longrightarrow> rows c' k' = rows c k') \<and> (rows c' k = None \<longleftrightarrow> rows c k = None) \<and>
     (msg = Resync \<longrightarrow> rows c' = rows c \<and> invalidated c' = invalidated c @ [k]) \<and>
     (msg \<noteq> Resync \<longrightarrow> invalidated c' = invalidated c) \<and> (msg = OtherFrame \<longrightarrow> c' = c)"
  by (auto simp: applyWatchMessage_def Let_def split: watch_message.split option.split)

theorem applyWatchMessage_frame_witness:
  "''b'' \<noteq> ''a'' \<and> rows (applyWatchMessage None ''a'' Resync \<lparr>rows = [''b'' \<mapsto> []], invalidated = []\<rparr>) ''b'' = Some []"
  using applyWatchMessage_frame [of None "''a''" Resync "\<lparr>rows = [''b'' \<mapsto> []], invalidated = []\<rparr>"] by (simp add: Let_def)

text \<open>
  C25: gathered frames are delivered once each, in order. At any moment what was delivered and what is held
  are the frames pushed, in order, and the timer runs exactly when something is held, so nothing held is forgotten.
\<close>

theorem frameHolder_delivers:
  assumes "holder_run es ([], \<lparr>held = [], timer = False\<rparr>) = (out, h)"
  shows "out @ held h = pushed es \<and> (timer h \<longleftrightarrow> held h \<noteq> [])"
  using holder_run_inv [OF _ assms] by simp

theorem frameHolder_delivers_witness:
  "holder_run [Push 1, Push 2, Fire, Push (3 :: int)] ([], \<lparr>held = [], timer = False\<rparr>) = ([1, 2], \<lparr>held = [3], timer = True\<rparr>) \<and>
   [1, 2] @ [3] = pushed [Push 1, Push 2, Fire, Push (3 :: int)]"
proof -
  have "holder_run [Push 1, Push 2, Fire, Push (3 :: int)] ([], \<lparr>held = [], timer = False\<rparr>) = ([1, 2], \<lparr>held = [3], timer = True\<rparr>)"
    by (simp add: holder_push_def holder_fire_def Let_def)
  with frameHolder_delivers [OF this] show ?thesis by simp
qed

text \<open>
  the Helm feed. The list keeps one row per release and implements the map of releases: a deleted
  revision below the one on screen keeps the release, an older revision never replaces a newer one.
\<close>

theorem helm_feed_refines:
  assumes "distinct (map releaseKey xs)"
  shows "distinct (map releaseKey (foldl (\<lambda>ys ev. applyHelmWatchEvent (Some ys) ev) xs evs)) \<and>
    rows_of releaseKey (foldl (\<lambda>ys ev. applyHelmWatchEvent (Some ys) ev) xs evs) =
    foldl helm_spec (rows_of releaseKey xs) evs"
  using helm_run [OF assms] .

theorem helm_feed_refines_witness:
  "distinct (map releaseKey []) \<and>
   rows_of releaseKey (foldl (\<lambda>ys ev. applyHelmWatchEvent (Some ys) ev) [] [(ADDED, None)]) =
   foldl helm_spec (rows_of releaseKey []) [(ADDED, None)]"
  using helm_feed_refines [of "[]" "[(ADDED, None)]"] by simp



end
