(* ===== verification/Watch_Stores.thy ===== *)
theory Watch_Stores
  imports Prelude
begin

text \<open>
  What the page remembers of its lists and live updates, each a small store over module variables:
  the watch problems (\<^verbatim>\<open>frontend/src/services/watchProblemStore.ts\<close>), the outcome of the list requests
  (\<^verbatim>\<open>listStatusStore.ts\<close>) and the refused lists (\<^verbatim>\<open>forbiddenStore.ts\<close>), with the names they key on
  (\<^verbatim>\<open>utils/forbiddenResource.ts\<close>).

  A store is a record of its variables; \<^verbatim>\<open>notify\<close> is its \<^verbatim>\<open>version\<close>, which the screen reads to know
  that it must draw again (the listeners only draw).
\<close>

section \<open>Resource names\<close>

definition KIND_LABELS :: "(string \<times> string) list" where
  "KIND_LABELS =
    [(''pods'', ''Pod''),
     (''deployments'', ''Deployment''),
     (''statefulsets'', ''StatefulSet''),
     (''daemonsets'', ''DaemonSet''),
     (''replicasets'', ''ReplicaSet''),
     (''jobs'', ''Job''),
     (''cronjobs'', ''CronJob''),
     (''services'', ''Service''),
     (''endpoints'', ''Endpoints''),
     (''endpointslices'', ''EndpointSlice''),
     (''ingresses'', ''Ingress''),
     (''ingressclasses'', ''IngressClass''),
     (''policyreports'', ''PolicyReport''),
     (''networkpolicies'', ''NetworkPolicy''),
     (''configmaps'', ''ConfigMap''),
     (''secrets'', ''Secret''),
     (''hpas'', ''HorizontalPodAutoscaler''),
     (''vpas'', ''VerticalPodAutoscaler''),
     (''pdbs'', ''PodDisruptionBudget''),
     (''priorityclasses'', ''PriorityClass''),
     (''runtimeclasses'', ''RuntimeClass''),
     (''leases'', ''Lease''),
     (''resourcequotas'', ''ResourceQuota''),
     (''limitranges'', ''LimitRange''),
     (''mutatingwebhookconfigurations'', ''MutatingWebhookConfiguration''),
     (''validatingwebhookconfigurations'', ''ValidatingWebhookConfiguration''),
     (''validatingadmissionpolicies'', ''ValidatingAdmissionPolicy''),
     (''mutatingadmissionpolicies'', ''MutatingAdmissionPolicy''),
     (''pvcs'', ''PersistentVolumeClaim''),
     (''pvs'', ''PersistentVolume''),
     (''storageclasses'', ''StorageClass''),
     (''volumeattachments'', ''VolumeAttachment''),
     (''serviceaccounts'', ''ServiceAccount''),
     (''roles'', ''Role''),
     (''rolebindings'', ''RoleBinding''),
     (''clusterroles'', ''ClusterRole''),
     (''clusterrolebindings'', ''ClusterRoleBinding''),
     (''nodes'', ''Node''),
     (''namespaces'', ''Namespace''),
     (''events'', ''Event''),
     (''crds'', ''CustomResourceDefinition''),
     (''gateways'', ''Gateway''),
     (''gatewayclasses'', ''GatewayClass''),
     (''httproutes'', ''HTTPRoute''),
     (''grpcroutes'', ''GRPCRoute''),
     (''referencegrants'', ''ReferenceGrant''),
     (''backendtlspolicies'', ''BackendTLSPolicy''),
     (''deviceclasses'', ''DeviceClass''),
     (''resourceclaims'', ''ResourceClaim''),
     (''resourceclaimtemplates'', ''ResourceClaimTemplate''),
     (''resourceslices'', ''ResourceSlice'')]"

definition label :: "string \<Rightarrow> string" where
  "label segment = (case map_of KIND_LABELS segment of Some l \<Rightarrow> if l = [] then segment else l | None \<Rightarrow> segment)"

text \<open>\<^verbatim>\<open>url.replace(/^https?:\/\/[^/]+/, '')\<close>: an origin needs at least one letter.\<close>

definition strip_scheme :: "string \<Rightarrow> string \<Rightarrow> string option" where
  "strip_scheme scheme url = (if startsWith url scheme \<and> takeWhile (\<lambda>c. c \<noteq> CHR ''/'') (drop (length scheme) url) \<noteq> []
     then Some (dropWhile (\<lambda>c. c \<noteq> CHR ''/'') (drop (length scheme) url)) else None)"

definition strip_origin :: "string \<Rightarrow> string" where
  "strip_origin url = (case strip_scheme ''http://'' url of Some r \<Rightarrow> r
     | None \<Rightarrow> (case strip_scheme ''https://'' url of Some r \<Rightarrow> r | None \<Rightarrow> url))"

definition strip_prefix :: "string \<Rightarrow> string \<Rightarrow> string" where
  "strip_prefix p s = (if startsWith s p then drop (length p) s else s)"

definition url_parts :: "string \<Rightarrow> string list" where
  "url_parts url = (let path = hd (split CHR ''?'' (strip_origin url)) in
     filter (\<lambda>w. w \<noteq> []) (split CHR ''/'' (strip_prefix ''/cluster/'' (strip_prefix ''/api/v1'' path))))"

definition forbiddenResourceFromUrl :: "string \<Rightarrow> string" where
  "forbiddenResourceFromUrl url =
     (let parts = url_parts url in
      case parts of
        [] \<Rightarrow> ''cluster resources''
      | p # _ \<Rightarrow>
          if p = ''namespaces'' then (if length parts \<ge> 3 then label (parts ! 2) else ''Namespace'')
          else if p = ''helm'' then ''Helm release''
          else if p = ''custom-resources'' then ''custom resources''
          else if p = ''gateway-policies'' then ''gateway policies''
          else label p)"

definition BUILTIN_SEGMENTS :: "string list" where
  "BUILTIN_SEGMENTS = [''deviceclasses'', ''resourceclaims'', ''resourceclaimtemplates'', ''resourceslices'',
     ''validatingadmissionpolicies'', ''mutatingadmissionpolicies'']"

definition isBuiltinApi :: "string \<Rightarrow> bool" where
  "isBuiltinApi segment \<longleftrightarrow> segment \<in> set BUILTIN_SEGMENTS"

definition listSegmentFromUrl :: "string \<Rightarrow> string" where
  "listSegmentFromUrl url =
     (let parts = url_parts url in
      case parts of
        [] \<Rightarrow> []
      | p # _ \<Rightarrow> if p = ''namespaces'' then (if length parts \<ge> 3 then parts ! 2 else ''namespaces'') else p)"

definition joinResources :: "string list \<Rightarrow> string" where
  "joinResources names = join '', '' (sort (uniq names))"

section \<open>Watch problems\<close>

datatype watch_problem = Forbidden | Limit | Unreachable | FailedWatch | Scope

definition SERIOUS_FIRST :: "watch_problem list" where
  "SERIOUS_FIRST = [Forbidden, Limit, Unreachable, FailedWatch, Scope]"

definition SILENT :: "string list" where
  "SILENT = [''not_served'', ''unsupported'']"

text \<open>The problem a reason names (\<^verbatim>\<open>SERIOUS_FIRST.includes(reason) ? reason : 'failed'\<close>).\<close>

definition problem_of :: "string \<Rightarrow> watch_problem" where
  "problem_of reason = (if reason = ''forbidden'' then Forbidden else if reason = ''limit'' then Limit
     else if reason = ''unreachable'' then Unreachable else if reason = ''scope'' then Scope else FailedWatch)"

definition LIST_OF_KIND :: "(string \<times> string) list" where
  "LIST_OF_KIND = [(''customresourcedefinitions'', ''crds''), (''persistentvolumes'', ''pvs''),
     (''persistentvolumeclaims'', ''pvcs''), (''horizontalpodautoscalers'', ''hpas''),
     (''verticalpodautoscalers'', ''vpas''), (''poddisruptionbudgets'', ''pdbs'')]"

definition listOfWatch :: "string \<Rightarrow> string" where
  "listOfWatch key =
     (let from = (case indexOf key [CHR 0x0A] of Some i \<Rightarrow> i + 1 | None \<Rightarrow> 0);
          path = hd (split CHR ''?'' (drop from key));
          kind = (case lastIndexOf path CHR ''/'' of Some i \<Rightarrow> drop (i + 1) path | None \<Rightarrow> path) in
      case map_of LIST_OF_KIND kind of Some l \<Rightarrow> l | None \<Rightarrow> kind)"

record problem_store =
  problems :: "(string \<times> watch_problem) list"
  p_version :: nat

text \<open>A frame of a watch: \<open>None\<close> when its type is not ERROR, the reason otherwise (empty when it has none).\<close>

type_synonym frame_error = "string option"

definition set_problem :: "string \<Rightarrow> watch_problem \<Rightarrow> problem_store \<Rightarrow> problem_store" where
  "set_problem key p s = (if map_of (problems s) key = Some p then s
     else s\<lparr>problems := AList.update key p (problems s), p_version := p_version s + 1\<rparr>)"

definition clearWatchProblem :: "string \<Rightarrow> problem_store \<Rightarrow> problem_store" where
  "clearWatchProblem key s = (if map_of (problems s) key \<noteq> None
     then s\<lparr>problems := AList.delete key (problems s), p_version := p_version s + 1\<rparr> else s)"

definition resetWatchProblems :: "problem_store \<Rightarrow> problem_store" where
  "resetWatchProblems s = (if problems s = [] then s else s\<lparr>problems := [], p_version := p_version s + 1\<rparr>)"

definition recordWatchFrame :: "string \<Rightarrow> frame_error \<Rightarrow> problem_store \<Rightarrow> problem_store" where
  "recordWatchFrame key frame s = (case frame of
      None \<Rightarrow> clearWatchProblem key s
    | Some reason \<Rightarrow> if reason \<in> set SILENT then s else set_problem key (problem_of reason) s)"

definition getWatchProblem :: "string list option \<Rightarrow> problem_store \<Rightarrow> watch_problem option" where
  "getWatchProblem refusedLists s =
     (let present = map snd (filter (\<lambda>(key, p). case refusedLists of None \<Rightarrow> True | Some ls \<Rightarrow> listOfWatch key \<notin> set ls) (problems s)) in
      List.find (\<lambda>p. p \<in> set present) SERIOUS_FIRST)"

section \<open>List outcomes\<close>

datatype list_status = NotInstalled | ListError "int option"

datatype list_state = StateOk | StateNotInstalled | StateError "int option"

record list_store =
  statuses :: "(string \<times> list_status) list"
  answered :: "string list"
  l_version :: nat

definition recordListStatus :: "string \<Rightarrow> list_state \<Rightarrow> list_store \<Rightarrow> list_store" where
  "recordListStatus url st s =
     (let seg = listSegmentFromUrl url in
      if seg = [] then s
      else
        let first = (seg \<notin> set (answered s));
            prev = map_of (statuses s) seg;
            s' = s\<lparr>answered := set_add seg (answered s)\<rparr>;
            notify = (\<lambda>x. x\<lparr>l_version := l_version x + 1\<rparr>) in
        case st of
          StateOk \<Rightarrow>
            if prev \<noteq> None then notify (s'\<lparr>statuses := AList.delete seg (statuses s')\<rparr>)
            else if \<not> first then s' else notify s'
        | StateNotInstalled \<Rightarrow>
            if prev = Some NotInstalled \<and> \<not> first then s'
            else notify (s'\<lparr>statuses := AList.update seg NotInstalled (statuses s')\<rparr>)
        | StateError code \<Rightarrow>
            if prev = Some (ListError code) \<and> \<not> first then s'
            else notify (s'\<lparr>statuses := AList.update seg (ListError code) (statuses s')\<rparr>))"

definition recordListForbidden :: "string \<Rightarrow> list_store \<Rightarrow> list_store" where
  "recordListForbidden url s =
     (let seg = listSegmentFromUrl url in
      if seg \<noteq> [] \<and> seg \<notin> set (answered s)
      then s\<lparr>answered := set_add seg (answered s), l_version := l_version s + 1\<rparr> else s)"

definition resetListStatus :: "list_store \<Rightarrow> list_store" where
  "resetListStatus s = (if statuses s = [] \<and> answered s = [] then s
     else s\<lparr>statuses := [], answered := [], l_version := l_version s + 1\<rparr>)"

definition getListStatus :: "string \<Rightarrow> list_store \<Rightarrow> list_status option" where
  "getListStatus segment s = map_of (statuses s) segment"

definition isKindServed :: "string \<Rightarrow> list_store \<Rightarrow> bool" where
  "isKindServed segment s \<longleftrightarrow> segment \<in> set (answered s) \<and> map_of (statuses s) segment \<noteq> Some NotInstalled"

section \<open>Refused lists\<close>

record forbidden_store =
  segments :: "string list"
  labels :: "string list"
  f_version :: nat

definition recordForbidden :: "string \<Rightarrow> forbidden_store \<Rightarrow> forbidden_store" where
  "recordForbidden url s =
     (let seg = listSegmentFromUrl url; lab = forbiddenResourceFromUrl url in
      if seg \<noteq> [] \<and> seg \<in> set (segments s) \<and> lab \<in> set (labels s) then s
      else s\<lparr>segments := (if seg \<noteq> [] then set_add seg (segments s) else segments s),
             labels := set_add lab (labels s), f_version := f_version s + 1\<rparr>)"

definition resetForbidden :: "forbidden_store \<Rightarrow> forbidden_store" where
  "resetForbidden s = (if segments s = [] \<and> labels s = [] then s
     else s\<lparr>segments := [], labels := [], f_version := f_version s + 1\<rparr>)"

definition forbiddenLabels :: "forbidden_store \<Rightarrow> string list" where
  "forbiddenLabels s = sort (labels s)"

section \<open>Properties\<close>

lemma find_SERIOUS:
  "List.find P SERIOUS_FIRST = Some p \<Longrightarrow> P p"
  "List.find P SERIOUS_FIRST = None \<longleftrightarrow> (\<forall>p. \<not> P p)"
proof -
  have all: "p \<in> set SERIOUS_FIRST" for p by (cases p) (simp_all add: SERIOUS_FIRST_def)
  show "List.find P SERIOUS_FIRST = Some p \<Longrightarrow> P p" by (auto simp: find_Some_iff)
  show "List.find P SERIOUS_FIRST = None \<longleftrightarrow> (\<forall>p. \<not> P p)" using all by (auto simp: find_None_iff)
qed

text \<open>
  the problem a watch has after its frames is that of the last frame that says something: a frame
  that is not an error clears it, an error of a silent reason leaves it, any other error sets the problem it names
  ("failed" for a reason the page does not know). The other watches keep theirs, and the screen is told exactly when
  something changed.
\<close>

theorem recordWatchFrame_effect:
  "map_of (problems (recordWatchFrame key frame s)) =
     (case frame of
        None \<Rightarrow> (map_of (problems s))(key := None)
      | Some reason \<Rightarrow> if reason \<in> {''not_served'', ''unsupported''} then map_of (problems s)
                       else (map_of (problems s))(key \<mapsto> problem_of reason)) \<and>
   (p_version (recordWatchFrame key frame s) \<noteq> p_version s \<longleftrightarrow>
      map_of (problems (recordWatchFrame key frame s)) \<noteq> map_of (problems s))"
proof (cases frame)
  case None
  then show ?thesis
    by (auto simp: recordWatchFrame_def clearWatchProblem_def delete_conv' fun_upd_idem_iff)
next
  case (Some reason)
  then show ?thesis
    by (auto simp: recordWatchFrame_def SILENT_def set_problem_def update_conv' fun_upd_idem_iff)
qed

text \<open>
  the page shows the most serious problem of the lists it was not refused, and none exactly when
  no such list has one.
\<close>

theorem getWatchProblem_most_serious:
  "(getWatchProblem refused s = None \<longleftrightarrow>
      (\<forall>(key, p)\<in>set (problems s). refused \<noteq> None \<and> listOfWatch key \<in> set (the refused))) \<and>
   (\<forall>p. getWatchProblem refused s = Some p \<longrightarrow>
      (\<exists>key. (key, p) \<in> set (problems s) \<and> (refused = None \<or> listOfWatch key \<notin> set (the refused))) \<and>
      (\<forall>(key, q)\<in>set (problems s). refused = None \<or> listOfWatch key \<notin> set (the refused) \<longrightarrow>
         (\<exists>i j. i \<le> j \<and> j < 5 \<and> SERIOUS_FIRST ! i = p \<and> SERIOUS_FIRST ! j = q)))"
proof -
  define present where "present = map snd (filter (\<lambda>(key, p). case refused of None \<Rightarrow> True | Some ls \<Rightarrow> listOfWatch key \<notin> set ls) (problems s))"
  have g: "getWatchProblem refused s = List.find (\<lambda>p. p \<in> set present) SERIOUS_FIRST"
    by (simp add: getWatchProblem_def present_def)
  have pres: "p \<in> set present \<longleftrightarrow> (\<exists>key. (key, p) \<in> set (problems s) \<and> (refused = None \<or> listOfWatch key \<notin> set (the refused)))" for p
    by (auto simp: present_def image_iff split: option.splits; force)
  have order: "\<exists>i j. i \<le> j \<and> j < 5 \<and> SERIOUS_FIRST ! i = p \<and> SERIOUS_FIRST ! j = q"
    if "getWatchProblem refused s = Some p" "q \<in> set present" for p q
  proof -
    have len: "length SERIOUS_FIRST = 5" by (simp add: SERIOUS_FIRST_def)
    have "q \<in> set SERIOUS_FIRST" by (cases q) (simp_all add: SERIOUS_FIRST_def)
    then obtain j where j: "j < 5" "SERIOUS_FIRST ! j = q" using len by (metis in_set_conv_nth)
    from that(1) obtain i where i: "SERIOUS_FIRST ! i = p" "\<forall>k<i. SERIOUS_FIRST ! k \<notin> set present"
      by (auto simp: g find_Some_iff)
    with j that(2) have "i \<le> j" by (metis leI)
    with i j show ?thesis by blast
  qed
  show ?thesis
  proof (intro conjI allI impI)
    show "getWatchProblem refused s = None \<longleftrightarrow> (\<forall>(key, p)\<in>set (problems s). refused \<noteq> None \<and> listOfWatch key \<in> set (the refused))"
      unfolding g find_SERIOUS(2) pres by (cases refused) auto
    fix p assume p: "getWatchProblem refused s = Some p"
    then have "p \<in> set present" using find_SERIOUS(1) g by metis
    then show "\<exists>key. (key, p) \<in> set (problems s) \<and> (refused = None \<or> listOfWatch key \<notin> set (the refused))"
      by (simp add: pres)
    show "\<forall>(key, q)\<in>set (problems s). refused = None \<or> listOfWatch key \<notin> set (the refused) \<longrightarrow>
        (\<exists>i j. i \<le> j \<and> j < 5 \<and> SERIOUS_FIRST ! i = p \<and> SERIOUS_FIRST ! j = q)"
      using order [OF p] pres by blast
  qed
qed

theorem getWatchProblem_most_serious_witness:
  "getWatchProblem (Some [''pods'']) \<lparr>problems = [(''c'' @ [CHR 0x0A] @ ''/api/v1/pods?watch=1'', Forbidden),
     (''c'' @ [CHR 0x0A] @ ''/api/v1/nodes?watch=1'', Limit)], p_version = 0\<rparr> = Some Limit \<and>
   (\<exists>i j. i \<le> j \<and> j < 5 \<and> SERIOUS_FIRST ! i = Limit \<and> SERIOUS_FIRST ! j = Limit)"
proof -
  let ?s = "\<lparr>problems = [(''c'' @ [CHR 0x0A] @ ''/api/v1/pods?watch=1'', Forbidden),
     (''c'' @ [CHR 0x0A] @ ''/api/v1/nodes?watch=1'', Limit)], p_version = 0\<rparr>"
  have "getWatchProblem (Some [''pods'']) ?s = Some Limit"
    by (simp add: getWatchProblem_def listOfWatch_def LIST_OF_KIND_def SERIOUS_FIRST_def startsWith_def)
  then show ?thesis using getWatchProblem_most_serious [of "Some [''pods'']" ?s]
    by (auto simp: listOfWatch_def LIST_OF_KIND_def startsWith_def)
qed

text \<open>
  the create button of a CRD-backed page. After any answer of its list, the kind is served exactly
  when that answer is not "not installed"; an answer of another list changes nothing about it; before the first
  answer, and again after a reset, it is not served.
\<close>

theorem isKindServed_after:
  "(listSegmentFromUrl url \<noteq> [] \<longrightarrow>
      isKindServed (listSegmentFromUrl url) (recordListStatus url st s) = (st \<noteq> StateNotInstalled)) \<and>
   (seg \<noteq> listSegmentFromUrl url \<longrightarrow> isKindServed seg (recordListStatus url st s) = isKindServed seg s) \<and>
   (isKindServed seg s \<longrightarrow> seg \<in> set (answered s)) \<and> \<not> isKindServed seg (resetListStatus s)"
  by (auto simp: isKindServed_def recordListStatus_def resetListStatus_def Let_def update_conv' delete_conv' split: list_state.split)

theorem isKindServed_after_witness:
  "listSegmentFromUrl ''/api/v1/cluster/vpas/all'' = ''vpas'' \<and>
   \<not> isKindServed ''vpas'' (recordListStatus ''/api/v1/cluster/vpas/all'' StateNotInstalled \<lparr>statuses = [], answered = [], l_version = 0\<rparr>)"
proof -
  have "listSegmentFromUrl ''/api/v1/cluster/vpas/all'' = ''vpas''"
    by (simp add: listSegmentFromUrl_def url_parts_def strip_origin_def strip_scheme_def strip_prefix_def startsWith_def)
  then show ?thesis
    using isKindServed_after [of "''/api/v1/cluster/vpas/all''" StateNotInstalled] by fastforce
qed

end
