(* ===== verification/Watch_Multiplexer.thy ===== *)
theory Watch_Multiplexer
  imports Watch_Stores
begin

text \<open>
  The watch multiplexer (\<^verbatim>\<open>frontend/src/services/watchMultiplexer.ts\<close>, class \<^verbatim>\<open>WebSocketMultiplexer\<close>):
  one WebSocket that carries every watch of the page.

  \<^item> \<open>mux\<close> is the class's fields. \<^verbatim>\<open>connecting\<close> is not null exactly while the socket is connecting, so
    the socket's state stands for it. A listener is a number.
  \<^item> \<open>asked\<close> is what the server was asked for on the current socket: the keys of the REQUEST frames
    sent and not followed by a CLOSE. \<open>delivered\<close> are the listener calls.
  \<^item> \<open>subscribe\<close> goes on after \<^verbatim>\<open>await this.connect()\<close>: the rest of each call waits in \<open>pending\<close>. A
    call made on an open socket goes on in a microtask, so before the next socket event or timer.
  \<^item> A socket goes from open to closed in one step; a server that answers the session check is an event.
\<close>

section \<open>State\<close>

record client_message =
  clusterId :: string
  path :: string
  query :: string

record server_message =
  sm_clusterId :: string
  sm_path :: string
  sm_query :: string
  sm_error :: frame_error
  sm_data :: jval

datatype ready_state = CONNECTING | OPEN

record pending_subscribe =
  p_msg :: client_message
  p_listener :: nat
  wasOpenBefore :: bool
  wasNewSubscription :: bool

record mux =
  socket :: "ready_state option"
  listeners :: "(string \<times> nat list) list"
  subscriptions :: "(string \<times> client_message) list"
  reconnectTimer :: "nat option"
  reconnectAttempts :: nat
  retrying :: bool
  sessionCheck :: bool
  sessionOver :: bool
  problem_state :: problem_store
  pending :: "pending_subscribe list"
  asked :: "string list"
  delivered :: "(nat \<times> server_message) list"

definition makeKey :: "string \<Rightarrow> string \<Rightarrow> string \<Rightarrow> string" where
  "makeKey cid p q = cid @ [CHR 0x0A] @ p @ ''?'' @ q"

abbreviation msg_key :: "client_message \<Rightarrow> string" where
  "msg_key msg \<equiv> makeKey (clusterId msg) (path msg) (query msg)"

definition listeners_of :: "mux \<Rightarrow> string \<Rightarrow> nat list" where
  "listeners_of m key = (case map_of (listeners m) key of None \<Rightarrow> [] | Some ls \<Rightarrow> ls)"

definition initial_mux :: mux where
  "initial_mux = \<lparr>socket = None, listeners = [], subscriptions = [], reconnectTimer = None, reconnectAttempts = 0,
     retrying = False, sessionCheck = False, sessionOver = False, problem_state = \<lparr>problems = [], p_version = 0\<rparr>,
     pending = [], asked = [], delivered = []\<rparr>"

section \<open>Operations\<close>

definition getReconnectDelay :: "nat \<Rightarrow> nat" where
  "getReconnectDelay attempts = min (1000 * 2 ^ attempts) 30000"

definition scheduleReconnect :: "mux \<Rightarrow> mux" where
  "scheduleReconnect m =
     (if reconnectTimer m \<noteq> None then m
      else if subscriptions m = [] then m
      else m\<lparr>reconnectTimer := Some (getReconnectDelay (reconnectAttempts m))\<rparr>)"

text \<open>The part of \<^verbatim>\<open>connect\<close> before it waits: a socket is made when there is none.\<close>

definition connect :: "mux \<Rightarrow> mux" where
  "connect m = (case socket m of Some _ \<Rightarrow> m | None \<Rightarrow> m\<lparr>socket := Some CONNECTING, asked := []\<rparr>)"

text \<open>The reconnect timer's callback.\<close>

definition reconnect :: "mux \<Rightarrow> mux" where
  "reconnect m = (let m = m\<lparr>reconnectTimer := None, reconnectAttempts := reconnectAttempts m + 1\<rparr> in
     (connect m)\<lparr>retrying := (socket m \<noteq> Some OPEN)\<rparr>)"

definition deliver :: "string \<Rightarrow> server_message \<Rightarrow> mux \<Rightarrow> mux" where
  "deliver key msg m = m\<lparr>delivered := delivered m @ map (\<lambda>l. (l, msg)) (listeners_of m key)\<rparr>"

definition record_frame :: "string \<Rightarrow> server_message \<Rightarrow> mux \<Rightarrow> mux" where
  "record_frame key msg m = m\<lparr>problem_state := recordWatchFrame key (sm_error msg) (problem_state m)\<rparr>"

definition dispatch :: "server_message \<Rightarrow> mux \<Rightarrow> mux" where
  "dispatch msg m =
     (if sm_clusterId msg \<noteq> [] then
        (let key = makeKey (sm_clusterId msg) (sm_path msg) (sm_query msg) in
         if map_of (listeners m) key \<noteq> None then deliver key msg (record_frame key msg m) else m)
      else fold (\<lambda>(key, sub) m. if path sub = sm_path msg \<and> query sub = sm_query msg
                   then deliver key msg (record_frame key msg m) else m) (subscriptions m) m)"

text \<open>The socket opened: the rest of \<^verbatim>\<open>connecting\<close>.\<close>

definition on_open :: "mux \<Rightarrow> mux" where
  "on_open m = m\<lparr>socket := Some OPEN, retrying := False, reconnectAttempts := 0,
     problem_state := fold (\<lambda>(key, _). clearWatchProblem key) (subscriptions m) (problem_state m),
     asked := fold (\<lambda>(key, _). set_add key) (subscriptions m) []\<rparr>"

text \<open>\<^verbatim>\<open>socket.onclose\<close>, and the rejection of what waited for the socket (a retry schedules itself again).\<close>

definition on_close :: "bool \<Rightarrow> mux \<Rightarrow> mux" where
  "on_close session_ended m =
     (let failed_retry = (socket m = Some CONNECTING \<and> retrying m);
          m = m\<lparr>socket := None, retrying := False, pending := [], asked := []\<rparr>;
          m = (if session_ended then m\<lparr>sessionCheck := True\<rparr> else scheduleReconnect m) in
      if failed_retry then scheduleReconnect m else m)"

definition on_session_answer :: "bool \<Rightarrow> mux \<Rightarrow> mux" where
  "on_session_answer reopen m = (let m = m\<lparr>sessionCheck := False\<rparr> in
     if reopen then scheduleReconnect m else m\<lparr>sessionOver := True\<rparr>)"

text \<open>\<^verbatim>\<open>subscribe\<close> up to its first wait, and after it.\<close>

definition subscribe :: "client_message \<Rightarrow> nat \<Rightarrow> mux \<Rightarrow> mux" where
  "subscribe msg onMessage m =
     (let key = msg_key msg;
          new = (map_of (subscriptions m) key = None);
          open_before = (socket m = Some OPEN);
          m = m\<lparr>listeners := AList.update key (set_add onMessage (listeners_of m key)) (listeners m),
                subscriptions := AList.update key msg (subscriptions m)\<rparr> in
      (connect m)\<lparr>pending := pending m @ [\<lparr>p_msg = msg, p_listener = onMessage, wasOpenBefore = open_before, wasNewSubscription = new\<rparr>]\<rparr>)"

definition resume_subscribe :: "pending_subscribe \<Rightarrow> mux \<Rightarrow> mux" where
  "resume_subscribe p m =
     (if wasOpenBefore p \<and> wasNewSubscription p \<and> p_listener p \<in> set (listeners_of m (msg_key (p_msg p)))
      then m\<lparr>asked := set_add (msg_key (p_msg p)) (asked m)\<rparr> else m)"

definition unsubscribe :: "client_message \<Rightarrow> nat \<Rightarrow> mux \<Rightarrow> mux" where
  "unsubscribe msg onMessage m =
     (let key = msg_key msg in
      case map_of (listeners m) key of
        None \<Rightarrow> m
      | Some ls \<Rightarrow>
          (let rest = removeAll onMessage ls in
           if rest \<noteq> [] then m\<lparr>listeners := AList.update key rest (listeners m)\<rparr>
           else m\<lparr>listeners := AList.delete key (listeners m),
                  problem_state := clearWatchProblem key (problem_state m),
                  subscriptions := AList.delete key (subscriptions m),
                  asked := (if socket m = Some OPEN then removeAll key (asked m) else asked m)\<rparr>))"

section \<open>Runs\<close>

abbreviation microtasks_done :: "mux \<Rightarrow> bool" where
  "microtasks_done m \<equiv> \<forall>p\<in>set (pending m). \<not> wasOpenBefore p"

text \<open>
  In a \<open>calm\<close> run no listener leaves while its own \<^verbatim>\<open>subscribe\<close> still waits on an open socket.
\<close>

inductive mux_step :: "bool \<Rightarrow> mux \<Rightarrow> mux \<Rightarrow> bool" for calm where
  subscribe: "mux_step calm m (subscribe msg l m)"
| unsubscribe: "calm \<longrightarrow> (\<forall>p\<in>set (pending m). wasOpenBefore p \<longrightarrow> p_listener p = l \<longrightarrow> msg_key (p_msg p) \<noteq> msg_key msg) \<Longrightarrow>
    mux_step calm m (unsubscribe msg l m)"
| resume: "pending m = ps @ p # qs \<Longrightarrow> socket m = Some OPEN \<Longrightarrow> mux_step calm m (resume_subscribe p (m\<lparr>pending := ps @ qs\<rparr>))"
| opened: "socket m = Some CONNECTING \<Longrightarrow> microtasks_done m \<Longrightarrow> mux_step calm m (on_open m)"
| closed: "socket m \<noteq> None \<Longrightarrow> microtasks_done m \<Longrightarrow> mux_step calm m (on_close session_ended m)"
| session_answer: "sessionCheck m \<Longrightarrow> microtasks_done m \<Longrightarrow> mux_step calm m (on_session_answer reopen m)"
| timer: "reconnectTimer m \<noteq> None \<Longrightarrow> microtasks_done m \<Longrightarrow> mux_step calm m (reconnect m)"
| frame: "socket m = Some OPEN \<Longrightarrow> microtasks_done m \<Longrightarrow> mux_step calm m (dispatch msg m)"

inductive mux_reachable :: "bool \<Rightarrow> mux \<Rightarrow> bool" for calm where
  initial: "mux_reachable calm initial_mux"
| step: "mux_reachable calm m \<Longrightarrow> mux_step calm m m' \<Longrightarrow> mux_reachable calm m'"

section \<open>The invariant\<close>

definition keys_inv :: "mux \<Rightarrow> bool" where
  "keys_inv m \<longleftrightarrow> map fst (listeners m) = map fst (subscriptions m) \<and> distinct (map fst (subscriptions m)) \<and>
     (\<forall>(k, ls)\<in>set (listeners m). ls \<noteq> []) \<and> (\<forall>(k, msg)\<in>set (subscriptions m). k = msg_key msg)"

definition connected_inv :: "mux \<Rightarrow> bool" where
  "connected_inv m \<longleftrightarrow>
     (subscriptions m \<noteq> [] \<longrightarrow> socket m \<noteq> None \<or> reconnectTimer m \<noteq> None \<or> sessionCheck m \<or> sessionOver m) \<and>
     (\<forall>d. reconnectTimer m = Some d \<longrightarrow> 1000 \<le> d \<and> d \<le> 30000)"

definition asked_inv :: "mux \<Rightarrow> bool" where
  "asked_inv m \<longleftrightarrow> set (asked m) \<subseteq> set (map fst (subscriptions m)) \<and> (socket m \<noteq> Some OPEN \<longrightarrow> asked m = [])"

lemma delay_bounds: "1000 \<le> getReconnectDelay n \<and> getReconnectDelay n \<le> 30000"
  by (simp add: getReconnectDelay_def)

lemma listeners_keys: "map_of (listeners m) k \<noteq> None \<longleftrightarrow> k \<in> set (map fst (listeners m))"
  by (metis map_of_None_keys)

text \<open>A frame changes the problems and the listener calls only.\<close>

definition same_net :: "mux \<Rightarrow> mux \<Rightarrow> bool" where
  "same_net m m' \<longleftrightarrow> socket m' = socket m \<and> listeners m' = listeners m \<and> subscriptions m' = subscriptions m \<and>
     reconnectTimer m' = reconnectTimer m \<and> sessionCheck m' = sessionCheck m \<and> sessionOver m' = sessionOver m \<and>
     pending m' = pending m \<and> asked m' = asked m"

lemma same_net_trans: "same_net a b \<Longrightarrow> same_net b c \<Longrightarrow> same_net a c"
  by (simp add: same_net_def)

lemma same_net_fold:
  "(\<And>x m. same_net m (f x m)) \<Longrightarrow> same_net m (fold f xs m)"
proof (induction xs arbitrary: m)
  case (Cons x xs)
  from Cons.prems [of m x] Cons.IH [OF Cons.prems, of "f x m"] show ?case by (auto intro: same_net_trans)
qed (simp add: same_net_def)

lemma same_net_deliver: "same_net m m" "same_net m (deliver key msg (record_frame key msg m))"
  by (simp_all add: same_net_def deliver_def record_frame_def)

lemma same_net_dispatch: "same_net m (dispatch msg m)"
proof (cases "sm_clusterId msg = []")
  case True
  have "same_net m (fold (\<lambda>(key, sub) m. if path sub = sm_path msg \<and> query sub = sm_query msg
      then deliver key msg (record_frame key msg m) else m) (subscriptions m) m)"
    by (rule same_net_fold) (simp add: same_net_deliver split: prod.split)
  with True show ?thesis by (simp add: dispatch_def)
next
  case False
  then show ?thesis by (simp add: dispatch_def Let_def same_net_deliver)
qed

lemma set_fold_keys: "set (fold (\<lambda>(key, _). set_add key) kvs acc) = fst ` set kvs \<union> set acc"
  by (induction kvs arbitrary: acc) auto

lemma connect_fields [simp]:
  "listeners (connect m) = listeners m" "subscriptions (connect m) = subscriptions m"
  "reconnectTimer (connect m) = reconnectTimer m" "socket (connect m) \<noteq> None" "pending (connect m) = pending m"
  "sessionCheck (connect m) = sessionCheck m" "sessionOver (connect m) = sessionOver m"
  "socket (connect m) = Some OPEN \<longleftrightarrow> socket m = Some OPEN"
  "asked (connect m) = (if socket m = None then [] else asked m)"
  by (auto simp: connect_def split: option.split)

lemma schedule_fields [simp]:
  "listeners (scheduleReconnect m) = listeners m" "subscriptions (scheduleReconnect m) = subscriptions m"
  "socket (scheduleReconnect m) = socket m" "pending (scheduleReconnect m) = pending m"
  "sessionCheck (scheduleReconnect m) = sessionCheck m" "sessionOver (scheduleReconnect m) = sessionOver m"
  "asked (scheduleReconnect m) = asked m"
  by (simp_all add: scheduleReconnect_def)

lemma schedule_timer: "subscriptions m \<noteq> [] \<Longrightarrow> reconnectTimer (scheduleReconnect m) \<noteq> None"
  by (simp add: scheduleReconnect_def)

lemma schedule_delay: "reconnectTimer (scheduleReconnect m) = Some d \<Longrightarrow> reconnectTimer m = Some d \<or> 1000 \<le> d \<and> d \<le> 30000"
  using delay_bounds [of "reconnectAttempts m"] by (auto simp: scheduleReconnect_def split: if_splits)

lemma listeners_of_pending [simp]: "listeners_of (m\<lparr>pending := ps\<rparr>) k = listeners_of m k"
  by (simp add: listeners_of_def)

subsection \<open>Keys\<close>

lemma keys_update:
  assumes "keys_inv m"
  shows "keys_inv (m\<lparr>listeners := AList.update (msg_key msg) (set_add l ls) (listeners m),
     subscriptions := AList.update (msg_key msg) msg (subscriptions m)\<rparr>)"
proof -
  have upd: "(k, v) \<in> set (AList.update k' v' xs) \<Longrightarrow> (k, v) \<in> set xs \<or> (k = k' \<and> v = v')" for k v k' v' and xs :: "('x \<times> 'y) list"
    by (induction xs) (auto split: if_splits)
  have "set_add l ls \<noteq> []" by (metis set_set_add insert_not_empty set_empty)
  with assms show ?thesis
    by (auto simp: keys_inv_def fst_AList_update distinct_update dest!: upd)
qed

lemma keys_cong: "listeners m' = listeners m \<Longrightarrow> subscriptions m' = subscriptions m \<Longrightarrow> keys_inv m' = keys_inv m"
  by (simp add: keys_inv_def)

lemma keys_unsubscribe:
  assumes "keys_inv m"
  shows "keys_inv (unsubscribe msg l m)"
proof -
  have upd: "(k, v) \<in> set (AList.update k' v' xs) \<Longrightarrow> (k, v) \<in> set xs \<or> (k = k' \<and> v = v')" for k v k' v' and xs :: "('x \<times> 'y) list"
    by (induction xs) (auto split: if_splits)
  have del: "(k, v) \<in> set (AList.delete k' xs) \<Longrightarrow> (k, v) \<in> set xs" for k v k' and xs :: "('x \<times> 'y) list"
    by (simp add: AList.delete_eq)
  show ?thesis
  proof (cases "map_of (listeners m) (msg_key msg)")
    case None
    with assms show ?thesis by (simp add: unsubscribe_def)
  next
    case (Some ls)
    then have k: "msg_key msg \<in> set (map fst (listeners m))" by (metis listeners_keys option.distinct(1))
    with assms Some show ?thesis
      by (auto simp: unsubscribe_def Let_def keys_inv_def fst_AList_update fst_AList_delete distinct_removeAll
          dest!: upd del)
  qed
qed

lemma keys_step: "mux_step calm m m' \<Longrightarrow> keys_inv m \<Longrightarrow> keys_inv m'"
proof (induction rule: mux_step.induct)
  case (subscribe m msg l)
  then show ?case
    using keys_update [of m msg l "listeners_of m (msg_key msg)"]
    by (simp add: subscribe_def Let_def keys_inv_def)
next
  case (unsubscribe m l msg)
  then show ?case by (simp add: keys_unsubscribe)
next
  case (resume m ps p qs)
  then show ?case by (simp add: resume_subscribe_def keys_inv_def)
next
  case (frame m msg)
  then show ?case using same_net_dispatch [of m msg] by (simp add: same_net_def keys_inv_def)
qed (simp_all add: on_open_def on_close_def on_session_answer_def reconnect_def Let_def keys_inv_def)

subsection \<open>Connection\<close>

lemma connected_step: "mux_step calm m m' \<Longrightarrow> connected_inv m \<Longrightarrow> connected_inv m'"
proof (induction rule: mux_step.induct)
  case (subscribe m msg l)
  then show ?case by (simp add: subscribe_def Let_def connected_inv_def)
next
  case (unsubscribe m l msg)
  then show ?case by (auto simp: unsubscribe_def Let_def connected_inv_def split: option.split)
next
  case (resume m ps p qs)
  then show ?case by (simp add: resume_subscribe_def connected_inv_def)
next
  case (closed m session_ended)
  then show ?case
    by (auto simp: on_close_def Let_def connected_inv_def schedule_timer dest!: schedule_delay)
next
  case (session_answer m reopen)
  then show ?case
    by (auto simp: on_session_answer_def Let_def connected_inv_def schedule_timer dest!: schedule_delay)
next
  case (frame m msg)
  then show ?case using same_net_dispatch [of m msg] by (simp add: same_net_def connected_inv_def)
qed (simp_all add: on_open_def reconnect_def Let_def connected_inv_def)

subsection \<open>What the server is asked for\<close>

lemma asked_step: "mux_step calm m m' \<Longrightarrow> keys_inv m \<Longrightarrow> asked_inv m \<Longrightarrow> asked_inv m'"
proof (induction rule: mux_step.induct)
  case (subscribe m msg l)
  then show ?case
    by (auto simp: subscribe_def Let_def asked_inv_def fst_AList_update)
next
  case (unsubscribe m l msg)
  then show ?case
    by (auto simp: unsubscribe_def Let_def asked_inv_def fst_AList_delete simp del: set_map split: option.split)
next
  case (resume m ps p qs)
  have "k \<in> set (map fst (subscriptions m))" if "l \<in> set (listeners_of m k)" for k l
    using that resume(3) listeners_keys [of m k] by (auto simp: listeners_of_def keys_inv_def split: option.splits)
  with resume show ?case by (auto simp: resume_subscribe_def asked_inv_def)
next
  case (opened m)
  then show ?case by (simp add: on_open_def asked_inv_def set_fold_keys)
next
  case (frame m msg)
  then show ?case using same_net_dispatch [of m msg] by (simp add: same_net_def asked_inv_def)
qed (auto simp: on_close_def on_session_answer_def reconnect_def Let_def asked_inv_def)

text \<open>In a calm run every subscription was asked for, or its request is about to be sent.\<close>

definition covered :: "mux \<Rightarrow> string \<Rightarrow> bool" where
  "covered m k \<longleftrightarrow> k \<in> set (asked m) \<or>
     (\<exists>p\<in>set (pending m). msg_key (p_msg p) = k \<and> wasOpenBefore p \<and> wasNewSubscription p \<and> p_listener p \<in> set (listeners_of m k))"

definition covered_inv :: "mux \<Rightarrow> bool" where
  "covered_inv m \<longleftrightarrow> (socket m = Some OPEN \<longrightarrow> (\<forall>k\<in>set (map fst (subscriptions m)). covered m k))"

lemma listeners_of_update [simp]:
  "listeners_of (m\<lparr>listeners := AList.update k ls (listeners m)\<rparr>) k' = (if k' = k then ls else listeners_of m k')"
  by (simp add: listeners_of_def update_conv')

lemma listeners_of_cong: "listeners m' = listeners m \<Longrightarrow> listeners_of m' k = listeners_of m k"
  by (simp add: listeners_of_def)

lemma covered_subscribe:
  assumes "covered_inv m"
  shows "covered_inv (subscribe msg l m)"
proof (cases "socket m = Some OPEN")
  case True
  let ?m = "subscribe msg l m"
  have m: "listeners_of ?m k = (if k = msg_key msg then set_add l (listeners_of m k) else listeners_of m k)"
      "asked ?m = asked m" "socket ?m = Some OPEN"
      "pending ?m = pending m @ [\<lparr>p_msg = msg, p_listener = l, wasOpenBefore = True, wasNewSubscription = (map_of (subscriptions m) (msg_key msg) = None)\<rparr>]"
      "set (map fst (subscriptions ?m)) = insert (msg_key msg) (set (map fst (subscriptions m)))" for k
    using True by (auto simp: subscribe_def Let_def listeners_of_def update_conv' fst_AList_update simp del: set_map)
  have old: "covered ?m k" if "k \<in> set (map fst (subscriptions m))" for k
    using assms True that by (fastforce simp: covered_inv_def covered_def m)
  have "covered ?m (msg_key msg)"
  proof (cases "map_of (subscriptions m) (msg_key msg)")
    case None
    then show ?thesis by (auto simp: covered_def m)
  next
    case (Some x)
    then have "msg_key msg \<in> set (map fst (subscriptions m))" by (metis map_of_None_keys option.distinct(1))
    then show ?thesis by (rule old)
  qed
  with old show ?thesis by (auto simp: covered_inv_def m(3,5) simp del: set_map)
next
  case False
  then show ?thesis by (simp add: subscribe_def Let_def covered_inv_def)
qed

lemma covered_unsubscribe:
  assumes "covered_inv m" "\<forall>p\<in>set (pending m). wasOpenBefore p \<longrightarrow> p_listener p = l \<longrightarrow> msg_key (p_msg p) \<noteq> msg_key msg"
  shows "covered_inv (unsubscribe msg l m)"
proof (cases "map_of (listeners m) (msg_key msg)")
  case None
  with assms show ?thesis by (simp add: unsubscribe_def)
next
  case (Some ls)
  show ?thesis
  proof (cases "removeAll l ls = []")
    case True
    have old: "covered (unsubscribe msg l m) k" if "covered m k" "k \<noteq> msg_key msg" for k
      using that Some True by (auto simp: covered_def unsubscribe_def Let_def listeners_of_def delete_conv')
    have keys: "set (map fst (subscriptions (unsubscribe msg l m))) = set (map fst (subscriptions m)) - {msg_key msg}"
        "socket (unsubscribe msg l m) = socket m"
      using Some True by (simp_all add: unsubscribe_def Let_def fst_AList_delete del: set_map)
    show ?thesis unfolding covered_inv_def
    proof (intro impI ballI)
      fix k assume "socket (unsubscribe msg l m) = Some OPEN" and k: "k \<in> set (map fst (subscriptions (unsubscribe msg l m)))"
      then have "covered m k" using assms(1) keys by (auto simp: covered_inv_def)
      moreover have "k \<noteq> msg_key msg" using k keys(1) by blast
      ultimately show "covered (unsubscribe msg l m) k" by (rule old)
    qed
  next
    case False
    have "covered (unsubscribe msg l m) k" if "covered m k" for k
      using that Some False assms(2) by (fastforce simp: covered_def unsubscribe_def Let_def listeners_of_def update_conv')
    moreover have "subscriptions (unsubscribe msg l m) = subscriptions m" "socket (unsubscribe msg l m) = socket m"
      using Some False by (simp_all add: unsubscribe_def Let_def)
    ultimately show ?thesis using assms(1) unfolding covered_inv_def by metis
  qed
qed

lemma covered_step: "mux_step True m m' \<Longrightarrow> covered_inv m \<Longrightarrow> covered_inv m'"
proof (induction rule: mux_step.induct)
  case (subscribe m msg l)
  then show ?case by (simp add: covered_subscribe)
next
  case (unsubscribe m l msg)
  then show ?case by (simp add: covered_unsubscribe)
next
  case (resume m ps p qs)
  then show ?case
    by (auto simp: resume_subscribe_def covered_inv_def covered_def listeners_of_def simp del: set_map)
next
  case (opened m)
  then show ?case by (auto simp: on_open_def covered_inv_def covered_def set_fold_keys)
next
  case (frame m msg)
  then show ?case
    using same_net_dispatch [of m msg]
    by (simp add: same_net_def covered_inv_def covered_def listeners_of_def)
next
  case (timer m)
  then show ?case
    by (auto simp: reconnect_def Let_def covered_inv_def covered_def listeners_of_def)
qed (auto simp: on_close_def on_session_answer_def Let_def scheduleReconnect_def covered_inv_def covered_def listeners_of_def)

lemma mux_reachable_inv: "mux_reachable calm m \<Longrightarrow> keys_inv m \<and> connected_inv m \<and> asked_inv m"
proof (induction rule: mux_reachable.induct)
  case initial
  show ?case by (simp add: initial_mux_def keys_inv_def connected_inv_def asked_inv_def)
qed (auto intro: keys_step connected_step asked_step)

lemma mux_reachable_covered: "mux_reachable True m \<Longrightarrow> covered_inv m"
proof (induction rule: mux_reachable.induct)
  case initial
  show ?case by (simp add: initial_mux_def covered_inv_def)
qed (auto intro: covered_step)

section \<open>Frames\<close>

lemma makeKey_inj:
  assumes "makeKey c p q = makeKey c' p' q'" "CHR 0x0A \<notin> set c" "CHR 0x0A \<notin> set c'" "CHR ''?'' \<notin> set p" "CHR ''?'' \<notin> set p'"
  shows "c = c' \<and> p = p' \<and> q = q'"
proof -
  have "split CHR 0x0A (makeKey c p q) = c # split CHR 0x0A (p @ ''?'' @ q)"
      "split CHR 0x0A (makeKey c' p' q') = c' # split CHR 0x0A (p' @ ''?'' @ q')"
    using assms(2,3) by (simp_all add: makeKey_def split_append_sep)
  with assms(1) have c: "c = c'" by simp
  with assms(1) have pq: "p @ ''?'' @ q = p' @ ''?'' @ q'" by (simp add: makeKey_def)
  have "split CHR ''?'' (p @ ''?'' @ q) = p # split CHR ''?'' q" "split CHR ''?'' (p' @ ''?'' @ q') = p' # split CHR ''?'' q'"
    using assms(4,5) by (simp_all add: split_append_sep)
  with pq have "p = p'" by simp
  with c pq show ?thesis by simp
qed

text \<open>The listener calls a frame makes.\<close>

definition calls :: "server_message \<Rightarrow> mux \<Rightarrow> (nat \<times> server_message) list" where
  "calls msg m = drop (length (delivered m)) (delivered (dispatch msg m))"

lemma calls_named:
  assumes "sm_clusterId msg \<noteq> []"
  shows "calls msg m = map (\<lambda>l. (l, msg)) (listeners_of m (makeKey (sm_clusterId msg) (sm_path msg) (sm_query msg)))"
  using assms by (auto simp: calls_def dispatch_def Let_def deliver_def record_frame_def listeners_of_def)

text \<open>A page with an open socket, and two listeners of one list, the first of which leaves in the same tick.\<close>

definition demo_other :: client_message where
  "demo_other = \<lparr>clusterId = ''c'', path = ''/api/v1/nodes'', query = ''watch=1''\<rparr>"

definition demo_msg :: client_message where
  "demo_msg = \<lparr>clusterId = ''c'', path = ''/api/v1/pods'', query = ''watch=1''\<rparr>"

definition demo_open :: mux where
  "demo_open = (on_open (subscribe demo_other 9 initial_mux))\<lparr>pending := []\<rparr>"

definition demo_two :: mux where
  "demo_two = subscribe demo_msg 2 (subscribe demo_msg 7 demo_open)"

definition demo_race :: mux where
  "demo_race = (unsubscribe demo_msg 7 demo_two)\<lparr>pending := []\<rparr>"

lemmas demo_defs = demo_open_def demo_two_def initial_mux_def connect_def on_open_def subscribe_def
  listeners_of_def set_add_def demo_msg_def demo_other_def makeKey_def Let_def

lemma demo_open_reachable: "mux_reachable calm demo_open"
proof -
  let ?m = "subscribe demo_other 9 initial_mux"
  have "mux_reachable calm ?m"
    using mux_reachable.initial mux_step.subscribe by (rule mux_reachable.step)
  moreover have "mux_step calm ?m (on_open ?m)"
    by (rule mux_step.opened) (simp_all add: demo_defs)
  ultimately have m: "mux_reachable calm (on_open ?m)" by (rule mux_reachable.step)
  obtain p where p: "pending (on_open ?m) = [] @ p # []" "\<not> wasOpenBefore p" by (simp add: demo_defs)
  have "mux_step calm (on_open ?m) (resume_subscribe p ((on_open ?m)\<lparr>pending := [] @ []\<rparr>))"
    using p(1) by (rule mux_step.resume) (simp add: on_open_def)
  with m have "mux_reachable calm (resume_subscribe p ((on_open ?m)\<lparr>pending := [] @ []\<rparr>))" by (rule mux_reachable.step)
  then show ?thesis using p(2) by (simp add: resume_subscribe_def demo_open_def)
qed

lemma demo_race_reachable: "mux_reachable False demo_race"
proof -
  let ?m = "unsubscribe demo_msg 7 demo_two"
  let ?p1 = "\<lparr>p_msg = demo_msg, p_listener = 7, wasOpenBefore = True, wasNewSubscription = True\<rparr>"
  let ?p2 = "\<lparr>p_msg = demo_msg, p_listener = 2, wasOpenBefore = True, wasNewSubscription = False\<rparr>"
  have "mux_reachable False demo_two" unfolding demo_two_def
    by (intro mux_reachable.step [OF _ mux_step.subscribe] demo_open_reachable)
  then have m: "mux_reachable False ?m" by (rule mux_reachable.step [OF _ mux_step.unsubscribe]) simp
  have f: "pending ?m = [?p1, ?p2]" "socket ?m = Some OPEN" "listeners_of ?m (msg_key demo_msg) = [2]"
    by (simp_all add: unsubscribe_def demo_defs)
  have "mux_step False ?m (resume_subscribe ?p1 (?m\<lparr>pending := [] @ [?p2]\<rparr>))"
    by (rule mux_step.resume) (simp_all add: f)
  with m have r1: "mux_reachable False (?m\<lparr>pending := [?p2]\<rparr>)"
    using mux_reachable.step f(3) by (fastforce simp: resume_subscribe_def)
  have "mux_step False (?m\<lparr>pending := [?p2]\<rparr>) (resume_subscribe ?p2 (?m\<lparr>pending := [?p2]\<rparr>\<lparr>pending := [] @ []\<rparr>))"
    by (rule mux_step.resume) (simp_all add: f)
  with r1 show ?thesis
    using mux_reachable.step by (fastforce simp: resume_subscribe_def demo_race_def)
qed

section \<open>Properties\<close>





text \<open>
  without that condition a list can stay silent. Two listeners of one list subscribe on an open socket and
  the first leaves in the same tick: the second was not the one to ask, the first no longer listens when its turn to ask
  comes, and the request is never sent.
\<close>

theorem mux_request_lost:
  "\<exists>m k l. mux_reachable False m \<and> socket m = Some OPEN \<and> pending m = [] \<and> l \<in> set (listeners_of m k) \<and> k \<notin> set (asked m)"
  by (rule exI [of _ demo_race], rule exI [of _ "msg_key demo_msg"], rule exI [of _ 2])
    (simp add: demo_race_reachable, simp add: demo_race_def unsubscribe_def demo_defs)

text \<open>
  a frame goes only where it belongs. A frame that names its cluster calls the listeners of that cluster's
  list and no others, and each of them subscribed to exactly that cluster, path and query (cluster ids without a line
  break, paths without a question mark).
\<close>

theorem dispatch_named_cluster:
  assumes "mux_reachable calm m" "sm_clusterId msg \<noteq> []" "CHR 0x0A \<notin> set (sm_clusterId msg)" "CHR ''?'' \<notin> set (sm_path msg)"
    "\<forall>(k, sub)\<in>set (subscriptions m). CHR 0x0A \<notin> set (clusterId sub) \<and> CHR ''?'' \<notin> set (path sub)"
    "(l, f) \<in> set (calls msg m)"
  shows "f = msg \<and> (\<exists>(k, sub)\<in>set (subscriptions m). l \<in> set (listeners_of m k) \<and>
    clusterId sub = sm_clusterId msg \<and> path sub = sm_path msg \<and> query sub = sm_query msg)"
proof -
  let ?k = "makeKey (sm_clusterId msg) (sm_path msg) (sm_query msg)"
  have inv: "keys_inv m" using mux_reachable_inv [OF assms(1)] by blast
  have l: "f = msg" "l \<in> set (listeners_of m ?k)" using assms(6) calls_named [OF assms(2)] by auto
  then have "?k \<in> set (map fst (subscriptions m))"
    using inv listeners_keys [of m ?k] by (auto simp: listeners_of_def keys_inv_def split: option.splits)
  then obtain sub where sub: "(?k, sub) \<in> set (subscriptions m)" by auto
  then have "?k = msg_key sub" using inv by (auto simp: keys_inv_def)
  with makeKey_inj assms(3-5) sub have "clusterId sub = sm_clusterId msg \<and> path sub = sm_path msg \<and> query sub = sm_query msg"
    by (metis (no_types, lifting) case_prodD)
  with sub l show ?thesis by (intro conjI bexI [of _ "(?k, sub)"]) auto
qed

theorem dispatch_named_cluster_witness:
  "(9, \<lparr>sm_clusterId = ''c'', sm_path = ''/api/v1/nodes'', sm_query = ''watch=1'', sm_error = None, sm_data = JNull\<rparr>)
     \<in> set (calls \<lparr>sm_clusterId = ''c'', sm_path = ''/api/v1/nodes'', sm_query = ''watch=1'', sm_error = None, sm_data = JNull\<rparr> demo_open) \<and>
   (\<exists>(k, sub)\<in>set (subscriptions demo_open). 9 \<in> set (listeners_of demo_open k) \<and> clusterId sub = ''c'')"
proof -
  let ?f = "\<lparr>sm_clusterId = ''c'', sm_path = ''/api/v1/nodes'', sm_query = ''watch=1'', sm_error = None, sm_data = JNull\<rparr>"
  have c: "(9, ?f) \<in> set (calls ?f demo_open)" by (simp add: calls_named demo_defs)
  have "\<forall>(k, sub)\<in>set (subscriptions demo_open). CHR 0x0A \<notin> set (clusterId sub) \<and> CHR ''?'' \<notin> set (path sub)"
    by (simp add: demo_defs)
  with dispatch_named_cluster [OF demo_open_reachable, of ?f 9 ?f] c show ?thesis by fastforce
qed

end
