(* ===== verification/Row_Values.thy ===== *)
theory Row_Values
  imports Watch_Rows
begin

text \<open>
  What the pages' normalizers (\<^verbatim>\<open>frontend/src/pages/**/*WatchNormalize.ts\<close>) share: a Kubernetes object,
  or the row the server already made of it, becomes the list's row.

  The normalizers read values with \<^verbatim>\<open>?.\<close> and \<^verbatim>\<open>??\<close>; where one calls an array method or loops over a value
  without a guard, a value of another type throws. Those normalizers return an option, \<open>None\<close> where they throw: the
  frame is then dropped and the rows stay (\<open>applyOrDrop\<close>).
\<close>

section \<open>Reading values\<close>

text \<open>\<^verbatim>\<open>a ?? b ?? c\<close> and \<^verbatim>\<open>a || b || c\<close>: the last value when none before it is taken.\<close>

fun jnns :: "jval list \<Rightarrow> jval" where
  "jnns [] = JUndef"
| "jnns [v] = v"
| "jnns (v # w # vs) = (if nullish v then jnns (w # vs) else v)"

fun jors :: "jval list \<Rightarrow> jval" where
  "jors [] = JUndef"
| "jors [v] = v"
| "jors (v # w # vs) = (if truthy v then v else jors (w # vs))"

definition empty_obj :: jval where
  "empty_obj = JObj []"

text \<open>\<^verbatim>\<open>xs.find(p)\<close>, \<^verbatim>\<open>xs[0]\<close>, \<^verbatim>\<open>xs.map(f).filter(Boolean)\<close>.\<close>

definition jfind :: "(jval \<Rightarrow> bool) \<Rightarrow> jval list \<Rightarrow> jval" where
  "jfind p xs = (case List.find p xs of Some x \<Rightarrow> x | None \<Rightarrow> JUndef)"

definition jhead :: "jval list \<Rightarrow> jval" where
  "jhead xs = (case xs of [] \<Rightarrow> JUndef | x # _ \<Rightarrow> x)"

definition map_truthy :: "(jval \<Rightarrow> jval) \<Rightarrow> jval list \<Rightarrow> jval list" where
  "map_truthy f xs = filter truthy (map f xs)"

text \<open>The elements of \<^verbatim>\<open>v.map(\<dots>)\<close> or \<^verbatim>\<open>v.some(\<dots>)\<close>, and of \<^verbatim>\<open>for (const x of v)\<close>; \<open>None\<close> where they throw.\<close>

fun array_of :: "jval \<Rightarrow> jval list option" where
  "array_of (JArr xs) = Some xs"
| "array_of _ = None"

fun iter_of :: "jval \<Rightarrow> jval list option" where
  "iter_of (JArr xs) = Some xs"
| "iter_of (JStr s) = Some (map (\<lambda>c. JStr [c]) s)"
| "iter_of _ = None"

text \<open>The properties \<^verbatim>\<open>{ ...v }\<close> copies, \<^verbatim>\<open>{ ...v, k: x }\<close>, and \<^verbatim>\<open>v.length\<close>.\<close>

definition indexed :: "jval list \<Rightarrow> (string \<times> jval) list" where
  "indexed xs = map (\<lambda>(i, x). (show_nat i, x)) (zip [0..<length xs] xs)"

fun spread :: "jval \<Rightarrow> (string \<times> jval) list" where
  "spread (JObj kvs) = kvs"
| "spread (JArr xs) = indexed xs"
| "spread (JStr s) = indexed (map (\<lambda>c. JStr [c]) s)"
| "spread _ = []"

definition spread_with :: "jval \<Rightarrow> (string \<times> jval) list \<Rightarrow> jval" where
  "spread_with v kvs = JObj (fold (\<lambda>(k, x) acc. AList.update k x acc) kvs (spread v))"

fun js_length :: "jval \<Rightarrow> jval" where
  "js_length (JArr xs) = JNum (int (length xs))"
| "js_length (JStr s) = JNum (int (length s))"
| "js_length v = jget v ''length''"

section \<open>Arithmetic\<close>

definition is_digit :: "char \<Rightarrow> bool" where
  "is_digit c \<longleftrightarrow> 48 \<le> (of_char c :: nat) \<and> (of_char c :: nat) \<le> 57"

definition digits_value :: "string \<Rightarrow> nat" where
  "digits_value s = foldl (\<lambda>n c. 10 * n + (of_char c - 48)) 0 s"

text \<open>
  \<^verbatim>\<open>Number(v)\<close>. Of texts, the integers in decimal digits; the other number texts (fractions, exponents,
  hexadecimal) do not occur in the count fields it is used on and count as not a number.
\<close>

definition text_number :: "string \<Rightarrow> jval" where
  "text_number s = (let t = trim s in
     if t = [] then JNum 0
     else if list_all is_digit t then JNum (int (digits_value t))
     else if hd t = CHR ''-'' \<and> tl t \<noteq> [] \<and> list_all is_digit (tl t) then JNum (- int (digits_value (tl t)))
     else JNaN)"

fun to_number :: "jval \<Rightarrow> jval" where
  "to_number (JNum n) = JNum n"
| "to_number JNull = JNum 0"
| "to_number (JBool b) = JNum (if b then 1 else 0)"
| "to_number (JStr s) = text_number s"
| "to_number (JArr xs) = text_number (jstr (JArr xs))"
| "to_number _ = JNaN"

fun num2 :: "(int \<Rightarrow> int \<Rightarrow> int) \<Rightarrow> jval \<Rightarrow> jval \<Rightarrow> jval" where
  "num2 f (JNum a) (JNum b) = JNum (f a b)"
| "num2 f _ _ = JNaN"

definition js_sub :: "jval \<Rightarrow> jval \<Rightarrow> jval" where
  "js_sub a b = num2 (-) (to_number a) (to_number b)"

definition js_max :: "jval \<Rightarrow> jval \<Rightarrow> jval" where
  "js_max a b = num2 max (to_number a) (to_number b)"

fun is_object :: "jval \<Rightarrow> bool" where
  "is_object (JObj _) = True"
| "is_object _ = False"

definition texty :: "jval \<Rightarrow> bool" where
  "texty v \<longleftrightarrow> is_string v \<or> is_array v \<or> is_object v"

text \<open>\<^verbatim>\<open>a + b\<close>: text as soon as one side is not a primitive number-like value.\<close>

definition js_add :: "jval \<Rightarrow> jval \<Rightarrow> jval" where
  "js_add a b = (if texty a \<or> texty b then JStr (jstr a @ jstr b) else num2 (+) (to_number a) (to_number b))"

definition js_less :: "jval \<Rightarrow> jval \<Rightarrow> bool" where
  "js_less a b = (case (a, b) of
      (JStr s, JStr t) \<Rightarrow> s < t
    | _ \<Rightarrow> (case (to_number a, to_number b) of (JNum m, JNum n) \<Rightarrow> m < n | _ \<Rightarrow> False))"

section \<open>Fields\<close>

definition bool_of :: "jval \<Rightarrow> jval" where
  "bool_of v = JBool (truthy v)"

definition array_or_empty :: "jval \<Rightarrow> jval" where
  "array_or_empty v = (if is_array v then v else JArr [])"

definition has_key :: "jval \<Rightarrow> string \<Rightarrow> bool" where
  "has_key v k \<longleftrightarrow> map_of (props v) k \<noteq> None"

definition text_or_null :: "jval \<Rightarrow> jval" where
  "text_or_null v = (if \<not> nullish v then JStr (jstr v) else JNull)"

section \<open>Names of a row\<close>

definition meta_of :: "jval \<Rightarrow> jval" where
  "meta_of obj = jnn (jget obj ''metadata'') empty_obj"

definition spec_of :: "jval \<Rightarrow> jval" where
  "spec_of obj = jnn (jget obj ''spec'') empty_obj"

definition status_of :: "jval \<Rightarrow> jval" where
  "status_of obj = jnn (jget obj ''status'') empty_obj"

text \<open>\<^verbatim>\<open>metadata?.name ?? obj?.name ?? ''\<close> and the same of the namespace.\<close>

definition name_of :: "jval \<Rightarrow> jval" where
  "name_of obj = jnns [jget (meta_of obj) ''name'', jget obj ''name'', JStr []]"

definition namespace_of :: "jval \<Rightarrow> jval" where
  "namespace_of obj = jnns [jget (meta_of obj) ''namespace'', jget obj ''namespace'', JStr []]"

text \<open>\<^verbatim>\<open>metadata?.labels ?? obj?.labels ?? d\<close>, \<^verbatim>\<open>metadata?.creationTimestamp ?? obj?.created_at ?? d\<close>.\<close>

definition labels_of :: "jval \<Rightarrow> jval \<Rightarrow> jval" where
  "labels_of obj d = jnns [jget (meta_of obj) ''labels'', jget obj ''labels'', d]"

definition created_of :: "jval \<Rightarrow> jval \<Rightarrow> jval" where
  "created_of obj d = jnns [jget (meta_of obj) ''creationTimestamp'', jget obj ''created_at'', d]"

definition is_named_row :: "jval \<Rightarrow> bool" where
  "is_named_row obj \<longleftrightarrow> is_string (jget obj ''name'') \<and> is_string (jget obj ''namespace'')"

text \<open>The four fields the rows keep of an owner reference.\<close>

definition owner_row :: "jval \<Rightarrow> jval" where
  "owner_row r = JObj [(''kind'', jnn (jget r ''kind'') JNull), (''name'', jnn (jget r ''name'') JNull),
     (''uid'', jnn (jget r ''uid'') JNull), (''controller'', jnn (jget r ''controller'') JNull)]"

section \<open>Apply functions of a normalizer that may throw\<close>

definition applyOrDrop :: "(jval \<Rightarrow> jval option) \<Rightarrow> jval list option \<Rightarrow> watch_event \<Rightarrow> jval list" where
  "applyOrDrop toRow prev ev = (if \<not> truthy (ev_object ev) then prev_items prev
     else case toRow (ev_object ev) of
       None \<Rightarrow> prev_items prev
     | Some row \<Rightarrow> applyNamespacedEvent (\<lambda>_. row) prev ev)"

definition carried_or_drop :: "(jval \<Rightarrow> jval option) \<Rightarrow> watch_event \<Rightarrow> jval option" where
  "carried_or_drop toRow ev = (if \<not> truthy (ev_object ev) then None
     else case toRow (ev_object ev) of
       None \<Rightarrow> None
     | Some row \<Rightarrow> if truthy (jget row ''name'') \<and> truthy (jget row ''namespace'') then Some row else None)"

lemma applyOrDrop_feed:
  "row_feed (applyOrDrop toRow) (carried_or_drop toRow) (\<lambda>x r. ns_key x = ns_key r) ns_key (\<lambda>_. True)"
  by unfold_locales
    (auto simp: applyOrDrop_def carried_or_drop_def applyNamespacedEvent_def Let_def split: option.splits if_splits)

definition applyNamedOrDrop :: "(jval \<Rightarrow> jval option) \<Rightarrow> jval list option \<Rightarrow> watch_event \<Rightarrow> jval list" where
  "applyNamedOrDrop toRow prev ev = (if \<not> truthy (ev_object ev) then prev_items prev
     else case toRow (ev_object ev) of
       None \<Rightarrow> prev_items prev
     | Some row \<Rightarrow> applyNamedEvent (\<lambda>_. row) prev ev)"

definition carried_named_or_drop :: "(jval \<Rightarrow> jval option) \<Rightarrow> watch_event \<Rightarrow> jval option" where
  "carried_named_or_drop toRow ev = (if \<not> truthy (ev_object ev) then None
     else case toRow (ev_object ev) of
       None \<Rightarrow> None
     | Some row \<Rightarrow> if truthy (jget row ''name'') then Some row else None)"

lemma applyNamedOrDrop_feed:
  "row_feed (applyNamedOrDrop toRow) (carried_named_or_drop toRow)
     (\<lambda>x r. js_eq (jget x ''name'') (jget r ''name'')) (\<lambda>r. jget r ''name'') named_row"
proof unfold_locales
  fix x r assume "named_row x" "named_row r"
  then show "js_eq (jget x ''name'') (jget r ''name'') \<longleftrightarrow> jget x ''name'' = jget r ''name''"
    by (auto simp: named_row_def elim!: is_stringE)
qed (auto simp: applyNamedOrDrop_def carried_named_or_drop_def applyNamedEvent_def Let_def split: option.splits if_splits)

text \<open>A normalizer that never throws is one that may: the two bodies agree.\<close>

lemma applyNamespacedEvent_or_drop: "applyNamespacedEvent toRow = applyOrDrop (\<lambda>obj. Some (toRow obj))"
  by (auto simp: fun_eq_iff applyOrDrop_def applyNamespacedEvent_def Let_def)

lemma applyNamedEvent_or_drop: "applyNamedEvent toRow = applyNamedOrDrop (\<lambda>obj. Some (toRow obj))"
  by (auto simp: fun_eq_iff applyNamedOrDrop_def applyNamedEvent_def Let_def)

interpretation dropping: row_feed "applyOrDrop toRow" "carried_or_drop toRow" "\<lambda>x r. ns_key x = ns_key r" ns_key "\<lambda>_. True"
  for toRow by (rule applyOrDrop_feed)

interpretation named_dropping: row_feed "applyNamedOrDrop toRow" "carried_named_or_drop toRow"
    "\<lambda>x r. js_eq (jget x ''name'') (jget r ''name'')" "\<lambda>r. jget r ''name''" named_row
  for toRow by (rule applyNamedOrDrop_feed)

section \<open>Evaluation\<close>

lemmas row_evals = empty_obj_def jfind_def jhead_def map_truthy_def meta_of_def spec_of_def status_of_def name_of_def
  namespace_of_def labels_of_def created_of_def owner_row_def is_named_row_def

text \<open>A row whose names are texts keeps them through any normalizer that reads them as \<open>name_of\<close> does.\<close>

lemma name_of_row: "is_string (jget obj ''name'') \<Longrightarrow> jget obj ''metadata'' = JUndef \<Longrightarrow> name_of obj = jget obj ''name''"
  by (cases "jget obj ''name''") (auto simp: name_of_def meta_of_def empty_obj_def)

end
