(* ===== verification/Rows_Workloads.thy ===== *)
theory Rows_Workloads
  imports Row_Values
begin

text \<open>
  The rows of the workload lists: the normalizers and apply functions under
  \<^verbatim>\<open>frontend/src/pages/workloads/\<close>, one subsection per kind, with the status rules they use. Each apply
  function is an interpretation of \<open>row_feed\<close>.
\<close>

section \<open>Deployments\<close>

definition deploymentStatusOf :: "jval \<Rightarrow> jval \<times> jval" where
  "deploymentStatusOf conditions =
     (let list = elems conditions;
          progressing = jfind (\<lambda>c. js_eq (jget c ''type'') (JStr ''Progressing'')) list in
      if js_eq (jget progressing ''status'') (JStr ''False'')
      then (JStr ''Failed'', jnn (jget progressing ''reason'') (JStr []))
      else let available = jfind (\<lambda>c. js_eq (jget c ''type'') (JStr ''Available'')) list in
        (JStr (if js_eq (jget available ''status'') (JStr ''True'') then ''Available'' else ''Progressing''), JStr []))"

definition normalizeWatchDeploymentObject :: "jval \<Rightarrow> jval" where
  "normalizeWatchDeploymentObject obj =
     (if is_named_row obj \<and> is_number (jget obj ''replicas'') then obj
      else
        let spec = spec_of obj; status = status_of obj;
            containers = elems (jpath spec [''template'', ''spec'', ''containers'']);
            images = map_truthy (\<lambda>c. jget c ''image'') containers;
            (summary, reason) = deploymentStatusOf (jget status ''conditions'') in
        JObj [(''name'', name_of obj), (''namespace'', namespace_of obj),
          (''replicas'', jnn (jget spec ''replicas'') (JNum 0)),
          (''ready_replicas'', jnn (jget status ''readyReplicas'') (JNum 0)),
          (''available_replicas'', jnn (jget status ''availableReplicas'') (JNum 0)),
          (''updated_replicas'', jnn (jget status ''updatedReplicas'') (JNum 0)),
          (''unavailable_replicas'', jnn (jget status ''unavailableReplicas'') (JNum 0)),
          (''progressing_reason'', reason), (''image'', jnn (jhead images) (JStr [])), (''images'', JArr images),
          (''labels'', labels_of obj empty_obj),
          (''selector'', jnns [jpath spec [''selector'', ''matchLabels''], jget obj ''selector'', empty_obj]),
          (''created_at'', created_of obj JNull), (''status'', summary)])"

definition applyDeploymentWatchEvent :: "jval list option \<Rightarrow> watch_event \<Rightarrow> jval list" where
  "applyDeploymentWatchEvent = applyNamespacedEvent normalizeWatchDeploymentObject"

section \<open>DaemonSets\<close>

text \<open>The server's rule for DaemonSets and ReplicaSets alike.\<close>

definition replica_status :: "jval \<Rightarrow> jval \<Rightarrow> jval \<Rightarrow> jval" where
  "replica_status desired0 available ready =
     (let desired = jor desired0 (JNum 0) in
      if js_eq desired (JNum 0) then JStr ''Idle''
      else if js_eq (jor available (JNum 0)) (JNum 0) then JStr ''Unavailable''
      else if js_less (jor ready (JNum 0)) desired then JStr ''Degraded'' else JStr ''Healthy'')"

definition computeDaemonSetStatus :: "jval \<Rightarrow> jval \<Rightarrow> jval \<Rightarrow> jval" where
  "computeDaemonSetStatus desired ready available = replica_status desired available ready"

definition normalizeWatchDaemonSetObject :: "jval \<Rightarrow> jval" where
  "normalizeWatchDaemonSetObject obj =
     (if is_named_row obj \<and> is_number (jget obj ''desired'') then obj
      else
        let status = status_of obj;
            templateSpec = jnn (jpath (spec_of obj) [''template'', ''spec'']) empty_obj;
            desired = jnns [jget status ''desiredNumberScheduled'', jget status ''desired_number_scheduled'', JNum 0];
            current = jnns [jget status ''currentNumberScheduled'', jget status ''current_number_scheduled'', JNum 0];
            ready = jnns [jget status ''numberReady'', jget status ''number_ready'', JNum 0];
            updated = jnns [jget status ''updatedNumberScheduled'', jget status ''updated_number_scheduled'', JNum 0];
            available = jnns [jget status ''numberAvailable'', jget status ''number_available'', JNum 0];
            misscheduled = jnns [jget status ''numberMisscheduled'', jget status ''number_misscheduled'', JNum 0];
            unavailable = jnns [jget status ''numberUnavailable'', jget status ''number_unavailable'',
              js_max (js_sub desired ready) (JNum 0)];
            images = map_truthy (\<lambda>c. jget c ''image'') (elems (jget templateSpec ''containers'')) in
        JObj [(''name'', name_of obj), (''namespace'', namespace_of obj), (''desired'', desired), (''current'', current),
          (''ready'', ready), (''updated'', updated), (''available'', available), (''misscheduled'', misscheduled),
          (''unavailable'', unavailable),
          (''node_selector'', jnns [jget templateSpec ''nodeSelector'', jget obj ''node_selector'', empty_obj]),
          (''images'', JArr images), (''status'', computeDaemonSetStatus desired ready available),
          (''created_at'', created_of obj JNull)])"

definition applyDaemonSetWatchEvent :: "jval list option \<Rightarrow> watch_event \<Rightarrow> jval list" where
  "applyDaemonSetWatchEvent = applyNamespacedEvent normalizeWatchDaemonSetObject"

section \<open>ReplicaSets\<close>

definition computeReplicaSetStatus :: "jval \<Rightarrow> jval \<Rightarrow> jval \<Rightarrow> jval" where
  "computeReplicaSetStatus replicas ready_replicas available_replicas = replica_status replicas available_replicas ready_replicas"

definition normalizeWatchReplicaSetObject :: "jval \<Rightarrow> jval" where
  "normalizeWatchReplicaSetObject obj =
     (if is_named_row obj \<and> is_number (jget obj ''replicas'') then obj
      else
        let spec = spec_of obj; status = status_of obj;
            templateSpec = jnn (jpath spec [''template'', ''spec'']) empty_obj;
            containers = elems (jget templateSpec ''containers'');
            replicas = jnn (jget spec ''replicas'') (JNum 0);
            currentReplicas = jnn (jget status ''replicas'') (JNum 0);
            readyReplicas = jnn (jget status ''readyReplicas'') (JNum 0);
            availableReplicas = jnn (jget status ''availableReplicas'') (JNum 0);
            ownerReferences = elems (jnn (jget (meta_of obj) ''ownerReferences'') (jget obj ''owner_references''));
            ownerDeployment = jnn (jget (jfind (\<lambda>r. js_eq (jget r ''kind'') (JStr ''Deployment'')) ownerReferences) ''name'') (JStr []);
            selector = jnn (jpath spec [''selector'', ''matchLabels'']) empty_obj;
            images = map_truthy (\<lambda>c. jget c ''image'') containers;
            containerNames = map_truthy (\<lambda>c. jget c ''name'') containers in
        JObj [(''name'', name_of obj), (''namespace'', namespace_of obj), (''current_replicas'', currentReplicas),
          (''replicas'', replicas), (''ready_replicas'', readyReplicas), (''available_replicas'', availableReplicas),
          (''image'', jnn (jhead images) (JStr [])), (''images'', JArr images), (''containers'', JArr containerNames),
          (''owner_deployment'', ownerDeployment), (''owner_references'', JArr (map owner_row ownerReferences)),
          (''labels'', labels_of obj empty_obj), (''selector'', selector), (''created_at'', created_of obj JNull),
          (''status'', computeReplicaSetStatus replicas readyReplicas availableReplicas)])"

definition applyReplicaSetWatchEvent :: "jval list option \<Rightarrow> watch_event \<Rightarrow> jval list" where
  "applyReplicaSetWatchEvent = applyNamespacedEvent normalizeWatchReplicaSetObject"

section \<open>Jobs\<close>

definition statusOfObject :: "jval \<Rightarrow> bool \<Rightarrow> string" where
  "statusOfObject conditions deleting =
     (let holds = (\<lambda>t. js_eq (jget (jfind (\<lambda>c. js_eq (jget c ''type'') (JStr t)) (elems conditions)) ''status'') (JStr ''True'')) in
      if holds ''Complete'' then ''Complete''
      else if holds ''Failed'' then ''Failed''
      else if deleting then ''Terminating''
      else if holds ''Suspended'' then ''Suspended''
      else if holds ''FailureTarget'' then ''FailureTarget''
      else if holds ''SuccessCriteriaMet'' then ''SuccessCriteriaMet''
      else ''Running'')"

definition completionsOfObject :: "jval \<Rightarrow> jval \<Rightarrow> jval \<Rightarrow> string" where
  "completionsOfObject completions parallelism succeeded =
     (let done = jstr (to_number (jnn succeeded (JNum 0))) in
      if \<not> nullish completions then done @ ''/'' @ jstr completions
      else if js_less (JNum 1) (to_number (jnn parallelism (JNum 0))) then done @ ''/1 of '' @ jstr parallelism
      else done @ ''/1'')"

text \<open>
  \<open>time_of\<close> is \<^verbatim>\<open>new Date(s).getTime()\<close>, \<open>None\<close> where it is not a number: which texts are dates is up to
  the browser.
\<close>

definition job_duration :: "(string \<Rightarrow> int option) \<Rightarrow> jval \<Rightarrow> jval \<Rightarrow> jval" where
  "job_duration time_of startTime completionTime =
     (case (startTime, completionTime) of
        (JStr s, JStr e) \<Rightarrow>
          if s = [] \<or> e = [] then JNull
          else (case (time_of s, time_of e) of
             (Some start, Some end) \<Rightarrow> if end \<ge> start then JNum ((end - start) div 1000) else JNull
           | _ \<Rightarrow> JNull)
      | _ \<Rightarrow> JNull)"

definition job_time :: "jval \<Rightarrow> jval" where
  "job_time v = (if truthy v then JStr (jstr v) else JNull)"

definition normalizeWatchJobObject :: "(string \<Rightarrow> int option) \<Rightarrow> jval \<Rightarrow> jval" where
  "normalizeWatchJobObject time_of obj =
     (if is_named_row obj \<and> is_string (jget obj ''status'') then obj
      else
        let metadata = meta_of obj; spec = spec_of obj; status = status_of obj;
            templateSpec = jnn (jpath spec [''template'', ''spec'']) empty_obj;
            containers = elems (jget templateSpec ''containers'');
            startTime = job_time (jget status ''startTime'');
            completionTime = job_time (jget status ''completionTime'');
            durationSeconds = job_duration time_of startTime completionTime;
            rawOwnerRefs = (if is_array (jget metadata ''ownerReferences'') then elems (jget metadata ''ownerReferences'')
              else elems (jget obj ''owner_references'')) in
        JObj [(''name'', name_of obj), (''namespace'', namespace_of obj),
          (''completions'', jnns [jget spec ''completions'', jget obj ''completions'', JNull]),
          (''completions_text'', JStr (completionsOfObject (jnn (jget spec ''completions'') (jget obj ''completions''))
             (jnn (jget spec ''parallelism'') (jget obj ''parallelism'')) (jnn (jget status ''succeeded'') (jget obj ''succeeded'')))),
          (''parallelism'', jnns [jget spec ''parallelism'', jget obj ''parallelism'', JNull]),
          (''active'', jnns [jget status ''active'', jget obj ''active'', JNum 0]),
          (''succeeded'', jnns [jget status ''succeeded'', jget obj ''succeeded'', JNum 0]),
          (''failed'', jnns [jget status ''failed'', jget obj ''failed'', JNum 0]),
          (''status'', JStr (statusOfObject (jget status ''conditions'') (truthy (jget metadata ''deletionTimestamp'')))),
          (''containers'', JArr (map_truthy (\<lambda>c. jget c ''name'') containers)),
          (''images'', JArr (map_truthy (\<lambda>c. jget c ''image'') containers)),
          (''start_time'', jnns [startTime, jget obj ''start_time'', JNull]),
          (''completion_time'', jnns [completionTime, jget obj ''completion_time'', JNull]),
          (''duration_seconds'', jnns [durationSeconds, jget obj ''duration_seconds'', JNull]),
          (''created_at'', created_of obj JNull), (''owner_references'', JArr (map owner_row rawOwnerRefs))])"

definition applyJobWatchEvent :: "(string \<Rightarrow> int option) \<Rightarrow> jval list option \<Rightarrow> watch_event \<Rightarrow> jval list" where
  "applyJobWatchEvent time_of = applyNamespacedEvent (normalizeWatchJobObject time_of)"

section \<open>CronJobs\<close>

definition normalizeWatchCronJobObject :: "jval \<Rightarrow> jval" where
  "normalizeWatchCronJobObject obj =
     (if is_named_row obj \<and> is_string (jget obj ''schedule'') then
        spread_with obj [(''suspend'', bool_of (jget obj ''suspend'')), (''active'', to_number (jor (jget obj ''active'') (JNum 0))),
          (''containers'', array_or_empty (jget obj ''containers'')), (''images'', array_or_empty (jget obj ''images''))]
      else
        let spec = spec_of obj; status = status_of obj;
            templateSpec = jnn (jpath spec [''jobTemplate'', ''spec'', ''template'', ''spec'']) empty_obj;
            containers = elems (jget templateSpec ''containers'') in
        JObj [(''name'', name_of obj), (''namespace'', namespace_of obj),
          (''schedule'', jnns [jget spec ''schedule'', jget obj ''schedule'', JStr ''-'']),
          (''suspend'', bool_of (jnns [jget spec ''suspend'', jget obj ''suspend'', JBool False])),
          (''concurrency_policy'', jnns [jget spec ''concurrencyPolicy'', jget obj ''concurrency_policy'', JNull]),
          (''active'', if is_array (jget status ''active'') then JNum (int (length (elems (jget status ''active''))))
             else to_number (jor (jget obj ''active'') (JNum 0))),
          (''last_schedule_time'', jnns [jget status ''lastScheduleTime'', jget obj ''last_schedule_time'', JNull]),
          (''last_successful_time'', jnns [jget status ''lastSuccessfulTime'', jget obj ''last_successful_time'', JNull]),
          (''time_zone'', jnns [jget spec ''timeZone'', jget obj ''time_zone'', JNull]),
          (''containers'', JArr (map_truthy (\<lambda>c. jget c ''name'') containers)),
          (''images'', JArr (map_truthy (\<lambda>c. jget c ''image'') containers)),
          (''created_at'', created_of obj JNull)])"

definition applyCronJobWatchEvent :: "jval list option \<Rightarrow> watch_event \<Rightarrow> jval list" where
  "applyCronJobWatchEvent = applyNamespacedEvent normalizeWatchCronJobObject"

section \<open>PodDisruptionBudgets\<close>

definition normalizeWatchPDBObject :: "jval \<Rightarrow> jval" where
  "normalizeWatchPDBObject obj =
     (if is_named_row obj \<and> is_number (jget obj ''current_healthy'') then obj
      else
        let spec = spec_of obj; status = status_of obj in
        JObj [(''name'', name_of obj), (''namespace'', namespace_of obj),
          (''min_available'', text_or_null (jget spec ''minAvailable'')),
          (''max_unavailable'', text_or_null (jget spec ''maxUnavailable'')),
          (''current_healthy'', jnn (jget status ''currentHealthy'') (JNum 0)),
          (''desired_healthy'', jnn (jget status ''desiredHealthy'') (JNum 0)),
          (''disruptions_allowed'', jnn (jget status ''disruptionsAllowed'') (JNum 0)),
          (''expected_pods'', jnn (jget status ''expectedPods'') (JNum 0)),
          (''selector'', jnn (jpath spec [''selector'', ''matchLabels'']) empty_obj),
          (''labels'', labels_of obj empty_obj), (''created_at'', created_of obj (JStr []))])"

definition applyPDBWatchEvent :: "jval list option \<Rightarrow> watch_event \<Rightarrow> jval list" where
  "applyPDBWatchEvent = applyRowEvent normalizeWatchPDBObject"

section \<open>HorizontalPodAutoscalers\<close>

definition target_text :: "jval \<Rightarrow> string" where
  "target_text ref = jstr (jnn (jget ref ''kind'') (JStr [])) @ ''/'' @ jstr (jnn (jget ref ''name'') (JStr []))"

definition normalizeWatchHPAObject :: "jval \<Rightarrow> jval option" where
  "normalizeWatchHPAObject obj =
     (if is_named_row obj \<and> is_number (jget obj ''max_replicas'') then Some obj
      else
        let spec = spec_of obj; status = status_of obj; scaleTargetRef = jnn (jget spec ''scaleTargetRef'') empty_obj in
        map_option (\<lambda>conditions.
          JObj [(''name'', name_of obj), (''namespace'', namespace_of obj), (''target_ref'', JStr (target_text scaleTargetRef)),
            (''target_ref_kind'', jnn (jget scaleTargetRef ''kind'') (JStr [])),
            (''target_ref_name'', jnn (jget scaleTargetRef ''name'') (JStr [])), (''labels'', labels_of obj JNull),
            (''min_replicas'', jnn (jget spec ''minReplicas'') JNull), (''max_replicas'', jnn (jget spec ''maxReplicas'') (JNum 0)),
            (''current_replicas'', jnn (jget status ''currentReplicas'') JNull),
            (''desired_replicas'', jnn (jget status ''desiredReplicas'') JNull),
            (''scaling_active'', JBool (list_ex (\<lambda>c. js_eq (jget c ''type'') (JStr ''ScalingActive'') \<and>
               js_eq (jget c ''status'') (JStr ''True'')) conditions)),
            (''metrics'', JArr []), (''conditions'', JArr []),
            (''last_scale_time'', jnn (jget status ''lastScaleTime'') JNull), (''created_at'', created_of obj (JStr []))])
          (array_of (jnn (jget status ''conditions'') (JArr []))))"

definition applyHPAWatchEvent :: "jval list option \<Rightarrow> watch_event \<Rightarrow> jval list" where
  "applyHPAWatchEvent = applyOrDrop normalizeWatchHPAObject"

section \<open>VerticalPodAutoscalers\<close>

definition normalizeWatchVPAObject :: "jval \<Rightarrow> jval" where
  "normalizeWatchVPAObject obj =
     (if is_named_row obj \<and> has_key obj ''update_mode'' then obj
      else
        let spec = spec_of obj; status = status_of obj;
            targetRef = jnn (jget spec ''targetRef'') empty_obj;
            updatePolicy = jnn (jget spec ''updatePolicy'') empty_obj;
            recommendationProvided = jfind (\<lambda>c. js_eq (jget c ''type'') (JStr ''RecommendationProvided'')) (elems (jget status ''conditions''));
            provided = (if truthy (jget recommendationProvided ''status'') then JStr (jstr (jget recommendationProvided ''status'')) else JStr []);
            recs = elems (jpath status [''recommendation'', ''containerRecommendations'']);
            cpuTarget = (if recs \<noteq> [] then jnn (jpath (jhead recs) [''target'', ''cpu'']) (JStr []) else JStr []);
            memoryTarget = (if recs \<noteq> [] then jnn (jpath (jhead recs) [''target'', ''memory'']) (JStr []) else JStr []) in
        JObj [(''name'', name_of obj), (''namespace'', namespace_of obj), (''target_ref'', JStr (target_text targetRef)),
          (''target_ref_kind'', jnn (jget targetRef ''kind'') (JStr [])), (''target_ref_name'', jnn (jget targetRef ''name'') (JStr [])),
          (''update_mode'', jnn (jget updatePolicy ''updateMode'') (JStr [])), (''cpu_target'', cpuTarget),
          (''memory_target'', memoryTarget), (''provided'', provided),
          (''labels'', jnn (jget (meta_of obj) ''labels'') (jget obj ''labels'')), (''created_at'', created_of obj (JStr [])),
          (''min_replicas'', jnn (jget updatePolicy ''minReplicas'') JNull),
          (''evict_after_oom_seconds'', jnn (jget updatePolicy ''evictAfterOOMSeconds'') JNull),
          (''startup_boost'', jnn (jget spec ''startupBoost'') JNull)])"

definition applyVPAWatchEvent :: "jval list option \<Rightarrow> watch_event \<Rightarrow> jval list" where
  "applyVPAWatchEvent = applyNamespacedEvent normalizeWatchVPAObject"

section \<open>Pods\<close>

text \<open>\<^verbatim>\<open>if (x) result.k = x\<close> for an object made only when the source has one.\<close>

definition toSerializedContainerState :: "jval \<Rightarrow> jval" where
  "toSerializedContainerState state =
     (if \<not> truthy state \<or> \<not> typeof_object state then JUndef
      else
        let waiting = jget state ''waiting''; terminated = jget state ''terminated''; running = jget state ''running'';
            result =
              (if truthy waiting then [(''waiting'', JObj [(''reason'', jnn (jget waiting ''reason'') JNull),
                 (''message'', jnn (jget waiting ''message'') JNull)])] else []) @
              (if truthy terminated then [(''terminated'', JObj [(''reason'', jnn (jget terminated ''reason'') JNull),
                 (''message'', jnn (jget terminated ''message'') JNull),
                 (''exit_code'', jnns [jget terminated ''exitCode'', jget terminated ''exit_code'', JNull]),
                 (''signal'', jnn (jget terminated ''signal'') JNull),
                 (''started_at'', jnns [jget terminated ''startedAt'', jget terminated ''started_at'', JNull]),
                 (''finished_at'', jnns [jget terminated ''finishedAt'', jget terminated ''finished_at'', JNull])])] else []) @
              (if truthy running then [(''running'', JObj [(''started_at'',
                 jnns [jget running ''startedAt'', jget running ''started_at'', JNull])])] else [])
        in if result \<noteq> [] then JObj result else JUndef)"

text \<open>\<^verbatim>\<open>specByName\<close>: the entries in order; a lookup takes the last of a name.\<close>

definition container_spec :: "jval \<Rightarrow> jval" where
  "container_spec c = JObj [(''limits'', jnn (jpath c [''resources'', ''limits'']) JNull),
     (''requests'', jnn (jpath c [''resources'', ''requests'']) JNull),
     (''ports'', JArr (map (\<lambda>p. JObj [(''name'', jnn (jget p ''name'') JNull),
        (''container_port'', jnns [jget p ''containerPort'', jget p ''container_port'', JNull]),
        (''protocol'', jnn (jget p ''protocol'') JNull)]) (elems (jget c ''ports''))))]"

definition no_spec :: jval where
  "no_spec = JObj [(''limits'', JNull), (''requests'', JNull), (''ports'', JArr [])]"

definition spec_by_name :: "jval list \<Rightarrow> jval \<Rightarrow> jval" where
  "spec_by_name specContainers name = (case List.find (\<lambda>c. js_eq (jget c ''name'') name) (rev specContainers) of
      Some c \<Rightarrow> container_spec c | None \<Rightarrow> no_spec)"

definition mapStatus :: "jval list \<Rightarrow> jval \<Rightarrow> jval" where
  "mapStatus specContainers cs =
     (let ref = spec_by_name specContainers (jget cs ''name'') in
      JObj [(''name'', jnn (jget cs ''name'') (JStr [])), (''image'', jnn (jget cs ''image'') (JStr [])),
        (''ready'', bool_of (jget cs ''ready'')),
        (''restart_count'', jnns [jget cs ''restartCount'', jget cs ''restart_count'', JNum 0]),
        (''state'', toSerializedContainerState (jget cs ''state'')),
        (''last_state'', toSerializedContainerState (jnn (jget cs ''lastState'') (jget cs ''last_state''))),
        (''limits'', jget ref ''limits''), (''requests'', jget ref ''requests''), (''ports'', jget ref ''ports'')])"

text \<open>A \<^verbatim>\<open>Set\<close> of values in order of arrival; two objects are never the same value.\<close>

definition jset_add :: "jval \<Rightarrow> jval list \<Rightarrow> jval list" where
  "jset_add v vs = (if list_ex (js_eq v) vs then vs else vs @ [v])"

definition jset_of :: "jval list \<Rightarrow> jval list" where
  "jset_of vs = fold jset_add (filter truthy vs) []"

definition iter_or_empty :: "jval \<Rightarrow> jval list option" where
  "iter_or_empty v = (if nullish v then Some [] else iter_of v)"

text \<open>The names the volumes and the environments refer to: by \<open>cm\<close> the ConfigMaps, else the Secrets.\<close>

definition volume_refs :: "bool \<Rightarrow> jval \<Rightarrow> jval list" where
  "volume_refs cm spec = concat (map (\<lambda>v.
     (if cm then jpath v [''configMap'', ''name''] else jpath v [''secret'', ''secretName'']) #
     map (\<lambda>s. jpath s [if cm then ''configMap'' else ''secret'', ''name'']) (elems (jpath v [''projected'', ''sources''])))
     (elems (jget spec ''volumes'')))"

definition collectEnv :: "bool \<Rightarrow> jval \<Rightarrow> jval list option" where
  "collectEnv cm list = (case iter_or_empty list of
      None \<Rightarrow> None
    | Some cs \<Rightarrow> map_option concat (those (map (\<lambda>c.
        case (iter_or_empty (jget c ''envFrom''), iter_or_empty (jget c ''env'')) of
          (Some envFrom, Some env) \<Rightarrow> Some
            (map (\<lambda>e. jpath e [if cm then ''configMapRef'' else ''secretRef'', ''name'']) envFrom @
             map (\<lambda>e. jpath e [''valueFrom'', if cm then ''configMapKeyRef'' else ''secretKeyRef'', ''name'']) env)
        | _ \<Rightarrow> None) cs)))"

definition pod_refs :: "bool \<Rightarrow> jval \<Rightarrow> jval \<Rightarrow> jval list option" where
  "pod_refs cm spec obj =
     (case (collectEnv cm (jget spec ''containers''), collectEnv cm (jget spec ''initContainers''), iter_or_empty (jget spec ''imagePullSecrets'')) of
        (Some envs, Some initEnvs, Some pulls) \<Rightarrow> Some (jset_of (volume_refs cm spec @ envs @ initEnvs @
          (if cm then [] else map (\<lambda>p. jget p ''name'') pulls) @
          elems (jget obj (if cm then ''config_map_refs'' else ''secret_refs''))))
      | _ \<Rightarrow> None)"

definition array_or_undef :: "jval list \<Rightarrow> jval" where
  "array_or_undef vs = (if vs \<noteq> [] then JArr vs else JUndef)"

definition claim_names :: "string \<Rightarrow> string \<Rightarrow> jval \<Rightarrow> jval \<Rightarrow> jval" where
  "claim_names field source spec obj = (if is_array (jget obj field) then jget obj field
     else array_or_undef (map_truthy (\<lambda>rc. jpath rc [''source'', source]) (elems (jget spec ''resourceClaims''))))"

definition normalizeWatchPodObject :: "jval \<Rightarrow> jval option" where
  "normalizeWatchPodObject obj =
     (if is_string (jget obj ''status'') \<and> is_string (jget obj ''namespace'') \<and> is_string (jget obj ''name'') then Some obj
      else
        let metadata = meta_of obj; spec = spec_of obj; status = status_of obj;
            specContainers = elems (jget spec ''containers'');
            rawContainerStatuses = elems (jget status ''containerStatuses'');
            rawInitStatuses = elems (jget status ''initContainerStatuses'');
            containers = (if rawContainerStatuses \<noteq> [] then map (mapStatus specContainers) rawContainerStatuses
              else elems (jget obj ''containers''));
            init_containers = (if rawInitStatuses \<noteq> [] then map (mapStatus specContainers) rawInitStatuses
              else elems (jget obj ''init_containers''));
            readyContainers = length (filter (\<lambda>c. truthy (jget c ''ready'')) containers);
            phase = jnns [jget status ''phase'', jget obj ''phase'',
              if is_string (jget obj ''status'') then jget obj ''status'' else JStr ''Unknown''];
            restartCount = foldl (\<lambda>n c. js_add n (jnn (jget c ''restart_count'') (JNum 0))) (JNum 0) containers;
            ownerReferences = (if is_array (jget metadata ''ownerReferences'') then elems (jget metadata ''ownerReferences'')
              else elems (jget obj ''owner_references'')) in
        case (pod_refs True spec obj, pod_refs False spec obj) of
          (Some cmRefs, Some secretRefs) \<Rightarrow> Some (JObj [(''name'', name_of obj), (''namespace'', namespace_of obj),
            (''status'', phase), (''phase'', phase),
            (''status_reason'', jnns [jget status ''reason'', jget obj ''status_reason'', JNull]),
            (''status_message'', jnns [jget status ''message'', jget obj ''status_message'', JNull]),
            (''node_name'', jnns [jget spec ''nodeName'', jget obj ''node_name'', JNull]),
            (''pod_ip'', jnns [jget status ''podIP'', jget obj ''pod_ip'', JNull]),
            (''containers'', JArr containers), (''init_containers'', JArr init_containers),
            (''labels'', labels_of obj empty_obj), (''created_at'', created_of obj JNull), (''restart_count'', restartCount),
            (''ready'', if containers \<noteq> [] then JStr (show_nat readyContainers @ ''/'' @ show_nat (length containers))
               else jnn (jget obj ''ready'') (JStr ''0/0'')),
            (''owner_references'', JArr (map owner_row ownerReferences)),
            (''service_account_name'', jnns [jget spec ''serviceAccountName'', jget obj ''service_account_name'', JUndef]),
            (''config_map_refs'', array_or_undef cmRefs), (''secret_refs'', array_or_undef secretRefs),
            (''priority_class_name'', jnns [jget spec ''priorityClassName'', jget obj ''priority_class_name'', JUndef]),
            (''runtime_class_name'', jnns [jget spec ''runtimeClassName'', jget obj ''runtime_class_name'', JUndef]),
            (''resource_claims'', claim_names ''resource_claims'' ''resourceClaimName'' spec obj),
            (''resource_claim_templates'', claim_names ''resource_claim_templates'' ''resourceClaimTemplateName'' spec obj)])
        | _ \<Rightarrow> None)"

definition applyPodWatchEvent :: "jval list option \<Rightarrow> watch_event \<Rightarrow> jval list" where
  "applyPodWatchEvent = applyOrDrop normalizeWatchPodObject"

end
