(* ===== verification/Rows_Network.thy ===== *)
theory Rows_Network
  imports Row_Values
begin

text \<open>
  The rows of the network lists: the normalizers and apply functions under
  \<^verbatim>\<open>frontend/src/pages/network/\<close>.
\<close>

definition iter_or_none :: "jval \<Rightarrow> jval list option" where
  "iter_or_none v = (if \<not> truthy v then Some [] else iter_of v)"

definition array_or_none :: "jval \<Rightarrow> jval list option" where
  "array_or_none v = (if \<not> truthy v then Some [] else array_of v)"

section \<open>Services\<close>

text \<open>\<^verbatim>\<open>xs.join(',')\<close> of values, null and undefined as nothing.\<close>

definition join_values :: "jval list \<Rightarrow> string" where
  "join_values xs = join '','' (map (\<lambda>x. if nullish x then [] else jstr x) xs)"

definition text_or :: "string \<Rightarrow> string \<Rightarrow> string" where
  "text_or s d = (if s \<noteq> [] then s else d)"

text \<open>The addresses are texts of the API (an address of another type would be sorted by its text).\<close>

definition externalIpCell :: "jval \<Rightarrow> jval \<Rightarrow> jval list \<Rightarrow> jval" where
  "externalIpCell type spec ingress =
     (let externalIPs = elems (jget spec ''externalIPs'') in
      if js_eq type (JStr ''ClusterIP'') \<or> js_eq type (JStr ''NodePort'') then JStr (text_or (join_values externalIPs) ''<none>'')
      else if js_eq type (JStr ''LoadBalancer'') then
        (let addresses = map jstr (map_truthy (\<lambda>i. jor (jget i ''ip'') (jget i ''hostname'')) ingress) in
         JStr (text_or (join_values (map JStr (sort (uniq addresses)) @ externalIPs)) ''<pending>''))
      else if js_eq type (JStr ''ExternalName'') then jnn (jget spec ''externalName'') (JStr [])
      else JStr ''<unknown>'')"

definition service_port :: "jval \<Rightarrow> jval" where
  "service_port p = JObj [(''name'', jget p ''name''), (''port'', jget p ''port''),
     (''target_port'', JStr (jstr (jnn (jget p ''targetPort'') (JStr ''-'')))), (''node_port'', jnn (jget p ''nodePort'') JNull),
     (''protocol'', jnn (jget p ''protocol'') (JStr ''TCP''))]"

definition normalizeWatchServiceObject :: "jval \<Rightarrow> jval" where
  "normalizeWatchServiceObject obj =
     (if is_named_row obj \<and> is_string (jget obj ''type'') \<and> is_array (jget obj ''ports'') then obj
      else
        let spec = spec_of obj; type = jnns [jget spec ''type'', jget obj ''type'', JStr ''ClusterIP''];
            ingress = elems (jpath obj [''status'', ''loadBalancer'', ''ingress'']) in
        JObj [(''name'', name_of obj), (''namespace'', namespace_of obj), (''type'', type),
          (''cluster_ip'', jnn (jget spec ''clusterIP'') (jget obj ''cluster_ip'')),
          (''external_ip'', externalIpCell type spec ingress), (''external_ips'', JArr (elems (jget spec ''externalIPs''))),
          (''load_balancer_ingress'', JArr ingress), (''ports'', JArr (map service_port (elems (jget spec ''ports'')))),
          (''selector'', jnns [jget spec ''selector'', jget obj ''selector'', empty_obj]),
          (''created_at'', created_of obj (JStr []))])"

definition applyServiceWatchEvent :: "jval list option \<Rightarrow> watch_event \<Rightarrow> jval list" where
  "applyServiceWatchEvent = applyNamespacedEvent normalizeWatchServiceObject"

section \<open>Endpoints\<close>

definition endpoint_target :: "jval \<Rightarrow> jval" where
  "endpoint_target addr = JObj [(''ip'', jget addr ''ip''), (''node_name'', jor (jget addr ''nodeName'') (jget addr ''node_name'')),
     (''target_ref'', jors [jget addr ''targetRef'', jget addr ''target_ref'', JNull])]"

definition endpoint_port :: "jval \<Rightarrow> jval" where
  "endpoint_port p = JObj [(''name'', jget p ''name''), (''port'', jget p ''port''), (''protocol'', jget p ''protocol'')]"

definition port_key :: "jval \<Rightarrow> string" where
  "port_key p = jstr (jor (jget p ''name'') (JStr [])) @ ''|'' @ jstr (jor (jget p ''port'') (JStr [])) @ ''|'' @
     jstr (jor (jget p ''protocol'') (JStr []))"

text \<open>The first of each key: a filter with the keys seen so far.\<close>

fun dedup_ports :: "string list \<Rightarrow> jval list \<Rightarrow> jval list" where
  "dedup_ports seen [] = []"
| "dedup_ports seen (p # ps) = (if port_key p \<in> set seen then dedup_ports seen ps else p # dedup_ports (port_key p # seen) ps)"

text \<open>One subset: its ready addresses, its others and its ports.\<close>

definition subset_lists :: "jval \<Rightarrow> (jval list \<times> jval list \<times> jval list) option" where
  "subset_lists sub =
     (case (iter_or_none (jget sub ''addresses''),
            iter_or_none (jor (jget sub ''notReadyAddresses'') (jget sub ''not_ready_addresses'')),
            iter_or_none (jget sub ''ports'')) of
        (Some a, Some n, Some p) \<Rightarrow> Some (a, n, p)
      | _ \<Rightarrow> None)"

definition normalizeWatchEndpointObject :: "jval \<Rightarrow> jval option" where
  "normalizeWatchEndpointObject obj =
     (if is_named_row obj \<and> is_number (jget obj ''ready_count'') \<and> is_number (jget obj ''not_ready_count'') \<and>
         is_array (jget obj ''ports'') then Some obj
      else map_option (\<lambda>lists.
        let ready = concat (map (\<lambda>(a, _, _). a) lists); notReady = concat (map (\<lambda>(_, n, _). n) lists);
            ports = map endpoint_port (concat (map (\<lambda>(_, _, p). p) lists));
            readyAddresses = map_truthy (\<lambda>a. jget a ''ip'') ready; notReadyAddresses = map_truthy (\<lambda>a. jget a ''ip'') notReady in
        JObj [(''name'', name_of obj), (''namespace'', namespace_of obj), (''ready_count'', JNum (int (length readyAddresses))),
          (''not_ready_count'', JNum (int (length notReadyAddresses))), (''ready_addresses'', JArr readyAddresses),
          (''not_ready_addresses'', JArr notReadyAddresses), (''ready_targets'', JArr (map endpoint_target ready)),
          (''not_ready_targets'', JArr (map endpoint_target notReady)), (''ports'', JArr (dedup_ports [] ports)),
          (''created_at'', created_of obj (JStr []))])
        (those (map subset_lists (elems (jget obj ''subsets'')))))"

definition applyEndpointWatchEvent :: "jval list option \<Rightarrow> watch_event \<Rightarrow> jval list" where
  "applyEndpointWatchEvent = applyOrDrop normalizeWatchEndpointObject"

section \<open>EndpointSlices\<close>

definition hintNames :: "jval \<Rightarrow> jval \<Rightarrow> jval" where
  "hintNames raw list =
     (let names = filter truthy (if is_array raw then map (\<lambda>h. jget h ''name'') (elems raw) else elems list) in
      if names \<noteq> [] then JArr names else JUndef)"

definition slice_endpoint :: "jval \<Rightarrow> jval" where
  "slice_endpoint ep =
     (let cond = jnn (jget ep ''conditions'') empty_obj; ref = jnn (jget ep ''targetRef'') (jget ep ''target_ref'');
          topology = jnn (jget ep ''topology'') empty_obj;
          forZones = hintNames (jpath ep [''hints'', ''forZones'']) (jpath ep [''hints'', ''for_zones'']);
          forNodes = hintNames (jpath ep [''hints'', ''forNodes'']) (jpath ep [''hints'', ''for_nodes'']) in
      JObj [(''addresses'', JArr (elems (jget ep ''addresses''))), (''hostname'', jget ep ''hostname''),
        (''node_name'', jor (jget ep ''nodeName'') (jget ep ''node_name'')),
        (''zone'', jors [jget ep ''zone'', jget topology ''topology.kubernetes.io/zone'',
           jget topology ''failure-domain.beta.kubernetes.io/zone'']),
        (''conditions'', JObj [(''ready'', jget cond ''ready''), (''serving'', jget cond ''serving''),
           (''terminating'', jget cond ''terminating'')]),
        (''hints'', if truthy forZones \<or> truthy forNodes then JObj [(''for_zones'', forZones), (''for_nodes'', forNodes)] else JNull),
        (''target_ref'', if truthy ref then JObj [(''kind'', jget ref ''kind''), (''name'', jget ref ''name''),
           (''namespace'', jget ref ''namespace''), (''uid'', jget ref ''uid'')] else JNull)])"

definition endpoint_ready :: "jval \<Rightarrow> bool" where
  "endpoint_ready ep \<longleftrightarrow> js_eq (jpath ep [''conditions'', ''ready'']) (JBool True) \<or> nullish (jpath ep [''conditions'', ''ready''])"

definition normalizeWatchEndpointSliceObject :: "jval \<Rightarrow> jval" where
  "normalizeWatchEndpointSliceObject obj =
     (if is_named_row obj \<and> is_number (jget obj ''endpoints_total'') \<and> is_number (jget obj ''endpoints_ready'') \<and>
         is_array (jget obj ''ports'') then
        spread_with obj [(''endpoints_not_ready'', if is_number (jget obj ''endpoints_not_ready'') then jget obj ''endpoints_not_ready''
          else js_max (js_sub (jor (jget obj ''endpoints_total'') (JNum 0)) (jor (jget obj ''endpoints_ready'') (JNum 0))) (JNum 0))]
      else
        let metadata = meta_of obj; labels = jnn (jget metadata ''labels'') empty_obj;
            annotations = jnn (jget metadata ''annotations'') empty_obj;
            endpoints = map slice_endpoint (elems (jget obj ''endpoints''));
            ready = int (length (filter endpoint_ready endpoints)); tot = int (length endpoints);
            ports = map (\<lambda>p. JObj [(''name'', jget p ''name''), (''port'', jget p ''port''), (''protocol'', jget p ''protocol''),
              (''app_protocol'', jor (jget p ''appProtocol'') (jget p ''app_protocol''))]) (elems (jget obj ''ports'')) in
        JObj [(''name'', name_of obj), (''namespace'', namespace_of obj),
          (''service_name'', jnn (jget labels ''kubernetes.io/service-name'') (jget obj ''service_name'')),
          (''managed_by'', jnn (jget labels ''endpointslice.kubernetes.io/managed-by'') (jget obj ''managed_by'')),
          (''address_type'', jnn (jget obj ''addressType'') (jget obj ''address_type'')),
          (''endpoints_total'', JNum tot), (''endpoints_ready'', JNum ready), (''endpoints_not_ready'', JNum (max (tot - ready) 0)),
          (''ports'', JArr ports), (''endpoints'', JArr endpoints), (''labels'', labels), (''annotations'', annotations),
          (''created_at'', created_of obj (JStr []))])"

definition applyEndpointSliceWatchEvent :: "jval list option \<Rightarrow> watch_event \<Rightarrow> jval list" where
  "applyEndpointSliceWatchEvent = applyNamespacedEvent normalizeWatchEndpointSliceObject"

section \<open>Ingresses\<close>

definition normalizeBackend :: "jval \<Rightarrow> jval" where
  "normalizeBackend backend =
     (if \<not> truthy backend \<or> \<not> typeof_object backend then empty_obj
      else if truthy (jget backend ''service'') then
        (let service = jget backend ''service''; portObj = jget service ''port'' in
         JObj [(''type'', JStr ''service''), (''service'', JObj [(''name'', jnn (jget service ''name'') JNull),
           (''port'', jnns [jget portObj ''number'', jget portObj ''name'', JNull])])])
      else if truthy (jget backend ''resource'') then
        JObj [(''type'', JStr ''resource''), (''resource'', jget backend ''resource'')]
      else empty_obj)"

text \<open>What a backend adds to the set of backends.\<close>

definition backend_names :: "jval \<Rightarrow> jval list" where
  "backend_names b =
     (if js_eq (jget b ''type'') (JStr ''service'') \<and> truthy (jpath b [''service'', ''name'']) then [jpath b [''service'', ''name'']]
      else if js_eq (jget b ''type'') (JStr ''resource'') then
        (let kind = jpath b [''resource'', ''kind'']; name = jpath b [''resource'', ''name''] in
         if truthy kind \<and> truthy name then [JStr (jstr kind @ '':'' @ jstr name)] else [])
      else [])"

definition ingress_path :: "jval \<Rightarrow> jval" where
  "ingress_path p = JObj [(''path'', jnn (jget p ''path'') JNull), (''path_type'', jnn (jget p ''pathType'') JNull),
     (''backend'', normalizeBackend (jget p ''backend''))]"

definition ingress_rule :: "jval \<Rightarrow> jval option" where
  "ingress_rule rule = map_option (\<lambda>paths. JObj [(''host'', jnn (jget rule ''host'') JNull), (''paths'', JArr (map ingress_path paths))])
     (array_or_none (jpath rule [''http'', ''paths'']))"

definition nonempty_string :: "jval \<Rightarrow> bool" where
  "nonempty_string v \<longleftrightarrow> is_string v \<and> v \<noteq> JStr []"

text \<open>A \<^verbatim>\<open>Set\<close> of values in order of arrival.\<close>

definition value_set :: "jval list \<Rightarrow> jval list" where
  "value_set vs = fold (\<lambda>v acc. if list_ex (js_eq v) acc then acc else acc @ [v]) vs []"

definition normalizeWatchIngressObject :: "jval \<Rightarrow> jval option" where
  "normalizeWatchIngressObject obj =
     (if is_named_row obj \<and> is_array (jget obj ''hosts'') then
        Some (spread_with obj [(''backends'', JArr (elems (jget obj ''backends''))), (''hosts'', JArr (elems (jget obj ''hosts''))),
          (''rules'', JArr (elems (jget obj ''rules''))), (''tls'', JArr (elems (jget obj ''tls''))),
          (''addresses'', JArr (elems (jget obj ''addresses''))), (''annotations'', jor (jget obj ''annotations'') empty_obj),
          (''labels'', jor (jget obj ''labels'') empty_obj)])
      else
        let metadata = meta_of obj; spec = spec_of obj; status = status_of obj;
            annotations = jnns [jget metadata ''annotations'', jget obj ''annotations'', empty_obj];
            specClass = jnn (jget spec ''ingressClassName'') JNull;
            annoClass = jnn (jget annotations ''kubernetes.io/ingress.class'') JNull;
            defaultBackend = normalizeBackend (jget spec ''defaultBackend'') in
        case (array_or_none (jpath status [''loadBalancer'', ''ingress'']), array_or_none (jget spec ''tls''),
              Option.bind (array_or_none (jget spec ''rules'')) (\<lambda>rs. those (map ingress_rule rs))) of
          (Some ing, Some tls, Some rules) \<Rightarrow>
            (let backends = concat (map (\<lambda>r. concat (map (\<lambda>p. backend_names (jget p ''backend'')) (elems (jget r ''paths'')))) rules) in
             Some (JObj [(''name'', name_of obj), (''namespace'', namespace_of obj),
               (''hosts'', JArr (filter nonempty_string (map (\<lambda>r. jget r ''host'') rules))),
               (''class'', jors [specClass, annoClass, JNull]),
               (''class_source'', if truthy specClass then JStr ''spec'' else if truthy annoClass then JStr ''annotation'' else JNull),
               (''backends'', JArr (value_set (backend_names defaultBackend @ backends))),
               (''addresses'', JArr (map (\<lambda>i. JObj [(''ip'', jnn (jget i ''ip'') JNull), (''hostname'', jnn (jget i ''hostname'') JNull)]) ing)),
               (''tls'', JArr (map (\<lambda>i. JObj [(''secret_name'', jnn (jget i ''secretName'') JNull),
                  (''hosts'', JArr (elems (jget i ''hosts'')))]) tls)),
               (''default_backend'', defaultBackend), (''rules'', JArr rules), (''labels'', labels_of obj empty_obj),
               (''annotations'', annotations), (''created_at'', created_of obj JNull)]))
        | _ \<Rightarrow> None)"

definition applyIngressWatchEvent :: "jval list option \<Rightarrow> watch_event \<Rightarrow> jval list" where
  "applyIngressWatchEvent = applyOrDrop normalizeWatchIngressObject"

section \<open>NetworkPolicies\<close>

definition normalizeSelector :: "jval \<Rightarrow> jval" where
  "normalizeSelector raw =
     (if \<not> truthy raw then JObj [(''match_labels'', empty_obj), (''match_expressions'', JArr [])]
      else
        JObj [(''match_labels'', JObj (spread (jors [jget raw ''match_labels'', jget raw ''matchLabels'', empty_obj]))),
          (''match_expressions'', JArr (map (\<lambda>expr. JObj [(''key'', jget expr ''key''), (''operator'', jget expr ''operator''),
             (''values'', if is_array (jget expr ''values'') then jget expr ''values'' else JNull)])
             (elems (jors [jget raw ''match_expressions'', jget raw ''matchExpressions'', JArr []]))))])"

definition normalizePeer :: "jval \<Rightarrow> jval" where
  "normalizePeer peer =
     (let ipBlockRaw = jor (jget peer ''ip_block'') (jget peer ''ipBlock'');
          selector = (\<lambda>a b. if truthy (jget peer a) then normalizeSelector (jget peer a)
            else if truthy (jget peer b) then normalizeSelector (jget peer b) else JNull) in
      JObj [(''ip_block'', if truthy ipBlockRaw then JObj [(''cidr'', jget ipBlockRaw ''cidr''),
           (''except'', JArr (elems (jget ipBlockRaw ''except'')))] else JNull),
        (''namespace_selector'', selector ''namespace_selector'' ''namespaceSelector''),
        (''pod_selector'', selector ''pod_selector'' ''podSelector'')])"

definition normalizePorts :: "jval \<Rightarrow> jval" where
  "normalizePorts ports = JArr (map (\<lambda>port. JObj [(''protocol'', jget port ''protocol''),
     (''port'', if nullish (jget port ''port'') then JNull else JStr (jstr (jget port ''port''))),
     (''end_port'', jnns [jget port ''end_port'', jget port ''endPort'', JNull])]) (elems ports))"

definition policy_rule :: "string \<Rightarrow> jval \<Rightarrow> jval" where
  "policy_rule side rule = JObj [(side, JArr (map normalizePeer (elems (jget rule side)))), (''ports'', normalizePorts (jget rule ''ports''))]"

definition normalizeWatchNetworkPolicyObject :: "jval \<Rightarrow> jval" where
  "normalizeWatchNetworkPolicyObject obj =
     (if is_named_row obj \<and> truthy (jget obj ''pod_selector'') \<and> is_array (jget obj ''policy_types'') then obj
      else
        let metadata = meta_of obj; spec = spec_of obj;
            ingress = map (policy_rule ''from'') (elems (jget spec ''ingress''));
            egress = map (policy_rule ''to'') (elems (jget spec ''egress''));
            policyTypes = (if is_array (jget spec ''policyTypes'') then elems (jget spec ''policyTypes'') else elems (jget spec ''policy_types''));
            selLabels = jors [jpath spec [''podSelector'', ''matchLabels''], jpath spec [''pod_selector'', ''match_labels''], empty_obj];
            selExpressions = jors [jpath spec [''podSelector'', ''matchExpressions''], jpath spec [''pod_selector'', ''match_expressions''], JArr []] in
        JObj [(''name'', name_of obj), (''namespace'', namespace_of obj),
          (''pod_selector'', normalizeSelector (jnn (jget spec ''podSelector'') (jget spec ''pod_selector''))),
          (''selects_all_pods'', JBool (spread selLabels = [] \<and> js_eq (js_length selExpressions) (JNum 0))),
          (''policy_types'', JArr policyTypes),
          (''default_deny_ingress'', JBool (JStr ''Ingress'' \<in> set policyTypes \<and> ingress = [])),
          (''default_deny_egress'', JBool (JStr ''Egress'' \<in> set policyTypes \<and> egress = [])),
          (''ingress_rules'', JNum (int (length ingress))), (''egress_rules'', JNum (int (length egress))),
          (''ingress'', JArr ingress), (''egress'', JArr egress),
          (''labels'', jors [jget metadata ''labels'', jget obj ''labels'', empty_obj]),
          (''annotations'', jors [jget metadata ''annotations'', jget obj ''annotations'', empty_obj]),
          (''finalizers'', jor (jget metadata ''finalizers'') (JArr [])), (''created_at'', created_of obj (JStr []))])"

definition applyNetworkPolicyWatchEvent :: "jval list option \<Rightarrow> watch_event \<Rightarrow> jval list" where
  "applyNetworkPolicyWatchEvent = applyNamespacedEvent normalizeWatchNetworkPolicyObject"

text \<open>The policy open in the drawer takes the frame's row, keeping what only the drawer reads.\<close>

definition applyNetworkPolicyToDrawer :: "jval \<Rightarrow> watch_event \<Rightarrow> string \<Rightarrow> jval" where
  "applyNetworkPolicyToDrawer prev ev name =
     (if \<not> truthy (ev_object ev) \<or> is_deleted ev then prev
      else let row = normalizeWatchNetworkPolicyObject (ev_object ev) in
        if \<not> js_eq (jget row ''name'') (JStr name) then prev
        else let old = jnn prev empty_obj; events = jget old ''events''; events_error = jget old ''events_error'' in
          spread_with row ((if events \<noteq> JUndef then [(''events'', events)] else []) @
            (if events_error \<noteq> JUndef then [(''events_error'', events_error)] else [])))"

section \<open>IngressClasses\<close>

definition normalizeWatchIngressClassObject :: "jval \<Rightarrow> jval" where
  "normalizeWatchIngressClassObject obj =
     (if is_string (jget obj ''name'') \<and> has_key obj ''is_default'' then
        spread_with obj [(''labels'', jor (jget obj ''labels'') empty_obj), (''annotations'', jor (jget obj ''annotations'') empty_obj),
          (''finalizers'', JArr (elems (jget obj ''finalizers'')))]
      else
        let metadata = meta_of obj; spec = spec_of obj;
            annotations = jnns [jget metadata ''annotations'', jget obj ''annotations'', empty_obj];
            parameters = jget spec ''parameters'' in
        JObj [(''name'', name_of obj), (''controller'', jnn (jget spec ''controller'') JNull),
          (''is_default'', JBool (js_eq (jget annotations ''ingressclass.kubernetes.io/is-default-class'') (JStr ''true''))),
          (''parameters'', if truthy parameters then JObj [(''api_group'', jnn (jget parameters ''apiGroup'') JNull),
             (''kind'', jnn (jget parameters ''kind'') JNull), (''name'', jnn (jget parameters ''name'') JNull),
             (''scope'', jnn (jget parameters ''scope'') JNull), (''namespace'', jnn (jget parameters ''namespace'') JNull)] else JNull),
          (''labels'', labels_of obj empty_obj), (''annotations'', annotations),
          (''finalizers'', JArr (elems (jget metadata ''finalizers''))), (''created_at'', created_of obj JNull)])"

definition applyIngressClassWatchEvent :: "jval list option \<Rightarrow> watch_event \<Rightarrow> jval list" where
  "applyIngressClassWatchEvent = applyNamedEvent normalizeWatchIngressClassObject"

end
