(* ===== verification/Rows_Storage.thy ===== *)
theory Rows_Storage
  imports Row_Values
begin

text \<open>
  The rows of the storage and gateway lists: the normalizers and apply functions under
  \<^verbatim>\<open>frontend/src/pages/storage/\<close> and \<^verbatim>\<open>frontend/src/pages/gateway/\<close>.
\<close>

section \<open>PersistentVolumeClaims\<close>

definition normalizeWatchPvcObject :: "jval \<Rightarrow> jval" where
  "normalizeWatchPvcObject obj =
     (if is_named_row obj \<and> is_string (jget obj ''status'') then
        spread_with obj [(''access_modes'', array_or_empty (jget obj ''access_modes''))]
      else
        let spec = spec_of obj; status = status_of obj;
            bound = truthy (jget spec ''volumeName'');
            capacity = (if bound then jpath status [''capacity'', ''storage''] else JUndef);
            requested = jpath spec [''resources'', ''requests'', ''storage''] in
        JObj [(''name'', name_of obj), (''namespace'', namespace_of obj),
          (''status'', jnns [jget status ''phase'', jget obj ''status'', JStr ''Unknown'']),
          (''volume_name'', jnns [jget spec ''volumeName'', jget obj ''volume_name'', JNull]),
          (''storage_class'', jnns [jget spec ''storageClassName'', jget obj ''storage_class'', JNull]),
          (''capacity'', if \<not> nullish capacity then JStr (jstr capacity) else jnn (jget obj ''capacity'') JNull),
          (''requested'', if \<not> nullish requested then JStr (jstr requested) else jnn (jget obj ''requested'') JNull),
          (''access_modes'', if bound then array_or_empty (jget status ''accessModes'') else JArr []),
          (''requested_access_modes'', array_or_empty (jget spec ''accessModes'')), (''created_at'', created_of obj JNull)])"

definition applyPvcWatchEvent :: "jval list option \<Rightarrow> watch_event \<Rightarrow> jval list" where
  "applyPvcWatchEvent = applyNamespacedEvent normalizeWatchPvcObject"

section \<open>PersistentVolumes\<close>

definition normalizeWatchPvObject :: "jval \<Rightarrow> jval" where
  "normalizeWatchPvObject obj =
     (if is_string (jget obj ''name'') \<and> is_string (jget obj ''status'') then
        spread_with obj [(''access_modes'', array_or_empty (jget obj ''access_modes''))]
      else
        let spec = spec_of obj; status = status_of obj in
        JObj [(''name'', name_of obj), (''status'', jnn (jget status ''phase'') (JStr ''Unknown'')),
          (''capacity'', JStr (jstr (jnns [jpath spec [''capacity'', ''storage''], jget obj ''capacity'', JStr []]))),
          (''access_modes'', if is_array (jget spec ''accessModes'') then jget spec ''accessModes'' else array_or_empty (jget obj ''access_modes'')),
          (''storage_class'', jnns [jget spec ''storageClassName'', jget obj ''storage_class'', JNull]),
          (''reclaim_policy'', jnns [jget spec ''persistentVolumeReclaimPolicy'', jget obj ''reclaim_policy'', JStr ''Delete'']),
          (''claim_ref'', if truthy (jget spec ''claimRef'')
             then JObj [(''namespace'', jpath spec [''claimRef'', ''namespace'']), (''name'', jpath spec [''claimRef'', ''name''])]
             else jnn (jget obj ''claim_ref'') JNull),
          (''volume_mode'', jnns [jget spec ''volumeMode'', jget obj ''volume_mode'', JNull]),
          (''source'', jnn (jget obj ''source'') JNull), (''driver'', jnn (jget obj ''driver'') JNull),
          (''volume_handle'', jnn (jget obj ''volume_handle'') JNull), (''node_affinity'', jnn (jget obj ''node_affinity'') JNull),
          (''created_at'', created_of obj JNull)])"

definition applyPvWatchEvent :: "jval list option \<Rightarrow> watch_event \<Rightarrow> jval list" where
  "applyPvWatchEvent = applyNamedEvent normalizeWatchPvObject"

section \<open>StorageClasses\<close>

definition normalizeWatchStorageClassObject :: "jval \<Rightarrow> jval" where
  "normalizeWatchStorageClassObject obj =
     (if is_string (jget obj ''name'') \<and> is_string (jget obj ''provisioner'') then
        spread_with obj [(''parameters'', jnn (jget obj ''parameters'') empty_obj),
          (''mount_options'', array_or_empty (jget obj ''mount_options'')),
          (''allowed_topologies'', array_or_empty (jget obj ''allowed_topologies''))]
      else
        let metadata = meta_of obj; annotations = jnn (jget metadata ''annotations'') empty_obj;
            labels = jnn (jget metadata ''labels'') empty_obj;
            isDefault = (js_eq (jget annotations ''storageclass.kubernetes.io/is-default-class'') (JStr ''true'') \<or>
              js_eq (jget annotations ''storageclass.beta.kubernetes.io/is-default-class'') (JStr ''true'')) in
        JObj [(''name'', name_of obj), (''provisioner'', jnn (jget obj ''provisioner'') (JStr [])),
          (''reclaim_policy'', jnns [jget obj ''reclaimPolicy'', jget obj ''reclaim_policy'', JNull]),
          (''volume_binding_mode'', jnns [jget obj ''volumeBindingMode'', jget obj ''volume_binding_mode'', JNull]),
          (''allow_volume_expansion'', jnns [jget obj ''allowVolumeExpansion'', jget obj ''allow_volume_expansion'', JNull]),
          (''is_default'', JBool (isDefault \<or> truthy (jget obj ''is_default''))),
          (''parameters'', jnn (jget obj ''parameters'') empty_obj),
          (''mount_options'', if is_array (jget obj ''mountOptions'') then jget obj ''mountOptions'' else array_or_empty (jget obj ''mount_options'')),
          (''allowed_topologies'', array_or_empty (jget obj ''allowed_topologies'')), (''labels'', labels),
          (''annotations'', annotations), (''finalizers'', array_or_empty (jget metadata ''finalizers'')),
          (''created_at'', created_of obj JNull)])"

definition applyStorageClassWatchEvent :: "jval list option \<Rightarrow> watch_event \<Rightarrow> jval list" where
  "applyStorageClassWatchEvent = applyNamedEvent normalizeWatchStorageClassObject"

section \<open>VolumeAttachments\<close>

definition string_or_null :: "jval \<Rightarrow> jval" where
  "string_or_null v = (if is_string v then v else JNull)"

definition normalizeError :: "jval \<Rightarrow> jval" where
  "normalizeError e =
     (if \<not> truthy e then JNull
      else let message = string_or_null (jget e ''message''); time = string_or_null (jget e ''time'') in
        if \<not> truthy message \<and> \<not> truthy time then JNull else JObj [(''message'', message), (''time'', time)])"

fun bool_or_null :: "jval \<Rightarrow> jval" where
  "bool_or_null (JBool b) = JBool b"
| "bool_or_null _ = JNull"

definition normalizeWatchVolumeAttachmentObject :: "jval \<Rightarrow> jval" where
  "normalizeWatchVolumeAttachmentObject obj =
     (if is_string (jget obj ''name'') \<and> \<not> truthy (jget obj ''spec'') then
        JObj [(''name'', jget obj ''name''), (''attacher'', jnn (jget obj ''attacher'') JNull),
          (''node_name'', jnn (jget obj ''node_name'') JNull),
          (''persistent_volume_name'', jnn (jget obj ''persistent_volume_name'') JNull),
          (''attached'', bool_or_null (jget obj ''attached'')), (''attach_error'', normalizeError (jget obj ''attach_error'')),
          (''detach_error'', normalizeError (jget obj ''detach_error'')), (''created_at'', jnn (jget obj ''created_at'') JNull)]
      else
        let spec = spec_of obj; source = jnn (jget spec ''source'') empty_obj; status = status_of obj in
        JObj [(''name'', name_of obj), (''attacher'', jnn (jget spec ''attacher'') JNull),
          (''node_name'', jnns [jget spec ''nodeName'', jget spec ''node_name'', JNull]),
          (''persistent_volume_name'', jnns [jget source ''persistentVolumeName'', jget source ''persistent_volume_name'', JNull]),
          (''attached'', bool_or_null (jget status ''attached'')),
          (''attach_error'', normalizeError (jnn (jget status ''attachError'') (jget status ''attach_error''))),
          (''detach_error'', normalizeError (jnn (jget status ''detachError'') (jget status ''detach_error''))),
          (''created_at'', created_of obj JNull)])"

definition applyVolumeAttachmentWatchEvent :: "jval list option \<Rightarrow> watch_event \<Rightarrow> jval list" where
  "applyVolumeAttachmentWatchEvent = applyNamedEvent normalizeWatchVolumeAttachmentObject"

section \<open>Conditions of the Gateway API\<close>

text \<open>\<^verbatim>\<open>String(c?.status).toLowerCase() === word\<close>, and with a type.\<close>

definition status_is :: "string \<Rightarrow> jval \<Rightarrow> bool" where
  "status_is word c \<longleftrightarrow> toLowerCase (jstr (jget c ''status'')) = word"

definition condition_true :: "string \<Rightarrow> jval \<Rightarrow> bool" where
  "condition_true t c \<longleftrightarrow> jstr (jget c ''type'') = t \<and> status_is ''true'' c"

text \<open>The end of every status text: the first true condition's type, else the first false one's, else Unknown.\<close>

definition first_condition_text :: "jval list \<Rightarrow> string" where
  "first_condition_text conditions =
     (let t = jget (jfind (status_is ''true'') conditions) ''type''; f = jget (jfind (status_is ''false'') conditions) ''type'' in
      if truthy t then jstr t else if truthy f then jstr f @ ''(False)'' else ''Unknown'')"

section \<open>GatewayClasses\<close>

definition finalizers_of :: "jval \<Rightarrow> jval" where
  "finalizers_of obj = (if is_array (jget (meta_of obj) ''finalizers'') then jget (meta_of obj) ''finalizers''
     else jor (jget obj ''finalizers'') (JArr []))"

definition annotations_of :: "jval \<Rightarrow> jval" where
  "annotations_of obj = jnns [jget (meta_of obj) ''annotations'', jget obj ''annotations'', empty_obj]"

definition api_version_of :: "jval \<Rightarrow> jval" where
  "api_version_of obj = jnns [jget obj ''apiVersion'', jget obj ''api_version'', JNull]"

definition normalizeWatchGatewayClassObject :: "jval \<Rightarrow> jval" where
  "normalizeWatchGatewayClassObject obj =
     (if is_string (jget obj ''name'') \<and> has_key obj ''controller_name'' then
        spread_with obj [(''parameters_ref'', jor (jget obj ''parameters_ref'') JNull), (''conditions'', array_or_empty (jget obj ''conditions'')),
          (''labels'', jor (jget obj ''labels'') empty_obj), (''annotations'', jor (jget obj ''annotations'') empty_obj),
          (''finalizers'', array_or_empty (jget obj ''finalizers''))]
      else
        let spec = spec_of obj; conditions = elems (jget (status_of obj) ''conditions'');
            accepted = list_ex (condition_true ''Accepted'') conditions in
        JObj [(''name'', name_of obj), (''controller_name'', jnns [jget spec ''controllerName'', jget obj ''controller_name'', JNull]),
          (''description'', jnns [jget spec ''description'', jget obj ''description'', JNull]), (''accepted'', JBool accepted),
          (''status'', JStr (if accepted then ''Accepted'' else first_condition_text conditions)),
          (''parameters_ref'', jnns [jget spec ''parametersRef'', jget obj ''parameters_ref'', JNull]),
          (''conditions'', JArr conditions), (''labels'', labels_of obj empty_obj), (''annotations'', annotations_of obj),
          (''finalizers'', finalizers_of obj), (''created_at'', created_of obj JNull), (''api_version'', api_version_of obj)])"

definition applyGatewayClassWatchEvent :: "jval list option \<Rightarrow> watch_event \<Rightarrow> jval list" where
  "applyGatewayClassWatchEvent = applyNamedEvent normalizeWatchGatewayClassObject"

section \<open>Gateways\<close>

definition inferGatewayStatus :: "jval list \<Rightarrow> string" where
  "inferGatewayStatus conditions =
     (if list_ex (condition_true ''Programmed'') conditions then ''Programmed''
      else if list_ex (condition_true ''Accepted'') conditions then ''Accepted''
      else first_condition_text conditions)"

definition attached_routes :: "jval list \<Rightarrow> int" where
  "attached_routes statusListeners = foldl (\<lambda>n item.
     case to_number (jors [jget item ''attachedRoutes'', jget item ''attached_routes'', JNum 0]) of JNum v \<Rightarrow> n + v | _ \<Rightarrow> n)
     0 statusListeners"

definition normalizeWatchGatewayObject :: "jval \<Rightarrow> jval" where
  "normalizeWatchGatewayObject obj =
     (if is_named_row obj \<and> is_number (jget obj ''listeners_count'') then
        spread_with obj [(''listeners_count'', to_number (jor (jget obj ''listeners_count'') (JNum 0))),
          (''attached_routes'', to_number (jor (jget obj ''attached_routes'') (JNum 0))),
          (''addresses_count'', to_number (jor (jget obj ''addresses_count'') (JNum 0))),
          (''listeners'', array_or_empty (jget obj ''listeners'')), (''status_listeners'', array_or_empty (jget obj ''status_listeners'')),
          (''addresses'', array_or_empty (jget obj ''addresses'')), (''conditions'', array_or_empty (jget obj ''conditions'')),
          (''labels'', jor (jget obj ''labels'') empty_obj), (''annotations'', jor (jget obj ''annotations'') empty_obj),
          (''finalizers'', array_or_empty (jget obj ''finalizers''))]
      else
        let metadata = meta_of obj; spec = spec_of obj; status = status_of obj; listeners = elems (jget spec ''listeners'');
            statusListeners = elems (jget status ''listeners''); addresses = elems (jget status ''addresses'');
            conditions = elems (jget status ''conditions'') in
        JObj [(''name'', name_of obj), (''namespace'', namespace_of obj),
          (''gateway_class_name'', jnns [jget spec ''gatewayClassName'', jget obj ''gateway_class_name'', JNull]),
          (''listeners_count'', JNum (int (length listeners))), (''attached_routes'', JNum (attached_routes statusListeners)),
          (''addresses_count'', JNum (int (length addresses))), (''status'', JStr (inferGatewayStatus conditions)),
          (''programmed'', JBool (list_ex (condition_true ''Programmed'') conditions)),
          (''accepted'', JBool (list_ex (condition_true ''Accepted'') conditions)), (''listeners'', JArr listeners),
          (''status_listeners'', JArr statusListeners), (''addresses'', JArr addresses), (''conditions'', JArr conditions),
          (''labels'', jor (jget metadata ''labels'') empty_obj), (''annotations'', jor (jget metadata ''annotations'') empty_obj),
          (''finalizers'', jor (jget metadata ''finalizers'') (JArr [])), (''created_at'', created_of obj JNull),
          (''api_version'', api_version_of obj)])"

definition applyGatewayWatchEvent :: "jval list option \<Rightarrow> watch_event \<Rightarrow> jval list" where
  "applyGatewayWatchEvent = applyNamespacedEvent normalizeWatchGatewayObject"

section \<open>HTTPRoutes and GRPCRoutes\<close>

text \<open>The two files hold the same function for two kinds.\<close>

definition route_conditions :: "jval list \<Rightarrow> jval list" where
  "route_conditions parents = concat (map (\<lambda>parent.
     filter (\<lambda>c. truthy c \<and> typeof_object c) (elems (jget parent ''conditions''))) parents)"

definition route_row :: "jval \<Rightarrow> jval" where
  "route_row obj =
     (if is_named_row obj \<and> has_key obj ''rule_count'' then
        spread_with obj [(''hostnames'', array_or_empty (jget obj ''hostnames'')), (''parent_refs'', array_or_empty (jget obj ''parent_refs'')),
          (''rules'', array_or_empty (jget obj ''rules'')), (''parents'', array_or_empty (jget obj ''parents'')),
          (''conditions'', array_or_empty (jget obj ''conditions'')), (''labels'', jor (jget obj ''labels'') empty_obj),
          (''annotations'', jor (jget obj ''annotations'') empty_obj), (''finalizers'', array_or_empty (jget obj ''finalizers''))]
      else
        let spec = spec_of obj; rules = elems (jget spec ''rules''); parentRefs = elems (jget spec ''parentRefs'');
            parents = elems (jget (status_of obj) ''parents'');
            backendRefsCount = sum_list (map (\<lambda>rule. length (elems (jget rule ''backendRefs''))) rules);
            conditions = route_conditions parents;
            accepted = list_ex (condition_true ''Accepted'') conditions;
            resolvedRefs = list_ex (condition_true ''ResolvedRefs'') conditions in
        JObj [(''name'', name_of obj), (''namespace'', namespace_of obj), (''hostnames'', array_or_empty (jget spec ''hostnames'')),
          (''parent_refs'', JArr parentRefs), (''rules'', JArr rules), (''parents'', JArr parents),
          (''rule_count'', JNum (int (length rules))), (''parent_refs_count'', JNum (int (length parentRefs))),
          (''backend_refs_count'', JNum (int backendRefsCount)),
          (''status'', JStr (if accepted then ''Accepted'' else if resolvedRefs then ''ResolvedRefs'' else first_condition_text conditions)),
          (''accepted'', JBool accepted), (''resolved_refs'', JBool resolvedRefs), (''conditions'', JArr conditions),
          (''labels'', labels_of obj empty_obj), (''annotations'', annotations_of obj), (''finalizers'', finalizers_of obj),
          (''created_at'', created_of obj JNull), (''api_version'', api_version_of obj)])"

definition normalizeWatchHTTPRouteObject :: "jval \<Rightarrow> jval" where
  "normalizeWatchHTTPRouteObject obj = route_row obj"

definition applyHTTPRouteWatchEvent :: "jval list option \<Rightarrow> watch_event \<Rightarrow> jval list" where
  "applyHTTPRouteWatchEvent = applyNamespacedEvent normalizeWatchHTTPRouteObject"

definition normalizeWatchGRPCRouteObject :: "jval \<Rightarrow> jval" where
  "normalizeWatchGRPCRouteObject obj = route_row obj"

definition applyGRPCRouteWatchEvent :: "jval list option \<Rightarrow> watch_event \<Rightarrow> jval list" where
  "applyGRPCRouteWatchEvent = applyNamespacedEvent normalizeWatchGRPCRouteObject"

section \<open>ReferenceGrants\<close>

definition normalizeWatchReferenceGrantObject :: "jval \<Rightarrow> jval" where
  "normalizeWatchReferenceGrantObject obj =
     (if is_named_row obj \<and> (is_array (jget obj ''from'') \<or> is_array (jget obj ''to'')) then
        spread_with obj [(''from'', array_or_empty (jget obj ''from'')), (''to'', array_or_empty (jget obj ''to'')),
          (''labels'', jor (jget obj ''labels'') empty_obj), (''annotations'', jor (jget obj ''annotations'') empty_obj)]
      else
        let spec = spec_of obj in
        JObj [(''name'', name_of obj), (''namespace'', namespace_of obj), (''from'', array_or_empty (jget spec ''from'')),
          (''to'', array_or_empty (jget spec ''to'')), (''labels'', labels_of obj empty_obj), (''annotations'', annotations_of obj),
          (''created_at'', created_of obj JNull), (''api_version'', api_version_of obj)])"

definition applyReferenceGrantWatchEvent :: "jval list option \<Rightarrow> watch_event \<Rightarrow> jval list" where
  "applyReferenceGrantWatchEvent = applyNamespacedEvent normalizeWatchReferenceGrantObject"

end
