(* ===== verification/Rows_Cluster.thy ===== *)
theory Rows_Cluster
  imports Row_Values
begin

text \<open>
  The rows of the configuration, security, cluster, GPU and custom resource lists, and of the gateway backend
  policies: the normalizers and apply functions under \<^verbatim>\<open>frontend/src/pages/configuration/\<close>,
  \<^verbatim>\<open>pages/security/\<close>, \<^verbatim>\<open>pages/cluster/\<close>, \<^verbatim>\<open>pages/gpu/\<close>, \<^verbatim>\<open>pages/custom-resources/\<close> and
  \<^verbatim>\<open>pages/gateway/backend-policies/\<close>.
\<close>

text \<open>\<^verbatim>\<open>Object.keys(v)\<close>, \<^verbatim>\<open>metadata?.annotations ?? obj?.annotations ?? null\<close>.\<close>

definition key_names :: "jval \<Rightarrow> jval list" where
  "key_names v = map (\<lambda>(k, _). JStr k) (spread v)"

definition annotations_or_null :: "jval \<Rightarrow> jval" where
  "annotations_or_null obj = jnns [jget (meta_of obj) ''annotations'', jget obj ''annotations'', JNull]"

section \<open>ConfigMaps and Secrets\<close>

definition normalizeWatchConfigMapObject :: "jval \<Rightarrow> jval" where
  "normalizeWatchConfigMapObject obj =
     (if is_named_row obj \<and> is_number (jget obj ''data_count'') then obj
      else
        let data = jnn (jget obj ''data'') empty_obj in
        JObj [(''name'', name_of obj), (''namespace'', namespace_of obj),
          (''data_count'', if is_number (jget obj ''data_count'') then jget obj ''data_count'' else JNum (int (length (key_names data)))),
          (''data_keys'', jnn (jget obj ''data_keys'') (JArr (key_names data))),
          (''binary_keys'', jnn (jget obj ''binary_keys'') (JArr [])),
          (''labels'', labels_of obj JNull), (''created_at'', created_of obj (JStr []))])"

definition applyConfigMapWatchEvent :: "jval list option \<Rightarrow> watch_event \<Rightarrow> jval list" where
  "applyConfigMapWatchEvent = applyNamespacedEvent normalizeWatchConfigMapObject"

definition normalizeWatchSecretObject :: "jval \<Rightarrow> jval" where
  "normalizeWatchSecretObject obj =
     (if is_named_row obj \<and> is_string (jget obj ''type'') then obj
      else
        let data = jnn (jget obj ''data'') empty_obj in
        JObj [(''name'', name_of obj), (''namespace'', namespace_of obj), (''type'', jnn (jget obj ''type'') (JStr [])),
          (''data_count'', JNum (int (length (key_names data)))), (''data_keys'', JArr (key_names data)),
          (''created_at'', created_of obj (JStr [])), (''labels'', labels_of obj JNull)])"

definition applySecretWatchEvent :: "jval list option \<Rightarrow> watch_event \<Rightarrow> jval list" where
  "applySecretWatchEvent = applyNamespacedEvent normalizeWatchSecretObject"

section \<open>Roles and bindings\<close>

definition rules_count :: "jval \<Rightarrow> jval" where
  "rules_count obj = JNum (int (length (elems (jget obj ''rules''))))"

definition normalizeWatchRoleObject :: "jval \<Rightarrow> jval" where
  "normalizeWatchRoleObject obj =
     (if is_named_row obj \<and> is_number (jget obj ''rules_count'') then obj
      else JObj [(''name'', name_of obj), (''namespace'', namespace_of obj), (''rules_count'', rules_count obj),
        (''created_at'', created_of obj (JStr [])), (''labels'', labels_of obj JNull), (''annotations'', annotations_or_null obj)])"

definition applyRoleWatchEvent :: "jval list option \<Rightarrow> watch_event \<Rightarrow> jval list" where
  "applyRoleWatchEvent = applyNamespacedEvent normalizeWatchRoleObject"

definition normalizeWatchClusterRoleObject :: "jval \<Rightarrow> jval" where
  "normalizeWatchClusterRoleObject obj =
     (if is_string (jget obj ''name'') \<and> is_number (jget obj ''rules_count'') then obj
      else JObj [(''name'', name_of obj), (''rules_count'', rules_count obj), (''created_at'', created_of obj (JStr [])),
        (''labels'', labels_of obj JNull), (''annotations'', annotations_or_null obj)])"

definition applyClusterRoleWatchEvent :: "jval list option \<Rightarrow> watch_event \<Rightarrow> jval list" where
  "applyClusterRoleWatchEvent = applyRowEvent normalizeWatchClusterRoleObject"

definition bindingFields :: "jval \<Rightarrow> jval" where
  "bindingFields obj =
     (let subjects = elems (jget obj ''subjects''); roleRef = jnn (jget obj ''roleRef'') empty_obj in
      JObj [(''name'', name_of obj),
        (''role_ref_kind'', jnns [jget roleRef ''kind'', jget obj ''role_ref_kind'', JStr []]),
        (''role_ref_name'', jnns [jget roleRef ''name'', jget obj ''role_ref_name'', JStr []]),
        (''subjects_count'', JNum (int (length subjects))), (''subjects'', JArr subjects),
        (''created_at'', created_of obj (JStr [])), (''labels'', labels_of obj JNull), (''annotations'', annotations_or_null obj)])"

definition normalizeWatchRoleBindingObject :: "jval \<Rightarrow> jval" where
  "normalizeWatchRoleBindingObject obj =
     (if is_named_row obj \<and> is_number (jget obj ''subjects_count'') then obj
      else spread_with (bindingFields obj)
        [(''namespace'', jnns [jpath obj [''metadata'', ''namespace''], jget obj ''namespace'', JStr []])])"

definition normalizeWatchClusterRoleBindingObject :: "jval \<Rightarrow> jval" where
  "normalizeWatchClusterRoleBindingObject obj =
     (if is_string (jget obj ''name'') \<and> is_number (jget obj ''subjects_count'') then obj else bindingFields obj)"

definition applyRoleBindingWatchEvent :: "jval list option \<Rightarrow> watch_event \<Rightarrow> jval list" where
  "applyRoleBindingWatchEvent = applyRowEvent normalizeWatchRoleBindingObject"

definition applyClusterRoleBindingWatchEvent :: "jval list option \<Rightarrow> watch_event \<Rightarrow> jval list" where
  "applyClusterRoleBindingWatchEvent = applyRowEvent normalizeWatchClusterRoleBindingObject"

section \<open>ServiceAccounts\<close>

definition namesOf :: "jval \<Rightarrow> jval" where
  "namesOf list = JArr (map_truthy (\<lambda>s. jget s ''name'') (elems list))"

definition normalizeWatchServiceAccountObject :: "jval \<Rightarrow> jval" where
  "normalizeWatchServiceAccountObject obj =
     (if is_named_row obj \<and> is_number (jget obj ''secrets'') then obj
      else
        let secrets = elems (jget obj ''secrets'') in
        JObj [(''name'', name_of obj), (''namespace'', namespace_of obj), (''secrets'', JNum (int (length secrets))),
          (''secrets_list'', namesOf (JArr secrets)), (''image_pull_secrets'', namesOf (jget obj ''imagePullSecrets'')),
          (''created_at'', created_of obj (JStr [])), (''labels'', labels_of obj JNull), (''annotations'', annotations_or_null obj)])"

definition applyServiceAccountWatchEvent :: "jval list option \<Rightarrow> watch_event \<Rightarrow> jval list" where
  "applyServiceAccountWatchEvent = applyNamespacedEvent normalizeWatchServiceAccountObject"

section \<open>Leases, limits, quotas and classes\<close>

definition normalizeWatchLeaseObject :: "jval \<Rightarrow> jval" where
  "normalizeWatchLeaseObject obj =
     (if is_named_row obj \<and> jget obj ''spec'' = JUndef then obj
      else
        let spec = spec_of obj in
        JObj [(''name'', name_of obj), (''namespace'', namespace_of obj),
          (''holder_identity'', jnn (jget spec ''holderIdentity'') (jget obj ''holder_identity'')),
          (''lease_duration_seconds'', jnn (jget spec ''leaseDurationSeconds'') (jget obj ''lease_duration_seconds'')),
          (''lease_transitions'', jnn (jget spec ''leaseTransitions'') (jget obj ''lease_transitions'')),
          (''renew_time'', jnn (jget spec ''renewTime'') (jget obj ''renew_time'')),
          (''acquire_time'', jnn (jget spec ''acquireTime'') (jget obj ''acquire_time'')),
          (''labels'', labels_of obj empty_obj), (''created_at'', created_of obj (JStr []))])"

definition applyLeaseWatchEvent :: "jval list option \<Rightarrow> watch_event \<Rightarrow> jval list" where
  "applyLeaseWatchEvent = applyRowEvent normalizeWatchLeaseObject"

definition limit_row :: "jval \<Rightarrow> jval" where
  "limit_row l = JObj [(''type'', jget l ''type''), (''default'', jget l ''default''),
     (''default_request'', jnn (jget l ''defaultRequest'') (jget l ''default_request'')),
     (''max'', jget l ''max''), (''min'', jget l ''min'')]"

definition normalizeWatchLimitRangeObject :: "jval \<Rightarrow> jval" where
  "normalizeWatchLimitRangeObject obj =
     (if is_named_row obj \<and> is_array (jget obj ''limits'') then obj
      else JObj [(''name'', name_of obj), (''namespace'', namespace_of obj),
        (''limits'', JArr (map limit_row (elems (jget (spec_of obj) ''limits'')))),
        (''labels'', labels_of obj empty_obj), (''created_at'', created_of obj (JStr []))])"

definition applyLimitRangeWatchEvent :: "jval list option \<Rightarrow> watch_event \<Rightarrow> jval list" where
  "applyLimitRangeWatchEvent = applyRowEvent normalizeWatchLimitRangeObject"

definition normalizeWatchPriorityClassObject :: "jval \<Rightarrow> jval" where
  "normalizeWatchPriorityClassObject obj =
     (if is_string (jget obj ''name'') \<and> is_number (jget obj ''value'') \<and> is_string (jget obj ''preemption_policy'') then obj
      else JObj [(''name'', name_of obj), (''value'', jnn (jget obj ''value'') (JNum 0)),
        (''global_default'', JBool (jget obj ''globalDefault'' = JBool True)),
        (''preemption_policy'', jnn (jget obj ''preemptionPolicy'') (JStr ''PreemptLowerPriority'')),
        (''description'', jnn (jget obj ''description'') (JStr [])), (''labels'', labels_of obj empty_obj),
        (''created_at'', created_of obj (JStr []))])"

definition applyPriorityClassWatchEvent :: "jval list option \<Rightarrow> watch_event \<Rightarrow> jval list" where
  "applyPriorityClassWatchEvent = applyRowEvent normalizeWatchPriorityClassObject"

definition normalizeWatchResourceQuotaObject :: "jval \<Rightarrow> jval" where
  "normalizeWatchResourceQuotaObject obj =
     (if is_named_row obj \<and> typeof_object (jget obj ''status_hard'') then obj
      else JObj [(''name'', name_of obj), (''namespace'', namespace_of obj),
        (''status_hard'', jnn (jget (status_of obj) ''hard'') empty_obj),
        (''status_used'', jnn (jget (status_of obj) ''used'') empty_obj),
        (''labels'', labels_of obj empty_obj), (''created_at'', created_of obj (JStr []))])"

definition applyResourceQuotaWatchEvent :: "jval list option \<Rightarrow> watch_event \<Rightarrow> jval list" where
  "applyResourceQuotaWatchEvent = applyRowEvent normalizeWatchResourceQuotaObject"

definition normalizeWatchRuntimeClassObject :: "jval \<Rightarrow> jval" where
  "normalizeWatchRuntimeClassObject obj =
     (if is_string (jget obj ''name'') \<and> is_string (jget obj ''handler'') \<and> is_string (jget obj ''created_at'') then obj
      else JObj [(''name'', name_of obj), (''handler'', jnn (jget obj ''handler'') (JStr [])),
        (''labels'', labels_of obj empty_obj), (''created_at'', created_of obj (JStr []))])"

definition applyRuntimeClassWatchEvent :: "jval list option \<Rightarrow> watch_event \<Rightarrow> jval list" where
  "applyRuntimeClassWatchEvent = applyRowEvent normalizeWatchRuntimeClassObject"

definition normalizeWatchWebhookConfigObject :: "jval \<Rightarrow> jval" where
  "normalizeWatchWebhookConfigObject obj =
     (if is_string (jget obj ''name'') \<and> is_number (jget obj ''webhooks_count'') then obj
      else JObj [(''name'', name_of obj),
        (''webhooks_count'', jnns [js_length (jget obj ''webhooks''), jget obj ''webhooks_count'', JNum 0]),
        (''labels'', labels_of obj empty_obj), (''created_at'', created_of obj (JStr []))])"

definition applyWebhookConfigWatchEvent :: "jval list option \<Rightarrow> watch_event \<Rightarrow> jval list" where
  "applyWebhookConfigWatchEvent = applyRowEvent normalizeWatchWebhookConfigObject"

section \<open>Dynamic resource allocation\<close>

text \<open>The server sends the rows of these lists: they are placed as they are.\<close>

definition applyResourceClaimWatchEvent :: "jval list option \<Rightarrow> watch_event \<Rightarrow> jval list" where
  "applyResourceClaimWatchEvent = applyNamespacedEvent (\<lambda>obj. obj)"

definition applyResourceClaimTemplateWatchEvent :: "jval list option \<Rightarrow> watch_event \<Rightarrow> jval list" where
  "applyResourceClaimTemplateWatchEvent = applyNamespacedEvent (\<lambda>obj. obj)"

definition applyResourceSliceWatchEvent :: "jval list option \<Rightarrow> watch_event \<Rightarrow> jval list" where
  "applyResourceSliceWatchEvent = applyNamedEvent (\<lambda>obj. obj)"

definition applyDeviceClassWatchEvent :: "jval list option \<Rightarrow> watch_event \<Rightarrow> jval list" where
  "applyDeviceClassWatchEvent = applyNamedEvent (\<lambda>obj. obj)"

section \<open>Gateway backend policies\<close>

definition normalizeWatchObject :: "jval \<Rightarrow> jval" where
  "normalizeWatchObject obj =
     (if is_named_row obj then
        spread_with obj [(''target_refs'', array_or_empty (jget obj ''target_refs'')),
          (''labels'', jor (jget obj ''labels'') empty_obj), (''annotations'', jor (jget obj ''annotations'') empty_obj)]
      else
        let spec = spec_of obj; listed = elems (jget spec ''targetRefs'');
            targetRefs = (if listed = [] \<and> truthy (jget spec ''targetRef'') then [jget spec ''targetRef''] else listed) in
        JObj [(''name'', name_of obj), (''namespace'', namespace_of obj), (''target_refs'', JArr targetRefs),
          (''labels'', labels_of obj empty_obj),
          (''annotations'', jnns [jget (meta_of obj) ''annotations'', jget obj ''annotations'', empty_obj]),
          (''created_at'', created_of obj JNull)])"

definition applyPolicyWatchEvent :: "jval list option \<Rightarrow> watch_event \<Rightarrow> jval list" where
  "applyPolicyWatchEvent = applyNamespacedEvent normalizeWatchObject"

section \<open>CustomResourceDefinitions\<close>

definition servedVersions :: "jval \<Rightarrow> string list" where
  "servedVersions versions = sort (map jstr (map (\<lambda>v. jget v ''name'')
     (filter (\<lambda>v. jget v ''served'' = JBool True \<and> is_string (jget v ''name'')) (elems versions))))"

text \<open>\<^verbatim>\<open>versions.find((v: any) => v.storage)\<close>: reading a property of null or undefined throws.\<close>

fun storage_version :: "jval list \<Rightarrow> jval option" where
  "storage_version [] = Some JUndef"
| "storage_version (v # vs) = (if nullish v then None else if truthy (jget v ''storage'') then Some v else storage_version vs)"

definition crd_version :: "jval \<Rightarrow> jval option" where
  "crd_version versions = (if is_array versions
     then map_option (\<lambda>storageVer. jnns [jget storageVer ''name'', jget (jhead (elems versions)) ''name'', JStr []])
       (storage_version (elems versions))
     else Some (JStr []))"

definition normalizeWatchCRDObject :: "jval \<Rightarrow> jval option" where
  "normalizeWatchCRDObject obj =
     (if is_string (jget obj ''name'') \<and> is_string (jget obj ''group'') then Some obj
      else
        let spec = spec_of obj; names = jnn (jget spec ''names'') empty_obj in
        map_option (\<lambda>version.
          JObj [(''name'', name_of obj), (''group'', jnn (jget spec ''group'') (JStr [])), (''version'', version),
            (''served_versions'', JArr (map JStr (servedVersions (jget spec ''versions'')))),
            (''scope'', jnn (jget spec ''scope'') (JStr [])), (''kind'', jnn (jget names ''kind'') (JStr [])),
            (''created_at'', created_of obj (JStr [])), (''labels'', labels_of obj JNull),
            (''annotations'', annotations_or_null obj)])
          (crd_version (jget spec ''versions'')))"

definition applyCRDWatchEvent :: "jval list option \<Rightarrow> watch_event \<Rightarrow> jval list" where
  "applyCRDWatchEvent = applyNamedOrDrop normalizeWatchCRDObject"

definition crdVersionsText :: "jval \<Rightarrow> string list option \<Rightarrow> string" where
  "crdVersionsText version served_versions =
     (let served = (case served_versions of Some vs \<Rightarrow> vs | None \<Rightarrow> if truthy version then [jstr version] else []) in
      join '', '' (map (\<lambda>v. if JStr v = version then v @ '' (storage)'' else v) served))"

end
