(* ===== verification/Rows_Feeds.thy ===== *)
theory Rows_Feeds
  imports Rows_Workloads Rows_Network Rows_Storage Rows_Cluster
begin

text \<open>
  Every live list of the pages against the contract of \<open>Watch_Rows\<close>. The lists of namespaced kinds compare
  the texts \<^verbatim>\<open>namespace/name\<close>; as no namespace has a slash, that is comparing the pairs, so a list is the map from
  (namespace, name) to rows.
\<close>

section \<open>Rows of namespaced kinds\<close>

definition ns_row :: "jval \<Rightarrow> bool" where
  "ns_row r \<longleftrightarrow> (\<exists>name ns. jget r ''name'' = JStr name \<and> jget r ''namespace'' = JStr ns \<and> CHR ''/'' \<notin> set ns)"

lemma ns_key_inj:
  assumes "ns_row x" "ns_row r"
  shows "ns_key x = ns_key r \<longleftrightarrow> scoped_key x = scoped_key r"
proof -
  have "a @ c # s = b @ c # t \<longleftrightarrow> a = b \<and> s = t" if "c \<notin> set a" "c \<notin> set b" for a b s t :: string and c
    using that by (induction a b rule: list_induct2') auto
  with assms show ?thesis by (auto simp: ns_row_def ns_key_def scoped_key_def)
qed

interpretation pairs: row_feed "applyOrDrop toRow" "carried_or_drop toRow" "\<lambda>x r. ns_key x = ns_key r" scoped_key ns_row
  for toRow
  by unfold_locales
    (simp_all add: dropping.no_list dropping.ignored dropping.placed ns_key_inj)

section \<open>The lists\<close>

text \<open>Each list's apply function and its normalizer.\<close>

type_synonym live_list = "(jval list option \<Rightarrow> watch_event \<Rightarrow> jval list) \<times> (jval \<Rightarrow> jval option)"

definition namespaced_lists :: "(string \<Rightarrow> int option) \<Rightarrow> live_list list" where
  "namespaced_lists time_of =
    [(applyPodWatchEvent, normalizeWatchPodObject),
     (applyDeploymentWatchEvent, Some \<circ> normalizeWatchDeploymentObject),
     (applyDaemonSetWatchEvent, Some \<circ> normalizeWatchDaemonSetObject),
     (applyReplicaSetWatchEvent, Some \<circ> normalizeWatchReplicaSetObject),
     (applyJobWatchEvent time_of, Some \<circ> normalizeWatchJobObject time_of),
     (applyCronJobWatchEvent, Some \<circ> normalizeWatchCronJobObject),
     (applyHPAWatchEvent, normalizeWatchHPAObject),
     (applyVPAWatchEvent, Some \<circ> normalizeWatchVPAObject),
     (applyServiceWatchEvent, Some \<circ> normalizeWatchServiceObject),
     (applyEndpointWatchEvent, normalizeWatchEndpointObject),
     (applyEndpointSliceWatchEvent, Some \<circ> normalizeWatchEndpointSliceObject),
     (applyIngressWatchEvent, normalizeWatchIngressObject),
     (applyNetworkPolicyWatchEvent, Some \<circ> normalizeWatchNetworkPolicyObject),
     (applyPvcWatchEvent, Some \<circ> normalizeWatchPvcObject),
     (applyGatewayWatchEvent, Some \<circ> normalizeWatchGatewayObject),
     (applyHTTPRouteWatchEvent, Some \<circ> normalizeWatchHTTPRouteObject),
     (applyGRPCRouteWatchEvent, Some \<circ> normalizeWatchGRPCRouteObject),
     (applyReferenceGrantWatchEvent, Some \<circ> normalizeWatchReferenceGrantObject),
     (applyPolicyWatchEvent, Some \<circ> normalizeWatchObject),
     (applyConfigMapWatchEvent, Some \<circ> normalizeWatchConfigMapObject),
     (applySecretWatchEvent, Some \<circ> normalizeWatchSecretObject),
     (applyRoleWatchEvent, Some \<circ> normalizeWatchRoleObject),
     (applyServiceAccountWatchEvent, Some \<circ> normalizeWatchServiceAccountObject),
     (applyResourceClaimWatchEvent, Some \<circ> (\<lambda>obj. obj)),
     (applyResourceClaimTemplateWatchEvent, Some \<circ> (\<lambda>obj. obj))]"

definition named_lists :: "live_list list" where
  "named_lists =
    [(applyIngressClassWatchEvent, Some \<circ> normalizeWatchIngressClassObject),
     (applyPvWatchEvent, Some \<circ> normalizeWatchPvObject),
     (applyStorageClassWatchEvent, Some \<circ> normalizeWatchStorageClassObject),
     (applyVolumeAttachmentWatchEvent, Some \<circ> normalizeWatchVolumeAttachmentObject),
     (applyGatewayClassWatchEvent, Some \<circ> normalizeWatchGatewayClassObject),
     (applyCRDWatchEvent, normalizeWatchCRDObject),
     (applyResourceSliceWatchEvent, Some \<circ> (\<lambda>obj. obj)),
     (applyDeviceClassWatchEvent, Some \<circ> (\<lambda>obj. obj))]"

definition scoped_lists :: "((jval list option \<Rightarrow> watch_event \<Rightarrow> jval list) \<times> (jval \<Rightarrow> jval)) list" where
  "scoped_lists =
    [(applyPDBWatchEvent, normalizeWatchPDBObject),
     (applyRoleBindingWatchEvent, normalizeWatchRoleBindingObject),
     (applyClusterRoleBindingWatchEvent, normalizeWatchClusterRoleBindingObject),
     (applyClusterRoleWatchEvent, normalizeWatchClusterRoleObject),
     (applyLeaseWatchEvent, normalizeWatchLeaseObject),
     (applyLimitRangeWatchEvent, normalizeWatchLimitRangeObject),
     (applyPriorityClassWatchEvent, normalizeWatchPriorityClassObject),
     (applyResourceQuotaWatchEvent, normalizeWatchResourceQuotaObject),
     (applyRuntimeClassWatchEvent, normalizeWatchRuntimeClassObject),
     (applyWebhookConfigWatchEvent, normalizeWatchWebhookConfigObject)]"

lemmas namespaced_defs = applyPodWatchEvent_def applyDeploymentWatchEvent_def applyDaemonSetWatchEvent_def
  applyReplicaSetWatchEvent_def applyJobWatchEvent_def applyCronJobWatchEvent_def applyHPAWatchEvent_def
  applyVPAWatchEvent_def applyServiceWatchEvent_def applyEndpointWatchEvent_def applyEndpointSliceWatchEvent_def
  applyIngressWatchEvent_def applyNetworkPolicyWatchEvent_def applyPvcWatchEvent_def applyGatewayWatchEvent_def
  applyHTTPRouteWatchEvent_def applyGRPCRouteWatchEvent_def applyReferenceGrantWatchEvent_def
  applyPolicyWatchEvent_def applyConfigMapWatchEvent_def applySecretWatchEvent_def applyRoleWatchEvent_def
  applyServiceAccountWatchEvent_def applyResourceClaimWatchEvent_def applyResourceClaimTemplateWatchEvent_def

lemmas named_defs = applyIngressClassWatchEvent_def applyPvWatchEvent_def applyStorageClassWatchEvent_def
  applyVolumeAttachmentWatchEvent_def applyGatewayClassWatchEvent_def applyCRDWatchEvent_def
  applyResourceSliceWatchEvent_def applyDeviceClassWatchEvent_def

lemmas scoped_defs = applyPDBWatchEvent_def applyRoleBindingWatchEvent_def applyClusterRoleBindingWatchEvent_def
  applyClusterRoleWatchEvent_def applyLeaseWatchEvent_def applyLimitRangeWatchEvent_def
  applyPriorityClassWatchEvent_def applyResourceQuotaWatchEvent_def applyRuntimeClassWatchEvent_def
  applyWebhookConfigWatchEvent_def

lemma in_namespaced: "(apply_event, toRow) \<in> set (namespaced_lists time_of) \<Longrightarrow> apply_event = applyOrDrop toRow"
  unfolding namespaced_lists_def namespaced_defs applyNamespacedEvent_or_drop
  by (auto simp: comp_def)

lemma in_named: "(apply_event, toRow) \<in> set named_lists \<Longrightarrow> apply_event = applyNamedOrDrop toRow"
  unfolding named_lists_def named_defs applyNamedEvent_or_drop
  by (auto simp: comp_def)

lemma in_scoped: "(apply_event, toRow) \<in> set scoped_lists \<Longrightarrow> apply_event = applyRowEvent toRow"
  unfolding scoped_lists_def scoped_defs by auto

section \<open>Properties\<close>

text \<open>
  C2: After any events, the list of a namespaced kind has one row per (namespace, name) and is the map the events
  describe: an object's row is what the kind's normalizer makes of the object it was last sent with, a deleted object has
  no row, and an event whose object the normalizer cannot read, or that has no name, changes nothing.
\<close>

theorem namespaced_lists_live:
  assumes "(apply_event, toRow) \<in> set (namespaced_lists time_of)"
    and "list_all ns_row xs" "distinct (map scoped_key xs)"
    and "\<forall>ev\<in>set evs. \<forall>r. carried_or_drop toRow ev = Some r \<longrightarrow> ns_row r"
  shows "distinct (map scoped_key (live apply_event xs evs)) \<and>
    rows_of scoped_key (live apply_event xs evs) = foldl (feed_spec (carried_or_drop toRow) scoped_key) (rows_of scoped_key xs) evs"
proof -
  have inv: "rows_inv ns_row scoped_key xs" and pe: "\<forall>ev\<in>set evs. pairs.proper_event toRow ev"
    using assms(2-4) by (auto simp: rows_inv_def pairs.proper_event_def)
  from pairs.run_inv [OF inv pe] pairs.run_refines [OF inv pe] show ?thesis
    unfolding in_namespaced [OF assms(1)] by (simp add: rows_inv_def)
qed

definition config_object :: "string \<Rightarrow> string \<Rightarrow> jval" where
  "config_object name k = JObj [(''metadata'', JObj [(''name'', JStr name), (''namespace'', JStr ''default'')]),
     (''data'', JObj [(k, JStr ''v'')])]"

lemma config_row: "normalizeWatchConfigMapObject (config_object name k) =
  JObj [(''name'', JStr name), (''namespace'', JStr ''default''), (''data_count'', JNum 1), (''data_keys'', JArr [JStr k]),
    (''binary_keys'', JArr []), (''labels'', JNull), (''created_at'', JStr [])]"
  by (simp add: normalizeWatchConfigMapObject_def config_object_def row_evals key_names_def Let_def)

theorem namespaced_lists_live_witness:
  "live applyConfigMapWatchEvent [normalizeWatchConfigMapObject (config_object ''a'' ''old'')]
     [\<lparr>ev_type = JStr ''MODIFIED'', ev_object = config_object ''a'' ''new''\<rparr>, \<lparr>ev_type = JStr ''ADDED'', ev_object = config_object ''b'' ''k''\<rparr>]
     = [normalizeWatchConfigMapObject (config_object ''a'' ''new''), normalizeWatchConfigMapObject (config_object ''b'' ''k'')] \<and>
   distinct (map scoped_key (live applyConfigMapWatchEvent [normalizeWatchConfigMapObject (config_object ''a'' ''old'')]
     [\<lparr>ev_type = JStr ''MODIFIED'', ev_object = config_object ''a'' ''new''\<rparr>, \<lparr>ev_type = JStr ''ADDED'', ev_object = config_object ''b'' ''k''\<rparr>]))"
proof
  have o: "truthy (config_object n k)" for n k by (simp add: config_object_def)
  show "live applyConfigMapWatchEvent [normalizeWatchConfigMapObject (config_object ''a'' ''old'')]
     [\<lparr>ev_type = JStr ''MODIFIED'', ev_object = config_object ''a'' ''new''\<rparr>, \<lparr>ev_type = JStr ''ADDED'', ev_object = config_object ''b'' ''k''\<rparr>]
     = [normalizeWatchConfigMapObject (config_object ''a'' ''new''), normalizeWatchConfigMapObject (config_object ''b'' ''k'')]"
    by (simp add: applyConfigMapWatchEvent_def applyNamespacedEvent_def Let_def o config_row place_row_def ns_key_def)
  show "distinct (map scoped_key (live applyConfigMapWatchEvent [normalizeWatchConfigMapObject (config_object ''a'' ''old'')]
     [\<lparr>ev_type = JStr ''MODIFIED'', ev_object = config_object ''a'' ''new''\<rparr>, \<lparr>ev_type = JStr ''ADDED'', ev_object = config_object ''b'' ''k''\<rparr>]))"
    by (rule namespaced_lists_live [where time_of = Map.empty and toRow = "Some \<circ> normalizeWatchConfigMapObject", THEN conjunct1])
      (simp_all add: namespaced_lists_def ns_row_def config_row carried_or_drop_def o)
qed

text \<open>
  The list of a cluster-scoped kind has one row per name and is the map from names the events describe, for the
  normalizer of the kind; a CustomResourceDefinition whose versions cannot be read leaves the list as it was.
\<close>

theorem named_lists_live:
  assumes "(apply_event, toRow) \<in> set named_lists"
    and "list_all named_row xs" "distinct (map (\<lambda>r. jget r ''name'') xs)"
    and "\<forall>ev\<in>set evs. \<forall>r. carried_named_or_drop toRow ev = Some r \<longrightarrow> named_row r"
  shows "distinct (map (\<lambda>r. jget r ''name'') (live apply_event xs evs)) \<and>
    rows_of (\<lambda>r. jget r ''name'') (live apply_event xs evs) =
      foldl (feed_spec (carried_named_or_drop toRow) (\<lambda>r. jget r ''name'')) (rows_of (\<lambda>r. jget r ''name'') xs) evs"
proof -
  have inv: "rows_inv named_row (\<lambda>r. jget r ''name'') xs" and pe: "\<forall>ev\<in>set evs. named_dropping.proper_event toRow ev"
    using assms(2-4) by (auto simp: rows_inv_def named_dropping.proper_event_def)
  from named_dropping.run_inv [OF inv pe] named_dropping.run_refines [OF inv pe] show ?thesis
    unfolding in_named [OF assms(1)] by (simp add: rows_inv_def)
qed

definition crd_object :: "string \<Rightarrow> jval list \<Rightarrow> jval" where
  "crd_object name versions = JObj [(''metadata'', JObj [(''name'', JStr name)]), (''spec'', JObj [(''versions'', JArr versions)])]"

text \<open>The second frame, with a null among the versions, is dropped.\<close>

theorem named_lists_live_witness:
  "map (\<lambda>r. jget r ''version'') (live applyCRDWatchEvent []
     [\<lparr>ev_type = JStr ''ADDED'', ev_object = crd_object ''a.b'' [JObj [(''name'', JStr ''v1''), (''storage'', JBool True)]]\<rparr>,
      \<lparr>ev_type = JStr ''MODIFIED'', ev_object = crd_object ''a.b'' [JNull]\<rparr>]) = [JStr ''v1''] \<and>
   distinct (map (\<lambda>r. jget r ''name'') (live applyCRDWatchEvent []
     [\<lparr>ev_type = JStr ''ADDED'', ev_object = crd_object ''a.b'' [JObj [(''name'', JStr ''v1''), (''storage'', JBool True)]]\<rparr>,
      \<lparr>ev_type = JStr ''MODIFIED'', ev_object = crd_object ''a.b'' [JNull]\<rparr>]))"
proof
  show "map (\<lambda>r. jget r ''version'') (live applyCRDWatchEvent []
     [\<lparr>ev_type = JStr ''ADDED'', ev_object = crd_object ''a.b'' [JObj [(''name'', JStr ''v1''), (''storage'', JBool True)]]\<rparr>,
      \<lparr>ev_type = JStr ''MODIFIED'', ev_object = crd_object ''a.b'' [JNull]\<rparr>]) = [JStr ''v1'']"
    by (simp add: applyCRDWatchEvent_def applyNamedOrDrop_def applyNamedEvent_def normalizeWatchCRDObject_def crd_version_def
      crd_object_def row_evals Let_def place_row_def)
  show "distinct (map (\<lambda>r. jget r ''name'') (live applyCRDWatchEvent []
     [\<lparr>ev_type = JStr ''ADDED'', ev_object = crd_object ''a.b'' [JObj [(''name'', JStr ''v1''), (''storage'', JBool True)]]\<rparr>,
      \<lparr>ev_type = JStr ''MODIFIED'', ev_object = crd_object ''a.b'' [JNull]\<rparr>]))"
    by (rule named_lists_live [where toRow = normalizeWatchCRDObject, THEN conjunct1])
      (simp_all add: named_lists_def named_row_def carried_named_or_drop_def normalizeWatchCRDObject_def crd_version_def
        crd_object_def row_evals Let_def split: option.splits)
qed

text \<open>
  A list kept with \<^verbatim>\<open>applyRowEvent\<close> has one row per name and namespace, an absent namespace being the empty
  one, and is the map from these the events describe, for the normalizer of the kind.
\<close>

theorem scoped_lists_live:
  assumes "(apply_event, toRow) \<in> set scoped_lists"
    and "list_all scoped_row xs" "distinct (map scoped_key xs)"
    and "\<forall>ev\<in>set evs. \<forall>r. carried_named toRow ev = Some r \<longrightarrow> scoped_row r"
  shows "distinct (map scoped_key (live apply_event xs evs)) \<and>
    rows_of scoped_key (live apply_event xs evs) = foldl (feed_spec (carried_named toRow) scoped_key) (rows_of scoped_key xs) evs"
proof -
  have inv: "rows_inv scoped_row scoped_key xs" and pe: "\<forall>ev\<in>set evs. scoped.proper_event toRow ev"
    using assms(2-4) by (auto simp: rows_inv_def scoped.proper_event_def)
  from scoped.run_inv [OF inv pe] scoped.run_refines [OF inv pe] show ?thesis
    unfolding in_scoped [OF assms(1)] by (simp add: rows_inv_def)
qed

definition role_object :: "string \<Rightarrow> jval list \<Rightarrow> jval" where
  "role_object name rules = JObj [(''metadata'', JObj [(''name'', JStr name)]), (''rules'', JArr rules)]"

theorem scoped_lists_live_witness:
  "map (\<lambda>r. jget r ''rules_count'') (live applyClusterRoleWatchEvent [normalizeWatchClusterRoleObject (role_object ''edit'' [])]
     [\<lparr>ev_type = JStr ''MODIFIED'', ev_object = role_object ''edit'' [JNull]\<rparr>]) = [JNum 1] \<and>
   distinct (map scoped_key (live applyClusterRoleWatchEvent [normalizeWatchClusterRoleObject (role_object ''edit'' [])]
     [\<lparr>ev_type = JStr ''MODIFIED'', ev_object = role_object ''edit'' [JNull]\<rparr>]))"
proof
  have row: "normalizeWatchClusterRoleObject (role_object ''edit'' rules) = JObj [(''name'', JStr ''edit''), (''rules_count'', JNum (int (length rules))),
     (''created_at'', JStr []), (''labels'', JNull), (''annotations'', JNull)]" for rules
    by (simp add: normalizeWatchClusterRoleObject_def role_object_def row_evals rules_count_def annotations_or_null_def)
  have o: "truthy (role_object n rules)" for n rules by (simp add: role_object_def)
  show "map (\<lambda>r. jget r ''rules_count'') (live applyClusterRoleWatchEvent [normalizeWatchClusterRoleObject (role_object ''edit'' [])]
     [\<lparr>ev_type = JStr ''MODIFIED'', ev_object = role_object ''edit'' [JNull]\<rparr>]) = [JNum 1]"
    by (simp add: applyClusterRoleWatchEvent_def applyRowEvent_def o row place_row_def same_row_def)
  show "distinct (map scoped_key (live applyClusterRoleWatchEvent [normalizeWatchClusterRoleObject (role_object ''edit'' [])]
     [\<lparr>ev_type = JStr ''MODIFIED'', ev_object = role_object ''edit'' [JNull]\<rparr>]))"
    by (rule scoped_lists_live [where toRow = normalizeWatchClusterRoleObject, THEN conjunct1])
      (simp_all add: scoped_lists_def scoped_row_def row carried_named_def o)
qed

end
