(* ===== verification/Calendar.thy ===== *)
theory Calendar
  imports Prelude
begin

text \<open>
  The calendar behind JavaScript's \<^verbatim>\<open>Date\<close>, in UTC: the day number of a date (\<^verbatim>\<open>Date.UTC\<close>), the date of a
  day number, and the weekday, on integers (milliseconds since 1970). The proleptic Gregorian calendar of the
  language's standard; a year below 100 stands for itself (\<^verbatim>\<open>Date.UTC\<close> would add 1900).
\<close>

named_theorems calendar_simps \<open>evaluation of dates and clocks\<close>

section \<open>Dates and day numbers\<close>

definition leap :: "int \<Rightarrow> bool" where
  "leap y \<longleftrightarrow> y mod 4 = 0 \<and> (y mod 100 \<noteq> 0 \<or> y mod 400 = 0)"

text \<open>The number of the year's first day, 0 for 1970.\<close>

definition year_day :: "int \<Rightarrow> int" where
  "year_day y = 365 * (y - 1970) + (y - 1969) div 4 - (y - 1901) div 100 + (y - 1601) div 400"

definition month_len :: "bool \<Rightarrow> int \<Rightarrow> int" where
  "month_len lp m = (if m = 2 then (if lp then 29 else 28) else if m = 4 \<or> m = 6 \<or> m = 9 \<or> m = 11 then 30 else 31)"

text \<open>Days of the year before the month (1 to 12).\<close>

definition month_day :: "bool \<Rightarrow> int \<Rightarrow> int" where
  "month_day lp m = (if m \<le> 2 then 31 * (m - 1) else (if lp then 60 else 59) + (153 * (m - 3) + 2) div 5)"

text \<open>The number of a day, the month counted from 0 and taken modulo 12 with its years, as \<^verbatim>\<open>Date.UTC\<close> does.\<close>

definition day_number :: "int \<Rightarrow> int \<Rightarrow> int \<Rightarrow> int" where
  "day_number y mo d = (let y' = y + mo div 12 in year_day y' + month_day (leap y') (mo mod 12 + 1) + d - 1)"

definition year_of :: "int \<Rightarrow> int" where
  "year_of D = (let y = 1970 + (400 * D) div 146097 in
     if D < year_day y then y - 1 else if year_day (y + 1) \<le> D then y + 1 else y)"

definition month_of :: "bool \<Rightarrow> int \<Rightarrow> int" where
  "month_of lp n = 1 + sum_list (map (\<lambda>m. if month_day lp m \<le> n then 1 else 0) [2, 3, 4, 5, 6, 7, 8, 9, 10, 11, 12])"

definition date_of :: "int \<Rightarrow> int \<times> int \<times> int" where
  "date_of D = (let y = year_of D; n = D - year_day y; m = month_of (leap y) n in (y, m, n - month_day (leap y) m + 1))"

text \<open>\<^verbatim>\<open>getUTCDay()\<close>: 1970 began on a Thursday.\<close>

definition weekday :: "int \<Rightarrow> int" where
  "weekday D = (D + 4) mod 7"

lemma div_bounds: "0 < k \<Longrightarrow> k * (x div k) \<le> x \<and> x < k * (x div k) + k" for k x :: int
  using mult_div_mod_eq [of k x] pos_mod_sign [of k x] pos_mod_bound [of k x] by linarith

lemma div_next:
  fixes k x :: int
  assumes "0 < k"
  shows "(x + 1) div k = x div k + (if (x + 1) mod k = 0 then 1 else 0)"
proof -
  define q r where "q = (x + 1) div k" and "r = (x + 1) mod k"
  have x: "x = k * q + (r - 1)" "0 \<le> r" "r < k"
    using mult_div_mod_eq [of k "x + 1"] pos_mod_sign [of k "x + 1"] pos_mod_bound [of k "x + 1"] assms
    unfolding q_def r_def by linarith+
  show ?thesis
  proof (cases "r = 0")
    case True
    with x have "x = k * (q - 1) + (k - 1)" by (simp add: algebra_simps)
    then have "x div k = q - 1" using assms by (intro int_div_pos_eq [of x k "q - 1" "k - 1"]) auto
    with True show ?thesis by (simp add: q_def r_def)
  next
    case False
    with x have "x div k = q" by (intro int_div_pos_eq [of x k q "r - 1"]) auto
    with False show ?thesis by (simp add: q_def r_def)
  qed
qed

lemma year_day_Suc: "year_day (y + 1) = year_day y + (if leap y then 366 else 365)"
proof -
  have m: "(y - 1968) mod 4 = y mod 4" "(y - 1900) mod 100 = y mod 100" "(y - 1600) mod 400 = y mod 400"
    using mod_mult_self1 [of y "-492" 4] mod_mult_self1 [of y "-19" 100] mod_mult_self1 [of y "-4" 400] by simp_all
  have a: "(y + 1 - 1969) div 4 = (y - 1969) div 4 + (if y mod 4 = 0 then 1 else 0)"
    using div_next [of 4 "y - 1969"] m(1) by simp
  have b: "(y + 1 - 1901) div 100 = (y - 1901) div 100 + (if y mod 100 = 0 then 1 else 0)"
    using div_next [of 100 "y - 1901"] m(2) by simp
  have c: "(y + 1 - 1601) div 400 = (y - 1601) div 400 + (if y mod 400 = 0 then 1 else 0)"
    using div_next [of 400 "y - 1601"] m(3) by simp
  have d: "y mod 400 = 0 \<Longrightarrow> y mod 100 = 0" "y mod 100 = 0 \<Longrightarrow> y mod 4 = 0"
    using mod_mod_cancel [of 100 400 y] mod_mod_cancel [of 4 100 y] by simp_all
  define p q r where pqr: "p \<longleftrightarrow> y mod 4 = 0" "q \<longleftrightarrow> y mod 100 = 0" "r \<longleftrightarrow> y mod 400 = 0"
  show ?thesis
    using d unfolding year_day_def a b c leap_def pqr [symmetric] by (cases p; cases q; cases r; simp)
qed

lemma year_day_mono1: "year_day y < year_day (y + 1)"
  by (simp add: year_day_Suc)

lemma year_day_mono: "y \<le> z \<Longrightarrow> year_day y \<le> year_day z"
proof (induction "nat (z - y)" arbitrary: z)
  case (Suc n)
  then have "year_day y \<le> year_day (z - 1)" by simp
  with year_day_mono1 [of "z - 1"] show ?case by simp
qed simp

lemma year_day_close: "146097 * (y - 1970) - 800 \<le> 400 * year_day y" "400 * year_day y \<le> 146097 * (y - 1970) + 800"
proof -
  define a b c where "a = (y - 1969) div 4" "b = (y - 1901) div 100" "c = (y - 1601) div 400"
  have "4 * a \<le> y - 1969" "y - 1969 < 4 * a + 4" "100 * b \<le> y - 1901" "y - 1901 < 100 * b + 100"
    "400 * c \<le> y - 1601" "y - 1601 < 400 * c + 400"
    unfolding a_b_c_def using div_bounds [of 4 "y - 1969"] div_bounds [of 100 "y - 1901"] div_bounds [of 400 "y - 1601"] by simp_all
  moreover have "year_day y = 365 * (y - 1970) + a - b + c" by (simp add: year_day_def a_b_c_def)
  ultimately have "146097 * (y - 1970) - 800 \<le> 400 * year_day y \<and> 400 * year_day y \<le> 146097 * (y - 1970) + 800"
    by simp
  then show "146097 * (y - 1970) - 800 \<le> 400 * year_day y" "400 * year_day y \<le> 146097 * (y - 1970) + 800" by auto
qed

lemma year_of_bounds: "year_day (year_of D) \<le> D" "D < year_day (year_of D + 1)"
proof -
  define q where "q = (400 * D) div 146097"
  have q: "146097 * q \<le> 400 * D" "400 * D < 146097 * q + 146097"
    unfolding q_def using div_bounds [of 146097 "400 * D"] by simp_all
  have lo: "year_day (1970 + q - 1) \<le> D"
    using year_day_close(2) [of "1970 + q - 1"] q(1) by simp
  have hi: "D < year_day (1970 + q + 1 + 1)"
    using year_day_close(1) [of "1970 + q + 1 + 1"] q(2) by simp
  show "year_day (year_of D) \<le> D" "D < year_day (year_of D + 1)"
    using lo hi by (auto simp: year_of_def q_def [symmetric] Let_def)
qed

lemma year_of_eq: "year_day y \<le> D \<Longrightarrow> D < year_day (y + 1) \<Longrightarrow> year_of D = y"
  using year_of_bounds [of D] year_day_mono [of "year_of D + 1" y] year_day_mono [of "y + 1" "year_of D"] by linarith

lemma month_cases:
  assumes "1 \<le> (m :: int)" "m \<le> 12"
  obtains "m = 1" | "m = 2" | "m = 3" | "m = 4" | "m = 5" | "m = 6" | "m = 7" | "m = 8" | "m = 9" | "m = 10" | "m = 11" | "m = 12"
proof -
  have "m = 1 \<or> m = 2 \<or> m = 3 \<or> m = 4 \<or> m = 5 \<or> m = 6 \<or> m = 7 \<or> m = 8 \<or> m = 9 \<or> m = 10 \<or> m = 11 \<or> m = 12"
    using assms by presburger
  then show thesis using that by blast
qed

lemma month_day_next: "1 \<le> m \<Longrightarrow> m < 12 \<Longrightarrow> month_day lp (m + 1) = month_day lp m + month_len lp m"
  by (rule month_cases [of m]) (auto simp: month_day_def month_len_def)

lemma month_day_last: "month_day lp 12 + month_len lp 12 = (if lp then 366 else 365)"
  by (simp add: month_day_def month_len_def)

lemma month_day_1 [simp]: "month_day lp 1 = 0"
  by (simp add: month_day_def)

lemma month_len_bounds: "28 \<le> month_len lp m" "month_len lp m \<le> 31"
  by (auto simp: month_len_def)

lemma month_of_eq:
  assumes "1 \<le> m" "m \<le> 12" "month_day lp m \<le> n" "n < month_day lp m + month_len lp m"
  shows "month_of lp n = m"
  by (rule month_cases [OF assms(1,2)])
    (use assms(3,4) in \<open>auto simp: month_of_def month_day_def month_len_def split: if_splits\<close>)

lemma month_of_range:
  assumes "0 \<le> n" "n < (if lp then 366 else 365)"
  shows "1 \<le> month_of lp n \<and> month_of lp n \<le> 12 \<and> month_day lp (month_of lp n) \<le> n \<and>
    n < month_day lp (month_of lp n) + month_len lp (month_of lp n)"
proof -
  have "\<exists>m. 1 \<le> m \<and> m \<le> 12 \<and> month_day lp m \<le> n \<and> n < month_day lp m + month_len lp m"
  proof (rule ccontr)
    assume no: "\<not> ?thesis"
    have "month_day lp m \<le> n" if "1 \<le> m" "m \<le> 12" for m
      using that
    proof (induction "nat (m - 1)" arbitrary: m)
      case 0
      then show ?case using assms(1) by simp
    next
      case (Suc k)
      then have "month_day lp (m - 1) \<le> n" "1 \<le> m - 1" by simp_all
      with no Suc.prems month_day_next [of "m - 1" lp] show ?case by fastforce
    qed
    from this [of 12] no have "month_day lp 12 + month_len lp 12 \<le> n" by fastforce
    with assms(2) show False by (simp add: month_day_last)
  qed
  then obtain m where m: "1 \<le> m" "m \<le> 12" "month_day lp m \<le> n" "n < month_day lp m + month_len lp m" by blast
  from month_of_eq [OF this] m show ?thesis by simp
qed

text \<open>\<open>date_of\<close> and \<open>day_number\<close> are inverse on dates that exist.\<close>

definition valid_date :: "int \<Rightarrow> int \<Rightarrow> int \<Rightarrow> bool" where
  "valid_date y m d \<longleftrightarrow> 1 \<le> m \<and> m \<le> 12 \<and> 1 \<le> d \<and> d \<le> month_len (leap y) m"

lemma date_of_valid:
  assumes "date_of D = (y, m, d)"
  shows "valid_date y m d" "day_number y (m - 1) d = D"
proof -
  have y: "y = year_of D" and m: "m = month_of (leap y) (D - year_day y)" and d: "d = D - year_day y - month_day (leap y) m + 1"
    using assms by (auto simp: date_of_def Let_def)
  have "0 \<le> D - year_day y" "D - year_day y < (if leap y then 366 else 365)"
    using year_of_bounds [of D] by (auto simp: y year_day_Suc)
  from month_of_range [OF this] show v: "valid_date y m d"
    by (auto simp: valid_date_def m d)
  then have "(m - 1) div 12 = 0" "(m - 1) mod 12 = m - 1" by (auto simp: valid_date_def)
  then show "day_number y (m - 1) d = D" by (simp add: day_number_def d)
qed

lemma date_of_day_number:
  assumes "valid_date y m d"
  shows "date_of (day_number y (m - 1) d) = (y, m, d)"
proof -
  have m: "1 \<le> m" "m \<le> 12" "1 \<le> d" "d \<le> month_len (leap y) m" using assms by (auto simp: valid_date_def)
  then have q: "(m - 1) div 12 = 0" "(m - 1) mod 12 = m - 1" by auto
  define n where "n = month_day (leap y) m + d - 1"
  have D: "day_number y (m - 1) d = year_day y + n" using q by (simp add: day_number_def n_def)
  have mo: "month_of (leap y) n = m" using m by (intro month_of_eq) (auto simp: n_def)
  have "0 \<le> month_day (leap y) m \<and> month_day (leap y) m + month_len (leap y) m \<le> (if leap y then 366 else 365)"
    by (rule month_cases [OF m(1,2)]) (auto simp: month_day_def month_len_def)
  then have "0 \<le> n" "n < (if leap y then 366 else 365)" using m(3,4) by (auto simp: n_def)
  then have "year_of (year_day y + n) = y" by (intro year_of_eq) (auto simp: year_day_Suc)
  then show ?thesis using mo by (simp add: date_of_def D Let_def n_def)
qed

lemma date_of_inj: "date_of D = date_of E \<Longrightarrow> D = E"
  by (cases "date_of E") (metis date_of_valid(2) prod_cases3)

text \<open>The day after, and the first of the next month.\<close>

lemma day_number_next_month:
  assumes "1 \<le> m" "m \<le> 12"
  shows "day_number y m 1 = day_number y (m - 1) 1 + month_len (leap y) m"
proof (cases "m = 12")
  case True
  then show ?thesis using month_day_last [of "leap y"] by (simp add: day_number_def Let_def year_day_Suc)
next
  case False
  with assms have "m div 12 = 0" "m mod 12 = m" "(m - 1) div 12 = 0" "(m - 1) mod 12 = m - 1" by auto
  then show ?thesis using month_day_next [of m "leap y"] assms False by (simp add: day_number_def)
qed

lemma day_number_add: "day_number y m (d + k) = day_number y m d + k"
  by (simp add: day_number_def Let_def)

lemma date_of_next:
  assumes "date_of D = (y, m, d)"
  shows "date_of (D + 1) = (y, m, d + 1) \<or> (\<exists>y' m'. date_of (D + 1) = (y', m', 1))"
proof (cases "d < month_len (leap y) m")
  case True
  have "valid_date y m (d + 1)" using date_of_valid(1) [OF assms] True by (simp add: valid_date_def)
  from date_of_day_number [OF this] show ?thesis
    using date_of_valid(2) [OF assms] by (simp add: day_number_add)
next
  case False
  have v: "valid_date y m d" "day_number y (m - 1) d = D" using date_of_valid [OF assms] by auto
  then have m: "1 \<le> m" "m \<le> 12" and d: "d = month_len (leap y) m" using False by (auto simp: valid_date_def)
  have "D + 1 = day_number y m 1"
    using day_number_next_month [OF m] day_number_add [of y "m - 1" 1 "d - 1"] v(2) d by simp
  moreover have "valid_date y (m + 1) 1 \<or> (m = 12 \<and> valid_date (y + 1) 1 1)"
    using m month_len_bounds(1) [of "leap y" "m + 1"] month_len_bounds(1) [of "leap (y + 1)" 1] by (auto simp: valid_date_def)
  moreover have "m = 12 \<Longrightarrow> day_number y m 1 = day_number (y + 1) (1 - 1) 1" by (simp add: day_number_def)
  ultimately show ?thesis
    using date_of_day_number [of y "m + 1" 1] date_of_day_number [of "y + 1" 1 1] by auto
qed

lemma date_of_month:
  assumes "date_of D = (y, m, d)"
  shows "day_number y (m - 1) 1 \<le> D" "D < day_number y m 1"
    and "day_number y (m - 1) 1 \<le> E \<Longrightarrow> E < day_number y m 1 \<Longrightarrow> date_of E = (y, m, E - day_number y (m - 1) 1 + 1)"
proof -
  have v: "valid_date y m d" "day_number y (m - 1) d = D" using date_of_valid [OF assms] by auto
  have m: "1 \<le> m" "m \<le> 12" using v(1) by (auto simp: valid_date_def)
  have D: "D = day_number y (m - 1) 1 + (d - 1)" using v(2) day_number_add [of y "m - 1" 1 "d - 1"] by simp
  note nm = day_number_next_month [OF m, of y]
  show "day_number y (m - 1) 1 \<le> D" "D < day_number y m 1" using v(1) D nm by (auto simp: valid_date_def)
  assume E: "day_number y (m - 1) 1 \<le> E" "E < day_number y m 1"
  define e where "e = E - day_number y (m - 1) 1 + 1"
  have "valid_date y m e" using E nm m by (simp add: valid_date_def e_def)
  moreover have "day_number y (m - 1) e = E" using day_number_add [of y "m - 1" 1 "e - 1"] by (simp add: e_def add.commute)
  ultimately show "date_of E = (y, m, E - day_number y (m - 1) 1 + 1)" using date_of_day_number [of y m e] by (simp add: e_def)
qed

lemma date_of_year:
  assumes "date_of D = (y, m, d)"
  shows "year_day y \<le> D" "D < year_day (y + 1)"
  using assms year_of_bounds [of D] by (auto simp: date_of_def Let_def)

end
