(* ===== verification/Cron.thy ===== *)
theory Cron
  imports Calendar
begin

text \<open>
  When a CronJob runs next (\<^verbatim>\<open>frontend/src/utils/cron.ts\<close>): the parser of cron schedules and the search for
  the next firing time, as kube-controller-manager does them. What throws in the code is \<open>None\<close> here, which
  \<^verbatim>\<open>nextCronRun\<close> answers with null.

  The browser's time zones (\<^verbatim>\<open>Intl\<close>) are parameters: \<open>known_zone\<close>, which names it accepts, and \<open>clock\<close>, the
  wall clock of an instant in a zone; so is \<open>time_of\<close>, the time a text parses to. Instants are integers, milliseconds
  since 1970, of years from 100 on (\<^verbatim>\<open>Date.UTC\<close> reads a smaller year as one of the 1900s). The names every JavaScript
  object has (\<^verbatim>\<open>constructor\<close>, \<^verbatim>\<open>__proto__\<close>) are taken as unknown names, and of the two spellings of the microsecond's
  unit the one whose letter lies above the code units of a \<open>string\<close> is left out.
\<close>

section \<open>Fields\<close>

text \<open>\<^verbatim>\<open>bits: boolean[]\<close> is the list of the indices set to true.\<close>

record field =
  bits :: "int list"
  star :: bool

record bounds =
  bmin :: int
  bmax :: int
  names :: "(string \<times> int) list"

record spec =
  second :: field
  minute :: field
  hour :: field
  dom :: field
  month :: field
  dow :: field
  zone :: string

datatype schedule = Spec spec | Every int

definition SECOND :: int where "SECOND = 1000"
definition MINUTE :: int where "MINUTE = 60 * SECOND"
definition HOUR :: int where "HOUR = 60 * MINUTE"

definition SECONDS :: bounds where "SECONDS = \<lparr>bmin = 0, bmax = 59, names = []\<rparr>"
definition MINUTES :: bounds where "MINUTES = \<lparr>bmin = 0, bmax = 59, names = []\<rparr>"
definition HOURS :: bounds where "HOURS = \<lparr>bmin = 0, bmax = 23, names = []\<rparr>"
definition DOM :: bounds where "DOM = \<lparr>bmin = 1, bmax = 31, names = []\<rparr>"
definition MONTHS :: bounds where
  "MONTHS = \<lparr>bmin = 1, bmax = 12, names = [(''jan'', 1), (''feb'', 2), (''mar'', 3), (''apr'', 4), (''may'', 5), (''jun'', 6),
     (''jul'', 7), (''aug'', 8), (''sep'', 9), (''oct'', 10), (''nov'', 11), (''dec'', 12)]\<rparr>"
definition DOW :: bounds where
  "DOW = \<lparr>bmin = 0, bmax = 6, names = [(''sun'', 0), (''mon'', 1), (''tue'', 2), (''wed'', 3), (''thu'', 4), (''fri'', 5), (''sat'', 6)]\<rparr>"

section \<open>The parser\<close>

definition digit :: "char \<Rightarrow> bool" where
  "digit c \<longleftrightarrow> 48 \<le> (of_char c :: nat) \<and> (of_char c :: nat) \<le> 57"

definition number_of :: "string \<Rightarrow> int" where
  "number_of s = foldl (\<lambda>n c. 10 * n + (of_char c - 48)) 0 s"

definition atoi :: "string \<Rightarrow> int option" where
  "atoi expr =
     (let sign = (expr \<noteq> [] \<and> (hd expr = CHR ''-'' \<or> hd expr = CHR ''+'')); ds = (if sign then tl expr else expr) in
      if ds = [] \<or> \<not> list_all digit ds then None
      else let n = (if sign \<and> hd expr = CHR ''-'' then - number_of ds else number_of ds) in
        if n < 0 then None else Some n)"

definition intOrName :: "string \<Rightarrow> bounds \<Rightarrow> int option" where
  "intOrName expr b = (case map_of (names b) (toLowerCase expr) of Some n \<Rightarrow> Some n | None \<Rightarrow> atoi expr)"

text \<open>\<^verbatim>\<open>for (let i = start; i <= end; i += step)\<close>; the step is never 0 there.\<close>

function steps :: "int \<Rightarrow> int \<Rightarrow> int \<Rightarrow> int list" where
  "steps start end step = (if start \<le> end \<and> 0 < step then start # steps (start + step) end step else [])"
  by pat_completeness auto
termination by (relation "measure (\<lambda>(start, end, step). nat (end + 1 - start))") auto

declare steps.simps [simp del]

definition low_high :: "string list \<Rightarrow> bounds \<Rightarrow> (int \<times> int \<times> bool) option" where
  "low_high lowAndHigh b =
     (if lowAndHigh ! 0 = ''*'' \<or> lowAndHigh ! 0 = ''?'' then Some (bmin b, bmax b, True)
      else case intOrName (lowAndHigh ! 0) b of
        None \<Rightarrow> None
      | Some start \<Rightarrow>
          if length lowAndHigh = 1 then Some (start, start, False)
          else if length lowAndHigh = 2 then map_option (\<lambda>end. (start, end, False)) (intOrName (lowAndHigh ! 1) b)
          else None)"

definition getRange :: "string \<Rightarrow> bounds \<Rightarrow> field \<Rightarrow> field option" where
  "getRange expr b f =
     (let rangeAndStep = split CHR ''/'' expr; lowAndHigh = split CHR ''-'' (rangeAndStep ! 0) in
      case low_high lowAndHigh b of
        None \<Rightarrow> None
      | Some (start, end0, star0) \<Rightarrow>
          (case (if length rangeAndStep = 1 then Some (1, end0, star0)
                 else if length rangeAndStep = 2 then
                   map_option (\<lambda>step. (step, if length lowAndHigh = 1 then bmax b else end0, star0 \<and> step \<le> 1)) (atoi (rangeAndStep ! 1))
                 else None) of
             None \<Rightarrow> None
           | Some (step, end, starred) \<Rightarrow>
               if start < bmin b \<or> end > bmax b \<or> start > end \<or> step = 0 then None
               else Some \<lparr>bits = bits f @ steps start end step, star = starred \<or> star f\<rparr>))"

fun getRanges :: "string list \<Rightarrow> bounds \<Rightarrow> field \<Rightarrow> field option" where
  "getRanges [] b f = Some f"
| "getRanges (expr # exprs) b f = (case getRange expr b f of None \<Rightarrow> None | Some f' \<Rightarrow> getRanges exprs b f')"

definition getField :: "string \<Rightarrow> bounds \<Rightarrow> field option" where
  "getField field b = getRanges (filter (\<lambda>e. e \<noteq> []) (split CHR '','' field)) b \<lparr>bits = [], star = False\<rparr>"

text \<open>\<^verbatim>\<open>all(b)\<close> is \<^verbatim>\<open>getField('*', b)\<close>, which never throws.\<close>

definition all_of :: "bounds \<Rightarrow> field" where
  "all_of b = \<lparr>bits = steps (bmin b) (bmax b) 1, star = True\<rparr>"

definition one_of :: "int \<Rightarrow> field" where
  "one_of n = \<lparr>bits = [n], star = False\<rparr>"

section \<open>Durations\<close>

text \<open>
  \<^verbatim>\<open>Number\<close> holds a double: \<open>dbl\<close> rounds a rational to 53 binary digits, ties to even, as every literal and
  every operation does (magnitudes near the limits of a double's exponent do not occur).
\<close>

function bit_length :: "int \<Rightarrow> int" where
  "bit_length n = (if n \<le> 0 then 0 else 1 + bit_length (n div 2))"
  by pat_completeness auto
termination by (relation "measure nat") auto

declare bit_length.simps [simp del]

definition pow2 :: "int \<Rightarrow> rat" where
  "pow2 e = (if 0 \<le> e then 2 ^ nat e else 1 / 2 ^ nat (- e))"

definition round_even :: "rat \<Rightarrow> int" where
  "round_even x = (let n = \<lfloor>x\<rfloor>; r = x - of_int n in
     if r < 1/2 then n else if r > 1/2 then n + 1 else if even n then n else n + 1)"

definition dbl :: "rat \<Rightarrow> rat" where
  "dbl x = (if x = 0 then 0
     else let (n, d) = quotient_of (abs x);
              e0 = bit_length n - bit_length d;
              e = (if abs x < pow2 e0 then e0 - 1 else e0);
              m = of_int (round_even (abs x * pow2 (52 - e))) * pow2 (e - 52)
          in if x < 0 then - m else m)"

definition UNITS :: "(string \<times> rat) list" where
  "UNITS = [(''ns'', dbl (1 / 10 ^ 6)), (''us'', dbl (1 / 10 ^ 3)), ([char_of (181 :: nat), CHR ''s''], dbl (1 / 10 ^ 3)), (''ms'', 1),
     (''s'', of_int SECOND), (''m'', of_int MINUTE), (''h'', of_int HOUR)]"

text \<open>The groups of \<^verbatim>\<open>/^([0-9]*)(?:\.([0-9]*))?([^0-9.]*)/\<close> and the rest of the text.\<close>

definition duration_part :: "string \<Rightarrow> string \<times> string \<times> string \<times> string" where
  "duration_part s =
     (let whole = takeWhile digit s; s1 = dropWhile digit s;
          (digits, s2) = (case s1 of c # t \<Rightarrow> if c = CHR ''.'' then (takeWhile digit t, dropWhile digit t) else ([], s1) | [] \<Rightarrow> ([], s1));
          unit_char = (\<lambda>c. \<not> digit c \<and> c \<noteq> CHR ''.'') in
      (whole, digits, takeWhile unit_char s2, dropWhile unit_char s2))"

definition part_value :: "string \<Rightarrow> string \<Rightarrow> rat \<Rightarrow> rat" where
  "part_value whole digits unit = dbl (dbl (dbl (of_int (number_of whole)) + dbl (of_int (number_of digits) / 10 ^ length digits)) * unit)"

lemma duration_part_shorter:
  assumes "duration_part s = (whole, digits, unit, rest)" "unit \<noteq> []"
  shows "length rest < length s"
proof -
  define u where "u = (\<lambda>c. \<not> digit c \<and> c \<noteq> CHR ''.'')"
  obtain s2 where s2: "unit = takeWhile u s2" "rest = dropWhile u s2" "length s2 \<le> length s"
  proof (cases "dropWhile digit s")
    case Nil
    with assms(1) that [of "[]"] show thesis by (auto simp: duration_part_def u_def)
  next
    case (Cons c t)
    have "length (dropWhile digit t) \<le> length t" "length (c # t) \<le> length s"
      using length_dropWhile_le [of digit t] length_dropWhile_le [of digit s] Cons by simp_all
    with Cons assms(1) that [of "dropWhile digit t"] that [of "c # t"] show thesis
      by (auto simp: duration_part_def u_def Let_def split: if_splits)
  qed
  have "length (takeWhile u s2) + length (dropWhile u s2) = length s2"
    by (metis length_append takeWhile_dropWhile_id)
  with s2 assms(2) show ?thesis by (metis add_less_cancel_right add_0 le_trans length_greater_0_conv less_le_trans not_less)
qed

function durations :: "string \<Rightarrow> rat \<Rightarrow> rat option" where
  "durations rest acc =
     (if rest = [] then Some acc
      else let (whole, digits, unit, rest') = duration_part rest in
        case map_of UNITS unit of
          None \<Rightarrow> None
        | Some u \<Rightarrow> if whole = [] \<and> digits = [] \<or> unit = [] then None
            else durations rest' (dbl (acc + part_value whole digits u)))"
  by pat_completeness auto
termination
  by (relation "measure (\<lambda>(rest, acc). length rest)") (auto dest: duration_part_shorter [OF sym])

declare durations.simps [simp del]

definition parseDuration :: "string \<Rightarrow> rat option" where
  "parseDuration s =
     (let negative = (s \<noteq> [] \<and> hd s = CHR ''-'');
          rest = (if s \<noteq> [] \<and> (hd s = CHR ''-'' \<or> hd s = CHR ''+'') then tl s else s) in
      if rest = ''0'' then Some 0
      else if rest = [] then None
      else map_option (\<lambda>acc. if negative then - acc else acc) (durations rest 0))"

section \<open>Schedules\<close>

definition every_delay :: "rat \<Rightarrow> int" where
  "every_delay d = (if d < of_int SECOND then SECOND else (\<lfloor>d\<rfloor> div SECOND) * SECOND)"

definition parseDescriptor :: "string \<Rightarrow> string \<Rightarrow> schedule option" where
  "parseDescriptor s z =
     (let mk = (\<lambda>mi h d mo w. Some (Spec \<lparr>second = one_of 0, minute = mi, hour = h, dom = d, month = mo, dow = w, zone = z\<rparr>)) in
      if s = ''@yearly'' \<or> s = ''@annually'' then mk (one_of 0) (one_of 0) (one_of 1) (one_of 1) (all_of DOW)
      else if s = ''@monthly'' then mk (one_of 0) (one_of 0) (one_of 1) (all_of MONTHS) (all_of DOW)
      else if s = ''@weekly'' then mk (one_of 0) (one_of 0) (all_of DOM) (all_of MONTHS) (one_of 0)
      else if s = ''@daily'' \<or> s = ''@midnight'' then mk (one_of 0) (one_of 0) (all_of DOM) (all_of MONTHS) (all_of DOW)
      else if s = ''@hourly'' then mk (one_of 0) (all_of HOURS) (all_of DOM) (all_of MONTHS) (all_of DOW)
      else if startsWith s ''@every '' then
        map_option (\<lambda>d. Every (every_delay d)) (parseDuration (drop (length ''@every '') s))
      else None)"

definition loadLocation :: "(string \<Rightarrow> bool) \<Rightarrow> string \<Rightarrow> string \<Rightarrow> string option" where
  "loadLocation known_zone name local =
     (if name = [] \<or> name = ''UTC'' then Some ''UTC''
      else if name = ''Local'' then Some local
      else if known_zone name then Some name else None)"

definition parse_fields :: "string \<Rightarrow> string \<Rightarrow> schedule option" where
  "parse_fields s z =
     (case filter (\<lambda>w. w \<noteq> []) (splitRuns is_ws s) of
        [mi, h, d, mo, w] \<Rightarrow>
          (case (getField ''0'' SECONDS, getField mi MINUTES, getField h HOURS, getField d DOM, getField mo MONTHS, getField w DOW) of
             (Some fs, Some fmi, Some fh, Some fd, Some fmo, Some fw) \<Rightarrow>
               Some (Spec \<lparr>second = fs, minute = fmi, hour = fh, dom = fd, month = fmo, dow = fw, zone = z\<rparr>)
           | _ \<Rightarrow> None)
      | _ \<Rightarrow> None)"

definition parse_spec :: "string \<Rightarrow> string \<Rightarrow> schedule option" where
  "parse_spec s z = (if startsWith s ''@'' then parseDescriptor s z else parse_fields s z)"

definition parseStandard :: "(string \<Rightarrow> bool) \<Rightarrow> string \<Rightarrow> string \<Rightarrow> schedule option" where
  "parseStandard known_zone s local =
     (if s = [] then None
      else if startsWith s ''TZ='' \<or> startsWith s ''CRON_TZ='' then
        (case (indexOf s '' '', indexOf s ''='') of
           (Some i, Some eq) \<Rightarrow>
             if i < eq + 1 then None
             else (case loadLocation known_zone (drop (eq + 1) (take i s)) local of
               None \<Rightarrow> None
             | Some z \<Rightarrow> parse_spec (trim (drop i s)) z)
         | _ \<Rightarrow> None)
      else parse_spec s local)"

section \<open>Clocks\<close>

record wall =
  wy :: int
  wmo :: int
  wd :: int
  wh :: int
  wmi :: int
  ws :: int

definition dateUTC :: "int \<Rightarrow> int \<Rightarrow> int \<Rightarrow> int \<Rightarrow> int \<Rightarrow> int \<Rightarrow> int" where
  "dateUTC y mo d h mi s = ((day_number y mo d * 24 + h) * 60 + mi) * 60000 + s * 1000"

definition offset :: "(int \<Rightarrow> wall) \<Rightarrow> int \<Rightarrow> int" where
  "offset clk ms = (let w = clk ms in dateUTC (wy w) (wmo w - 1) (wd w) (wh w) (wmi w) (ws w) - (ms - ms mod SECOND))"

definition goDate :: "(int \<Rightarrow> wall) \<Rightarrow> int \<Rightarrow> int \<Rightarrow> int \<Rightarrow> int \<Rightarrow> int \<Rightarrow> int \<Rightarrow> int" where
  "goDate clk y mo d h mi s = (let unix = dateUTC y (mo - 1) d h mi s in unix - offset clk (unix - offset clk unix))"

definition addDate :: "(int \<Rightarrow> wall) \<Rightarrow> int \<Rightarrow> int \<Rightarrow> int \<Rightarrow> int" where
  "addDate clk ms months days = (let w = clk ms in goDate clk (wy w) (wmo w + months) (wd w + days) (wh w) (wmi w) (ws w))"

text \<open>The clock of UTC, and of a zone at a fixed distance from it.\<close>

definition utc_wall :: "int \<Rightarrow> wall" where
  "utc_wall ms = (let (y, m, d) = date_of (ms div 86400000) in
     \<lparr>wy = y, wmo = m, wd = d, wh = ms div HOUR mod 24, wmi = ms div MINUTE mod 60, ws = ms div SECOND mod 60\<rparr>)"

section \<open>The search\<close>

definition dayMatches :: "spec \<Rightarrow> wall \<Rightarrow> bool" where
  "dayMatches s w =
     (let domMatch = (wd w \<in> set (bits (dom s)));
          dowMatch = (weekday (day_number (wy w) (wmo w - 1) (wd w)) \<in> set (bits (dow s))) in
      if star (dom s) \<or> star (dow s) then domMatch \<and> dowMatch else domMatch \<or> dowMatch)"

text \<open>
  The five inner loops. Each answers whether it goes on from \<^verbatim>\<open>wrap\<close>, the time and \<^verbatim>\<open>added\<close>; the wall clock
  \<^verbatim>\<open>w\<close> at every loop's head is that of \<^verbatim>\<open>t\<close>. In a zone whose clock could stop, a loop need not end:
  the loops are partial functions.
\<close>

partial_function (option) month_loop :: "(int \<Rightarrow> wall) \<Rightarrow> spec \<Rightarrow> int \<Rightarrow> bool \<Rightarrow> (bool \<times> int \<times> bool) option" where
  "month_loop clk s t added =
     (let w = clk t in
      if wmo w \<in> set (bits (month s)) then Some (False, t, added)
      else let t1 = (if added then t else goDate clk (wy w) (wmo w) 1 0 0 0); t2 = addDate clk t1 1 0 in
        if wmo (clk t2) = 1 then Some (True, t2, True) else month_loop clk s t2 True)"

partial_function (option) day_loop :: "(int \<Rightarrow> wall) \<Rightarrow> spec \<Rightarrow> int \<Rightarrow> bool \<Rightarrow> (bool \<times> int \<times> bool) option" where
  "day_loop clk s t added =
     (let w = clk t in
      if dayMatches s w then Some (False, t, added)
      else let t1 = (if added then t else goDate clk (wy w) (wmo w) (wd w) 0 0 0); t2 = addDate clk t1 0 1; h = wh (clk t2);
               t3 = (if h \<noteq> 0 then (if h > 12 then t2 + (24 - h) * HOUR else t2 - h * HOUR) else t2) in
        if wd (clk t3) = 1 then Some (True, t3, True) else day_loop clk s t3 True)"

partial_function (option) hour_loop :: "(int \<Rightarrow> wall) \<Rightarrow> spec \<Rightarrow> int \<Rightarrow> bool \<Rightarrow> (bool \<times> int \<times> bool) option" where
  "hour_loop clk s t added =
     (let w = clk t in
      if wh w \<in> set (bits (hour s)) then Some (False, t, added)
      else let t1 = (if added then t else goDate clk (wy w) (wmo w) (wd w) (wh w) 0 0); t2 = t1 + HOUR in
        if wh (clk t2) = 0 then Some (True, t2, True) else hour_loop clk s t2 True)"

partial_function (option) minute_loop :: "(int \<Rightarrow> wall) \<Rightarrow> spec \<Rightarrow> int \<Rightarrow> bool \<Rightarrow> (bool \<times> int \<times> bool) option" where
  "minute_loop clk s t added =
     (let w = clk t in
      if wmi w \<in> set (bits (minute s)) then Some (False, t, added)
      else let t1 = (if added then t else t - t mod MINUTE); t2 = t1 + MINUTE in
        if wmi (clk t2) = 0 then Some (True, t2, True) else minute_loop clk s t2 True)"

partial_function (option) second_loop :: "(int \<Rightarrow> wall) \<Rightarrow> spec \<Rightarrow> int \<Rightarrow> bool \<Rightarrow> (bool \<times> int \<times> bool) option" where
  "second_loop clk s t added =
     (let w = clk t in
      if ws w \<in> set (bits (second s)) then Some (False, t, added)
      else let t1 = (if added then t else t - t mod SECOND); t2 = t1 + SECOND in
        if ws (clk t2) = 0 then Some (True, t2, True) else second_loop clk s t2 True)"

text \<open>One pass through the loops: the next loop runs only when the one before did not wrap.\<close>

definition and_then :: "(bool \<times> int \<times> bool) option \<Rightarrow> (int \<Rightarrow> bool \<Rightarrow> (bool \<times> int \<times> bool) option) \<Rightarrow> (bool \<times> int \<times> bool) option" where
  "and_then r f = (case r of None \<Rightarrow> None | Some (wrapped, t, added) \<Rightarrow> if wrapped then Some (True, t, added) else f t added)"

definition one_pass :: "(int \<Rightarrow> wall) \<Rightarrow> spec \<Rightarrow> int \<Rightarrow> bool \<Rightarrow> (bool \<times> int \<times> bool) option" where
  "one_pass clk s t added =
     and_then (month_loop clk s t added) (\<lambda>t added.
     and_then (day_loop clk s t added) (\<lambda>t added.
     and_then (hour_loop clk s t added) (\<lambda>t added.
     and_then (minute_loop clk s t added) (\<lambda>t added. second_loop clk s t added))))"

text \<open>\<open>Some None\<close> is the code's null: nothing in five years.\<close>

partial_function (option) wrap_loop :: "(int \<Rightarrow> wall) \<Rightarrow> spec \<Rightarrow> int \<Rightarrow> int \<Rightarrow> bool \<Rightarrow> int option option" where
  "wrap_loop clk s yearLimit t added =
     (if wy (clk t) > yearLimit then Some None
      else case one_pass clk s t added of
        None \<Rightarrow> None
      | Some (wrapped, t', added') \<Rightarrow> if wrapped then wrap_loop clk s yearLimit t' added' else Some (Some t'))"

declare month_loop.simps [code] day_loop.simps [code] hour_loop.simps [code] minute_loop.simps [code] second_loop.simps [code]
  wrap_loop.simps [code]

definition specNext :: "(string \<Rightarrow> int \<Rightarrow> wall) \<Rightarrow> spec \<Rightarrow> int \<Rightarrow> int option option" where
  "specNext clock s from' =
     (let clk = clock (zone s); t = from' - from' mod SECOND + SECOND in
      wrap_loop clk s (wy (clk t) + 5) t False)"

section \<open>The next run\<close>

definition every_next :: "int \<Rightarrow> int \<Rightarrow> int option \<Rightarrow> int" where
  "every_next delay at_ms start =
     (case start of
        None \<Rightarrow> at_ms - at_ms mod SECOND + delay
      | Some st \<Rightarrow> (let first = st - st mod SECOND in first + max 1 ((at_ms - first) div delay + 1) * delay))"

definition nextCronRun :: "(string \<Rightarrow> bool) \<Rightarrow> (string \<Rightarrow> int \<Rightarrow> wall) \<Rightarrow> (string \<Rightarrow> int option) \<Rightarrow> string \<Rightarrow>
    string \<Rightarrow> string \<Rightarrow> int \<Rightarrow> string \<Rightarrow> int option option" where
  "nextCronRun known_zone clock time_of local schedule timeZone at_ms since =
     (if trim schedule = [] then Some None
      else
        let zoned = (\<not> contains schedule ''TZ'' \<and> timeZone \<noteq> []) in
        if zoned \<and> loadLocation known_zone timeZone local = None then Some None
        else case parseStandard known_zone (if zoned then ''TZ='' @ timeZone @ '' '' @ schedule else schedule) local of
          None \<Rightarrow> Some None
        | Some (Spec s) \<Rightarrow> specNext clock s at_ms
        | Some (Every delay) \<Rightarrow> Some (Some (every_next delay at_ms (if since \<noteq> [] then time_of since else None))))"

end
