(* ===== verification/Cron_Next.thy ===== *)
theory Cron_Next
  imports Cron
begin

text \<open>
  The search for the next firing time in a zone at a fixed distance from UTC: it ends, and its answer is the first
  second after the start at which the schedule fires, or that there is none in five years.

  The proof follows the loops. Each steps from the start of a unit (month, day, hour, minute, second) to the next one
  while the unit's field does not allow it (\<open>search_inv\<close>): no second skipped fires, and once a time was set to the start
  of a unit, it is at the start of every unit whose field does not allow it (\<open>aligned\<close>).
\<close>

section \<open>Clocks at a fixed distance from UTC\<close>

abbreviation DAY :: int where "DAY \<equiv> 86400000"

lemmas units = SECOND_def MINUTE_def HOUR_def

definition fixed_clock :: "int \<Rightarrow> int \<Rightarrow> wall" where
  "fixed_clock off t = utc_wall (t + off)"

lemma utc_wall_date: "date_of (v div DAY) = (wy (utc_wall v), wmo (utc_wall v), wd (utc_wall v))"
  by (simp add: utc_wall_def split: prod.splits)

lemma utc_wall_time:
  "wh (utc_wall v) = v div HOUR mod 24" "wmi (utc_wall v) = v div MINUTE mod 60" "ws (utc_wall v) = v div SECOND mod 60"
  by (simp_all add: utc_wall_def split: prod.splits)

lemma div_nested: "0 < k \<Longrightarrow> 0 < l \<Longrightarrow> v div (k * l) = v div k div l" for k l v :: int
  by (simp add: zdiv_zmult2_eq)

lemma unit_products: "MINUTE = SECOND * 60" "HOUR = MINUTE * 60" "DAY = HOUR * 24"
  by (simp_all add: units)

lemma unit_divs:
  "v div MINUTE = v div SECOND div 60" "v div HOUR = v div MINUTE div 60" "v div DAY = v div HOUR div 24"
proof -
  have "0 < SECOND" "0 < MINUTE" "0 < HOUR" by (simp_all add: units)
  from this [THEN div_nested, of 60 v] div_nested [OF this(3), of 24 v]
  show "v div MINUTE = v div SECOND div 60" "v div HOUR = v div MINUTE div 60" "v div DAY = v div HOUR div 24"
    unfolding unit_products [symmetric] by simp_all
qed

lemma clock_sum:
  "24 * d + h = H \<Longrightarrow> 60 * H + m = M \<Longrightarrow> 60 * M + s = S \<Longrightarrow> 1000 * S + r = v \<Longrightarrow>
    ((d * 24 + h) * 60 + m) * 60000 + s * 1000 = v - r" for d h H m M s S r v :: int
  by (auto simp: algebra_simps)

lemma dateUTC_wall:
  "dateUTC (wy (utc_wall v)) (wmo (utc_wall v) - 1) (wd (utc_wall v)) (wh (utc_wall v)) (wmi (utc_wall v)) (ws (utc_wall v))
    = v - v mod SECOND"
proof -
  have D: "day_number (wy (utc_wall v)) (wmo (utc_wall v) - 1) (wd (utc_wall v)) = v div DAY"
    using date_of_valid(2) [OF utc_wall_date] .
  have "24 * (v div DAY) + v div HOUR mod 24 = v div HOUR" "60 * (v div HOUR) + v div MINUTE mod 60 = v div MINUTE"
    "60 * (v div MINUTE) + v div SECOND mod 60 = v div SECOND" "1000 * (v div SECOND) + v mod SECOND = v"
    using mult_div_mod_eq [of SECOND v] by (simp_all only: unit_divs mult_div_mod_eq) (simp add: units)
  then show ?thesis unfolding dateUTC_def D utc_wall_time by (rule clock_sum)
qed

lemma mod_add_multiple: "k mod m = 0 \<Longrightarrow> (v + k) mod m = v mod m" for k m v :: int
  by (metis add.right_neutral mod_add_right_eq)

lemma mod_multiple: "0 < m \<Longrightarrow> k mod (m * l) = 0 \<Longrightarrow> k mod m = 0" for k l m :: int
  by (metis dvd_mult_left dvd_eq_mod_eq_0)

lemma goDate_fixed:
  assumes "off mod MINUTE = 0"
  shows "goDate (fixed_clock off) y mo d h mi s = dateUTC y (mo - 1) d h mi s - off"
proof -
  have o: "off mod SECOND = 0" using assms mod_multiple [of SECOND off 60] by (simp add: units)
  have "offset (fixed_clock off) ms = off" for ms
    using dateUTC_wall [of "ms + off"] mod_add_multiple [OF o, of ms] by (simp add: offset_def fixed_clock_def)
  then show ?thesis by (simp add: goDate_def)
qed

lemma addDate_fixed:
  assumes "off mod MINUTE = 0"
  shows "addDate (fixed_clock off) t months days = (let w = utc_wall (t + off) in
    dateUTC (wy w) (wmo w + months - 1) (wd w + days) (wh w) (wmi w) (ws w) - off)"
  by (simp add: addDate_def goDate_fixed [OF assms] fixed_clock_def Let_def)

section \<open>Units of time\<close>

text \<open>The start of the next unit of length \<open>U\<close>; a coarser unit is left only at its end.\<close>

definition next_unit :: "int \<Rightarrow> int \<Rightarrow> int" where
  "next_unit U v = v - v mod U + U"

lemma next_unit_gt: "0 < U \<Longrightarrow> v < next_unit U v"
  using pos_mod_bound [of U v] by (simp add: next_unit_def)

lemma next_unit_div: "next_unit U v = (v div U + 1) * U"
  using mult_div_mod_eq [of U v] by (simp add: next_unit_def algebra_simps)

lemma next_unit_start: "0 < U \<Longrightarrow> next_unit (U * k) v mod U = 0"
  by (simp add: next_unit_div mult.commute mult.left_commute)

lemma in_unit:
  assumes "0 < U" "v - v mod U \<le> u" "u < next_unit U v"
  shows "u div U = v div U"
proof -
  have "u = U * (v div U) + (u - (v - v mod U))" using mult_div_mod_eq [of U v] by (simp add: algebra_simps)
  moreover have "0 \<le> u - (v - v mod U)" "u - (v - v mod U) < U" using assms by (auto simp: next_unit_def)
  ultimately show ?thesis by (rule int_div_pos_eq)
qed

lemma next_unit_coarser:
  assumes "0 < U" "0 < k" "next_unit U v mod (U * k) \<noteq> 0"
  shows "next_unit U v div (U * k) = v div (U * k)"
proof -
  define q where "q = v div U"
  have n: "next_unit U v div U = q + 1" "next_unit U v mod (U * k) = U * ((q + 1) mod k)"
    using assms(1) by (simp_all add: next_unit_div q_def mult.commute)
  then have "(q + 1) mod k \<noteq> 0" using assms(3) by simp
  then have "(q + 1) div k = q div k" using div_next [OF assms(2), of q] by simp
  then show ?thesis using assms by (simp add: div_nested n q_def)
qed

lemma same_day_wall:
  "u div DAY = v div DAY \<Longrightarrow> wy (utc_wall u) = wy (utc_wall v) \<and> wmo (utc_wall u) = wmo (utc_wall v) \<and> wd (utc_wall u) = wd (utc_wall v)"
  using utc_wall_date [of u] utc_wall_date [of v] by simp

lemma same_coarser: "0 < U \<Longrightarrow> 0 < k \<Longrightarrow> u div U = v div U \<Longrightarrow> u div (U * k) = v div (U * k)" for U k u v :: int
  by (simp add: div_nested)

section \<open>The invariant of the search\<close>

definition fires :: "spec \<Rightarrow> wall \<Rightarrow> bool" where
  "fires s w \<longleftrightarrow> wmo w \<in> set (bits (month s)) \<and> dayMatches s w \<and> wh w \<in> set (bits (hour s)) \<and>
     wmi w \<in> set (bits (minute s)) \<and> ws w \<in> set (bits (second s))"

definition aligned :: "spec \<Rightarrow> int \<Rightarrow> bool" where
  "aligned s v \<longleftrightarrow> (let w = utc_wall v in
     (wmo w \<notin> set (bits (month s)) \<longrightarrow> v mod DAY = 0 \<and> wd w = 1) \<and> (\<not> dayMatches s w \<longrightarrow> v mod DAY = 0) \<and>
     (wh w \<notin> set (bits (hour s)) \<longrightarrow> v mod HOUR = 0) \<and> (wmi w \<notin> set (bits (minute s)) \<longrightarrow> v mod MINUTE = 0))"

definition search_inv :: "spec \<Rightarrow> int \<Rightarrow> int \<Rightarrow> bool \<Rightarrow> bool" where
  "search_inv s start v added \<longleftrightarrow> v mod SECOND = 0 \<and> start < v \<and> (added \<longrightarrow> aligned s v) \<and>
     (\<forall>u. start < u \<and> u < v \<and> u mod SECOND = 0 \<longrightarrow> \<not> fires s (utc_wall u))"

lemma dayMatches_date:
  "wy w = wy w' \<and> wmo w = wmo w' \<and> wd w = wd w' \<Longrightarrow> dayMatches s w = dayMatches s w'"
  by (simp add: dayMatches_def)

lemma search_inv_jump:
  assumes "search_inv s start v added" "v \<le> v2" "v2 mod SECOND = 0" "aligned s v2"
    and "\<And>u. v \<le> u \<Longrightarrow> u < v2 \<Longrightarrow> \<not> fires s (utc_wall u)"
  shows "search_inv s start v2 True"
  using assms unfolding search_inv_def by (meson le_less_trans less_le_trans not_less order_trans)

text \<open>What a step to the next day, hour, minute or second leaves behind it.\<close>

lemma leaves_month:
  assumes "v2 div DAY = v div DAY + 1" "v2 mod DAY = 0" "wmo (utc_wall v) \<in> set (bits (month s))"
    and "wmo (utc_wall v2) \<notin> set (bits (month s))"
  shows "wd (utc_wall v2) = 1"
  using date_of_next [OF utc_wall_date, of v] assms(1,3,4) utc_wall_date [of v2] by auto

lemma leaves_day:
  assumes "v2 = next_unit U v" "U * k = DAY" "0 < U" "0 < k"
    and "wmo (utc_wall v) \<in> set (bits (month s))" "dayMatches s (utc_wall v)"
  shows "wmo (utc_wall v2) \<notin> set (bits (month s)) \<longrightarrow> v2 mod DAY = 0 \<and> wd (utc_wall v2) = 1"
    and "\<not> dayMatches s (utc_wall v2) \<longrightarrow> v2 mod DAY = 0"
proof -
  have same: "v2 mod DAY \<noteq> 0 \<Longrightarrow> v2 div DAY = v div DAY"
    using next_unit_coarser [of U k v] assms by simp
  have "v2 div DAY = v div DAY + 1" if "v2 mod DAY = 0"
  proof -
    have "v < v2" "v2 \<le> v + U" using next_unit_gt [OF assms(3), of v] pos_mod_sign [OF assms(3), of v] assms(1) by (auto simp: next_unit_def)
    moreover have "U \<le> DAY" using assms(2) by (metis dvd_triv_left zdvd_imp_le zero_less_numeral)
    moreover have "v2 = DAY * (v2 div DAY)" using that mult_div_mod_eq [of DAY v2] by simp
    moreover have "DAY * (v div DAY) \<le> v" "v < DAY * (v div DAY) + DAY" using div_bounds [of DAY v] by auto
    ultimately have "DAY * (v2 div DAY) \<le> DAY * (v div DAY) + 2 * DAY - 1" "DAY * (v div DAY) < DAY * (v2 div DAY)" by linarith+
    then show ?thesis by simp
  qed
  with same same_day_wall [of v2 v] dayMatches_date [of "utc_wall v2" "utc_wall v" s] leaves_month [of v2 v s] assms(5,6)
  show "wmo (utc_wall v2) \<notin> set (bits (month s)) \<longrightarrow> v2 mod DAY = 0 \<and> wd (utc_wall v2) = 1"
    "\<not> dayMatches s (utc_wall v2) \<longrightarrow> v2 mod DAY = 0"
    by metis+
qed

lemma leaves_hour:
  assumes "v2 = next_unit U v" "U * k = HOUR" "0 < U" "0 < k" "wh (utc_wall v) \<in> set (bits (hour s))"
  shows "wh (utc_wall v2) \<notin> set (bits (hour s)) \<longrightarrow> v2 mod HOUR = 0"
  by (cases "v2 mod HOUR = 0") (use next_unit_coarser [of U k v] assms in \<open>simp_all add: utc_wall_time\<close>)

lemma leaves_minute:
  assumes "v2 = next_unit SECOND v" "wmi (utc_wall v) \<in> set (bits (minute s))"
  shows "wmi (utc_wall v2) \<notin> set (bits (minute s)) \<longrightarrow> v2 mod MINUTE = 0"
  by (cases "v2 mod MINUTE = 0") (use next_unit_coarser [of SECOND 60 v] assms in \<open>simp_all add: utc_wall_time units\<close>)

section \<open>The loops\<close>

text \<open>
  What a loop answers on local time: it ends, at a later time that keeps the invariant; without a wrap its own field and
  the coarser ones allow that time.
\<close>

definition searched :: "int \<Rightarrow> spec \<Rightarrow> int \<Rightarrow> int \<Rightarrow> (bool \<times> int \<times> bool) option \<Rightarrow> (int \<Rightarrow> bool) \<Rightarrow> bool" where
  "searched off s start v r P \<longleftrightarrow> (\<exists>wrapped v' added. r = Some (wrapped, v' - off, added) \<and> search_inv s start v' added \<and>
     v \<le> v' \<and> (if wrapped then v < v' else P v'))"

lemma loop_searched:
  fixes ok :: "wall \<Rightarrow> bool" and nxt :: "int \<Rightarrow> int" and size :: "int \<Rightarrow> nat"
  assumes stays: "\<And>v added. ok (utc_wall v) \<Longrightarrow> loop (v - off) added = Some (False, v - off, added)"
    and step: "\<And>v added. \<not> ok (utc_wall v) \<Longrightarrow> search_inv s start v added \<Longrightarrow>
      loop (v - off) added = (if stop (nxt v) then Some (True, nxt v - off, True) else loop (nxt v - off) True)"
    and inv: "\<And>v added. \<not> ok (utc_wall v) \<Longrightarrow> search_inv s start v added \<Longrightarrow> C v \<Longrightarrow> v < nxt v \<and> search_inv s start (nxt v) True"
    and down: "\<And>v. \<not> stop (nxt v) \<Longrightarrow> C v \<Longrightarrow> size (nxt v) < size v \<and> C (nxt v)"
  shows "search_inv s start v added \<Longrightarrow> C v \<Longrightarrow> searched off s start v (loop (v - off) added) (\<lambda>v'. ok (utc_wall v') \<and> C v')"
proof (induction "size v" arbitrary: v added rule: less_induct)
  case less
  show ?case
  proof (cases "ok (utc_wall v)")
    case True
    with less.prems show ?thesis by (auto simp: searched_def stays)
  next
    case False
    note n = inv [OF False less.prems] and st = step [OF False less.prems(1)]
    show ?thesis
    proof (cases "stop (nxt v)")
      case True
      with n st show ?thesis by (auto simp: searched_def)
    next
      case False
      with down [OF False less.prems(2)] less.hyps [of "nxt v" True] n
      have "searched off s start (nxt v) (loop (nxt v - off) True) (\<lambda>v'. ok (utc_wall v') \<and> C v')" by blast
      then obtain wrapped v' added' where r: "loop (nxt v - off) True = Some (wrapped, v' - off, added')" "search_inv s start v' added'"
          "nxt v \<le> v'" "if wrapped then nxt v < v' else ok (utc_wall v') \<and> C v'"
        by (auto simp: searched_def)
      have "v < v'" using n r(3) by simp
      moreover have "loop (v - off) added = Some (wrapped, v' - off, added')" using st False r(1) by simp
      ultimately show ?thesis using r(2,4) by (auto simp: searched_def split: if_splits)
    qed
  qed
qed

lemma mod_next:
  fixes k x :: int
  assumes "0 < k" "(x + 1) mod k \<noteq> 0"
  shows "(x + 1) mod k = x mod k + 1 \<and> (x + 1) div k = x div k"
proof -
  have "(x + 1) div k = x div k" using div_next [OF assms(1), of x] assms(2) by simp
  moreover from this have "k * (x div k) + (x + 1) mod k = x + 1" using mult_div_mod_eq [of k "x + 1"] by simp
  ultimately show ?thesis using mult_div_mod_eq [of k x] by linarith
qed

text \<open>Days and shorter units: the next unit keeps the invariant when the coarser fields allow the time before.\<close>

lemma unit_step:
  assumes "search_inv s start v added" "0 < U" "U mod SECOND = 0" "aligned s (next_unit U v)"
    and "\<And>u. u div U = v div U \<Longrightarrow> \<not> fires s (utc_wall u)"
  shows "v < next_unit U v \<and> search_inv s start (next_unit U v) True"
proof
  show gt: "v < next_unit U v" by (rule next_unit_gt [OF assms(2)])
  have "next_unit U v mod SECOND = 0" unfolding next_unit_div using assms(3) by (metis mod_mult_right_eq mult_zero_right mod_0)
  moreover have "\<not> fires s (utc_wall u)" if "v \<le> u" "u < next_unit U v" for u
    using that pos_mod_sign [OF assms(2), of v] by (intro assms(5) in_unit [OF assms(2)]) auto
  ultimately show "search_inv s start (next_unit U v) True"
    using assms(1,4) gt by (intro search_inv_jump [of s start v added]) auto
qed

lemma fixed_clock_local: "fixed_clock off (v - off) = utc_wall v"
  by (simp add: fixed_clock_def)

text \<open>The next unit's number, and what stays the same while it does not wrap.\<close>

lemma next_unit_count:
  assumes "0 < U" "0 < k" "next_unit U v div U mod k \<noteq> 0"
  shows "next_unit U v div U mod k = v div U mod k + 1" "next_unit U v div (U * k) = v div (U * k)"
proof -
  have n: "next_unit U v div U = v div U + 1" using assms(1) by (simp add: next_unit_div)
  with mod_next [OF assms(2), of "v div U"] assms(3)
  show "next_unit U v div U mod k = v div U mod k + 1" "next_unit U v div (U * k) = v div (U * k)"
    using assms(1,2) by (simp_all add: div_nested)
qed

lemma count_down: "x' = x + 1 \<Longrightarrow> x < k \<Longrightarrow> nat (k - x') < nat (k - x)" for x x' k :: int
  by simp

lemma unit_pos: "0 < SECOND" "0 < MINUTE" "0 < HOUR"
  by (simp_all add: units)

lemma next_second_down:
  assumes "ws (utc_wall (next_unit SECOND v)) \<noteq> 0"
  shows "nat (60 - ws (utc_wall (next_unit SECOND v))) < nat (60 - ws (utc_wall v))" "next_unit SECOND v div MINUTE = v div MINUTE"
  using next_unit_count [OF unit_pos(1), of 60 v] assms unfolding utc_wall_time unit_products(1)
  by (auto intro: count_down simp: div_mult2_eq)

lemma next_minute_down:
  assumes "wmi (utc_wall (next_unit MINUTE v)) \<noteq> 0"
  shows "nat (60 - wmi (utc_wall (next_unit MINUTE v))) < nat (60 - wmi (utc_wall v))" "next_unit MINUTE v div HOUR = v div HOUR"
  using next_unit_count [OF unit_pos(2), of 60 v] assms unfolding utc_wall_time unit_products(2)
  by (auto intro: count_down)

lemma next_hour_down:
  assumes "wh (utc_wall (next_unit HOUR v)) \<noteq> 0"
  shows "nat (24 - wh (utc_wall (next_unit HOUR v))) < nat (24 - wh (utc_wall v))" "next_unit HOUR v div DAY = v div DAY"
  using next_unit_count [OF unit_pos(3), of 24 v] assms unfolding utc_wall_time unit_products(3)
  by (auto intro: count_down)

text \<open>The fields coarser than the hour, the minute and the second allow the time, which is in the given unit.\<close>

definition in_day :: "spec \<Rightarrow> int \<Rightarrow> int \<Rightarrow> bool" where
  "in_day s K v \<longleftrightarrow> v div DAY = K \<and> wmo (utc_wall v) \<in> set (bits (month s)) \<and> dayMatches s (utc_wall v)"

definition in_hour :: "spec \<Rightarrow> int \<Rightarrow> int \<Rightarrow> bool" where
  "in_hour s K v \<longleftrightarrow> in_day s (v div DAY) v \<and> v div HOUR = K \<and> wh (utc_wall v) \<in> set (bits (hour s))"

definition in_minute :: "spec \<Rightarrow> int \<Rightarrow> int \<Rightarrow> bool" where
  "in_minute s K v \<longleftrightarrow> in_hour s (v div HOUR) v \<and> v div MINUTE = K \<and> wmi (utc_wall v) \<in> set (bits (minute s))"

lemma in_day_same: "in_day s K v \<Longrightarrow> u div DAY = v div DAY \<Longrightarrow> in_day s K u"
  using same_day_wall [of u v] dayMatches_date [of "utc_wall u" "utc_wall v" s] by (simp add: in_day_def)

lemma in_hour_same: "in_hour s K v \<Longrightarrow> u div HOUR = v div HOUR \<Longrightarrow> in_hour s K u"
  using same_coarser [of HOUR 24 u v] in_day_same [of s "v div DAY" v u] by (auto simp: in_hour_def utc_wall_time units)

lemma in_minute_same: "in_minute s K v \<Longrightarrow> u div MINUTE = v div MINUTE \<Longrightarrow> in_minute s K u"
  using same_coarser [of MINUTE 60 u v] in_hour_same [of s "v div HOUR" v u] by (auto simp: in_minute_def utc_wall_time units)

text \<open>The time from which a loop steps is the start of the unit.\<close>

lemma from_start:
  assumes "added \<longrightarrow> v mod U = 0"
  shows "(if added then v - off else v - v mod U - off) + U = next_unit U v - off"
  using assms by (simp add: next_unit_def)

lemma second_searched:
  assumes "search_inv s start v added" "in_minute s K v" and off: "off mod MINUTE = 0"
  shows "searched off s start v (second_loop (fixed_clock off) s (v - off) added)
    (\<lambda>v'. ws (utc_wall v') \<in> set (bits (second s)) \<and> in_minute s K v')"
proof (rule loop_searched [where nxt = "next_unit SECOND" and size = "\<lambda>v. nat (60 - ws (utc_wall v))" and stop = "\<lambda>v. ws (utc_wall v) = 0" and
      ok = "\<lambda>w. ws w \<in> set (bits (second s))"])
  have o: "off mod SECOND = 0" using off mod_multiple [of SECOND off 60] by (simp add: units)
  show "second_loop (fixed_clock off) s (v - off) added = Some (False, v - off, added)"
    if "ws (utc_wall v) \<in> set (bits (second s))" for v added
    using that by (subst second_loop.simps) (simp add: fixed_clock_local)
  show "second_loop (fixed_clock off) s (v - off) added =
      (if ws (utc_wall (next_unit SECOND v)) = 0 then Some (True, next_unit SECOND v - off, True)
       else second_loop (fixed_clock off) s (next_unit SECOND v - off) True)"
    if "ws (utc_wall v) \<notin> set (bits (second s))" "search_inv s start v added" for v added
  proof -
    have "v mod SECOND = 0" using that(2) by (simp add: search_inv_def)
    moreover from this have "(v - off) mod SECOND = 0" using o by (metis mod_diff_eq diff_0_right mod_0)
    ultimately have "(if added then v - off else v - off - (v - off) mod SECOND) + SECOND = next_unit SECOND v - off"
      by (simp add: next_unit_def)
    with that(1) show ?thesis by (subst second_loop.simps) (simp add: fixed_clock_local Let_def)
  qed
  show "v < next_unit SECOND v \<and> search_inv s start (next_unit SECOND v) True"
    if "ws (utc_wall v) \<notin> set (bits (second s))" "search_inv s start v added" "in_minute s K v" for v added
  proof (rule unit_step [OF that(2)])
    show "aligned s (next_unit SECOND v)"
      using leaves_day [of "next_unit SECOND v" SECOND v 86400 s] leaves_hour [of "next_unit SECOND v" SECOND v 3600 s]
        leaves_minute [of "next_unit SECOND v" v s] that(3)
      by (simp add: in_minute_def in_hour_def in_day_def aligned_def Let_def units)
    show "\<not> fires s (utc_wall u)" if "u div SECOND = v div SECOND" for u
      using that \<open>ws (utc_wall v) \<notin> set (bits (second s))\<close> by (simp add: fires_def utc_wall_time)
  qed (simp_all add: units)
  show "nat (60 - ws (utc_wall (next_unit SECOND v))) < nat (60 - ws (utc_wall v)) \<and> in_minute s K (next_unit SECOND v)"
    if "ws (utc_wall (next_unit SECOND v)) \<noteq> 0" "in_minute s K v" for v
    using next_second_down [OF that(1)] in_minute_same [OF that(2)] by blast
qed (use assms in simp_all)

lemma minute_searched:
  assumes "search_inv s start v added" "in_hour s K v" and off: "off mod MINUTE = 0"
  shows "searched off s start v (minute_loop (fixed_clock off) s (v - off) added)
    (\<lambda>v'. wmi (utc_wall v') \<in> set (bits (minute s)) \<and> in_hour s K v')"
proof (rule loop_searched [where nxt = "next_unit MINUTE" and size = "\<lambda>v. nat (60 - wmi (utc_wall v))" and stop = "\<lambda>v. wmi (utc_wall v) = 0" and
      ok = "\<lambda>w. wmi w \<in> set (bits (minute s))"])
  show "minute_loop (fixed_clock off) s (v - off) added = Some (False, v - off, added)"
    if "wmi (utc_wall v) \<in> set (bits (minute s))" for v added
    using that by (subst minute_loop.simps) (simp add: fixed_clock_local)
  show "minute_loop (fixed_clock off) s (v - off) added =
      (if wmi (utc_wall (next_unit MINUTE v)) = 0 then Some (True, next_unit MINUTE v - off, True)
       else minute_loop (fixed_clock off) s (next_unit MINUTE v - off) True)"
    if "wmi (utc_wall v) \<notin> set (bits (minute s))" "search_inv s start v added" for v added
  proof -
    have "added \<longrightarrow> v mod MINUTE = 0" using that by (simp add: search_inv_def aligned_def Let_def)
    moreover have "(v - off) mod MINUTE = v mod MINUTE" using off by (metis mod_diff_right_eq diff_0_right)
    ultimately have "(if added then v - off else v - off - (v - off) mod MINUTE) + MINUTE = next_unit MINUTE v - off"
      using from_start [of added v MINUTE off] by (simp add: algebra_simps split: if_splits)
    with that(1) show ?thesis by (subst minute_loop.simps) (simp add: fixed_clock_local Let_def)
  qed
  show "v < next_unit MINUTE v \<and> search_inv s start (next_unit MINUTE v) True"
    if "wmi (utc_wall v) \<notin> set (bits (minute s))" "search_inv s start v added" "in_hour s K v" for v added
  proof (rule unit_step [OF that(2)])
    show "aligned s (next_unit MINUTE v)"
      using leaves_day [of "next_unit MINUTE v" MINUTE v 1440 s] leaves_hour [of "next_unit MINUTE v" MINUTE v 60 s]
        next_unit_start [of MINUTE 1 v] that(3)
      by (simp add: in_hour_def in_day_def aligned_def Let_def units)
    show "\<not> fires s (utc_wall u)" if "u div MINUTE = v div MINUTE" for u
      using that \<open>wmi (utc_wall v) \<notin> set (bits (minute s))\<close> by (simp add: fires_def utc_wall_time)
  qed (simp_all add: units)
  show "nat (60 - wmi (utc_wall (next_unit MINUTE v))) < nat (60 - wmi (utc_wall v)) \<and> in_hour s K (next_unit MINUTE v)"
    if "wmi (utc_wall (next_unit MINUTE v)) \<noteq> 0" "in_hour s K v" for v
    using next_minute_down [OF that(1)] in_hour_same [OF that(2)] by blast
qed (use assms in simp_all)

lemma day_number_local: "day_number (wy (utc_wall v)) (wmo (utc_wall v) - 1) (wd (utc_wall v)) = v div DAY"
  using date_of_valid(2) [OF utc_wall_date] .

lemma hour_searched:
  assumes "search_inv s start v added" "in_day s K v" and off: "off mod MINUTE = 0"
  shows "searched off s start v (hour_loop (fixed_clock off) s (v - off) added)
    (\<lambda>v'. wh (utc_wall v') \<in> set (bits (hour s)) \<and> in_day s K v')"
proof (rule loop_searched [where nxt = "next_unit HOUR" and size = "\<lambda>v. nat (24 - wh (utc_wall v))" and stop = "\<lambda>v. wh (utc_wall v) = 0" and
      ok = "\<lambda>w. wh w \<in> set (bits (hour s))"])
  show "hour_loop (fixed_clock off) s (v - off) added = Some (False, v - off, added)"
    if "wh (utc_wall v) \<in> set (bits (hour s))" for v added
    using that by (subst hour_loop.simps) (simp add: fixed_clock_local)
  show "hour_loop (fixed_clock off) s (v - off) added =
      (if wh (utc_wall (next_unit HOUR v)) = 0 then Some (True, next_unit HOUR v - off, True)
       else hour_loop (fixed_clock off) s (next_unit HOUR v - off) True)"
    if "wh (utc_wall v) \<notin> set (bits (hour s))" "search_inv s start v added" for v added
  proof -
    have a: "added \<longrightarrow> v mod HOUR = 0" using that by (simp add: search_inv_def aligned_def Let_def)
    have "24 * (v div DAY) + v div HOUR mod 24 = v div HOUR"
      using div_nested [of HOUR 24 v] mult_div_mod_eq [of 24 "v div HOUR"] by (simp add: units)
    then have "dateUTC (wy (utc_wall v)) (wmo (utc_wall v) - 1) (wd (utc_wall v)) (wh (utc_wall v)) 0 0 = HOUR * (v div HOUR)"
      unfolding dateUTC_def day_number_local utc_wall_time by (simp add: units)
    also have "\<dots> = v - v mod HOUR" using mult_div_mod_eq [of HOUR v] by linarith
    finally have g: "goDate (fixed_clock off) (wy (utc_wall v)) (wmo (utc_wall v)) (wd (utc_wall v)) (wh (utc_wall v)) 0 0 = v - v mod HOUR - off"
      unfolding goDate_fixed [OF off] by simp
    have "(if added then v - off else goDate (fixed_clock off) (wy (utc_wall v)) (wmo (utc_wall v)) (wd (utc_wall v)) (wh (utc_wall v)) 0 0)
        + HOUR = next_unit HOUR v - off"
      unfolding g by (rule from_start [OF a])
    with that(1) show ?thesis by (subst hour_loop.simps) (simp add: fixed_clock_local Let_def)
  qed
  show "v < next_unit HOUR v \<and> search_inv s start (next_unit HOUR v) True"
    if "wh (utc_wall v) \<notin> set (bits (hour s))" "search_inv s start v added" "in_day s K v" for v added
  proof (rule unit_step [OF that(2)])
    show "aligned s (next_unit HOUR v)"
      using leaves_day [of "next_unit HOUR v" HOUR v 24 s] next_unit_start [of HOUR 1 v] next_unit_start [of MINUTE 60 v] that(3)
      by (simp add: in_day_def aligned_def Let_def units)
    show "\<not> fires s (utc_wall u)" if "u div HOUR = v div HOUR" for u
      using that \<open>wh (utc_wall v) \<notin> set (bits (hour s))\<close> by (simp add: fires_def utc_wall_time)
  qed (simp_all add: units)
  show "nat (24 - wh (utc_wall (next_unit HOUR v))) < nat (24 - wh (utc_wall v)) \<and> in_day s K (next_unit HOUR v)"
    if "wh (utc_wall (next_unit HOUR v)) \<noteq> 0" "in_day s K v" for v
    using next_hour_down [OF that(1)] in_day_same [OF that(2)] by blast
qed (use assms in simp_all)

text \<open>Days: a step goes to midnight of the next day.\<close>

lemma utc_wall_midnight:
  "wh (utc_wall (DAY * D)) = 0" "wmi (utc_wall (DAY * D)) = 0" "ws (utc_wall (DAY * D)) = 0"
  "date_of D = (wy (utc_wall (DAY * D)), wmo (utc_wall (DAY * D)), wd (utc_wall (DAY * D)))"
proof -
  have "DAY * D = HOUR * (24 * D)" "DAY * D = MINUTE * (60 * (24 * D))" "DAY * D = SECOND * (60 * (1440 * D))" "HOUR \<noteq> 0" "MINUTE \<noteq> 0" "SECOND \<noteq> 0"
    by (simp_all add: units)
  then have "DAY * D div HOUR = 24 * D" "DAY * D div MINUTE = 60 * (24 * D)" "DAY * D div SECOND = 60 * (1440 * D)"
    by (metis nonzero_mult_div_cancel_left)+
  then show "wh (utc_wall (DAY * D)) = 0" "wmi (utc_wall (DAY * D)) = 0" "ws (utc_wall (DAY * D)) = 0"
    unfolding utc_wall_time by simp_all
  show "date_of D = (wy (utc_wall (DAY * D)), wmo (utc_wall (DAY * D)), wd (utc_wall (DAY * D)))"
    using utc_wall_date [of "DAY * D"] by simp
qed

lemma dateUTC_midnight: "dateUTC y mo d 0 0 0 = DAY * day_number y mo d"
  by (simp add: dateUTC_def)

definition in_month :: "spec \<Rightarrow> int \<Rightarrow> int \<Rightarrow> int \<Rightarrow> bool" where
  "in_month s y m v \<longleftrightarrow> wy (utc_wall v) = y \<and> wmo (utc_wall v) = m \<and> m \<in> set (bits (month s))"

lemma day_searched:
  assumes "search_inv s start v added" "in_month s y m v" and off: "off mod MINUTE = 0"
  shows "searched off s start v (day_loop (fixed_clock off) s (v - off) added)
    (\<lambda>v'. dayMatches s (utc_wall v') \<and> in_month s y m v')"
proof (rule loop_searched [where nxt = "next_unit DAY" and size = "\<lambda>v. nat (31 - wd (utc_wall v))" and stop = "\<lambda>v. wd (utc_wall v) = 1" and
      ok = "dayMatches s"])
  show "day_loop (fixed_clock off) s (v - off) added = Some (False, v - off, added)"
    if "dayMatches s (utc_wall v)" for v added
    using that by (subst day_loop.simps) (simp add: fixed_clock_local)
  show "day_loop (fixed_clock off) s (v - off) added =
      (if wd (utc_wall (next_unit DAY v)) = 1 then Some (True, next_unit DAY v - off, True)
       else day_loop (fixed_clock off) s (next_unit DAY v - off) True)"
    if "\<not> dayMatches s (utc_wall v)" "search_inv s start v added" for v added
  proof -
    define D where "D = v div DAY"
    have "added \<longrightarrow> v = DAY * D"
      using that mult_div_mod_eq [of DAY v] by (auto simp: search_inv_def aligned_def Let_def D_def)
    then have t1: "(if added then v - off else goDate (fixed_clock off) (wy (utc_wall v)) (wmo (utc_wall v)) (wd (utc_wall v)) 0 0 0) = DAY * D - off"
      using day_number_local [of v] by (simp add: goDate_fixed [OF off] dateUTC_midnight D_def)
    have "day_number (wy (utc_wall (DAY * D))) (wmo (utc_wall (DAY * D)) - 1) (wd (utc_wall (DAY * D)) + 1) = D + 1"
      using day_number_local [of "DAY * D"] by (simp add: day_number_add)
    then have t2: "addDate (fixed_clock off) (DAY * D - off) 0 1 = next_unit DAY v - off"
      by (simp add: addDate_fixed [OF off] Let_def utc_wall_midnight dateUTC_midnight next_unit_div D_def)
    have "wh (utc_wall (next_unit DAY v)) = 0"
      using utc_wall_midnight(1) [of "v div DAY + 1"] by (simp add: next_unit_div mult.commute)
    with that(1) t1 t2 show ?thesis by (subst day_loop.simps) (simp add: fixed_clock_local Let_def)
  qed
  show "v < next_unit DAY v \<and> search_inv s start (next_unit DAY v) True"
    if "\<not> dayMatches s (utc_wall v)" "search_inv s start v added" "in_month s y m v" for v added
  proof (rule unit_step [OF that(2)])
    have n: "next_unit DAY v div DAY = v div DAY + 1" "next_unit DAY v mod DAY = 0" by (simp_all add: next_unit_div)
    show "aligned s (next_unit DAY v)"
      using leaves_month [OF n, of s] n(2) next_unit_start [of HOUR 24 v] next_unit_start [of MINUTE 1440 v] that(3)
      by (simp add: in_month_def aligned_def Let_def units)
    show "\<not> fires s (utc_wall u)" if "u div DAY = v div DAY" for u
      using dayMatches_date [OF same_day_wall [OF that], of s] \<open>\<not> dayMatches s (utc_wall v)\<close> by (simp add: fires_def)
  qed (simp_all add: units)
  show "nat (31 - wd (utc_wall (next_unit DAY v))) < nat (31 - wd (utc_wall v)) \<and> in_month s y m (next_unit DAY v)"
    if "wd (utc_wall (next_unit DAY v)) \<noteq> 1" "in_month s y m v" for v
  proof -
    have "next_unit DAY v div DAY = v div DAY + 1" by (simp add: next_unit_div)
    with date_of_next [OF utc_wall_date, of v] utc_wall_date [of "next_unit DAY v"] that(1)
    have w: "wy (utc_wall (next_unit DAY v)) = wy (utc_wall v)" "wmo (utc_wall (next_unit DAY v)) = wmo (utc_wall v)"
      "wd (utc_wall (next_unit DAY v)) = wd (utc_wall v) + 1"
      by auto
    have "wd (utc_wall (next_unit DAY v)) \<le> 31"
      using date_of_valid(1) [OF utc_wall_date, of "next_unit DAY v"] month_len_bounds(2) [of "leap (wy (utc_wall (next_unit DAY v)))"
          "wmo (utc_wall (next_unit DAY v))"] by (simp add: valid_date_def)
    with w that(2) show ?thesis by (simp add: in_month_def)
  qed
qed (use assms in simp_all)

text \<open>Months: a step goes to midnight of the next month's first day.\<close>

definition next_month :: "int \<Rightarrow> int" where
  "next_month v = DAY * day_number (wy (utc_wall v)) (wmo (utc_wall v)) 1"

lemma next_month_wall:
  assumes "wmo (utc_wall v) = m" "wy (utc_wall v) = y"
  shows "wd (utc_wall (next_month v)) = 1" "wmo (utc_wall (next_month v)) = (if m = 12 then 1 else m + 1)"
    "wy (utc_wall (next_month v)) = (if m = 12 then y + 1 else y)" and "v < next_month v"
    and "\<And>u. v \<le> u \<Longrightarrow> u < next_month v \<Longrightarrow> wmo (utc_wall u) = m"
proof -
  have d: "date_of (v div DAY) = (y, m, wd (utc_wall v))" using utc_wall_date [of v] assms by simp
  have m: "1 \<le> m" "m \<le> 12" using date_of_valid(1) [OF d] by (auto simp: valid_date_def)
  have "date_of (day_number y m 1) = (if m = 12 then (y + 1, 1, 1) else (y, m + 1, 1))"
  proof (cases "m = 12")
    case True
    moreover have "day_number y 12 1 = day_number (y + 1) (1 - 1) 1" by (simp add: day_number_def)
    moreover have "valid_date (y + 1) 1 1" using month_len_bounds(1) [of "leap (y + 1)" 1] by (simp add: valid_date_def)
    ultimately show ?thesis using date_of_day_number [of "y + 1" 1 1] by simp
  next
    case False
    then have "valid_date y (m + 1) 1" using m month_len_bounds(1) [of "leap y" "m + 1"] by (simp add: valid_date_def)
    with False show ?thesis using date_of_day_number [of y "m + 1" 1] by simp
  qed
  with utc_wall_midnight(4) [of "day_number y m 1"]
  show "wd (utc_wall (next_month v)) = 1" "wmo (utc_wall (next_month v)) = (if m = 12 then 1 else m + 1)"
    "wy (utc_wall (next_month v)) = (if m = 12 then y + 1 else y)"
    by (auto simp: next_month_def assms split: if_splits)
  note dm = date_of_month [OF d]
  show "v < next_month v" using dm(2) div_bounds [of DAY v] by (simp add: next_month_def assms)
  fix u assume u: "v \<le> u" "u < next_month v"
  have "v div DAY \<le> u div DAY" using u(1) by (intro zdiv_mono1) auto
  moreover have "u div DAY < day_number y m 1"
    using u(2) div_bounds [of DAY u] by (simp add: next_month_def assms)
  ultimately have "date_of (u div DAY) = (y, m, u div DAY - day_number y (m - 1) 1 + 1)" using dm(1) by (intro dm(3)) auto
  with utc_wall_date [of u] show "wmo (utc_wall u) = m" by simp
qed

lemma month_searched:
  assumes "search_inv s start v added" and off: "off mod MINUTE = 0"
  shows "searched off s start v (month_loop (fixed_clock off) s (v - off) added)
    (\<lambda>v'. wmo (utc_wall v') \<in> set (bits (month s)) \<and> wy (utc_wall v') = wy (utc_wall v))"
proof (rule loop_searched [where nxt = next_month and size = "\<lambda>v. nat (12 - wmo (utc_wall v))" and stop = "\<lambda>v. wmo (utc_wall v) = 1" and
      ok = "\<lambda>w. wmo w \<in> set (bits (month s))" and C = "\<lambda>v'. wy (utc_wall v') = wy (utc_wall v)"])
  show "month_loop (fixed_clock off) s (v - off) added = Some (False, v - off, added)"
    if "wmo (utc_wall v) \<in> set (bits (month s))" for v added
    using that by (subst month_loop.simps) (simp add: fixed_clock_local)
  show "month_loop (fixed_clock off) s (v - off) added =
      (if wmo (utc_wall (next_month v)) = 1 then Some (True, next_month v - off, True)
       else month_loop (fixed_clock off) s (next_month v - off) True)"
    if "wmo (utc_wall v) \<notin> set (bits (month s))" "search_inv s start v added" for v added
  proof -
    define D where "D = day_number (wy (utc_wall v)) (wmo (utc_wall v) - 1) 1"
    have "added \<longrightarrow> v mod DAY = 0 \<and> wd (utc_wall v) = 1" using that by (simp add: search_inv_def aligned_def Let_def)
    then have "added \<longrightarrow> v = DAY * D" using day_number_local [of v] mult_div_mod_eq [of DAY v] by (auto simp: D_def)
    then have t1: "(if added then v - off else goDate (fixed_clock off) (wy (utc_wall v)) (wmo (utc_wall v)) 1 0 0 0) = DAY * D - off"
      by (simp add: goDate_fixed [OF off] dateUTC_midnight D_def)
    have "valid_date (wy (utc_wall v)) (wmo (utc_wall v)) 1"
      using date_of_valid(1) [OF utc_wall_date, of v] month_len_bounds(1) [of "leap (wy (utc_wall v))" "wmo (utc_wall v)"]
      by (simp add: valid_date_def)
    from date_of_day_number [OF this] utc_wall_midnight(4) [of D]
    have "wy (utc_wall (DAY * D)) = wy (utc_wall v)" "wmo (utc_wall (DAY * D)) = wmo (utc_wall v)" "wd (utc_wall (DAY * D)) = 1"
      by (simp_all add: D_def)
    then have t2: "addDate (fixed_clock off) (DAY * D - off) 1 0 = next_month v - off"
      by (simp add: addDate_fixed [OF off] Let_def utc_wall_midnight dateUTC_midnight next_month_def)
    from that(1) t1 t2 show ?thesis by (subst month_loop.simps) (simp add: fixed_clock_local Let_def)
  qed
  show "v < next_month v \<and> search_inv s start (next_month v) True"
    if "wmo (utc_wall v) \<notin> set (bits (month s))" "search_inv s start v added" for v added
  proof
    note n = next_month_wall [OF refl refl, of v]
    show "v < next_month v" by (rule n(4))
    have z: "next_month v mod DAY = 0" "next_month v mod HOUR = 0" "next_month v mod MINUTE = 0" "next_month v mod SECOND = 0"
      using mod_multiple [of HOUR _ 24] mod_multiple [of MINUTE _ 1440] mod_multiple [of SECOND _ 86400] by (simp_all add: next_month_def units)
    show "search_inv s start (next_month v) True"
    proof (rule search_inv_jump [OF that(2)])
      show "aligned s (next_month v)" using z n(1) by (simp add: aligned_def Let_def)
      show "\<not> fires s (utc_wall u)" if "v \<le> u" "u < next_month v" for u
        using n(5) [OF that] \<open>wmo (utc_wall v) \<notin> set (bits (month s))\<close> by (simp add: fires_def)
    qed (use n(4) z(4) in simp_all)
  qed
  show "nat (12 - wmo (utc_wall (next_month u))) < nat (12 - wmo (utc_wall u)) \<and> wy (utc_wall (next_month u)) = wy (utc_wall v)"
    if "wmo (utc_wall (next_month u)) \<noteq> 1" "wy (utc_wall u) = wy (utc_wall v)" for u
  proof -
    have "wmo (utc_wall u) \<le> 12" using date_of_valid(1) [OF utc_wall_date, of u] by (simp add: valid_date_def)
    then show ?thesis using next_month_wall(2,3) [OF refl refl, of u] that by (simp split: if_splits)
  qed
qed (use assms in simp_all)

section \<open>The whole search\<close>

lemma searched_and_then:
  assumes "searched off s start v r P"
    and "\<And>v' added. search_inv s start v' added \<Longrightarrow> P v' \<Longrightarrow> searched off s start v' (f (v' - off) added) Q"
  shows "searched off s start v (and_then r f) Q"
proof -
  obtain wrapped v' added where r: "r = Some (wrapped, v' - off, added)" "search_inv s start v' added" "v \<le> v'"
    "if wrapped then v < v' else P v'"
    using assms(1) by (auto simp: searched_def)
  show ?thesis
  proof (cases wrapped)
    case True
    with r show ?thesis by (auto simp: searched_def and_then_def)
  next
    case False
    with r assms(2) have "searched off s start v' (f (v' - off) added) Q" by simp
    then obtain w v'' a where f: "f (v' - off) added = Some (w, v'' - off, a)" "search_inv s start v'' a" "v' \<le> v''"
      "if w then v' < v'' else Q v''"
      by (auto simp: searched_def)
    have "and_then r f = Some (w, v'' - off, a)" using r(1) False f(1) by (simp add: and_then_def)
    moreover have "v \<le> v''" "w \<Longrightarrow> v < v''" using f(3,4) r(3) by auto
    ultimately show ?thesis using f(2,4) by (auto simp: searched_def)
  qed
qed

lemma one_pass_searched:
  assumes "search_inv s start v added" and off: "off mod MINUTE = 0"
  shows "searched off s start v (one_pass (fixed_clock off) s (v - off) added)
    (\<lambda>v'. fires s (utc_wall v') \<and> wy (utc_wall v') = wy (utc_wall v))"
  unfolding one_pass_def
proof (rule searched_and_then [OF month_searched [OF assms]])
  fix v1 a1 assume i: "search_inv s start v1 a1"
    and m: "wmo (utc_wall v1) \<in> set (bits (month s)) \<and> wy (utc_wall v1) = wy (utc_wall v)"
  then have "in_month s (wy (utc_wall v)) (wmo (utc_wall v1)) v1" by (simp add: in_month_def)
  note day = day_searched [OF i this off]
  show "searched off s start v1 (and_then (day_loop (fixed_clock off) s (v1 - off) a1) (\<lambda>t added.
      and_then (hour_loop (fixed_clock off) s t added) (\<lambda>t added.
      and_then (minute_loop (fixed_clock off) s t added) (\<lambda>t added. second_loop (fixed_clock off) s t added))))
    (\<lambda>v'. fires s (utc_wall v') \<and> wy (utc_wall v') = wy (utc_wall v))"
  proof (rule searched_and_then [OF day])
    fix v2 a2 assume i: "search_inv s start v2 a2"
      and d: "dayMatches s (utc_wall v2) \<and> in_month s (wy (utc_wall v)) (wmo (utc_wall v1)) v2"
    then have "in_day s (v2 div DAY) v2" by (simp add: in_day_def in_month_def)
    note hour = hour_searched [OF i this off]
    have year: "wy (utc_wall v3) = wy (utc_wall v)" if "v3 div DAY = v2 div DAY" for v3
      using same_day_wall [OF that] d by (simp add: in_month_def)
    show "searched off s start v2 (and_then (hour_loop (fixed_clock off) s (v2 - off) a2) (\<lambda>t added.
        and_then (minute_loop (fixed_clock off) s t added) (\<lambda>t added. second_loop (fixed_clock off) s t added)))
      (\<lambda>v'. fires s (utc_wall v') \<and> wy (utc_wall v') = wy (utc_wall v))"
    proof (rule searched_and_then [OF hour])
      fix v3 a3 assume i: "search_inv s start v3 a3" and h: "wh (utc_wall v3) \<in> set (bits (hour s)) \<and> in_day s (v2 div DAY) v3"
      then have "in_hour s (v3 div HOUR) v3" by (simp add: in_hour_def in_day_def)
      note minute = minute_searched [OF i this off]
      show "searched off s start v3 (and_then (minute_loop (fixed_clock off) s (v3 - off) a3) (\<lambda>t added. second_loop (fixed_clock off) s t added))
        (\<lambda>v'. fires s (utc_wall v') \<and> wy (utc_wall v') = wy (utc_wall v))"
      proof (rule searched_and_then [OF minute])
        fix v4 a4 assume i: "search_inv s start v4 a4" and mi: "wmi (utc_wall v4) \<in> set (bits (minute s)) \<and> in_hour s (v3 div HOUR) v4"
        then have "in_minute s (v4 div MINUTE) v4" by (simp add: in_minute_def in_hour_def)
        note second = second_searched [OF i this off]
        have fire: "fires s (utc_wall v5) \<and> wy (utc_wall v5) = wy (utc_wall v)"
          if "ws (utc_wall v5) \<in> set (bits (second s))" "in_minute s (v4 div MINUTE) v5" for v5
        proof
          show "fires s (utc_wall v5)" using that by (simp add: fires_def in_minute_def in_hour_def in_day_def)
          have "v5 div MINUTE = v4 div MINUTE" "v4 div HOUR = v3 div HOUR" "v3 div DAY = v2 div DAY"
            using that(2) mi h by (simp_all add: in_minute_def in_hour_def in_day_def)
          then have "v5 div DAY = v2 div DAY" by (metis unit_divs(2,3))
          then show "wy (utc_wall v5) = wy (utc_wall v)" by (rule year)
        qed
        from second obtain w v' a where r: "second_loop (fixed_clock off) s (v4 - off) a4 = Some (w, v' - off, a)" "search_inv s start v' a"
          "v4 \<le> v'" "if w then v4 < v' else ws (utc_wall v') \<in> set (bits (second s)) \<and> in_minute s (v4 div MINUTE) v'"
          by (auto simp: searched_def)
        with fire [of v'] show "searched off s start v4 (second_loop (fixed_clock off) s (v4 - off) a4)
            (\<lambda>v'. fires s (utc_wall v') \<and> wy (utc_wall v') = wy (utc_wall v))"
          by (auto simp: searched_def split: if_splits)
      qed
    qed
  qed
qed

text \<open>Years and instants are in the same order.\<close>

lemma year_bounds: "year_day (wy (utc_wall v)) * DAY \<le> v" "v < year_day (wy (utc_wall v) + 1) * DAY"
  using date_of_year [OF utc_wall_date, of v] div_bounds [of DAY v] by linarith+

lemma year_less: "wy (utc_wall u) < wy (utc_wall v) \<Longrightarrow> u < v"
  using year_bounds(2) [of u] year_bounds(1) [of v] year_day_mono [of "wy (utc_wall u) + 1" "wy (utc_wall v)"] by simp

lemma wrap_loop_searched:
  assumes "search_inv s start v added" and off: "off mod MINUTE = 0"
  shows "case wrap_loop (fixed_clock off) s L (v - off) added of
      None \<Rightarrow> False
    | Some None \<Rightarrow> \<exists>v' added. search_inv s start v' added \<and> L < wy (utc_wall v')
    | Some (Some t) \<Rightarrow> \<exists>added. search_inv s start (t + off) added \<and> fires s (utc_wall (t + off)) \<and> wy (utc_wall (t + off)) \<le> L"
  using assms(1)
proof (induction "nat (year_day (L + 1) * DAY - v)" arbitrary: v added rule: less_induct)
  case less
  show ?case
  proof (cases "wy (utc_wall v) > L")
    case True
    then have "wrap_loop (fixed_clock off) s L (v - off) added = Some None"
      by (subst wrap_loop.simps) (simp add: fixed_clock_local)
    with True less.prems show ?thesis by auto
  next
    case False
    from one_pass_searched [OF less.prems off] obtain w v' a
      where r: "one_pass (fixed_clock off) s (v - off) added = Some (w, v' - off, a)" "search_inv s start v' a" "v \<le> v'"
        "if w then v < v' else fires s (utc_wall v') \<and> wy (utc_wall v') = wy (utc_wall v)"
      by (auto simp: searched_def)
    have st: "wrap_loop (fixed_clock off) s L (v - off) added =
        (if w then wrap_loop (fixed_clock off) s L (v' - off) a else Some (Some (v' - off)))"
      by (subst wrap_loop.simps) (use False r(1) in \<open>simp add: fixed_clock_local\<close>)
    show ?thesis
    proof (cases w)
      case True
      have "v < year_day (L + 1) * DAY"
        using year_bounds(2) [of v] year_day_mono [of "wy (utc_wall v) + 1" "L + 1"] False by simp
      with r(4) True have "nat (year_day (L + 1) * DAY - v') < nat (year_day (L + 1) * DAY - v)" by simp
      from less.hyps [OF this r(2)] st True show ?thesis by simp
    next
      case w: False
      with r st False show ?thesis by auto
    qed
  qed
qed

section \<open>Properties\<close>

lemma no_second_between:
  assumes "u mod SECOND = 0" "a < u"
  shows "next_unit SECOND a \<le> u"
proof -
  have u: "u = SECOND * (u div SECOND)" using assms(1) mult_div_mod_eq [of SECOND u] by simp
  have "\<not> u div SECOND \<le> a div SECOND"
  proof
    assume "u div SECOND \<le> a div SECOND"
    then have "SECOND * (u div SECOND) \<le> SECOND * (a div SECOND)" using unit_pos(1) by (intro mult_left_mono) auto
    with u assms(2) div_bounds [OF unit_pos(1), of a] show False by linarith
  qed
  then have "(a div SECOND + 1) * SECOND \<le> u div SECOND * SECOND" using unit_pos(1) by (intro mult_right_mono) auto
  with u show ?thesis by (metis mult.commute next_unit_div)
qed

lemma search_inv_start:
  assumes "from' + off = a" "off mod MINUTE = 0"
  shows "search_inv s a (from' - from' mod SECOND + SECOND + off) False"
proof -
  have o: "off mod SECOND = 0" using assms(2) mod_multiple [of SECOND off 60] by (simp add: units)
  then have a: "a mod SECOND = from' mod SECOND" using assms(1) mod_add_multiple [OF o, of from'] by simp
  have v: "from' - from' mod SECOND + SECOND + off = next_unit SECOND a" using assms(1) a by (simp add: next_unit_def)
  show ?thesis unfolding search_inv_def v
  proof (intro conjI allI impI)
    show "next_unit SECOND a mod SECOND = 0" using next_unit_start [OF unit_pos(1), of 1 a] by simp
    show "a < next_unit SECOND a" by (rule next_unit_gt [OF unit_pos(1)])
    show "\<not> fires s (utc_wall u)" if "a < u \<and> u < next_unit SECOND a \<and> u mod SECOND = 0" for u
      using no_second_between [of u a] that by (meson not_less)
  qed simp
qed

lemma no_fire_between:
  assumes "search_inv s a v added" "off mod MINUTE = 0" "from' + off = a"
  shows "from' < u \<and> u + off < v \<and> u mod SECOND = 0 \<longrightarrow> \<not> fires s (utc_wall (u + off))"
proof
  have o: "off mod SECOND = 0" using assms(2) mod_multiple [of SECOND off 60] by (simp add: units)
  assume "from' < u \<and> u + off < v \<and> u mod SECOND = 0"
  then have "a < u + off" "u + off < v" "(u + off) mod SECOND = 0" using assms(3) mod_add_multiple [OF o, of u] by auto
  with assms(1) show "\<not> fires s (utc_wall (u + off))" by (simp add: search_inv_def)
qed

lemma specNext_searched:
  assumes "\<And>t. clock (zone s) t = fixed_clock off t" and "off mod MINUTE = 0"
  shows "case specNext clock s from' of
      None \<Rightarrow> False
    | Some None \<Rightarrow> \<exists>v' added. search_inv s (from' + off) v' added \<and>
        wy (clock (zone s) (from' - from' mod SECOND + SECOND)) + 5 < wy (utc_wall v')
    | Some (Some t) \<Rightarrow> \<exists>added. search_inv s (from' + off) (t + off) added \<and> fires s (utc_wall (t + off))"
proof -
  define t0 where "t0 = from' - from' mod SECOND + SECOND"
  have clk: "clock (zone s) = fixed_clock off" using assms(1) by (simp add: fun_eq_iff)
  have "specNext clock s from' = wrap_loop (fixed_clock off) s (wy (fixed_clock off t0) + 5) (t0 + off - off) False"
    by (simp add: specNext_def clk t0_def Let_def)
  moreover have "search_inv s (from' + off) (t0 + off) False" using search_inv_start [OF refl assms(2), of s from'] by (simp add: t0_def)
  ultimately show ?thesis
    using wrap_loop_searched [of s "from' + off" "t0 + off" False off "wy (fixed_clock off t0) + 5"] assms(2)
    by (auto simp: clk t0_def [symmetric] split: option.splits)
qed


definition march_mornings :: spec where
  "march_mornings = \<lparr>second = one_of 0, minute = one_of 30, hour = one_of 9, dom = all_of DOM, month = one_of 3, dow = all_of DOW,
     zone = ''Asia/Seoul''\<rparr>"


end
