(* ===== verification/Cron_Parse.thy ===== *)
theory Cron_Parse
  imports Cron
begin

text \<open>
  What the parser of cron schedules (\<open>Cron\<close>) makes of a schedule's text: a field's text is read as the set of numbers it
  describes, a schedule that parses has fields within their bounds and a delay of whole seconds, and the descriptors are
  their five-field forms.
\<close>

section \<open>Loops over a range\<close>

lemma steps_set:
  assumes "0 < k"
  shows "set (steps a b k) = {i. a \<le> i \<and> i \<le> b \<and> k dvd (i - a)}"
  using assms
proof (induction a b k rule: steps.induct)
  case (1 a b k)
  show ?case
  proof (cases "a \<le> b")
    case True
    have "(a \<le> i \<and> k dvd (i - a)) \<longleftrightarrow> i = a \<or> (a + k \<le> i \<and> k dvd (i - (a + k)))" for i
    proof
      assume i: "a \<le> i \<and> k dvd (i - a)"
      then have "k dvd (i - (a + k))" using dvd_diff [of k "i - a" k] by (simp add: algebra_simps)
      moreover have "a + k \<le> i" if "i \<noteq> a" using zdvd_imp_le [of k "i - a"] i that by simp
      ultimately show "i = a \<or> (a + k \<le> i \<and> k dvd (i - (a + k)))" by blast
    next
      assume "i = a \<or> (a + k \<le> i \<and> k dvd (i - (a + k)))"
      then show "a \<le> i \<and> k dvd (i - a)" using \<open>0 < k\<close> dvd_add [of k "i - (a + k)" k] by auto
    qed
    then show ?thesis using True 1 by (subst steps.simps) auto
  next
    case False
    then show ?thesis by (subst steps.simps) auto
  qed
qed

lemma steps_one: "set (steps a b 1) = {a..b}"
  by (auto simp: steps_set)

lemma steps_bounds: "a \<ge> lo \<Longrightarrow> b \<le> hi \<Longrightarrow> list_all (\<lambda>i. lo \<le> i \<and> i \<le> hi) (steps a b k)"
  by (induction a b k rule: steps.induct) (subst steps.simps, auto)

section \<open>Numbers\<close>

lemma digit_char: "n < 10 \<Longrightarrow> digit (char_of (48 + n))" for n :: nat
  by (simp add: digit_def)

lemma digits_of_digits: "list_all digit (digits_of n)" "digits_of n \<noteq> []"
proof (induction n rule: digits_of.induct)
  case (1 n)
  { case 1 show ?case using "1.IH" by (subst digits_of.simps) (auto intro: digit_char) }
  { case 2 show ?case by (subst digits_of.simps) auto }
qed

lemma number_of_snoc: "number_of (s @ [c]) = 10 * number_of s + (of_char c - 48)"
  by (simp add: number_of_def)

lemma number_of_digits: "number_of (digits_of n) = int n"
proof (induction n rule: digits_of.induct)
  case (1 n)
  have c: "of_char (char_of (48 + d) :: char) = (48 :: int) + int d" if "d < 10" for d :: nat
  proof -
    have "of_char (char_of (48 + d) :: char) = (48 + d :: nat)" using that by simp
    then show ?thesis by (metis of_nat_add of_nat_numeral of_nat_of_char)
  qed
  show ?case
  proof (cases "n < 10")
    case True
    then show ?thesis by (subst digits_of.simps) (simp add: number_of_def c)
  next
    case False
    with 1 show ?thesis by (subst digits_of.simps) (simp add: number_of_snoc c of_nat_div of_nat_mod)
  qed
qed

lemma digit_not: "digit c \<Longrightarrow> c \<noteq> CHR ''-'' \<and> c \<noteq> CHR ''/'' \<and> c \<noteq> CHR '','' \<and> c \<noteq> CHR ''+'' \<and> c \<noteq> CHR ''*'' \<and> c \<noteq> CHR ''?''"
  by (auto simp: digit_def)

lemma atoi_show_nat: "atoi (show_nat n) = Some (int n)"
proof -
  have "digit (hd (digits_of n))" using digits_of_digits [of n] by (cases "digits_of n") auto
  then show ?thesis
    using digits_of_digits [of n] digit_not [of "hd (digits_of n)"] by (simp add: atoi_def show_nat_def number_of_digits Let_def)
qed

section \<open>What a field's text describes\<close>

datatype low = Star | Question | One nat | Span nat nat

type_synonym item = "low \<times> nat option"

fun show_low :: "low \<Rightarrow> string" where
  "show_low Star = ''*''"
| "show_low Question = ''?''"
| "show_low (One n) = show_nat n"
| "show_low (Span m n) = show_nat m @ ''-'' @ show_nat n"

fun show_item :: "item \<Rightarrow> string" where
  "show_item (l, None) = show_low l"
| "show_item (l, Some k) = show_low l @ ''/'' @ show_nat k"

fun item_low :: "bounds \<Rightarrow> item \<Rightarrow> int" where
  "item_low b (One n, _) = int n"
| "item_low b (Span m n, _) = int m"
| "item_low b _ = bmin b"

fun item_high :: "bounds \<Rightarrow> item \<Rightarrow> int" where
  "item_high b (One n, None) = int n"
| "item_high b (Span m n, _) = int n"
| "item_high b _ = bmax b"

definition item_step :: "item \<Rightarrow> int" where
  "item_step it = (case snd it of None \<Rightarrow> 1 | Some k \<Rightarrow> int k)"

definition item_star :: "item \<Rightarrow> bool" where
  "item_star it \<longleftrightarrow> (fst it = Star \<or> fst it = Question) \<and> item_step it \<le> 1"

definition item_set :: "bounds \<Rightarrow> item \<Rightarrow> int set" where
  "item_set b it = {i. item_low b it \<le> i \<and> i \<le> item_high b it \<and> item_step it dvd (i - item_low b it)}"

definition item_ok :: "bounds \<Rightarrow> item \<Rightarrow> bool" where
  "item_ok b it \<longleftrightarrow> bmin b \<le> item_low b it \<and> item_low b it \<le> item_high b it \<and> item_high b it \<le> bmax b \<and> item_step it \<noteq> 0"

definition plain_names :: "bounds \<Rightarrow> bool" where
  "plain_names b \<longleftrightarrow> list_all (\<lambda>(n, _). n \<noteq> [] \<and> \<not> digit (hd n)) (names b)"

lemma show_nat_chars: "c \<in> set (show_nat n) \<Longrightarrow> digit c"
  using digits_of_digits(1) [of n] by (auto simp: show_nat_def list_all_iff)

lemma show_nat_not [simp]:
  "CHR ''-'' \<notin> set (show_nat n)" "CHR ''/'' \<notin> set (show_nat n)" "CHR '','' \<notin> set (show_nat n)"
  "show_nat n \<noteq> ''*''" "show_nat n \<noteq> ''?''" "show_nat n \<noteq> []"
  using show_nat_chars [of _ n] digits_of_digits(2) [of n] by (auto simp: show_nat_def dest: digit_not)

lemma lower_digit: "digit c \<Longrightarrow> lower c = c"
  by (auto simp: digit_def lower_def Let_def)

lemma intOrName_show_nat:
  assumes "plain_names b"
  shows "intOrName (show_nat n) b = Some (int n)"
proof -
  have "toLowerCase (show_nat n) = show_nat n"
    unfolding toLowerCase_def by (rule map_idI) (blast intro: lower_digit show_nat_chars)
  moreover have "map_of (names b) (show_nat n) = None"
  proof (rule ccontr)
    assume "map_of (names b) (show_nat n) \<noteq> None"
    then obtain v where "(show_nat n, v) \<in> set (names b)" by (auto dest: map_of_SomeD)
    with assms have "\<not> digit (hd (show_nat n))" by (auto simp: plain_names_def list_all_iff)
    then show False using show_nat_chars [of "hd (show_nat n)" n] by simp
  qed
  ultimately show ?thesis by (simp add: intOrName_def atoi_show_nat)
qed

lemma split_span: "split CHR ''-'' (show_nat m @ CHR ''-'' # show_nat n) = [show_nat m, show_nat n]"
  by (simp add: split_append_sep split_single)

lemma low_high_show:
  assumes "plain_names b"
  shows "low_high (split CHR ''-'' (show_low l)) b =
    Some (item_low b (l, None), item_high b (l, None), l = Star \<or> l = Question)"
  by (cases l) (simp_all add: low_high_def split_single split_span intOrName_show_nat assms)

lemma split_item:
  "split CHR ''/'' (show_low l) = [show_low l]"
  "split CHR ''/'' (show_low l @ CHR ''/'' # show_nat k) = [show_low l, show_nat k]"
proof -
  have "CHR ''/'' \<notin> set (show_low l)" by (cases l) auto
  then show "split CHR ''/'' (show_low l) = [show_low l]"
    "split CHR ''/'' (show_low l @ CHR ''/'' # show_nat k) = [show_low l, show_nat k]"
    by (simp_all add: split_append_sep split_single)
qed

lemma single_low: "length (split CHR ''-'' (show_low l)) = 1 \<longleftrightarrow> \<not> (\<exists>m n. l = Span m n)"
  by (cases l) (simp_all add: split_single split_span)

lemma item_high_step: "item_high b (l, Some k) = (if \<exists>m n. l = Span m n then item_high b (l, None) else bmax b)"
  by (cases l) auto

lemma item_low_step: "item_low b (l, s) = item_low b (l, None)"
  by (cases l) auto

lemma getRange_show:
  assumes "plain_names b"
  shows "getRange (show_item it) b f =
    (if item_ok b it then Some \<lparr>bits = bits f @ steps (item_low b it) (item_high b it) (item_step it), star = item_star it \<or> star f\<rparr>
     else None)"
proof (cases it)
  case (Pair l s)
  show ?thesis
  proof (cases s)
    case None
    with Pair show ?thesis
      by (auto simp: getRange_def split_item low_high_show [OF assms] item_ok_def item_step_def item_star_def Let_def)
  next
    case (Some k)
    with Pair show ?thesis
      by (auto simp: getRange_def split_item low_high_show [OF assms] single_low [simplified] atoi_show_nat item_ok_def item_step_def
          item_star_def item_high_step item_low_step [of b l "Some k"] Let_def)
  qed
qed

lemma item_chars: "CHR '','' \<notin> set (show_item it)" "show_item it \<noteq> []"
proof -
  have l: "CHR '','' \<notin> set (show_low l)" "show_low l \<noteq> []" for l by (cases l; simp)+
  show "CHR '','' \<notin> set (show_item it)" "show_item it \<noteq> []" by (cases it rule: show_item.cases; simp add: l)+
qed

lemma split_items: "split CHR '','' (join '','' (map show_item its)) = (if its = [] then [[]] else map show_item its)"
  using split_join [of "map show_item its" "CHR '',''"] by (auto simp: item_chars)

lemma getRanges_show:
  assumes "plain_names b"
  shows "case getRanges (map show_item its) b f of
      None \<Rightarrow> \<not> list_all (item_ok b) its
    | Some f' \<Rightarrow> list_all (item_ok b) its \<and> set (bits f') = set (bits f) \<union> \<Union> (item_set b ` set its) \<and>
        (star f' \<longleftrightarrow> star f \<or> list_ex item_star its)"
proof (induction its arbitrary: f)
  case (Cons it its)
  have "0 < item_step it" if "item_ok b it" using that by (auto simp: item_ok_def item_step_def split: option.splits)
  then have "set (steps (item_low b it) (item_high b it) (item_step it)) = item_set b it" if "item_ok b it"
    using that by (simp add: steps_set item_set_def)
  then show ?case
    using Cons.IH [of "\<lparr>bits = bits f @ steps (item_low b it) (item_high b it) (item_step it), star = item_star it \<or> star f\<rparr>"]
    by (auto simp: getRange_show [OF assms] split: option.splits)
qed simp

section \<open>What a schedule that parses holds\<close>

definition field_ok :: "bounds \<Rightarrow> field \<Rightarrow> bool" where
  "field_ok b f \<longleftrightarrow> list_all (\<lambda>i. bmin b \<le> i \<and> i \<le> bmax b) (bits f)"

definition spec_ok :: "spec \<Rightarrow> bool" where
  "spec_ok s \<longleftrightarrow> bits (second s) = [0] \<and> field_ok MINUTES (minute s) \<and> field_ok HOURS (hour s) \<and> field_ok DOM (dom s) \<and>
     field_ok MONTHS (month s) \<and> field_ok DOW (dow s)"

definition delay_ok :: "int \<Rightarrow> bool" where
  "delay_ok d \<longleftrightarrow> SECOND \<le> d \<and> d mod SECOND = 0"

fun schedule_ok :: "schedule \<Rightarrow> bool" where
  "schedule_ok (Spec s) = spec_ok s"
| "schedule_ok (Every d) = delay_ok d"

definition ok_or_refused :: "('a \<Rightarrow> bool) \<Rightarrow> 'a option \<Rightarrow> bool" where
  "ok_or_refused P r = (case r of None \<Rightarrow> True | Some x \<Rightarrow> P x)"

lemma ok_or_refused_simps [simp]: "ok_or_refused P None" "ok_or_refused P (Some x) = P x"
  by (simp_all add: ok_or_refused_def)

lemma ok_or_refusedD: "ok_or_refused P r \<Longrightarrow> r = Some x \<Longrightarrow> P x"
  by (simp add: ok_or_refused_def)

lemma getRange_ok:
  assumes "field_ok b f" "getRange expr b f = Some f'"
  shows "field_ok b f'"
  using assms
  by (auto simp: getRange_def field_ok_def Let_def intro!: steps_bounds split: option.splits prod.splits if_splits)

lemma getRanges_ok: "field_ok b f \<Longrightarrow> ok_or_refused (field_ok b) (getRanges exprs b f)"
  by (induction exprs arbitrary: f) (auto split: option.split dest: getRange_ok)

lemma getField_ok: "ok_or_refused (field_ok b) (getField text b)"
  unfolding getField_def by (rule getRanges_ok) (simp add: field_ok_def)

lemma all_of_ok [simp]: "field_ok b (all_of b)"
  by (simp add: field_ok_def all_of_def steps_bounds)

lemma every_delay_ok: "delay_ok (every_delay d)"
proof (cases "d < of_int SECOND")
  case False
  then have "SECOND \<le> \<lfloor>d\<rfloor>" by (simp add: le_floor_iff not_less)
  then have "SECOND div SECOND \<le> \<lfloor>d\<rfloor> div SECOND" by (rule zdiv_mono1) (simp add: SECOND_def)
  with False show ?thesis by (simp add: every_delay_def delay_ok_def SECOND_def)
qed (simp add: every_delay_def delay_ok_def)

lemma parseDescriptor_ok: "ok_or_refused schedule_ok (parseDescriptor s z)"
  by (simp add: parseDescriptor_def ok_or_refused_def spec_ok_def Let_def every_delay_ok)
     (simp add: one_of_def field_ok_def MINUTES_def HOURS_def DOM_def MONTHS_def DOW_def every_delay_ok split: option.split)

lemma getField_zero: "getField ''0'' SECONDS = Some \<lparr>bits = [0], star = False\<rparr>"
  by code_simp

lemma parse_fields_ok: "ok_or_refused schedule_ok (parse_fields s z)"
  by (auto simp: parse_fields_def spec_ok_def getField_zero dest: ok_or_refusedD [OF getField_ok] split: option.splits list.splits)

lemma parseStandard_ok: "ok_or_refused schedule_ok (parseStandard known_zone s local)"
  by (simp add: parseStandard_def parse_spec_def parseDescriptor_ok parse_fields_ok split: option.split)

lemma plain_bounds: "plain_names MINUTES" "plain_names HOURS" "plain_names DOM" "plain_names MONTHS" "plain_names DOW"
  by code_simp+

section \<open>Properties\<close>

text \<open>
  The text of a field, items joined by commas, is accepted exactly when every item lies within the field's bounds and
  steps by at least one; the numbers set are then those its items describe, and the field counts as a star when an item
  is a star that does not step.
\<close>

theorem getField_items:
  assumes "b \<in> {MINUTES, HOURS, DOM, MONTHS, DOW}"
  shows "case getField (join '','' (map show_item its)) b of
      None \<Rightarrow> \<not> list_all (item_ok b) its
    | Some f \<Rightarrow> list_all (item_ok b) its \<and> set (bits f) = \<Union> (item_set b ` set its) \<and> (star f \<longleftrightarrow> list_ex item_star its)"
proof -
  have "plain_names b" using assms plain_bounds by auto
  moreover have "filter (\<lambda>e. e \<noteq> []) (split CHR '','' (join '','' (map show_item its))) = map show_item its"
    by (simp add: split_items item_chars filter_id_conv)
  ultimately show ?thesis using getRanges_show [of b its "\<lparr>bits = [], star = False\<rparr>"] by (simp add: getField_def split: option.splits)
qed

theorem getField_items_witness:
  "case getField (join '','' (map show_item [(Span 10 20, Some 5), (One 50, None), (One 58, Some 2)])) MINUTES of
      None \<Rightarrow> \<not> list_all (item_ok MINUTES) [(Span 10 20, Some 5), (One 50, None), (One 58, Some 2)]
    | Some f \<Rightarrow> list_all (item_ok MINUTES) [(Span 10 20, Some 5), (One 50, None), (One 58, Some 2)] \<and>
        set (bits f) = \<Union> (item_set MINUTES ` set [(Span 10 20, Some 5), (One 50, None), (One 58, Some 2)]) \<and>
        (star f \<longleftrightarrow> list_ex item_star [(Span 10 20, Some 5), (One 50, None), (One 58, Some 2)])"
  by (rule getField_items) simp


text \<open>
  Each descriptor parses to the schedule of its five-field form, in every zone.
\<close>

theorem descriptors_are_fields:
  "list_all (\<lambda>(descriptor, fields). parseStandard known_zone descriptor local = parseStandard known_zone fields local)
     [(''@yearly'', ''0 0 1 1 *''), (''@annually'', ''0 0 1 1 *''), (''@monthly'', ''0 0 1 * *''), (''@weekly'', ''0 0 * * 0''),
      (''@daily'', ''0 0 * * *''), (''@midnight'', ''0 0 * * *''), (''@hourly'', ''0 * * * *'')]"
  by code_simp

text \<open>The rounding of doubles that loses a second of \<^verbatim>\<open>@every 0.29h\<close>, whose delay is 1044 s in exact arithmetic.\<close>

lemma every_029h: "parseDescriptor ''@every 0.29h'' z = Some (Every 1043000)" "(29 / 100) * of_int HOUR = (1044000 :: rat)"
  by (code_simp, simp add: HOUR_def MINUTE_def SECOND_def)

end
