(* ===== verification/Cron_Run.thy ===== *)
theory Cron_Run
  imports Cron_Next Cron_Parse
begin

text \<open>
  The next run of a CronJob as the pages ask for it (\<open>nextCronRun\<close>): the parser of \<open>Cron_Parse\<close> and the search of
  \<open>Cron_Next\<close> put together, and the \<^verbatim>\<open>@every\<close> schedules.
\<close>

lemma delay_okD: "delay_ok d \<Longrightarrow> 0 < d" "delay_ok d \<Longrightarrow> d mod SECOND = 0"
  by (simp_all add: delay_ok_def SECOND_def)

lemma next_multiple:
  fixes delay d :: int
  assumes "0 < delay"
  shows "d < (d div delay + 1) * delay" "(d div delay + 1) * delay - delay \<le> d"
  using div_bounds [OF assms, of d] by (simp_all add: algebra_simps)

lemma first_multiple:
  fixes x d k :: int
  assumes "0 < d" "x < k * d" "k * d - d \<le> x"
  shows "x < max 1 k * d" "max 1 k = 1 \<or> max 1 k * d - d \<le> x"
proof -
  have "k * d \<le> max 1 k * d" using assms(1) by (intro mult_right_mono) auto
  with assms(2) show "x < max 1 k * d" by linarith
  show "max 1 k = 1 \<or> max 1 k * d - d \<le> x" using assms(3) by (cases "1 \<le> k") (simp_all add: max_def)
qed

lemma every_next_count:
  assumes "delay_ok delay"
  shows "\<exists>k \<ge> 1. every_next delay at_ms (Some st) = st - st mod SECOND + k * delay \<and> at_ms < st - st mod SECOND + k * delay \<and>
    (k = 1 \<or> st - st mod SECOND + k * delay - delay \<le> at_ms)"
proof -
  define first k where "first = st - st mod SECOND" and "k = (at_ms - first) div delay + 1"
  note b = next_multiple [OF delay_okD(1) [OF assms], of "at_ms - first", folded k_def]
  have e: "every_next delay at_ms (Some st) = first + max 1 k * delay"
    by (simp add: every_next_def first_def k_def Let_def)
  have "at_ms < first + max 1 k * delay" "max 1 k = 1 \<or> first + max 1 k * delay - delay \<le> at_ms"
    using first_multiple [OF delay_okD(1) [OF assms] b] by linarith+
  then show ?thesis unfolding e first_def [symmetric] by (intro exI [of _ "max 1 k"]) simp
qed

lemma every_next_later:
  assumes "delay_ok delay"
  shows "at_ms < every_next delay at_ms start" "every_next delay at_ms start mod SECOND = 0"
proof -
  have m: "(x - x mod SECOND + k * delay) mod SECOND = 0" for x k
    using delay_okD(2) [OF assms] mod_multiple [of SECOND] by (metis dvd_add dvd_eq_mod_eq_0 dvd_minus_mod dvd_mult)
  show "at_ms < every_next delay at_ms start"
  proof (cases start)
    case None
    have "at_ms mod SECOND < SECOND" by (rule pos_mod_bound) (simp add: SECOND_def)
    with None assms show ?thesis by (simp add: every_next_def delay_ok_def)
  next
    case (Some st)
    with every_next_count [OF assms, of at_ms st] show ?thesis by auto
  qed
  show "every_next delay at_ms start mod SECOND = 0"
    using m [of at_ms 1] m by (cases start) (simp_all add: every_next_def Let_def)
qed

lemma specNext_later:
  assumes "\<And>t. clock (zone s) t = fixed_clock off t" and "off mod MINUTE = 0"
  shows "case specNext clock s from' of None \<Rightarrow> False | Some r \<Rightarrow> ok_or_refused (\<lambda>t. from' < t \<and> t mod SECOND = 0) r"
proof -
  have o: "off mod SECOND = 0" using assms(2) mod_multiple [of SECOND off 60] by (simp add: units)
  have "from' < t \<and> t mod SECOND = 0" if "search_inv s (from' + off) (t + off) added" for t added
    using that mod_add_multiple [OF o, of t] by (simp add: search_inv_def)
  then show ?thesis using specNext_searched [of clock, OF assms, of from'] by (auto split: option.splits)
qed

section \<open>Properties\<close>

text \<open>
  An \<^verbatim>\<open>@every\<close> schedule that counts from a start runs next at the first whole number of delays after that start's
  second, at least one, that lies after now; without a start it runs one delay after the current second. Either way the
  next run is later than now.
\<close>

theorem every_next_first:
  assumes "delay_ok delay"
  shows "case start of
      None \<Rightarrow> every_next delay at_ms start = at_ms - at_ms mod SECOND + delay \<and> at_ms < every_next delay at_ms start
    | Some st \<Rightarrow> \<exists>k \<ge> 1. every_next delay at_ms start = st - st mod SECOND + k * delay \<and> at_ms < every_next delay at_ms start \<and>
        (k = 1 \<or> every_next delay at_ms start - delay \<le> at_ms)"
proof (cases start)
  case None
  with every_next_later [OF assms, of at_ms start] show ?thesis by (simp add: every_next_def)
next
  case (Some st)
  with every_next_count [OF assms, of at_ms st] show ?thesis by auto
qed

theorem every_next_first_witness:
  "every_next 90000 1000500 (Some 700250) = 700000 + 4 * 90000 \<and> (\<exists>k \<ge> 1. every_next 90000 1000500 (Some 700250) = 700000 + k * 90000 \<and>
     1000500 < every_next 90000 1000500 (Some 700250) \<and> (k = 1 \<or> every_next 90000 1000500 (Some 700250) - 90000 \<le> 1000500))"
  using every_next_first [of 90000 1000500 "Some 700250"] by (simp add: delay_ok_def SECOND_def) (simp add: every_next_def SECOND_def)



end
