(* ===== verification/Session.thy ===== *)
theory Session
  imports Prelude
begin

text \<open>
  The signed-in session of a tab (\<^verbatim>\<open>frontend/src/services/auth.ts\<close>): the marks in the browser's storage, the notice that
  a session ended, what a refused request does, and the loop that keeps the session alive while the user is active.

  Times are integers, milliseconds since 1970, and are arguments where the code reads the clock. A fetch is counted, and
  its answer is an operation of its own. The two storages are on or off together, as a browser setting turns them;
  code that only keeps the server-side build from failing (\<^verbatim>\<open>typeof window\<close>) has no counterpart.
\<close>

section \<open>The tab\<close>

definition REDIRECT_AFTER_LOGIN_KEY :: string where "REDIRECT_AFTER_LOGIN_KEY = ''kubeast:redirect-after-login''"
definition SIGNED_IN_KEY :: string where "SIGNED_IN_KEY = ''kubeast:signed-in''"
definition SESSION_ENDED_KEY :: string where "SESSION_ENDED_KEY = ''kubeast:session-ended''"
definition FLOATING_SESSION_KEY :: string where "FLOATING_SESSION_KEY = ''kubest.floatingChat.sessionId''"

lemmas storage_keys = REDIRECT_AFTER_LOGIN_KEY_def SIGNED_IN_KEY_def SESSION_ENDED_KEY_def FLOATING_SESSION_KEY_def

record tab =
  storageOn :: bool
  localStorage :: "string \<rightharpoonup> string"
  sessionStorage :: "string \<rightharpoonup> string"
  pathname :: string
  search :: string
  assigned :: "string list"
  logouts :: nat
  refreshes :: nat
  refreshInFlight :: bool
  handlingUnauthorized :: bool

section \<open>Marks and notices\<close>

definition markSignedIn :: "tab \<Rightarrow> tab" where
  "markSignedIn t = (if storageOn t then t\<lparr>localStorage := (localStorage t)(SIGNED_IN_KEY \<mapsto> ''1'')\<rparr> else t)"

definition noteSessionEnded :: "tab \<Rightarrow> tab" where
  "noteSessionEnded t =
     (if \<not> storageOn t then t
      else if localStorage t SIGNED_IN_KEY \<noteq> Some ''1'' then t
      else t\<lparr>localStorage := (localStorage t)(SIGNED_IN_KEY := None),
             sessionStorage := (sessionStorage t)(SESSION_ENDED_KEY \<mapsto> ''1'')\<rparr>)"

definition sessionEndedNotice :: "tab \<Rightarrow> bool" where
  "sessionEndedNotice t \<longleftrightarrow> storageOn t \<and> sessionStorage t SESSION_ENDED_KEY = Some ''1''"

definition clearSessionEndedNotice :: "tab \<Rightarrow> tab" where
  "clearSessionEndedNotice t =
     (if storageOn t then t\<lparr>sessionStorage := (sessionStorage t)(SESSION_ENDED_KEY := None)\<rparr> else t)"

definition forgetFloatingChat :: "tab \<Rightarrow> tab" where
  "forgetFloatingChat t =
     (if storageOn t then t\<lparr>sessionStorage := (sessionStorage t)(FLOATING_SESSION_KEY := None)\<rparr> else t)"

definition logoutSession :: "tab \<Rightarrow> tab" where
  "logoutSession t =
     (let t1 = forgetFloatingChat t;
          t2 = (if storageOn t1 then t1\<lparr>localStorage := (localStorage t1)(SIGNED_IN_KEY := None)\<rparr> else t1) in
      t2\<lparr>logouts := logouts t2 + 1\<rparr>)"

definition getRedirectAfterLogin :: "tab \<Rightarrow> string option" where
  "getRedirectAfterLogin t =
     (if \<not> storageOn t then None
      else let value = trim (case sessionStorage t REDIRECT_AFTER_LOGIN_KEY of Some v \<Rightarrow> v | None \<Rightarrow> []) in
        if value = [] then None else Some value)"

definition clearRedirectAfterLogin :: "tab \<Rightarrow> tab" where
  "clearRedirectAfterLogin t =
     (if storageOn t then t\<lparr>sessionStorage := (sessionStorage t)(REDIRECT_AFTER_LOGIN_KEY := None)\<rparr> else t)"

section \<open>A refused request\<close>

definition handleUnauthorized :: "tab \<Rightarrow> tab" where
  "handleUnauthorized t =
     (if pathname t = ''/login'' then t
      else if handlingUnauthorized t then t
      else
        let t1 = t\<lparr>handlingUnauthorized := True\<rparr>;
            t2 = logoutSession (noteSessionEnded t1);
            t3 = (if storageOn t2
                  then t2\<lparr>sessionStorage := (sessionStorage t2)(REDIRECT_AFTER_LOGIN_KEY \<mapsto> pathname t2 @ search t2)\<rparr> else t2) in
        t3\<lparr>assigned := assigned t3 @ [''/login'']\<rparr>)"

definition SESSION_END_REPEAT_MS :: int where "SESSION_END_REPEAT_MS = 60 * 1000"

text \<open>The answer of \<^verbatim>\<open>/auth/me\<close> is its status, or none for a network failure.\<close>

definition liveSessionEnded :: "int \<Rightarrow> int \<Rightarrow> int option \<Rightarrow> tab \<Rightarrow> bool \<times> tab" where
  "liveSessionEnded now lastEnd me t =
     (if now - lastEnd \<ge> SESSION_END_REPEAT_MS \<and> me \<noteq> Some 401 then (True, t) else (False, handleUnauthorized t))"

definition refreshSession :: "tab \<Rightarrow> tab" where
  "refreshSession t = (if refreshInFlight t then t else t\<lparr>refreshInFlight := True, refreshes := refreshes t + 1\<rparr>)"

definition refresh_answered :: "int option \<Rightarrow> tab \<Rightarrow> tab" where
  "refresh_answered status t =
     (if status = Some 401 then handleUnauthorized t else t)\<lparr>refreshInFlight := False\<rparr>"

section \<open>Keeping the session alive\<close>

record keepalive =
  refreshAfterMs :: int
  lastActivity :: int
  lastRefresh :: int

definition startSessionKeepalive :: "int \<Rightarrow> int \<Rightarrow> keepalive" where
  "startSessionKeepalive ttlMinutes now =
     (let ttlMs = max 1 ttlMinutes * 60 * 1000 in
      \<lparr>refreshAfterMs = max (60 * 1000) (ttlMs div 2), lastActivity = now, lastRefresh = now\<rparr>)"

definition markActivity :: "int \<Rightarrow> keepalive \<Rightarrow> keepalive" where
  "markActivity now k = k\<lparr>lastActivity := now\<rparr>"

definition tick :: "int \<Rightarrow> bool \<Rightarrow> keepalive \<Rightarrow> bool \<times> keepalive" where
  "tick now hidden k =
     (if hidden then (False, k)
      else if lastActivity k \<le> lastRefresh k then (False, k)
      else if now - lastRefresh k < refreshAfterMs k then (False, k)
      else (True, k\<lparr>lastRefresh := now\<rparr>))"

text \<open>What a tab sees: an activity event, and a tick (the minute's timer or a change of visibility), hidden or not.\<close>

datatype tab_event = Activity int | Tick int bool

fun event_time :: "tab_event \<Rightarrow> int" where
  "event_time (Activity t) = t"
| "event_time (Tick t _) = t"

fun refresh_times :: "keepalive \<Rightarrow> tab_event list \<Rightarrow> int list" where
  "refresh_times k [] = []"
| "refresh_times k (Activity t # evs) = refresh_times (markActivity t k) evs"
| "refresh_times k (Tick t hidden # evs) =
     (case tick t hidden k of (asked, k') \<Rightarrow> if asked then t # refresh_times k' evs else refresh_times k' evs)"

section \<open>The account behind the marks\<close>

text \<open>
  What the marks stand for: whether this browser is signed in, and whether the sign-in page owes the user the notice.
  \<open>Lost\<close> is a session that ends without the user signing out.
\<close>

datatype account_event = SignIn | SignOut | Lost | Seen

record account =
  signed_in :: bool
  owed :: bool

fun account_step :: "account_event \<Rightarrow> account \<Rightarrow> account" where
  "account_step SignIn a = a\<lparr>signed_in := True\<rparr>"
| "account_step SignOut a = a\<lparr>signed_in := False\<rparr>"
| "account_step Lost a = \<lparr>signed_in = False, owed = owed a \<or> signed_in a\<rparr>"
| "account_step Seen a = a\<lparr>owed := False\<rparr>"

definition account_of :: "tab \<Rightarrow> account" where
  "account_of t = \<lparr>signed_in = (localStorage t SIGNED_IN_KEY = Some ''1''), owed = sessionEndedNotice t\<rparr>"

text \<open>The operations of the tab, and the events of the account each of them is.\<close>

datatype tab_op = MarkSignedIn | NoteSessionEnded | ClearNotice | Logout | Unauthorized | Refresh | RefreshAnswered "int option" |
  ClearRedirect | LiveSessionEnded int int "int option" | PageLoad string string

fun tab_step :: "tab_op \<Rightarrow> tab \<Rightarrow> tab" where
  "tab_step MarkSignedIn t = markSignedIn t"
| "tab_step NoteSessionEnded t = noteSessionEnded t"
| "tab_step ClearNotice t = clearSessionEndedNotice t"
| "tab_step Logout t = logoutSession t"
| "tab_step Unauthorized t = handleUnauthorized t"
| "tab_step Refresh t = refreshSession t"
| "tab_step (RefreshAnswered status) t = refresh_answered status t"
| "tab_step ClearRedirect t = clearRedirectAfterLogin t"
| "tab_step (LiveSessionEnded now lastEnd me) t = snd (liveSessionEnded now lastEnd me t)"
| "tab_step (PageLoad p q) t = t\<lparr>pathname := p, search := q, handlingUnauthorized := False, refreshInFlight := False\<rparr>"

definition takes_unauthorized :: "tab \<Rightarrow> bool" where
  "takes_unauthorized t \<longleftrightarrow> pathname t \<noteq> ''/login'' \<and> \<not> handlingUnauthorized t"

fun account_events :: "tab_op \<Rightarrow> tab \<Rightarrow> account_event list" where
  "account_events MarkSignedIn t = [SignIn]"
| "account_events NoteSessionEnded t = [Lost]"
| "account_events ClearNotice t = [Seen]"
| "account_events Logout t = [SignOut]"
| "account_events Unauthorized t = (if takes_unauthorized t then [Lost] else [])"
| "account_events (RefreshAnswered status) t = (if status = Some 401 \<and> takes_unauthorized t then [Lost] else [])"
| "account_events (LiveSessionEnded now lastEnd me) t =
     (if (now - lastEnd < SESSION_END_REPEAT_MS \<or> me = Some 401) \<and> takes_unauthorized t then [Lost] else [])"
| "account_events _ t = []"

fun tab_run :: "tab_op list \<Rightarrow> tab \<Rightarrow> tab" where
  "tab_run [] t = t"
| "tab_run (op # ops) t = tab_run ops (tab_step op t)"

fun account_run :: "tab_op list \<Rightarrow> tab \<Rightarrow> account_event list" where
  "account_run [] t = []"
| "account_run (op # ops) t = account_events op t @ account_run ops (tab_step op t)"

fun on_page :: "tab_op \<Rightarrow> bool" where
  "on_page (PageLoad _ _) = False"
| "on_page _ = True"

section \<open>The marks implement the account\<close>

lemmas tab_ops = markSignedIn_def noteSessionEnded_def clearSessionEndedNotice_def forgetFloatingChat_def logoutSession_def
  clearRedirectAfterLogin_def handleUnauthorized_def liveSessionEnded_def refreshSession_def refresh_answered_def

lemma storage_stays: "storageOn (tab_step op t) = storageOn t"
  by (cases op) (auto simp: tab_ops Let_def)

lemma handleUnauthorized_account:
  assumes "storageOn t"
  shows "account_of (handleUnauthorized t) = fold account_step (if takes_unauthorized t then [Lost] else []) (account_of t)"
  using assms by (auto simp: handleUnauthorized_def takes_unauthorized_def account_of_def sessionEndedNotice_def tab_ops storage_keys Let_def)

lemma tab_step_account:
  assumes "storageOn t"
  shows "account_of (tab_step op t) = fold account_step (account_events op t) (account_of t)"
proof -
  have frame: "account_of (t'\<lparr>refreshInFlight := b\<rparr>) = account_of t'" for t' b by (simp add: account_of_def sessionEndedNotice_def)
  show ?thesis
  proof (cases op)
    case (RefreshAnswered status)
    then show ?thesis using handleUnauthorized_account [OF assms] by (simp add: refresh_answered_def frame)
  next
    case (LiveSessionEnded now lastEnd me)
    then show ?thesis using handleUnauthorized_account [OF assms] by (auto simp: liveSessionEnded_def not_le)
  next
    case Unauthorized
    then show ?thesis using handleUnauthorized_account [OF assms] by simp
  qed (use assms in \<open>auto simp: account_of_def sessionEndedNotice_def tab_ops storage_keys Let_def\<close>)
qed

lemma tab_run_account:
  "storageOn t \<Longrightarrow> account_of (tab_run ops t) = fold account_step (account_run ops t) (account_of t)"
  by (induction ops arbitrary: t) (simp_all add: tab_step_account storage_stays)

text \<open>The account in terms of its history.\<close>

definition was_signed_in :: "account_event list \<Rightarrow> bool" where
  "was_signed_in evs \<longleftrightarrow> (\<exists>xs ys. evs = xs @ SignIn # ys \<and> SignOut \<notin> set ys \<and> Lost \<notin> set ys)"

definition notice_due :: "account_event list \<Rightarrow> bool" where
  "notice_due evs \<longleftrightarrow> (\<exists>xs ys. evs = xs @ Lost # ys \<and> Seen \<notin> set ys \<and> was_signed_in xs)"

lemma snoc_split: "zs @ [e] = xs @ x # ys \<longleftrightarrow> ys = [] \<and> xs = zs \<and> x = e \<or> (\<exists>ys'. ys = ys' @ [e] \<and> zs = xs @ x # ys')"
  by (cases ys rule: rev_cases) auto

lemma was_signed_in_snoc:
  "was_signed_in (evs @ [e]) \<longleftrightarrow> e = SignIn \<or> (e \<noteq> SignOut \<and> e \<noteq> Lost \<and> was_signed_in evs)"
proof
  assume "was_signed_in (evs @ [e])"
  then obtain xs ys where "evs @ [e] = xs @ SignIn # ys" "SignOut \<notin> set ys" "Lost \<notin> set ys" by (auto simp: was_signed_in_def)
  then show "e = SignIn \<or> (e \<noteq> SignOut \<and> e \<noteq> Lost \<and> was_signed_in evs)"
    unfolding snoc_split was_signed_in_def by fastforce
next
  assume "e = SignIn \<or> (e \<noteq> SignOut \<and> e \<noteq> Lost \<and> was_signed_in evs)"
  then show "was_signed_in (evs @ [e])"
  proof
    assume "e = SignIn"
    then show ?thesis unfolding was_signed_in_def by (intro exI [of _ evs] exI [of _ "[]"]) simp
  next
    assume e: "e \<noteq> SignOut \<and> e \<noteq> Lost \<and> was_signed_in evs"
    then obtain xs ys where "evs = xs @ SignIn # ys" "SignOut \<notin> set ys" "Lost \<notin> set ys" by (auto simp: was_signed_in_def)
    with e show ?thesis unfolding was_signed_in_def by (intro exI [of _ xs] exI [of _ "ys @ [e]"]) auto
  qed
qed

lemma notice_due_snoc:
  "notice_due (evs @ [e]) \<longleftrightarrow> (e = Lost \<and> was_signed_in evs) \<or> (e \<noteq> Seen \<and> notice_due evs)"
proof
  assume "notice_due (evs @ [e])"
  then obtain xs ys where "evs @ [e] = xs @ Lost # ys" "Seen \<notin> set ys" "was_signed_in xs" by (auto simp: notice_due_def)
  then show "(e = Lost \<and> was_signed_in evs) \<or> (e \<noteq> Seen \<and> notice_due evs)"
    unfolding snoc_split notice_due_def by fastforce
next
  assume "(e = Lost \<and> was_signed_in evs) \<or> (e \<noteq> Seen \<and> notice_due evs)"
  then show "notice_due (evs @ [e])"
  proof
    assume "e = Lost \<and> was_signed_in evs"
    then show ?thesis unfolding notice_due_def by (intro exI [of _ evs] exI [of _ "[]"]) simp
  next
    assume e: "e \<noteq> Seen \<and> notice_due evs"
    then obtain xs ys where "evs = xs @ Lost # ys" "Seen \<notin> set ys" "was_signed_in xs" by (auto simp: notice_due_def)
    with e show ?thesis unfolding notice_due_def by (intro exI [of _ xs] exI [of _ "ys @ [e]"]) auto
  qed
qed

lemma account_history:
  "fold account_step evs \<lparr>signed_in = False, owed = False\<rparr> = \<lparr>signed_in = was_signed_in evs, owed = notice_due evs\<rparr>"
proof (induction evs rule: rev_induct)
  case Nil
  show ?case by (simp add: was_signed_in_def notice_due_def)
next
  case (snoc e evs)
  then show ?case by (cases e) (auto simp: was_signed_in_snoc notice_due_snoc)
qed

section \<open>One redirect per page\<close>

lemma handleUnauthorized_once:
  "handlingUnauthorized t \<Longrightarrow> handleUnauthorized t = t"
  "assigned (handleUnauthorized t) = assigned t @ (if takes_unauthorized t then [''/login''] else [])"
  "handlingUnauthorized (handleUnauthorized t) \<longleftrightarrow> handlingUnauthorized t \<or> takes_unauthorized t"
  by (auto simp: takes_unauthorized_def tab_ops Let_def)

lemma tab_step_handling:
  assumes "on_page op"
  shows "handlingUnauthorized t \<Longrightarrow> handlingUnauthorized (tab_step op t) \<and> assigned (tab_step op t) = assigned t"
    and "assigned (tab_step op t) = assigned t \<or> (assigned (tab_step op t) = assigned t @ [''/login''] \<and> handlingUnauthorized (tab_step op t))"
proof -
  have plain: "handlingUnauthorized (tab_step op t) = handlingUnauthorized t \<and> assigned (tab_step op t) = assigned t"
    if "op \<in> {MarkSignedIn, NoteSessionEnded, ClearNotice, Logout, Refresh, ClearRedirect}"
    using that by (auto simp: tab_ops Let_def split: if_splits)
  show "handlingUnauthorized t \<Longrightarrow> handlingUnauthorized (tab_step op t) \<and> assigned (tab_step op t) = assigned t"
    using assms plain
    by (cases op) (auto simp: handleUnauthorized_once refresh_answered_def liveSessionEnded_def takes_unauthorized_def)
  show "assigned (tab_step op t) = assigned t \<or> (assigned (tab_step op t) = assigned t @ [''/login''] \<and> handlingUnauthorized (tab_step op t))"
    using assms plain
    by (cases op) (auto simp: handleUnauthorized_once refresh_answered_def liveSessionEnded_def)
qed

lemma tab_run_handling:
  "list_all on_page ops \<Longrightarrow> handlingUnauthorized t \<Longrightarrow> assigned (tab_run ops t) = assigned t"
  by (induction ops arbitrary: t) (simp_all add: tab_step_handling(1))

lemma tab_run_once:
  "list_all on_page ops \<Longrightarrow> assigned (tab_run ops t) = assigned t \<or> assigned (tab_run ops t) = assigned t @ [''/login'']"
proof (induction ops arbitrary: t)
  case (Cons op ops)
  then have op: "on_page op" and ops: "list_all on_page ops" by simp_all
  from tab_step_handling(2) [OF op, of t] show ?case
  proof
    assume "assigned (tab_step op t) = assigned t"
    with Cons.IH [OF ops, of "tab_step op t"] show ?thesis by simp
  next
    assume "assigned (tab_step op t) = assigned t @ [''/login''] \<and> handlingUnauthorized (tab_step op t)"
    with tab_run_handling [OF ops] show ?thesis by simp
  qed
qed simp

section \<open>Refreshes\<close>

lemma refresh_gaps:
  "successively (\<lambda>a b. refreshAfterMs k \<le> b - a) (lastRefresh k # refresh_times k evs)"
proof (induction evs arbitrary: k)
  case (Cons ev evs)
  show ?case
  proof (cases ev)
    case (Activity t)
    then show ?thesis using Cons.IH [of "markActivity t k"] by (simp add: markActivity_def)
  next
    case (Tick t hidden)
    then show ?thesis
      using Cons.IH [of k] Cons.IH [of "k\<lparr>lastRefresh := t\<rparr>"] by (auto simp: tick_def)
  qed
qed simp

text \<open>A refresh comes by the first visible tick after both an activity and the refresh's due time.\<close>

lemma refresh_by_tick:
  assumes "sorted (map event_time evs)" "list_all (\<lambda>e. lastActivity k \<le> event_time e) evs"
    and "Tick t False \<in> set evs" "lastRefresh k + refreshAfterMs k \<le> t" "0 < refreshAfterMs k"
    and "lastRefresh k < lastActivity k \<or> (\<exists>a. Activity a \<in> set evs \<and> lastRefresh k < a \<and> a < t)"
  shows "\<exists>r \<in> set (refresh_times k evs). lastRefresh k < r \<and> r \<le> t"
  using assms
proof (induction evs arbitrary: k)
  case (Cons ev evs)
  show ?case
  proof (cases ev)
    case ev: (Activity a)
    have "Tick t False \<in> set evs" "sorted (map event_time evs)" using Cons.prems ev by simp_all
    moreover have "list_all (\<lambda>e. lastActivity (markActivity a k) \<le> event_time e) evs"
      using Cons.prems(1) ev by (simp add: markActivity_def list_all_iff)
    moreover have "lastRefresh (markActivity a k) < lastActivity (markActivity a k) \<or>
        (\<exists>b. Activity b \<in> set evs \<and> lastRefresh (markActivity a k) < b \<and> b < t)"
      using Cons.prems(2,6) ev by (auto simp: markActivity_def)
    ultimately show ?thesis using Cons.IH [of "markActivity a k"] Cons.prems(4,5) ev by (simp add: markActivity_def)
  next
    case ev: (Tick u hidden)
    show ?thesis
    proof (cases "fst (tick u hidden k)")
      case True
      have "u \<le> t" using Cons.prems(1,3) ev by auto
      moreover have "lastRefresh k < u" using True Cons.prems(5) by (auto simp: tick_def split: if_splits)
      ultimately show ?thesis using True ev by (auto simp: tick_def split: if_splits)
    next
      case False
      then have k: "tick u hidden k = (False, k)" by (auto simp: tick_def split: if_splits)
      have late: "\<not> (u = t \<and> \<not> hidden)"
      proof
        assume ut: "u = t \<and> \<not> hidden"
        with False Cons.prems(4) have "\<not> lastRefresh k < lastActivity k" by (auto simp: tick_def split: if_splits)
        with Cons.prems(6) ev obtain a where "Activity a \<in> set evs" "a < t" by auto
        with Cons.prems(1) ev ut show False by auto
      qed
      with Cons.prems(3) ev have "Tick t False \<in> set evs" by auto
      with Cons.IH [of k] Cons.prems ev k show ?thesis by simp
    qed
  qed
qed simp

text \<open>Refreshes are at least half a token's life and at least a minute apart, counted from the loop's start.\<close>

lemma keepalive_gaps:
  "successively (\<lambda>a b. max 60000 (30000 * max 1 ttl) \<le> b - a) (t0 # refresh_times (startSessionKeepalive ttl t0) evs)"
  using refresh_gaps [of "startSessionKeepalive ttl t0" evs] by (simp add: startSessionKeepalive_def)

section \<open>Properties\<close>

text \<open>
  C30: Whatever a tab does with its storage on, from a browser with no marks: the sign-in page shows the notice exactly when the
  session was lost while the browser was signed in and the notice has not been seen since; signing out owes no notice.
\<close>

theorem notice_iff_lost:
  assumes "storageOn t" "localStorage t SIGNED_IN_KEY = None" "sessionStorage t SESSION_ENDED_KEY = None"
  shows "sessionEndedNotice (tab_run ops t) \<longleftrightarrow> notice_due (account_run ops t)"
proof -
  have "account_of t = \<lparr>signed_in = False, owed = False\<rparr>" using assms by (simp add: account_of_def sessionEndedNotice_def)
  then have "account_of (tab_run ops t) = \<lparr>signed_in = was_signed_in (account_run ops t), owed = notice_due (account_run ops t)\<rparr>"
    using tab_run_account [OF assms(1), of ops] account_history by simp
  then show ?thesis by (simp add: account_of_def)
qed

definition fresh_tab :: tab where
  "fresh_tab = \<lparr>storageOn = True, localStorage = (\<lambda>k. None), sessionStorage = (\<lambda>k. None), pathname = ''/workloads/pods'', search = ''?cluster=a'',
     assigned = [], logouts = 0, refreshes = 0, refreshInFlight = False, handlingUnauthorized = False\<rparr>"

theorem notice_iff_lost_witness:
  "sessionEndedNotice (tab_run [MarkSignedIn, Refresh, RefreshAnswered (Some 401)] fresh_tab) \<longleftrightarrow>
     notice_due (account_run [MarkSignedIn, Refresh, RefreshAnswered (Some 401)] fresh_tab)"
  by (rule notice_iff_lost) (simp_all add: fresh_tab_def)

text \<open>
  However many requests of a page are refused, the page goes to the sign-in page at most once; the sign-in page
  itself is never left for itself, and the page the user was on is what it returns to.
\<close>

theorem one_redirect_per_page:
  "assigned (tab_run (filter on_page ops) t) \<in> {assigned t, assigned t @ [''/login'']} \<and>
   (pathname t = ''/login'' \<longrightarrow> handleUnauthorized t = t) \<and>
   (storageOn t \<and> pathname t \<noteq> ''/login'' \<and> \<not> handlingUnauthorized t \<and> trim (pathname t @ search t) \<noteq> [] \<longrightarrow>
      getRedirectAfterLogin (handleUnauthorized t) = Some (trim (pathname t @ search t)))"
proof -
  have "list_all on_page (filter on_page ops)" by (simp add: list_all_iff)
  from tab_run_once [OF this, of t] show ?thesis
    by (auto simp: getRedirectAfterLogin_def tab_ops Let_def)
qed

theorem one_redirect_per_page_witness:
  "assigned (tab_run (filter on_page [Unauthorized, Unauthorized, RefreshAnswered (Some 401)]) fresh_tab) = [''/login''] \<and>
   getRedirectAfterLogin (handleUnauthorized fresh_tab) = Some ''/workloads/pods?cluster=a''"
proof -
  have "assigned (tab_run (filter on_page [Unauthorized, Unauthorized, RefreshAnswered (Some 401)]) fresh_tab) = [''/login'']"
    by (simp add: fresh_tab_def tab_ops Let_def)
  moreover have "trim (pathname fresh_tab @ search fresh_tab) = ''/workloads/pods?cluster=a''"
    by (simp add: fresh_tab_def trim_def trimStart_def trimEnd_def is_ws_def)
  ultimately show ?thesis using one_redirect_per_page [of "[]" fresh_tab] by (simp add: fresh_tab_def)
qed



end
