(* ===== verification/Api_Client.thy ===== *)
theory Api_Client
  imports Session Watch_Stores
begin

text \<open>
  The API client every page shares (\<^verbatim>\<open>frontend/src/services/api/client.ts\<close>): the cluster each request names, and what an
  answer tells the rest of the page. An answer changes three parts of it: the tab's session (\<open>Session\<close>), the outcomes of
  the page's lists and the refused lists (\<open>Watch_Stores\<close>), whose handlers of the window events run here where the client
  dispatches them. The client library (axios) hands over the request's method, path and parameters and the answer's
  status, headers and body; those are the arguments.
\<close>

section \<open>The selected cluster\<close>

text \<open>\<^verbatim>\<open>clusterRef.ts\<close>: the id is the state, an empty one stands for none.\<close>

definition clusterHeaders :: "string \<Rightarrow> (string \<times> string) list" where
  "clusterHeaders cid = (if cid \<noteq> [] then [(''X-Cluster-Name'', cid)] else [])"

definition add_cluster :: "string \<Rightarrow> (string \<times> jval) list option \<Rightarrow> (string \<times> jval) list option" where
  "add_cluster cid params =
     (if cid = [] then params
      else let ps = (case params of Some ps \<Rightarrow> ps | None \<Rightarrow> []) in
        if jget (JObj ps) ''cluster'' = JUndef then Some (AList.update ''cluster'' (JStr cid) ps) else params)"

section \<open>Answers\<close>

record page =
  browser :: tab
  lists :: list_store
  refused :: forbidden_store

record failure =
  f_status :: "int option"
  f_method :: string
  f_url :: string
  f_cancelled :: bool
  f_data :: jval

definition isClusterRead :: "string \<Rightarrow> string \<Rightarrow> bool" where
  "isClusterRead meth url \<longleftrightarrow> toLowerCase (if meth = [] then ''get'' else meth) = ''get'' \<and> startsWith url ''/cluster/''"

definition METRICS_UNAVAILABLE :: string where "METRICS_UNAVAILABLE = ''metrics_unavailable''"

definition isMetricsUnavailableResponse :: "int option \<Rightarrow> jval \<Rightarrow> bool" where
  "isMetricsUnavailableResponse status data \<longleftrightarrow> status = Some 503 \<and>
     (jget data ''detail'' = JStr METRICS_UNAVAILABLE \<or> jpath data [''detail'', ''code''] = JStr METRICS_UNAVAILABLE \<or>
      jget data ''code'' = JStr METRICS_UNAVAILABLE)"

text \<open>The two events' handlers (\<^verbatim>\<open>listStatusStore.ts\<close>, \<^verbatim>\<open>forbiddenStore.ts\<close>).\<close>

definition dispatchListStatus :: "string \<Rightarrow> list_state \<Rightarrow> page \<Rightarrow> page" where
  "dispatchListStatus url st p = (if url \<noteq> [] then p\<lparr>lists := recordListStatus url st (lists p)\<rparr> else p)"

definition dispatchForbidden :: "string \<Rightarrow> page \<Rightarrow> page" where
  "dispatchForbidden url p =
     (let p1 = p\<lparr>refused := recordForbidden url (refused p)\<rparr> in
      if url \<noteq> [] then p1\<lparr>lists := recordListForbidden url (lists p1)\<rparr> else p1)"

definition on_success :: "string \<Rightarrow> string \<Rightarrow> bool \<Rightarrow> page \<Rightarrow> page" where
  "on_success meth url notInstalled p =
     (if isClusterRead meth url then dispatchListStatus url (if notInstalled then StateNotInstalled else StateOk) p else p)"

definition isAuthRequest :: "string \<Rightarrow> bool" where
  "isAuthRequest url \<longleftrightarrow> startsWith url ''/auth/login'' \<or> startsWith url ''/auth/register'' \<or> startsWith url ''/auth/me''"

definition on_failure :: "failure \<Rightarrow> page \<Rightarrow> page" where
  "on_failure f p =
     (let status = f_status f; url = f_url f;
          p1 = (if status = Some 401 \<and> \<not> isAuthRequest url then p\<lparr>browser := handleUnauthorized (browser p)\<rparr> else p);
          p2 = (if status = Some 403 \<and> toLowerCase (if f_method f = [] then ''get'' else f_method f) = ''get'' \<and> startsWith url ''/cluster/''
                then dispatchForbidden url p1 else p1) in
      if isClusterRead (f_method f) url \<and> (case status of None \<Rightarrow> True | Some n \<Rightarrow> 500 \<le> n) \<and> \<not> f_cancelled f \<and>
         \<not> isMetricsUnavailableResponse status (f_data f)
      then dispatchListStatus url (StateError status) p2 else p2)"

section \<open>Clusters without metrics\<close>

definition metricsClusterKey :: "string \<Rightarrow> string" where
  "metricsClusterKey cid = (if cid = [] then ''default'' else cid)"

definition disableMetrics :: "string \<Rightarrow> string list \<Rightarrow> string list" where
  "disableMetrics cid disabled = set_add (metricsClusterKey cid) disabled"

definition isMetricsDisabled :: "string \<Rightarrow> string list \<Rightarrow> bool" where
  "isMetricsDisabled cid disabled \<longleftrightarrow> metricsClusterKey cid \<in> set disabled"

definition isForbiddenError :: "int option \<Rightarrow> bool" where
  "isForbiddenError status \<longleftrightarrow> status = Some 403"

definition isMetricsUnavailableError :: "jval \<Rightarrow> int option \<Rightarrow> jval \<Rightarrow> bool" where
  "isMetricsUnavailableError err_code status data \<longleftrightarrow> err_code = JStr METRICS_UNAVAILABLE \<or> isMetricsUnavailableResponse status data"

section \<open>What the handlers change\<close>

lemma cluster_url: "isClusterRead meth url \<Longrightarrow> url \<noteq> []"
  by (auto simp: isClusterRead_def startsWith_def)

lemma list_status_after:
  "getListStatus seg (recordListStatus url st s) =
     (if seg = listSegmentFromUrl url \<and> seg \<noteq> [] then
        case st of StateOk \<Rightarrow> None | StateNotInstalled \<Rightarrow> Some NotInstalled | StateError c \<Rightarrow> Some (ListError c)
      else getListStatus seg s)"
  by (auto simp: getListStatus_def recordListStatus_def Let_def update_conv' delete_conv' split: list_state.split)

lemma list_status_forbidden: "getListStatus seg (recordListForbidden url s) = getListStatus seg s"
  by (simp add: getListStatus_def recordListForbidden_def Let_def)

lemma refused_after: "seg \<in> set (segments (recordForbidden url s)) \<longleftrightarrow> seg \<in> set (segments s) \<or> (seg = listSegmentFromUrl url \<and> seg \<noteq> [])"
  by (auto simp: recordForbidden_def Let_def)

definition server_failure :: "failure \<Rightarrow> bool" where
  "server_failure f \<longleftrightarrow> (case f_status f of None \<Rightarrow> True | Some n \<Rightarrow> 500 \<le> n) \<and> \<not> f_cancelled f \<and>
     \<not> isMetricsUnavailableResponse (f_status f) (f_data f)"

section \<open>Properties\<close>


text \<open>
  The cluster of a request: one the call names itself is kept; otherwise a request names the selected cluster when there is one, with its other
  parameters unchanged. A cluster found to have no metrics server turns metrics off for itself alone.
\<close>

theorem request_cluster:
  "jget (JObj (case add_cluster cid params of Some ps \<Rightarrow> ps | None \<Rightarrow> [])) k =
     (let given = jget (JObj (case params of Some ps \<Rightarrow> ps | None \<Rightarrow> [])) k in
      if k = ''cluster'' \<and> given = JUndef \<and> cid \<noteq> [] then JStr cid else given) \<and>
   isMetricsDisabled c (disableMetrics cid disabled) = (metricsClusterKey c = metricsClusterKey cid \<or> isMetricsDisabled c disabled)"
  by (auto simp: add_cluster_def isMetricsDisabled_def disableMetrics_def update_conv' Let_def split: option.splits)

end
