(* ===== verification/Traffic.thy ===== *)
theory Traffic
  imports Prelude "HOL-Library.Multiset"
begin

text \<open>
  The traffic lines of the resource graph (\<^verbatim>\<open>frontend/src/pages/resource-graph/traffic.ts\<close>): where the two ends of a line
  go on the graph, how a line looks, how it is split by destination port, and the NetworkPolicy check a dropped line opens.

  Absent properties of the API's objects are \<open>None\<close>; counts and ports are natural numbers. A \<^verbatim>\<open>Map\<close> the code lists is an
  association list in insertion order, one it only reads is a map. Widths and points are real numbers where the code
  computes with doubles. \<^verbatim>\<open>localeCompare\<close> belongs to the browser's language: it is the parameter \<open>lc\<close>; protocol names hold no slash.
\<close>

section \<open>Lines and nodes\<close>

record traffic_end =
  e_namespace :: "string option"
  e_kind :: "string option"
  e_name :: "string option"
  e_outside :: "string option"
  e_unnamed :: bool

record port =
  protocol :: "string option"
  port_no :: "nat option"
  p_allowed :: "nat option"
  p_dropped :: "nat option"

text \<open>Of a connection, the addresses of its two ends.\<close>

record connection =
  source_ip :: "string option"
  destination_ip :: "string option"

record traffic_line =
  l_from :: traffic_end
  l_to :: traffic_end
  l_allowed :: nat
  l_dropped :: nat
  l_ports :: "port list option"
  l_connections :: "connection list option"

record graph_node =
  n_id :: string
  n_kind :: string
  n_name :: string
  n_namespace :: string
  n_status :: string
  n_group :: bool
  n_members :: "string list option"

record peer_node = graph_node +
  n_end :: traffic_end

text \<open>An absent text and an empty one are both false; \<open>given\<close> is \<^verbatim>\<open>x ?? ''\<close>.\<close>

definition given :: "string option \<Rightarrow> string" where
  "given x = (case x of Some s \<Rightarrow> s | None \<Rightarrow> [])"

definition has :: "string option \<Rightarrow> bool" where
  "has x \<longleftrightarrow> given x \<noteq> []"

definition elems_of :: "'a list option \<Rightarrow> 'a list" where
  "elems_of xs = (case xs of Some ys \<Rightarrow> ys | None \<Rightarrow> [])"

definition count_of :: "nat option \<Rightarrow> nat" where
  "count_of n = (case n of Some k \<Rightarrow> k | None \<Rightarrow> 0)"

section \<open>Sources and states\<close>

record features =
  prometheus_enabled :: bool
  flows_enabled :: bool
  flows_clusters :: "string list option"

datatype traffic_source = Relay | Hour | Day

definition networkFlowsEnabledFor :: "features option \<Rightarrow> string \<Rightarrow> bool" where
  "networkFlowsEnabledFor fs clusterId =
     (case fs of None \<Rightarrow> False | Some f \<Rightarrow> flows_enabled f \<and> clusterId \<noteq> [] \<and> clusterId \<in> set (elems_of (flows_clusters f)))"

definition trafficSources :: "features option \<Rightarrow> string \<Rightarrow> bool \<Rightarrow> traffic_source list" where
  "trafficSources fs clusterId prometheusAvailable =
     (if networkFlowsEnabledFor fs clusterId then [Relay] else []) @
     (if (case fs of None \<Rightarrow> False | Some f \<Rightarrow> prometheus_enabled f) \<and> prometheusAvailable then [Hour, Day] else [])"

datatype line_state = Allowed | Dropped | Mixed

definition state_of :: "nat \<Rightarrow> nat \<Rightarrow> line_state" where
  "state_of allowed dropped = (if dropped > 0 then if allowed > 0 then Mixed else Dropped else Allowed)"

definition lineState :: "traffic_line \<Rightarrow> line_state" where
  "lineState l = state_of (l_allowed l) (l_dropped l)"

section \<open>Where an end goes\<close>

definition PEER_KIND :: string where "PEER_KIND = ''TrafficPeer''"

definition END_KINDS :: "string list" where
  "END_KINDS = [''Pod'', ''Deployment'', ''StatefulSet'', ''DaemonSet'', ''ReplicaSet'', ''Job'', ''CronJob'']"

type_synonym nodes = "(string \<times> graph_node) list"

definition is_shown :: "nodes \<Rightarrow> string \<Rightarrow> bool" where
  "is_shown shown i \<longleftrightarrow> map_of shown i \<noteq> None"

definition node_id :: "string \<Rightarrow> string \<Rightarrow> string \<Rightarrow> string" where
  "node_id kind ns name = kind @ ''/'' @ ns @ ''/'' @ name"

fun shown_as :: "nodes \<Rightarrow> (string \<rightharpoonup> string) \<Rightarrow> string \<Rightarrow> string \<Rightarrow> string list \<Rightarrow> string option" where
  "shown_as shown inGroup ns name [] = None"
| "shown_as shown inGroup ns name (kind # kinds) =
     (let i = node_id kind ns name in
      if is_shown shown i then Some i
      else if has (inGroup i) \<and> is_shown shown (given (inGroup i)) then inGroup i
      else shown_as shown inGroup ns name kinds)"

definition stand_in :: "string \<Rightarrow> string \<Rightarrow> string \<Rightarrow> traffic_end \<Rightarrow> string \<times> peer_node option" where
  "stand_in i name ns e = (i, Some \<lparr>n_id = i, n_kind = PEER_KIND, n_name = name, n_namespace = ns, n_status = [], n_group = False,
     n_members = None, n_end = e\<rparr>)"

definition anchorOf :: "traffic_end \<Rightarrow> nodes \<Rightarrow> (string \<rightharpoonup> string) \<Rightarrow> string \<times> peer_node option" where
  "anchorOf e shown inGroup =
     (let ns = given (e_namespace e); name = given (e_name e) in
      if has (e_namespace e) \<and> has (e_name e) then
        (case shown_as shown inGroup ns name (if has (e_kind e) then [given (e_kind e)] else END_KINDS) of
           Some i \<Rightarrow> (i, None)
         | None \<Rightarrow> stand_in (''traffic:'' @ ns @ ''/'' @ given (e_kind e) @ ''/'' @ name) name ns e)
      else if has (e_namespace e) then stand_in (''traffic:ns:'' @ ns) ns ns e
      else if e_unnamed e then stand_in ''traffic:unnamed'' ''not named'' [] e
      else let outside = (if has (e_outside e) then given (e_outside e) else ''unknown'') in
        stand_in (''traffic:out:'' @ outside) outside [] e)"

section \<open>Placing the lines\<close>

record traffic_edge =
  eid :: string
  src :: string
  tgt :: string
  eline :: traffic_line
  estate :: line_state
  width :: real

record placed =
  peers :: "(string \<times> peer_node) list"
  edges :: "traffic_edge list"
  selfLoops :: nat

definition busiest_of :: "nat list \<Rightarrow> nat" where
  "busiest_of ns = fold max ns 1"

text \<open>\<^verbatim>\<open>Math.round(w * 10) / 10\<close>.\<close>

definition round10 :: "real \<Rightarrow> real" where
  "round10 w = of_int \<lfloor>w * 10 + 1/2\<rfloor> / 10"

definition line_width :: "nat \<Rightarrow> nat \<Rightarrow> real" where
  "line_width n busiest = 3/2 + (5/2 * ln (1 + real n)) / ln (1 + real busiest)"

definition group_members :: "graph_node \<Rightarrow> (string \<rightharpoonup> string) \<Rightarrow> (string \<rightharpoonup> string)" where
  "group_members n inGroup =
     (if n_group n then fold (\<lambda>m g. g(node_id (n_kind n) (n_namespace n) m \<mapsto> n_id n)) (elems_of (n_members n)) inGroup else inGroup)"

definition in_group :: "nodes \<Rightarrow> (string \<rightharpoonup> string)" where
  "in_group shown = fold group_members (map snd shown) Map.empty"

definition add_peer :: "string \<times> peer_node option \<Rightarrow> (string \<times> peer_node) list \<Rightarrow> (string \<times> peer_node) list" where
  "add_peer a ps = (case snd a of None \<Rightarrow> ps | Some p \<Rightarrow> if map_of ps (fst a) = None then ps @ [(fst a, p)] else ps)"

definition place_line :: "nodes \<Rightarrow> (string \<rightharpoonup> string) \<Rightarrow> nat \<Rightarrow> nat \<times> traffic_line \<Rightarrow> placed \<Rightarrow> placed" where
  "place_line shown inGroup busiest il st =
     (case il of (i, line) \<Rightarrow>
        let a = anchorOf (l_from line) shown inGroup; b = anchorOf (l_to line) shown inGroup in
        if fst a = fst b then st\<lparr>selfLoops := selfLoops st + 1\<rparr>
        else st\<lparr>peers := add_peer b (add_peer a (peers st)),
                edges := edges st @ [\<lparr>eid = ''traffic-'' @ show_nat i, src = fst a, tgt = fst b, eline = line, estate = lineState line,
                   width = round10 (line_width (l_allowed line + l_dropped line) busiest)\<rparr>]\<rparr>)"

definition buildTraffic :: "traffic_line list \<Rightarrow> nodes \<Rightarrow> placed" where
  "buildTraffic lines shown =
     fold (place_line shown (in_group shown) (busiest_of (map (\<lambda>l. l_allowed l + l_dropped l) lines))) (enumerate 0 lines)
       \<lparr>peers = [], edges = [], selfLoops = 0\<rparr>"

definition endText :: "traffic_end \<Rightarrow> string" where
  "endText e =
     (if has (e_namespace e) \<and> has (e_name e) then given (e_namespace e) @ ''/'' @ given (e_name e)
      else if e_unnamed e then ''not named''
      else if has (e_namespace e) then given (e_namespace e)
      else if has (e_outside e) then given (e_outside e) else ''unknown'')"

section \<open>The check a dropped line opens\<close>

definition OPENABLE :: "string list" where
  "OPENABLE = [''Pod'', ''Deployment'', ''StatefulSet'', ''DaemonSet'', ''ReplicaSet'', ''Job'', ''CronJob'']"

definition openableEnd :: "traffic_end \<Rightarrow> bool" where
  "openableEnd e \<longleftrightarrow> has (e_kind e) \<and> has (e_name e) \<and> has (e_namespace e) \<and> given (e_kind e) \<in> set OPENABLE"

definition CHECK_KINDS :: "(string \<times> string) list" where
  "CHECK_KINDS = [(''Pod'', ''pod''), (''Deployment'', ''deployment''), (''StatefulSet'', ''statefulset''), (''DaemonSet'', ''daemonset'')]"

definition check_kind :: "traffic_end \<Rightarrow> string" where
  "check_kind e = given (map_of CHECK_KINDS (given (e_kind e)))"

definition checkable :: "traffic_end \<Rightarrow> bool" where
  "checkable e \<longleftrightarrow> has (e_namespace e) \<and> has (e_name e) \<and> has (e_kind e) \<and> check_kind e \<noteq> []"

record check_initial =
  outgoing :: bool
  c_port :: "string option"
  c_protocol :: "string option"
  c_kind :: string
  c_namespace :: "string option"
  c_name :: "string option"
  c_ip :: "string option"

record line_check =
  self :: string
  selfName :: string
  self_namespace :: string
  initial :: check_initial

definition check_side :: "string option \<Rightarrow> string option \<Rightarrow> traffic_end \<times> traffic_end \<times> bool \<times> string option \<Rightarrow> line_check option" where
  "check_side port prot side =
     (case side of (me, other, out, otherIP) \<Rightarrow>
        if \<not> checkable me then None
        else map_option (\<lambda>ini. \<lparr>self = check_kind me @ ''/'' @ given (e_namespace me) @ ''/'' @ given (e_name me), selfName = given (e_name me),
                 self_namespace = given (e_namespace me), initial = ini\<rparr>)
          (if checkable other then
             Some \<lparr>outgoing = out, c_port = port, c_protocol = prot, c_kind = check_kind other, c_namespace = e_namespace other,
                   c_name = e_name other, c_ip = None\<rparr>
           else if has (e_outside other) \<and> has otherIP then
             Some \<lparr>outgoing = out, c_port = port, c_protocol = prot, c_kind = ''ip'', c_namespace = None, c_name = None, c_ip = otherIP\<rparr>
           else None))"

definition checkFor :: "traffic_line \<Rightarrow> line_check option" where
  "checkFor line =
     (if l_dropped line = 0 then None
      else
        let one = (case l_ports line of Some [p] \<Rightarrow> Some p | _ \<Rightarrow> None);
            port = (case one of Some p \<Rightarrow> if count_of (port_no p) \<noteq> 0 then Some (show_nat (count_of (port_no p))) else None | None \<Rightarrow> None);
            prot = (case one of Some p \<Rightarrow> if given (protocol p) \<in> {''TCP'', ''UDP'', ''SCTP''} then protocol p else None | None \<Rightarrow> None);
            conn = (case l_connections line of Some (c # _) \<Rightarrow> Some c | _ \<Rightarrow> None);
            dst_ip = (case conn of Some c \<Rightarrow> destination_ip c | None \<Rightarrow> None);
            src_ip = (case conn of Some c \<Rightarrow> source_ip c | None \<Rightarrow> None) in
        case check_side port prot (l_from line, l_to line, True, dst_ip) of
          Some c \<Rightarrow> Some c
        | None \<Rightarrow> check_side port prot (l_to line, l_from line, False, src_ip))"

section \<open>Ports\<close>

definition portName :: "port \<Rightarrow> string" where
  "portName p = (let no = (case port_no p of Some n \<Rightarrow> show_nat n | None \<Rightarrow> []) in
     if has (protocol p) \<and> given (protocol p) \<noteq> ''TCP'' then trim (given (protocol p) @ '' '' @ no) else no)"

definition portText :: "port list option \<Rightarrow> string" where
  "portText ports =
     (let names = filter (\<lambda>s. s \<noteq> []) (map portName (elems_of ports)) in
      if length names \<le> 2 then join '', '' names else hd names @ '' +'' @ show_nat (length names - 1))"

definition BOX_HEIGHT :: nat where "BOX_HEIGHT = 60"
definition ROW_HEIGHT :: nat where "ROW_HEIGHT = 18"
definition ROWS_PADDING :: nat where "ROWS_PADDING = 6"
definition MAX_ROWS :: nat where "MAX_ROWS = 6"
definition MORE_ROW :: string where "MORE_ROW = ''more''"

record port_row =
  r_key :: string
  r_text :: string
  r_allowed :: nat
  r_dropped :: nat

record port_edge = traffic_edge +
  lineId :: string
  row :: "string option"
  rowText :: "string option"
  s_allowed :: nat
  s_dropped :: nat

definition rowKey :: "port \<Rightarrow> string" where
  "rowKey p = given (protocol p) @ ''/'' @ show_nat (count_of (port_no p))"

definition row_text :: "port \<Rightarrow> string" where
  "row_text p = join '' '' ((if has (protocol p) then [given (protocol p)] else []) @
     (if count_of (port_no p) \<noteq> 0 then [show_nat (count_of (port_no p))] else []))"

definition boxHeight :: "nat \<Rightarrow> nat" where
  "boxHeight rows = (if rows > 0 then BOX_HEIGHT + rows * ROW_HEIGHT + ROWS_PADDING else BOX_HEIGHT)"

definition rowCenter :: "nat \<Rightarrow> nat" where
  "rowCenter i = BOX_HEIGHT + ROWS_PADDING div 2 + i * ROW_HEIGHT + ROW_HEIGHT div 2"

text \<open>\<^verbatim>\<open>sort\<close> with a comparison function: a stable sort.\<close>

fun insert_by :: "('a \<Rightarrow> 'a \<Rightarrow> int) \<Rightarrow> 'a \<Rightarrow> 'a list \<Rightarrow> 'a list" where
  "insert_by c x [] = [x]"
| "insert_by c x (y # ys) = (if c x y \<le> 0 then x # y # ys else y # insert_by c x ys)"

definition sort_by :: "('a \<Rightarrow> 'a \<Rightarrow> int) \<Rightarrow> 'a list \<Rightarrow> 'a list" where
  "sort_by c xs = foldr (insert_by c) xs []"

definition cmp_or :: "int \<Rightarrow> int \<Rightarrow> int" where
  "cmp_or a b = (if a \<noteq> 0 then a else b)"

type_synonym box = "(string \<times> port_row) list"

definition add_port :: "port \<Rightarrow> box \<Rightarrow> box" where
  "add_port p b =
     (let k = rowKey p; r = (case map_of b k of Some r \<Rightarrow> r | None \<Rightarrow> \<lparr>r_key = k, r_text = row_text p, r_allowed = 0, r_dropped = 0\<rparr>) in
      AList.update k (r\<lparr>r_allowed := r_allowed r + count_of (p_allowed p), r_dropped := r_dropped r + count_of (p_dropped p)\<rparr>) b)"

definition add_to_box :: "string \<times> port \<Rightarrow> (string \<times> box) list \<Rightarrow> (string \<times> box) list" where
  "add_to_box tp bs = AList.update (fst tp) (add_port (snd tp) (case map_of bs (fst tp) of Some b \<Rightarrow> b | None \<Rightarrow> [])) bs"

definition edge_ports :: "traffic_edge \<Rightarrow> port list" where
  "edge_ports e = elems_of (l_ports (eline e))"

definition per_box :: "traffic_edge list \<Rightarrow> (string \<times> box) list" where
  "per_box es = fold add_to_box (concat (map (\<lambda>e. map (Pair (tgt e)) (edge_ports e)) es)) []"

definition busier :: "(string \<Rightarrow> string \<Rightarrow> int) \<Rightarrow> port_row \<Rightarrow> port_row \<Rightarrow> int" where
  "busier lc a b = cmp_or (int (r_allowed b + r_dropped b) - int (r_allowed a + r_dropped a)) (lc (r_key a) (r_key b))"

definition key_port :: "string \<Rightarrow> int" where
  "key_port k = foldl (\<lambda>n c. 10 * n + (of_char c - 48)) 0 (split CHR ''/'' k ! 1)"

definition row_order :: "(string \<Rightarrow> string \<Rightarrow> int) \<Rightarrow> port_row \<Rightarrow> port_row \<Rightarrow> int" where
  "row_order lc a b =
     (let o3 = (\<lambda>r. if r_key r = MORE_ROW then (2, [], 0) else (0, split CHR ''/'' (r_key r) ! 0, key_port (r_key r))) in
      case (o3 a, o3 b) of ((x0, x1, x2), (y0, y1, y2)) \<Rightarrow> cmp_or (x0 - y0) (cmp_or (lc x1 y1) (x2 - y2)))"

text \<open>The rows of one box, and the row each of its ports' keys belongs to.\<close>

definition box_rows :: "(string \<Rightarrow> string \<Rightarrow> int) \<Rightarrow> box \<Rightarrow> port_row list \<times> (string \<times> string) list" where
  "box_rows lc byKey =
     (let all_rows = map snd byKey in
      if length all_rows > MAX_ROWS then
        let busiest = take (MAX_ROWS - 1) (sort_by (busier lc) all_rows);
            kept = map r_key busiest;
            others = filter (\<lambda>r. r_key r \<notin> set kept) all_rows in
        (sort_by (row_order lc) (busiest @ [\<lparr>r_key = MORE_ROW, r_text = ''+'' @ show_nat (length others),
             r_allowed = sum_list (map r_allowed others), r_dropped = sum_list (map r_dropped others)\<rparr>]),
         map (\<lambda>r. (r_key r, if r_key r \<in> set kept then r_key r else MORE_ROW)) all_rows)
      else (sort_by (row_order lc) all_rows, map (\<lambda>r. (r_key r, r_key r)) all_rows))"

definition share_of :: "traffic_edge \<Rightarrow> port_row list \<Rightarrow> string \<Rightarrow> port \<Rightarrow> port_edge" where
  "share_of e rws k p = traffic_edge.extend (e\<lparr>eid := eid e @ '':'' @ k\<rparr>)
     (port_edge.fields (eid e) (Some k)
       (if k = MORE_ROW then map_option r_text (List.find (\<lambda>r. r_key r = MORE_ROW) rws) else Some (row_text p)) 0 0)"

definition add_share :: "traffic_edge \<Rightarrow> port_row list \<Rightarrow> (string \<times> string) list \<Rightarrow> port \<Rightarrow> (string \<times> port_edge) list \<Rightarrow> (string \<times> port_edge) list" where
  "add_share e rws keep p shares =
     (let k = given (map_of keep (rowKey p));
          s = (case map_of shares k of Some s \<Rightarrow> s | None \<Rightarrow> share_of e rws k p) in
      AList.update k (s\<lparr>s_allowed := s_allowed s + count_of (p_allowed p), s_dropped := s_dropped s + count_of (p_dropped p)\<rparr>) shares)"

definition edge_shares :: "(string \<times> (port_row list \<times> (string \<times> string) list)) list \<Rightarrow> traffic_edge \<Rightarrow> port_edge list" where
  "edge_shares rowsOf e =
     (if edge_ports e = [] then
        [traffic_edge.extend e (port_edge.fields (eid e) None None (l_allowed (eline e)) (l_dropped (eline e)))]
      else case (case map_of rowsOf (tgt e) of Some x \<Rightarrow> x | None \<Rightarrow> ([], [])) of
        (rws, keep) \<Rightarrow> map snd (fold (add_share e rws keep) (edge_ports e) []))"

definition set_width :: "nat \<Rightarrow> port_edge \<Rightarrow> port_edge" where
  "set_width busiest e = e\<lparr>estate := state_of (s_allowed e) (s_dropped e), width := round10 (line_width (s_allowed e + s_dropped e) busiest)\<rparr>"

definition byPort :: "(string \<Rightarrow> string \<Rightarrow> int) \<Rightarrow> traffic_edge list \<Rightarrow> port_edge list \<times> (string \<times> port_row list) list" where
  "byPort lc es =
     (let rowsOf = map (\<lambda>(t, b). (t, box_rows lc b)) (per_box es);
          out = concat (map (edge_shares rowsOf) es);
          busiest = busiest_of (map (\<lambda>e. s_allowed e + s_dropped e) out) in
      (map (set_width busiest) out, map (\<lambda>(t, x). (t, fst x)) rowsOf))"

end
