(* ===== verification/Traffic_Props.thy ===== *)
theory Traffic_Props
  imports Traffic
begin

text \<open>
  What the resource graph's traffic view promises (\<open>Traffic\<close>): every line is drawn between two nodes the graph has or is
  counted as a self loop, its width stays within bounds, and splitting the lines by port loses and invents no count: a
  box's row shows the sum of the lines that end at it.
\<close>

section \<open>Placing the lines\<close>

lemma busiest_of_ge: "n \<in> set ns \<Longrightarrow> n \<le> busiest_of ns" "1 \<le> busiest_of ns"
proof -
  have "m \<le> fold max ns m \<and> list_all (\<lambda>n. n \<le> fold max ns m) ns" for m :: nat
  proof (induction ns arbitrary: m)
    case (Cons x ns)
    from Cons.IH [of "max x m"] show ?case by simp
  qed simp
  from this [of 1] show "n \<in> set ns \<Longrightarrow> n \<le> busiest_of ns" "1 \<le> busiest_of ns"
    by (auto simp: busiest_of_def list_all_iff)
qed

lemma line_width_bounds:
  assumes "n \<le> busiest" "1 \<le> busiest"
  shows "3/2 \<le> round10 (line_width n busiest)" "round10 (line_width n busiest) \<le> 4"
proof -
  have pos: "0 < ln (1 + real busiest)" using assms(2) by simp
  have "0 \<le> ln (1 + real n)" "ln (1 + real n) \<le> ln (1 + real busiest)" using assms by simp_all
  define q where "q = (5/2 * ln (1 + real n)) / ln (1 + real busiest)"
  have "0 \<le> q" "q \<le> 5/2"
    using pos \<open>0 \<le> ln (1 + real n)\<close> \<open>ln (1 + real n) \<le> ln (1 + real busiest)\<close> by (simp_all add: q_def pos_divide_le_eq)
  then have "15 \<le> \<lfloor>(3/2 + q) * 10 + 1/2\<rfloor>" "\<lfloor>(3/2 + q) * 10 + 1/2\<rfloor> < 41"
    by (simp_all add: le_floor_iff floor_less_iff)
  then have "15 \<le> \<lfloor>line_width n busiest * 10 + 1/2\<rfloor>" "\<lfloor>line_width n busiest * 10 + 1/2\<rfloor> < 41"
    by (simp_all add: line_width_def q_def)
  then have "(15 :: real) \<le> of_int \<lfloor>line_width n busiest * 10 + 1/2\<rfloor>" "(of_int \<lfloor>line_width n busiest * 10 + 1/2\<rfloor> :: real) \<le> 40"
    by linarith+
  then show "3/2 \<le> round10 (line_width n busiest)" "round10 (line_width n busiest) \<le> 4"
    unfolding round10_def by linarith+
qed

lemma shown_as_shown: "shown_as shown inGroup ns name kinds = Some i \<Longrightarrow> is_shown shown i"
  by (induction kinds) (auto simp: Let_def given_def split: if_splits option.splits)

lemma anchor_placed: "snd (anchorOf e shown inGroup) = None \<Longrightarrow> is_shown shown (fst (anchorOf e shown inGroup))"
  by (auto simp: anchorOf_def stand_in_def Let_def simp del: shown_as.simps dest: shown_as_shown split: option.splits if_splits)

definition node_of :: "nodes \<Rightarrow> (string \<times> peer_node) list \<Rightarrow> string \<Rightarrow> bool" where
  "node_of shown ps i \<longleftrightarrow> is_shown shown i \<or> i \<in> fst ` set ps"

lemma add_peer_keys: "fst ` set (add_peer a ps) = fst ` set ps \<union> (if snd a = None then {} else {fst a})"
  by (auto simp: add_peer_def map_of_eq_None_iff split: option.split)

lemma add_peer_distinct: "distinct (map fst ps) \<Longrightarrow> distinct (map fst (add_peer a ps))"
  by (auto simp: add_peer_def map_of_eq_None_iff split: option.split)

lemma add_peer_node: "node_of shown ps i \<Longrightarrow> node_of shown (add_peer a ps) i"
  by (auto simp: node_of_def add_peer_keys)

lemma anchor_node: "node_of shown (add_peer (anchorOf e shown g) ps) (fst (anchorOf e shown g))"
  using anchor_placed [of e shown g] by (auto simp: node_of_def add_peer_keys)

definition edge_ok :: "nodes \<Rightarrow> (string \<times> peer_node) list \<Rightarrow> traffic_edge \<Rightarrow> bool" where
  "edge_ok shown ps e \<longleftrightarrow> src e \<noteq> tgt e \<and> node_of shown ps (src e) \<and> node_of shown ps (tgt e) \<and> estate e = lineState (eline e) \<and>
     3/2 \<le> width e \<and> width e \<le> 4"

lemma edge_ok_peers: "edge_ok shown ps e \<Longrightarrow> edge_ok shown (add_peer a ps) e"
  by (simp add: edge_ok_def add_peer_node)

definition placed_ok :: "nodes \<Rightarrow> placed \<Rightarrow> bool" where
  "placed_ok shown r \<longleftrightarrow> distinct (map fst (peers r)) \<and> list_all (edge_ok shown (peers r)) (edges r)"

lemma place_line_ok:
  assumes "placed_ok shown st" "l_allowed (snd il) + l_dropped (snd il) \<le> busiest" "1 \<le> busiest"
  shows "placed_ok shown (place_line shown g busiest il st)"
proof -
  obtain i line where il: "il = (i, line)" by (cases il)
  let ?a = "anchorOf (l_from line) shown g" and ?b = "anchorOf (l_to line) shown g"
  let ?ps = "add_peer ?b (add_peer ?a (peers st))"
  have "list_all (edge_ok shown ?ps) (edges st)"
    using assms(1) by (simp add: placed_ok_def list_all_iff edge_ok_peers)
  moreover have "node_of shown ?ps (fst ?a)" "node_of shown ?ps (fst ?b)" by (simp_all add: anchor_node add_peer_node)
  moreover have "distinct (map fst ?ps)" using assms(1) by (simp add: placed_ok_def add_peer_distinct)
  ultimately show ?thesis
    using assms line_width_bounds [OF assms(2,3)] by (simp add: place_line_def il placed_ok_def edge_ok_def Let_def)
qed

lemma place_lines_ok:
  assumes "placed_ok shown st" "list_all (\<lambda>il. l_allowed (snd il) + l_dropped (snd il) \<le> busiest) ils" "1 \<le> busiest"
  shows "placed_ok shown (fold (place_line shown g busiest) ils st)"
  using assms by (induction ils arbitrary: st) (simp_all add: place_line_ok)

definition self_loop :: "nodes \<Rightarrow> (string \<rightharpoonup> string) \<Rightarrow> traffic_line \<Rightarrow> bool" where
  "self_loop shown g line \<longleftrightarrow> fst (anchorOf (l_from line) shown g) = fst (anchorOf (l_to line) shown g)"

lemma place_lines_count:
  "map eline (edges (fold (place_line shown g busiest) ils st)) = map eline (edges st) @ filter (\<lambda>l. \<not> self_loop shown g l) (map snd ils)"
  "selfLoops (fold (place_line shown g busiest) ils st) = selfLoops st + length (filter (self_loop shown g) (map snd ils))"
  by (induction ils arbitrary: st) (auto simp: place_line_def self_loop_def Let_def split: prod.split)

section \<open>Sums over ports\<close>

text \<open>One of the two counts of a port, a row and a share: the dropped one or the allowed one.\<close>

definition tally :: "bool \<Rightarrow> port \<Rightarrow> nat" where
  "tally d p = count_of (if d then p_dropped p else p_allowed p)"

definition row_tally :: "bool \<Rightarrow> port_row \<Rightarrow> nat" where
  "row_tally d r = (if d then r_dropped r else r_allowed r)"

lemma row_tally_simps [simp]: "row_tally True = r_dropped" "row_tally False = r_allowed"
  by (simp_all add: row_tally_def fun_eq_iff)

definition share_tally :: "bool \<Rightarrow> port_edge \<Rightarrow> nat" where
  "share_tally d s = (if d then s_dropped s else s_allowed s)"

definition sum_where :: "bool \<Rightarrow> (port \<Rightarrow> bool) \<Rightarrow> port list \<Rightarrow> nat" where
  "sum_where d P ps = sum_list (map (tally d) (filter P ps))"

lemma sum_where_simps [simp]:
  "sum_where d P [] = 0" "sum_where d P (p # ps) = (if P p then tally d p else 0) + sum_where d P ps"
  "sum_where d P (ps @ qs) = sum_where d P ps + sum_where d P qs"
  by (simp_all add: sum_where_def)

lemma sum_where_cong: "(\<And>p. p \<in> set ps \<Longrightarrow> P p = Q p) \<Longrightarrow> sum_where d P ps = sum_where d Q ps"
  unfolding sum_where_def by (metis (mono_tags, lifting) filter_cong)

lemma sum_where_or:
  assumes "\<And>p. p \<in> set ps \<Longrightarrow> \<not> (P p \<and> Q p)"
  shows "sum_where d (\<lambda>p. P p \<or> Q p) ps = sum_where d P ps + sum_where d Q ps"
  using assms by (induction ps) auto

lemma sum_where_none: "(\<And>p. p \<in> set ps \<Longrightarrow> \<not> P p) \<Longrightarrow> sum_where d P ps = 0"
  by (induction ps) auto

lemma sum_where_rows:
  assumes "distinct (map r_key rs)" "\<And>r. r \<in> set rs \<Longrightarrow> row_tally d r = sum_where d (\<lambda>p. rowKey p = r_key r) ps"
  shows "sum_list (map (row_tally d) rs) = sum_where d (\<lambda>p. rowKey p \<in> r_key ` set rs) ps"
  using assms
proof (induction rs)
  case (Cons r rs)
  have "sum_where d (\<lambda>p. rowKey p = r_key r \<or> rowKey p \<in> r_key ` set rs) ps =
      sum_where d (\<lambda>p. rowKey p = r_key r) ps + sum_where d (\<lambda>p. rowKey p \<in> r_key ` set rs) ps"
    using Cons.prems(1) by (intro sum_where_or) auto
  with Cons show ?case by simp
qed (simp add: sum_where_none)

section \<open>The rows of a box\<close>

definition box_of :: "port list \<Rightarrow> box" where
  "box_of ps = fold add_port ps []"

lemma box_of_simps [simp]: "box_of [] = []" "box_of (ps @ [p]) = add_port p (box_of ps)"
  by (simp_all add: box_of_def)

lemma add_port_map:
  "map_of (add_port p b) k = (if k = rowKey p then
     (let r = (case map_of b k of Some r \<Rightarrow> r | None \<Rightarrow> \<lparr>r_key = rowKey p, r_text = row_text p, r_allowed = 0, r_dropped = 0\<rparr>) in
      Some (r\<lparr>r_allowed := r_allowed r + tally False p, r_dropped := r_dropped r + tally True p\<rparr>))
     else map_of b k)"
  by (cases "k = rowKey p") (simp_all add: add_port_def update_conv' tally_def Let_def)

lemma box_of_distinct: "distinct (map fst (box_of ps))"
  by (induction ps rule: rev_induct) (simp_all add: add_port_def Let_def distinct_update)

lemma box_of_rows:
  "map_of (box_of ps) k = None \<longleftrightarrow> k \<notin> rowKey ` set ps"
  "map_of (box_of ps) k = Some r \<Longrightarrow> r_key r = k \<and> row_tally d r = sum_where d (\<lambda>p. rowKey p = k) ps"
proof (induction ps arbitrary: r rule: rev_induct)
  case (snoc p ps)
  { case 1 show ?case using snoc(1) by (auto simp: add_port_map Let_def) }
  { case 2 show ?case
    proof (cases "k = rowKey p")
      case True
      show ?thesis
      proof (cases "map_of (box_of ps) k")
        case None
        then have "k \<notin> rowKey ` set ps" using snoc(1) by simp
        then have "sum_where d (\<lambda>q. rowKey q = k) ps = 0" by (intro sum_where_none) auto
        with None True 2 show ?thesis by (auto simp: add_port_map row_tally_def Let_def)
      next
        case (Some r0)
        with True 2 snoc(2) [OF Some] show ?thesis by (auto simp: add_port_map row_tally_def Let_def)
      qed
    qed (use 2 snoc(2) in \<open>auto simp: add_port_map\<close>) }
qed simp_all

lemma insert_by_mset: "mset (insert_by c x xs) = add_mset x (mset xs)"
  by (induction xs) auto

lemma sort_by_mset: "mset (sort_by c xs) = mset xs"
  unfolding sort_by_def by (induction xs) (simp_all add: insert_by_mset)

lemma sort_by_simps [simp]: "set (sort_by c xs) = set xs" "length (sort_by c xs) = length xs"
  using sort_by_mset [of c xs] by (metis set_mset_mset, metis size_mset)

lemma sort_by_distinct: "distinct (map f (sort_by c xs)) = distinct (map f xs)"
  by (metis sort_by_mset mset_map mset_eq_imp_distinct_iff)

lemma rowKey_not_more [simp]: "rowKey p \<noteq> MORE_ROW"
proof
  assume "rowKey p = MORE_ROW"
  then have "CHR ''/'' \<in> set MORE_ROW" by (metis rowKey_def append_Cons in_set_conv_decomp)
  then show False by (simp add: MORE_ROW_def)
qed

text \<open>Rows that show the sums of the ports, one for each key.\<close>

definition covers :: "port list \<Rightarrow> port_row list \<Rightarrow> bool" where
  "covers ps rs \<longleftrightarrow> distinct (map r_key rs) \<and> r_key ` set rs = rowKey ` set ps \<and>
     (\<forall>r \<in> set rs. \<forall>d. row_tally d r = sum_where d (\<lambda>p. rowKey p = r_key r) ps)"

lemma box_covers: "covers ps (map snd (box_of ps))"
proof -
  have row: "r_key r = k \<and> row_tally d r = sum_where d (\<lambda>p. rowKey p = k) ps" if "(k, r) \<in> set (box_of ps)" for k r d
  proof -
    have "map_of (box_of ps) k = Some r" using that by (simp add: box_of_distinct)
    then show ?thesis by (rule box_of_rows(2))
  qed
  have keys: "map r_key (map snd (box_of ps)) = map fst (box_of ps)" using row by (auto simp: comp_def)
  then have "r_key ` set (map snd (box_of ps)) = fst ` set (box_of ps)" by (metis set_map)
  also have "\<dots> = rowKey ` set ps" using box_of_rows(1) [of ps] by (auto simp: map_of_eq_None_iff)
  finally show ?thesis unfolding covers_def keys using row box_of_distinct by fastforce
qed

definition keep_of :: "(string \<times> string) list \<Rightarrow> port \<Rightarrow> string" where
  "keep_of keep p = given (map_of keep (rowKey p))"

lemma keep_map:
  assumes "covers ps rs" "p \<in> set ps"
  shows "keep_of (map (\<lambda>r. (r_key r, f (r_key r))) rs) p = f (rowKey p)"
proof -
  have "map_of (map (\<lambda>r. (r_key r, f (r_key r))) rs) k = (if k \<in> r_key ` set rs then Some (f k) else None)" for k
    by (induction rs) auto
  moreover have "rowKey p \<in> r_key ` set rs" using assms by (simp add: covers_def)
  ultimately show ?thesis by (simp add: keep_of_def given_def)
qed

definition rows_ok :: "port list \<Rightarrow> port_row list \<Rightarrow> (string \<times> string) list \<Rightarrow> bool" where
  "rows_ok ps rws keep \<longleftrightarrow> distinct (map r_key rws) \<and> length rws \<le> MAX_ROWS \<and>
     (\<forall>r \<in> set rws. \<forall>d. row_tally d r = sum_where d (\<lambda>p. keep_of keep p = r_key r) ps) \<and>
     (\<forall>p \<in> set ps. keep_of keep p \<in> r_key ` set rws)"

lemma few_rows_ok:
  assumes "covers ps rs" "length rs \<le> MAX_ROWS"
  shows "rows_ok ps (sort_by c rs) (map (\<lambda>r. (r_key r, r_key r)) rs)"
proof -
  note keep = keep_map [OF assms(1), of _ "\<lambda>k. k"]
  have "sum_where d (\<lambda>p. keep_of (map (\<lambda>r. (r_key r, r_key r)) rs) p = k) ps = sum_where d (\<lambda>p. rowKey p = k) ps" for d k
    by (rule sum_where_cong) (simp add: keep)
  then show ?thesis using assms keep unfolding rows_ok_def covers_def by (simp add: sort_by_distinct)
qed

lemma many_rows_ok:
  assumes "covers ps rs" "set busiest \<subseteq> set rs" "distinct (map r_key busiest)" "length busiest < MAX_ROWS"
    and others: "others = filter (\<lambda>r. r_key r \<notin> r_key ` set busiest) rs"
  shows "rows_ok ps (sort_by c (busiest @ [\<lparr>r_key = MORE_ROW, r_text = txt, r_allowed = sum_list (map r_allowed others),
       r_dropped = sum_list (map r_dropped others)\<rparr>]))
     (map (\<lambda>r. (r_key r, if r_key r \<in> r_key ` set busiest then r_key r else MORE_ROW)) rs)"
proof -
  define kept where "kept = r_key ` set busiest"
  define keep where "keep = map (\<lambda>r. (r_key r, if r_key r \<in> kept then r_key r else MORE_ROW)) rs"
  define more where "more = \<lparr>r_key = MORE_ROW, r_text = txt, r_allowed = sum_list (map r_allowed others), r_dropped = sum_list (map r_dropped others)\<rparr>"
  have k: "keep_of keep p = (if rowKey p \<in> kept then rowKey p else MORE_ROW)" if "p \<in> set ps" for p
    unfolding keep_def by (rule keep_map [OF assms(1) that])
  have kept_sub: "kept \<subseteq> rowKey ` set ps" using assms(1,2) by (auto simp: kept_def covers_def)
  have fresh: "MORE_ROW \<notin> kept" using kept_sub by (metis imageE rowKey_not_more subsetD)
  have others_keys: "r_key ` set others = r_key ` set rs - kept" by (auto simp: others kept_def)
  have row: "row_tally d r = sum_where d (\<lambda>p. keep_of keep p = r_key r) ps" if "r \<in> set busiest" for d r
  proof -
    have "row_tally d r = sum_where d (\<lambda>p. rowKey p = r_key r) ps" using that assms(1,2) by (auto simp: covers_def)
    also have "\<dots> = sum_where d (\<lambda>p. keep_of keep p = r_key r) ps"
      using that fresh by (intro sum_where_cong) (auto simp: k kept_def)
    finally show ?thesis .
  qed
  have "row_tally d more = sum_list (map (row_tally d) others)" for d
    by (cases d) (simp_all add: more_def)
  also have "sum_list (map (row_tally d) others) = sum_where d (\<lambda>p. rowKey p \<in> r_key ` set others) ps" for d
    using assms(1) by (intro sum_where_rows) (auto simp: others covers_def distinct_map_filter)
  also have "sum_where d (\<lambda>p. rowKey p \<in> r_key ` set others) ps = sum_where d (\<lambda>p. keep_of keep p = r_key more) ps" for d
  proof (rule sum_where_cong)
    fix p assume p: "p \<in> set ps"
    then have "rowKey p \<in> r_key ` set rs" using assms(1) by (simp add: covers_def)
    then show "(rowKey p \<in> r_key ` set others) = (keep_of keep p = r_key more)"
      unfolding others_keys by (simp add: k [OF p] more_def)
  qed
  finally have more: "row_tally d more = sum_where d (\<lambda>p. keep_of keep p = r_key more) ps" for d .
  have mk: "r_key more = MORE_ROW" by (simp add: more_def)
  have "keep_of keep p \<in> r_key ` set (busiest @ [more])" if "p \<in> set ps" for p
    using that by (simp add: k mk kept_def)
  moreover have "distinct (map r_key (busiest @ [more]))" using assms(3) fresh by (simp add: mk kept_def)
  ultimately have "rows_ok ps (sort_by c (busiest @ [more])) keep"
    using row more assms(4) unfolding rows_ok_def sort_by_distinct by simp
  then show ?thesis unfolding keep_def more_def kept_def .
qed

lemma box_rows_ok: "case box_rows lc (box_of ps) of (rws, keep) \<Rightarrow> rows_ok ps rws keep"
proof -
  define rs where "rs = map snd (box_of ps)"
  have c: "covers ps rs" unfolding rs_def by (rule box_covers)
  define busiest where "busiest = take (MAX_ROWS - 1) (sort_by (busier lc) rs)"
  have b: "set busiest \<subseteq> set rs" "distinct (map r_key busiest)" "length busiest < MAX_ROWS"
    using c unfolding busiest_def take_map [symmetric]
    by (auto dest: in_set_takeD simp: covers_def sort_by_distinct MAX_ROWS_def intro: distinct_take)
  show ?thesis
  proof (cases "length rs > MAX_ROWS")
    case True
    then show ?thesis using many_rows_ok [OF c b refl] by (simp add: box_rows_def rs_def [symmetric] busiest_def [symmetric, simplified] Let_def)
  next
    case False
    then show ?thesis using few_rows_ok [OF c] by (simp add: box_rows_def rs_def [symmetric] Let_def)
  qed
qed

section \<open>The boxes\<close>

definition ports_to :: "traffic_edge list \<Rightarrow> string \<Rightarrow> port list" where
  "ports_to es t = concat (map edge_ports (filter (\<lambda>e. tgt e = t) es))"

lemma fold_boxes:
  "map_of (fold add_to_box tps []) t =
     (let ps = map snd (filter (\<lambda>tp. fst tp = t) tps) in if ps = [] then None else Some (box_of ps))"
  "distinct (map fst (fold add_to_box tps []))"
  by (induction tps rule: rev_induct) (auto simp: add_to_box_def update_conv' distinct_update Let_def split: if_splits)

lemma filter_target:
  "map snd (filter (\<lambda>tp. fst tp = t) (concat (map (\<lambda>e. map (Pair (tgt e)) (edge_ports e)) es))) = ports_to es t"
proof (induction es)
  case (Cons e es)
  have "map snd (filter (\<lambda>tp. fst tp = t) (map (Pair u) ps)) = (if u = t then ps else [])" for u and ps :: "port list"
    by (induction ps) auto
  with Cons show ?case by (simp add: ports_to_def)
qed (simp add: ports_to_def)

lemma per_box_map: "map_of (per_box es) t = (if ports_to es t = [] then None else Some (box_of (ports_to es t)))"
  unfolding per_box_def fold_boxes(1) filter_target Let_def ..

lemma per_box_distinct: "distinct (map fst (per_box es))"
  unfolding per_box_def by (rule fold_boxes(2))

section \<open>The shares\<close>

lemma share_of_simps [simp]:
  "tgt (share_of e rws k p) = tgt e" "row (share_of e rws k p) = Some k" "s_allowed (share_of e rws k p) = 0"
  "s_dropped (share_of e rws k p) = 0" "lineId (share_of e rws k p) = eid e"
  by (simp_all add: share_of_def traffic_edge.defs port_edge.defs)

definition share_ok :: "traffic_edge \<Rightarrow> (string \<times> string) list \<Rightarrow> port list \<Rightarrow> string \<times> port_edge \<Rightarrow> bool" where
  "share_ok e keep ps ks \<longleftrightarrow> tgt (snd ks) = tgt e \<and> row (snd ks) = Some (fst ks) \<and>
     (\<forall>d. share_tally d (snd ks) = sum_where d (\<lambda>p. keep_of keep p = fst ks) ps)"

definition shares_ok :: "traffic_edge \<Rightarrow> (string \<times> string) list \<Rightarrow> port list \<Rightarrow> (string \<times> port_edge) list \<Rightarrow> bool" where
  "shares_ok e keep ps shares \<longleftrightarrow> distinct (map fst shares) \<and> fst ` set shares = keep_of keep ` set ps \<and>
     (\<forall>ks \<in> set shares. share_ok e keep ps ks)"

lemma share_tally_simps [simp]: "share_tally True = s_dropped" "share_tally False = s_allowed"
  by (simp_all add: share_tally_def fun_eq_iff)

lemma both_counts: "(\<forall>d. P d) \<longleftrightarrow> P True \<and> P False"
  by (metis (full_types))

lemma add_share_ok:
  assumes "shares_ok e keep ps shares"
  shows "shares_ok e keep (ps @ [p]) (add_share e rws keep p shares)"
proof -
  let ?k = "keep_of keep p"
  have d: "distinct (map fst shares)" using assms by (simp add: shares_ok_def)
  define s where "s = (case map_of shares ?k of Some s \<Rightarrow> s | None \<Rightarrow> share_of e rws ?k p)"
  have s: "share_ok e keep ps (?k, s)"
  proof (cases "map_of shares ?k")
    case None
    then have "?k \<notin> keep_of keep ` set ps" using assms by (auto simp: shares_ok_def map_of_eq_None_iff)
    then have "sum_where d (\<lambda>q. keep_of keep q = ?k) ps = 0" for d by (intro sum_where_none) (metis image_eqI)
    with None show ?thesis by (simp add: s_def share_ok_def both_counts)
  next
    case (Some x)
    then show ?thesis using assms map_of_SomeD [OF Some] by (auto simp: s_def shares_ok_def)
  qed
  define s' where "s' = s\<lparr>s_allowed := s_allowed s + count_of (p_allowed p), s_dropped := s_dropped s + count_of (p_dropped p)\<rparr>"
  have new: "share_ok e keep (ps @ [p]) (?k, s')" using s by (simp add: share_ok_def s'_def both_counts tally_def)
  have old: "share_ok e keep (ps @ [p]) ks" if "ks \<in> set shares" "fst ks \<noteq> ?k" for ks
    using assms that by (auto simp: shares_ok_def share_ok_def)
  have u: "add_share e rws keep p shares = AList.update ?k s' shares"
    unfolding add_share_def s'_def s_def keep_of_def Let_def ..
  have "ks = (?k, s') \<or> (ks \<in> set shares \<and> fst ks \<noteq> ?k)" if "ks \<in> set (AList.update ?k s' shares)" for ks
  proof -
    obtain k x where ks: "ks = (k, x)" by (rule prod.exhaust)
    with that d have "map_of (AList.update ?k s' shares) k = Some x" by (simp add: distinct_update)
    then show ?thesis by (auto simp: ks update_conv' dest: map_of_SomeD split: if_splits)
  qed
  then have "\<forall>ks \<in> set (AList.update ?k s' shares). share_ok e keep (ps @ [p]) ks" using new old by blast
  moreover have "fst ` set (AList.update ?k s' shares) = insert ?k (fst ` set shares)" by (simp add: dom_update)
  ultimately show ?thesis using assms d unfolding u by (simp add: shares_ok_def distinct_update)
qed

lemma fold_share_ok: "shares_ok e keep ps (fold (add_share e rws keep) ps [])"
  by (induction ps rule: rev_induct) (simp_all add: add_share_ok, simp add: shares_ok_def)

lemma share_sums:
  assumes "shares_ok e keep ps shares"
  shows "sum_list (map (share_tally d) (filter (\<lambda>s. tgt s = t \<and> row s = Some k) (map snd shares))) =
      (if tgt e = t then sum_where d (\<lambda>p. keep_of keep p = k) ps else 0)"
    and "sum_list (map (share_tally d) (map snd shares)) = sum_list (map (tally d) ps)"
proof -
  have ok: "\<And>ks. ks \<in> set shares \<Longrightarrow> share_ok e keep ps ks" using assms by (simp add: shares_ok_def)
  have one: "sum_list (map (share_tally d) (filter (\<lambda>s. tgt s = t \<and> row s = Some k) (map snd sh))) =
      (if tgt e = t \<and> k \<in> fst ` set sh then sum_where d (\<lambda>p. keep_of keep p = k) ps else 0)"
    if "distinct (map fst sh)" "\<And>ks. ks \<in> set sh \<Longrightarrow> share_ok e keep ps ks" for sh
    using that
  proof (induction sh)
    case (Cons ks sh)
    have "share_ok e keep ps ks" using Cons.prems(2) by simp
    moreover have "sum_list (map (share_tally d) (filter (\<lambda>s. tgt s = t \<and> row s = Some k) (map snd sh))) =
      (if tgt e = t \<and> k \<in> fst ` set sh then sum_where d (\<lambda>p. keep_of keep p = k) ps else 0)"
      using Cons.prems by (intro Cons.IH) auto
    ultimately show ?case using Cons.prems(1)
      by (cases "tgt e = t"; cases "fst ks = k") (simp_all add: share_ok_def del: sum_list_eq_0_iff)
  qed simp
  have "sum_where d (\<lambda>p. keep_of keep p = k) ps = 0" if "k \<notin> fst ` set shares"
    using that assms by (intro sum_where_none) (auto simp: shares_ok_def)
  with one [OF _ ok] assms show "sum_list (map (share_tally d) (filter (\<lambda>s. tgt s = t \<and> row s = Some k) (map snd shares))) =
      (if tgt e = t then sum_where d (\<lambda>p. keep_of keep p = k) ps else 0)" by (simp add: shares_ok_def)
  have all: "sum_list (map (share_tally d) (map snd sh)) = sum_where d (\<lambda>p. keep_of keep p \<in> fst ` set sh) ps"
    if "distinct (map fst sh)" "\<And>ks. ks \<in> set sh \<Longrightarrow> share_ok e keep ps ks" for sh
    using that
  proof (induction sh)
    case (Cons ks sh)
    have "sum_where d (\<lambda>p. keep_of keep p = fst ks \<or> keep_of keep p \<in> fst ` set sh) ps =
        sum_where d (\<lambda>p. keep_of keep p = fst ks) ps + sum_where d (\<lambda>p. keep_of keep p \<in> fst ` set sh) ps"
      using Cons.prems(1) by (intro sum_where_or) auto
    moreover have "share_ok e keep ps ks" using Cons.prems(2) by simp
    ultimately show ?case using Cons by (simp add: share_ok_def)
  qed (simp add: sum_where_none)
  have "sum_where d (\<lambda>p. keep_of keep p \<in> fst ` set shares) ps = sum_where d (\<lambda>p. True) ps"
    using assms by (intro sum_where_cong) (auto simp: shares_ok_def)
  with all [OF _ ok] assms show "sum_list (map (share_tally d) (map snd shares)) = sum_list (map (tally d) ps)"
    by (simp add: shares_ok_def sum_where_def)
qed

section \<open>The split\<close>

definition rows_of :: "(string \<Rightarrow> string \<Rightarrow> int) \<Rightarrow> traffic_edge list \<Rightarrow> (string \<times> (port_row list \<times> (string \<times> string) list)) list" where
  "rows_of lc es = map (\<lambda>(t, b). (t, box_rows lc b)) (per_box es)"

definition shares :: "(string \<Rightarrow> string \<Rightarrow> int) \<Rightarrow> traffic_edge list \<Rightarrow> port_edge list" where
  "shares lc es = concat (map (edge_shares (rows_of lc es)) es)"

lemma set_width_simps [simp]:
  "tgt (set_width b s) = tgt s" "row (set_width b s) = row s" "s_allowed (set_width b s) = s_allowed s"
  "s_dropped (set_width b s) = s_dropped s" "share_tally d (set_width b s) = share_tally d s"
  by (simp_all add: set_width_def share_tally_def)

lemma byPort_parts:
  "snd (byPort lc es) = map (\<lambda>(t, x). (t, fst x)) (rows_of lc es)"
  "\<exists>b. fst (byPort lc es) = map (set_width b) (shares lc es)"
  by (auto simp: byPort_def rows_of_def shares_def Let_def)

lemma rows_of_map:
  "map_of (rows_of lc es) t = (if ports_to es t = [] then None else Some (box_rows lc (box_of (ports_to es t))))"
  unfolding rows_of_def map_of_map by (simp add: per_box_map)

lemma rows_of_entry:
  assumes "(t, x) \<in> set (rows_of lc es)"
  shows "x = box_rows lc (box_of (ports_to es t))"
proof -
  have "map fst (rows_of lc es) = map fst (per_box es)" by (simp add: rows_of_def comp_def split_beta)
  then have "distinct (map fst (rows_of lc es))" by (simp add: per_box_distinct)
  with assms have "map_of (rows_of lc es) t = Some x" by simp
  then show ?thesis by (simp add: rows_of_map split: if_splits)
qed

lemma edge_shares_sums:
  assumes "e \<in> set es"
  shows "sum_list (map (share_tally d) (filter (\<lambda>s. tgt s = t \<and> row s = Some k) (edge_shares (rows_of lc es) e))) =
      (if tgt e = t then sum_where d (\<lambda>p. keep_of (snd (box_rows lc (box_of (ports_to es t)))) p = k) (edge_ports e) else 0)"
    and "sum_list (map (share_tally d) (edge_shares (rows_of lc es) e)) =
      (if edge_ports e = [] then (if d then l_dropped (eline e) else l_allowed (eline e)) else sum_list (map (tally d) (edge_ports e)))"
proof -
  define rws keep where "rws = fst (box_rows lc (box_of (ports_to es (tgt e))))"
    and "keep = snd (box_rows lc (box_of (ports_to es (tgt e))))"
  have "set (edge_ports e) \<subseteq> set (ports_to es (tgt e))" using assms by (auto simp: ports_to_def)
  then have sh: "edge_ports e \<noteq> [] \<Longrightarrow> edge_shares (rows_of lc es) e = map snd (fold (add_share e rws keep) (edge_ports e) [])"
    by (auto simp: edge_shares_def rows_of_map rws_def keep_def split_beta)
  note s = share_sums [OF fold_share_ok [of e keep "edge_ports e" rws]]
  have none: "edge_ports e = [] \<Longrightarrow> edge_shares (rows_of lc es) e =
      [traffic_edge.extend e (port_edge.fields (eid e) None None (l_allowed (eline e)) (l_dropped (eline e)))]"
    by (simp add: edge_shares_def)
  show "sum_list (map (share_tally d) (filter (\<lambda>s. tgt s = t \<and> row s = Some k) (edge_shares (rows_of lc es) e))) =
      (if tgt e = t then sum_where d (\<lambda>p. keep_of (snd (box_rows lc (box_of (ports_to es t)))) p = k) (edge_ports e) else 0)"
  proof (cases "edge_ports e = []")
    case True
    then show ?thesis by (simp add: none traffic_edge.defs port_edge.defs)
  next
    case False
    then show ?thesis using s(1) [of d t k] by (auto simp: sh keep_def)
  qed
  show "sum_list (map (share_tally d) (edge_shares (rows_of lc es) e)) =
      (if edge_ports e = [] then (if d then l_dropped (eline e) else l_allowed (eline e)) else sum_list (map (tally d) (edge_ports e)))"
    using s(2) [of d] by (cases "edge_ports e = []") (simp_all add: none sh share_tally_def traffic_edge.defs port_edge.defs)
qed

lemma sum_concat: "sum_list (map f (filter Q (concat (map g es)))) = sum_list (map (\<lambda>e. sum_list (map f (filter Q (g e)))) es)"
  for f :: "'a \<Rightarrow> nat"
  by (induction es) simp_all

lemma sum_to: "sum_list (map (\<lambda>e. if tgt e = t then sum_where d P (edge_ports e) else 0) es) = sum_where d P (ports_to es t)"
  by (induction es) (simp_all add: ports_to_def)

lemma shares_sum:
  "sum_list (map (share_tally d) (filter (\<lambda>s. tgt s = t \<and> row s = Some k) (shares lc es))) =
     sum_where d (\<lambda>p. keep_of (snd (box_rows lc (box_of (ports_to es t)))) p = k) (ports_to es t)"
proof -
  have "map (\<lambda>e. sum_list (map (share_tally d) (filter (\<lambda>s. tgt s = t \<and> row s = Some k) (edge_shares (rows_of lc es) e)))) es =
      map (\<lambda>e. if tgt e = t then sum_where d (\<lambda>p. keep_of (snd (box_rows lc (box_of (ports_to es t)))) p = k) (edge_ports e) else 0) es"
    using edge_shares_sums(1) by (intro map_cong refl) blast
  then show ?thesis unfolding shares_def sum_concat by (simp only: sum_to)
qed

lemma filter_True_all: "filter (\<lambda>s. True) xs = xs"
  by simp

lemma shares_total:
  "sum_list (map (share_tally d) (shares lc es)) = sum_list (map (\<lambda>e. if edge_ports e = [] then (if d then l_dropped (eline e) else l_allowed (eline e))
     else sum_list (map (tally d) (edge_ports e))) es)"
proof -
  have "map (\<lambda>e. sum_list (map (share_tally d) (filter (\<lambda>s. True) (edge_shares (rows_of lc es) e)))) es =
      map (\<lambda>e. if edge_ports e = [] then (if d then l_dropped (eline e) else l_allowed (eline e)) else sum_list (map (tally d) (edge_ports e))) es"
    unfolding filter_True_all using edge_shares_sums(2) by (intro map_cong refl) blast
  then show ?thesis
    using sum_concat [of "share_tally d" "\<lambda>s. True" "edge_shares (rows_of lc es)" es] unfolding shares_def filter_True_all by (simp only:)
qed

lemma share_tally_set_width [simp]: "share_tally d \<circ> set_width b = share_tally d"
  by (simp add: fun_eq_iff)

lemma byPort_sums:
  "sum_list (map (share_tally d) (filter (\<lambda>s. tgt s = t \<and> row s = Some k) (fst (byPort lc es)))) =
     sum_where d (\<lambda>p. keep_of (snd (box_rows lc (box_of (ports_to es t)))) p = k) (ports_to es t)"
proof -
  obtain b where b: "fst (byPort lc es) = map (set_width b) (shares lc es)" using byPort_parts(2) by blast
  show ?thesis by (simp add: b filter_map comp_def shares_sum)
qed

section \<open>Properties\<close>

text \<open>
  C38: The traffic lines on the graph: each line is drawn once, in the lines' order, or counted as a self loop; a drawn line runs between two
  different nodes, shown ones or stand-ins, one stand-in per end, has the state of its counts, and a width from 1.5 to 4.
\<close>

theorem buildTraffic_places:
  "let r = buildTraffic lines shown; self = self_loop shown (in_group shown) in
     map eline (edges r) = filter (\<lambda>l. \<not> self l) lines \<and> selfLoops r = length (filter self lines) \<and>
     distinct (map fst (peers r)) \<and>
     list_all (\<lambda>e. src e \<noteq> tgt e \<and> (is_shown shown (src e) \<or> src e \<in> fst ` set (peers r)) \<and>
       (is_shown shown (tgt e) \<or> tgt e \<in> fst ` set (peers r)) \<and> estate e = lineState (eline e) \<and> 3/2 \<le> width e \<and> width e \<le> 4) (edges r)"
proof -
  let ?b = "busiest_of (map (\<lambda>l. l_allowed l + l_dropped l) lines)" and ?st = "\<lparr>peers = [], edges = [], selfLoops = 0\<rparr>"
  have "placed_ok shown (fold (place_line shown (in_group shown) ?b) (enumerate 0 lines) ?st)"
  proof (rule place_lines_ok)
    show "list_all (\<lambda>il. l_allowed (snd il) + l_dropped (snd il) \<le> ?b) (enumerate 0 lines)"
      by (auto simp: list_all_iff in_set_enumerate_eq intro!: busiest_of_ge(1))
  qed (use busiest_of_ge(2) in \<open>simp_all add: placed_ok_def\<close>)
  then show ?thesis
    using place_lines_count [of shown "in_group shown" ?b "enumerate 0 lines" ?st]
    by (simp add: buildTraffic_def placed_ok_def edge_ok_def node_of_def list_all_iff Let_def)
qed

text \<open>
  Splitting the lines by port loses and invents no count. A box has at most six rows, each with a key of its own; a row's allowed and dropped counts
  are the sums of the edges that end at it; and all edges together count what the lines' ports count, or the line itself where it has none.
\<close>

theorem byPort_conserves:
  "list_all (\<lambda>(box, rws). distinct (map r_key rws) \<and> length rws \<le> 6 \<and>
      list_all (\<lambda>r. r_allowed r = sum_list (map s_allowed (filter (\<lambda>s. tgt s = box \<and> row s = Some (r_key r)) (fst (byPort lc es)))) \<and>
        r_dropped r = sum_list (map s_dropped (filter (\<lambda>s. tgt s = box \<and> row s = Some (r_key r)) (fst (byPort lc es))))) rws)
     (snd (byPort lc es)) \<and>
   sum_list (map s_allowed (fst (byPort lc es))) =
     sum_list (map (\<lambda>e. if edge_ports e = [] then l_allowed (eline e) else sum_list (map (\<lambda>p. count_of (p_allowed p)) (edge_ports e))) es) \<and>
   sum_list (map s_dropped (fst (byPort lc es))) =
     sum_list (map (\<lambda>e. if edge_ports e = [] then l_dropped (eline e) else sum_list (map (\<lambda>p. count_of (p_dropped p)) (edge_ports e))) es)"
proof -
  obtain b where b: "fst (byPort lc es) = map (set_width b) (shares lc es)" using byPort_parts(2) by blast
  have t: "tally True = (\<lambda>p. count_of (p_dropped p))" "tally False = (\<lambda>p. count_of (p_allowed p))" by (simp_all add: tally_def fun_eq_iff)
  have "sum_list (map (share_tally d) (fst (byPort lc es))) = sum_list (map (share_tally d) (shares lc es))" for d by (simp add: b)
  note totals = this [unfolded shares_total]
  have boxes: "distinct (map r_key rws) \<and> length rws \<le> 6 \<and>
      (\<forall>r \<in> set rws. \<forall>d. row_tally d r = sum_list (map (share_tally d) (filter (\<lambda>s. tgt s = box \<and> row s = Some (r_key r)) (fst (byPort lc es)))))"
    if "(box, rws) \<in> set (snd (byPort lc es))" for box rws
  proof -
    from that obtain x where x: "(box, x) \<in> set (rows_of lc es)" "rws = fst x" by (auto simp: byPort_parts(1))
    from rows_of_entry [OF x(1)] x(2) box_rows_ok [where lc = lc and ps = "ports_to es box"]
    have "rows_ok (ports_to es box) rws (snd (box_rows lc (box_of (ports_to es box))))" by (simp add: split_beta)
    then show ?thesis unfolding byPort_sums rows_ok_def MAX_ROWS_def by blast
  qed
  have row: "r_allowed r = sum_list (map s_allowed (filter (\<lambda>s. tgt s = box \<and> row s = Some (r_key r)) (fst (byPort lc es)))) \<and>
      r_dropped r = sum_list (map s_dropped (filter (\<lambda>s. tgt s = box \<and> row s = Some (r_key r)) (fst (byPort lc es))))"
    if "(box, rws) \<in> set (snd (byPort lc es))" "r \<in> set rws" for box rws r
    using boxes [OF that(1)] that(2) unfolding both_counts row_tally_simps share_tally_simps by blast
  show ?thesis
  proof (intro conjI)
    show "sum_list (map s_allowed (fst (byPort lc es))) =
        sum_list (map (\<lambda>e. if edge_ports e = [] then l_allowed (eline e) else sum_list (map (\<lambda>p. count_of (p_allowed p)) (edge_ports e))) es)"
      using totals [of False] unfolding t share_tally_simps if_False .
    show "sum_list (map s_dropped (fst (byPort lc es))) =
        sum_list (map (\<lambda>e. if edge_ports e = [] then l_dropped (eline e) else sum_list (map (\<lambda>p. count_of (p_dropped p)) (edge_ports e))) es)"
      using totals [of True] unfolding t share_tally_simps if_True .
  qed (unfold list_all_iff, use boxes row in blast)
qed

end
