(* ===== verification/Row_Objects.thy ===== *)
theory Row_Objects
  imports Rows_Workloads Rows_Network Rows_Storage Rows_Cluster
begin

text \<open>
  The objects the lists open in the drawer: a list's row, written back as a Kubernetes object
  (\<^verbatim>\<open>*ToRawJson\<close> and \<^verbatim>\<open>*ToWorkloadRawJson\<close> of the pages' \<^verbatim>\<open>*Helpers.ts\<close> under \<^verbatim>\<open>frontend/src/pages/\<close>), one function per kind.
  A property written as undefined is there with no value, which every reader takes as absent.

  Rows are as their types say: where a function maps over a list the row holds, a value that is no list reads as an empty one.
\<close>

section \<open>Reading a row\<close>

text \<open>\<^verbatim>\<open>v || {}\<close>, \<^verbatim>\<open>v || []\<close> as a value and as a list, \<^verbatim>\<open>v || undefined\<close>.\<close>

definition obj_or :: "jval \<Rightarrow> jval" where
  "obj_or v = jor v empty_obj"

definition arr_or :: "jval \<Rightarrow> jval" where
  "arr_or v = jor v (JArr [])"

definition list_or :: "jval \<Rightarrow> jval list" where
  "list_or v = elems (arr_or v)"

definition or_undef :: "jval \<Rightarrow> jval" where
  "or_undef v = jor v JUndef"

definition or_text :: "jval \<Rightarrow> string \<Rightarrow> jval" where
  "or_text v d = jor v (JStr d)"

text \<open>\<^verbatim>\<open>containers?.[idx] || `container-${idx + 1}`\<close>, and the containers of the images.\<close>

definition item_at :: "jval \<Rightarrow> nat \<Rightarrow> jval" where
  "item_at v i = (if i < length (elems v) then elems v ! i else JUndef)"

definition numbered :: "string \<Rightarrow> nat \<Rightarrow> string" where
  "numbered p i = p @ show_nat (i + 1)"

definition image_containers :: "jval \<Rightarrow> jval \<Rightarrow> jval" where
  "image_containers names images = JArr (map (\<lambda>(idx, image).
     JObj [(''name'', or_text (item_at names idx) (numbered ''container-'' idx)), (''image'', image)]) (enumerate 0 (list_or images)))"

definition object_of :: "jval \<Rightarrow> string \<Rightarrow> jval \<Rightarrow> (string \<times> jval) list \<Rightarrow> jval" where
  "object_of apiVersion kind metadata rest = JObj ([(''apiVersion'', apiVersion), (''kind'', JStr kind), (''metadata'', metadata)] @ rest)"

lemmas raw_parts = obj_or_def arr_or_def list_or_def or_undef_def or_text_def object_of_def

section \<open>Workloads\<close>

definition deploymentToWorkloadRawJson :: "jval \<Rightarrow> jval" where
  "deploymentToWorkloadRawJson r =
     object_of (JStr ''apps/v1'') ''Deployment''
       (JObj [(''name'', jget r ''name''), (''namespace'', jget r ''namespace''), (''labels'', obj_or (jget r ''labels'')),
          (''creationTimestamp'', jget r ''created_at'')])
       [(''spec'', JObj [(''replicas'', jget r ''replicas''),
           (''selector'', JObj [(''matchLabels'', obj_or (jget r ''selector''))]),
           (''template'', JObj [(''metadata'', JObj [(''labels'', obj_or (jget r ''selector''))]),
              (''spec'', JObj [(''containers'', JArr (if truthy (jget r ''image'')
                 then [JObj [(''name'', jget r ''name''), (''image'', jget r ''image'')]] else []))])])]),
        (''status'', JObj [(''readyReplicas'', jget r ''ready_replicas''), (''availableReplicas'', jget r ''available_replicas''),
           (''updatedReplicas'', jget r ''updated_replicas'')])]"

definition daemonSetToWorkloadRawJson :: "jval \<Rightarrow> jval" where
  "daemonSetToWorkloadRawJson r =
     (let labels = JObj [(''app'', jget r ''name'')] in
      object_of (JStr ''apps/v1'') ''DaemonSet''
       (JObj [(''name'', jget r ''name''), (''namespace'', jget r ''namespace''), (''creationTimestamp'', jget r ''created_at'')])
       [(''spec'', JObj [(''selector'', JObj [(''matchLabels'', labels)]),
           (''template'', JObj [(''metadata'', JObj [(''labels'', labels)]),
              (''spec'', JObj [(''nodeSelector'', obj_or (jget r ''node_selector'')),
                 (''containers'', JArr (map (\<lambda>(idx, image). JObj [(''name'', JStr (numbered ''container-'' idx)), (''image'', image)])
                    (enumerate 0 (list_or (jget r ''images'')))))])]),
           (''updateStrategy'', JObj [(''type'', JStr ''RollingUpdate'')])]),
        (''status'', JObj [(''desiredNumberScheduled'', jget r ''desired''), (''currentNumberScheduled'', jget r ''current''),
           (''numberReady'', jget r ''ready''), (''updatedNumberScheduled'', jget r ''updated''),
           (''numberAvailable'', jget r ''available''), (''numberMisscheduled'', jget r ''misscheduled''),
           (''numberUnavailable'', jget r ''unavailable'')])])"

definition replicaSetToWorkloadRawJson :: "jval \<Rightarrow> jval" where
  "replicaSetToWorkloadRawJson r =
     (let labels = jor (jget r ''selector'') (JObj [(''app'', jget r ''name'')]) in
      object_of (JStr ''apps/v1'') ''ReplicaSet''
       (JObj [(''name'', jget r ''name''), (''namespace'', jget r ''namespace''), (''labels'', obj_or (jget r ''labels'')),
          (''creationTimestamp'', jget r ''created_at'')])
       [(''spec'', JObj [(''replicas'', jget r ''replicas''), (''selector'', JObj [(''matchLabels'', labels)]),
           (''template'', JObj [(''metadata'', JObj [(''labels'', labels)]),
              (''spec'', JObj [(''containers'', image_containers (jget r ''containers'') (jget r ''images''))])])]),
        (''status'', JObj [(''replicas'', jget r ''current_replicas''), (''readyReplicas'', jget r ''ready_replicas''),
           (''availableReplicas'', jget r ''available_replicas'')])])"

text \<open>\<^verbatim>\<open>/ of /.test(text ?? '')\<close>: a work queue's completions are not the object's.\<close>

definition jobToWorkloadRawJson :: "jval \<Rightarrow> jval" where
  "jobToWorkloadRawJson r =
     (let labels = JObj [(''app'', jget r ''name'')] in
      object_of (JStr ''batch/v1'') ''Job''
       (JObj [(''name'', jget r ''name''), (''namespace'', jget r ''namespace''), (''labels'', labels), (''creationTimestamp'', jget r ''created_at'')])
       [(''spec'', JObj [(''completions'', if contains (jstr (jnn (jget r ''completions_text'') (JStr []))) '' of '' then JUndef else jget r ''completions''),
           (''parallelism'', jget r ''parallelism''),
           (''template'', JObj [(''metadata'', JObj [(''labels'', labels)]),
              (''spec'', JObj [(''restartPolicy'', JStr ''Never''),
                 (''containers'', image_containers (jget r ''containers'') (jget r ''images''))])])]),
        (''status'', JObj [(''active'', jget r ''active''), (''succeeded'', jget r ''succeeded''), (''failed'', jget r ''failed''),
           (''startTime'', jget r ''start_time''), (''completionTime'', jget r ''completion_time'')])])"

text \<open>\<^verbatim>\<open>Array.from({ length: Number(active || 0) }, \<dots>)\<close>: what is not a positive number makes an empty array.\<close>

definition active_jobs :: "jval \<Rightarrow> jval" where
  "active_jobs active = JArr (map (\<lambda>idx. JObj [(''kind'', JStr ''Job''), (''name'', JStr (numbered ''active-'' idx))])
     [0..<(case to_number (jor active (JNum 0)) of JNum n \<Rightarrow> nat n | _ \<Rightarrow> 0)])"

definition cronJobToWorkloadRawJson :: "jval \<Rightarrow> jval" where
  "cronJobToWorkloadRawJson r =
     (let labels = JObj [(''app'', jget r ''name'')] in
      object_of (JStr ''batch/v1'') ''CronJob''
       (JObj [(''name'', jget r ''name''), (''namespace'', jget r ''namespace''), (''labels'', labels), (''creationTimestamp'', jget r ''created_at'')])
       [(''spec'', JObj [(''schedule'', jget r ''schedule''), (''suspend'', jget r ''suspend''),
           (''concurrencyPolicy'', jget r ''concurrency_policy''),
           (''jobTemplate'', JObj [(''spec'', JObj [(''template'', JObj [(''metadata'', JObj [(''labels'', labels)]),
              (''spec'', JObj [(''restartPolicy'', JStr ''OnFailure''),
                 (''containers'', image_containers (jget r ''containers'') (jget r ''images''))])])])])]),
        (''status'', JObj [(''lastScheduleTime'', jget r ''last_schedule_time''), (''lastSuccessfulTime'', jget r ''last_successful_time''),
           (''active'', active_jobs (jget r ''active''))])])"

definition pdbToRawJson :: "jval \<Rightarrow> jval" where
  "pdbToRawJson r =
     object_of (JStr ''policy/v1'') ''PodDisruptionBudget''
       (JObj [(''name'', jget r ''name''), (''namespace'', jget r ''namespace''), (''creationTimestamp'', jget r ''created_at'')])
       [(''spec'', JObj ((if \<not> nullish (jget r ''min_available'') then [(''minAvailable'', jget r ''min_available'')] else []) @
           (if \<not> nullish (jget r ''max_unavailable'') then [(''maxUnavailable'', jget r ''max_unavailable'')] else []) @
           (if truthy (jget r ''selector'') \<and> spread (jget r ''selector'') \<noteq> []
            then [(''selector'', JObj [(''matchLabels'', jget r ''selector'')])] else []))),
        (''status'', JObj [(''currentHealthy'', jget r ''current_healthy''), (''desiredHealthy'', jget r ''desired_healthy''),
           (''disruptionsAllowed'', jget r ''disruptions_allowed''), (''expectedPods'', jget r ''expected_pods'')])]"

definition hpaToRawJson :: "jval \<Rightarrow> jval" where
  "hpaToRawJson r =
     object_of (JStr ''autoscaling/v2'') ''HorizontalPodAutoscaler''
       (JObj [(''name'', jget r ''name''), (''namespace'', jget r ''namespace''), (''creationTimestamp'', jget r ''created_at'')])
       [(''spec'', JObj [(''minReplicas'', jget r ''min_replicas''), (''maxReplicas'', jget r ''max_replicas'')]),
        (''status'', JObj [(''currentReplicas'', jget r ''current_replicas''), (''desiredReplicas'', jget r ''desired_replicas'')])]"

definition vpaToRawJson :: "jval \<Rightarrow> jval" where
  "vpaToRawJson r =
     object_of (JStr ''autoscaling.k8s.io/v1'') ''VerticalPodAutoscaler''
       (JObj [(''name'', jget r ''name''), (''namespace'', jget r ''namespace''), (''labels'', obj_or (jget r ''labels'')),
          (''creationTimestamp'', jget r ''created_at'')])
       [(''spec'', JObj [(''targetRef'', JObj [(''kind'', jget r ''target_ref_kind''), (''name'', jget r ''target_ref_name'')]),
           (''updatePolicy'', JObj [(''updateMode'', jget r ''update_mode'')])])]"

section \<open>Network\<close>

definition serviceToRawJson :: "jval \<Rightarrow> jval" where
  "serviceToRawJson r =
     object_of (JStr ''v1'') ''Service''
       (JObj [(''name'', jget r ''name''), (''namespace'', jget r ''namespace''), (''creationTimestamp'', jget r ''created_at'')])
       [(''spec'', JObj [(''type'', jget r ''type''), (''clusterIP'', jget r ''cluster_ip''),
           (''externalIPs'', jnn (jget r ''external_ips'') (JArr [])), (''selector'', obj_or (jget r ''selector'')),
           (''ports'', JArr (map (\<lambda>p. JObj [(''name'', jget p ''name''), (''port'', jget p ''port''), (''targetPort'', jget p ''target_port''),
              (''nodePort'', jget p ''node_port''), (''protocol'', jget p ''protocol'')]) (list_or (jget r ''ports''))))]),
        (''status'', JObj [(''loadBalancer'', JObj [(''ingress'', jnn (jget r ''load_balancer_ingress'') (JArr []))])])]"

definition to_address :: "jval \<Rightarrow> jval" where
  "to_address target = JObj [(''ip'', jget target ''ip''), (''nodeName'', jget target ''node_name''),
     (''targetRef'', or_undef (jget target ''target_ref''))]"

definition addresses_of :: "jval \<Rightarrow> jval \<Rightarrow> jval list" where
  "addresses_of targets ips = (let from_targets = map to_address (list_or targets) in
     if from_targets \<noteq> [] then from_targets else map (\<lambda>ip. JObj [(''ip'', ip)]) (list_or ips))"

definition endpointToRawJson :: "jval \<Rightarrow> jval" where
  "endpointToRawJson r =
     (let addresses = addresses_of (jget r ''ready_targets'') (jget r ''ready_addresses'');
          notReady = addresses_of (jget r ''not_ready_targets'') (jget r ''not_ready_addresses'');
          ports = list_or (jget r ''ports'') in
      object_of (JStr ''v1'') ''Endpoints''
       (JObj [(''name'', jget r ''name''), (''namespace'', jget r ''namespace''), (''creationTimestamp'', jget r ''created_at'')])
       [(''ready_count'', jget r ''ready_count''), (''not_ready_count'', jget r ''not_ready_count''),
        (''ready_addresses'', arr_or (jget r ''ready_addresses'')), (''not_ready_addresses'', arr_or (jget r ''not_ready_addresses'')),
        (''ready_targets'', arr_or (jget r ''ready_targets'')), (''not_ready_targets'', arr_or (jget r ''not_ready_targets'')),
        (''ports'', arr_or (jget r ''ports'')),
        (''subsets'', JArr (if addresses \<noteq> [] \<or> notReady \<noteq> [] \<or> ports \<noteq> [] then
           [JObj [(''addresses'', JArr addresses), (''notReadyAddresses'', JArr notReady),
              (''ports'', JArr (map (\<lambda>p. JObj [(''name'', jget p ''name''), (''port'', jget p ''port''), (''protocol'', jget p ''protocol'')]) ports))]]
           else []))])"

definition not_ready_of :: "jval \<Rightarrow> jval" where
  "not_ready_of r = jnn (jget r ''endpoints_not_ready'')
     (js_max (js_sub (jor (jget r ''endpoints_total'') (JNum 0)) (jor (jget r ''endpoints_ready'') (JNum 0))) (JNum 0))"

definition endpointSliceToRawJson :: "jval \<Rightarrow> jval" where
  "endpointSliceToRawJson r =
     object_of (JStr ''discovery.k8s.io/v1'') ''EndpointSlice''
       (JObj [(''name'', jget r ''name''), (''namespace'', jget r ''namespace''), (''creationTimestamp'', jget r ''created_at''),
          (''labels'', obj_or (jget r ''labels'')), (''annotations'', obj_or (jget r ''annotations''))])
       [(''service_name'', jget r ''service_name''), (''managed_by'', jget r ''managed_by''), (''address_type'', jget r ''address_type''),
        (''endpoints_total'', jget r ''endpoints_total''), (''endpoints_ready'', jget r ''endpoints_ready''),
        (''endpoints_not_ready'', not_ready_of r), (''addressType'', jget r ''address_type''),
        (''endpoints'', JArr (map (\<lambda>ep. JObj [(''addresses'', arr_or (jget ep ''addresses'')), (''hostname'', jget ep ''hostname''),
           (''nodeName'', jget ep ''node_name''), (''zone'', jget ep ''zone''),
           (''conditions'', JObj [(''ready'', jpath ep [''conditions'', ''ready'']), (''serving'', jpath ep [''conditions'', ''serving'']),
              (''terminating'', jpath ep [''conditions'', ''terminating''])]),
           (''targetRef'', or_undef (jget ep ''target_ref'')), (''hints'', or_undef (jget ep ''hints''))]) (list_or (jget r ''endpoints'')))),
        (''ports'', JArr (map (\<lambda>p. JObj [(''name'', jget p ''name''), (''port'', jget p ''port''), (''protocol'', jget p ''protocol''),
           (''appProtocol'', jget p ''app_protocol'')]) (list_or (jget r ''ports''))))]"

definition ingressToRawJson :: "jval \<Rightarrow> jval" where
  "ingressToRawJson r =
     object_of (JStr ''networking.k8s.io/v1'') ''Ingress''
       (JObj [(''name'', jget r ''name''), (''namespace'', jget r ''namespace''), (''labels'', obj_or (jget r ''labels'')),
          (''annotations'', obj_or (jget r ''annotations'')), (''creationTimestamp'', jget r ''created_at'')])
       [(''spec'', JObj [(''ingressClassName'', or_undef (jget r ''class'')), (''defaultBackend'', or_undef (jget r ''default_backend'')),
           (''tls'', JArr (map (\<lambda>t. JObj [(''secretName'', jget t ''secret_name''), (''hosts'', arr_or (jget t ''hosts''))]) (list_or (jget r ''tls'')))),
           (''rules'', JArr (map (\<lambda>rule. JObj [(''host'', or_undef (jget rule ''host'')),
              (''http'', JObj [(''paths'', JArr (map (\<lambda>p. JObj [(''path'', or_undef (jget p ''path'')),
                 (''pathType'', or_undef (jget p ''path_type'')), (''backend'', or_undef (jget p ''backend''))]) (list_or (jget rule ''paths''))))])])
              (list_or (jget r ''rules''))))]),
        (''status'', JObj [(''loadBalancer'', JObj [(''ingress'', JArr (map (\<lambda>a. JObj [(''ip'', jget a ''ip''), (''hostname'', jget a ''hostname'')])
           (list_or (jget r ''addresses''))))])]),
        (''class_source'', jget r ''class_source''), (''class_controller'', jget r ''class_controller''), (''class_is_default'', jget r ''class_is_default'')]"

definition to_selector :: "jval \<Rightarrow> jval" where
  "to_selector s = JObj [(''matchLabels'', obj_or (jget s ''match_labels'')),
     (''matchExpressions'', JArr (map (\<lambda>e. JObj [(''key'', jget e ''key''), (''operator'', jget e ''operator''), (''values'', arr_or (jget e ''values''))])
        (elems (jget s ''match_expressions''))))]"

definition to_peer :: "jval \<Rightarrow> jval" where
  "to_peer peer = JObj
     [(''ipBlock'', if truthy (jget peer ''ip_block'') then JObj [(''cidr'', jpath peer [''ip_block'', ''cidr'']),
         (''except'', arr_or (jpath peer [''ip_block'', ''except'']))] else JUndef),
      (''namespaceSelector'', if truthy (jget peer ''namespace_selector'') then to_selector (jget peer ''namespace_selector'') else JUndef),
      (''podSelector'', if truthy (jget peer ''pod_selector'') then to_selector (jget peer ''pod_selector'') else JUndef)]"

definition to_port :: "jval \<Rightarrow> jval" where
  "to_port p = JObj [(''protocol'', jget p ''protocol''), (''port'', jget p ''port''), (''endPort'', jget p ''end_port'')]"

definition to_rule :: "string \<Rightarrow> jval \<Rightarrow> jval" where
  "to_rule side rule = JObj [(side, JArr (map to_peer (list_or (jget rule side)))), (''ports'', JArr (map to_port (list_or (jget rule ''ports''))))]"

definition networkPolicyToRawJson :: "jval \<Rightarrow> jval" where
  "networkPolicyToRawJson r =
     object_of (JStr ''networking.k8s.io/v1'') ''NetworkPolicy''
       (JObj [(''name'', jget r ''name''), (''namespace'', jget r ''namespace''), (''creationTimestamp'', jget r ''created_at''),
          (''labels'', obj_or (jget r ''labels'')), (''annotations'', obj_or (jget r ''annotations'')), (''finalizers'', arr_or (jget r ''finalizers''))])
       [(''spec'', JObj [(''podSelector'', to_selector (jget r ''pod_selector'')), (''policyTypes'', arr_or (jget r ''policy_types'')),
           (''ingress'', JArr (map (to_rule ''from'') (list_or (jget r ''ingress'')))),
           (''egress'', JArr (map (to_rule ''to'') (list_or (jget r ''egress''))))])]"

definition IS_DEFAULT_CLASS :: string where
  "IS_DEFAULT_CLASS = ''ingressclass.kubernetes.io/is-default-class''"

definition ingressClassToRawJson :: "jval \<Rightarrow> jval" where
  "ingressClassToRawJson r =
     (let annotations0 = spread (obj_or (jget r ''annotations''));
          annotations = (if truthy (jget r ''is_default'') \<and> \<not> truthy (jget (JObj annotations0) IS_DEFAULT_CLASS)
            then AList.update IS_DEFAULT_CLASS (JStr ''true'') annotations0 else annotations0);
          p = jget r ''parameters'' in
      object_of (JStr ''networking.k8s.io/v1'') ''IngressClass''
       (JObj [(''name'', jget r ''name''), (''labels'', obj_or (jget r ''labels'')), (''annotations'', JObj annotations),
          (''finalizers'', arr_or (jget r ''finalizers'')), (''creationTimestamp'', jget r ''created_at'')])
       [(''spec'', JObj [(''controller'', jget r ''controller''),
           (''parameters'', if truthy p then JObj [(''apiGroup'', jget p ''api_group''), (''kind'', jget p ''kind''), (''name'', jget p ''name''),
              (''scope'', jget p ''scope''), (''namespace'', jget p ''namespace'')] else JUndef)]),
        (''is_default'', jget r ''is_default''), (''parameters'', p)])"

section \<open>Storage\<close>

definition pvcToRawJson :: "jval \<Rightarrow> jval" where
  "pvcToRawJson r =
     object_of (JStr ''v1'') ''PersistentVolumeClaim''
       (JObj [(''name'', jget r ''name''), (''namespace'', jget r ''namespace''), (''creationTimestamp'', jget r ''created_at'')])
       [(''spec'', JObj [(''accessModes'', arr_or (jget r ''requested_access_modes'')), (''storageClassName'', jget r ''storage_class''),
           (''volumeName'', jget r ''volume_name''), (''resources'', JObj [(''requests'', JObj [(''storage'', jget r ''requested'')])])]),
        (''status'', JObj [(''phase'', jget r ''status''), (''accessModes'', arr_or (jget r ''access_modes'')),
           (''capacity'', JObj [(''storage'', jget r ''capacity'')])])]"

definition pvToRawJson :: "jval \<Rightarrow> jval" where
  "pvToRawJson r =
     object_of (JStr ''v1'') ''PersistentVolume''
       (JObj [(''name'', jget r ''name''), (''creationTimestamp'', jget r ''created_at'')])
       [(''spec'', JObj [(''capacity'', JObj [(''storage'', jget r ''capacity'')]), (''accessModes'', arr_or (jget r ''access_modes'')),
           (''storageClassName'', jget r ''storage_class''), (''persistentVolumeReclaimPolicy'', jget r ''reclaim_policy''),
           (''volumeMode'', jget r ''volume_mode''),
           (''claimRef'', if truthy (jpath r [''claim_ref'', ''name'']) then JObj [(''namespace'', jpath r [''claim_ref'', ''namespace'']),
              (''name'', jpath r [''claim_ref'', ''name''])] else JUndef),
           (''csi'', if truthy (jget r ''driver'') then JObj [(''driver'', jget r ''driver''), (''volumeHandle'', jget r ''volume_handle'')] else JUndef)]),
        (''status'', JObj [(''phase'', jget r ''status'')])]"

definition storageClassToRawJson :: "jval \<Rightarrow> jval" where
  "storageClassToRawJson r =
     object_of (JStr ''storage.k8s.io/v1'') ''StorageClass''
       (JObj [(''name'', jget r ''name''), (''labels'', obj_or (jget r ''labels'')), (''annotations'', JObj (spread (obj_or (jget r ''annotations'')))),
          (''finalizers'', arr_or (jget r ''finalizers'')), (''creationTimestamp'', jget r ''created_at'')])
       [(''provisioner'', jget r ''provisioner''), (''reclaimPolicy'', or_undef (jget r ''reclaim_policy'')),
        (''volumeBindingMode'', or_undef (jget r ''volume_binding_mode'')), (''allowVolumeExpansion'', jget r ''allow_volume_expansion''),
        (''parameters'', obj_or (jget r ''parameters'')), (''mountOptions'', arr_or (jget r ''mount_options''))]"

definition raw_error :: "jval \<Rightarrow> jval" where
  "raw_error e = (if truthy e then JObj [(''message'', jget e ''message''), (''time'', jget e ''time'')] else JUndef)"

definition volumeAttachmentToRawJson :: "jval \<Rightarrow> jval" where
  "volumeAttachmentToRawJson r =
     object_of (JStr ''storage.k8s.io/v1'') ''VolumeAttachment''
       (JObj [(''name'', jget r ''name''), (''creationTimestamp'', jget r ''created_at'')])
       [(''spec'', JObj [(''attacher'', jget r ''attacher''), (''nodeName'', jget r ''node_name''),
           (''source'', JObj [(''persistentVolumeName'', jget r ''persistent_volume_name'')])]),
        (''status'', JObj [(''attached'', jget r ''attached''), (''attachError'', raw_error (jget r ''attach_error'')),
           (''detachError'', raw_error (jget r ''detach_error''))])]"

section \<open>Gateway API\<close>

definition gateway_meta :: "jval \<Rightarrow> (string \<times> jval) list" where
  "gateway_meta r = [(''labels'', obj_or (jget r ''labels'')), (''annotations'', obj_or (jget r ''annotations'')),
     (''finalizers'', arr_or (jget r ''finalizers'')), (''creationTimestamp'', jget r ''created_at'')]"

definition gatewayClassToRawJson :: "jval \<Rightarrow> jval" where
  "gatewayClassToRawJson r =
     object_of (or_text (jget r ''api_version'') ''gateway.networking.k8s.io/v1'') ''GatewayClass''
       (JObj ((''name'', jget r ''name'') # gateway_meta r))
       [(''spec'', JObj [(''controllerName'', or_undef (jget r ''controller_name'')), (''parametersRef'', or_undef (jget r ''parameters_ref''))]),
        (''status'', JObj [(''conditions'', arr_or (jget r ''conditions''))]), (''accepted'', jget r ''accepted''), (''status_text'', jget r ''status'')]"

definition gatewayToRawJson :: "jval \<Rightarrow> jval" where
  "gatewayToRawJson r =
     object_of (or_text (jget r ''api_version'') ''gateway.networking.k8s.io/v1'') ''Gateway''
       (JObj ((''name'', jget r ''name'') # (''namespace'', jget r ''namespace'') # gateway_meta r))
       [(''spec'', JObj [(''gatewayClassName'', or_undef (jget r ''gateway_class_name'')), (''listeners'', arr_or (jget r ''listeners''))]),
        (''status'', JObj [(''addresses'', arr_or (jget r ''addresses'')), (''listeners'', arr_or (jget r ''status_listeners'')),
           (''conditions'', arr_or (jget r ''conditions''))])]"

text \<open>The two files of the routes hold the same function for two kinds.\<close>

definition route_object :: "string \<Rightarrow> jval \<Rightarrow> jval" where
  "route_object kind r =
     object_of (or_text (jget r ''api_version'') ''gateway.networking.k8s.io/v1'') kind
       (JObj ((''name'', jget r ''name'') # (''namespace'', jget r ''namespace'') # gateway_meta r))
       [(''spec'', JObj [(''hostnames'', arr_or (jget r ''hostnames'')), (''parentRefs'', arr_or (jget r ''parent_refs'')), (''rules'', arr_or (jget r ''rules''))]),
        (''status'', JObj [(''parents'', arr_or (jget r ''parents''))]), (''rule_count'', jor (jget r ''rule_count'') (JNum 0)),
        (''parent_refs_count'', jor (jget r ''parent_refs_count'') (JNum 0)), (''backend_refs_count'', jor (jget r ''backend_refs_count'') (JNum 0)),
        (''status_text'', jget r ''status''), (''accepted'', jget r ''accepted''), (''resolved_refs'', jget r ''resolved_refs''),
        (''conditions'', arr_or (jget r ''conditions''))]"

definition httpRouteToRawJson :: "jval \<Rightarrow> jval" where
  "httpRouteToRawJson r = route_object ''HTTPRoute'' r"

definition grpcRouteToRawJson :: "jval \<Rightarrow> jval" where
  "grpcRouteToRawJson r = route_object ''GRPCRoute'' r"

definition referenceGrantToRawJson :: "jval \<Rightarrow> jval" where
  "referenceGrantToRawJson r =
     object_of (or_text (jget r ''api_version'') ''gateway.networking.k8s.io/v1beta1'') ''ReferenceGrant''
       (JObj [(''name'', jget r ''name''), (''namespace'', jget r ''namespace''), (''labels'', obj_or (jget r ''labels'')),
          (''annotations'', obj_or (jget r ''annotations'')), (''creationTimestamp'', jget r ''created_at'')])
       [(''spec'', JObj [(''from'', arr_or (jget r ''from'')), (''to'', arr_or (jget r ''to''))])]"

section \<open>Cluster\<close>

definition labelled_meta :: "jval \<Rightarrow> jval" where
  "labelled_meta r = JObj [(''name'', jget r ''name''), (''namespace'', jget r ''namespace''), (''labels'', obj_or (jget r ''labels'')),
     (''creationTimestamp'', jget r ''created_at'')]"

definition leaseToRawJson :: "jval \<Rightarrow> jval" where
  "leaseToRawJson r =
     object_of (JStr ''coordination.k8s.io/v1'') ''Lease'' (labelled_meta r)
       [(''spec'', JObj [(''holderIdentity'', jget r ''holder_identity''), (''leaseDurationSeconds'', jget r ''lease_duration_seconds''),
           (''leaseTransitions'', jget r ''lease_transitions''), (''renewTime'', jget r ''renew_time''), (''acquireTime'', jget r ''acquire_time'')])]"

definition limitRangeToRawJson :: "jval \<Rightarrow> jval" where
  "limitRangeToRawJson r =
     object_of (JStr ''v1'') ''LimitRange'' (labelled_meta r)
       [(''spec'', JObj [(''limits'', JArr (map (\<lambda>l. JObj [(''type'', jget l ''type''), (''default'', jget l ''default''),
           (''defaultRequest'', jget l ''default_request''), (''max'', jget l ''max''), (''min'', jget l ''min'')]) (list_or (jget r ''limits''))))])]"

definition resourceQuotaToRawJson :: "jval \<Rightarrow> jval" where
  "resourceQuotaToRawJson r =
     object_of (JStr ''v1'') ''ResourceQuota'' (labelled_meta r)
       [(''status'', JObj [(''hard'', jget r ''status_hard''), (''used'', jget r ''status_used'')])]"

end
