(* ===== verification/Api_Types.thy ===== *)
theory Api_Types
  imports Prelude
begin

text \<open>
  The rows' types (\<^verbatim>\<open>frontend/src/services/api/types.ts\<close>): a TypeScript type as a value, and which JSON values have it.
  An interface is the table of its properties, each with whether it may be absent.
\<close>

datatype ts_type =
    TText
  | TNumber
  | TFlag
  | TAny
  | TList ts_type
  | TMap ts_type
  | TNull ts_type
  | TFields "(string \<times> (bool \<times> ts_type)) list"

text \<open>\<^verbatim>\<open>t | null\<close> is \<open>TNull\<close>; a union of texts is \<open>TText\<close>. \<^verbatim>\<open>k: t\<close> and \<^verbatim>\<open>k?: t\<close>.\<close>

definition req :: "string \<Rightarrow> ts_type \<Rightarrow> string \<times> (bool \<times> ts_type)" where
  "req k t = (k, False, t)"

definition opt :: "string \<Rightarrow> ts_type \<Rightarrow> string \<times> (bool \<times> ts_type)" where
  "opt k t = (k, True, t)"

fun is_flag :: "jval \<Rightarrow> bool" where
  "is_flag (JBool _) = True"
| "is_flag _ = False"

fun is_record :: "jval \<Rightarrow> bool" where
  "is_record (JObj _) = True"
| "is_record _ = False"

primrec has_type :: "ts_type \<Rightarrow> jval \<Rightarrow> bool" where
  "has_type TText v = is_string v"
| "has_type TNumber v = is_number v"
| "has_type TFlag v = is_flag v"
| "has_type TAny v = True"
| "has_type (TList t) v = (is_array v \<and> list_all (has_type t) (elems v))"
| "has_type (TMap t) v = (is_record v \<and> list_all (\<lambda>kx. has_type t (snd kx)) (props v))"
| "has_type (TNull t) v = (v = JNull \<or> has_type t v)"
| "has_type (TFields fs) v = (is_record v \<and>
     list_all (\<lambda>kf. (fst (snd kf) \<and> jget v (fst kf) = JUndef) \<or> snd (snd kf) (jget v (fst kf))) (map (map_prod id (map_prod id has_type)) fs))"

section \<open>Workloads\<close>

definition DeploymentInfo :: ts_type where
  "DeploymentInfo = TFields [req ''name'' TText, req ''namespace'' TText, req ''replicas'' TNumber, req ''ready_replicas'' TNumber,
        req ''available_replicas'' TNumber, req ''updated_replicas'' TNumber, opt ''unavailable_replicas'' TNumber,
        req ''image'' TText, opt ''images'' (TList TText), req ''labels'' (TMap TText), req ''selector'' (TMap TText),
        req ''created_at'' TText, req ''status'' TText, opt ''progressing_reason'' TText]"

definition DaemonSetInfo :: ts_type where
  "DaemonSetInfo = TFields [req ''name'' TText, req ''namespace'' TText, req ''desired'' TNumber, req ''current'' TNumber, req ''ready'' TNumber,
        req ''updated'' TNumber, req ''available'' TNumber, req ''misscheduled'' TNumber, req ''unavailable'' TNumber,
        opt ''node_selector'' (TMap TText), opt ''images'' (TList TText), req ''status'' TText, opt ''created_at'' (TNull TText)]"

definition ReplicaSetInfo :: ts_type where
  "ReplicaSetInfo = TFields [req ''name'' TText, req ''namespace'' TText, req ''current_replicas'' TNumber, req ''replicas'' TNumber,
        req ''ready_replicas'' TNumber, req ''available_replicas'' TNumber, req ''image'' TText, opt ''images'' (TList TText),
        opt ''containers'' (TList TText), opt ''owner_deployment'' TText,
        opt ''owner_references'' (TList (TFields [opt ''kind'' (TNull TText), opt ''name'' (TNull TText), opt ''uid'' (TNull TText), opt ''controller'' (TNull TFlag)])),
        req ''labels'' (TMap TText), req ''selector'' (TMap TText), req ''created_at'' TText, req ''status'' TText]"

definition JobInfo :: ts_type where
  "JobInfo = TFields [req ''name'' TText, req ''namespace'' TText, opt ''completions'' (TNull TNumber), opt ''completions_text'' (TNull TText),
        opt ''parallelism'' (TNull TNumber), req ''active'' TNumber, req ''succeeded'' TNumber, req ''failed'' TNumber,
        req ''status'' TText, opt ''containers'' (TList TText), opt ''images'' (TList TText), opt ''start_time'' (TNull TText),
        opt ''completion_time'' (TNull TText), opt ''duration'' (TNull TText), opt ''duration_seconds'' (TNull TNumber),
        opt ''created_at'' (TNull TText),
        opt ''owner_references'' (TList (TFields [opt ''kind'' (TNull TText), opt ''name'' (TNull TText), opt ''uid'' (TNull TText), opt ''controller'' (TNull TFlag)]))]"

definition CronJobInfo :: ts_type where
  "CronJobInfo = TFields [req ''name'' TText, req ''namespace'' TText, req ''schedule'' TText, req ''suspend'' TFlag,
        opt ''concurrency_policy'' (TNull TText), req ''active'' TNumber, opt ''last_schedule_time'' (TNull TText),
        opt ''last_successful_time'' (TNull TText), opt ''time_zone'' (TNull TText), opt ''containers'' (TList TText),
        opt ''images'' (TList TText), opt ''created_at'' (TNull TText)]"

definition PDBInfo :: ts_type where
  "PDBInfo = TFields [req ''name'' TText, req ''namespace'' TText, opt ''min_available'' (TNull TText), opt ''max_unavailable'' (TNull TText),
        req ''current_healthy'' TNumber, req ''desired_healthy'' TNumber, req ''disruptions_allowed'' TNumber,
        req ''expected_pods'' TNumber, req ''selector'' (TMap TText), opt ''labels'' (TNull (TMap TText)), req ''created_at'' TText]"

definition HPAInfo :: ts_type where
  "HPAInfo = TFields [req ''name'' TText, req ''namespace'' TText, req ''target_ref'' TText, opt ''target_ref_kind'' TText,
        opt ''target_ref_name'' TText, opt ''labels'' (TNull (TMap TText)), opt ''min_replicas'' (TNull TNumber),
        req ''max_replicas'' TNumber, opt ''current_replicas'' (TNull TNumber), opt ''desired_replicas'' (TNull TNumber),
        opt ''scaling_active'' TFlag, req ''metrics'' (TList (TMap TAny)), req ''conditions'' (TList (TMap TAny)),
        opt ''last_scale_time'' (TNull TText), req ''created_at'' TText]"

definition VPAInfo :: ts_type where
  "VPAInfo = TFields [req ''name'' TText, req ''namespace'' TText, req ''target_ref'' TText, req ''target_ref_kind'' TText,
        req ''target_ref_name'' TText, req ''update_mode'' TText, opt ''container_policies'' (TList (TMap TAny)),
        opt ''conditions'' (TList (TMap TAny)), opt ''recommendations'' (TList (TMap TAny)), req ''cpu_target'' TText,
        req ''memory_target'' TText, req ''provided'' TText, opt ''labels'' (TMap TText), req ''created_at'' TText,
        opt ''min_replicas'' (TNull TNumber), opt ''evict_after_oom_seconds'' (TNull TNumber),
        opt ''startup_boost'' (TNull (TMap (TMap TAny)))]"

section \<open>Network\<close>

definition ServiceInfo :: ts_type where
  "ServiceInfo = TFields [req ''name'' TText, req ''namespace'' TText, req ''type'' TText, opt ''cluster_ip'' TText, opt ''external_ip'' TText,
        opt ''external_ips'' (TList TText),
        opt ''load_balancer_ingress'' (TList (TFields [opt ''ip'' (TNull TText), opt ''hostname'' (TNull TText)])),
        req ''ports'' (TList (TFields [opt ''name'' TText, req ''port'' TNumber, req ''target_port'' TText, opt ''node_port'' (TNull TNumber),
            req ''protocol'' TText])), req ''selector'' (TMap TText), req ''created_at'' TText]"

definition EndpointInfo :: ts_type where
  "EndpointInfo = TFields [req ''name'' TText, req ''namespace'' TText, req ''ready_count'' TNumber, req ''not_ready_count'' TNumber,
        req ''ready_addresses'' (TList TText), req ''not_ready_addresses'' (TList TText),
        opt ''ready_targets'' (TList (TFields [opt ''ip'' (TNull TText), opt ''node_name'' (TNull TText),
            opt ''target_ref'' (TNull (TFields [opt ''kind'' (TNull TText), opt ''name'' (TNull TText), opt ''namespace'' (TNull TText), opt ''uid'' (TNull TText)]))])),
        opt ''not_ready_targets'' (TList (TFields [opt ''ip'' (TNull TText), opt ''node_name'' (TNull TText),
            opt ''target_ref'' (TNull (TFields [opt ''kind'' (TNull TText), opt ''name'' (TNull TText), opt ''namespace'' (TNull TText), opt ''uid'' (TNull TText)]))])),
        req ''ports'' (TList (TFields [opt ''name'' (TNull TText), opt ''port'' (TNull TNumber), opt ''protocol'' (TNull TText)])),
        opt ''created_at'' (TNull TText)]"

definition EndpointSliceInfo :: ts_type where
  "EndpointSliceInfo = TFields [req ''name'' TText, req ''namespace'' TText, opt ''service_name'' (TNull TText), opt ''managed_by'' (TNull TText),
        opt ''address_type'' (TNull TText), req ''endpoints_total'' TNumber, req ''endpoints_ready'' TNumber,
        opt ''endpoints_not_ready'' TNumber,
        req ''ports'' (TList (TFields [opt ''name'' (TNull TText), opt ''port'' (TNull TNumber), opt ''protocol'' (TNull TText),
            opt ''app_protocol'' (TNull TText)])),
        opt ''endpoints'' (TList (TFields [req ''addresses'' (TList TText), opt ''hostname'' (TNull TText), opt ''node_name'' (TNull TText),
            opt ''zone'' (TNull TText),
            opt ''conditions'' (TFields [opt ''ready'' (TNull TFlag), opt ''serving'' (TNull TFlag), opt ''terminating'' (TNull TFlag)]),
            opt ''hints'' (TNull (TFields [opt ''for_zones'' (TList TText), opt ''for_nodes'' (TList TText)])),
            opt ''target_ref'' (TNull (TFields [opt ''kind'' (TNull TText), opt ''name'' (TNull TText), opt ''namespace'' (TNull TText), opt ''uid'' (TNull TText)]))])),
        opt ''labels'' (TMap TText), opt ''annotations'' (TMap TText), opt ''created_at'' (TNull TText)]"

definition IngressInfo :: ts_type where
  "IngressInfo = TFields [req ''name'' TText, req ''namespace'' TText, req ''hosts'' (TList TText), opt ''class'' (TNull TText),
        opt ''class_source'' (TNull TText), opt ''class_controller'' (TNull TText), opt ''class_is_default'' (TNull TFlag),
        opt ''addresses'' (TList (TFields [opt ''ip'' (TNull TText), opt ''hostname'' (TNull TText)])),
        opt ''tls'' (TList (TFields [opt ''secret_name'' (TNull TText), req ''hosts'' (TList TText)])),
        opt ''default_backend'' TAny,
        opt ''rules'' (TList (TFields [opt ''host'' (TNull TText),
            req ''paths'' (TList (TFields [opt ''path'' (TNull TText), opt ''path_type'' (TNull TText), opt ''backend'' TAny]))])),
        req ''backends'' (TList TText), opt ''labels'' (TMap TText), opt ''annotations'' (TMap TText),
        opt ''created_at'' (TNull TText)]"

definition NetworkPolicyInfo :: ts_type where
  "NetworkPolicyInfo = TFields [req ''name'' TText, req ''namespace'' TText,
        req ''pod_selector'' (TFields [req ''match_labels'' (TMap TText),
            req ''match_expressions'' (TList (TFields [opt ''key'' (TNull TText), opt ''operator'' (TNull TText), opt ''values'' (TNull (TList TText))]))]),
        opt ''selects_all_pods'' TFlag, req ''policy_types'' (TList TText), opt ''default_deny_ingress'' TFlag,
        opt ''default_deny_egress'' TFlag, req ''ingress_rules'' TNumber, req ''egress_rules'' TNumber,
        opt ''ingress'' (TList (TFields [req ''from'' (TList (TFields [opt ''ip_block'' (TNull (TFields [opt ''cidr'' (TNull TText), opt ''except'' (TList TText)])),
                opt ''namespace_selector'' (TNull (TFields [req ''match_labels'' (TMap TText),
                    req ''match_expressions'' (TList (TFields [opt ''key'' (TNull TText), opt ''operator'' (TNull TText), opt ''values'' (TNull (TList TText))]))])),
                opt ''pod_selector'' (TNull (TFields [req ''match_labels'' (TMap TText),
                    req ''match_expressions'' (TList (TFields [opt ''key'' (TNull TText), opt ''operator'' (TNull TText), opt ''values'' (TNull (TList TText))]))]))])),
            req ''ports'' (TList (TFields [opt ''protocol'' (TNull TText), opt ''port'' (TNull TText), opt ''end_port'' (TNull TNumber)]))])),
        opt ''egress'' (TList (TFields [req ''to'' (TList (TFields [opt ''ip_block'' (TNull (TFields [opt ''cidr'' (TNull TText), opt ''except'' (TList TText)])),
                opt ''namespace_selector'' (TNull (TFields [req ''match_labels'' (TMap TText),
                    req ''match_expressions'' (TList (TFields [opt ''key'' (TNull TText), opt ''operator'' (TNull TText), opt ''values'' (TNull (TList TText))]))])),
                opt ''pod_selector'' (TNull (TFields [req ''match_labels'' (TMap TText),
                    req ''match_expressions'' (TList (TFields [opt ''key'' (TNull TText), opt ''operator'' (TNull TText), opt ''values'' (TNull (TList TText))]))]))])),
            req ''ports'' (TList (TFields [opt ''protocol'' (TNull TText), opt ''port'' (TNull TText), opt ''end_port'' (TNull TNumber)]))])),
        opt ''labels'' (TMap TText), opt ''annotations'' (TMap TText), opt ''finalizers'' (TList TText),
        opt ''created_at'' (TNull TText)]"

definition IngressClassInfo :: ts_type where
  "IngressClassInfo = TFields [req ''name'' TText, opt ''controller'' (TNull TText), req ''is_default'' TFlag,
        opt ''parameters'' (TNull (TFields [opt ''api_group'' (TNull TText), opt ''kind'' (TNull TText), opt ''name'' (TNull TText), opt ''scope'' (TNull TText),
            opt ''namespace'' (TNull TText)])), opt ''labels'' (TMap TText), opt ''annotations'' (TMap TText),
        opt ''finalizers'' (TList TText), opt ''created_at'' (TNull TText)]"

section \<open>Storage\<close>

definition PVCUsage :: ts_type where
  "PVCUsage = TFields [req ''used_bytes'' TNumber, req ''capacity_bytes'' TNumber, req ''percent'' TNumber, opt ''fills_in_days'' TNumber,
        req ''source'' TText]"

definition PVCInfo :: ts_type where
  "PVCInfo = TFields [req ''name'' TText, req ''namespace'' TText, req ''status'' TText, opt ''volume_name'' TText, opt ''storage_class'' TText,
        opt ''capacity'' TText, opt ''requested'' TText, req ''access_modes'' (TList TText),
        opt ''requested_access_modes'' (TList TText), req ''created_at'' TText, opt ''usage'' (TNull PVCUsage)]"

definition PVInfo :: ts_type where
  "PVInfo = TFields [req ''name'' TText, req ''status'' TText, req ''capacity'' TText, req ''access_modes'' (TList TText),
        opt ''storage_class'' TText, req ''reclaim_policy'' TText,
        opt ''claim_ref'' (TFields [opt ''namespace'' TText, opt ''name'' TText]), opt ''volume_mode'' (TNull TText),
        opt ''source'' (TNull TText), opt ''driver'' (TNull TText), opt ''volume_handle'' (TNull TText),
        opt ''node_affinity'' (TNull TText), req ''created_at'' TText]"

definition StorageClassInfo :: ts_type where
  "StorageClassInfo = TFields [req ''name'' TText, req ''provisioner'' TText, opt ''reclaim_policy'' (TNull TText),
        opt ''volume_binding_mode'' (TNull TText), opt ''allow_volume_expansion'' (TNull TFlag), req ''is_default'' TFlag,
        req ''parameters'' (TMap TAny), opt ''mount_options'' (TNull (TList TText)),
        opt ''allowed_topologies'' (TNull (TList TText)), opt ''labels'' (TMap TText), opt ''annotations'' (TMap TText),
        opt ''finalizers'' (TList TText), opt ''created_at'' (TNull TText)]"

definition VolumeAttachmentInfo :: ts_type where
  "VolumeAttachmentInfo = TFields [req ''name'' TText, opt ''attacher'' (TNull TText), opt ''node_name'' (TNull TText),
        opt ''persistent_volume_name'' (TNull TText), opt ''attached'' (TNull TFlag),
        opt ''attach_error'' (TNull (TFields [opt ''time'' (TNull TText), opt ''message'' (TNull TText)])),
        opt ''detach_error'' (TNull (TFields [opt ''time'' (TNull TText), opt ''message'' (TNull TText)])),
        opt ''created_at'' (TNull TText)]"

section \<open>Gateway API\<close>

definition GatewayClassInfo :: ts_type where
  "GatewayClassInfo = TFields [req ''name'' TText, opt ''controller_name'' (TNull TText), opt ''description'' (TNull TText), opt ''accepted'' TFlag,
        opt ''status'' (TNull TText), opt ''parameters_ref'' (TNull (TMap TAny)), opt ''conditions'' (TList (TMap TAny)),
        opt ''labels'' (TMap TText), opt ''annotations'' (TMap TText), opt ''finalizers'' (TList TText),
        opt ''created_at'' (TNull TText), opt ''api_version'' (TNull TText)]"

definition GatewayInfo :: ts_type where
  "GatewayInfo = TFields [req ''name'' TText, req ''namespace'' TText, opt ''gateway_class_name'' (TNull TText), req ''listeners_count'' TNumber,
        req ''attached_routes'' TNumber, req ''addresses_count'' TNumber, opt ''status'' (TNull TText), opt ''programmed'' TFlag,
        opt ''accepted'' TFlag, opt ''listeners'' (TList (TMap TAny)), opt ''status_listeners'' (TList (TMap TAny)),
        opt ''addresses'' (TList (TMap TAny)), opt ''conditions'' (TList (TMap TAny)), opt ''labels'' (TMap TText),
        opt ''annotations'' (TMap TText), opt ''finalizers'' (TList TText), opt ''created_at'' (TNull TText),
        opt ''api_version'' (TNull TText)]"

definition HTTPRouteInfo :: ts_type where
  "HTTPRouteInfo = TFields [req ''name'' TText, req ''namespace'' TText, opt ''hostnames'' (TList TText), opt ''parent_refs'' (TList (TMap TAny)),
        opt ''rules'' (TList (TMap TAny)), opt ''parents'' (TList (TMap TAny)), opt ''rule_count'' TNumber,
        opt ''parent_refs_count'' TNumber, opt ''backend_refs_count'' TNumber, opt ''status'' (TNull TText),
        opt ''accepted'' TFlag, opt ''resolved_refs'' TFlag, opt ''conditions'' (TList (TMap TAny)), opt ''labels'' (TMap TText),
        opt ''annotations'' (TMap TText), opt ''finalizers'' (TList TText), opt ''created_at'' (TNull TText),
        opt ''api_version'' (TNull TText)]"

definition GRPCRouteInfo :: ts_type where
  "GRPCRouteInfo = TFields [req ''name'' TText, req ''namespace'' TText, opt ''hostnames'' (TList TText), opt ''parent_refs'' (TList (TMap TAny)),
        opt ''rules'' (TList (TMap TAny)), opt ''parents'' (TList (TMap TAny)), opt ''rule_count'' TNumber,
        opt ''parent_refs_count'' TNumber, opt ''backend_refs_count'' TNumber, opt ''status'' (TNull TText),
        opt ''accepted'' TFlag, opt ''resolved_refs'' TFlag, opt ''conditions'' (TList (TMap TAny)), opt ''labels'' (TMap TText),
        opt ''annotations'' (TMap TText), opt ''finalizers'' (TList TText), opt ''created_at'' (TNull TText),
        opt ''api_version'' (TNull TText)]"

definition ReferenceGrantInfo :: ts_type where
  "ReferenceGrantInfo = TFields [req ''name'' TText, req ''namespace'' TText, opt ''from'' (TList (TMap TAny)), opt ''to'' (TList (TMap TAny)),
        opt ''labels'' (TMap TText), opt ''annotations'' (TMap TText), opt ''finalizers'' (TList TText),
        opt ''created_at'' (TNull TText), opt ''api_version'' (TNull TText)]"

section \<open>Cluster\<close>

definition LeaseInfo :: ts_type where
  "LeaseInfo = TFields [req ''name'' TText, req ''namespace'' TText, opt ''holder_identity'' TText, opt ''lease_duration_seconds'' TNumber,
        opt ''lease_transitions'' TNumber, opt ''renew_time'' TText, opt ''acquire_time'' TText, opt ''labels'' (TMap TText),
        req ''created_at'' TText]"

definition LimitRangeInfo :: ts_type where
  "LimitRangeInfo = TFields [req ''name'' TText, req ''namespace'' TText,
        req ''limits'' (TList (TFields [opt ''type'' TText, opt ''default'' (TMap TText), opt ''default_request'' (TMap TText), opt ''max'' (TMap TText),
            opt ''min'' (TMap TText)])), opt ''labels'' (TMap TText), req ''created_at'' TText]"

definition ResourceQuotaInfo :: ts_type where
  "ResourceQuotaInfo = TFields [req ''name'' TText, req ''namespace'' TText, req ''status_hard'' (TMap TText), req ''status_used'' (TMap TText),
        opt ''labels'' (TMap TText), req ''created_at'' TText]"

section \<open>What a type says of a value\<close>

fun core :: "ts_type \<Rightarrow> ts_type" where
  "core (TNull t) = core t"
| "core t = t"

fun field_type :: "ts_type \<Rightarrow> string \<Rightarrow> (bool \<times> ts_type) option" where
  "field_type (TFields fs) k = map_of fs k"
| "field_type _ k = None"

fun is_text_type :: "ts_type \<Rightarrow> bool" where
  "is_text_type TText = True"
| "is_text_type _ = False"

fun is_list_type :: "ts_type \<Rightarrow> bool" where
  "is_list_type (TList _) = True"
| "is_list_type _ = False"

fun is_map_type :: "ts_type \<Rightarrow> bool" where
  "is_map_type (TMap _) = True"
| "is_map_type _ = False"

text \<open>A property declared as one of these, absent or null perhaps.\<close>

definition declared :: "(ts_type \<Rightarrow> bool) \<Rightarrow> ts_type \<Rightarrow> string \<Rightarrow> bool" where
  "declared P T k = (case field_type T k of Some (_, t) \<Rightarrow> P (core t) | None \<Rightarrow> False)"

definition required :: "(ts_type \<Rightarrow> bool) \<Rightarrow> ts_type \<Rightarrow> string \<Rightarrow> bool" where
  "required P T k = (case field_type T k of Some (absent, t) \<Rightarrow> \<not> absent \<and> P t | None \<Rightarrow> False)"

definition or_null :: "(jval \<Rightarrow> bool) \<Rightarrow> jval \<Rightarrow> bool" where
  "or_null P v \<longleftrightarrow> nullish v \<or> P v"

lemma core_typed: "has_type t v \<Longrightarrow> nullish v \<or> has_type (core t) v"
  by (induction t) auto

lemma field_typed:
  assumes "has_type T r" "field_type T k = Some (absent, t)"
  shows "(absent \<and> jget r k = JUndef) \<or> has_type t (jget r k)"
proof -
  from assms(2) obtain fs where T: "T = TFields fs" and "map_of fs k = Some (absent, t)" by (cases T) auto
  then have "(k, (absent, t)) \<in> set fs" by (simp add: map_of_SomeD)
  with assms(1) show ?thesis by (force simp: T list_all_iff)
qed

lemma declared_typed:
  assumes "has_type T r" "declared P T k"
  obtains t where "P t" "nullish (jget r k) \<or> has_type t (jget r k)"
proof -
  from assms(2) obtain a t where f: "field_type T k = Some (a, t)" "P (core t)" by (auto simp: declared_def split: option.splits)
  from field_typed [OF assms(1) f(1)] core_typed [of t "jget r k"] f(2) that show ?thesis by auto
qed

lemma required_typed:
  assumes "has_type T r" "required P T k"
  obtains t where "P t" "has_type t (jget r k)"
  using assms field_typed [OF assms(1)] by (auto simp: required_def split: option.splits)

lemma text_field: "has_type T r \<Longrightarrow> declared is_text_type T k \<Longrightarrow> or_null is_string (jget r k)"
  by (erule (1) declared_typed) (auto simp: or_null_def elim: is_text_type.elims)

lemma list_field: "has_type T r \<Longrightarrow> declared is_list_type T k \<Longrightarrow> or_null is_array (jget r k)"
  by (erule (1) declared_typed) (auto simp: or_null_def elim: is_list_type.elims)

lemma map_field: "has_type T r \<Longrightarrow> declared is_map_type T k \<Longrightarrow> or_null is_record (jget r k)"
  by (erule (1) declared_typed) (auto simp: or_null_def elim: is_map_type.elims)

lemma the_text_field: "has_type T r \<Longrightarrow> required is_text_type T k \<Longrightarrow> is_string (jget r k)"
  by (erule (1) required_typed) (auto elim: is_text_type.elims)

lemma the_map_field: "has_type T r \<Longrightarrow> required is_map_type T k \<Longrightarrow> is_record (jget r k)"
  by (erule (1) required_typed) (auto elim: is_map_type.elims)

lemma the_number_field: "has_type T r \<Longrightarrow> required (\<lambda>t. t = TNumber) T k \<Longrightarrow> is_number (jget r k)"
  by (erule (1) required_typed) auto

lemma the_flag_field: "has_type T r \<Longrightarrow> required (\<lambda>t. t = TFlag) T k \<Longrightarrow> is_flag (jget r k)"
  by (erule (1) required_typed) auto

lemma flag_field: "has_type T r \<Longrightarrow> declared (\<lambda>t. t = TFlag) T k \<Longrightarrow> or_null is_flag (jget r k)"
  by (erule (1) declared_typed) (auto simp: or_null_def)

end
