(* ===== verification/Row_Reads.thy ===== *)
theory Row_Reads
  imports Row_Objects Api_Types
begin

text \<open>
  The objects of \<open>Row_Objects\<close> against the normalizers of the lists: the object written back from a row, read as the lists
  read objects, is the row again in the properties the object has a place for. Rows have the types of \<open>Api_Types\<close>.
\<close>

section \<open>Reading back\<close>

text \<open>Values that show the same: they are equal, or both show nothing.\<close>

definition blank :: "jval \<Rightarrow> bool" where
  "blank v \<longleftrightarrow> nullish v \<or> v \<in> {JStr [], JArr [], JObj []}"

definition same :: "jval \<Rightarrow> jval \<Rightarrow> bool" where
  "same a b \<longleftrightarrow> a = b \<or> (blank a \<and> blank b)"

definition reads_back :: "jval \<Rightarrow> jval \<Rightarrow> string list \<Rightarrow> bool" where
  "reads_back row r ks \<longleftrightarrow> list_all (\<lambda>k. same (jget row k) (jget r k)) ks"

text \<open>A row made property by property.\<close>

definition keeps :: "(string \<times> jval) list \<Rightarrow> jval \<Rightarrow> string list \<Rightarrow> bool" where
  "keeps kvs r ks \<longleftrightarrow> list_all (\<lambda>(k, v). k \<in> set ks \<longrightarrow> same v (jget r k)) kvs \<and> list_all (\<lambda>k. k \<in> set (map fst kvs)) ks"

lemma reads_backI: "row = JObj kvs \<Longrightarrow> keeps kvs r ks \<Longrightarrow> reads_back row r ks"
  by (auto simp: keeps_def reads_back_def list_all_iff dest: map_of_SomeD split: option.split) (auto simp: map_of_eq_None_iff)

definition some_reads_back :: "jval option \<Rightarrow> jval \<Rightarrow> string list \<Rightarrow> bool" where
  "some_reads_back x r ks \<longleftrightarrow> (case x of Some row \<Rightarrow> reads_back row r ks | None \<Rightarrow> False)"

lemma some_reads_backI: "x = Some (JObj kvs) \<Longrightarrow> keeps kvs r ks \<Longrightarrow> some_reads_back x r ks"
  by (simp add: some_reads_back_def reads_backI)

lemma jget_Cons: "jget (JObj ((k', v) # kvs)) k = (if k' = k then v else jget (JObj kvs) k)" "jget (JObj []) k = JUndef"
  by simp_all

lemma jget_guarded:
  "jget (JObj ((if b then [(k', v)] else []) @ kvs)) k = (if b \<and> k' = k then v else jget (JObj kvs) k)"
  "jget (JObj (if b then [(k', v)] else [])) k = (if b \<and> k' = k then v else JUndef)"
  by simp_all

section \<open>Values read back\<close>

named_theorems same_simps \<open>values a normalizer reads from what a writer wrote\<close>

lemma blank_simps [simp]: "blank JUndef" "blank JNull" "blank (JStr [])" "blank (JArr [])" "blank (JObj [])"
  by (simp_all add: blank_def)

lemma nullish_blank: "nullish v \<Longrightarrow> blank v"
  by (simp add: blank_def)

lemma same_refl [simp]: "same v v"
  by (simp add: same_def)

lemma same_nn [same_simps]: "blank d \<Longrightarrow> same (jnn v d) v" "jnn v v = v"
  by (auto simp: same_def blank_def jnn_def)

lemma jnns_cons [same_simps]: "jnns [v] = v" "jnns (v # w # vs) = jnn v (jnns (w # vs))"
  by (simp_all add: jnn_def)

lemma or_values: "obj_or v = (if truthy v then v else JObj [])" "arr_or v = (if truthy v then v else JArr [])"
  "or_undef v = (if truthy v then v else JUndef)"
  by (simp_all add: obj_or_def arr_or_def or_undef_def empty_obj_def jor_def)

lemma or_never_nullish [same_simps]: "jnn (obj_or v) d = obj_or v" "jnn (arr_or v) d = arr_or v" "jor (obj_or v) d = obj_or v" "jor (arr_or v) d = arr_or v"
  by (cases v; simp add: or_values jor_def)+

text \<open>A typed property's value.\<close>

lemma jnn_typed [same_simps]: "is_number v \<Longrightarrow> jnn v d = v" "is_string v \<Longrightarrow> jnn v d = v" "is_record v \<Longrightarrow> jnn v d = v" "is_flag v \<Longrightarrow> jnn v d = v"
  by (cases v; simp)+

lemma jor_record [same_simps]: "is_record v \<Longrightarrow> jor v d = v"
  by (cases v) (simp_all add: jor_def)

lemma same_text [same_simps]:
  "or_null is_string v \<Longrightarrow> same (text_or_null v) v"
  "or_null is_string v \<Longrightarrow> same (jnn (or_undef v) JNull) v"
  "is_string v \<Longrightarrow> JStr (jstr v) = v"
  "or_null is_string v \<Longrightarrow> same (if \<not> nullish v then JStr (jstr v) else JNull) v"
  by (cases v; simp add: or_null_def or_values text_or_null_def same_def)+

lemma same_map [same_simps]:
  "or_null is_record v \<Longrightarrow> same (obj_or v) v"
  "or_null is_record v \<Longrightarrow> same (jnn (or_undef v) JNull) v"
  "or_null is_record v \<Longrightarrow> same (JObj (spread (obj_or v))) v"
  by (cases v; simp add: or_null_def or_values same_def)+

lemma same_list [same_simps]:
  "or_null is_array v \<Longrightarrow> same (arr_or v) v"
  "or_null is_array v \<Longrightarrow> same (array_or_empty (arr_or v)) v"
  "or_null is_array v \<Longrightarrow> same (JArr (elems (arr_or v))) v"
  "or_null is_array v \<Longrightarrow> same (JArr (elems (jnn v (JArr [])))) v"
  "or_null is_array v \<Longrightarrow> same (if is_array (arr_or v) then arr_or v else d) v"
  "or_null is_array v \<Longrightarrow> same (JArr (if is_array (arr_or v) then elems (arr_or v) else xs)) v"
  by (cases v; simp add: or_null_def or_values array_or_empty_def same_def)+

lemma same_image [same_simps]:
  "is_string v \<Longrightarrow> same (jnn (case map (\<lambda>c. jget c ''image'') (if truthy v then [JObj [(''name'', n), (''image'', v)]] else []) of [] \<Rightarrow> JUndef | x # _ \<Rightarrow> x)
     (JStr [])) v"
  by (cases v) (simp_all add: same_def)

lemma record_values [same_simps]:
  "or_null is_record v \<Longrightarrow> truthy (obj_or v)" "is_record v \<Longrightarrow> truthy v" "is_record v \<Longrightarrow> spread v = [] \<Longrightarrow> same (JObj []) v"
  by (cases v; simp add: or_null_def or_values same_def)+

lemma absent_values [same_simps]: "text_or_null JUndef = JNull" "jget JUndef k = JUndef" "nullish v \<Longrightarrow> blank d \<Longrightarrow> same d v"
  by (simp_all add: text_or_null_def same_def nullish_blank)

lemma same_flag [same_simps]: "is_flag v \<Longrightarrow> bool_of v = v" "or_null is_flag v \<Longrightarrow> same (bool_or_null v) v"
  by (cases v; simp add: or_null_def bool_of_def same_def)+

lemmas typed_field = text_field list_field map_field the_text_field the_map_field the_number_field the_flag_field flag_field

lemmas field_evals = keeps_def declared_def required_def req_def opt_def

lemmas reading = object_of_def Let_def row_evals split_beta jget_Cons jget_guarded

declare jnns.simps [simp del] jget.simps [simp del]

section \<open>Workloads\<close>

lemma deployment_reads_back:
  assumes r: "has_type DeploymentInfo r"
  shows "reads_back (normalizeWatchDeploymentObject (deploymentToWorkloadRawJson r)) r
       [''name'', ''namespace'', ''replicas'', ''ready_replicas'', ''available_replicas'', ''updated_replicas'', ''image'', ''labels'',
        ''selector'', ''created_at'']"
  by (rule reads_backI, simp add: normalizeWatchDeploymentObject_def deploymentToWorkloadRawJson_def reading same_simps split del: if_split cong: if_cong)
    (simp add: same_simps typed_field [OF r] field_evals jget_Cons DeploymentInfo_def)

lemma daemonSet_reads_back:
  assumes r: "has_type DaemonSetInfo r"
  shows "reads_back (normalizeWatchDaemonSetObject (daemonSetToWorkloadRawJson r)) r
       [''name'', ''namespace'', ''desired'', ''current'', ''ready'', ''updated'', ''available'', ''misscheduled'', ''unavailable'',
        ''node_selector'', ''created_at'']"
  by (rule reads_backI, simp add: normalizeWatchDaemonSetObject_def daemonSetToWorkloadRawJson_def reading same_simps split del: if_split cong: if_cong)
    (simp add: same_simps typed_field [OF r] field_evals jget_Cons DaemonSetInfo_def)

lemma replicaSet_reads_back:
  assumes r: "has_type ReplicaSetInfo r"
  shows "reads_back (normalizeWatchReplicaSetObject (replicaSetToWorkloadRawJson r)) r
       [''name'', ''namespace'', ''current_replicas'', ''replicas'', ''ready_replicas'', ''available_replicas'', ''labels'', ''selector'',
        ''created_at'']"
  by (rule reads_backI, simp add: normalizeWatchReplicaSetObject_def replicaSetToWorkloadRawJson_def reading same_simps split del: if_split cong: if_cong)
    (simp add: same_simps typed_field [OF r] field_evals jget_Cons ReplicaSetInfo_def)

lemma job_reads_back:
  assumes r: "has_type JobInfo r"
  shows "reads_back (normalizeWatchJobObject time_of (jobToWorkloadRawJson r)) r
       [''name'', ''namespace'', ''parallelism'', ''active'', ''succeeded'', ''failed'', ''created_at'']"
  by (rule reads_backI, simp add: normalizeWatchJobObject_def jobToWorkloadRawJson_def reading same_simps split del: if_split cong: if_cong)
    (simp add: same_simps typed_field [OF r] field_evals jget_Cons JobInfo_def)

lemma cronJob_reads_back:
  assumes r: "has_type CronJobInfo r"
  shows "reads_back (normalizeWatchCronJobObject (cronJobToWorkloadRawJson r)) r
       [''name'', ''namespace'', ''schedule'', ''suspend'', ''concurrency_policy'', ''last_schedule_time'', ''last_successful_time'',
        ''created_at'']"
  by (rule reads_backI, simp add: normalizeWatchCronJobObject_def cronJobToWorkloadRawJson_def reading same_simps split del: if_split cong: if_cong)
    (simp add: same_simps typed_field [OF r] field_evals jget_Cons CronJobInfo_def)

lemma pdb_reads_back:
  assumes r: "has_type PDBInfo r"
  shows "reads_back (normalizeWatchPDBObject (pdbToRawJson r)) r
       [''name'', ''namespace'', ''min_available'', ''max_unavailable'', ''current_healthy'', ''desired_healthy'',
        ''disruptions_allowed'', ''expected_pods'', ''selector'', ''created_at'']"
  by (rule reads_backI, simp add: normalizeWatchPDBObject_def pdbToRawJson_def reading same_simps split del: if_split cong: if_cong)
    (simp add: same_simps typed_field [OF r] field_evals jget_Cons PDBInfo_def)

lemma hpa_reads_back:
  assumes r: "has_type HPAInfo r"
  shows "some_reads_back (normalizeWatchHPAObject (hpaToRawJson r)) r
       [''name'', ''namespace'', ''min_replicas'', ''max_replicas'', ''current_replicas'', ''desired_replicas'', ''created_at'']"
  by (rule some_reads_backI, simp add: normalizeWatchHPAObject_def hpaToRawJson_def reading same_simps split del: if_split cong: if_cong)
    (simp add: same_simps typed_field [OF r] field_evals jget_Cons HPAInfo_def)

lemma vpa_reads_back:
  assumes r: "has_type VPAInfo r"
  shows "reads_back (normalizeWatchVPAObject (vpaToRawJson r)) r
       [''name'', ''namespace'', ''target_ref_kind'', ''target_ref_name'', ''update_mode'', ''labels'', ''created_at'']"
  by (rule reads_backI, simp add: normalizeWatchVPAObject_def vpaToRawJson_def reading same_simps split del: if_split cong: if_cong)
    (simp add: same_simps typed_field [OF r] field_evals jget_Cons VPAInfo_def)

section \<open>Network\<close>

lemma service_reads_back:
  assumes r: "has_type ServiceInfo r"
  shows "reads_back (normalizeWatchServiceObject (serviceToRawJson r)) r
       [''name'', ''namespace'', ''type'', ''cluster_ip'', ''external_ips'', ''load_balancer_ingress'', ''selector'', ''created_at'']"
  by (rule reads_backI, simp add: normalizeWatchServiceObject_def serviceToRawJson_def reading same_simps split del: if_split cong: if_cong)
    (simp add: same_simps typed_field [OF r] field_evals jget_Cons ServiceInfo_def)

lemma endpointSlice_reads_back:
  assumes r: "has_type EndpointSliceInfo r"
  shows "reads_back (normalizeWatchEndpointSliceObject (endpointSliceToRawJson r)) r
       [''name'', ''namespace'', ''address_type'', ''labels'', ''annotations'', ''created_at'']"
  by (rule reads_backI, simp add: normalizeWatchEndpointSliceObject_def endpointSliceToRawJson_def reading same_simps split del: if_split cong: if_cong)
    (simp add: same_simps typed_field [OF r] field_evals jget_Cons EndpointSliceInfo_def)

lemma networkPolicy_reads_back:
  assumes r: "has_type NetworkPolicyInfo r"
  shows "reads_back (normalizeWatchNetworkPolicyObject (networkPolicyToRawJson r)) r
       [''name'', ''namespace'', ''policy_types'', ''labels'', ''annotations'', ''finalizers'', ''created_at'']"
  by (rule reads_backI, simp add: normalizeWatchNetworkPolicyObject_def networkPolicyToRawJson_def reading same_simps split del: if_split cong: if_cong)
    (simp add: same_simps typed_field [OF r] field_evals jget_Cons NetworkPolicyInfo_def)

lemma ingressClass_reads_back:
  assumes r: "has_type IngressClassInfo r"
  shows "reads_back (normalizeWatchIngressClassObject (ingressClassToRawJson r)) r
       [''name'', ''controller'', ''labels'', ''finalizers'', ''created_at'']"
  by (rule reads_backI, simp add: normalizeWatchIngressClassObject_def ingressClassToRawJson_def reading same_simps split del: if_split cong: if_cong)
    (simp add: same_simps typed_field [OF r] field_evals jget_Cons IngressClassInfo_def)

section \<open>Storage\<close>

lemma pvc_reads_back:
  assumes r: "has_type PVCInfo r"
  shows "reads_back (normalizeWatchPvcObject (pvcToRawJson r)) r
       [''name'', ''namespace'', ''status'', ''volume_name'', ''storage_class'', ''requested'', ''requested_access_modes'', ''created_at'']"
  by (rule reads_backI, simp add: normalizeWatchPvcObject_def pvcToRawJson_def reading same_simps split del: if_split cong: if_cong)
    (simp add: same_simps typed_field [OF r] field_evals jget_Cons PVCInfo_def)

lemma pv_reads_back:
  assumes r: "has_type PVInfo r"
  shows "reads_back (normalizeWatchPvObject (pvToRawJson r)) r
       [''name'', ''status'', ''capacity'', ''access_modes'', ''storage_class'', ''reclaim_policy'', ''volume_mode'', ''created_at'']"
  by (rule reads_backI, simp add: normalizeWatchPvObject_def pvToRawJson_def reading same_simps split del: if_split cong: if_cong)
    (simp add: same_simps typed_field [OF r] field_evals jget_Cons PVInfo_def)

lemma storageClass_reads_back:
  assumes r: "has_type StorageClassInfo r"
  shows "reads_back (normalizeWatchStorageClassObject (storageClassToRawJson r)) r
       [''name'', ''provisioner'', ''reclaim_policy'', ''volume_binding_mode'', ''allow_volume_expansion'', ''parameters'',
        ''mount_options'', ''labels'', ''annotations'', ''finalizers'', ''created_at'']"
  by (rule reads_backI, simp add: normalizeWatchStorageClassObject_def storageClassToRawJson_def reading same_simps split del: if_split cong: if_cong)
    (simp add: same_simps typed_field [OF r] field_evals jget_Cons StorageClassInfo_def)

lemma volumeAttachment_reads_back:
  assumes r: "has_type VolumeAttachmentInfo r"
  shows "reads_back (normalizeWatchVolumeAttachmentObject (volumeAttachmentToRawJson r)) r
       [''name'', ''attacher'', ''node_name'', ''persistent_volume_name'', ''attached'', ''created_at'']"
  by (rule reads_backI, simp add: normalizeWatchVolumeAttachmentObject_def volumeAttachmentToRawJson_def reading same_simps split del: if_split cong: if_cong)
    (simp add: same_simps typed_field [OF r] field_evals jget_Cons VolumeAttachmentInfo_def)

section \<open>Gateway API\<close>

lemma gatewayClass_reads_back:
  assumes r: "has_type GatewayClassInfo r"
  shows "reads_back (normalizeWatchGatewayClassObject (gatewayClassToRawJson r)) r
       [''name'', ''controller_name'', ''parameters_ref'', ''conditions'', ''labels'', ''annotations'', ''finalizers'', ''created_at'']"
  by (rule reads_backI, simp add: normalizeWatchGatewayClassObject_def gatewayClassToRawJson_def gateway_meta_def annotations_of_def finalizers_of_def reading same_simps split del: if_split cong: if_cong)
    (simp add: same_simps typed_field [OF r] field_evals jget_Cons GatewayClassInfo_def)

lemma gateway_reads_back:
  assumes r: "has_type GatewayInfo r"
  shows "reads_back (normalizeWatchGatewayObject (gatewayToRawJson r)) r
       [''name'', ''namespace'', ''gateway_class_name'', ''listeners'', ''status_listeners'', ''addresses'', ''conditions'', ''labels'',
        ''annotations'', ''finalizers'', ''created_at'']"
  by (rule reads_backI, simp add: normalizeWatchGatewayObject_def gatewayToRawJson_def gateway_meta_def annotations_of_def finalizers_of_def reading same_simps split del: if_split cong: if_cong)
    (simp add: same_simps typed_field [OF r] field_evals jget_Cons GatewayInfo_def)

lemma httpRoute_reads_back:
  assumes r: "has_type HTTPRouteInfo r"
  shows "reads_back (normalizeWatchHTTPRouteObject (httpRouteToRawJson r)) r
       [''name'', ''namespace'', ''hostnames'', ''parent_refs'', ''rules'', ''parents'', ''labels'', ''annotations'', ''finalizers'',
        ''created_at'']"
  by (rule reads_backI, simp add: normalizeWatchHTTPRouteObject_def httpRouteToRawJson_def route_object_def route_row_def gateway_meta_def annotations_of_def finalizers_of_def reading same_simps split del: if_split cong: if_cong)
    (simp add: same_simps typed_field [OF r] field_evals jget_Cons HTTPRouteInfo_def)

lemma grpcRoute_reads_back:
  assumes r: "has_type GRPCRouteInfo r"
  shows "reads_back (normalizeWatchGRPCRouteObject (grpcRouteToRawJson r)) r
       [''name'', ''namespace'', ''hostnames'', ''parent_refs'', ''rules'', ''parents'', ''labels'', ''annotations'', ''finalizers'',
        ''created_at'']"
  by (rule reads_backI, simp add: normalizeWatchGRPCRouteObject_def grpcRouteToRawJson_def route_object_def route_row_def gateway_meta_def annotations_of_def finalizers_of_def reading same_simps split del: if_split cong: if_cong)
    (simp add: same_simps typed_field [OF r] field_evals jget_Cons GRPCRouteInfo_def)

lemma referenceGrant_reads_back:
  assumes r: "has_type ReferenceGrantInfo r"
  shows "reads_back (normalizeWatchReferenceGrantObject (referenceGrantToRawJson r)) r
       [''name'', ''namespace'', ''from'', ''to'', ''labels'', ''annotations'', ''created_at'']"
  by (rule reads_backI, simp add: normalizeWatchReferenceGrantObject_def referenceGrantToRawJson_def annotations_of_def reading same_simps split del: if_split cong: if_cong)
    (simp add: same_simps typed_field [OF r] field_evals jget_Cons ReferenceGrantInfo_def)

section \<open>Cluster\<close>

lemma lease_reads_back:
  assumes r: "has_type LeaseInfo r"
  shows "reads_back (normalizeWatchLeaseObject (leaseToRawJson r)) r
       [''name'', ''namespace'', ''holder_identity'', ''lease_duration_seconds'', ''lease_transitions'', ''renew_time'', ''acquire_time'',
        ''labels'', ''created_at'']"
  by (rule reads_backI, simp add: normalizeWatchLeaseObject_def leaseToRawJson_def labelled_meta_def reading same_simps split del: if_split cong: if_cong)
    (simp add: same_simps typed_field [OF r] field_evals jget_Cons LeaseInfo_def)

lemma limitRange_reads_back:
  assumes r: "has_type LimitRangeInfo r"
  shows "reads_back (normalizeWatchLimitRangeObject (limitRangeToRawJson r)) r
       [''name'', ''namespace'', ''labels'', ''created_at'']"
  by (rule reads_backI, simp add: normalizeWatchLimitRangeObject_def limitRangeToRawJson_def labelled_meta_def reading same_simps split del: if_split cong: if_cong)
    (simp add: same_simps typed_field [OF r] field_evals jget_Cons LimitRangeInfo_def)

lemma resourceQuota_reads_back:
  assumes r: "has_type ResourceQuotaInfo r"
  shows "reads_back (normalizeWatchResourceQuotaObject (resourceQuotaToRawJson r)) r
       [''name'', ''namespace'', ''status_hard'', ''status_used'', ''labels'', ''created_at'']"
  by (rule reads_backI, simp add: normalizeWatchResourceQuotaObject_def resourceQuotaToRawJson_def labelled_meta_def reading same_simps split del: if_split cong: if_cong)
    (simp add: same_simps typed_field [OF r] field_evals jget_Cons ResourceQuotaInfo_def)

section \<open>All kinds\<close>

text \<open>The type of a kind's rows, its writer, its reader, and the properties of a row the object has a place for.\<close>

definition row_objects :: "(string \<Rightarrow> int option) \<Rightarrow> (ts_type \<times> (jval \<Rightarrow> jval) \<times> (jval \<Rightarrow> jval option) \<times> string list) list" where
  "row_objects time_of =
     [(DeploymentInfo, deploymentToWorkloadRawJson, Some \<circ> normalizeWatchDeploymentObject,
        [''name'', ''namespace'', ''replicas'', ''ready_replicas'', ''available_replicas'', ''updated_replicas'', ''image'', ''labels'',
        ''selector'', ''created_at'']),
      (DaemonSetInfo, daemonSetToWorkloadRawJson, Some \<circ> normalizeWatchDaemonSetObject,
        [''name'', ''namespace'', ''desired'', ''current'', ''ready'', ''updated'', ''available'', ''misscheduled'', ''unavailable'',
        ''node_selector'', ''created_at'']),
      (ReplicaSetInfo, replicaSetToWorkloadRawJson, Some \<circ> normalizeWatchReplicaSetObject,
        [''name'', ''namespace'', ''current_replicas'', ''replicas'', ''ready_replicas'', ''available_replicas'', ''labels'', ''selector'',
        ''created_at'']),
      (JobInfo, jobToWorkloadRawJson, Some \<circ> normalizeWatchJobObject time_of,
        [''name'', ''namespace'', ''parallelism'', ''active'', ''succeeded'', ''failed'', ''created_at'']),
      (CronJobInfo, cronJobToWorkloadRawJson, Some \<circ> normalizeWatchCronJobObject,
        [''name'', ''namespace'', ''schedule'', ''suspend'', ''concurrency_policy'', ''last_schedule_time'', ''last_successful_time'',
        ''created_at'']),
      (PDBInfo, pdbToRawJson, Some \<circ> normalizeWatchPDBObject,
        [''name'', ''namespace'', ''min_available'', ''max_unavailable'', ''current_healthy'', ''desired_healthy'',
        ''disruptions_allowed'', ''expected_pods'', ''selector'', ''created_at'']),
      (HPAInfo, hpaToRawJson, normalizeWatchHPAObject,
        [''name'', ''namespace'', ''min_replicas'', ''max_replicas'', ''current_replicas'', ''desired_replicas'', ''created_at'']),
      (VPAInfo, vpaToRawJson, Some \<circ> normalizeWatchVPAObject,
        [''name'', ''namespace'', ''target_ref_kind'', ''target_ref_name'', ''update_mode'', ''labels'', ''created_at'']),
      (ServiceInfo, serviceToRawJson, Some \<circ> normalizeWatchServiceObject,
        [''name'', ''namespace'', ''type'', ''cluster_ip'', ''external_ips'', ''load_balancer_ingress'', ''selector'', ''created_at'']),
      (EndpointSliceInfo, endpointSliceToRawJson, Some \<circ> normalizeWatchEndpointSliceObject,
        [''name'', ''namespace'', ''address_type'', ''labels'', ''annotations'', ''created_at'']),
      (NetworkPolicyInfo, networkPolicyToRawJson, Some \<circ> normalizeWatchNetworkPolicyObject,
        [''name'', ''namespace'', ''policy_types'', ''labels'', ''annotations'', ''finalizers'', ''created_at'']),
      (IngressClassInfo, ingressClassToRawJson, Some \<circ> normalizeWatchIngressClassObject,
        [''name'', ''controller'', ''labels'', ''finalizers'', ''created_at'']),
      (PVCInfo, pvcToRawJson, Some \<circ> normalizeWatchPvcObject,
        [''name'', ''namespace'', ''status'', ''volume_name'', ''storage_class'', ''requested'', ''requested_access_modes'', ''created_at'']),
      (PVInfo, pvToRawJson, Some \<circ> normalizeWatchPvObject,
        [''name'', ''status'', ''capacity'', ''access_modes'', ''storage_class'', ''reclaim_policy'', ''volume_mode'', ''created_at'']),
      (StorageClassInfo, storageClassToRawJson, Some \<circ> normalizeWatchStorageClassObject,
        [''name'', ''provisioner'', ''reclaim_policy'', ''volume_binding_mode'', ''allow_volume_expansion'', ''parameters'',
        ''mount_options'', ''labels'', ''annotations'', ''finalizers'', ''created_at'']),
      (VolumeAttachmentInfo, volumeAttachmentToRawJson, Some \<circ> normalizeWatchVolumeAttachmentObject,
        [''name'', ''attacher'', ''node_name'', ''persistent_volume_name'', ''attached'', ''created_at'']),
      (GatewayClassInfo, gatewayClassToRawJson, Some \<circ> normalizeWatchGatewayClassObject,
        [''name'', ''controller_name'', ''parameters_ref'', ''conditions'', ''labels'', ''annotations'', ''finalizers'', ''created_at'']),
      (GatewayInfo, gatewayToRawJson, Some \<circ> normalizeWatchGatewayObject,
        [''name'', ''namespace'', ''gateway_class_name'', ''listeners'', ''status_listeners'', ''addresses'', ''conditions'', ''labels'',
        ''annotations'', ''finalizers'', ''created_at'']),
      (HTTPRouteInfo, httpRouteToRawJson, Some \<circ> normalizeWatchHTTPRouteObject,
        [''name'', ''namespace'', ''hostnames'', ''parent_refs'', ''rules'', ''parents'', ''labels'', ''annotations'', ''finalizers'',
        ''created_at'']),
      (GRPCRouteInfo, grpcRouteToRawJson, Some \<circ> normalizeWatchGRPCRouteObject,
        [''name'', ''namespace'', ''hostnames'', ''parent_refs'', ''rules'', ''parents'', ''labels'', ''annotations'', ''finalizers'',
        ''created_at'']),
      (ReferenceGrantInfo, referenceGrantToRawJson, Some \<circ> normalizeWatchReferenceGrantObject,
        [''name'', ''namespace'', ''from'', ''to'', ''labels'', ''annotations'', ''created_at'']),
      (LeaseInfo, leaseToRawJson, Some \<circ> normalizeWatchLeaseObject,
        [''name'', ''namespace'', ''holder_identity'', ''lease_duration_seconds'', ''lease_transitions'', ''renew_time'', ''acquire_time'',
        ''labels'', ''created_at'']),
      (LimitRangeInfo, limitRangeToRawJson, Some \<circ> normalizeWatchLimitRangeObject,
        [''name'', ''namespace'', ''labels'', ''created_at'']),
      (ResourceQuotaInfo, resourceQuotaToRawJson, Some \<circ> normalizeWatchResourceQuotaObject,
        [''name'', ''namespace'', ''status_hard'', ''status_used'', ''labels'', ''created_at''])]"

definition kind_reads_back :: "ts_type \<times> (jval \<Rightarrow> jval) \<times> (jval \<Rightarrow> jval option) \<times> string list \<Rightarrow> bool" where
  "kind_reads_back = (\<lambda>(T, toObj, toRow, ks). \<forall>r. has_type T r \<longrightarrow> some_reads_back (toRow (toObj r)) r ks)"

lemmas kinds_read_back =
  deployment_reads_back daemonSet_reads_back replicaSet_reads_back job_reads_back cronJob_reads_back pdb_reads_back hpa_reads_back
  vpa_reads_back service_reads_back endpointSlice_reads_back networkPolicy_reads_back ingressClass_reads_back pvc_reads_back
  pv_reads_back storageClass_reads_back volumeAttachment_reads_back gatewayClass_reads_back gateway_reads_back httpRoute_reads_back
  grpcRoute_reads_back referenceGrant_reads_back lease_reads_back limitRange_reads_back resourceQuota_reads_back

lemma all_kinds_read_back: "list_all kind_reads_back (row_objects time_of)"
  by (simp add: row_objects_def kind_reads_back_def some_reads_back_def [of "Some row" for row] kinds_read_back)


definition a_row :: jval where
  "a_row = JObj [(''name'', JStr ''web''), (''namespace'', JStr ''shop''), (''replicas'', JNum 3), (''ready_replicas'', JNum 2),
     (''available_replicas'', JNum 2), (''updated_replicas'', JNum 3), (''image'', JStr ''nginx''), (''labels'', JObj []),
     (''selector'', JObj [(''app'', JStr ''web'')]), (''created_at'', JStr ''2026-01-01''), (''status'', JStr ''Available'')]"

lemma a_row_typed: "has_type DeploymentInfo a_row"
  by (simp add: a_row_def DeploymentInfo_def req_def opt_def jget_Cons)


end
