(* ===== verification/Secret_Bytes.thy ===== *)
theory Secret_Bytes
  imports Chat_Value
begin

text \<open>
  Bytes and their texts, as the browser has them: base64 (\<^verbatim>\<open>btoa\<close>, \<^verbatim>\<open>atob\<close>) and UTF-8 (\<^verbatim>\<open>TextEncoder\<close>, and \<^verbatim>\<open>TextDecoder\<close>
  with \<^verbatim>\<open>fatal\<close> and \<^verbatim>\<open>ignoreBOM\<close>). A byte is a number below 256; a function that throws answers \<open>None\<close>.
\<close>

section \<open>Base64\<close>

definition b64_unit :: "nat \<Rightarrow> nat" where
  "b64_unit i = (if i < 26 then 65 + i else if i < 52 then 71 + i else if i < 62 then i - 4 else if i = 62 then 43 else 47)"

definition b64_value :: "nat \<Rightarrow> nat option" where
  "b64_value c =
     (if 65 \<le> c \<and> c \<le> 90 then Some (c - 65) else if 97 \<le> c \<and> c \<le> 122 then Some (c - 71)
      else if 48 \<le> c \<and> c \<le> 57 then Some (c + 4) else if c = 43 then Some 62 else if c = 47 then Some 63 else None)"

fun btoa :: "nat list \<Rightarrow> ustr" where
  "btoa [] = []"
| "btoa [a] = [b64_unit (a div 4), b64_unit (a mod 4 * 16), 61, 61]"
| "btoa [a, b] = [b64_unit (a div 4), b64_unit (a mod 4 * 16 + b div 16), b64_unit (b mod 16 * 4), 61]"
| "btoa (a # b # c # s) =
     [b64_unit (a div 4), b64_unit (a mod 4 * 16 + b div 16), b64_unit (b mod 16 * 4 + c div 64), b64_unit (c mod 64)] @ btoa s"

text \<open>The six-bit values of a text without its padding, read by fours; the bits left over are dropped.\<close>

fun b64_bytes :: "nat list \<Rightarrow> nat list" where
  "b64_bytes (a # b # c # d # s) = [a * 4 + b div 16, b mod 16 * 16 + c div 4, c mod 4 * 64 + d] @ b64_bytes s"
| "b64_bytes [a, b, c] = [a * 4 + b div 16, b mod 16 * 16 + c div 4]"
| "b64_bytes [a, b] = [a * 4 + b div 16]"
| "b64_bytes _ = []"

definition ascii_ws :: "nat \<Rightarrow> bool" where
  "ascii_ws c \<longleftrightarrow> c \<in> {9, 10, 12, 13, 32}"

text \<open>At most two \<^verbatim>\<open>=\<close> at the end of a text whose length is a multiple of four.\<close>

definition drop_padding :: "ustr \<Rightarrow> ustr" where
  "drop_padding s =
     (if length s mod 4 = 0 \<and> s \<noteq> [] \<and> last s = 61 then
        (let s1 = butlast s in if s1 \<noteq> [] \<and> last s1 = 61 then butlast s1 else s1)
      else s)"

definition atob :: "ustr \<Rightarrow> nat list option" where
  "atob s =
     (let t = drop_padding (filter (\<lambda>c. \<not> ascii_ws c) s) in
      if length t mod 4 = 1 then None else map_option b64_bytes (those (map b64_value t)))"

section \<open>UTF-8\<close>

text \<open>A code point's bytes and code units.\<close>

definition utf8_bytes :: "nat \<Rightarrow> nat list" where
  "utf8_bytes p =
     (if p < 128 then [p]
      else if p < 2048 then [192 + p div 64, 128 + p mod 64]
      else if p < 65536 then [224 + p div 4096, 128 + p div 64 mod 64, 128 + p mod 64]
      else [240 + p div 262144, 128 + p div 4096 mod 64, 128 + p div 64 mod 64, 128 + p mod 64])"

definition units_of :: "nat \<Rightarrow> ustr" where
  "units_of p = (if p < 65536 then [p] else [55296 + (p - 65536) div 1024, 56320 + (p - 65536) mod 1024])"

text \<open>The code point of a unit or a pair; a surrogate without its other half is encoded as U+FFFD.\<close>

fun point_of :: "ustr \<Rightarrow> nat" where
  "point_of [h, l] = 65536 + (h - 55296) * 1024 + (l - 56320)"
| "point_of [c] = (if high_surrogate c \<or> low_surrogate c then 65533 else c)"
| "point_of _ = 0"

definition utf8_encode :: "ustr \<Rightarrow> nat list" where
  "utf8_encode s = concat (map (\<lambda>p. utf8_bytes (point_of p)) (code_points s))"

definition continuation :: "nat \<Rightarrow> bool" where
  "continuation b \<longleftrightarrow> 128 \<le> b \<and> b < 192"

definition surrogate :: "nat \<Rightarrow> bool" where
  "surrogate p \<longleftrightarrow> 55296 \<le> p \<and> p \<le> 57343"

text \<open>The first code point of a sequence of bytes, and the bytes after it.\<close>

definition point3 :: "nat \<Rightarrow> nat \<Rightarrow> nat \<Rightarrow> nat" where
  "point3 a b c = (a - 224) * 4096 + (b - 128) * 64 + (c - 128)"

definition point4 :: "nat \<Rightarrow> nat \<Rightarrow> nat \<Rightarrow> nat \<Rightarrow> nat" where
  "point4 a b c d = (a - 240) * 262144 + (b - 128) * 4096 + (c - 128) * 64 + (d - 128)"

definition utf8_point :: "nat list \<Rightarrow> (nat \<times> nat list) option" where
  "utf8_point bs = (case bs of
      [] \<Rightarrow> None
    | a # s \<Rightarrow>
        if a < 128 then Some (a, s)
        else if 194 \<le> a \<and> a < 224 then
          (case s of b # t \<Rightarrow> if continuation b then Some ((a - 192) * 64 + (b - 128), t) else None | _ \<Rightarrow> None)
        else if 224 \<le> a \<and> a < 240 then
          (case s of b # c # t \<Rightarrow>
             (let p = point3 a b c in
              if continuation b \<and> continuation c \<and> 2048 \<le> p \<and> \<not> surrogate p then Some (p, t) else None)
           | _ \<Rightarrow> None)
        else if 240 \<le> a \<and> a < 245 then
          (case s of b # c # d # t \<Rightarrow>
             (let p = point4 a b c d in
              if continuation b \<and> continuation c \<and> continuation d \<and> 65536 \<le> p \<and> p \<le> 1114111 then Some (p, t) else None)
           | _ \<Rightarrow> None)
        else None)"

lemma utf8_point_shorter: "utf8_point bs = Some (p, t) \<Longrightarrow> length t < length bs"
  by (auto simp: utf8_point_def Let_def split: list.splits if_splits)

function utf8_decode :: "nat list \<Rightarrow> ustr option" where
  "utf8_decode bs =
     (if bs = [] then Some []
      else case utf8_point bs of
        None \<Rightarrow> None
      | Some (p, t) \<Rightarrow> map_option (\<lambda>s. units_of p @ s) (utf8_decode t))"
  by pat_completeness auto
termination
  by (relation "measure length") (auto dest: utf8_point_shorter)

declare utf8_decode.simps [simp del]

section \<open>Texts without half a pair\<close>

definition whole_point :: "ustr \<Rightarrow> bool" where
  "whole_point p \<longleftrightarrow> (\<exists>c. p = [c] \<and> \<not> surrogate c) \<or> (\<exists>h l. p = [h, l] \<and> high_surrogate h \<and> low_surrogate l)"

lemma surrogate_halves: "surrogate c \<longleftrightarrow> high_surrogate c \<or> low_surrogate c"
  by (auto simp: surrogate_def high_surrogate_def low_surrogate_def)

lemma code_points_unit: "\<not> surrogate c \<Longrightarrow> code_points (c # s) = [c] # code_points s"
  by (cases s) (auto simp: surrogate_halves)

lemma code_points_whole: "whole_point p \<Longrightarrow> code_points (p @ s) = p # code_points s"
  by (auto simp: whole_point_def code_points_unit)

lemma code_points_concat: "list_all whole_point ps \<Longrightarrow> code_points (concat ps) = ps"
  by (induction ps) (auto simp: code_points_whole)

lemma units_of_whole: "\<not> surrogate p \<Longrightarrow> p \<le> 1114111 \<Longrightarrow> whole_point (units_of p)"
  by (auto simp: units_of_def whole_point_def high_surrogate_def low_surrogate_def)

lemma point_of_units: "\<not> surrogate p \<Longrightarrow> p \<le> 1114111 \<Longrightarrow> point_of (units_of p) = p"
  by (auto simp: units_of_def surrogate_halves)

text \<open>The digits of a number in base 64.\<close>

lemma digits64:
  assumes "y < (64::nat)"
  shows "(x * 64 + y) div 64 = x" "(x * 64 + y) mod 64 = y"
  using assms by simp_all

lemma utf8_bytes_2: "2 \<le> x \<Longrightarrow> x < 32 \<Longrightarrow> y < 64 \<Longrightarrow> utf8_bytes (x * 64 + y) = [192 + x, 128 + y]"
  by (simp add: utf8_bytes_def digits64)

lemma utf8_bytes_3:
  assumes "2048 \<le> x * 4096 + y * 64 + z" "x < 16" "y < 64" "z < 64"
  shows "utf8_bytes (x * 4096 + y * 64 + z) = [224 + x, 128 + y, 128 + z]"
proof -
  have e: "x * 4096 + y * 64 + z = (x * 64 + y) * 64 + z" by simp
  have "x \<le> 15" "y \<le> 63" "z \<le> 63" using assms(2-4) by simp_all
  then have "x * 4096 + y * 64 + z < 65536" by linarith
  then show ?thesis
    using assms unfolding e utf8_bytes_def div_mult2_eq [of _ 64 64, simplified] digits64 [OF assms(4)] digits64 [OF assms(3)] by simp
qed

lemma utf8_bytes_4:
  assumes "65536 \<le> w * 262144 + x * 4096 + y * 64 + z" "x < 64" "y < 64" "z < 64"
  shows "utf8_bytes (w * 262144 + x * 4096 + y * 64 + z) = [240 + w, 128 + x, 128 + y, 128 + z]"
proof -
  have e: "w * 262144 + x * 4096 + y * 64 + z = ((w * 64 + x) * 64 + y) * 64 + z" by simp
  show ?thesis
    using assms unfolding e utf8_bytes_def div_mult2_eq [of _ 64 64, simplified] div_mult2_eq [of _ 64 4096, simplified]
      digits64 [OF assms(4)] digits64 [OF assms(3)] digits64 [OF assms(2)] by simp
qed

lemma continuation_digit: "continuation b \<Longrightarrow> \<exists>y<64. b = 128 + y"
  by (rule exI [of _ "b - 128"]) (auto simp: continuation_def)

lemma utf8_point_bytes:
  assumes "utf8_point bs = Some (p, t)"
  shows "bs = utf8_bytes p @ t \<and> \<not> surrogate p \<and> p \<le> 1114111"
proof -
  from assms obtain a s where bs: "bs = a # s" by (cases bs) (auto simp: utf8_point_def)
  consider "a < 128" | "194 \<le> a" "a < 224" | "224 \<le> a" "a < 240" | "240 \<le> a" "a < 245"
    using assms by (force simp: utf8_point_def bs split: if_splits)
  then show ?thesis
  proof cases
    case 1
    with assms show ?thesis by (auto simp: utf8_point_def bs utf8_bytes_def surrogate_def)
  next
    case 2
    with assms obtain b where s: "s = b # t" "continuation b" "p = (a - 192) * 64 + (b - 128)"
      by (auto simp: utf8_point_def bs split: list.splits if_splits)
    moreover from s(2) obtain y where "y < 64" "b = 128 + y" using continuation_digit by blast
    moreover have "2 \<le> a - 192" "a - 192 < 32" "192 + (a - 192) = a" using 2 by simp_all
    then obtain x where "2 \<le> x" "x < 32" "a = 192 + x" by metis
    ultimately show ?thesis using utf8_bytes_2 [of x y] by (simp add: bs surrogate_def)
  next
    case 3
    with assms obtain b c where s: "s = b # c # t" "continuation b" "continuation c" "p = point3 a b c"
        "2048 \<le> p" "\<not> surrogate p"
      by (auto simp: utf8_point_def bs Let_def split: list.splits if_splits)
    moreover from s(2,3) obtain y z where "y < 64" "b = 128 + y" "z < 64" "c = 128 + z" using continuation_digit by blast
    ultimately show ?thesis using 3 utf8_bytes_3 [of "a - 224" y z] by (simp add: bs point3_def)
  next
    case 4
    with assms obtain b c d where s: "s = b # c # d # t" "continuation b" "continuation c" "continuation d"
        "p = point4 a b c d" "65536 \<le> p" "p \<le> 1114111"
      by (auto simp: utf8_point_def bs Let_def split: list.splits if_splits)
    from continuation_digit [OF s(2)] continuation_digit [OF s(3)] continuation_digit [OF s(4)]
    obtain x y z where d: "x < 64" "b = 128 + x" "y < 64" "c = 128 + y" "z < 64" "d = 128 + z" by blast
    then have p: "p = (a - 240) * 262144 + x * 4096 + y * 64 + z" using s(5) by (simp add: point4_def)
    have "240 + (a - 240) = a" using 4 by simp
    with utf8_bytes_4 [of "a - 240" x y z] s(6) d(1,3,5) have "utf8_bytes p = [a, 128 + x, 128 + y, 128 + z]" by (simp only: p)
    with s(6,7) show ?thesis by (simp add: bs s(1) d surrogate_def)
  qed
qed

text \<open>A decoded text has no half pair, and encodes to the bytes it was decoded from.\<close>

lemma utf8_decode_points:
  "utf8_decode bs = Some s \<Longrightarrow> \<exists>ps. s = concat ps \<and> list_all whole_point ps \<and> concat (map (\<lambda>p. utf8_bytes (point_of p)) ps) = bs"
proof (induction bs arbitrary: s rule: utf8_decode.induct)
  case (1 bs)
  show ?case
  proof (cases "bs = []")
    case True
    with 1 show ?thesis by (intro exI [of _ "[]"]) (simp add: utf8_decode.simps)
  next
    case False
    with "1.prems" obtain p t s' where u: "utf8_point bs = Some (p, t)" "utf8_decode t = Some s'" "s = units_of p @ s'"
      by (subst (asm) utf8_decode.simps) (auto split: option.splits)
    from "1.IH" [OF False u(1) refl u(2)] obtain ps where ps: "s' = concat ps" "list_all whole_point ps"
        "concat (map (\<lambda>p. utf8_bytes (point_of p)) ps) = t" by blast
    from utf8_point_bytes [OF u(1)] ps show ?thesis
      by (intro exI [of _ "units_of p # ps"]) (simp add: u(3) units_of_whole point_of_units)
  qed
qed

lemma utf8_encode_decode: "utf8_decode bs = Some s \<Longrightarrow> utf8_encode s = bs"
  by (drule utf8_decode_points) (auto simp: utf8_encode_def code_points_concat)

lemma utf8_decode_whole: "utf8_decode bs = Some s \<Longrightarrow> list_all whole_point (code_points s)"
  by (drule utf8_decode_points) (auto simp: code_points_concat)

end
