(* ===== verification/Secret_Yaml.thy ===== *)
theory Secret_Yaml
  imports Secret_Bytes
begin

text \<open>
  The YAML window of a Secret (\<^verbatim>\<open>frontend/src/components/resource-detail/utils.ts\<close>): \<^verbatim>\<open>data\<close> is shown as \<^verbatim>\<open>stringData\<close> with each value's letters,
  and saved as \<^verbatim>\<open>data\<close> again. Texts are lists of UTF-16 code units; each regular expression is the scanner that matches it, with
  its groups as the answer.
\<close>

section \<open>Lines\<close>

text \<open>What \<^verbatim>\<open>.\<close> does not match.\<close>

definition line_break :: "nat \<Rightarrow> bool" where
  "line_break c \<longleftrightarrow> c \<in> {10, 13, 8232, 8233}"

text \<open>\<^verbatim>\<open>/^name:\s*$/\<close>.\<close>

definition section_line :: "string \<Rightarrow> ustr \<Rightarrow> bool" where
  "section_line name line \<longleftrightarrow> startsWith line (u name @ [58]) \<and> list_all ws_unit (drop (length name + 1) line)"

text \<open>\<^verbatim>\<open>(\S+?):\<close> before a rest the last part takes: the shortest key with such a rest.\<close>

fun key_value :: "(ustr \<Rightarrow> ustr option) \<Rightarrow> ustr \<Rightarrow> ustr \<Rightarrow> (ustr \<times> ustr) option" where
  "key_value last_part key [] = None"
| "key_value last_part key (c # s) =
     (case (if c = 58 \<and> key \<noteq> [] then last_part s else None) of
        Some v \<Rightarrow> Some (key, v)
      | None \<Rightarrow> if ws_unit c then None else key_value last_part (key @ [c]) s)"

text \<open>\<^verbatim>\<open>\s*(.+)$\<close> and \<^verbatim>\<open>\s*([^\n]*)$\<close>: the value of a line of data, and of one of stringData.\<close>

definition data_part :: "ustr \<Rightarrow> ustr option" where
  "data_part s =
     (let v = dropWhile ws_unit s in
      if v \<noteq> [] then (if list_ex line_break v then None else Some v)
      else if s \<noteq> [] \<and> \<not> line_break (last s) then Some [last s] else None)"

definition string_part :: "ustr \<Rightarrow> ustr option" where
  "string_part s = (let v = dropWhile ws_unit s in if 10 \<in> set v then None else Some v)"

text \<open>\<^verbatim>\<open>^(\s+)(\S+?):\<dots>\<close>: the indent, the key and the value.\<close>

definition split_line :: "(ustr \<Rightarrow> ustr option) \<Rightarrow> ustr \<Rightarrow> (ustr \<times> ustr \<times> ustr) option" where
  "split_line last_part line =
     (let indent = takeWhile ws_unit line in
      if indent = [] then None else map_option (\<lambda>(k, v). (indent, k, v)) (key_value last_part [] (dropWhile ws_unit line)))"

text \<open>\<^verbatim>\<open>\s*(?:#.*)?$\<close> and \<^verbatim>\<open>(?:\s+#.*)?$\<close>.\<close>

definition header_tail :: "ustr \<Rightarrow> bool" where
  "header_tail t = (case dropWhile ws_unit t of [] \<Rightarrow> True | c # r \<Rightarrow> c = 35 \<and> \<not> list_ex line_break r)"

definition comment_tail :: "ustr \<Rightarrow> bool" where
  "comment_tail t \<longleftrightarrow> t = [] \<or>
     (ws_unit (hd t) \<and> (case dropWhile ws_unit t of [] \<Rightarrow> False | c # r \<Rightarrow> c = 35 \<and> \<not> list_ex line_break r))"

section \<open>What the window shows\<close>

definition BINARY_TAG :: ustr where
  "BINARY_TAG = u ''!!binary''"

definition sign_unit :: "nat \<Rightarrow> bool" where
  "sign_unit c \<longleftrightarrow> c = 43 \<or> c = 45"

definition digit_1_9 :: "nat \<Rightarrow> bool" where
  "digit_1_9 c \<longleftrightarrow> 49 \<le> c \<and> c \<le> 57"

text \<open>\<^verbatim>\<open>[-+]?[1-9]?|[1-9][-+]?\<close>: the ways to match the start of a text, in the order they are tried.\<close>

fun header_words :: "ustr \<Rightarrow> ustr list" where
  "header_words [] = [[]]"
| "header_words [c] = (if sign_unit c \<or> digit_1_9 c then [[c], []] else [[]])"
| "header_words (c # d # _) =
     (if sign_unit c then (if digit_1_9 d then [[c, d], [c], []] else [[c], []])
      else if digit_1_9 c then [[c], []] @ (if sign_unit d then [[c, d]] else [])
      else [[]])"

definition BLOCK_HEADER :: "ustr \<Rightarrow> (nat \<times> ustr) option" where
  "BLOCK_HEADER s = (case s of
      [] \<Rightarrow> None
    | m # r \<Rightarrow> if m = 124 \<or> m = 62 then map_option (Pair m) (List.find (\<lambda>w. header_tail (drop (length w) r)) (header_words r)) else None)"

definition staysEscaped :: "nat \<Rightarrow> bool" where
  "staysEscaped c \<longleftrightarrow> (127 \<le> c \<and> c \<le> 159) \<or> c = 8232 \<or> c = 8233 \<or> c = 65279"

definition encodedText :: "ustr \<Rightarrow> ustr" where
  "encodedText text = (if text = [] then [34, 34] else btoa (utf8_encode text))"

definition control_unit :: "nat \<Rightarrow> bool" where
  "control_unit c \<longleftrightarrow> c \<le> 8 \<or> (14 \<le> c \<and> c \<le> 31)"

definition lettersOf :: "nat list \<Rightarrow> ustr option" where
  "lettersOf bytes = (case utf8_decode bytes of
      None \<Rightarrow> None
    | Some text \<Rightarrow> if list_ex (\<lambda>p. control_unit (hd p)) (code_points text) then None else Some text)"

definition readsPlainly :: "ustr \<Rightarrow> bool" where
  "readsPlainly text \<longleftrightarrow>
     \<not> (text = [] \<or> text \<noteq> utrim text \<or> list_ex (\<lambda>c. c \<in> {58, 35, 34, 39}) text \<or> startsWith text BINARY_TAG \<or> BLOCK_HEADER text \<noteq> None) \<and>
     \<not> list_ex (\<lambda>p. hd p < 32 \<or> staysEscaped (hd p)) (code_points text)"

definition escape_point :: "ustr \<Rightarrow> ustr" where
  "escape_point p = (if staysEscaped (hd p) then unicode_escape (hd p) else p)"

definition shownValue :: "ustr \<Rightarrow> ustr option" where
  "shownValue base64 = (case atob base64 of
      None \<Rightarrow> None
    | Some bytes \<Rightarrow>
        (case (if btoa bytes = base64 then lettersOf bytes else None) of
           None \<Rightarrow> Some (BINARY_TAG @ [32] @ base64)
         | Some text \<Rightarrow> if readsPlainly text then Some text else Some (concat (map escape_point (code_points (json_quote text))))))"

text \<open>
  The entry a line of the open block is: one whose indent is the block's, which the first one sets. A line that is none leaves the block
  when it has letters and does not start with a space.
\<close>

definition entry_of :: "(ustr \<Rightarrow> ustr option) \<Rightarrow> bool \<Rightarrow> nat option \<Rightarrow> ustr \<Rightarrow> (ustr \<times> ustr \<times> ustr) option" where
  "entry_of last_part inBlock indent line =
     (if \<not> inBlock then None
      else case split_line last_part line of
        Some (i, k, v) \<Rightarrow> if indent = None \<or> indent = Some (length i) then Some (i, k, v) else None
      | None \<Rightarrow> None)"

definition stays_in :: "bool \<Rightarrow> ustr \<Rightarrow> bool" where
  "stays_in inBlock line \<longleftrightarrow> inBlock \<and> (line = [] \<or> startsWith line [32])"

fun decode_lines :: "bool \<Rightarrow> nat option \<Rightarrow> ustr list \<Rightarrow> ustr list" where
  "decode_lines inBlock indent [] = []"
| "decode_lines inBlock indent (line # ls) =
     (if section_line ''data'' line then u ''stringData:'' # decode_lines True None ls
      else case entry_of data_part inBlock indent line of
        Some (i, k, v) \<Rightarrow>
          (case shownValue (utrim v) of None \<Rightarrow> line | Some s \<Rightarrow> i @ k @ [58, 32] @ s) # decode_lines True (Some (length i)) ls
      | None \<Rightarrow> line # decode_lines (stays_in inBlock line) indent ls)"

definition decodeSecretYaml :: "ustr \<Rightarrow> ustr" where
  "decodeSecretYaml yaml = ujoin nl (decode_lines False None (split 10 yaml))"

section \<open>What is saved\<close>

text \<open>\<^verbatim>\<open>/^"((?:[^"\\]|\\.)*)"(?:\s+#.*)?$/\<close>.\<close>

fun double_body :: "ustr \<Rightarrow> (ustr \<times> ustr) option" where
  "double_body [] = None"
| "double_body [c] = (if c = 34 then Some ([], []) else None)"
| "double_body (c # d # s) =
     (if c = 34 then Some ([], d # s)
      else if c = 92 then (if line_break d then None else map_option (\<lambda>(b, r). (c # d # b, r)) (double_body s))
      else map_option (\<lambda>(b, r). (c # b, r)) (double_body (d # s)))"

definition DOUBLE_QUOTED :: "ustr \<Rightarrow> ustr option" where
  "DOUBLE_QUOTED raw = (case raw of
      [] \<Rightarrow> None
    | c # s \<Rightarrow> if c \<noteq> 34 then None else (case double_body s of Some (b, r) \<Rightarrow> if comment_tail r then Some b else None | None \<Rightarrow> None))"

text \<open>\<^verbatim>\<open>/^'((?:[^']|'')*)'(?:\s+#.*)?$/\<close>.\<close>

fun single_body :: "ustr \<Rightarrow> (ustr \<times> ustr) option" where
  "single_body [] = None"
| "single_body [c] = (if c = 39 then Some ([], []) else None)"
| "single_body (c # d # s) =
     (if c = 39 \<and> d = 39 then map_option (\<lambda>(b, r). (c # d # b, r)) (single_body s)
      else if c = 39 then Some ([], d # s)
      else map_option (\<lambda>(b, r). (c # b, r)) (single_body (d # s)))"

definition SINGLE_QUOTED :: "ustr \<Rightarrow> ustr option" where
  "SINGLE_QUOTED raw = (case raw of
      [] \<Rightarrow> None
    | c # s \<Rightarrow> if c \<noteq> 39 then None else (case single_body s of Some (b, r) \<Rightarrow> if comment_tail r then Some b else None | None \<Rightarrow> None))"

fun undouble :: "ustr \<Rightarrow> ustr" where
  "undouble [] = []"
| "undouble [c] = [c]"
| "undouble (c # d # s) = (if c = 39 \<and> d = 39 then 39 # undouble s else c # undouble (d # s))"

text \<open>\<^verbatim>\<open>/^!!binary\s+(\S+)(?:\s+#.*)?$/\<close>.\<close>

definition BINARY_VALUE :: "ustr \<Rightarrow> ustr option" where
  "BINARY_VALUE raw =
     (let r = drop 8 raw; s = dropWhile ws_unit r; v = takeWhile (\<lambda>c. \<not> ws_unit c) s in
      if startsWith raw BINARY_TAG \<and> r \<noteq> [] \<and> ws_unit (hd r) \<and> v \<noteq> [] \<and> comment_tail (drop (length v) s) then Some v else None)"

definition YAML_ESCAPES :: "(nat \<times> nat) list" where
  "YAML_ESCAPES =
     [(48, 0), (97, 7), (98, 8), (116, 9), (9, 9), (110, 10), (118, 11), (102, 12), (114, 13), (101, 27), (32, 32),
      (34, 34), (47, 47), (92, 92), (78, 133), (95, 160), (76, 8232), (80, 8233)]"

definition HEX_ESCAPES :: "(nat \<times> nat) list" where
  "HEX_ESCAPES = [(120, 2), (117, 4), (85, 8)]"

definition hex_value :: "nat \<Rightarrow> nat option" where
  "hex_value c = (if 48 \<le> c \<and> c \<le> 57 then Some (c - 48) else if 97 \<le> c \<and> c \<le> 102 then Some (c - 87)
     else if 65 \<le> c \<and> c \<le> 70 then Some (c - 55) else None)"

definition hex_number :: "ustr \<Rightarrow> nat option" where
  "hex_number s = map_option (foldl (\<lambda>n d. 16 * n + d) 0) (those (map hex_value s))"

function (sequential) doubleQuotedText :: "ustr \<Rightarrow> ustr option" where
  "doubleQuotedText [] = Some []"
| "doubleQuotedText [c] = (if c = 92 then None else Some [c])"
| "doubleQuotedText (c # e # s) =
     (if c \<noteq> 92 then map_option ((#) c) (doubleQuotedText (e # s))
      else case map_of HEX_ESCAPES e of
        Some w \<Rightarrow>
          (case (if length (take w s) = w then hex_number (take w s) else None) of
             None \<Rightarrow> None
           | Some code \<Rightarrow> if code > 1114111 then None else map_option ((@) (units_of code)) (doubleQuotedText (drop w s)))
      | None \<Rightarrow>
          (case map_of YAML_ESCAPES e of
             Some x \<Rightarrow> map_option ((#) x) (doubleQuotedText s)
           | None \<Rightarrow> None))"
  by pat_completeness auto
termination
  by (relation "measure length") auto

text \<open>\<^verbatim>\<open>raw.replace(/\s+#.*$/, '')\<close>.\<close>

fun strip_comment :: "ustr \<Rightarrow> ustr" where
  "strip_comment [] = []"
| "strip_comment (c # s) = (if ws_unit c \<and> comment_tail (c # s) then [] else c # strip_comment s)"

definition savedText :: "ustr \<Rightarrow> ustr" where
  "savedText raw = (case DOUBLE_QUOTED raw of
      Some b \<Rightarrow> (case doubleQuotedText b of Some t \<Rightarrow> t | None \<Rightarrow> raw)
    | None \<Rightarrow> (case SINGLE_QUOTED raw of Some b \<Rightarrow> undouble b | None \<Rightarrow> strip_comment raw))"

definition fold_line :: "nat \<times> ustr \<Rightarrow> ustr \<times> nat \<times> bool \<Rightarrow> ustr \<times> nat \<times> bool" where
  "fold_line il st =
     (case (il, st) of ((i, line), (out, blanks, afterDeeper)) \<Rightarrow>
        if line = [] then (out, blanks + 1, afterDeeper)
        else let deeper = (hd line = 32 \<or> hd line = 9);
                 sep = (if i > blanks then (if deeper \<or> afterDeeper then replicate (blanks + 1) 10 else if blanks > 0 then replicate blanks 10 else [32])
                        else replicate blanks 10) in
          (out @ sep @ line, 0, deeper))"

definition foldedText :: "ustr list \<Rightarrow> ustr" where
  "foldedText lines = fst (fold fold_line (enumerate 0 lines) ([], 0, False))"

text \<open>A line of a block below a key: blank, or indented deeper than the key. \<open>blockValue\<close> answers the text and the number of lines it takes.\<close>

definition in_block :: "nat \<Rightarrow> ustr \<Rightarrow> bool" where
  "in_block keyIndent line \<longleftrightarrow> utrim line = [] \<or> length (takeWhile ws_unit line) > keyIndent"

definition blockValue :: "ustr list \<Rightarrow> nat \<Rightarrow> nat \<times> ustr \<Rightarrow> ustr \<times> nat" where
  "blockValue lines keyIndent header =
     (case header of (mark, word) \<Rightarrow>
        let taken = takeWhile (in_block keyIndent) lines;
            endsTheText = (length taken = length lines);
            finalBreak = (\<not> endsTheText \<or> (taken \<noteq> [] \<and> last taken = []));
            body = (if endsTheText \<and> finalBreak then butlast taken else taken);
            digit = filter (\<lambda>c. \<not> sign_unit c) word;
            indent = (case digit of d # _ \<Rightarrow> keyIndent + (d - 48)
                      | [] \<Rightarrow> (case List.find (\<lambda>line. utrim line \<noteq> []) body of Some l \<Rightarrow> length (takeWhile ws_unit l) | None \<Rightarrow> 0));
            texts = map (\<lambda>line. if utrim line = [] \<and> length line \<le> indent then [] else drop indent line) body;
            kept = rev (dropWhile (\<lambda>t. t = []) (rev texts));
            trailing = length texts - length kept;
            content = (if mark = 124 then ujoin nl kept else foldedText kept) in
        (if 45 \<in> set word then content
         else if 43 \<in> set word then (if kept \<noteq> [] then content @ [10] @ replicate trailing 10 else replicate trailing 10)
         else if kept \<noteq> [] \<and> (trailing > 0 \<or> finalBreak) then content @ [10] else content,
         length body))"

function (sequential) encode_lines :: "bool \<Rightarrow> nat option \<Rightarrow> ustr list \<Rightarrow> ustr list" where
  "encode_lines inBlock indent [] = []"
| "encode_lines inBlock indent (line # ls) =
     (if section_line ''stringData'' line then u ''data:'' # encode_lines True None ls
      else case entry_of string_part inBlock indent line of
        Some (i, k, v) \<Rightarrow>
          (let raw = utrim v in
           case BLOCK_HEADER raw of
             Some header \<Rightarrow>
               (case blockValue ls (length i) header of (text, n) \<Rightarrow>
                  (i @ k @ [58, 32] @ encodedText text) # encode_lines True (Some (length i)) (drop n ls))
           | None \<Rightarrow>
               (if raw = [] then line
                else i @ k @ [58, 32] @ (case BINARY_VALUE raw of Some b \<Rightarrow> b | None \<Rightarrow> encodedText (savedText raw)))
               # encode_lines True (Some (length i)) ls)
      | None \<Rightarrow> line # encode_lines (stays_in inBlock line) indent ls)"
  by pat_completeness auto
termination
  by (relation "measure (\<lambda>(_, _, ls). length ls)") auto

definition encodeSecretYaml :: "ustr \<Rightarrow> ustr" where
  "encodeSecretYaml yaml = ujoin nl (encode_lines False None (split 10 yaml))"

end
