(* ===== verification/Secret_Quotes.thy ===== *)
theory Secret_Quotes
  imports Secret_Yaml
begin

text \<open>
  The quoted form the Secret window shows of a text (\<open>Secret_Yaml\<close>) reads back as the text: the escapes of one code point, then of all of
  them.
\<close>

section \<open>Quoted letters\<close>

text \<open>One code point as the window writes it between quotes.\<close>

definition shown_point :: "ustr \<Rightarrow> ustr" where
  "shown_point p = (case p of [c] \<Rightarrow> if quote_unit c = [c] then escape_point [c] else quote_unit c | _ \<Rightarrow> p)"

lemma hex_digit_ascii: "d < 16 \<Longrightarrow> 48 \<le> hex_digit d \<and> hex_digit d \<le> 102 \<and> hex_digit d \<noteq> 92"
  by (auto simp: hex_digit_def)

lemma unicode_escape_units:
  "unicode_escape c = [92, 117, hex_digit (c div 4096 mod 16), hex_digit (c div 256 mod 16), hex_digit (c div 16 mod 16), hex_digit (c mod 16)]"
  by (simp add: unicode_escape_def u_def)

lemma hex_digit_range: "34 \<le> hex_digit (x mod 16) \<and> hex_digit (x mod 16) \<le> 117"
  using hex_digit_ascii [of "x mod 16"] by simp

lemma unicode_escape_ascii: "list_all (\<lambda>x. 34 \<le> x \<and> x \<le> 117) (unicode_escape c)"
  unfolding unicode_escape_units by (simp add: hex_digit_range)

lemma quote_unit_ascii: "quote_unit c \<noteq> [c] \<Longrightarrow> list_all (\<lambda>x. 34 \<le> x \<and> x \<le> 117) (quote_unit c)"
  unfolding quote_unit_def by (simp add: unicode_escape_ascii split: if_splits)

lemma ascii_points: "34 \<le> x \<Longrightarrow> x \<le> 117 \<Longrightarrow> \<not> surrogate x \<and> \<not> staysEscaped x" for x :: nat
  by (auto simp: surrogate_def staysEscaped_def)

text \<open>The points of a point's quoted form.\<close>

definition pieces :: "ustr \<Rightarrow> ustr list" where
  "pieces p = (case p of [c] \<Rightarrow> map (\<lambda>x. [x]) (quote_unit c) | _ \<Rightarrow> [p])"

lemma whole_cases:
  assumes "whole_point p"
  obtains c where "p = [c]" "\<not> surrogate c" | h l where "p = [h, l]" "high_surrogate h" "low_surrogate l"
  using assms by (auto simp: whole_point_def)

lemma pieces_ok:
  assumes "whole_point p"
  shows "list_all whole_point (pieces p)" "concat (pieces p) = quote_point p" "concat (map escape_point (pieces p)) = shown_point p"
proof -
  have e: "concat (map escape_point (map (\<lambda>x. [x]) s)) = s" if "\<forall>x\<in>set s. \<not> staysEscaped x" for s
    using that by (induction s) (simp_all add: escape_point_def)
  have "list_all whole_point (pieces p) \<and> concat (pieces p) = quote_point p \<and> concat (map escape_point (pieces p)) = shown_point p"
    using assms
  proof (cases rule: whole_cases)
    case (1 c)
    show ?thesis
    proof (cases "quote_unit c = [c]")
      case True
      with 1 show ?thesis by (simp add: pieces_def shown_point_def quote_point_def whole_point_def surrogate_halves)
    next
      case False
      then have "\<not> surrogate x \<and> \<not> staysEscaped x" if "x \<in> set (quote_unit c)" for x
        using quote_unit_ascii [of c] that ascii_points by (simp add: list_all_iff)
      with 1 False e show ?thesis
        by (auto simp: pieces_def shown_point_def quote_point_def whole_point_def surrogate_halves list_all_iff)
    qed
  next
    case (2 h l)
    then show ?thesis
      by (auto simp: pieces_def shown_point_def quote_point_def whole_point_def escape_point_def staysEscaped_def high_surrogate_def)
  qed
  then show "list_all whole_point (pieces p)" "concat (pieces p) = quote_point p" "concat (map escape_point (pieces p)) = shown_point p"
    by blast+
qed

lemma shown_quoted:
  assumes "list_all whole_point ps"
  shows "concat (map escape_point (code_points (json_quote (concat ps)))) = 34 # concat (map shown_point ps) @ [34]"
proof -
  let ?q = "[[34]] @ concat (map pieces ps) @ [[34]]"
  have all: "list_all whole_point (concat (map pieces ps)) \<and> concat (concat (map pieces ps)) = concat (map quote_point ps) \<and>
      concat (map escape_point (concat (map pieces ps))) = concat (map shown_point ps)"
    using assms by (induction ps) (simp_all add: pieces_ok)
  have "json_quote (concat ps) = concat ?q" using assms all by (simp add: json_quote_def code_points_concat)
  moreover have "list_all whole_point ?q" using all by (simp add: whole_point_def surrogate_def)
  ultimately have "code_points (json_quote (concat ps)) = ?q" by (simp only: code_points_concat)
  then show ?thesis using all by (simp add: escape_point_def staysEscaped_def)
qed

section \<open>Quotes read back\<close>

lemma double_body_plain: "c \<noteq> 34 \<Longrightarrow> c \<noteq> 92 \<Longrightarrow> r \<noteq> [] \<Longrightarrow> double_body (c # r) = map_option (\<lambda>(b, x). (c # b, x)) (double_body r)"
  by (cases r) auto

lemma double_body_escape: "\<not> line_break d \<Longrightarrow> double_body (92 # d # r) = map_option (\<lambda>(b, x). (92 # d # b, x)) (double_body r)"
  by simp

lemma doubleQuotedText_plain: "c \<noteq> 92 \<Longrightarrow> doubleQuotedText (c # r) = map_option ((#) c) (doubleQuotedText r)"
  by (cases r) auto

lemma map_option_prefix: "map_option (\<lambda>(b, x). (w @ b, x)) (map_option (\<lambda>(b, x). (v @ b, x)) y) = map_option (\<lambda>(b, x). (w @ v @ b, x)) y"
  by (cases y) auto

lemma hex_value_digit: "d < 16 \<Longrightarrow> hex_value (hex_digit d) = Some d"
  by (auto simp: hex_value_def hex_digit_def)

lemma hex_number_digits:
  assumes "a < 16" "b < 16" "d < 16" "e < 16"
  shows "hex_number [hex_digit a, hex_digit b, hex_digit d, hex_digit e] = Some (16 * (16 * (16 * a + b) + d) + e)"
  using assms by (simp add: hex_number_def hex_value_digit)

lemma hex_digits_number:
  assumes "c < 65536"
  shows "hex_number [hex_digit (c div 4096 mod 16), hex_digit (c div 256 mod 16), hex_digit (c div 16 mod 16), hex_digit (c mod 16)] = Some c"
proof -
  have sixteen: "0 < (16 :: nat)" by simp
  have "c div 256 div 16 = c div 4096" "c div 16 div 16 = c div 256" by (simp_all flip: div_mult2_eq)
  moreover have "c div 4096 mod 16 = c div 4096" using assms by simp
  ultimately have "16 * (16 * (16 * (c div 4096 mod 16) + c div 256 mod 16) + c div 16 mod 16) + c mod 16 = c"
    using mult_div_mod_eq [of 16 "c div 256"] mult_div_mod_eq [of 16 "c div 16"] mult_div_mod_eq [of 16 c] by (simp only:)
  then show ?thesis by (simp only: hex_number_digits mod_less_divisor [OF sixteen])
qed

lemma unicode_text:
  "hex_number [a, b, d, e] = Some c \<Longrightarrow> c < 65536 \<Longrightarrow> doubleQuotedText (92 # 117 # a # b # d # e # r) = map_option ((#) c) (doubleQuotedText r)"
  by (cases "doubleQuotedText r") (simp_all add: HEX_ESCAPES_def units_of_def)

lemma unicode_escape_text: "c < 65536 \<Longrightarrow> doubleQuotedText (unicode_escape c @ r) = map_option ((#) c) (doubleQuotedText r)"
  unfolding unicode_escape_units append.simps by (rule unicode_text [OF hex_digits_number])

lemma short_escape_text:
  "map_of HEX_ESCAPES e = None \<Longrightarrow> map_of YAML_ESCAPES e = Some x \<Longrightarrow> doubleQuotedText (92 # e # r) = map_option ((#) x) (doubleQuotedText r)"
  by simp

lemma hex_digit_plain: "hex_digit (x mod 16) \<noteq> 34 \<and> hex_digit (x mod 16) \<noteq> 92"
  using hex_digit_ascii [of "x mod 16"] by auto

lemma four_body:
  assumes "a \<noteq> 34 \<and> a \<noteq> 92" "b \<noteq> 34 \<and> b \<noteq> 92" "d \<noteq> 34 \<and> d \<noteq> 92" "e \<noteq> 34 \<and> e \<noteq> 92" "r \<noteq> []"
  shows "double_body (92 # 117 # a # b # d # e # r) = map_option (\<lambda>(t, x). (92 # 117 # a # b # d # e # t, x)) (double_body r)"
proof -
  have "\<not> line_break 117" by (simp add: line_break_def)
  with assms show ?thesis
    by (cases "double_body r") (simp_all add: double_body_escape double_body_plain split_beta del: double_body.simps)
qed

lemma unicode_escape_body: "r \<noteq> [] \<Longrightarrow> double_body (unicode_escape c @ r) = map_option (\<lambda>(b, x). (unicode_escape c @ b, x)) (double_body r)"
  unfolding unicode_escape_units append.simps by (rule four_body [OF hex_digit_plain hex_digit_plain hex_digit_plain hex_digit_plain])

lemma quote_unit_cases:
  obtains "quote_unit c = [c]" "c \<noteq> 34" "c \<noteq> 92"
  | e where "quote_unit c = [92, e]" "map_of HEX_ESCAPES e = None" "map_of YAML_ESCAPES e = Some c" "\<not> line_break e"
  | "quote_unit c = unicode_escape c"
proof (cases "c \<in> {34, 92, 8, 9, 10, 12, 13}")
  case True
  then have "\<exists>e. quote_unit c = [92, e] \<and> map_of HEX_ESCAPES e = None \<and> map_of YAML_ESCAPES e = Some c \<and> \<not> line_break e"
    by (auto simp: quote_unit_def HEX_ESCAPES_def YAML_ESCAPES_def line_break_def)
  with that(2) show ?thesis by blast
next
  case False
  then have "quote_unit c = [c] \<or> quote_unit c = unicode_escape c" by (auto simp: quote_unit_def)
  with False that(1,3) show ?thesis by blast
qed

lemma unicode_escape_not: "unicode_escape c \<noteq> [c]"
  by (simp add: unicode_escape_units)

lemma shown_unit_cases:
  obtains "shown_point [c] = [c]" "c \<noteq> 34" "c \<noteq> 92"
  | e where "shown_point [c] = [92, e]" "map_of HEX_ESCAPES e = None" "map_of YAML_ESCAPES e = Some c" "\<not> line_break e"
  | "shown_point [c] = unicode_escape c"
proof (cases rule: quote_unit_cases [of c])
  case 1
  with that(1,3) show ?thesis by (cases "staysEscaped c") (simp_all add: shown_point_def escape_point_def)
next
  case (2 e)
  with that(2) show ?thesis by (simp add: shown_point_def)
next
  case 3
  with that(3) show ?thesis by (simp add: shown_point_def unicode_escape_not)
qed

lemma shown_point_body:
  assumes "whole_point p" "r \<noteq> []"
  shows "double_body (shown_point p @ r) = map_option (\<lambda>(b, x). (shown_point p @ b, x)) (double_body r)"
  using assms(1)
proof (cases rule: whole_cases)
  case (1 c)
  show ?thesis
    unfolding 1(1)
  proof (cases rule: shown_unit_cases [of c])
    case (2 e)
    with double_body_escape show "double_body (shown_point [c] @ r) = map_option (\<lambda>(b, x). (shown_point [c] @ b, x)) (double_body r)"
      by simp
  qed (use assms(2) in \<open>simp_all add: double_body_plain unicode_escape_body\<close>)
next
  case (2 h l)
  then have "h \<noteq> 34" "h \<noteq> 92" "l \<noteq> 34" "l \<noteq> 92" by (auto simp: high_surrogate_def low_surrogate_def)
  with 2(1) assms(2) show ?thesis
    by (cases "double_body r") (auto simp: shown_point_def double_body_plain simp del: double_body.simps)
qed

lemma shown_point_text:
  assumes "whole_point p" "list_all (\<lambda>c. c < 65536) p"
  shows "doubleQuotedText (shown_point p @ r) = map_option ((@) p) (doubleQuotedText r)"
  using assms(1)
proof (cases rule: whole_cases)
  case (1 c)
  have one: "(@) [c] = (#) c" by auto
  from assms(2) 1 have "c < 65536" by simp
  then show ?thesis
    unfolding 1(1) one
    by (cases rule: shown_unit_cases [of c])
      (simp_all add: doubleQuotedText_plain short_escape_text unicode_escape_text del: doubleQuotedText.simps)
next
  case (2 h l)
  then have "h \<noteq> 92" "l \<noteq> 92" by (auto simp: high_surrogate_def low_surrogate_def)
  with 2(1) show ?thesis by (cases "doubleQuotedText r") (simp_all add: shown_point_def doubleQuotedText_plain del: doubleQuotedText.simps)
qed

lemma shown_points_body:
  "list_all whole_point ps \<Longrightarrow> double_body (concat (map shown_point ps) @ [34]) = Some (concat (map shown_point ps), [])"
  by (induction ps) (simp_all add: shown_point_body)

lemma shown_points_text:
  "list_all whole_point ps \<Longrightarrow> list_all (list_all (\<lambda>c. c < 65536)) ps \<Longrightarrow> doubleQuotedText (concat (map shown_point ps)) = Some (concat ps)"
  by (induction ps) (simp_all add: shown_point_text)

lemma savedText_quoted:
  "list_all whole_point ps \<Longrightarrow> list_all (list_all (\<lambda>c. c < 65536)) ps \<Longrightarrow> savedText (34 # concat (map shown_point ps) @ [34]) = concat ps"
  by (simp add: savedText_def DOUBLE_QUOTED_def shown_points_body comment_tail_def shown_points_text)

end
