(* ===== verification/Secret_Props.thy ===== *)
theory Secret_Props
  imports Secret_Quotes
begin

text \<open>
  The Secret window keeps a Secret's bytes (\<open>Secret_Yaml\<close>): what it shows of a value is saved as that value, for one value and for the
  whole text the server sends.
\<close>

section \<open>One value\<close>

lemma line_break_ws: "line_break c \<Longrightarrow> ws_unit c"
  by (auto simp: line_break_def ws_unit_def)

lemma utrim_ends:
  assumes "s \<noteq> []"
  shows "utrim s = s \<longleftrightarrow> \<not> ws_unit (hd s) \<and> \<not> ws_unit (last s)"
proof (cases "ws_unit (hd s)")
  case True
  with assms obtain c r where s: "s = c # r" "ws_unit c" by (cases s) auto
  have "length (utrim s) \<le> length r"
    using s order_trans [OF length_dropWhile_le [of ws_unit "rev (dropWhile ws_unit r)"]] length_dropWhile_le [of ws_unit r]
    by (simp add: utrim_def utrim_end_def utrim_start_def)
  with s have "utrim s \<noteq> s" by auto
  with True show ?thesis by simp
next
  case False
  with assms have "utrim_start s = s" by (cases s) (auto simp: utrim_start_def)
  moreover from assms obtain b c where "s = b @ [c]" by (cases s rule: rev_cases) auto
  moreover have "length (dropWhile ws_unit (rev b)) \<noteq> length (b @ [c])" using length_dropWhile_le [of ws_unit "rev b"] by simp
  then have "rev (dropWhile ws_unit (rev b)) \<noteq> b @ [c]" using length_rev by metis
  ultimately show ?thesis using False by (simp add: utrim_def utrim_end_def)
qed

lemma units_of_bound: "p \<le> 1114111 \<Longrightarrow> list_all (\<lambda>c. c < 65536) (units_of p)"
  by (auto simp: units_of_def)

lemma utf8_point_bound: "utf8_point bs = Some (p, t) \<Longrightarrow> p \<le> 1114111"
  by (auto simp: utf8_point_def Let_def continuation_def point3_def split: list.splits if_splits)

lemma utf8_decode_units: "utf8_decode bs = Some s \<Longrightarrow> list_all (\<lambda>c. c < 65536) s"
proof (induction bs arbitrary: s rule: utf8_decode.induct)
  case (1 bs)
  show ?case
  proof (cases "bs = []")
    case True
    with 1 show ?thesis by (simp add: utf8_decode.simps)
  next
    case False
    with "1.prems" obtain p t s' where u: "utf8_point bs = Some (p, t)" "utf8_decode t = Some s'" "s = units_of p @ s'"
      by (subst (asm) utf8_decode.simps) (auto split: option.splits)
    then show ?thesis using "1.IH" [OF False u(1) refl u(2)] units_of_bound utf8_point_bound by simp
  qed
qed

lemma shown_point_line: "whole_point p \<Longrightarrow> 10 \<notin> set (shown_point p)"
proof (cases rule: whole_cases [of p])
  case (2 c)
  have h: "hex_digit x \<noteq> 10" for x by (simp add: hex_digit_def)
  show ?thesis
    unfolding 2
    by (auto simp: shown_point_def escape_point_def quote_unit_def unicode_escape_units h split: if_splits)
qed (auto simp: shown_point_def high_surrogate_def low_surrogate_def)

text \<open>A text the window shows on a line of its own: it has no line break and no space at its ends.\<close>

definition shown_ok :: "ustr \<Rightarrow> bool" where
  "shown_ok s \<longleftrightarrow> s \<noteq> [] \<and> \<not> ws_unit (hd s) \<and> \<not> ws_unit (last s) \<and> 10 \<notin> set s \<and> BLOCK_HEADER s = None"

text \<open>What is saved of a line's text.\<close>

definition saved_value :: "ustr \<Rightarrow> ustr" where
  "saved_value raw = (case BINARY_VALUE raw of Some b \<Rightarrow> b | None \<Rightarrow> encodedText (savedText raw))"

definition shown_of :: "ustr \<Rightarrow> ustr" where
  "shown_of v = (case shownValue v of None \<Rightarrow> v | Some s \<Rightarrow> s)"

text \<open>A value as the server writes it: the mask of an empty one, or base64 on one line.\<close>

definition server_value :: "ustr \<Rightarrow> bool" where
  "server_value v \<longleftrightarrow> v = [34, 34] \<or> v \<noteq> [] \<and> \<not> list_ex ws_unit v \<and> atob v \<noteq> None"

lemma ws_facts: "ws_unit 32" "ws_unit 10" "\<not> ws_unit 33" "\<not> ws_unit 34" "\<not> ws_unit 35"
  by (simp_all add: ws_unit_def)

lemma drop_ws: "\<not> ws_unit c \<Longrightarrow> dropWhile ws_unit (c # s) = c # s"
  by simp

lemma binary_shown:
  assumes "v \<noteq> []" "\<not> list_ex ws_unit v"
  shows "shown_ok (BINARY_TAG @ [32] @ v) \<and> saved_value (BINARY_TAG @ [32] @ v) = v"
proof -
  have tag: "BINARY_TAG = [33, 33, 98, 105, 110, 97, 114, 121]" by (simp add: BINARY_TAG_def u_def)
  have v: "\<And>c. c \<in> set v \<Longrightarrow> \<not> ws_unit c" using assms by (auto simp: list_ex_iff)
  then have t: "takeWhile (\<lambda>c. \<not> ws_unit c) v = v" "dropWhile ws_unit v = v"
    using assms(1) by (auto simp: takeWhile_eq_all_conv dropWhile_eq_self_iff)
  have "10 \<notin> set v" "\<not> ws_unit (last v)" using v ws_facts assms(1) by auto
  then have "shown_ok (BINARY_TAG @ [32] @ v)" by (simp add: tag shown_ok_def assms BLOCK_HEADER_def ws_facts)
  moreover have "BINARY_VALUE (BINARY_TAG @ [32] @ v) = Some v"
    by (simp add: BINARY_VALUE_def tag startsWith_def ws_facts t comment_tail_def assms Let_def)
  ultimately show ?thesis by (simp add: saved_value_def)
qed

lemma strip_comment_plain: "35 \<notin> set s \<Longrightarrow> strip_comment s = s"
proof (induction s)
  case (Cons c s)
  have "\<not> comment_tail (c # s)" if "ws_unit c"
  proof -
    have "set (dropWhile ws_unit (c # s)) \<subseteq> set (c # s)" using set_dropWhileD by fastforce
    with Cons.prems have "35 \<notin> set (dropWhile ws_unit (c # s))" by blast
    then show ?thesis by (simp add: comment_tail_def split: list.split) auto
  qed
  with Cons show ?case by auto
qed simp

lemma plain_shown:
  assumes "readsPlainly w"
  shows "shown_ok w \<and> saved_value w = btoa (utf8_encode w)"
proof -
  from assms have a: "w \<noteq> []" "utrim w = w" "\<not> list_ex (\<lambda>c. c \<in> {58, 35, 34, 39}) w" "\<not> startsWith w BINARY_TAG"
      "BLOCK_HEADER w = None" and p: "\<not> list_ex (\<lambda>p. hd p < 32 \<or> staysEscaped (hd p)) (code_points w)"
    unfolding readsPlainly_def by metis+
  from a(3) have q: "35 \<notin> set w" "34 \<notin> set w" "39 \<notin> set w" by (auto simp: list_ex_iff)
  have "10 \<in> set s \<Longrightarrow> \<exists>p\<in>set (code_points s). hd p < 32" for s
    by (induction s rule: code_points.induct) (auto simp: low_surrogate_def high_surrogate_def split: if_splits)
  with p have "10 \<notin> set w" by (auto simp: list_ex_iff)
  with a(1,2,5) have ok: "shown_ok w" using utrim_ends [of w] by (simp add: shown_ok_def)
  from a(1) obtain c r where t: "w = c # r" by (cases w) auto
  with q have "DOUBLE_QUOTED w = None" "SINGLE_QUOTED w = None" by (auto simp: DOUBLE_QUOTED_def SINGLE_QUOTED_def)
  then have "savedText w = w" using q(1) by (simp add: savedText_def strip_comment_plain)
  moreover have "BINARY_VALUE w = None" using a(4) by (simp add: BINARY_VALUE_def Let_def)
  ultimately show ?thesis using ok a(1) by (simp add: saved_value_def encodedText_def)
qed

lemma quoted_shown:
  assumes "list_all whole_point (code_points w)" "list_all (\<lambda>c. c < 65536) w" "w \<noteq> []"
  defines "s \<equiv> concat (map escape_point (code_points (json_quote w)))"
  shows "shown_ok s \<and> saved_value s = btoa (utf8_encode w)"
proof -
  let ?ps = "code_points w"
  have s: "s = 34 # concat (map shown_point ?ps) @ [34]" unfolding s_def using shown_quoted [OF assms(1)] by simp
  have "list_all (list_all (\<lambda>c. c < 65536)) ?ps"
    using assms(2) set_concat [of ?ps] by (auto simp: list_all_iff)
  then have "savedText s = w" using savedText_quoted [OF assms(1)] by (simp add: s)
  moreover have "BINARY_VALUE s = None" by (simp add: BINARY_VALUE_def Let_def s startsWith_def BINARY_TAG_def u_def)
  moreover have "10 \<notin> set s" using shown_point_line assms(1) by (auto simp: s list_all_iff)
  then have "shown_ok s" by (simp add: shown_ok_def s ws_facts BLOCK_HEADER_def)
  ultimately show ?thesis using assms(3) by (simp add: saved_value_def encodedText_def)
qed

lemma value_kept:
  assumes "server_value v"
  shows "shown_ok (shown_of v) \<and> saved_value (shown_of v) = v"
proof (cases "v = [34, 34]")
  case True
  have "atob [34, 34] = None" by (simp add: atob_def drop_padding_def ascii_ws_def b64_value_def)
  then have "shown_of [34, 34] = [34, 34]" by (simp add: shown_of_def shownValue_def)
  with True show ?thesis
    by (simp add: shown_ok_def ws_facts BLOCK_HEADER_def saved_value_def BINARY_VALUE_def startsWith_def BINARY_TAG_def u_def
        savedText_def DOUBLE_QUOTED_def comment_tail_def encodedText_def)
next
  case False
  with assms obtain bytes where v: "v \<noteq> []" "\<not> list_ex ws_unit v" "atob v = Some bytes" by (auto simp: server_value_def)
  show ?thesis
  proof (cases "if btoa bytes = v then lettersOf bytes else None")
    case None
    with v have "shown_of v = BINARY_TAG @ [32] @ v" by (simp add: shown_of_def shownValue_def)
    then show ?thesis using binary_shown v by simp
  next
    case (Some w)
    then have b: "btoa bytes = v" and "lettersOf bytes = Some w" by (simp_all split: if_splits)
    then have d: "utf8_decode bytes = Some w" by (auto simp: lettersOf_def split: option.splits if_splits)
    then have e: "utf8_encode w = bytes" by (rule utf8_encode_decode)
    then have "w \<noteq> []" using b v by (auto simp: utf8_encode_def)
    then show ?thesis
      using Some v b e plain_shown [of w] quoted_shown [OF utf8_decode_whole [OF d] utf8_decode_units [OF d]]
      by (simp add: shown_of_def shownValue_def)
  qed
qed

section \<open>The whole text\<close>

text \<open>A key as a Secret has it, its line, and the text of a Secret with its \<^verbatim>\<open>data\<close>.\<close>

definition plain_key :: "ustr \<Rightarrow> bool" where
  "plain_key k \<longleftrightarrow> k \<noteq> [] \<and> list_all (\<lambda>c. \<not> ws_unit c \<and> c \<noteq> 58) k"

definition entry_line :: "nat \<Rightarrow> ustr \<times> ustr \<Rightarrow> ustr" where
  "entry_line n e = replicate n 32 @ fst e @ [58, 32] @ snd e"

definition secret_text :: "string \<Rightarrow> ustr list \<Rightarrow> nat \<Rightarrow> (ustr \<times> ustr) list \<Rightarrow> ustr list \<Rightarrow> ustr" where
  "secret_text name front n entries rear = ujoin nl (front @ [u (name @ '':'')] @ map (entry_line n) entries @ rear)"

definition other_line :: "ustr \<Rightarrow> bool" where
  "other_line l \<longleftrightarrow> 10 \<notin> set l \<and> \<not> section_line ''data'' l \<and> \<not> section_line ''stringData'' l"

text \<open>The lines after the entries leave the block: the first has letters and no space before them.\<close>

definition leaves_block :: "ustr list \<Rightarrow> bool" where
  "leaves_block rear \<longleftrightarrow> rear = [] \<or> hd rear \<noteq> [] \<and> \<not> ws_unit (hd (hd rear))"

lemma split_ujoin: "ls \<noteq> [] \<Longrightarrow> list_all (\<lambda>l. 10 \<notin> set l) ls \<Longrightarrow> split 10 (ujoin nl ls) = ls"
proof (induction ls)
  case (Cons l ls)
  then show ?case by (cases ls) (simp_all add: split_single split_append_sep)
qed simp

lemma key_value_plain:
  "list_all (\<lambda>c. \<not> ws_unit c \<and> c \<noteq> 58) k \<Longrightarrow> key @ k \<noteq> [] \<Longrightarrow> last_part s = Some v \<Longrightarrow>
    key_value last_part key (k @ 58 # s) = Some (key @ k, v)"
  by (induction k arbitrary: key) simp_all

lemma entry_line_split:
  assumes "n > 0" "plain_key k" "last_part (32 # v) = Some w"
  shows "split_line last_part (entry_line n (k, v)) = Some (replicate n 32, k, w)"
proof -
  from assms(2) obtain c r where k: "k = c # r" "\<not> ws_unit c" by (cases k) (auto simp: plain_key_def)
  have i: "takeWhile ws_unit (replicate n 32 @ s) = replicate n 32 @ takeWhile ws_unit s"
    "dropWhile ws_unit (replicate n 32 @ s) = dropWhile ws_unit s" for s
    by (induction n) (simp_all add: ws_facts)
  have "key_value last_part [] (k @ 58 # 32 # v) = Some (k, w)"
    using key_value_plain [of k "[]" last_part "32 # v" w] assms by (simp add: plain_key_def)
  then show ?thesis using assms(1) k by (simp add: split_line_def entry_line_def i)
qed

lemma entry_line_section: "n > 0 \<Longrightarrow> \<not> section_line ''data'' (entry_line n e) \<and> \<not> section_line ''stringData'' (entry_line n e)"
  by (cases n) (simp_all add: section_line_def startsWith_def entry_line_def u_def)

lemma name_section: "section_line name (u (name @ '':''))"
  by (simp add: section_line_def startsWith_def u_def)

lemma decode_others: "list_all other_line ls \<Longrightarrow> decode_lines False i (ls @ rest) = ls @ decode_lines False i rest"
  by (induction ls) (simp_all add: other_line_def entry_of_def stays_in_def)

lemma encode_others: "list_all other_line ls \<Longrightarrow> encode_lines False i (ls @ rest) = ls @ encode_lines False i rest"
  by (induction ls) (simp_all add: other_line_def entry_of_def stays_in_def)

lemma leaves_block_line:
  assumes "l \<noteq> []" "\<not> ws_unit (hd l)"
  shows "entry_of last_part b i l = None" "\<not> stays_in b l"
proof -
  from assms obtain c r where "l = c # r" "\<not> ws_unit c" by (cases l) auto
  then show "entry_of last_part b i l = None" "\<not> stays_in b l"
    using ws_facts by (auto simp: entry_of_def split_line_def stays_in_def startsWith_def)
qed

lemma rear_kept:
  assumes "list_all other_line rear" "leaves_block rear"
  shows "decode_lines b i rear = rear" "encode_lines b i rear = rear"
proof -
  have "decode_lines b i rear = rear \<and> encode_lines b i rear = rear"
  proof (cases rear)
    case (Cons l ls)
    with assms have "l \<noteq> []" "\<not> ws_unit (hd l)" by (simp_all add: leaves_block_def)
    with Cons assms(1) show ?thesis
      using leaves_block_line [of l] decode_others [of ls _ "[]"] encode_others [of ls _ "[]"] by (simp add: other_line_def)
  qed simp
  then show "decode_lines b i rear = rear" "encode_lines b i rear = rear" by simp_all
qed

lemma data_part_value:
  assumes "server_value v"
  shows "data_part (32 # v) = Some v" "utrim v = v"
proof -
  have v: "v \<noteq> []" "\<And>c. c \<in> set v \<Longrightarrow> \<not> ws_unit c" using assms by (auto simp: server_value_def list_ex_iff ws_facts)
  then have "dropWhile ws_unit (32 # v) = v" by (cases v) (auto simp: ws_facts)
  moreover have "\<not> list_ex line_break v" using v line_break_ws by (auto simp: list_ex_iff)
  ultimately show "data_part (32 # v) = Some v" using v(1) by (simp add: data_part_def Let_def)
  show "utrim v = v" using v utrim_ends [of v] by simp
qed

lemma string_part_shown:
  assumes "shown_ok s"
  shows "string_part (32 # s) = Some s" "utrim s = s"
proof -
  from assms have "s \<noteq> []" "\<not> ws_unit (hd s)" "\<not> ws_unit (last s)" "10 \<notin> set s" by (auto simp: shown_ok_def)
  moreover from this have "dropWhile ws_unit (32 # s) = s" by (cases s) (auto simp: ws_facts)
  ultimately show "string_part (32 # s) = Some s" "utrim s = s" using utrim_ends [of s] by (simp_all add: string_part_def Let_def)
qed

text \<open>The entries of a block, shown and saved.\<close>

lemma decode_entries:
  assumes "n > 0" "list_all (\<lambda>(k, v). plain_key k \<and> server_value v) es" "i = None \<or> i = Some n"
  shows "\<exists>j. decode_lines True i (map (entry_line n) es @ rest) = map (entry_line n) (map (apsnd shown_of) es) @ decode_lines True j rest"
  using assms(2,3)
proof (induction es arbitrary: i)
  case (Cons e es)
  obtain k v where e: "e = (k, v)" by (cases e)
  with Cons.prems have kv: "plain_key k" "server_value v" by simp_all
  from entry_line_split [where last_part = data_part and w = v, OF assms(1) kv(1) data_part_value(1) [OF kv(2)]] Cons.prems(2)
  have "entry_of data_part True i (entry_line n e) = Some (replicate n 32, k, v)" by (auto simp: entry_of_def e)
  moreover have "\<not> section_line ''data'' (entry_line n e)" using entry_line_section [OF assms(1)] by simp
  moreover have "(case shownValue (utrim v) of None \<Rightarrow> entry_line n (k, v) | Some s \<Rightarrow> replicate n 32 @ k @ [58, 32] @ s) = entry_line n (k, shown_of v)"
    by (simp add: data_part_value(2) [OF kv(2)] shown_of_def entry_line_def split: option.split)
  moreover obtain j where "decode_lines True (Some n) (map (entry_line n) es @ rest) =
      map (entry_line n) (map (apsnd shown_of) es) @ decode_lines True j rest" using Cons by auto
  ultimately show ?case by (intro exI [of _ j]) (simp add: e)
qed auto

lemma encode_entries:
  assumes "n > 0" "list_all (\<lambda>(k, v). plain_key k \<and> shown_ok v) es" "i = None \<or> i = Some n"
  shows "\<exists>j. encode_lines True i (map (entry_line n) es @ rest) = map (entry_line n) (map (apsnd saved_value) es) @ encode_lines True j rest"
  using assms(2,3)
proof (induction es arbitrary: i)
  case (Cons e es)
  obtain k v where e: "e = (k, v)" by (cases e)
  with Cons.prems have kv: "plain_key k" "shown_ok v" by simp_all
  from entry_line_split [where last_part = string_part and w = v, OF assms(1) kv(1) string_part_shown(1) [OF kv(2)]] Cons.prems(2)
  have "entry_of string_part True i (entry_line n e) = Some (replicate n 32, k, v)" by (auto simp: entry_of_def e)
  moreover have "\<not> section_line ''stringData'' (entry_line n e)" using entry_line_section [OF assms(1)] by simp
  moreover have "v \<noteq> []" "BLOCK_HEADER v = None" using kv(2) by (simp_all add: shown_ok_def)
  moreover have "entry_line n (k, saved_value v) = replicate n 32 @ k @ [58, 32] @ saved_value v" by (simp add: entry_line_def)
  moreover obtain j where "encode_lines True (Some n) (map (entry_line n) es @ rest) =
      map (entry_line n) (map (apsnd saved_value) es) @ encode_lines True j rest" using Cons by auto
  ultimately show ?case
    by (intro exI [of _ j]) (simp add: e string_part_shown(2) [OF kv(2)] flip: saved_value_def)
qed auto

lemma entry_line_break: "plain_key k \<Longrightarrow> 10 \<notin> set v \<Longrightarrow> 10 \<notin> set (entry_line n (k, v))"
  by (auto simp: entry_line_def plain_key_def list_all_iff ws_facts)

lemma other_lines_break: "list_all other_line ls \<Longrightarrow> list_all (\<lambda>l. 10 \<notin> set l) ls"
  by (simp add: list_all_iff other_line_def)

lemma server_value_break: "server_value v \<Longrightarrow> 10 \<notin> set v"
  by (auto simp: server_value_def list_ex_iff ws_facts)

lemma secret_split:
  assumes "list_all other_line front" "list_all other_line rear" "list_all (\<lambda>(k, v). plain_key k \<and> 10 \<notin> set v) es" "10 \<notin> set (u name)"
  shows "split 10 (secret_text name front n es rear) = front @ [u (name @ '':'')] @ map (entry_line n) es @ rear"
proof -
  have "10 \<notin> set (u (name @ '':''))" using assms(4) by (simp add: u_def)
  moreover have "list_all (\<lambda>l. 10 \<notin> set l) (map (entry_line n) es)"
    using assms(3) entry_line_break by (fastforce simp: list_all_iff)
  ultimately show ?thesis
    unfolding secret_text_def using other_lines_break assms(1,2) by (intro split_ujoin) simp_all
qed

lemma decode_secret_text:
  assumes "n > 0" "list_all other_line front" "list_all other_line rear" "leaves_block rear"
    "list_all (\<lambda>(k, v). plain_key k \<and> server_value v) es"
  shows "decodeSecretYaml (secret_text ''data'' front n es rear) = secret_text ''stringData'' front n (map (apsnd shown_of) es) rear"
proof -
  have "list_all (\<lambda>(k, v). plain_key k \<and> 10 \<notin> set v) es" using assms(5) server_value_break by (fastforce simp: list_all_iff)
  moreover have "10 \<notin> set (u ''data'')" by (simp add: u_def)
  ultimately have s: "split 10 (secret_text ''data'' front n es rear) = front @ [u (''data'' @ '':'')] @ map (entry_line n) es @ rear"
    using assms(2,3) by (intro secret_split)
  have d: "section_line ''data'' (u ''data:'')" using name_section [of "''data''"] by simp
  show ?thesis
    using decode_entries [OF assms(1,5), of None rear] rear_kept(1) [OF assms(3,4)]
    unfolding decodeSecretYaml_def s decode_others [OF assms(2)] by (auto simp: secret_text_def d)
qed

lemma encode_secret_text:
  assumes "n > 0" "list_all other_line front" "list_all other_line rear" "leaves_block rear"
    "list_all (\<lambda>(k, v). plain_key k \<and> shown_ok v) es"
  shows "encodeSecretYaml (secret_text ''stringData'' front n es rear) = secret_text ''data'' front n (map (apsnd saved_value) es) rear"
proof -
  have "list_all (\<lambda>(k, v). plain_key k \<and> 10 \<notin> set v) es" using assms(5) by (fastforce simp: list_all_iff shown_ok_def)
  moreover have "10 \<notin> set (u ''stringData'')" by (simp add: u_def)
  ultimately have s: "split 10 (secret_text ''stringData'' front n es rear) =
      front @ [u (''stringData'' @ '':'')] @ map (entry_line n) es @ rear"
    using assms(2,3) by (intro secret_split)
  have d: "section_line ''stringData'' (u ''stringData:'')" using name_section [of "''stringData''"] by simp
  show ?thesis
    using encode_entries [OF assms(1,5), of None rear] rear_kept(2) [OF assms(3,4)]
    unfolding encodeSecretYaml_def s encode_others [OF assms(2)] by (auto simp: secret_text_def d)
qed

lemma shown_entries:
  assumes "list_all (\<lambda>(k, v). plain_key k \<and> server_value v) es"
  shows "list_all (\<lambda>(k, v). plain_key k \<and> shown_ok v) (map (apsnd shown_of) es)"
    "map (apsnd saved_value) (map (apsnd shown_of) es) = es"
  using assms value_kept by (induction es) auto


text \<open>A window with a plain value, one that must be quoted, a binary one and the mask.\<close>

definition secret_entries :: "(ustr \<times> ustr) list" where
  "secret_entries = [(u ''user'', u ''YWRtaW4=''), (u ''note'', u ''YTogYg==''), (u ''key'', u ''//79''), (u ''none'', [34, 34])]"


text \<open>A value the server itself must quote is not recognised as base64: it is left as it is, and saved as the text it looks like.\<close>

lemma quoted_number_changes:
  "shownValue ([34] @ u ''1234'' @ [34]) = None \<and> saved_value ([34] @ u ''1234'' @ [34]) = u ''MTIzNA==''"
proof -
  have "code_points [49, 50, 51, 52] = [[49], [50], [51], [52]]" by (simp add: high_surrogate_def)
  then show ?thesis
    by (simp add: shownValue_def atob_def drop_padding_def ascii_ws_def Let_def b64_value_def u_def saved_value_def BINARY_VALUE_def
        BINARY_TAG_def startsWith_def savedText_def DOUBLE_QUOTED_def comment_tail_def encodedText_def utf8_encode_def
        high_surrogate_def low_surrogate_def utf8_bytes_def b64_unit_def)
qed

end
