(* ===== verification/AI_Layers.thy ===== *)
theory AI_Layers
  imports Secret_Bytes
begin

text \<open>
  What the screens tell the floating chat: a layer per component (\<^verbatim>\<open>frontend/src/hooks/useAIContext.ts\<close>) that is compared with the one
  before (\<^verbatim>\<open>utils/aiContext/equalLayer.ts\<close>), kept within its budget (\<^verbatim>\<open>tokenBudget.ts\<close>), registered at most every 200 ms
  (\<^verbatim>\<open>throttle.ts\<close>) and read when a question is sent (\<^verbatim>\<open>components/PageContextProvider.tsx\<close>), unless the screen is private
  (\<^verbatim>\<open>privateScreens.ts\<close>). Times are milliseconds.
\<close>

section \<open>JSON and its size\<close>

text \<open>
  \<^verbatim>\<open>JSON.stringify(v)\<close> of a value, where \<^verbatim>\<open>undefined\<close> has no text, and \<^verbatim>\<open>new Blob([JSON.stringify(v)]).size\<close>. The names
  in a layer are words, not array indices, so the property list is in the order JavaScript reads it.
\<close>

fun json_text :: "cval \<Rightarrow> ustr" where
  "json_text CUndef = []"
| "json_text CNull = u ''null''"
| "json_text (CBool b) = (if b then u ''true'' else u ''false'')"
| "json_text (CNum n) = u (show_int n)"
| "json_text (CStr s) = json_quote s"
| "json_text (CArr xs) = [91] @ ujoin [44] (map (\<lambda>x. if x = CUndef then u ''null'' else json_text x) xs) @ [93]"
| "json_text (CObj kvs) =
     [123] @ ujoin [44] (concat (map (\<lambda>(k, x). if x = CUndef then [] else [json_quote k @ [58] @ json_text x]) kvs)) @ [125]"

definition byte_size :: "cval \<Rightarrow> nat" where
  "byte_size v = length (utf8_encode (json_text v))"

section \<open>A layer and its budget\<close>

record layer =
  l_source :: ustr
  l_summary :: ustr
  l_data :: cval

definition layer_value :: "layer \<Rightarrow> cval" where
  "layer_value l = CObj [(u ''source'', CStr (l_source l)), (u ''summary'', CStr (l_summary l)), (u ''data'', l_data l)]"

definition equalLayer :: "layer \<Rightarrow> layer \<Rightarrow> bool" where
  "equalLayer a b \<longleftrightarrow> json_text (layer_value a) = json_text (layer_value b)"

definition MAX_LAYER_BYTES :: nat where
  "MAX_LAYER_BYTES = 8192"

definition MAX_SUMMARY_LEN :: nat where
  "MAX_SUMMARY_LEN = 300"

text \<open>The loop over the keys: each array in turn keeps its first half, until the object is small enough.\<close>

definition first_half :: "cval list \<Rightarrow> cval list" where
  "first_half xs = take (max 1 (length xs div 2)) xs"

fun halve_arrays :: "nat \<Rightarrow> ustr list \<Rightarrow> (ustr \<times> cval) list \<Rightarrow> (ustr \<times> cval) list option" where
  "halve_arrays maxBytes [] result = None"
| "halve_arrays maxBytes (k # ks) result = (case map_of result k of
      Some (CArr xs) \<Rightarrow>
        (let result' = AList.update k (CArr (first_half xs)) result in
         if byte_size (CObj result') \<le> maxBytes then Some result' else halve_arrays maxBytes ks result')
    | _ \<Rightarrow> halve_arrays maxBytes ks result)"

fun own_props :: "cval \<Rightarrow> (ustr \<times> cval) list" where
  "own_props (CObj kvs) = kvs"
| "own_props _ = []"

definition cut_to_summary :: "cval \<Rightarrow> cval" where
  "cut_to_summary v =
     CObj [(u ''__truncated__'', CBool True), (u ''summary'', if cnullish (cget v ''summary'') then CNull else cget v ''summary'')]"

definition truncateData :: "cval \<Rightarrow> nat \<Rightarrow> cval" where
  "truncateData v maxBytes = (case halve_arrays maxBytes (map fst (own_props v)) (own_props v) of
      Some result \<Rightarrow> CObj result
    | None \<Rightarrow> cut_to_summary v)"

definition enforceTokenBudget :: "layer \<Rightarrow> layer" where
  "enforceTokenBudget l = l\<lparr>
     l_summary := if length (l_summary l) > MAX_SUMMARY_LEN then take (MAX_SUMMARY_LEN - 1) (l_summary l) @ [8230] else l_summary l,
     l_data := if ctruthy (l_data l) \<and> byte_size (l_data l) > MAX_LAYER_BYTES then truncateData (l_data l) MAX_LAYER_BYTES else l_data l\<rparr>"

section \<open>At most one call in a while\<close>

record 'a throttled =
  lastCall :: int
  pendingArgs :: "'a option"
  due :: "int option"

definition throttle :: "'a throttled" where
  "throttle = \<lparr>lastCall = 0, pendingArgs = None, due = None\<rparr>"

text \<open>A call, the end of the timer and \<^verbatim>\<open>cancel\<close>; the arguments the function is called with, if it is, come first.\<close>

definition throttled_call :: "int \<Rightarrow> int \<Rightarrow> 'a \<Rightarrow> 'a throttled \<Rightarrow> 'a option \<times> 'a throttled" where
  "throttled_call waitMs now args t =
     (let remaining = waitMs - (now - lastCall t) in
      if remaining \<le> 0 then (Some args, t\<lparr>due := None, lastCall := now\<rparr>)
      else (None, t\<lparr>pendingArgs := Some args, due := (case due t of None \<Rightarrow> Some (now + remaining) | Some d \<Rightarrow> Some d)\<rparr>))"

definition throttled_timer :: "int \<Rightarrow> 'a throttled \<Rightarrow> 'a option \<times> 'a throttled" where
  "throttled_timer now t = (case pendingArgs t of
      None \<Rightarrow> (None, t\<lparr>due := None\<rparr>)
    | Some a \<Rightarrow> (Some a, t\<lparr>due := None, pendingArgs := None, lastCall := now\<rparr>))"

definition throttled_cancel :: "'a throttled \<Rightarrow> 'a throttled" where
  "throttled_cancel t = t\<lparr>due := None, pendingArgs := None, lastCall := 0\<rparr>"

section \<open>The page's layers\<close>

text \<open>A component's \<open>useAIContext\<close>: the layer it showed last and its throttled call, and the page's \<^verbatim>\<open>Map\<close> of layers by id.\<close>

definition THROTTLE_MS :: int where
  "THROTTLE_MS = 200"

record shower =
  lastLayer :: "layer option"
  register :: "layer throttled"

record page =
  showers :: "nat \<Rightarrow> shower"
  layers :: "(nat \<times> layer) list"

definition empty_page :: page where
  "empty_page = \<lparr>showers = (\<lambda>_. \<lparr>lastLayer = None, register = throttle\<rparr>), layers = []\<rparr>"

definition registerLayer :: "nat \<Rightarrow> layer \<Rightarrow> (nat \<times> layer) list \<Rightarrow> (nat \<times> layer) list" where
  "registerLayer i l ls = AList.update i l ls"

definition unregisterLayer :: "nat \<Rightarrow> (nat \<times> layer) list \<Rightarrow> (nat \<times> layer) list" where
  "unregisterLayer i ls = AList.delete i ls"

text \<open>What a component passes: no source reads as \<^verbatim>\<open>base\<close>.\<close>

definition layer_of :: "ustr option \<Rightarrow> ustr \<Rightarrow> cval \<Rightarrow> layer" where
  "layer_of source summary v = \<lparr>l_source = (case source of None \<Rightarrow> u ''base'' | Some s \<Rightarrow> s), l_summary = summary, l_data = v\<rparr>"

text \<open>The effect of a component without input, which is also what runs when it goes.\<close>

definition show_nothing :: "nat \<Rightarrow> page \<Rightarrow> page" where
  "show_nothing i p = p\<lparr>showers := (showers p)(i := \<lparr>lastLayer = None, register = throttled_cancel (register (showers p i))\<rparr>),
     layers := unregisterLayer i (layers p)\<rparr>"

definition called :: "nat \<Rightarrow> layer option \<Rightarrow> (nat \<times> layer) list \<Rightarrow> (nat \<times> layer) list" where
  "called i out ls = (case out of None \<Rightarrow> ls | Some l \<Rightarrow> registerLayer i l ls)"

definition show_layer :: "nat \<Rightarrow> int \<Rightarrow> layer \<Rightarrow> page \<Rightarrow> page" where
  "show_layer i now next p =
     (let s = showers p i in
      if (case lastLayer s of None \<Rightarrow> False | Some l \<Rightarrow> equalLayer l next) then p
      else (case throttled_call THROTTLE_MS now (enforceTokenBudget next) (register s) of (out, t) \<Rightarrow>
        p\<lparr>showers := (showers p)(i := \<lparr>lastLayer = Some next, register = t\<rparr>), layers := called i out (layers p)\<rparr>))"

definition timer_ends :: "nat \<Rightarrow> int \<Rightarrow> page \<Rightarrow> page" where
  "timer_ends i now p = (case throttled_timer now (register (showers p i)) of (out, t) \<Rightarrow>
     p\<lparr>showers := (showers p)(i := (showers p i)\<lparr>register := t\<rparr>), layers := called i out (layers p)\<rparr>)"

text \<open>A component shows an input, shows nothing (or goes), or its timer ends, which it can only while it runs.\<close>

datatype page_event = Shows nat int layer | ShowsNothing nat | TimerEnds nat int

definition page_step :: "page_event \<Rightarrow> page \<Rightarrow> page" where
  "page_step e p = (case e of
      Shows i now l \<Rightarrow> show_layer i now l p
    | ShowsNothing i \<Rightarrow> show_nothing i p
    | TimerEnds i now \<Rightarrow> if due (register (showers p i)) = None then p else timer_ends i now p)"

definition page_run :: "page_event list \<Rightarrow> page" where
  "page_run es = fold page_step es empty_page"

section \<open>What a question takes along\<close>

definition READABLE_ADMIN_PATHS :: "string list" where
  "READABLE_ADMIN_PATHS = [''/admin/investigations'']"

definition under :: "string \<Rightarrow> string \<Rightarrow> bool" where
  "under path prefix \<longleftrightarrow> path = prefix \<or> startsWith path (prefix @ ''/'')"

definition isPrivateScreen :: "string \<Rightarrow> bool" where
  "isPrivateScreen path \<longleftrightarrow> under path ''/account'' \<or> under path ''/admin'' \<and> \<not> list_ex (under path) READABLE_ADMIN_PATHS"

definition isNotice :: "layer \<Rightarrow> bool" where
  "isNotice l \<longleftrightarrow> l_source l = u ''WatchProblemNotice''"

definition overlaysInOrder :: "layer list \<Rightarrow> layer list" where
  "overlaysInOrder ls = filter isNotice ls @ filter (\<lambda>l. \<not> isNotice l) ls"

definition getSnapshot :: "string \<Rightarrow> page \<Rightarrow> layer option \<times> layer list" where
  "getSnapshot path p =
     (let all = (if isPrivateScreen path then [] else map snd (layers p)) in
      (List.find (\<lambda>l. l_source l = u ''base'') all, overlaysInOrder (filter (\<lambda>l. l_source l \<noteq> u ''base'') all)))"

section \<open>The budget\<close>

text \<open>What a budget leaves of a value: all of it, or the first elements of its arrays.\<close>

definition shortened :: "cval \<Rightarrow> cval \<Rightarrow> bool" where
  "shortened x y \<longleftrightarrow> y = x \<or> (\<exists>xs n. x = CArr xs \<and> y = CArr (take n xs))"

lemma shortened_refl [simp]: "shortened x x"
  by (simp add: shortened_def)

lemma shortened_half: "shortened x (CArr xs) \<Longrightarrow> shortened x (CArr (first_half xs))"
  by (auto simp: shortened_def first_half_def)

lemma halve_arrays_result:
  "halve_arrays m ks r = Some r' \<Longrightarrow> list_all2 (\<lambda>(k, x) (k', y). k = k' \<and> shortened x y) kvs r \<Longrightarrow> distinct (map fst kvs) \<Longrightarrow>
    byte_size (CObj r') \<le> m \<and> list_all2 (\<lambda>(k, x) (k', y). k = k' \<and> shortened x y) kvs r'"
proof (induction ks arbitrary: r)
  case (Cons k ks)
  show ?case
  proof (cases "\<exists>xs. map_of r k = Some (CArr xs)")
    case True
    then obtain xs where xs: "map_of r k = Some (CArr xs)" by blast
    have "list_all2 (\<lambda>(k, x) (k', y). k = k' \<and> shortened x y) kvs (AList.update k (CArr (first_half xs)) r)"
      using Cons.prems(2,3) xs
      by (induction kvs r rule: list_all2_induct) (auto split: if_splits intro: shortened_half simp: list_all2_iff)
    with Cons.IH Cons.prems xs show ?thesis by (auto simp: Let_def split: if_splits)
  next
    case False
    with Cons show ?thesis by (auto split: option.splits cval.splits)
  qed
qed simp

end
