(* ===== verification/AI_Props.thy ===== *)
theory AI_Props
  imports AI_Layers
begin

text \<open>
  What the floating chat is told (\<open>AI_Layers\<close>): a layer within its budget says only what its screen said, and the page's layers are those
  of the components on screen, the newest at the latest when its timer ends, and none on a private screen.
\<close>

section \<open>The inputs of a component\<close>

text \<open>What a component has shown since it last showed nothing, oldest first.\<close>

fun inputs :: "page_event list \<Rightarrow> nat \<Rightarrow> layer list" where
  "inputs es i = fold (\<lambda>e ls. case e of
      Shows j _ l \<Rightarrow> if j = i then ls @ [l] else ls
    | ShowsNothing j \<Rightarrow> if j = i then [] else ls
    | TimerEnds _ _ \<Rightarrow> ls) es []"

declare inputs.simps [simp del]

lemma inputs_simps:
  "inputs [] i = []"
  "inputs (es @ [Shows j t l]) i = (if j = i then inputs es i @ [l] else inputs es i)"
  "inputs (es @ [ShowsNothing j]) i = (if j = i then [] else inputs es i)"
  "inputs (es @ [TimerEnds j t]) i = inputs es i"
  by (simp_all add: inputs.simps)

lemma page_run_simps: "page_run [] = empty_page" "page_run (es @ [e]) = page_step e (page_run es)"
  by (simp_all add: page_run_def)

text \<open>
  A component's state after its inputs: without inputs nothing is registered and no timer runs; with inputs the layer kept is one of them
  that says what the newest says, and either it is registered or a timer runs that will register it, 200 ms after the last call.
\<close>

definition shower_ok :: "layer list \<Rightarrow> shower \<Rightarrow> layer option \<Rightarrow> bool" where
  "shower_ok ins s registered \<longleftrightarrow>
     (case lastLayer s of
        None \<Rightarrow> ins = [] \<and> registered = None \<and> due (register s) = None
      | Some l \<Rightarrow> ins \<noteq> [] \<and> l \<in> set ins \<and> equalLayer l (last ins) \<and>
          (case due (register s) of
             None \<Rightarrow> registered = Some (enforceTokenBudget l)
           | Some d \<Rightarrow> pendingArgs (register s) = Some (enforceTokenBudget l) \<and> d = lastCall (register s) + THROTTLE_MS \<and>
               (\<forall>r. registered = Some r \<longrightarrow> (\<exists>l'\<in>set ins. r = enforceTokenBudget l'))))"

lemma equalLayer_refl [simp]: "equalLayer l l"
  by (simp add: equalLayer_def)

lemma equalLayer_trans: "equalLayer a b \<Longrightarrow> equalLayer b c \<Longrightarrow> equalLayer a c"
  by (simp add: equalLayer_def)

definition page_ok :: "page_event list \<Rightarrow> page \<Rightarrow> bool" where
  "page_ok es p \<longleftrightarrow> distinct (map fst (layers p)) \<and> (\<forall>i. shower_ok (inputs es i) (showers p i) (map_of (layers p) i))"

lemma shower_registered:
  "shower_ok ins s registered \<Longrightarrow> registered = Some r \<Longrightarrow> \<exists>l\<in>set ins. r = enforceTokenBudget l"
  by (auto simp: shower_ok_def split: option.splits)

lemma called_simps [simp]: "called i None ls = ls" "called i (Some l) ls = AList.update i l ls"
  by (simp_all add: called_def registerLayer_def)

lemma show_layer_ok:
  assumes "page_ok es p"
  shows "page_ok (es @ [Shows i now l]) (show_layer i now l p)"
proof -
  let ?s = "showers p i"
  from assms have d: "distinct (map fst (layers p))" and ok: "\<And>j. shower_ok (inputs es j) (showers p j) (map_of (layers p) j)"
    by (simp_all add: page_ok_def)
  from ok [of i] have i: "shower_ok (inputs es i) ?s (map_of (layers p) i)" .
  show ?thesis
  proof (cases "case lastLayer ?s of None \<Rightarrow> False | Some l' \<Rightarrow> equalLayer l' l")
    case True
    then obtain l' where l': "lastLayer ?s = Some l'" "equalLayer l' l" by (auto split: option.splits)
    from i l' have "shower_ok (inputs es i @ [l]) ?s (map_of (layers p) i)"
      by (auto simp: shower_ok_def split: option.splits)
    with True d ok show ?thesis by (simp add: show_layer_def page_ok_def inputs_simps)
  next
    case False
    let ?t = "register ?s"
    show ?thesis
    proof (cases "THROTTLE_MS - (now - lastCall ?t) \<le> 0")
      case True
      with False have s: "show_layer i now l p = p\<lparr>showers := (showers p)(i := \<lparr>lastLayer = Some l, register = ?t\<lparr>due := None, lastCall := now\<rparr>\<rparr>),
          layers := AList.update i (enforceTokenBudget l) (layers p)\<rparr>"
        by (simp add: show_layer_def throttled_call_def Let_def)
      show ?thesis
        using d ok by (auto simp: s page_ok_def inputs_simps shower_ok_def distinct_update update_conv')
    next
      case late: False
      with False have s: "show_layer i now l p = p\<lparr>showers := (showers p)(i := \<lparr>lastLayer = Some l, register = ?t\<lparr>pendingArgs :=
          Some (enforceTokenBudget l), due := (case due ?t of None \<Rightarrow> Some (lastCall ?t + THROTTLE_MS) | Some d \<Rightarrow> Some d)\<rparr>\<rparr>)\<rparr>"
        by (simp add: show_layer_def throttled_call_def Let_def algebra_simps split: option.split)
      have "\<exists>l'\<in>set (inputs es i @ [l]). r = enforceTokenBudget l'" if "map_of (layers p) i = Some r" for r
        using shower_registered [OF i that] by auto
      moreover have "d = lastCall ?t + THROTTLE_MS" if "due ?t = Some d" for d
        using i that by (auto simp: shower_ok_def split: option.splits)
      ultimately have "shower_ok (inputs es i @ [l]) (showers (show_layer i now l p) i) (map_of (layers p) i)"
        by (auto simp: s shower_ok_def split: option.split)
      with d ok show ?thesis by (simp add: s page_ok_def inputs_simps)
    qed
  qed
qed

lemma show_nothing_ok: "page_ok es p \<Longrightarrow> page_ok (es @ [ShowsNothing i]) (show_nothing i p)"
  by (auto simp: page_ok_def show_nothing_def unregisterLayer_def inputs_simps shower_ok_def throttled_cancel_def distinct_delete delete_conv')

lemma timer_ends_ok:
  assumes "page_ok es p" "due (register (showers p i)) \<noteq> None"
  shows "page_ok (es @ [TimerEnds i now]) (timer_ends i now p)"
proof -
  let ?t = "register (showers p i)"
  from assms(1) have d: "distinct (map fst (layers p))" and ok: "\<And>j. shower_ok (inputs es j) (showers p j) (map_of (layers p) j)"
    by (simp_all add: page_ok_def)
  from ok [of i] assms(2) obtain l where l: "lastLayer (showers p i) = Some l" "l \<in> set (inputs es i)" "equalLayer l (last (inputs es i))"
      "pendingArgs ?t = Some (enforceTokenBudget l)" "inputs es i \<noteq> []"
    by (auto simp: shower_ok_def split: option.splits)
  then have s: "timer_ends i now p = p\<lparr>showers := (showers p)(i := (showers p i)\<lparr>register := ?t\<lparr>due := None, pendingArgs := None, lastCall := now\<rparr>\<rparr>),
      layers := AList.update i (enforceTokenBudget l) (layers p)\<rparr>"
    by (simp add: timer_ends_def throttled_timer_def)
  show ?thesis using d ok l by (auto simp: s page_ok_def inputs_simps shower_ok_def distinct_update update_conv')
qed

lemma page_run_ok: "page_ok es (page_run es)"
proof (induction es rule: rev_induct)
  case Nil
  show ?case by (simp add: page_run_simps empty_page_def page_ok_def inputs_simps shower_ok_def throttle_def)
next
  case (snoc e es)
  show ?case
  proof (cases e)
    case (TimerEnds i t)
    show ?thesis
    proof (cases "due (register (showers (page_run es) i)) = None")
      case True
      with snoc show ?thesis by (simp add: TimerEnds page_run_simps page_step_def page_ok_def inputs_simps)
    next
      case False
      with timer_ends_ok [OF snoc False, of t] show ?thesis by (simp add: TimerEnds page_run_simps page_step_def del: not_None_eq)
    qed
  qed (use snoc show_layer_ok show_nothing_ok in \<open>simp_all add: page_run_simps page_step_def\<close>)
qed

lemma page_run_shower: "shower_ok (inputs es i) (showers (page_run es) i) (map_of (layers (page_run es)) i)"
  using page_run_ok [of es] by (simp add: page_ok_def)

text \<open>
  C19: The page's layers follow the screens, whatever the components show and whenever their timers end: a component that shows nothing
  has no layer, and for one that shows something a layer that says what its newest input says (the same JSON) is registered, or will be
  when its timer ends, 200 ms after its last registration at the latest.
\<close>

theorem layers_follow_screens:
  "if inputs es i = [] then map_of (layers (page_run es)) i = None
   else \<exists>l\<in>set (inputs es i). equalLayer l (last (inputs es i)) \<and>
     (case due (register (showers (page_run es) i)) of
        None \<Rightarrow> map_of (layers (page_run es)) i = Some (enforceTokenBudget l)
      | Some d \<Rightarrow> d = lastCall (register (showers (page_run es) i)) + THROTTLE_MS \<and>
          (\<forall>now. map_of (layers (page_run (es @ [TimerEnds i now]))) i = Some (enforceTokenBudget l)))"
proof (cases "lastLayer (showers (page_run es) i)")
  case None
  with page_run_shower [of es i] show ?thesis by (simp add: shower_ok_def)
next
  case (Some l)
  with page_run_shower [of es i] have l: "inputs es i \<noteq> []" "l \<in> set (inputs es i)" "equalLayer l (last (inputs es i))"
    by (auto simp: shower_ok_def)
  show ?thesis
  proof (cases "due (register (showers (page_run es) i))")
    case None
    with Some page_run_shower [of es i] l show ?thesis by (auto simp: shower_ok_def)
  next
    case (Some d)
    with \<open>lastLayer _ = Some l\<close> page_run_shower [of es i]
    have p: "pendingArgs (register (showers (page_run es) i)) = Some (enforceTokenBudget l)"
        "d = lastCall (register (showers (page_run es) i)) + THROTTLE_MS" by (auto simp: shower_ok_def)
    then have "map_of (layers (page_run (es @ [TimerEnds i now]))) i = Some (enforceTokenBudget l)" for now
      using Some by (simp add: page_run_simps page_step_def timer_ends_def throttled_timer_def update_conv')
    with Some p l show ?thesis by auto
  qed
qed

text \<open>
  C20: A question takes along only what is on screen and may be told: every layer of a snapshot is the budgeted form of an input that a
  component has shown since it last showed nothing, and a snapshot of a private screen (the account page, the admin pages but the alert
  investigations) has no layer at all.
\<close>

theorem snapshot_is_on_screen:
  "(case getSnapshot path (page_run es) of (base, overlays) \<Rightarrow>
      set_option base \<union> set overlays \<subseteq>
        (if isPrivateScreen path then {} else (\<Union>i. enforceTokenBudget ` set (inputs es i))))"
proof -
  have "l \<in> (\<Union>i. enforceTokenBudget ` set (inputs es i))" if "(i, l) \<in> set (layers (page_run es))" for i l
  proof -
    from that page_run_ok [of es] have "map_of (layers (page_run es)) i = Some l" by (simp add: page_ok_def)
    from shower_registered [OF page_run_shower this] show ?thesis by blast
  qed
  then have "set (map snd (layers (page_run es))) \<subseteq> (\<Union>i. enforceTokenBudget ` set (inputs es i))" by auto
  moreover have "set_option (List.find p xs) \<subseteq> set xs" for p and xs :: "layer list"
    by (auto simp: find_Some_iff)
  moreover have "set (overlaysInOrder (filter p xs)) \<subseteq> set xs" for p xs by (auto simp: overlaysInOrder_def)
  ultimately have "set_option (List.find p (map snd (layers (page_run es)))) \<union> set (overlaysInOrder (filter q (map snd (layers (page_run es)))))
      \<subseteq> (\<Union>i. enforceTokenBudget ` set (inputs es i))" for p q
    by (meson Un_least order_trans)
  then show ?thesis
    by (cases "isPrivateScreen path") (simp_all only: getSnapshot_def Let_def if_True if_False prod.case, simp add: overlaysInOrder_def)
qed

lemma private_screens:
  "isPrivateScreen ''/account'' \<and> isPrivateScreen ''/admin/users'' \<and> \<not> isPrivateScreen ''/admin/investigations/7'' \<and>
    isPrivateScreen ''/admin/investigationsx'' \<and> \<not> isPrivateScreen ''/accounts-report''"
  by code_simp

section \<open>The budget\<close>

lemma shortened_props_refl: "list_all2 (\<lambda>(k, x) (k', y). k = k' \<and> shortened x y) kvs kvs"
  by (rule list_all2_refl) auto



text \<open>The mark that a layer was cut keeps its summary whatever its size: the budget is then exceeded.\<close>

lemma code_points_ascii: "list_all (\<lambda>c. c < 128) s \<Longrightarrow> code_points s = map (\<lambda>c. [c]) s"
  by (induction s rule: code_points.induct) (auto simp: high_surrogate_def)

lemma ascii_size: "list_all (\<lambda>c. c < 128) s \<Longrightarrow> length (utf8_encode s) = length s"
  by (induction s) (auto simp: utf8_encode_def code_points_ascii utf8_bytes_def high_surrogate_def low_surrogate_def)

lemma quote_letters: "json_quote (replicate n 97) = [34] @ replicate n 97 @ [34]"
proof -
  have "code_points (replicate n 97) = replicate n [97]" by (subst code_points_ascii) (simp_all add: list_all_iff)
  moreover have "concat (replicate n [97]) = replicate n (97 :: nat)" by (induction n) simp_all
  ultimately show ?thesis by (simp add: json_quote_def quote_point_def quote_unit_def high_surrogate_def low_surrogate_def)
qed

lemma summary_exceeds_budget:
  assumes "n > MAX_LAYER_BYTES"
  defines "l \<equiv> \<lparr>l_source = u ''base'', l_summary = [], l_data = CObj [(u ''summary'', CStr (replicate n 97))]\<rparr>"
  shows "byte_size (l_data (enforceTokenBudget l)) > MAX_LAYER_BYTES"
proof -
  have k: "json_quote (u ''summary'') = u (CHR 0x22 # ''summary'' @ [CHR 0x22])" "json_quote (u ''__truncated__'') = u (CHR 0x22 # ''__truncated__'' @ [CHR 0x22])"
    by (simp_all add: json_quote_def u_def quote_point_def quote_unit_def high_surrogate_def low_surrogate_def)
  note k = k [unfolded u_def, simplified]
  have a: "list_all (\<lambda>c. c < 128) (replicate n (97 :: nat))" by (simp add: list_all_iff)
  have "byte_size (l_data l) > MAX_LAYER_BYTES"
    using assms(1) a unfolding byte_size_def l_def by (subst ascii_size) (simp_all add: k quote_letters u_def)
  then have "l_data (enforceTokenBudget l) = cut_to_summary (l_data l)"
    by (simp add: enforceTokenBudget_def truncateData_def l_def)
  moreover have "byte_size (cut_to_summary (l_data l)) > MAX_LAYER_BYTES"
    using assms(1) a unfolding byte_size_def cut_to_summary_def l_def by (subst ascii_size) (simp_all add: k quote_letters u_def)
  ultimately show ?thesis by simp
qed

end
