(* ===== verification/AI_Objects.thy ===== *)
theory AI_Objects
  imports AI_Props
begin

text \<open>
  What an open drawer tells the floating chat of its object (\<^verbatim>\<open>frontend/src/components/resource-detail/drawerObjectLayer.ts\<close>, with the
  events of \<^verbatim>\<open>detailFormat.ts\<close>): without what is large, within the size of a layer, and of a Secret never its values. An object is
  its list of properties; the time of an event (\<^verbatim>\<open>new Date(\<dots>).getTime()\<close>) is the parameter \<open>time_of\<close>.
\<close>

type_synonym cobject = "(ustr \<times> cval) list"

section \<open>Which objects, how often\<close>

definition SELF_LOADING_KINDS :: "string list" where
  "SELF_LOADING_KINDS = [''Node'', ''Namespace'']"

definition UNRESOLVABLE_KINDS :: "string list" where
  "UNRESOLVABLE_KINDS = [''CustomResourceInstance'']"

definition OBJECT_READ_EVERY_MS :: nat where
  "OBJECT_READ_EVERY_MS = 10000"

definition RAW_BYTES :: nat where
  "RAW_BYTES = MAX_LAYER_BYTES - 512"

definition followsObjectForChat :: "string \<Rightarrow> bool" where
  "followsObjectForChat kind \<longleftrightarrow> kind \<noteq> ''Secret'' \<and> kind \<notin> set SELF_LOADING_KINDS \<and> kind \<notin> set UNRESOLVABLE_KINDS"

text \<open>The next read after an answer or an error, by the error's status (none reads as 0); \<open>None\<close> for \<^verbatim>\<open>false\<close>.\<close>

definition objectReadInterval :: "bool \<Rightarrow> nat option \<Rightarrow> nat option" where
  "objectReadInterval follows errorStatus =
     (let status = (case errorStatus of None \<Rightarrow> 0 | Some s \<Rightarrow> s) in
      if follows \<and> \<not> (status \<ge> 400 \<and> status < 500) then Some OBJECT_READ_EVERY_MS else None)"

section \<open>The object of a drawer\<close>

text \<open>\<^verbatim>\<open>{ ...object, k: x, \<dots> }\<close> and \<^verbatim>\<open>Object.keys(v)\<close>.\<close>

definition with_props :: "cobject \<Rightarrow> cobject \<Rightarrow> cobject" where
  "with_props obj kvs = fold (\<lambda>(k, x). AList.update k x) kvs obj"

definition names_of :: "cval \<Rightarrow> cval" where
  "names_of v = (if ctruthy v then CArr (map (\<lambda>(k, _). CStr k) (own_props v)) else CUndef)"

definition forChat :: "cobject \<Rightarrow> bool \<Rightarrow> cobject" where
  "forChat obj secret =
     (let meta = own_props (cget (CObj obj) ''metadata'') in
      with_props obj
        ((u ''metadata'', CObj (with_props meta [(u ''managedFields'', CUndef), (u ''annotations'', names_of (cget (CObj meta) ''annotations''))]))
         # (if secret then [(u ''data'', CUndef), (u ''stringData'', CUndef)] else [])))"

text \<open>The loop over the parts that go when the object is too large: the object left and the names of what went.\<close>

fun drop_parts :: "ustr list \<Rightarrow> cobject \<Rightarrow> ustr list \<Rightarrow> cobject \<times> ustr list" where
  "drop_parts [] raw omitted = (raw, omitted)"
| "drop_parts (part # parts) raw omitted =
     (if byte_size (CObj raw) \<le> RAW_BYTES then (raw, omitted)
      else if part \<in> set (map fst raw) then drop_parts parts (AList.delete part raw) (omitted @ [part])
      else drop_parts parts raw omitted)"

definition drawerObjectLayer :: "cobject option \<Rightarrow> cobject option \<Rightarrow> bool \<Rightarrow> nat option \<Rightarrow> cobject" where
  "drawerObjectLayer row live secret readStatus =
     (let status = (case readStatus of None \<Rightarrow> [] | Some s \<Rightarrow> if s = 0 then [] else [(u ''raw_read_status'', CNum (int s))]) in
      case (case live of None \<Rightarrow> row | Some obj \<Rightarrow> Some obj) of
        None \<Rightarrow> status
      | Some obj \<Rightarrow>
          (case drop_parts [u ''spec'', u ''status''] (forChat obj secret) [] of (raw, omitted) \<Rightarrow>
             [(u ''raw'', CObj raw)] @ (if live \<noteq> None then [] else [(u ''raw_from'', CStr (u ''list_row_when_opened''))]) @
             (if omitted \<noteq> [] then [(u ''raw_omitted'', CArr (map CStr omitted))] else []) @ status))"

section \<open>The object of a window without a drawer of its own\<close>

definition pick :: "cval \<Rightarrow> string list \<Rightarrow> cobject" where
  "pick from ks = map (\<lambda>k. (u k, cget from k)) (filter (\<lambda>k. cget from k \<noteq> CUndef) ks)"

definition objectsOf :: "cval \<Rightarrow> string list \<Rightarrow> cval" where
  "objectsOf v ks = (case v of CArr xs \<Rightarrow> CArr (map (\<lambda>x. CObj (pick x ks)) xs) | _ \<Rightarrow> v)"

definition drawnSpec :: "cval \<Rightarrow> cobject" where
  "drawnSpec spec =
     pick spec [''replicas'', ''type'', ''clusterIP'', ''nodeName'', ''serviceAccountName''] @
     (if cget spec ''containers'' \<noteq> CUndef then [(u ''containers'', objectsOf (cget spec ''containers'') [''name'', ''image''])] else []) @
     (if cget spec ''ports'' \<noteq> CUndef then [(u ''ports'', objectsOf (cget spec ''ports'') [''name'', ''port'', ''targetPort'', ''protocol''])] else [])"

definition drawnStatus :: "cval \<Rightarrow> cobject" where
  "drawnStatus status = pick status [''phase'', ''replicas'', ''readyReplicas'', ''conditions'']"

definition eventsForAI :: "cval \<Rightarrow> cobject" where
  "eventsForAI describe =
     (if cget describe ''events'' \<noteq> CUndef then [(u ''events'', cget describe ''events'')] else []) @
     (if cget describe ''events_error'' \<noteq> CUndef then [(u ''events_error'', cget describe ''events_error'')] else [])"

definition event_time :: "(cval \<Rightarrow> int) \<Rightarrow> cval \<Rightarrow> int" where
  "event_time time_of e =
     (if ctruthy (cget e ''last_timestamp'') then time_of (cget e ''last_timestamp'')
      else if ctruthy (cget e ''first_timestamp'') then time_of (cget e ''first_timestamp'') else 0)"

definition eventsNewestFirst :: "(cval \<Rightarrow> int) \<Rightarrow> cval \<Rightarrow> cval list option" where
  "eventsNewestFirst time_of events = (case events of CArr es \<Rightarrow> Some (sort_key (\<lambda>e. - event_time time_of e) es) | _ \<Rightarrow> None)"

definition over :: "cobject \<Rightarrow> bool" where
  "over l \<longleftrightarrow> byte_size (CObj l) > RAW_BYTES"

text \<open>The loop that keeps half of the events, then half of these, while the layer is too large.\<close>

function keep_newest :: "cval list \<Rightarrow> nat \<Rightarrow> cobject \<Rightarrow> cobject" where
  "keep_newest events keep l =
     (if over l \<and> keep > 0 then keep_newest events (keep div 2) (AList.update (u ''events'') (CArr (take (keep div 2) events)) l) else l)"
  by pat_completeness auto
termination
  by (relation "measure (\<lambda>(_, keep, _). keep)") auto

declare keep_newest.simps [simp del]

definition or_empty :: "cval \<Rightarrow> cval" where
  "or_empty v = (if cnullish v then CObj [] else v)"

definition genericObjectLayer :: "(cval \<Rightarrow> int) \<Rightarrow> cval \<Rightarrow> cval \<Rightarrow> cobject" where
  "genericObjectLayer time_of obj describe =
     (let meta = or_empty (cget obj ''metadata'');
          l = [(u ''api_version'', cget obj ''apiVersion''), (u ''created_at'', cget meta ''creationTimestamp''), (u ''uid'', cget meta ''uid''),
               (u ''labels'', cget meta ''labels''), (u ''annotations'', names_of (cget meta ''annotations'')),
               (u ''spec'', or_empty (cget obj ''spec'')), (u ''status'', or_empty (cget obj ''status''))] @ eventsForAI describe;
          (l1, cut1) = (if over l then (AList.update (u ''spec'') (CObj (drawnSpec (cget (CObj l) ''spec''))) l, [u ''spec'']) else (l, []));
          (l2, cut2) = (if over l1 then (AList.update (u ''status'') (CObj (drawnStatus (cget (CObj l1) ''status''))) l1, cut1 @ [u ''status'']) else (l1, cut1));
          (l3, cut3) = (case (if over l2 then eventsNewestFirst time_of (cget (CObj l2) ''events'') else None) of
              None \<Rightarrow> (l2, cut2)
            | Some es \<Rightarrow> (keep_newest es (length es) (AList.update (u ''events_total'') (CNum (int (length es))) l2), cut2 @ [u ''events'']))
      in if cut3 \<noteq> [] then AList.update (u ''object_cut'') (CArr (map CStr cut3)) l3 else l3)"

section \<open>A Secret's values\<close>

text \<open>An object with given values: its annotations in its metadata, its \<^verbatim>\<open>data\<close> and its \<^verbatim>\<open>stringData\<close>.\<close>

definition with_values :: "cobject \<Rightarrow> cobject \<Rightarrow> cobject \<Rightarrow> cval \<Rightarrow> cval \<Rightarrow> cobject" where
  "with_values obj meta annotations v s = with_props obj
     [(u ''metadata'', CObj (AList.update (u ''annotations'') (CObj annotations) meta)), (u ''data'', v), (u ''stringData'', s)]"

lemma update_twice: "AList.update a x (AList.update a w m) = AList.update a x m"
  by (induction m) auto

lemma update_twice2:
  "a \<noteq> b \<Longrightarrow> AList.update b y (AList.update a x (AList.update b v (AList.update a w m))) = AList.update b y (AList.update a x m)"
  by (induction m) (auto simp: update_twice)

lemma update_twice3:
  "a \<noteq> b \<Longrightarrow> a \<noteq> c \<Longrightarrow> b \<noteq> c \<Longrightarrow>
    AList.update c z (AList.update b y (AList.update a x (AList.update c t (AList.update b v (AList.update a w m))))) =
    AList.update c z (AList.update b y (AList.update a x m))"
  by (induction m) (auto simp: update_twice2)

lemma update_under: "k \<noteq> j \<Longrightarrow> AList.update k y (AList.update j z (AList.update k x m)) = AList.update k y (AList.update j z (AList.update k x' m))"
  by (induction m) auto

lemma secret_names:
  "u ''metadata'' \<noteq> u ''data''" "u ''metadata'' \<noteq> u ''stringData''" "u ''data'' \<noteq> u ''stringData''" "u ''managedFields'' \<noteq> u ''annotations''"
  by (simp_all add: u_def)

lemma forChat_secret:
  assumes "map fst annotations = map fst annotations'"
  shows "forChat (with_values obj meta annotations v s) True = forChat (with_values obj meta annotations' v' s') True"
proof -
  have names: "names_of (CObj annotations) = names_of (CObj annotations')"
    using assms by (induction annotations annotations' rule: list_induct2') (auto simp: names_of_def)
  let ?m = "u ''metadata''" and ?d = "u ''data''" and ?s = "u ''stringData''" and ?a = "u ''annotations''" and ?f = "u ''managedFields''"
  have meta: "AList.update ?a n (AList.update ?f CUndef (AList.update ?a (CObj as) meta)) =
      AList.update ?a n (AList.update ?f CUndef (AList.update ?a (CObj as') meta))" for n as as'
    using update_under [of ?a ?f] secret_names by metis
  have m: "map_of (AList.update ?s s1 (AList.update ?d v1 (AList.update ?m w obj))) ?m = Some w" for s1 v1 w
    using secret_names by (simp add: update_conv')
  have n: "map_of (AList.update ?f CUndef meta') ?a = map_of meta' ?a" for meta' using secret_names by (simp add: update_conv')
  show ?thesis
    using secret_names names meta [of "names_of (CObj annotations')" annotations annotations']
    by (simp add: forChat_def with_values_def with_props_def update_twice3 update_conv' Let_def cong: if_cong)
qed

text \<open>
  C12: A Secret's values never reach the floating chat: two Secrets that differ only in the values of their data, their string data and
  their annotations give the same layer, whether they were read or come from the list's row.
\<close>

theorem secret_values_not_told:
  assumes "map fst annotations = map fst annotations'"
  shows "drawerObjectLayer row (Some (with_values obj meta annotations v s)) True st =
      drawerObjectLayer row (Some (with_values obj meta annotations' v' s')) True st \<and>
    drawerObjectLayer (Some (with_values obj meta annotations v s)) None True st =
      drawerObjectLayer (Some (with_values obj meta annotations' v' s')) None True st"
  by (simp add: drawerObjectLayer_def forChat_secret [OF assms, of obj meta v s v' s'] Let_def)

theorem secret_values_not_told_witness:
  "drawerObjectLayer None (Some (with_values [(u ''kind'', CStr (u ''Secret''))] [] [(u ''note'', CStr (u ''one''))] (CObj [(u ''key'', CStr (u ''YQ==''))]) CUndef)) True None =
    drawerObjectLayer None (Some (with_values [(u ''kind'', CStr (u ''Secret''))] [] [(u ''note'', CStr (u ''two''))] (CObj []) (CStr (u ''b'')))) True None"
  by (rule conjunct1 [OF secret_values_not_told]) simp

text \<open>The object of a layer fits its room, or has lost its spec and its status.\<close>

lemma drop_parts_fit:
  "drop_parts [a, b] raw omitted = (raw', omitted') \<Longrightarrow>
    byte_size (CObj raw') \<le> RAW_BYTES \<or> a \<notin> set (map fst raw') \<and> b \<notin> set (map fst raw')"
  by (auto simp: fst_AList_delete simp del: set_map split: if_splits)

lemma generic_layer_fits: "over (keep_newest events keep l) \<Longrightarrow> map_of (keep_newest events keep l) (u ''events'') = (if keep = 0 then map_of l (u ''events'') else Some (CArr []))"
proof (induction events keep l rule: keep_newest.induct)
  case (1 events keep l)
  show ?case
  proof (cases "over l \<and> keep > 0")
    case True
    then have s: "keep_newest events keep l = keep_newest events (keep div 2) (AList.update (u ''events'') (CArr (take (keep div 2) events)) l)"
      by (subst keep_newest.simps) simp
    from 1 True show ?thesis by (simp add: s update_conv')
  next
    case False
    then have "keep_newest events keep l = l" by (subst keep_newest.simps) (simp only: if_False)
    with False "1.prems" show ?thesis by auto
  qed
qed

end
