(* ===== verification/AI_Summaries.thy ===== *)
theory AI_Summaries
  imports AI_Objects
begin

text \<open>
  How the screens put their lists, pods and figures into a layer (\<^verbatim>\<open>frontend/src/utils/aiContext/summarizeList.ts\<close>, \<^verbatim>\<open>summarizeKPI.ts\<close>,
  \<^verbatim>\<open>podCounts.ts\<close>), and what the page's address says of the screen (\<^verbatim>\<open>routeMatcher.ts\<close>).
\<close>

section \<open>Pods\<close>

text \<open>A pod's words; an absent or null word reads as the empty one, an absent count as 0.\<close>

record pod_words =
  p_status :: string
  p_phase :: string
  restart_count :: int

definition NOTHING_TO_LOOK_AT :: "string list" where
  "NOTHING_TO_LOOK_AT = [''Running'', ''Completed'', ''Succeeded'']"

definition podNotRunning :: "'a pod_words_scheme \<Rightarrow> bool" where
  "podNotRunning pod \<longleftrightarrow> (let word = (if p_status pod \<noteq> [] then p_status pod else p_phase pod) in word \<noteq> [] \<and> word \<notin> set NOTHING_TO_LOOK_AT)"

definition notRunningFirst :: "'a pod_words_scheme list \<Rightarrow> 'a pod_words_scheme list" where
  "notRunningFirst pods = filter podNotRunning pods @ filter (\<lambda>p. \<not> podNotRunning p) pods"

definition podNeedsALook :: "'a pod_words_scheme \<Rightarrow> bool" where
  "podNeedsALook pod \<longleftrightarrow> podNotRunning pod \<or> restart_count pod > 5"

text \<open>\<^verbatim>\<open>by[word] = (by[word] ?? 0) + 1\<close>: the counts by word, in the order the words came.\<close>

definition count_word :: "string \<Rightarrow> (string \<times> nat) list \<Rightarrow> (string \<times> nat) list" where
  "count_word w by = AList.update w ((case map_of by w of None \<Rightarrow> 0 | Some n \<Rightarrow> n) + 1) by"

definition phase_word :: "'a pod_words_scheme \<Rightarrow> string" where
  "phase_word pod = (if p_phase pod \<noteq> [] then p_phase pod else if p_status pod \<noteq> [] then p_status pod else ''Unknown'')"

definition status_word :: "'a pod_words_scheme \<Rightarrow> string" where
  "status_word pod = (if p_status pod \<noteq> [] then p_status pod else if p_phase pod \<noteq> [] then p_phase pod else ''Unknown'')"

record pod_counts =
  notRunning :: nat
  byPhase :: "(string \<times> nat) list"
  byStatus :: "(string \<times> nat) list"

definition podCounts :: "'a pod_words_scheme list \<Rightarrow> pod_counts" where
  "podCounts pods = \<lparr>notRunning = length (filter podNotRunning pods),
     byPhase = fold (\<lambda>pod. count_word (phase_word pod)) pods [],
     byStatus = fold (\<lambda>pod. count_word (status_word pod)) pods []\<rparr>"

section \<open>Lists and figures\<close>

text \<open>The options of a list; a page size that is given is a number above 0.\<close>

record list_options =
  o_total :: "nat option"
  o_currentPage :: "nat option"
  o_pageSize :: "nat option"
  o_topN :: "nat option"
  o_pickFields :: "string list option"
  o_filterProblematic :: "(cval \<Rightarrow> bool) option"
  o_interpret :: "(cval list \<Rightarrow> ustr list) option"
  o_linkBuilder :: "(cval \<Rightarrow> ustr option) option"

record list_summary =
  current_page :: nat
  total_pages :: nat
  page_size :: nat
  total_count :: nat
  showing_count :: nat
  visible_items :: "cobject list"
  problematic_items :: "cobject list option"
  interpretations :: "ustr list option"

definition picked :: "string list option \<Rightarrow> cval \<Rightarrow> cobject" where
  "picked ks item = (case ks of
      Some fs \<Rightarrow> fold (\<lambda>f. AList.update (u f) (cget item f)) fs []
    | None \<Rightarrow> own_props item)"

definition slim :: "list_options \<Rightarrow> cval \<Rightarrow> cobject" where
  "slim opts item =
     (let base = picked (o_pickFields opts) item in
      case o_linkBuilder opts of
        None \<Rightarrow> base
      | Some build \<Rightarrow> (case build item of None \<Rightarrow> base | Some link \<Rightarrow> if link = [] then base else AList.update (u ''_link'') (CStr link) base))"

definition given :: "'a option \<Rightarrow> 'a \<Rightarrow> 'a" where
  "given x d = (case x of None \<Rightarrow> d | Some y \<Rightarrow> y)"

text \<open>\<^verbatim>\<open>Math.max(1, Math.ceil(total / pageSize))\<close>.\<close>

definition pages :: "nat \<Rightarrow> nat \<Rightarrow> nat" where
  "pages all_items pageSize = max 1 ((all_items + pageSize - 1) div pageSize)"

definition unless_empty :: "'a list \<Rightarrow> 'a list option" where
  "unless_empty xs = (if xs = [] then None else Some xs)"

definition summarizeList :: "cval list \<Rightarrow> list_options \<Rightarrow> list_summary" where
  "summarizeList items opts =
     (let pageSize = given (o_pageSize opts) (if items = [] then 1 else length items);
          all_items = given (o_total opts) (length items);
          topN = given (o_topN opts) 10 in
      \<lparr>current_page = given (o_currentPage opts) 1,
       total_pages = pages all_items pageSize,
       page_size = pageSize,
       total_count = all_items,
       showing_count = min (length items) topN,
       visible_items = map (slim opts) (take topN items),
       problematic_items = (case o_filterProblematic opts of None \<Rightarrow> None | Some p \<Rightarrow> unless_empty (map (slim opts) (take topN (filter p items)))),
       interpretations = (case o_interpret opts of None \<Rightarrow> None | Some f \<Rightarrow> unless_empty (filter (\<lambda>s. s \<noteq> []) (f items)))\<rparr>)"

record kpi =
  cluster_gpu :: cval
  k_nodes :: "cval list"
  top_consumers :: "cval list"
  time_range :: cval

record kpi_summary =
  s_cluster_gpu :: cval
  s_nodes :: "cobject list"
  s_top_consumers :: "cobject list"
  s_time_range :: cval

definition summarizeKPI :: "kpi \<Rightarrow> string list option \<Rightarrow> string list option \<Rightarrow> nat \<Rightarrow> nat \<Rightarrow> kpi_summary" where
  "summarizeKPI input nodePickFields consumerPickFields topNodes topConsumers =
     \<lparr>s_cluster_gpu = cluster_gpu input,
      s_nodes = map (picked nodePickFields) (take topNodes (k_nodes input)),
      s_top_consumers = map (picked consumerPickFields) (take topConsumers (top_consumers input)),
      s_time_range = time_range input\<rparr>"

section \<open>Addresses\<close>

record static_entry =
  pageType :: string
  resourceKind :: "string option"
  titleKey :: "string option"
  pageTitle :: ustr

record route_meta = static_entry +
  r_namespace :: "string option"
  resourceName :: "string option"
  r_path :: string

definition entry :: "string \<Rightarrow> string option \<Rightarrow> string \<Rightarrow> ustr \<Rightarrow> static_entry" where
  "entry ty kind key title = \<lparr>pageType = ty, resourceKind = kind, titleKey = Some key, pageTitle = title\<rparr>"

definition STATIC_MAP :: "(string \<times> static_entry) list" where
  "STATIC_MAP =
    [(''/'', entry ''dashboard'' None ''nav.dashboard'' [45824, 49884, 48372, 46300]),
     (''/cluster/namespaces'', entry ''resource-list'' (Some ''Namespace'') ''nav.namespaces'' [45348, 51076, 49828, 54168, 51060, 49828]),
     (''/cluster/nodes'', entry ''resource-list'' (Some ''Node'') ''nav.nodes'' [45432, 46300]),
     (''/cluster/search'', entry ''search'' None ''nav.advancedSearch'' [44256, 44553, 32, 44160, 49353]),
     (''/cluster/resource-graph'', entry ''graph'' None ''nav.resourceGraph'' [47532, 49548, 49828, 32, 44536, 47000, 54532]),
     (''/timeline'', entry ''timeline'' None ''nav.timeline'' [48320, 44221, 32, 51060, 47141]),
     (''/workloads/pods'', entry ''resource-list'' (Some ''Pod'') ''nav.pods'' [54028, 46300]),
     (''/workloads/deployments'', entry ''resource-list'' (Some ''Deployment'') ''nav.deployments'' [46356, 54540, 47196, 51060, 47676, 53944]),
     (''/workloads/statefulsets'', entry ''resource-list'' (Some ''StatefulSet'') ''nav.statefulSets'' [49828, 53580, 51060, 53944, 54400, 49483]),
     (''/workloads/daemonsets'', entry ''resource-list'' (Some ''DaemonSet'') ''nav.daemonSets'' [45936, 47788, 49483]),
     (''/workloads/replicasets'', entry ''resource-list'' (Some ''ReplicaSet'') ''nav.replicaSets'' [47112, 54540, 47532, 52852, 49483]),
     (''/workloads/jobs'', entry ''resource-list'' (Some ''Job'') ''nav.jobs'' [51105]),
     (''/workloads/cronjobs'', entry ''resource-list'' (Some ''CronJob'') ''nav.cronJobs'' [53356, 47200, 51105]),
     (''/workloads/hpas'', entry ''resource-list'' (Some ''HorizontalPodAutoscaler'') ''nav.hpas'' [49688, 54217, 32, 54028, 46300, 32, 50724, 53664, 49828, 52992, 51068, 47084]),
     (''/workloads/vpas'', entry ''resource-list'' (Some ''VerticalPodAutoscaler'') ''nav.vpas'' [49688, 51649, 32, 54028, 46300, 32, 50724, 53664, 49828, 52992, 51068, 47084]),
     (''/workloads/pdbs'', entry ''resource-list'' (Some ''PodDisruptionBudget'') ''nav.pdbs'' [54028, 46300, 32, 46356, 49828, 47101, 49496, 32, 48260, 51667]),
     (''/storage'', entry ''resource-list'' None ''nav.storage'' [49828, 53664, 47532, 51648]),
     (''/network/services'', entry ''resource-list'' (Some ''Service'') ''nav.services'' [49436, 48708, 49828]),
     (''/network/endpoints'', entry ''resource-list'' (Some ''Endpoints'') ''nav.endpoints'' [50644, 46300, 54252, 51064, 53944]),
     (''/network/endpointslices'', entry ''resource-list'' (Some ''EndpointSlice'') ''nav.endpointSlices'' [50644, 46300, 54252, 51064, 53944, 32, 49836, 46972, 51060, 49828]),
     (''/network/ingresses'', entry ''resource-list'' (Some ''Ingress'') ''nav.ingresses'' [51064, 44536, 47112, 49828]),
     (''/network/ingressclasses'', entry ''resource-list'' (Some ''IngressClass'') ''nav.ingressClasses'' [51064, 44536, 47112, 49828, 32, 53364, 47000, 49828]),
     (''/network/networkpolicies'', entry ''resource-list'' (Some ''NetworkPolicy'') ''nav.networkPolicies'' [45348, 53944, 50892, 53356, 32, 54260, 47532, 49884]),
     (''/gateway/gateways'', entry ''resource-list'' (Some ''Gateway'') ''nav.gateways'' [44172, 51060, 53944, 50920, 51060]),
     (''/gateway/gatewayclasses'', entry ''resource-list'' (Some ''GatewayClass'') ''nav.gatewayClasses'' [44172, 51060, 53944, 50920, 51060, 32, 53364, 47000, 49828]),
     (''/gateway/httproutes'', entry ''resource-list'' (Some ''HTTPRoute'') ''nav.httpRoutes'' [72, 84, 84, 80, 32, 46972, 50864, 53944]),
     (''/gateway/grpcroutes'', entry ''resource-list'' (Some ''GRPCRoute'') ''nav.grpcRoutes'' [71, 82, 80, 67, 32, 46972, 50864, 53944]),
     (''/gateway/referencegrants'', entry ''resource-list'' (Some ''ReferenceGrant'') ''nav.referenceGrants'' [47112, 54140, 47088, 49828, 32, 44536, 47004, 53944]),
     (''/gateway/backendtlspolicies'', entry ''resource-list'' (Some ''BackendTLSPolicy'') ''nav.backendTlsPolicies'' [48177, 50644, 46300, 32, 84, 76, 83, 32, 54260, 47532, 49884]),
     (''/gateway/policies'', entry ''resource-list'' (Some ''CustomResource'') ''nav.policies'' [71, 97, 116, 101, 119, 97, 121, 32, 51221, 52293]),
     (''/gpu/dashboard'', entry ''gpu'' None ''nav.gpuDashboard'' [71, 80, 85, 32, 45824, 49884, 48372, 46300]),
     (''/gpu/nodes'', entry ''gpu'' (Some ''Node'') ''nav.gpuNodes'' [71, 80, 85, 32, 45432, 46300]),
     (''/gpu/pods'', entry ''gpu'' (Some ''Pod'') ''nav.gpuPods'' [71, 80, 85, 32, 54028, 46300]),
     (''/gpu/deviceclasses'', entry ''resource-list'' (Some ''DeviceClass'') ''nav.deviceClasses'' [46356, 48148, 51060, 49828, 32, 53364, 47000, 49828]),
     (''/gpu/resourceclaims'', entry ''resource-list'' (Some ''ResourceClaim'') ''nav.resourceClaims'' [47532, 49548, 49828, 32, 53364, 47112, 51076]),
     (''/gpu/resourceclaimtemplates'', entry ''resource-list'' (Some ''ResourceClaimTemplate'') ''nav.resourceClaimTemplates'' [47532, 49548, 49828, 32, 53364, 47112, 51076, 32, 53596, 54540, 47551]),
     (''/gpu/resourceslices'', entry ''resource-list'' (Some ''ResourceSlice'') ''nav.resourceSlices'' [47532, 49548, 49828, 32, 49836, 46972, 51060, 49828]),
     (''/security/serviceaccounts'', entry ''resource-list'' (Some ''ServiceAccount'') ''nav.serviceAccounts'' [49436, 48708, 49828, 32, 50612, 52852, 50868, 53944]),
     (''/security/roles'', entry ''resource-list'' (Some ''Role'') ''nav.roles'' [47204]),
     (''/security/clusterroles'', entry ''resource-list'' (Some ''ClusterRole'') ''nav.clusterRoles'' [53364, 47084, 49828, 53552, 32, 47204]),
     (''/security/rolebindings'', entry ''resource-list'' (Some ''RoleBinding'') ''nav.roleBindings'' [47204, 32, 48148, 51064, 46377]),
     (''/security/clusterrolebindings'', entry ''resource-list'' (Some ''ClusterRoleBinding'') ''nav.clusterRoleBindings'' [53364, 47084, 49828, 53552, 32, 47204, 32, 48148, 51064, 46377]),
     (''/configuration/configmaps'', entry ''resource-list'' (Some ''ConfigMap'') ''nav.configMaps'' [52968, 54588, 44536, 47605]),
     (''/configuration/secrets'', entry ''resource-list'' (Some ''Secret'') ''nav.secrets'' [49884, 53356, 47551]),
     (''/cluster/resourcequotas'', entry ''resource-list'' (Some ''ResourceQuota'') ''nav.resourceQuotas'' [47532, 49548, 49828, 32, 53244, 53552]),
     (''/cluster/limitranges'', entry ''resource-list'' (Some ''LimitRange'') ''nav.limitRanges'' [47532, 48139, 32, 47112, 51064, 51648]),
     (''/cluster/priorityclasses'', entry ''resource-list'' (Some ''PriorityClass'') ''nav.priorityClasses'' [50864, 49440, 49692, 50948, 32, 53364, 47000, 49828]),
     (''/cluster/runtimeclasses'', entry ''resource-list'' (Some ''RuntimeClass'') ''nav.runtimeClasses'' [47088, 53440, 51076, 32, 53364, 47000, 49828]),
     (''/cluster/leases'', entry ''resource-list'' (Some ''Lease'') ''nav.leases'' [47532, 49828]),
     (''/cluster/mutatingwebhookconfigurations'', entry ''resource-list'' (Some ''MutatingWebhookConfiguration'') ''nav.mutatingWebhooks'' [48320, 44221, 32, 50937, 54981, 32, 44396, 49457]),
     (''/cluster/validatingwebhookconfigurations'', entry ''resource-list'' (Some ''ValidatingWebhookConfiguration'') ''nav.validatingWebhooks'' [44160, 51613, 32, 50937, 54981, 32, 44396, 49457]),
     (''/cluster/validatingadmissionpolicies'', entry ''resource-list'' (Some ''ValidatingAdmissionPolicy'') ''nav.validatingAdmissionPolicies'' [44160, 51613, 32, 50612, 46300, 48120, 49496, 32, 51221, 52293]),
     (''/cluster/mutatingadmissionpolicies'', entry ''resource-list'' (Some ''MutatingAdmissionPolicy'') ''nav.mutatingAdmissionPolicies'' [48320, 44221, 32, 50612, 46300, 48120, 49496, 32, 51221, 52293]),
     (''/custom-resources/instances'', entry ''resource-list'' (Some ''CustomResource'') ''nav.customInstances'' [52964, 49828, 53568, 32, 47532, 49548, 49828, 32, 51064, 49828, 53556, 49828]),
     (''/custom-resources/groups'', entry ''resource-list'' (Some ''CustomResourceDefinition'') ''nav.customGroups'' [52964, 49828, 53568, 32, 47532, 49548, 49828, 32, 51221, 51032]),
     (''/helm/releases'', entry ''helm-list'' None ''nav.helmReleases'' (u ''Releases'')),
     (''/monitoring'', entry ''monitoring'' None ''nav.monitoring'' [47532, 49548, 49828, 32, 47784, 45768, 53552, 47553]),
     (''/cost'', entry ''cost'' None ''nav.cost'' [48708, 50857]),
     (''/security/policyreports'', entry ''policy-reports'' None ''nav.policyReports'' [51221, 52293, 32, 48372, 44256, 49436]),
     (''/cluster-view'', entry ''cluster-view'' None ''nav.clusterView'' [53364, 47084, 49828, 53552, 32, 48624]),
     (''/ai-chat'', entry ''ai-chat'' None ''nav.aiChat'' [65, 73, 32, 52311]),
     (''/account'', entry ''account'' None ''layout.account'' [49444, 51221]),
     (''/cluster/hygiene'', entry ''cluster-hygiene'' None ''nav.clusterHygiene'' (u ''Cluster Hygiene'')),
     (''/admin/investigations'', entry ''investigations'' None ''nav.investigations'' (u ''Investigations''))]"

text \<open>
  The patterns of addresses with parameters: \<^verbatim>\<open>/^\/helm\/releases\/([^/]+)\/([^/]+)$/\<close> and \<^verbatim>\<open>/^\/admin\/[a-z-]+$/\<close>, as the parts between
  the slashes.
\<close>

definition admin_word :: "string \<Rightarrow> bool" where
  "admin_word s \<longleftrightarrow> s \<noteq> [] \<and> list_all (\<lambda>c. c = CHR ''-'' \<or> (97 \<le> (of_char c :: nat) \<and> (of_char c :: nat) \<le> 122)) s"

definition dynamic_meta :: "string \<Rightarrow> route_meta option" where
  "dynamic_meta path = (case split CHR ''/'' path of
      [e, a, b, ns, name] \<Rightarrow>
        if e = [] \<and> a = ''helm'' \<and> b = ''releases'' \<and> ns \<noteq> [] \<and> name \<noteq> [] then
          Some \<lparr>pageType = ''resource-detail'', resourceKind = Some ''HelmRelease'', titleKey = None, pageTitle = u ''Helm '' @ MIDDLE_DOT @ u '' '' @ u name,
            r_namespace = Some ns, resourceName = Some name, r_path = path\<rparr>
        else None
    | [e, a, page] \<Rightarrow>
        if e = [] \<and> a = ''admin'' \<and> admin_word page then
          Some \<lparr>pageType = ''admin'', resourceKind = None, titleKey = None, pageTitle = [44288, 47532], r_namespace = None, resourceName = None, r_path = path\<rparr>
        else None
    | _ \<Rightarrow> None)"

definition resolveRouteMeta :: "string \<Rightarrow> route_meta" where
  "resolveRouteMeta path = (case map_of STATIC_MAP path of
      Some e \<Rightarrow> \<lparr>pageType = pageType e, resourceKind = resourceKind e, titleKey = titleKey e, pageTitle = pageTitle e,
        r_namespace = None, resourceName = None, r_path = path\<rparr>
    | None \<Rightarrow> (case dynamic_meta path of
        Some m \<Rightarrow> m
      | None \<Rightarrow> \<lparr>pageType = ''other'', resourceKind = None, titleKey = None, pageTitle = [], r_namespace = None, resourceName = None, r_path = path\<rparr>))"

section \<open>Counts and pages\<close>

lemma count_word_count:
  "map_of (count_word w by) v = (if v = w then Some (Suc (case map_of by w of None \<Rightarrow> 0 | Some n \<Rightarrow> n)) else map_of by v)"
  by (simp add: count_word_def update_conv')

definition counts :: "string list \<Rightarrow> (string \<times> nat) list \<Rightarrow> bool" where
  "counts ws by \<longleftrightarrow> (\<forall>w. map_of by w = (if w \<in> set ws then Some (count_list ws w) else None))"

lemma counts_fold: "counts ws by \<Longrightarrow> counts (ws @ vs) (fold count_word vs by)"
proof (induction vs arbitrary: ws "by")
  case (Cons v vs)
  then have "counts (ws @ [v]) (count_word v by)" by (auto simp: counts_def count_word_count)
  from Cons.IH [OF this] show ?case by simp
qed simp

text \<open>
  A screen's pod counts add up: every word the table shows is counted once per pod that shows it, the phases likewise, and the pods
  that need a look come first in a list that is cut, each group in its order.
\<close>

lemma podCounts_exact:
  "counts (map status_word pods) (byStatus (podCounts pods)) \<and> counts (map phase_word pods) (byPhase (podCounts pods)) \<and>
    notRunning (podCounts pods) = length (filter podNotRunning pods) \<and>
    takeWhile podNotRunning (notRunningFirst pods) = filter podNotRunning pods \<and>
    dropWhile podNotRunning (notRunningFirst pods) = filter (\<lambda>p. \<not> podNotRunning p) pods"
proof -
  have f: "fold (\<lambda>pod. count_word (f pod)) pods [] = fold count_word (map f pods) []" for f :: "'a pod_words_scheme \<Rightarrow> string"
    by (simp add: fold_map comp_def)
  have c: "counts ws (fold count_word ws [])" for ws using counts_fold [of "[]" "[]" ws] by (simp add: counts_def)
  have t: "takeWhile P (filter P xs @ filter (\<lambda>x. \<not> P x) xs) = filter P xs \<and> dropWhile P (filter P xs @ filter (\<lambda>x. \<not> P x) xs) = filter (\<lambda>x. \<not> P x) xs"
    for P and xs :: "'a pod_words_scheme list"
  proof -
    have "takeWhile P (filter (\<lambda>x. \<not> P x) xs) = [] \<and> dropWhile P (filter (\<lambda>x. \<not> P x) xs) = filter (\<lambda>x. \<not> P x) xs" by (induction xs) auto
    moreover have "takeWhile P (filter P xs @ ys) = filter P xs @ takeWhile P ys \<and> dropWhile P (filter P xs @ ys) = dropWhile P ys" for ys
      by (induction xs) auto
    ultimately show ?thesis by simp
  qed
  show ?thesis by (simp add: podCounts_def f c notRunningFirst_def t)
qed

lemma pages_cover: "pageSize > 0 \<Longrightarrow> all_items \<le> pages all_items pageSize * pageSize \<and> (pages all_items pageSize = 1 \<or> (pages all_items pageSize - 1) * pageSize < all_items)"
proof -
  assume p: "pageSize > 0"
  define q where "q = (all_items + pageSize - 1) div pageSize"
  have m: "q * pageSize + (all_items + pageSize - 1) mod pageSize = all_items + pageSize - 1" by (simp add: q_def)
  moreover have "(all_items + pageSize - 1) mod pageSize < pageSize" using p by simp
  ultimately have l: "all_items \<le> q * pageSize" by linarith
  have "(q - 1) * pageSize = q * pageSize - pageSize" by (simp add: diff_mult_distrib)
  with m p have "(q - 1) * pageSize < all_items \<or> all_items = 0" by linarith
  moreover have "pages all_items pageSize = max 1 q" by (simp add: pages_def q_def)
  moreover have "all_items = 0 \<Longrightarrow> q = 0" using p by (simp add: q_def)
  ultimately show ?thesis using l p by (cases "q = 0") auto
qed

text \<open>The only screens with an address of their own that are private: the account page, and no other of the static map.\<close>

lemma static_private: "filter isPrivateScreen (map fst STATIC_MAP) = [''/account'']"
  by (simp add: STATIC_MAP_def isPrivateScreen_def under_def startsWith_def READABLE_ADMIN_PATHS_def)

end
