(* ===== verification/Follower.thy ===== *)
theory Follower
  imports AI_Layers
begin

text \<open>
  An open drawer follows its object (\<^verbatim>\<open>objectFollower\<close> in \<^verbatim>\<open>frontend/src/components/resource-detail/useDrawerFollowsObject.ts\<close>): a frame
  that says something new makes the drawer's answer, and the tables that hang on the object, due for a read; a read happens when the timer
  ends, at most once in \<open>everyMs\<close>. The query client is the environment: what it holds and which keys it is reading are arguments of
  the events. Query keys are any type; times are milliseconds.
\<close>

section \<open>The follower\<close>

record watch_frame =
  fr_type :: string
  fr_object :: cval

definition READ_AT_MOST_EVERY_MS :: int where
  "READ_AT_MOST_EVERY_MS = 1000"

text \<open>An answer that is no object differs from nothing.\<close>

definition differsFromAnswer :: "cval \<Rightarrow> cval \<Rightarrow> bool" where
  "differsFromAnswer frame answer \<longleftrightarrow> ctruthy answer \<and> ctypeof_object answer \<and>
     list_ex (\<lambda>(k, v). case map_of (own_props answer) k of None \<Rightarrow> False | Some w \<Rightarrow> json_text v \<noteq> json_text w) (own_props frame)"

record 'k follower =
  f_timer :: "int option"
  started :: bool
  waiting :: "'k list"

definition new_follower :: "'k follower" where
  "new_follower = \<lparr>f_timer = None, started = False, waiting = []\<rparr>"

text \<open>The timer's end: the keys that are read (invalidated), and those still under way, which wait for the next end.\<close>

definition read_now :: "int \<Rightarrow> int \<Rightarrow> ('k \<Rightarrow> bool) \<Rightarrow> 'k follower \<Rightarrow> 'k list \<times> 'k follower" where
  "read_now everyMs now fetching f =
     (let underWay = filter fetching (waiting f) in
      (filter (\<lambda>k. k \<notin> set underWay) (waiting f),
       f\<lparr>waiting := underWay, f_timer := if underWay \<noteq> [] then Some (now + everyMs) else None\<rparr>))"

definition readSoon :: "int \<Rightarrow> int \<Rightarrow> 'k list \<Rightarrow> 'k follower \<Rightarrow> 'k follower" where
  "readSoon everyMs now ks f = f\<lparr>waiting := ks, f_timer := (case f_timer f of None \<Rightarrow> Some (now + everyMs) | Some d \<Rightarrow> Some d)\<rparr>"

definition stop_following :: "'k follower \<Rightarrow> 'k follower" where
  "stop_following f = f\<lparr>f_timer := None, waiting := []\<rparr>"

text \<open>A frame that opens the watch with what the answer says already.\<close>

definition says_held :: "cval \<Rightarrow> watch_frame \<Rightarrow> 'k follower \<Rightarrow> bool" where
  "says_held answer ev f \<longleftrightarrow> \<not> started f \<and> fr_type ev = ''ADDED'' \<and> \<not> differsFromAnswer (fr_object ev) answer"

definition onEvent :: "int \<Rightarrow> 'k list \<Rightarrow> int \<Rightarrow> cval \<Rightarrow> watch_frame \<Rightarrow> 'k follower \<Rightarrow> 'k follower" where
  "onEvent everyMs allKeys now answer ev f =
     (if \<not> ctruthy (fr_object ev) then f
      else if fr_type ev = ''DELETED'' then stop_following f
      else if says_held answer ev f then f\<lparr>started := True\<rparr>
      else readSoon everyMs now allKeys (f\<lparr>started := True\<rparr>))"

definition onResync :: "int \<Rightarrow> 'k list \<Rightarrow> int \<Rightarrow> 'k follower \<Rightarrow> 'k follower" where
  "onResync everyMs alsoRead now f = (if alsoRead \<noteq> [] then readSoon everyMs now alsoRead f else f)"

section \<open>Runs\<close>

text \<open>
  What happens to a follower: a frame (with the answer the client holds), a resync, the timer's end (with the keys being read), or the end
  of the drawer. A run's output is the time and the keys of each read.
\<close>

datatype 'k happening =
    Frame int cval watch_frame
  | Resync int
  | Timer_End int "'k \<Rightarrow> bool"
  | Closed int

fun happening_time :: "'k happening \<Rightarrow> int" where
  "happening_time (Frame t _ _) = t"
| "happening_time (Resync t) = t"
| "happening_time (Timer_End t _) = t"
| "happening_time (Closed t) = t"

definition happen :: "int \<Rightarrow> 'k \<Rightarrow> 'k list \<Rightarrow> 'k happening \<Rightarrow> 'k follower \<Rightarrow> (int \<times> 'k list) list \<times> 'k follower" where
  "happen everyMs describeKey alsoRead h f = (case h of
      Frame now answer ev \<Rightarrow> ([], onEvent everyMs (describeKey # alsoRead) now answer ev f)
    | Resync now \<Rightarrow> ([], onResync everyMs alsoRead now f)
    | Timer_End now fetching \<Rightarrow>
        (case f_timer f of
           None \<Rightarrow> ([], f)
         | Some d \<Rightarrow> if d \<le> now then (case read_now everyMs now fetching f of (ks, f') \<Rightarrow> ([(now, ks)], f')) else ([], f))
    | Closed now \<Rightarrow> ([], stop_following f))"

fun follow :: "int \<Rightarrow> 'k \<Rightarrow> 'k list \<Rightarrow> 'k happening list \<Rightarrow> 'k follower \<Rightarrow> (int \<times> 'k list) list \<times> 'k follower" where
  "follow everyMs describeKey alsoRead [] f = ([], f)"
| "follow everyMs describeKey alsoRead (h # hs) f =
     (case happen everyMs describeKey alsoRead h f of (out, f1) \<Rightarrow>
        (case follow everyMs describeKey alsoRead hs f1 of (outs, f2) \<Rightarrow> (out @ outs, f2)))"

section \<open>A change is read\<close>

text \<open>A key is owed a read: it waits for the timer's end.\<close>

definition owed :: "'k \<Rightarrow> 'k follower \<Rightarrow> bool" where
  "owed k f \<longleftrightarrow> k \<in> set (waiting f) \<and> f_timer f \<noteq> None"

text \<open>A frame that says something new, and what does not take a key's read away: no deletion, no closing, and a resync only of its own.\<close>

definition says_new :: "cval \<Rightarrow> watch_frame \<Rightarrow> 'k follower \<Rightarrow> bool" where
  "says_new answer ev f \<longleftrightarrow> ctruthy (fr_object ev) \<and> fr_type ev \<noteq> ''DELETED'' \<and> \<not> says_held answer ev f"

fun leaves_owed :: "'k list \<Rightarrow> 'k \<Rightarrow> 'k happening \<Rightarrow> bool" where
  "leaves_owed alsoRead k (Frame _ _ ev) \<longleftrightarrow> fr_type ev \<noteq> ''DELETED'' \<or> \<not> ctruthy (fr_object ev)"
| "leaves_owed alsoRead k (Resync _) \<longleftrightarrow> alsoRead = [] \<or> k \<in> set alsoRead"
| "leaves_owed alsoRead k (Timer_End _ _) \<longleftrightarrow> True"
| "leaves_owed alsoRead k (Closed _) \<longleftrightarrow> False"

lemma frame_owes: "says_new answer ev f \<Longrightarrow> k \<in> set ks \<Longrightarrow> owed k (onEvent everyMs ks now answer ev f)"
  by (simp add: says_new_def onEvent_def readSoon_def owed_def split: option.split)

lemma happen_owed:
  assumes "owed k f" "k = describeKey \<or> k \<in> set alsoRead" "leaves_owed alsoRead k h" "happen everyMs describeKey alsoRead h f = (out, f')"
  shows "owed k f' \<or> (\<exists>(t, ks)\<in>set out. k \<in> set ks)"
proof (cases h)
  case (Frame now answer ev)
  then show ?thesis
    using assms frame_owes [of answer ev f k "describeKey # alsoRead" everyMs now]
    by (auto simp: happen_def onEvent_def says_new_def owed_def readSoon_def split: if_splits)
qed (use assms in \<open>auto simp: happen_def onResync_def readSoon_def read_now_def owed_def Let_def filter_empty_conv split: if_splits option.splits\<close>)

lemma follow_owed:
  "owed k f \<Longrightarrow> k = describeKey \<or> k \<in> set alsoRead \<Longrightarrow> list_all (leaves_owed alsoRead k) hs \<Longrightarrow>
    follow everyMs describeKey alsoRead hs f = (outs, f') \<Longrightarrow> owed k f' \<or> (\<exists>(t, ks)\<in>set outs. k \<in> set ks)"
proof (induction hs arbitrary: f outs)
  case (Cons h hs)
  obtain out f1 where h: "happen everyMs describeKey alsoRead h f = (out, f1)" by (cases "happen everyMs describeKey alsoRead h f")
  obtain outs1 where r: "follow everyMs describeKey alsoRead hs f1 = (outs1, f')" "outs = out @ outs1"
    using Cons.prems(4) h by (auto split: prod.splits)
  have "owed k f1 \<or> (\<exists>(t, ks)\<in>set out. k \<in> set ks)" using happen_owed [OF Cons.prems(1,2) _ h] Cons.prems(3) by simp
  then show ?case using Cons.IH [OF _ Cons.prems(2) _ r(1)] Cons.prems(3) r(2) by auto
qed simp

text \<open>
  C18: A change of the object is read: after a frame that says something new, whatever other frames, timer ends and resyncs of the
  tables come, the answer and each table has been read, or still waits for a timer whose next end that does not find it being read
  reads it.
\<close>

theorem change_is_read:
  assumes "says_new answer ev f" "k = describeKey \<or> k \<in> set alsoRead" "list_all (leaves_owed alsoRead k) hs"
    "follow everyMs describeKey alsoRead (Frame now answer ev # hs) f = (outs, f')"
  shows "(\<exists>(t, ks)\<in>set outs. k \<in> set ks) \<or>
    (\<exists>d. f_timer f' = Some d \<and> (\<forall>t fetching. d \<le> t \<longrightarrow> \<not> fetching k \<longrightarrow>
      (\<exists>ks f''. happen everyMs describeKey alsoRead (Timer_End t fetching) f' = ([(t, ks)], f'') \<and> k \<in> set ks)))"
proof -
  let ?f = "onEvent everyMs (describeKey # alsoRead) now answer ev f"
  have "owed k ?f" using frame_owes [OF assms(1), of k "describeKey # alsoRead"] assms(2) by auto
  moreover have "follow everyMs describeKey alsoRead hs ?f = (outs, f')"
    using assms(4) by (simp add: happen_def split: prod.splits)
  ultimately have "owed k f' \<or> (\<exists>(t, ks)\<in>set outs. k \<in> set ks)" by (rule follow_owed [OF _ assms(2,3)])
  then show ?thesis by (auto simp: owed_def happen_def read_now_def Let_def)
qed

text \<open>A drawer that opened, saw a change and a timer end.\<close>

theorem change_is_read_witness:
  "\<exists>outs f'. follow 1000 ''pod'' [''logs''] [Frame 5 CNull \<lparr>fr_type = ''MODIFIED'', fr_object = CObj []\<rparr>, Timer_End 1005 (\<lambda>_. False)] new_follower = (outs, f') \<and>
    ((\<exists>(t, ks)\<in>set outs. ''pod'' \<in> set ks) \<or> f_timer f' \<noteq> None)"
proof -
  let ?hs = "[Timer_End 1005 (\<lambda>_. False)] :: string happening list"
  obtain outs f' where r: "follow 1000 ''pod'' [''logs''] (Frame 5 CNull \<lparr>fr_type = ''MODIFIED'', fr_object = CObj []\<rparr> # ?hs) new_follower = (outs, f')"
    by (metis surj_pair)
  have "(\<exists>(t, ks)\<in>set outs. ''pod'' \<in> set ks) \<or> f_timer f' \<noteq> None"
    using change_is_read [OF _ _ _ r, of "''pod''"] by (auto simp: says_new_def says_held_def new_follower_def)
  with r show ?thesis by blast
qed

section \<open>At most one read in a while\<close>

text \<open>The next timer end lies at least \<open>everyMs\<close> after the last read and at most \<open>everyMs\<close> after now.\<close>

definition paced :: "int \<Rightarrow> int option \<Rightarrow> int \<Rightarrow> 'k follower \<Rightarrow> bool" where
  "paced everyMs lastRead now f \<longleftrightarrow> (case lastRead of None \<Rightarrow> True | Some t \<Rightarrow> t \<le> now) \<and>
     (case f_timer f of None \<Rightarrow> True | Some d \<Rightarrow> d \<le> now + everyMs \<and> (case lastRead of None \<Rightarrow> True | Some t \<Rightarrow> t + everyMs \<le> d))"

definition last_read :: "int option \<Rightarrow> (int \<times> 'k list) list \<Rightarrow> int option" where
  "last_read t out = (case out of [] \<Rightarrow> t | (t', _) # _ \<Rightarrow> Some t')"

lemma happen_paced:
  assumes "paced everyMs t now f" "now \<le> happening_time h" "everyMs \<ge> 0" "happen everyMs k ks h f = (out, f')"
  shows "paced everyMs (last_read t out) (happening_time h) f' \<and>
    (out = [] \<or> (\<exists>r. out = [(happening_time h, r)] \<and> (\<forall>t'. t = Some t' \<longrightarrow> t' + everyMs \<le> happening_time h)))"
  using assms
  by (cases h) (auto simp: paced_def happen_def onEvent_def onResync_def readSoon_def read_now_def stop_following_def last_read_def Let_def
      split: option.splits if_splits)

lemma follow_paced:
  "paced everyMs t now f \<Longrightarrow> sorted_wrt (\<le>) (now # map happening_time hs) \<Longrightarrow> everyMs \<ge> 0 \<Longrightarrow> follow everyMs k ks hs f = (outs, f') \<Longrightarrow>
    sorted_wrt (\<lambda>a b. fst a + everyMs \<le> fst b) outs \<and> (\<forall>t'. t = Some t' \<longrightarrow> (\<forall>a\<in>set outs. t' + everyMs \<le> fst a))"
proof (induction hs arbitrary: t now f outs)
  case (Cons h hs)
  obtain out f1 where h: "happen everyMs k ks h f = (out, f1)" by (cases "happen everyMs k ks h f")
  obtain outs1 where r: "follow everyMs k ks hs f1 = (outs1, f')" "outs = out @ outs1" using Cons.prems(4) h by (auto split: prod.splits)
  from happen_paced [OF Cons.prems(1) _ Cons.prems(3) h] Cons.prems(2)
  have p: "paced everyMs (last_read t out) (happening_time h) f1"
      "out = [] \<or> (\<exists>r. out = [(happening_time h, r)] \<and> (\<forall>t'. t = Some t' \<longrightarrow> t' + everyMs \<le> happening_time h))" by auto
  from Cons.IH [OF p(1) _ Cons.prems(3) r(1)] Cons.prems(2)
  have i: "sorted_wrt (\<lambda>a b. fst a + everyMs \<le> fst b) outs1" "\<forall>t'. last_read t out = Some t' \<longrightarrow> (\<forall>a\<in>set outs1. t' + everyMs \<le> fst a)" by auto
  from p(2) show ?case
  proof
    assume "out = []"
    with i r(2) show ?case by (simp add: last_read_def)
  next
    assume "\<exists>r. out = [(happening_time h, r)] \<and> (\<forall>t'. t = Some t' \<longrightarrow> t' + everyMs \<le> happening_time h)"
    with i r(2) Cons.prems(3) show ?case by (fastforce simp: last_read_def)
  qed
qed simp

text \<open>However often the object changes, the drawer's reads lie at least \<open>everyMs\<close> apart.\<close>

theorem reads_apart:
  assumes "everyMs \<ge> 0" "sorted (map happening_time hs)" "follow everyMs describeKey alsoRead hs new_follower = (outs, f')"
  shows "sorted_wrt (\<lambda>a b. fst a + everyMs \<le> fst b) outs"
proof (cases hs)
  case Nil
  with assms(3) show ?thesis by simp
next
  case (Cons h _)
  have "paced everyMs None (happening_time h) new_follower" by (simp add: paced_def new_follower_def)
  from follow_paced [OF this _ assms(1,3)] assms(2) Cons show ?thesis by simp
qed

theorem reads_apart_witness:
  "sorted_wrt (\<lambda>a b. fst a + 1000 \<le> fst b) (fst (follow 1000 ''pod'' []
     [Frame 5 CNull \<lparr>fr_type = ''MODIFIED'', fr_object = CObj []\<rparr>, Timer_End 1005 (\<lambda>_. True), Timer_End 2005 (\<lambda>_. False)] new_follower))"
  by (rule reads_apart [of 1000 "[Frame 5 CNull \<lparr>fr_type = ''MODIFIED'', fr_object = CObj []\<rparr>, Timer_End 1005 (\<lambda>_. True), Timer_End 2005 (\<lambda>_. False)]"
        "''pod''" "[]" _ "snd (follow 1000 ''pod'' [] [Frame 5 CNull \<lparr>fr_type = ''MODIFIED'', fr_object = CObj []\<rparr>, Timer_End 1005 (\<lambda>_. True),
          Timer_End 2005 (\<lambda>_. False)] new_follower)"]) simp_all

end
