(* ===== verification/Chat_History.thy ===== *)
theory Chat_History
  imports Chat_Stream "HOL-Library.Sublist"
begin

text \<open>
  A conversation on screen: its saved messages, read a page at a time (\<^verbatim>\<open>frontend/src/services/sessionMessages.ts\<close>), with the turns they do
  not hold (\<^verbatim>\<open>components/FloatingAIChat/turnsOnScreen.ts\<close>), and the list of conversations (\<^verbatim>\<open>pages/ai-chat/useChatSessions.ts\<close>).
\<close>

text \<open>\<^verbatim>\<open>xs[i]\<close>, \<open>None\<close> where it is \<^verbatim>\<open>undefined\<close>, and \<^verbatim>\<open>xs.slice(i, j)\<close>.\<close>

definition item :: "'a list \<Rightarrow> nat \<Rightarrow> 'a option" where
  "item xs i = (if i < length xs then Some (xs ! i) else None)"

definition jslice :: "'a list \<Rightarrow> nat \<Rightarrow> nat \<Rightarrow> 'a list" where
  "jslice xs i j = take (j - i) (drop i xs)"

section \<open>Pages of messages\<close>

text \<open>A message has an id or, before it is saved, perhaps none: \<open>mid\<close> reads it. Ids are any type.\<close>

definition mergeNewestPage :: "('m \<Rightarrow> 'i option) \<Rightarrow> 'm list \<Rightarrow> 'm list \<Rightarrow> 'm list" where
  "mergeNewestPage mid shown newest = (case findIndex (\<lambda>m. mid m \<in> set (map mid newest)) shown of
      Some n \<Rightarrow> if n > 0 then jslice shown 0 n @ newest else newest
    | None \<Rightarrow> newest)"

text \<open>An answer of the conversation: the number of messages before its page (none reads as 0), and the page.\<close>

definition hiddenEarlier :: "('m \<Rightarrow> 'i option) \<Rightarrow> nat option \<times> 'm list \<Rightarrow> 'm list \<Rightarrow> nat" where
  "hiddenEarlier mid detail shown =
     (let above = (case snd detail of [] \<Rightarrow> None
        | f # _ \<Rightarrow> (case mid f of None \<Rightarrow> None | Some i \<Rightarrow> findIndex (\<lambda>m. mid m = Some i) shown)) in
      (case fst detail of None \<Rightarrow> 0 | Some n \<Rightarrow> n) - (case above of None \<Rightarrow> 0 | Some n \<Rightarrow> n))"

definition prependEarlier :: "('m \<Rightarrow> 'i option) \<Rightarrow> 'm list \<Rightarrow> 'm list \<Rightarrow> 'm list" where
  "prependEarlier mid shown page = filter (\<lambda>m. mid m \<notin> set (map mid shown)) page @ shown"

text \<open>With numbers as ids; a temporary id is a text, which is none of them.\<close>

definition olderThanNewestPage :: "int option \<Rightarrow> int option list \<Rightarrow> bool" where
  "olderThanNewestPage i newest = (case newest of
      [] \<Rightarrow> False
    | f # _ \<Rightarrow> (case (i, f) of (Some a, Some b) \<Rightarrow> a < b | _ \<Rightarrow> False))"

section \<open>The turns on screen\<close>

datatype role = User | Assistant | Error

text \<open>A bubble; absent \<^verbatim>\<open>pending\<close> is false, and absent \<^verbatim>\<open>toolCalls\<close> is \<open>None\<close>.\<close>

record display_message =
  role :: role
  d_content :: ustr
  pending :: bool
  d_toolCalls :: "cval list option"

definition user_bubble :: "ustr \<Rightarrow> bool \<Rightarrow> display_message" where
  "user_bubble q p = \<lparr>role = User, d_content = q, pending = p, d_toolCalls = None\<rparr>"

definition answer_bubble :: "ustr \<Rightarrow> cval list \<Rightarrow> bool \<Rightarrow> display_message list" where
  "answer_bubble text calls p =
     (if text \<noteq> [] \<or> p then
        [\<lparr>role = Assistant, d_content = text, pending = p, d_toolCalls = (if calls \<noteq> [] then Some calls else None)\<rparr>] else [])"

text \<open>An error, its key and its arguments; an empty error shows nothing.\<close>

type_synonym failure = "ustr option \<times> ustr option \<times> cval option"

definition failure_bubble :: "(failure \<Rightarrow> ustr) \<Rightarrow> failure \<Rightarrow> display_message list" where
  "failure_bubble errorText f = (case fst f of
      None \<Rightarrow> []
    | Some e \<Rightarrow> if e = [] then [] else [\<lparr>role = Error, d_content = errorText f, pending = False, d_toolCalls = None\<rparr>])"

definition turn_failure :: "failed_turn \<Rightarrow> failure" where
  "turn_failure t = (ft_error t, ft_errorKey t, ft_errorArgs t)"

definition state_failure :: "chat_state \<Rightarrow> failure" where
  "state_failure s = (error s, errorKey s, errorArgs s)"

definition asks :: "display_message option \<Rightarrow> ustr \<Rightarrow> bool" where
  "asks m q \<longleftrightarrow> (case m of None \<Rightarrow> False | Some m \<Rightarrow> role m = User \<and> d_content m = q)"

text \<open>The bubbles so far and the number of saved messages among them.\<close>

type_synonym screen = "display_message list \<times> nat"

definition savedUpTo :: "display_message list \<Rightarrow> nat \<Rightarrow> screen \<Rightarrow> screen" where
  "savedUpTo saved e sc = (case sc of (out, shown) \<Rightarrow> (out @ jslice saved shown e, max shown e))"

definition push :: "display_message list \<Rightarrow> screen \<Rightarrow> screen" where
  "push bs sc = (fst sc @ bs, snd sc)"

definition lettersSaved :: "display_message list \<Rightarrow> nat \<Rightarrow> failed_turn \<Rightarrow> bool" where
  "lettersSaved saved shown t \<longleftrightarrow> stopped t \<and> ft_content t \<noteq> [] \<and>
     list_ex (\<lambda>m. role m = Assistant \<and> d_content m = ft_content t) (drop (max shown (askedAt t)) saved)"

text \<open>One failed or stopped turn; \<open>next\<close> is the question after it.\<close>

definition place_turn :: "(failure \<Rightarrow> ustr) \<Rightarrow> display_message list \<Rightarrow> ustr option \<Rightarrow> failed_turn \<Rightarrow> screen \<Rightarrow> screen" where
  "place_turn errorText saved nextq t sc =
     (let shown = snd sc in
      if lettersSaved saved shown t then sc
      else
        let at0 = max shown (ft_savedBefore t);
            reachedScreen = (at0 > shown \<and> asks (item saved (at0 - 1)) (question t));
            at1 = (if reachedScreen then at0 - 1 else at0);
            sc1 = savedUpTo saved at1 sc;
            sc2 = (if asks (item saved at1) (question t) \<and>
                      (reachedScreen \<or> nextq \<noteq> Some (question t) \<or> asks (item saved (at1 + 1)) (question t))
                   then savedUpTo saved (at1 + 1) sc1 else push [user_bubble (question t) False] sc1)
        in push (answer_bubble (ft_content t) (ft_toolCalls t) False @ failure_bubble errorText (turn_failure t)) sc2)"

fun place_turns :: "(failure \<Rightarrow> ustr) \<Rightarrow> display_message list \<Rightarrow> ustr option \<Rightarrow> failed_turn list \<Rightarrow> screen \<Rightarrow> screen" where
  "place_turns errorText saved current [] sc = sc"
| "place_turns errorText saved current (t # ts) sc =
     place_turns errorText saved current ts
       (place_turn errorText saved (case ts of t' # _ \<Rightarrow> Some (question t') | [] \<Rightarrow> current) t sc)"

text \<open>The last saved message from an index on that asks the question.\<close>

definition last_asked :: "display_message list \<Rightarrow> ustr \<Rightarrow> nat \<Rightarrow> nat option" where
  "last_asked saved q from = List.find (\<lambda>i. asks (item saved i) q) (rev [from..<length saved])"

definition turnsOnScreen :: "(failure \<Rightarrow> ustr) \<Rightarrow> display_message list \<Rightarrow> chat_state \<Rightarrow> display_message list" where
  "turnsOnScreen errorText saved s =
     (let sc = place_turns errorText saved (userMessage s) (failedTurns s) ([], 0) in
      case (if status s = Idle then None else userMessage s) of
        None \<Rightarrow> fst (savedUpTo saved (length saved) sc)
      | Some q \<Rightarrow>
          (let asked = last_asked saved q (max (snd sc) (savedBefore s));
               sc1 = savedUpTo saved (case asked of Some i \<Rightarrow> i + 1 | None \<Rightarrow> length saved) sc;
               sc2 = (if asked = None then push [user_bubble q (isStreaming s)] sc1 else sc1);
               answerSaved = (case asked of None \<Rightarrow> False
                 | Some i \<Rightarrow> (case item saved (i + 1) of None \<Rightarrow> False | Some m \<Rightarrow> role m = Assistant) \<and> (status s = Completed \<or> status s = Aborted));
               sc3 = savedUpTo saved (length saved) sc2
           in if answerSaved then fst sc3
              else fst (push (answer_bubble (content s) (toolCalls s) (isStreaming s) @ failure_bubble errorText (state_failure s)) sc3)))"

section \<open>The list of conversations\<close>

record session =
  s_id :: string
  updated_at :: string

definition SESSIONS_PAGE_SIZE :: nat where
  "SESSIONS_PAGE_SIZE = 50"

text \<open>A cursor: the last conversation's time and id, \<open>None\<close> for the first page.\<close>

type_synonym cursor = "(string \<times> string) option"

definition cursor_of :: "session \<Rightarrow> cursor" where
  "cursor_of s = Some (updated_at s, s_id s)"

text \<open>The next page's cursor, \<open>None\<close> where there is no next page.\<close>

definition getNextPageParam :: "session list \<Rightarrow> (string \<times> string) option" where
  "getNextPageParam lastPage = (if length lastPage < SESSIONS_PAGE_SIZE \<or> lastPage = [] then None else cursor_of (last lastPage))"

fun first_of_each :: "string list \<Rightarrow> session list \<Rightarrow> session list" where
  "first_of_each seen [] = []"
| "first_of_each seen (s # ss) = (if s_id s \<in> set seen then first_of_each seen ss else s # first_of_each (s_id s # seen) ss)"

definition getFlattenedSessions :: "session list list \<Rightarrow> session list" where
  "getFlattenedSessions pages = first_of_each [] (concat pages)"

function chunks :: "session list \<Rightarrow> session list list" where
  "chunks [] = []"
| "chunks (s # ss) = take SESSIONS_PAGE_SIZE (s # ss) # chunks (drop SESSIONS_PAGE_SIZE (s # ss))"
  by pat_completeness auto
termination
  by (relation "measure length") (auto simp: SESSIONS_PAGE_SIZE_def)

fun page_params :: "cursor \<Rightarrow> session list list \<Rightarrow> cursor list" where
  "page_params c [] = []"
| "page_params c (p # ps) = c # page_params (if p = [] then c else cursor_of (last p)) ps"

definition buildSessionsInfiniteData :: "session list \<Rightarrow> session list list \<times> cursor list" where
  "buildSessionsInfiniteData sessions = (if chunks sessions = [] then [[]] else chunks sessions, page_params None (chunks sessions))"

definition upsertSessionAtFront :: "session \<Rightarrow> string option \<Rightarrow> session list list \<Rightarrow> session list list \<times> cursor list" where
  "upsertSessionAtFront s optimisticId old = buildSessionsInfiniteData
     (s # filter (\<lambda>x. s_id x \<noteq> s_id s \<and> (case optimisticId of None \<Rightarrow> True | Some i \<Rightarrow> i = [] \<or> s_id x \<noteq> i)) (getFlattenedSessions old))"

definition isTempSessionId :: "string \<Rightarrow> bool" where
  "isTempSessionId i = startsWith i ''temp:''"

definition sessionsList :: "session list \<Rightarrow> session list list \<Rightarrow> session list" where
  "sessionsList pinned pages =
     (let bs = getFlattenedSessions pages;
          pinnedVisible = filter (\<lambda>s. isTempSessionId (s_id s) \<or> s_id s \<notin> set (map s_id bs)) pinned in
      pinnedVisible @ filter (\<lambda>s. s_id s \<notin> set (map s_id pinnedVisible)) bs)"

end
