(* ===== verification/Chat_History_Props.thy ===== *)
theory Chat_History_Props
  imports Chat_History
begin

text \<open>
  What a conversation's screen keeps (\<open>Chat_History\<close>): a gap-free end of the saved messages, every one of them once and in order among the
  turns they do not hold, and each conversation once in the list.
\<close>

section \<open>Pages\<close>

lemma jslice_append: "i \<le> j \<Longrightarrow> j \<le> k \<Longrightarrow> jslice xs i j @ jslice xs j k = jslice xs i k"
  by (auto simp: jslice_def take_add add.commute elim!: le_Suc_ex [elim_format])

lemma jslice_end: "length xs \<le> j \<Longrightarrow> jslice xs i j = drop i xs"
  by (simp add: jslice_def)

lemma set_jslice: "set (jslice xs i j) \<subseteq> set xs"
  by (auto simp: jslice_def dest: in_set_takeD in_set_dropD)

lemma findIndex_at: "(\<And>y. y \<in> set ys \<Longrightarrow> \<not> P y) \<Longrightarrow> P x \<Longrightarrow> findIndex P (ys @ x # zs) = Some (length ys)"
  by (induction ys) auto

lemma ids_apart:
  assumes "distinct (map mid h)"
  shows "mid x \<in> set (map mid (drop p h)) \<Longrightarrow> x \<in> set h \<Longrightarrow> x \<in> set (drop p h)"
proof -
  assume "mid x \<in> set (map mid (drop p h))" "x \<in> set h"
  then obtain y where "y \<in> set (drop p h)" "mid y = mid x" by auto
  moreover from this have "y \<in> set h" by (blast dest: in_set_dropD)
  ultimately show ?thesis using \<open>x \<in> set h\<close> assms by (metis distinct_map inj_on_def)
qed

lemma jslice_drop_disjoint: "distinct h \<Longrightarrow> j \<le> p \<Longrightarrow> x \<in> set (jslice h i j) \<Longrightarrow> x \<notin> set (drop p h)"
proof -
  assume "distinct h" "j \<le> p" "x \<in> set (jslice h i j)"
  then have "x \<in> set (take p h)"
    by (auto simp: jslice_def in_set_conv_nth) (metis (no_types, lifting) add.commute diff_is_0_eq length_drop less_diff_conv min_less_iff_conj nat_le_linear nth_take order_less_le_trans take_all)
  then show ?thesis using \<open>distinct h\<close> set_take_disj_set_drop_if_distinct [of h p p] by blast
qed

lemma mergeNewestPage_no_gap:
  assumes "distinct (map mid h)" "a \<le> b" "b \<le> length h" "p < length h" "\<forall>m\<in>set temps. mid m \<notin> set (map mid h)"
  shows "mergeNewestPage mid (jslice h a b @ temps) (drop p h) = drop (if a < p \<and> p < b then a else p) h"
proof -
  let ?P = "\<lambda>m. mid m \<in> set (map mid (drop p h))"
  have d: "distinct h" using assms(1) by (simp add: distinct_map)
  have temps: "\<not> ?P m" if "m \<in> set temps" for m using assms(5) that by (auto dest: in_set_dropD)
  have before: "\<not> ?P m" if "m \<in> set (jslice h a j)" "j \<le> p" for m j
    using that jslice_drop_disjoint [OF d that(2)] ids_apart [OF assms(1)] set_jslice [of h a j] by blast
  show ?thesis
  proof (cases "a < p \<and> p < b")
    case True
    have s: "jslice h a b = jslice h a p @ h ! p # jslice h (p + 1) b"
      using True assms(3) jslice_append [of a p b h] by (simp add: jslice_def Cons_nth_drop_Suc [symmetric] take_Cons')
    have "h ! p \<in> set (drop p h)" using assms(4) by (simp add: Cons_nth_drop_Suc [symmetric])
    then have "findIndex ?P (jslice h a b @ temps) = Some (length (jslice h a p))"
      using before [of _ p] findIndex_at [of "jslice h a p" ?P "h ! p"] by (simp add: s)
    moreover have "length (jslice h a p) = p - a" using assms(4) by (simp add: jslice_def)
    moreover have "jslice (jslice h a b @ temps) 0 (p - a) = jslice h a p" using calculation(2) by (simp add: s) (simp add: jslice_def)
    moreover have "jslice h a p @ drop p h = drop a h" using True jslice_append [of a p "length h" h] assms(4) by (simp add: jslice_end)
    ultimately show ?thesis using True by (simp add: mergeNewestPage_def)
  next
    case False
    have "findIndex ?P (jslice h a b @ temps) = None \<or> findIndex ?P (jslice h a b @ temps) = Some 0"
    proof (cases "b \<le> p")
      case True
      with before temps have "findIndex ?P (jslice h a b @ temps) = None" by (auto simp: findIndex_None_iff)
      then show ?thesis by simp
    next
      case bp: False
      with False have "p \<le> a" by simp
      show ?thesis
      proof (cases "a = b")
        case True
        with temps have "findIndex ?P (jslice h a b @ temps) = None" by (auto simp: findIndex_None_iff jslice_def)
        then show ?thesis by simp
      next
        case False
        then obtain r where r: "jslice h a b = h ! a # r" using assms(2,3) by (auto simp: jslice_def Cons_nth_drop_Suc [symmetric] take_Cons')
        have "h ! a \<in> set (drop p h)"
          using False \<open>p \<le> a\<close> assms(2,3) by (auto simp: in_set_conv_nth intro!: exI [of _ "a - p"])
        then show ?thesis by (simp add: r)
      qed
    qed
    then show ?thesis using False by (auto simp: mergeNewestPage_def)
  qed
qed

lemma prependEarlier_no_gap:
  assumes "distinct (map mid h)" "c \<le> a" "a \<le> length h"
  shows "prependEarlier mid (drop a h) (jslice h c a) = drop c h"
proof -
  have d: "distinct h" using assms(1) by (simp add: distinct_map)
  have "filter (\<lambda>m. mid m \<notin> set (map mid (drop a h))) (jslice h c a) = jslice h c a"
    using jslice_drop_disjoint [OF d, of a a] ids_apart [OF assms(1), of _ a] set_jslice [of h c a] by (intro filter_True) blast
  then show ?thesis
    using jslice_append [of c a "length h" h] assms by (simp add: prependEarlier_def jslice_end)
qed

lemma hiddenEarlier_counts:
  assumes "distinct (map mid h)" "p < length h" "\<forall>m\<in>set h. mid m \<noteq> None" "a \<le> p"
  shows "hiddenEarlier mid (Some p, drop p h) (drop a h) = a"
proof -
  have d: "distinct h" using assms(1) by (simp add: distinct_map)
  have before: "mid m \<notin> set (map mid (drop p h))" if "m \<in> set (jslice h a p)" for m
    using that jslice_drop_disjoint [OF d order_refl] ids_apart [OF assms(1)] set_jslice [of h a p] by blast
  have s: "drop a h = jslice h a p @ drop p h" using jslice_append [of a p "length h" h] assms(2,4) by (simp add: jslice_end)
  obtain i where i: "mid (h ! p) = Some i" using assms(2,3) by force
  have "mid m \<noteq> Some i" if "m \<in> set (jslice h a p)" for m
    using before [OF that] assms(2) i by (auto simp: Cons_nth_drop_Suc [symmetric])
  then have "findIndex (\<lambda>m. mid m = Some i) (drop a h) = Some (p - a)"
    using assms(2) i findIndex_at [of "jslice h a p" "\<lambda>m. mid m = Some i" "h ! p" "drop (Suc p) h"]
    by (simp add: s Cons_nth_drop_Suc [symmetric]) (simp add: jslice_def)
  then show ?thesis
    using assms(2,4) i by (simp add: hiddenEarlier_def Cons_nth_drop_Suc [symmetric])
qed



section \<open>Turns\<close>

lemma append_shuffled: "ys @ as \<in> shuffles as ys"
  by (induction ys) (auto intro: Cons_in_shuffles_rightI)

lemma shuffles_snoc_left: "zs \<in> shuffles xs ys \<Longrightarrow> zs @ as \<in> shuffles (xs @ as) ys"
  by (induction xs ys arbitrary: zs rule: shuffles.induct) (auto simp: append_shuffled)

lemma subseq_append_self [simp]: "subseq xs (xs @ ys)"
  by (induction xs) auto

lemma shuffles_snoc_right: "zs \<in> shuffles xs ys \<Longrightarrow> zs @ bs \<in> shuffles xs (ys @ bs)"
  using shuffles_snoc_left [of zs ys xs bs] by (simp add: shuffles_commutes)

text \<open>The bubbles a turn may add, and those it must: an answer and its error, unless it was stopped.\<close>

definition turn_bubbles :: "(failure \<Rightarrow> ustr) \<Rightarrow> failed_turn \<Rightarrow> display_message list" where
  "turn_bubbles errorText t =
     user_bubble (question t) False # answer_bubble (ft_content t) (ft_toolCalls t) False @ failure_bubble errorText (turn_failure t)"

definition turn_answer :: "(failure \<Rightarrow> ustr) \<Rightarrow> failed_turn \<Rightarrow> display_message list" where
  "turn_answer errorText t =
     (if stopped t then [] else answer_bubble (ft_content t) (ft_toolCalls t) False @ failure_bubble errorText (turn_failure t))"

definition current_bubbles :: "(failure \<Rightarrow> ustr) \<Rightarrow> chat_state \<Rightarrow> display_message list" where
  "current_bubbles errorText s = (case userMessage s of
      None \<Rightarrow> []
    | Some q \<Rightarrow> user_bubble q (isStreaming s) # answer_bubble (content s) (toolCalls s) (isStreaming s) @ failure_bubble errorText (state_failure s))"

text \<open>A screen's bubbles are the saved messages up to its number, shuffled with others that the turns made.\<close>

definition screen_ok :: "display_message list \<Rightarrow> display_message list \<Rightarrow> display_message list \<Rightarrow> screen \<Rightarrow> bool" where
  "screen_ok saved must may sc \<longleftrightarrow> (\<exists>bs. fst sc \<in> shuffles (take (snd sc) saved) bs \<and> subseq must bs \<and> subseq bs may)"

lemma screen_ok_saved: "screen_ok saved must may sc \<Longrightarrow> screen_ok saved must may (savedUpTo saved e sc)"
proof -
  assume "screen_ok saved must may sc"
  then obtain bs where b: "fst sc \<in> shuffles (take (snd sc) saved) bs" "subseq must bs" "subseq bs may" by (auto simp: screen_ok_def)
  have "take (snd sc) saved @ jslice saved (snd sc) e = take (max (snd sc) e) saved"
  proof (cases "snd sc \<le> e")
    case True
    then show ?thesis using jslice_append [of 0 "snd sc" e saved] by (simp add: jslice_def)
  qed (simp add: jslice_def)
  with shuffles_snoc_left [OF b(1), of "jslice saved (snd sc) e"] b(2,3) show ?thesis
    by (cases sc) (auto simp: screen_ok_def savedUpTo_def)
qed

lemma screen_ok_push:
  assumes "screen_ok saved must may sc"
  shows "screen_ok saved (must @ bs) (may @ bs) (push bs sc)"
proof -
  from assms obtain cs where "fst sc \<in> shuffles (take (snd sc) saved) cs" "subseq must cs" "subseq cs may" by (auto simp: screen_ok_def)
  then show ?thesis unfolding screen_ok_def push_def
    by (intro exI [of _ "cs @ bs"]) (auto intro: shuffles_snoc_right list_emb_append_mono)
qed

lemma screen_ok_mono: "screen_ok saved must may sc \<Longrightarrow> subseq must' must \<Longrightarrow> subseq may may' \<Longrightarrow> screen_ok saved must' may' sc"
  by (auto simp: screen_ok_def)

lemma place_turn_ok:
  assumes "screen_ok saved must may sc"
  shows "screen_ok saved (must @ turn_answer errorText t) (may @ turn_bubbles errorText t) (place_turn errorText saved nextq t sc)"
proof (cases "lettersSaved saved (snd sc) t")
  case True
  then have "stopped t" by (simp add: lettersSaved_def)
  with True screen_ok_mono [OF assms, of must "may @ turn_bubbles errorText t"] show ?thesis by (simp add: place_turn_def turn_answer_def)
next
  case False
  let ?as = "answer_bubble (ft_content t) (ft_toolCalls t) False @ failure_bubble errorText (turn_failure t)"
  have must: "subseq (turn_answer errorText t) ?as" by (simp add: turn_answer_def)
  obtain sc2 where p: "place_turn errorText saved nextq t sc = push ?as sc2"
      "screen_ok saved must (may @ [user_bubble (question t) False]) sc2"
  proof -
    have q: "screen_ok saved must (may @ [user_bubble (question t) False]) (savedUpTo saved j (savedUpTo saved i sc))"
        "screen_ok saved must (may @ [user_bubble (question t) False]) (push [user_bubble (question t) False] (savedUpTo saved i sc))" for i j
      using screen_ok_mono [OF screen_ok_saved [OF screen_ok_saved [OF assms, of i], of j], of must "may @ [user_bubble (question t) False]"]
        screen_ok_mono [OF screen_ok_push [OF screen_ok_saved [OF assms, of i], of "[user_bubble (question t) False]"], of must]
      by simp_all
    with False that show thesis unfolding place_turn_def Let_def by (auto split: if_splits)
  qed
  have "screen_ok saved (must @ ?as) (may @ [user_bubble (question t) False] @ ?as) (push ?as sc2)"
    using screen_ok_push [OF p(2), of ?as] by simp
  then show ?thesis unfolding p(1)
    by (rule screen_ok_mono) (auto simp: turn_bubbles_def intro: list_emb_append_mono must)
qed

lemma place_turns_ok:
  "screen_ok saved must may sc \<Longrightarrow>
    screen_ok saved (must @ concat (map (turn_answer errorText) ts)) (may @ concat (map (turn_bubbles errorText) ts)) (place_turns errorText saved current ts sc)"
proof (induction ts arbitrary: must may sc)
  case (Cons t ts)
  show ?case using Cons.IH [OF place_turn_ok [OF Cons.prems, of errorText t]] by simp
qed simp

text \<open>
  C22: The chat's list holds every saved message exactly once and in order, whatever the turns it does not hold: it is the saved messages
  shuffled with bubbles that come, in order, from the failed and stopped turns and from the turn going on or just ended, and of every turn
  that failed, its letters and its error are among them.
\<close>

theorem turns_keep_saved:
  "\<exists>bubbles. turnsOnScreen errorText saved s \<in> shuffles saved bubbles \<and>
    subseq (concat (map (turn_answer errorText) (failedTurns s))) bubbles \<and>
    subseq bubbles (concat (map (turn_bubbles errorText) (failedTurns s)) @ current_bubbles errorText s)"
proof -
  let ?must = "concat (map (turn_answer errorText) (failedTurns s))" and ?may = "concat (map (turn_bubbles errorText) (failedTurns s))"
  define sc where "sc = place_turns errorText saved (userMessage s) (failedTurns s) ([], 0)"
  have "screen_ok saved [] [] ([], 0)" by (simp add: screen_ok_def)
  from place_turns_ok [OF this] have ok: "screen_ok saved ?must ?may sc" by (simp add: sc_def)
  have all: "snd (savedUpTo saved (length saved) c) \<ge> length saved" for c by (cases c) (simp add: savedUpTo_def)
  have whole: "\<exists>bs. fst c \<in> shuffles saved bs \<and> subseq must bs \<and> subseq bs may" if "screen_ok saved must may c" "snd c \<ge> length saved" for must may c
    using that by (auto simp: screen_ok_def)
  have goal: ?thesis if "screen_ok saved ?must (?may @ current_bubbles errorText s) c" "snd c \<ge> length saved" "turnsOnScreen errorText saved s = fst c" for c
    using whole [OF that(1,2)] that(3) by auto
  show ?thesis
  proof (cases "if status s = Idle then None else userMessage s")
    case None
    then have "turnsOnScreen errorText saved s = fst (savedUpTo saved (length saved) sc)" by (simp add: turnsOnScreen_def sc_def)
    from goal [OF screen_ok_mono [OF screen_ok_saved [OF ok]] all this] show ?thesis by simp
  next
    case (Some q)
    then have q: "userMessage s = Some q" by (simp split: if_splits)
    define sc1 where "sc1 = savedUpTo saved (case last_asked saved q (max (snd sc) (savedBefore s)) of Some i \<Rightarrow> i + 1 | None \<Rightarrow> length saved) sc"
    define sc2 where "sc2 = (if last_asked saved q (max (snd sc) (savedBefore s)) = None then push [user_bubble q (isStreaming s)] sc1 else sc1)"
    define sc3 where "sc3 = savedUpTo saved (length saved) sc2"
    have "screen_ok saved ?must (?may @ [user_bubble q (isStreaming s)]) sc2"
      using screen_ok_mono [OF screen_ok_push [OF screen_ok_saved [OF ok]], of ?must] screen_ok_mono [OF screen_ok_saved [OF ok], of ?must]
      by (simp add: sc2_def sc1_def)
    then have ok3: "screen_ok saved ?must (?may @ [user_bubble q (isStreaming s)]) sc3" unfolding sc3_def by (rule screen_ok_saved)
    let ?as = "answer_bubble (content s) (toolCalls s) (isStreaming s) @ failure_bubble errorText (state_failure s)"
    have "turnsOnScreen errorText saved s = fst sc3 \<or> turnsOnScreen errorText saved s = fst (push ?as sc3)"
      using Some by (simp add: turnsOnScreen_def sc3_def sc2_def sc1_def sc_def Let_def)
    moreover have "screen_ok saved ?must (?may @ current_bubbles errorText s) sc3"
      by (rule screen_ok_mono [OF ok3]) (auto simp: current_bubbles_def q)
    moreover have "screen_ok saved ?must (?may @ current_bubbles errorText s) (push ?as sc3)"
      by (rule screen_ok_mono [OF screen_ok_push [OF ok3, of ?as]]) (auto simp: current_bubbles_def q)
    moreover have "snd sc3 \<ge> length saved" "snd (push ?as sc3) \<ge> length saved" using all by (simp_all add: sc3_def push_def)
    ultimately show ?thesis using goal by blast
  qed
qed

section \<open>The list of conversations\<close>

lemma first_of_each_distinct: "distinct (map s_id (first_of_each seen ss)) \<and> set (map s_id (first_of_each seen ss)) \<inter> set seen = {}"
  by (induction seen ss rule: first_of_each.induct) auto

lemma first_of_each_same: "distinct (map s_id ss) \<Longrightarrow> set (map s_id ss) \<inter> set seen = {} \<Longrightarrow> first_of_each seen ss = ss"
  by (induction seen ss rule: first_of_each.induct) auto

lemma flattened_distinct: "distinct (map s_id (getFlattenedSessions pages))"
  using first_of_each_distinct by (simp add: getFlattenedSessions_def)

lemma concat_chunks: "concat (chunks ss) = ss"
  by (induction ss rule: chunks.induct) simp_all

lemma flatten_build: "distinct (map s_id ss) \<Longrightarrow> getFlattenedSessions (fst (buildSessionsInfiniteData ss)) = ss"
  using concat_chunks [of ss] by (auto simp: buildSessionsInfiniteData_def getFlattenedSessions_def first_of_each_same)

lemma chunks_full: "i < length (chunks ss) \<Longrightarrow> length (chunks ss ! i) = (if Suc i < length (chunks ss) then SESSIONS_PAGE_SIZE else length ss - i * SESSIONS_PAGE_SIZE)"
proof (induction ss arbitrary: i rule: chunks.induct)
  case (2 s ss)
  have rest: "chunks (drop SESSIONS_PAGE_SIZE (s # ss)) = [] \<longleftrightarrow> length (s # ss) \<le> SESSIONS_PAGE_SIZE"
    by (cases "drop SESSIONS_PAGE_SIZE (s # ss)") auto
  show ?case
  proof (cases i)
    case 0
    then show ?thesis using rest by (auto simp: min_def)
  next
    case (Suc j)
    with 2 show ?thesis by (simp add: algebra_simps)
  qed
qed simp

lemma page_params_at: "i < length ps \<Longrightarrow> list_all (\<lambda>p. p \<noteq> []) ps \<Longrightarrow> page_params c ps ! i = (if i = 0 then c else cursor_of (last (ps ! (i - 1))))"
  by (induction c ps arbitrary: i rule: page_params.induct) (auto simp: nth_Cons split: nat.splits)

text \<open>
  A conversation put at the front of the list leaves every other one in it once, in order: the pages read back as it and the others
  (but the optimistic one it replaces), each page but the last is full, and each page's cursor is the last conversation before it.
\<close>

theorem upsert_keeps_sessions:
  assumes "upsertSessionAtFront s optimisticId old = (pages, params)"
  shows "getFlattenedSessions pages = s # filter (\<lambda>x. s_id x \<noteq> s_id s \<and> (optimisticId = None \<or> optimisticId = Some [] \<or> Some (s_id x) \<noteq> optimisticId))
      (getFlattenedSessions old) \<and>
    distinct (map s_id (getFlattenedSessions pages)) \<and>
    (\<forall>i. Suc i < length pages \<longrightarrow> length (pages ! i) = SESSIONS_PAGE_SIZE \<and> params ! Suc i = cursor_of (last (pages ! i)))"
proof -
  let ?ok = "\<lambda>x. s_id x \<noteq> s_id s \<and> (case optimisticId of None \<Rightarrow> True | Some i \<Rightarrow> i = [] \<or> s_id x \<noteq> i)"
  let ?ss = "s # filter ?ok (getFlattenedSessions old)"
  have ok: "?ok = (\<lambda>x. s_id x \<noteq> s_id s \<and> (optimisticId = None \<or> optimisticId = Some [] \<or> Some (s_id x) \<noteq> optimisticId))"
    by (auto simp: fun_eq_iff split: option.split)
  have "distinct (map s_id (filter ?ok (getFlattenedSessions old)))" using flattened_distinct distinct_map_filter by blast
  then have d: "distinct (map s_id ?ss)" by auto
  from assms have p: "pages = fst (buildSessionsInfiniteData ?ss)" "pages = chunks ?ss" "params = page_params None (chunks ?ss)"
    by (auto simp: upsertSessionAtFront_def buildSessionsInfiniteData_def)
  have ne: "list_all (\<lambda>p. p \<noteq> []) (chunks xs)" for xs by (induction xs rule: chunks.induct) (simp_all add: SESSIONS_PAGE_SIZE_def)
  have "length (pages ! i) = SESSIONS_PAGE_SIZE \<and> params ! Suc i = cursor_of (last (pages ! i))" if "Suc i < length pages" for i
    using that chunks_full [of i ?ss] page_params_at [of "Suc i" "chunks ?ss" None] ne [of ?ss] by (simp add: p(2,3))
  moreover have "getFlattenedSessions pages = ?ss" using flatten_build [OF d] p(1) by simp
  ultimately show ?thesis using d unfolding ok by simp
qed

theorem upsert_keeps_sessions_witness:
  "getFlattenedSessions (fst (upsertSessionAtFront \<lparr>s_id = ''b'', updated_at = ''2''\<rparr> (Some ''temp:1'')
      [[\<lparr>s_id = ''temp:1'', updated_at = ''1''\<rparr>, \<lparr>s_id = ''a'', updated_at = ''0''\<rparr>]])) =
    [\<lparr>s_id = ''b'', updated_at = ''2''\<rparr>, \<lparr>s_id = ''a'', updated_at = ''0''\<rparr>]"
  using upsert_keeps_sessions [OF surjective_pairing, of "\<lparr>s_id = ''b'', updated_at = ''2''\<rparr>" "Some ''temp:1''"
      "[[\<lparr>s_id = ''temp:1'', updated_at = ''1''\<rparr>, \<lparr>s_id = ''a'', updated_at = ''0''\<rparr>]]"]
  by (simp add: getFlattenedSessions_def)

text \<open>A full page of the list says there may be more; with a conversation put at its front the last page is not full, and says there is no more.\<close>

lemma upsert_ends_list:
  assumes "length p = SESSIONS_PAGE_SIZE" "distinct (map s_id p)" "s_id s \<notin> set (map s_id p)" "upsertSessionAtFront s None [p] = (pages, params)"
  shows "getNextPageParam (last [p]) \<noteq> None \<and> getNextPageParam (last pages) = None"
proof -
  have f: "filter (\<lambda>x. s_id x \<noteq> s_id s) p = p" using assms(3) by (intro filter_True) (metis image_eqI set_map)
  have "getFlattenedSessions [p] = p" using assms(2) by (simp add: getFlattenedSessions_def first_of_each_same)
  with assms(4) f have pages: "pages = chunks (s # p)" by (simp add: upsertSessionAtFront_def buildSessionsInfiniteData_def)
  obtain n where n: "SESSIONS_PAGE_SIZE = Suc n" "n > 0" by (simp add: SESSIONS_PAGE_SIZE_def)
  from n assms(1) have "length (drop n p) = 1" by simp
  then obtain x where "drop n p = [x]" by (cases "drop n p") auto
  then have "pages = [s # take n p, [x]]" unfolding pages chunks.simps n(1) by (simp add: n)
  then show ?thesis using assms(1) n by (auto simp: getNextPageParam_def cursor_of_def)
qed

end
