(* ===== verification/Comparing.thy ===== *)
theory Comparing
  imports Prelude
begin

text \<open>
  \<^verbatim>\<open>xs.sort(compare)\<close> of a comparator that orders its values, as insertion (a sort of JavaScript keeps equal values in their order, so all
  correct sorts agree), and what a comparator must promise for it.
\<close>

fun js_insert :: "('a \<Rightarrow> 'a \<Rightarrow> int) \<Rightarrow> 'a \<Rightarrow> 'a list \<Rightarrow> 'a list" where
  "js_insert compare x [] = [x]"
| "js_insert compare x (y # ys) = (if compare x y \<le> 0 then x # y # ys else y # js_insert compare x ys)"

definition js_sort :: "('a \<Rightarrow> 'a \<Rightarrow> int) \<Rightarrow> 'a list \<Rightarrow> 'a list" where
  "js_sort compare xs = foldr (js_insert compare) xs []"

lemma set_js_insert [simp]: "set (js_insert compare x ys) = insert x (set ys)"
  by (induction ys) auto

lemma js_sort_simps [simp]: "js_sort compare [] = []" "js_sort compare (x # xs) = js_insert compare x (js_sort compare xs)"
  by (simp_all add: js_sort_def)

lemma set_js_sort [simp]: "set (js_sort compare xs) = set xs"
  by (induction xs) auto

lemma distinct_js_insert [simp]: "distinct (map f (js_insert compare x ys)) \<longleftrightarrow> f x \<notin> f ` set ys \<and> distinct (map f ys)"
  by (induction ys) auto

lemma length_js_insert [simp]: "length (js_insert compare x ys) = Suc (length ys)"
  by (induction ys) auto

lemma length_js_sort [simp]: "length (js_sort compare xs) = length xs"
  by (induction xs) auto

lemma js_sort_Nil [simp]: "js_sort compare xs = [] \<longleftrightarrow> xs = []"
  using length_js_sort [of compare xs] by (metis length_0_conv)

lemma distinct_js_sort [simp]: "distinct (map f (js_sort compare xs)) \<longleftrightarrow> distinct (map f xs)"
  by (induction xs) auto

locale comparing =
  fixes compare :: "'a \<Rightarrow> 'a \<Rightarrow> int"
  assumes either: "compare x y \<le> 0 \<or> compare y x \<le> 0"
    and chain: "compare x y \<le> 0 \<Longrightarrow> compare y z \<le> 0 \<Longrightarrow> compare x z \<le> 0"
begin

lemma same: "compare x x \<le> 0"
  using either by blast

lemma insert_sorted: "sorted_wrt (\<lambda>x y. compare x y \<le> 0) ys \<Longrightarrow> sorted_wrt (\<lambda>x y. compare x y \<le> 0) (js_insert compare x ys)"
proof (induction ys)
  case (Cons y ys)
  then show ?case using chain either [of x y] by auto
qed simp

lemma sort_sorted: "sorted_wrt (\<lambda>x y. compare x y \<le> 0) (js_sort compare xs)"
  by (induction xs) (auto intro: insert_sorted)

text \<open>The first of the sorted values: one of them, and none comes before it.\<close>

lemma sort_first:
  assumes "js_sort compare xs = y # ys"
  shows "y \<in> set xs" "\<forall>x\<in>set xs. compare y x \<le> 0"
proof -
  have eq: "set xs = insert y (set ys)" using set_js_sort [of compare xs] assms by simp
  then show "y \<in> set xs" by simp
  show "\<forall>x\<in>set xs. compare y x \<le> 0" unfolding eq using sort_sorted [of xs] same assms by auto
qed

end

text \<open>A comparator of a key: \<^verbatim>\<open>a < b ? -1 : a > b ? 1 : 0\<close> of the values' keys.\<close>

definition compare_by :: "('a \<Rightarrow> 'k::linorder) \<Rightarrow> 'a \<Rightarrow> 'a \<Rightarrow> int" where
  "compare_by k a b = (if k a < k b then -1 else if k b < k a then 1 else 0)"

interpretation by_key: comparing "compare_by k" for k
  by unfold_locales (auto simp: compare_by_def split: if_splits)

text \<open>
  A comparator whose sign turns with its arguments, as JavaScript asks of one; \<^verbatim>\<open>f(a, b) || g(a, b)\<close> of two such is one.
\<close>

locale consistent = comparing +
  assumes turned: "compare x y < 0 \<longleftrightarrow> 0 < compare y x"
begin

lemma tie: "compare x y = 0 \<longleftrightarrow> compare y x = 0"
  using turned [of x y] turned [of y x] by linarith

end

definition lex_compare :: "('a \<Rightarrow> 'a \<Rightarrow> int) \<Rightarrow> ('a \<Rightarrow> 'a \<Rightarrow> int) \<Rightarrow> 'a \<Rightarrow> 'a \<Rightarrow> int" where
  "lex_compare f g a b = (if f a b \<noteq> 0 then f a b else g a b)"

lemma lex_consistent:
  assumes "consistent f" "consistent g"
  shows "consistent (lex_compare f g)"
proof -
  note f = assms(1) [unfolded consistent_def comparing_def consistent_axioms_def]
  note g = assms(2) [unfolded consistent_def comparing_def consistent_axioms_def]
  have tie: "f x y = 0 \<longleftrightarrow> f y x = 0" for x y using consistent.tie [OF assms(1)] .
  show ?thesis
  proof
    show "lex_compare f g x y \<le> 0 \<or> lex_compare f g y x \<le> 0" for x y
      using f g tie [of x y] by (auto simp: lex_compare_def)
    show "lex_compare f g x y < 0 \<longleftrightarrow> 0 < lex_compare f g y x" for x y
      using f g tie [of x y] by (auto simp: lex_compare_def)
    show "lex_compare f g x z \<le> 0" if "lex_compare f g x y \<le> 0" "lex_compare f g y z \<le> 0" for x y z
    proof -
      have xy: "f x y \<le> 0" and yz: "f y z \<le> 0" using that by (auto simp: lex_compare_def split: if_splits)
      then have xz: "f x z \<le> 0" using f by blast
      show ?thesis
      proof (cases "f x z = 0")
        case True
        then have "f z x \<le> 0" using tie [of x z] by simp
        then have "f y x \<le> 0" "f z y \<le> 0" using f xy yz by blast+
        then have "f x y = 0" "f y z = 0" using f xy yz by (metis order_antisym_conv not_le order_less_le)+
        then show ?thesis using that g True by (auto simp: lex_compare_def)
      qed (use xz in \<open>simp add: lex_compare_def\<close>)
    qed
  qed
qed

lemma compare_by_consistent: "consistent (compare_by k)"
  by unfold_locales (auto simp: compare_by_def split: if_splits)

interpretation sure_by_key: consistent "compare_by k" for k
  by (rule compare_by_consistent)

text \<open>A comparator of the values' keys.\<close>

lemma consistent_on: "consistent f \<Longrightarrow> consistent (\<lambda>a b. f (k a) (k b))"
  by (auto simp: consistent_def comparing_def consistent_axioms_def)

lemma difference_consistent: "consistent (\<lambda>a b. int (k a) - int (k b))"
  by unfold_locales auto

lemma filter_js_sort_length: "length (filter P (js_sort compare xs)) = length (filter P xs)"
proof -
  have "length (filter P (js_insert compare x ys)) = length (filter P (x # ys))" for x ys by (induction ys) auto
  then show ?thesis by (induction xs) auto
qed

lemma sum_list_js_insert: "(\<Sum>x\<leftarrow>js_insert compare y xs. f x) = f y + (\<Sum>x\<leftarrow>xs. f x :: 'n :: comm_monoid_add)"
  by (induction xs) (auto simp: add_ac)

lemma sum_list_js_sort: "(\<Sum>x\<leftarrow>js_sort compare xs. f x) = (\<Sum>x\<leftarrow>xs. f x :: 'n :: comm_monoid_add)"
  by (induction xs) (simp_all add: sum_list_js_insert)

end
