(* ===== verification/Drawer_Target.thy ===== *)
theory Drawer_Target
  imports Row_Values Comparing "HOL-Library.Log_Nat"
begin

text \<open>
  The object a drawer shows: how it is picked from an object's Kind and API version (\<^verbatim>\<open>frontend/src/components/resource-detail/crDetail.ts\<close>),
  how a link keeps it (\<^verbatim>\<open>components/detailParam.ts\<close>), and the object and silence of an alert (\<^verbatim>\<open>utils/alertInbox.ts\<close>).
  A kind is no name of an object's prototype (\<^verbatim>\<open>'toString' in DRAWER_GROUPS\<close> holds too).
\<close>

record target =
  t_kind :: string
  t_name :: string
  t_namespace :: "string option"
  t_apiVersion :: "string option"
  t_rawJson :: "(string \<times> jval) list option"

section \<open>Kinds and groups\<close>

definition DRAWER_GROUPS :: "(string \<times> string) list" where
  "DRAWER_GROUPS = [
    (''Pod'', ''''), (''Node'', ''''), (''Namespace'', ''''), (''Service'', ''''), (''ConfigMap'', ''''), (''Secret'', ''''), (''ServiceAccount'', ''''), (''Endpoints'', ''''),
    (''PersistentVolume'', ''''), (''PersistentVolumeClaim'', ''''), (''ResourceQuota'', ''''), (''LimitRange'', ''''),
    (''Deployment'', ''apps''), (''StatefulSet'', ''apps''), (''DaemonSet'', ''apps''), (''ReplicaSet'', ''apps''), (''Job'', ''batch''), (''CronJob'', ''batch''),
    (''HorizontalPodAutoscaler'', ''autoscaling''), (''VerticalPodAutoscaler'', ''autoscaling.k8s.io''), (''PodDisruptionBudget'', ''policy''),
    (''Ingress'', ''networking.k8s.io''), (''IngressClass'', ''networking.k8s.io''), (''NetworkPolicy'', ''networking.k8s.io''), (''EndpointSlice'', ''discovery.k8s.io''),
    (''StorageClass'', ''storage.k8s.io''), (''VolumeAttachment'', ''storage.k8s.io''),
    (''Role'', ''rbac.authorization.k8s.io''), (''RoleBinding'', ''rbac.authorization.k8s.io''), (''ClusterRole'', ''rbac.authorization.k8s.io''), (''ClusterRoleBinding'', ''rbac.authorization.k8s.io''),
    (''PriorityClass'', ''scheduling.k8s.io''), (''RuntimeClass'', ''node.k8s.io''), (''Lease'', ''coordination.k8s.io''),
    (''MutatingWebhookConfiguration'', ''admissionregistration.k8s.io''), (''ValidatingWebhookConfiguration'', ''admissionregistration.k8s.io''),
    (''ValidatingAdmissionPolicy'', ''admissionregistration.k8s.io''), (''MutatingAdmissionPolicy'', ''admissionregistration.k8s.io''),
    (''CustomResourceDefinition'', ''apiextensions.k8s.io''),
    (''Gateway'', ''gateway.networking.k8s.io''), (''GatewayClass'', ''gateway.networking.k8s.io''), (''HTTPRoute'', ''gateway.networking.k8s.io''),
    (''GRPCRoute'', ''gateway.networking.k8s.io''), (''ReferenceGrant'', ''gateway.networking.k8s.io''), (''BackendTLSPolicy'', ''gateway.networking.k8s.io''),
    (''DeviceClass'', ''resource.k8s.io''), (''ResourceClaim'', ''resource.k8s.io''), (''ResourceClaimTemplate'', ''resource.k8s.io''), (''ResourceSlice'', ''resource.k8s.io'')]"

definition CUSTOM :: string where
  "CUSTOM = ''CustomResourceInstance''"

definition kindResource :: "string \<Rightarrow> string" where
  "kindResource kind = (let k = toLowerCase kind in
     if endsWith k ''endpoints'' then k
     else if endsWith k ''s'' then k @ ''es''
     else if length k \<ge> 2 \<and> last k = CHR ''y'' \<and> last (butlast k) \<notin> set ''aeiou'' then butlast k @ ''ies''
     else k @ ''s'')"

text \<open>\<^verbatim>\<open>typeof rawJson?.k === 'string' ? rawJson.k : ''\<close>.\<close>

definition raw_text :: "(string \<times> jval) list option \<Rightarrow> string \<Rightarrow> string" where
  "raw_text rj k = (case rj of None \<Rightarrow> [] | Some kvs \<Rightarrow> (case map_of kvs k of Some (JStr s) \<Rightarrow> s | _ \<Rightarrow> []))"

definition first_part :: "string \<Rightarrow> string" where
  "first_part s = (case split (CHR ''.'') s of w # _ \<Rightarrow> w | [] \<Rightarrow> [])"

record access_target =
  a_group :: string
  a_resource :: string
  a_namespace :: string
  a_name :: string

definition deleteTarget :: "string \<Rightarrow> string option \<Rightarrow> string \<Rightarrow> (string \<times> jval) list option \<Rightarrow> access_target option" where
  "deleteTarget kind ns name rawJson =
     (if kind = CUSTOM then
        (let g = raw_text rawJson ''group''; plural = first_part (raw_text rawJson ''crd_name'') in
         if g \<noteq> [] \<and> plural \<noteq> [] then Some \<lparr>a_group = g, a_resource = plural, a_namespace = case_option [] id ns, a_name = name\<rparr> else None)
      else (case map_of DRAWER_GROUPS kind of
          None \<Rightarrow> None
        | Some g \<Rightarrow> Some \<lparr>a_group = g, a_resource = kindResource kind,
            a_namespace = (if kind = ''Namespace'' then name else case_option [] id ns), a_name = name\<rparr>))"

definition groupVersion :: "string option \<Rightarrow> (string \<times> string) option" where
  "groupVersion av = (case split (CHR ''/'') (case_option [] id av) of
      [g, v] \<Rightarrow> if g \<noteq> [] \<and> v \<noteq> [] then Some (g, v) else None
    | _ \<Rightarrow> None)"

definition needsCustomResourceLookup :: "string \<Rightarrow> string option \<Rightarrow> bool" where
  "needsCustomResourceLookup kind av =
     (case (if kind = CUSTOM then None else groupVersion av) of None \<Rightarrow> False | Some gv \<Rightarrow> map_of DRAWER_GROUPS kind \<noteq> Some (fst gv))"

definition detailTarget :: "string \<Rightarrow> string \<Rightarrow> string option \<Rightarrow> string option \<Rightarrow> (string \<times> jval) list option \<Rightarrow> target" where
  "detailTarget kind name ns av rawJson =
     (let t = \<lparr>t_kind = kind, t_name = name, t_namespace = (if ns = Some [] then None else ns), t_apiVersion = None, t_rawJson = rawJson\<rparr> in
      if av \<noteq> None \<and> av \<noteq> Some [] \<and> needsCustomResourceLookup kind av then t\<lparr>t_apiVersion := av\<rparr> else t)"

text \<open>What is read of a CRD's row.\<close>

record crd =
  crd_name :: string
  crd_group :: string
  crd_kind :: string
  crd_version :: string
  served_versions :: "string list option"

definition served :: "crd \<Rightarrow> string list" where
  "served c = (case served_versions c of Some vs \<Rightarrow> vs | None \<Rightarrow> [crd_version c])"

definition find_crd :: "string \<Rightarrow> string \<Rightarrow> crd list option \<Rightarrow> crd option" where
  "find_crd g kind crds = (case crds of None \<Rightarrow> None | Some cs \<Rightarrow> List.find (\<lambda>c. crd_group c = g \<and> crd_kind c = kind) cs)"

definition customResourceTarget :: "target \<Rightarrow> crd list option \<Rightarrow> target" where
  "customResourceTarget t crds =
     (case (if needsCustomResourceLookup (t_kind t) (t_apiVersion t) then groupVersion (t_apiVersion t) else None) of
        None \<Rightarrow> t
      | Some (g, v) \<Rightarrow> (case find_crd g (t_kind t) crds of
          None \<Rightarrow> t
        | Some c \<Rightarrow> \<lparr>t_kind = CUSTOM, t_name = t_name t, t_namespace = t_namespace t, t_apiVersion = None,
            t_rawJson = Some (fold (\<lambda>(k, w). AList.update k (JStr w))
              [(''kind'', t_kind t), (''group'', g), (''version'', if v \<in> set (served c) then v else crd_version c), (''crd_name'', crd_name c)]
              (case_option [] id (t_rawJson t)))\<rparr>))"

section \<open>Versions\<close>

text \<open>
  \<^verbatim>\<open>Number\<close> of digits: the nearest of the numbers with 53 bits, the even one of two (for fewer than 309 digits; a version has at most 63 letters).
\<close>

definition js_number :: "nat \<Rightarrow> nat" where
  "js_number n = (let e = floorlog 2 n - 53; q = n div 2 ^ e; r = n mod 2 ^ e in
     (if 2 * r > 2 ^ e \<or> (2 * r = 2 ^ e \<and> odd q) then q + 1 else q) * 2 ^ e)"

definition parse_version :: "string \<Rightarrow> (nat \<times> nat \<times> nat) option" where
  "parse_version s = (case s of
      [] \<Rightarrow> None
    | c # r \<Rightarrow>
       (let major = takeWhile is_digit r; more = dropWhile is_digit r; num = (\<lambda>d. js_number (digits_value d)) in
        if c \<noteq> CHR ''v'' \<or> major = [] then None
        else if more = [] then Some (2, num major, 0)
        else
          (let step = (if startsWith more ''alpha'' then Some (0, drop 5 more) else if startsWith more ''beta'' then Some (1, drop 4 more) else None) in
           case step of
             None \<Rightarrow> None
           | Some (type, minor) \<Rightarrow> if minor \<noteq> [] \<and> list_all is_digit minor then Some (type, num major, num minor) else None)))"

definition compareKubeAwareVersions :: "string \<Rightarrow> string \<Rightarrow> int" where
  "compareKubeAwareVersions a b =
     (if a = b then 0
      else (case (parse_version a, parse_version b) of
          (Some (t, m, n), Some (t', m', n')) \<Rightarrow>
            if t \<noteq> t' then int t - int t' else if m \<noteq> m' then int m - int m' else int n - int n'
        | (Some _, None) \<Rightarrow> 1
        | (None, Some _) \<Rightarrow> -1
        | (None, None) \<Rightarrow> if a < b then 1 else -1))"

definition referenceNeedsVersion :: "string \<Rightarrow> string \<Rightarrow> bool" where
  "referenceNeedsVersion g kind \<longleftrightarrow> g \<noteq> [] \<and> map_of DRAWER_GROUPS kind \<noteq> Some g"

definition referenceApiVersion :: "string \<Rightarrow> string \<Rightarrow> crd list option \<Rightarrow> string option" where
  "referenceApiVersion g kind crds =
     (if \<not> referenceNeedsVersion g kind \<or> crds = None then None
      else
        (let versions = filter (\<lambda>v. v \<noteq> []) (case find_crd g kind crds of None \<Rightarrow> [] | Some c \<Rightarrow> served c) in
         case js_sort (\<lambda>a b. compareKubeAwareVersions b a) versions of
           [] \<Rightarrow> None
         | v # _ \<Rightarrow> Some (g @ ''/'' @ v)))"

definition otherFields :: "jval \<Rightarrow> (string \<times> jval) list" where
  "otherFields v = (case v of JObj kvs \<Rightarrow> js_sort (compare_by fst) kvs | _ \<Rightarrow> [])"

section \<open>The link of a drawer\<close>

definition letter_char :: "char \<Rightarrow> bool" where
  "letter_char c \<longleftrightarrow> (CHR ''A'' \<le> c \<and> c \<le> CHR ''Z'') \<or> (CHR ''a'' \<le> c \<and> c \<le> CHR ''z'')"

definition kind_word :: "string \<Rightarrow> bool" where
  "kind_word s = (case s of [] \<Rightarrow> False | c # r \<Rightarrow> letter_char c \<and> list_all (\<lambda>x. letter_char x \<or> is_digit x) r)"

record custom_resource =
  cr_kind :: string
  cr_group :: string
  cr_version :: string
  cr_plural :: string

definition customResourceOf :: "target \<Rightarrow> custom_resource option" where
  "customResourceOf t =
     (if t_kind t \<noteq> CUSTOM then None
      else
        (let kind = raw_text (t_rawJson t) ''kind''; g = raw_text (t_rawJson t) ''group''; v = raw_text (t_rawJson t) ''version'';
             plural = first_part (raw_text (t_rawJson t) ''crd_name'') in
         if kind_word kind \<and> g \<noteq> [] \<and> v \<noteq> [] \<and> plural \<noteq> [] then Some \<lparr>cr_kind = kind, cr_group = g, cr_version = v, cr_plural = plural\<rparr>
         else None))"

definition toParam :: "target \<Rightarrow> string" where
  "toParam t = join ''/'' (filter (\<lambda>w. w \<noteq> [])
     [(case customResourceOf t of Some cr \<Rightarrow> cr_kind cr | None \<Rightarrow> t_kind t), case_option [] id (t_namespace t), t_name t])"

definition apiParam :: "target \<Rightarrow> string" where
  "apiParam t = (case customResourceOf t of
      Some cr \<Rightarrow> cr_group cr @ ''/'' @ cr_version cr @ ''/'' @ cr_plural cr
    | None \<Rightarrow> case_option [] id (t_apiVersion t))"

definition keyOf :: "target option \<Rightarrow> string" where
  "keyOf t = (case t of Some t \<Rightarrow> toParam t @ ''|'' @ apiParam t | None \<Rightarrow> ''|'')"

definition link_target :: "string list \<Rightarrow> target option" where
  "link_target parts =
     (if [] \<in> set parts then None
      else (case parts of
          [k, n] \<Rightarrow> if kind_word k then Some \<lparr>t_kind = k, t_name = n, t_namespace = None, t_apiVersion = None, t_rawJson = None\<rparr> else None
        | [k, ns, n] \<Rightarrow> if kind_word k then Some \<lparr>t_kind = k, t_name = n, t_namespace = Some ns, t_apiVersion = None, t_rawJson = None\<rparr> else None
        | _ \<Rightarrow> None))"

definition link_custom :: "string option \<Rightarrow> (string \<times> string \<times> string) option" where
  "link_custom api = (case split (CHR ''/'') (case_option [] id api) of
      [g, v, p] \<Rightarrow> if g \<noteq> [] \<and> v \<noteq> [] \<and> p \<noteq> [] then Some (g, v, p) else None
    | _ \<Rightarrow> None)"

definition fromParam :: "string option \<Rightarrow> string option \<Rightarrow> target option" where
  "fromParam value api =
     (if value = None \<or> value = Some [] then None
      else (case link_target (split (CHR ''/'') (the value)) of
          None \<Rightarrow> None
        | Some t \<Rightarrow> (case link_custom api of
            Some (g, v, p) \<Rightarrow> Some (t\<lparr>t_kind := CUSTOM,
              t_rawJson := Some [(''kind'', JStr (t_kind t)), (''group'', JStr g), (''version'', JStr v), (''crd_name'', JStr (p @ ''.'' @ g))]\<rparr>)
          | None \<Rightarrow> Some (if api \<noteq> None \<and> api \<noteq> Some [] then t\<lparr>t_apiVersion := api\<rparr> else t))))"

end
