(* ===== verification/Alert_Inbox.thy ===== *)
theory Alert_Inbox
  imports Drawer_Target
begin

text \<open>
  The object an alert is about, where its silence starts, and what the alert store says of it now (\<^verbatim>\<open>frontend/src/utils/alertInbox.ts\<close>).
\<close>

type_synonym alert_labels = "string \<rightharpoonup> string"

text \<open>A label's text, empty where there is none: what \<^verbatim>\<open>labels[k]\<close> reads as in a condition.\<close>

definition label :: "alert_labels \<Rightarrow> string \<Rightarrow> string" where
  "label labels k = case_option [] id (labels k)"

definition NAMESPACED :: "(string \<times> string) list" where
  "NAMESPACED = [(''pod'', ''Pod''), (''deployment'', ''Deployment''), (''statefulset'', ''StatefulSet''), (''daemonset'', ''DaemonSet''),
    (''job_name'', ''Job''), (''cronjob'', ''CronJob''), (''persistentvolumeclaim'', ''PersistentVolumeClaim''),
    (''horizontalpodautoscaler'', ''HorizontalPodAutoscaler''), (''replicaset'', ''ReplicaSet'')]"

definition CLUSTER_SCOPED :: "(string \<times> string) list" where
  "CLUSTER_SCOPED = [(''node'', ''Node''), (''persistentvolume'', ''PersistentVolume'')]"

text \<open>The custom resource of an alert: its kind, name and API version.\<close>

definition alert_custom :: "alert_labels \<Rightarrow> (string \<times> string \<times> string) option" where
  "alert_custom labels =
     (let kind = label labels ''customresource_kind'';
          named = label labels (toLowerCase kind);
          name = (if kind = [] then [] else if named \<noteq> [] then named else label labels ''name'');
          g = label labels ''customresource_group''; v = label labels ''customresource_version'' in
      if kind \<noteq> [] \<and> name \<noteq> [] \<and> g \<noteq> [] \<and> v \<noteq> [] then Some (kind, name, g @ ''/'' @ v) else None)"

definition plain_target :: "string \<Rightarrow> string option \<Rightarrow> string \<Rightarrow> target" where
  "plain_target kind ns name = \<lparr>t_kind = kind, t_name = name, t_namespace = ns, t_apiVersion = None, t_rawJson = None\<rparr>"

definition alertResource :: "alert_labels \<Rightarrow> target option" where
  "alertResource labels = (case alert_custom labels of
      Some (kind, name, av) \<Rightarrow> Some (detailTarget kind name (labels ''namespace'') (Some av) None)
    | None \<Rightarrow>
       (case (if label labels ''namespace'' \<noteq> [] then List.find (\<lambda>lk. label labels (fst lk) \<noteq> []) NAMESPACED else None) of
          Some (l, kind) \<Rightarrow> Some (plain_target kind (labels ''namespace'') (label labels l))
        | None \<Rightarrow> (case List.find (\<lambda>lk. label labels (fst lk) \<noteq> []) CLUSTER_SCOPED of
            Some (l, kind) \<Rightarrow> Some (plain_target kind None (label labels l))
          | None \<Rightarrow> None)))"

definition silenceStart :: "alert_labels \<Rightarrow> string \<Rightarrow> (string \<times> string) list" where
  "silenceStart labels clusterLabel =
     (let out = map (\<lambda>k. (k, label labels k)) (filter (\<lambda>k. label labels k \<noteq> [] \<and> k \<noteq> clusterLabel) [''alertname'', ''namespace'']);
          object = List.find (\<lambda>lk. label labels (fst lk) \<noteq> [] \<and> fst lk \<noteq> clusterLabel)
            ((if label labels ''namespace'' \<noteq> [] then NAMESPACED else []) @ CLUSTER_SCOPED) in
      case object of None \<Rightarrow> out | Some (l, _) \<Rightarrow> AList.update l (label labels l) out)"

section \<open>What the alert store says\<close>

datatype alert_status = Firing | Stale | Resolved

datatype live_state = LFiring | LSilenced | LInhibited | LAbsent

record store_alert =
  sa_fingerprint :: string
  sa_state :: string

record store_answer =
  st_alerts :: "store_alert list"
  st_total :: int
  st_truncated :: bool

definition liveStateOf :: "alert_status \<Rightarrow> string \<Rightarrow> store_answer option \<Rightarrow> live_state option" where
  "liveStateOf status fp store = (case store of
      None \<Rightarrow> None
    | Some st \<Rightarrow> if status = Resolved then None
        else (case List.find (\<lambda>a. sa_fingerprint a = fp) (st_alerts st) of
          None \<Rightarrow> if st_truncated st then None else Some LAbsent
        | Some a \<Rightarrow> Some (if sa_state a = ''silenced'' then LSilenced else if sa_state a = ''inhibited'' then LInhibited else LFiring)))"

datatype live_line = Known live_state | Cut nat int | Limited int | Loading | Failed | NoStore

text \<open>The store of a screen: on, its answer, whether it failed, and the seconds left of a refusal.\<close>

record live_store =
  ls_on :: bool
  ls_answer :: "store_answer option"
  ls_failed :: bool
  ls_limited :: "int option"

definition liveLineOf :: "alert_status \<Rightarrow> string \<Rightarrow> live_store \<Rightarrow> live_line option" where
  "liveLineOf status fp store =
     (if status = Resolved then None
      else if \<not> ls_on store then Some NoStore
      else (case ls_answer store of
          None \<Rightarrow> Some (case ls_limited store of Some s \<Rightarrow> Limited s | None \<Rightarrow> if ls_failed store then Failed else Loading)
        | Some st \<Rightarrow> Some (case liveStateOf status fp (Some st) of Some s \<Rightarrow> Known s | None \<Rightarrow> Cut (length (st_alerts st)) (st_total st))))"

definition storeLimitedSeconds :: "int option \<Rightarrow> int \<Rightarrow> int option" where
  "storeLimitedSeconds until now = map_option (\<lambda>u. max 1 (- ((now - u) div 1000))) until"

definition severityChoices :: "string list option \<Rightarrow> string \<Rightarrow> string list" where
  "severityChoices carried chosen =
     uniq ([''critical'', ''warning'', ''info''] @ case_option [] id carried @ (if chosen \<noteq> [] then [chosen] else []))"

definition storeCut :: "store_answer option \<Rightarrow> (nat \<times> int) option" where
  "storeCut a = (case a of None \<Rightarrow> None | Some st \<Rightarrow> if st_truncated st then Some (length (st_alerts st), st_total st) else None)"

end
