(* ===== verification/Drawer_Props.thy ===== *)
theory Drawer_Props
  imports Alert_Inbox
begin

text \<open>
  A drawer's link opens the object it was made of, a reference without a version opens the version the API server prefers, and a silence
  starts from the alert's own labels.
\<close>

section \<open>Links\<close>

definition word :: "string \<Rightarrow> bool" where
  "word s \<longleftrightarrow> s \<noteq> [] \<and> CHR ''/'' \<notin> set s"

definition linkable :: "target \<Rightarrow> bool" where
  "linkable t \<longleftrightarrow> word (t_name t) \<and> (\<forall>ns\<in>set_option (t_namespace t). word ns) \<and>
     (case customResourceOf t of
        None \<Rightarrow> kind_word (t_kind t) \<and> (\<forall>av\<in>set_option (t_apiVersion t). av \<noteq> [] \<and> link_custom (Some av) = None)
      | Some cr \<Rightarrow> CHR ''/'' \<notin> set (cr_group cr) \<union> set (cr_version cr) \<union> set (cr_plural cr))"

definition linked :: "target \<Rightarrow> target" where
  "linked t = (case customResourceOf t of
      None \<Rightarrow> t\<lparr>t_rawJson := None\<rparr>
    | Some cr \<Rightarrow> \<lparr>t_kind = CUSTOM, t_name = t_name t, t_namespace = t_namespace t, t_apiVersion = None,
        t_rawJson = Some [(''kind'', JStr (cr_kind cr)), (''group'', JStr (cr_group cr)), (''version'', JStr (cr_version cr)),
          (''crd_name'', JStr (cr_plural cr @ ''.'' @ cr_group cr))]\<rparr>)"

lemma kind_word_word: "kind_word s \<Longrightarrow> word s"
  by (cases s) (auto simp: kind_word_def word_def letter_char_def is_digit_def list_all_iff less_eq_char_def split: if_splits)

lemma first_part_no_dot: "first_part s \<noteq> [] \<Longrightarrow> CHR ''.'' \<notin> set (first_part s)"
  using split_no_sep [of _ "CHR ''.''" s] by (cases "split (CHR ''.'') s") (auto simp: first_part_def)

lemma first_part_again: "CHR ''.'' \<notin> set p \<Longrightarrow> first_part (p @ CHR ''.'' # g) = p"
  by (simp add: first_part_def split_append_sep)

lemma customResourceOfD:
  assumes "customResourceOf t = Some cr"
  shows "t_kind t = CUSTOM" "kind_word (cr_kind cr)" "cr_group cr \<noteq> []" "cr_version cr \<noteq> []" "cr_plural cr \<noteq> []" "CHR ''.'' \<notin> set (cr_plural cr)"
  using assms first_part_no_dot by (auto simp: customResourceOf_def Let_def split: if_splits)

lemma customResourceOf_linked: "customResourceOf (linked t) = customResourceOf t"
proof (cases "customResourceOf t")
  case None
  then show ?thesis by (simp add: linked_def) (simp add: customResourceOf_def raw_text_def kind_word_def)
next
  case (Some cr)
  note d = customResourceOfD [OF this]
  show ?thesis using d by (simp add: Some linked_def) (simp add: customResourceOf_def raw_text_def first_part_again)
qed

lemma link_target_words:
  assumes "kind_word k" "word n" "\<forall>ns\<in>set_option nso. word ns"
  shows "link_target (split (CHR ''/'') (join ''/'' (filter (\<lambda>w. w \<noteq> []) [k, case_option [] id nso, n]))) =
    Some \<lparr>t_kind = k, t_name = n, t_namespace = nso, t_apiVersion = None, t_rawJson = None\<rparr>"
proof -
  have k: "word k" using assms(1) by (rule kind_word_word)
  show ?thesis
  proof (cases nso)
    case None
    have "split (CHR ''/'') (join ''/'' [k, n]) = [k, n]" using k assms by (intro split_join) (auto simp: word_def)
    then show ?thesis using k assms None by (auto simp: word_def link_target_def)
  next
    case (Some ns)
    have "split (CHR ''/'') (join ''/'' [k, ns, n]) = [k, ns, n]" using k assms Some by (intro split_join) (auto simp: word_def)
    then show ?thesis using k assms Some by (auto simp add: word_def link_target_def)
  qed
qed

lemma toParam_not_Nil: "word (t_name t) \<Longrightarrow> toParam t \<noteq> []"
  by (auto simp: toParam_def word_def)

text \<open>
  C33: A drawer's link opens the object it was made of: the same kind, namespace, name and API version of an object with a drawer of its
  own, and of a custom resource its kind, group, version and resource; and the link of what it opens is that link again.
\<close>

theorem link_opens_object:
  assumes "linkable t"
  shows "fromParam (Some (toParam t)) (Some (apiParam t)) = Some (linked t) \<and> keyOf (Some (linked t)) = keyOf (Some t)"
proof
  have n: "word (t_name t)" and ns: "\<forall>ns\<in>set_option (t_namespace t). word ns" using assms by (auto simp: linkable_def)
  show "fromParam (Some (toParam t)) (Some (apiParam t)) = Some (linked t)"
  proof (cases "customResourceOf t")
    case None
    then have k: "kind_word (t_kind t)" and av: "\<forall>av\<in>set_option (t_apiVersion t). av \<noteq> [] \<and> link_custom (Some av) = None"
      using assms by (auto simp: linkable_def)
    have p: "toParam t = join ''/'' (filter (\<lambda>w. w \<noteq> []) [t_kind t, case_option [] id (t_namespace t), t_name t])"
      by (simp add: toParam_def None)
    have e: "link_custom (Some []) = None" by (simp add: link_custom_def)
    have "link_custom (Some (apiParam t)) = None" using av e by (cases "t_apiVersion t") (auto simp: apiParam_def None)
    then show ?thesis using av toParam_not_Nil [OF n] link_target_words [OF k n ns]
      by (cases "t_apiVersion t") (simp_all add: fromParam_def p apiParam_def None linked_def)
  next
    case (Some cr)
    note d = customResourceOfD [OF this]
    have sl: "CHR ''/'' \<notin> set (cr_group cr) \<union> set (cr_version cr) \<union> set (cr_plural cr)" using assms Some by (simp add: linkable_def)
    have p: "toParam t = join ''/'' (filter (\<lambda>w. w \<noteq> []) [cr_kind cr, case_option [] id (t_namespace t), t_name t])"
      by (simp add: toParam_def Some)
    have "split (CHR ''/'') (join ''/'' [cr_group cr, cr_version cr, cr_plural cr]) = [cr_group cr, cr_version cr, cr_plural cr]"
      using sl by (intro split_join) auto
    then have "link_custom (Some (apiParam t)) = Some (cr_group cr, cr_version cr, cr_plural cr)"
      using d by (simp add: link_custom_def apiParam_def Some)
    then show ?thesis using toParam_not_Nil [OF n] link_target_words [OF d(2) n ns] by (simp add: fromParam_def p linked_def Some)
  qed
  have "apiParam (linked t) = apiParam t" unfolding apiParam_def customResourceOf_linked
    by (cases "customResourceOf t") (auto simp: linked_def)
  moreover have "toParam (linked t) = toParam t" unfolding toParam_def customResourceOf_linked
    by (cases "customResourceOf t") (auto simp: linked_def)
  ultimately show "keyOf (Some (linked t)) = keyOf (Some t)" by (simp add: keyOf_def)
qed

text \<open>The link of a PolicyReport: \<^verbatim>\<open>PolicyReport/web/r1\<close> with \<^verbatim>\<open>wgpolicyk8s.io/v1/policyreports\<close>.\<close>

definition report_target :: target where
  "report_target = \<lparr>t_kind = CUSTOM, t_name = ''r1'', t_namespace = Some ''web'', t_apiVersion = None,
    t_rawJson = Some [(''kind'', JStr ''PolicyReport''), (''group'', JStr ''wgpolicyk8s.io''), (''version'', JStr ''v1''), (''crd_name'', JStr ''policyreports.wgpolicyk8s.io'')]\<rparr>"

lemma report_linkable: "linkable report_target" "linked report_target = report_target"
  "toParam report_target = ''PolicyReport/web/r1''" "apiParam report_target = ''wgpolicyk8s.io/v1/policyreports''"
  by code_simp+

theorem link_opens_object_witness:
  "fromParam (Some ''PolicyReport/web/r1'') (Some ''wgpolicyk8s.io/v1/policyreports'') = Some report_target"
  using link_opens_object [OF report_linkable(1)] by (simp add: report_linkable)

section \<open>Versions\<close>

interpretation kube: comparing "\<lambda>a b. compareKubeAwareVersions b a"
proof
  show "compareKubeAwareVersions y x \<le> 0 \<or> compareKubeAwareVersions x y \<le> 0" for x y
    by (auto simp: compareKubeAwareVersions_def split: option.splits)
  show "compareKubeAwareVersions y x \<le> 0 \<Longrightarrow> compareKubeAwareVersions z y \<le> 0 \<Longrightarrow> compareKubeAwareVersions z x \<le> 0" for x y z
    by (auto simp: compareKubeAwareVersions_def split: option.splits if_splits)
qed

lemma served_first:
  assumes "referenceApiVersion g k crds = Some av"
  shows "\<exists>c v. find_crd g k crds = Some c \<and> av = g @ ''/'' @ v \<and> v \<noteq> [] \<and> v \<in> set (served c) \<and>
    (\<forall>w\<in>set (served c). w \<noteq> [] \<longrightarrow> compareKubeAwareVersions v w \<ge> 0) \<and> referenceNeedsVersion g k"
proof -
  let ?vs = "filter (\<lambda>v. v \<noteq> []) (case find_crd g k crds of None \<Rightarrow> [] | Some c \<Rightarrow> served c)"
  let ?cmp = "\<lambda>a b. compareKubeAwareVersions b a"
  have n: "referenceNeedsVersion g k" using assms by (auto simp: referenceApiVersion_def split: if_splits)
  obtain v vs where s: "js_sort ?cmp ?vs = v # vs" and av: "av = g @ ''/'' @ v"
    using assms by (auto simp: referenceApiVersion_def Let_def split: if_splits list.splits)
  have v: "v \<in> set ?vs" "\<forall>w\<in>set ?vs. ?cmp v w \<le> 0" using kube.sort_first [OF s] by auto
  obtain c where c: "find_crd g k crds = Some c" using v(1) by (cases "find_crd g k crds") auto
  have turned: "compareKubeAwareVersions v w \<ge> 0" if "compareKubeAwareVersions w v \<le> 0" for w
    using that by (auto simp: compareKubeAwareVersions_def split: option.splits if_splits)
  show ?thesis using v turned n av by (auto simp: c)
qed


definition report_crd :: crd where
  "report_crd = \<lparr>crd_name = ''policyreports.wgpolicyk8s.io'', crd_group = ''wgpolicyk8s.io'', crd_kind = ''PolicyReport'',
    crd_version = ''v1beta1'', served_versions = Some [''v1alpha2'', ''v1beta1'', ''v1'', ''v1beta2'']\<rparr>"

lemma report_reference: "referenceApiVersion ''wgpolicyk8s.io'' ''PolicyReport'' (Some [report_crd]) = Some ''wgpolicyk8s.io/v1''"
  "word ''wgpolicyk8s.io''" "''PolicyReport'' \<noteq> CUSTOM" "\<forall>c\<in>set [report_crd]. \<forall>v\<in>set (served c). CHR ''/'' \<notin> set v"
  by code_simp+


section \<open>Silences\<close>

lemma find_append: "List.find P (xs @ ys) = (case List.find P xs of None \<Rightarrow> List.find P ys | Some x \<Rightarrow> Some x)"
  by (induction xs) auto

lemma findD: "List.find P xs = Some x \<Longrightarrow> x \<in> set xs \<and> P x"
  by (auto simp: find_Some_iff)

lemma find_narrow: "List.find P xs = Some x \<Longrightarrow> Q x \<Longrightarrow> List.find (\<lambda>y. P y \<and> Q y) xs = Some x"
  by (induction xs) (auto split: if_splits)

lemma find_none_narrow: "List.find P xs = None \<Longrightarrow> List.find (\<lambda>y. P y \<and> Q y) xs = None"
  by (auto simp: find_None_iff)

lemma label_Some: "label labels k = v \<Longrightarrow> v \<noteq> [] \<Longrightarrow> labels k = Some v"
  by (cases "labels k") (auto simp: label_def)

definition object_labels :: "alert_labels \<Rightarrow> (string \<times> string) list" where
  "object_labels labels = (if label labels ''namespace'' \<noteq> [] then NAMESPACED else []) @ CLUSTER_SCOPED"

lemma silenceStart_parts:
  "set (silenceStart labels cl) =
     {(k, label labels k) |k. k \<in> {''alertname'', ''namespace''} \<and> label labels k \<noteq> [] \<and> k \<noteq> cl} \<union>
     {(l, label labels l) |l kind. List.find (\<lambda>lk. label labels (fst lk) \<noteq> [] \<and> fst lk \<noteq> cl) (object_labels labels) = Some (l, kind)}"
proof -
  define out where "out = map (\<lambda>k. (k, label labels k)) (filter (\<lambda>k. label labels k \<noteq> [] \<and> k \<noteq> cl) [''alertname'', ''namespace''])"
  have out: "set out = {(k, label labels k) |k. k \<in> {''alertname'', ''namespace''} \<and> label labels k \<noteq> [] \<and> k \<noteq> cl}"
    by (auto simp: out_def)
  have upd: "set (AList.update l v xs) = insert (l, v) (set xs)" if "l \<notin> set (map fst xs)" for l v and xs :: "(string \<times> string) list"
    using that by (induction xs) auto
  have start: "silenceStart labels cl = (case List.find (\<lambda>lk. label labels (fst lk) \<noteq> [] \<and> fst lk \<noteq> cl) (object_labels labels) of
      None \<Rightarrow> out | Some (l, _) \<Rightarrow> AList.update l (label labels l) out)"
    by (simp only: silenceStart_def Let_def out_def object_labels_def)
  show ?thesis
  proof (cases "List.find (\<lambda>lk. label labels (fst lk) \<noteq> [] \<and> fst lk \<noteq> cl) (object_labels labels)")
    case None
    then show ?thesis by (simp add: start out)
  next
    case (Some lk)
    then have "fst lk \<in> fst ` set (object_labels labels)" by (auto dest: findD)
    then have "fst lk \<notin> set (map fst out)"
      by (auto simp: out object_labels_def NAMESPACED_def CLUSTER_SCOPED_def split: if_splits)
    then have "set (silenceStart labels cl) = insert (fst lk, label labels (fst lk)) (set out)"
      by (cases lk) (simp add: start Some upd)
    moreover have "{(l, label labels l) |l kind. List.find (\<lambda>lk. label labels (fst lk) \<noteq> [] \<and> fst lk \<noteq> cl) (object_labels labels) = Some (l, kind)} =
        {(fst lk, label labels (fst lk))}" by (cases lk) (simp add: Some)
    ultimately show ?thesis by (simp only: out Un_insert_right Un_empty_right)
  qed
qed

lemma alertResource_plain:
  assumes "alert_custom labels = None" "alertResource labels = Some t"
  obtains l where "List.find (\<lambda>lk. label labels (fst lk) \<noteq> []) (object_labels labels) = Some (l, t_kind t)" "t_name t = label labels l"
  using assms by (auto simp: alertResource_def object_labels_def find_append plain_target_def split: option.splits if_splits)

text \<open>
  The silence an alert starts from mutes only alerts that share its labels: every condition is one of its labels and none is the
  cluster's; its name and namespace are among them; and the object a built-in kind's drawer opens for it is named by one of them, unless
  the cluster's label is the one that names it.
\<close>

theorem silence_is_its_own:
  "(\<forall>(k, v)\<in>set (silenceStart labels cl). labels k = Some v \<and> v \<noteq> [] \<and> k \<noteq> cl) \<and>
   (\<forall>k\<in>{''alertname'', ''namespace''}. k \<noteq> cl \<longrightarrow> label labels k \<noteq> [] \<longrightarrow> (k, label labels k) \<in> set (silenceStart labels cl)) \<and>
   (\<forall>t. alert_custom labels = None \<longrightarrow> alertResource labels = Some t \<longrightarrow>
     (\<exists>l. (l, t_kind t) \<in> set (NAMESPACED @ CLUSTER_SCOPED) \<and> label labels l = t_name t \<and>
       (l = cl \<or> (l, t_name t) \<in> set (silenceStart labels cl))))"
proof (intro conjI allI impI)
  show "\<forall>(k, v)\<in>set (silenceStart labels cl). labels k = Some v \<and> v \<noteq> [] \<and> k \<noteq> cl"
    unfolding silenceStart_parts by (auto dest!: findD intro: label_Some)
  show "\<forall>k\<in>{''alertname'', ''namespace''}. k \<noteq> cl \<longrightarrow> label labels k \<noteq> [] \<longrightarrow> (k, label labels k) \<in> set (silenceStart labels cl)"
    unfolding silenceStart_parts by blast
  fix t assume "alert_custom labels = None" "alertResource labels = Some t"
  then obtain l where l: "List.find (\<lambda>lk. label labels (fst lk) \<noteq> []) (object_labels labels) = Some (l, t_kind t)" "t_name t = label labels l"
    by (rule alertResource_plain)
  then have "(l, t_kind t) \<in> set (object_labels labels)" by (auto simp: find_Some_iff)
  then have "(l, t_kind t) \<in> set (NAMESPACED @ CLUSTER_SCOPED)" by (auto simp: object_labels_def split: if_splits)
  moreover have "l = cl \<or> (l, t_name t) \<in> set (silenceStart labels cl)"
    using find_narrow [OF l(1), of "\<lambda>lk. fst lk \<noteq> cl"] l(2) unfolding silenceStart_parts by auto
  ultimately show "\<exists>l. (l, t_kind t) \<in> set (NAMESPACED @ CLUSTER_SCOPED) \<and> label labels l = t_name t \<and>
      (l = cl \<or> (l, t_name t) \<in> set (silenceStart labels cl))" using l(2) by auto
qed

text \<open>A Pod's alert, and one whose object is named by the label the store calls the cluster.\<close>

definition pod_alert :: alert_labels where
  "pod_alert = [''alertname'' \<mapsto> ''KubePodCrashLooping'', ''namespace'' \<mapsto> ''web'', ''pod'' \<mapsto> ''api-0'', ''cluster'' \<mapsto> ''c1'']"

lemma pod_alert_object: "alert_custom pod_alert = None" "alertResource pod_alert = Some (plain_target ''Pod'' (Some ''web'') ''api-0'')"
  by code_simp+

theorem silence_is_its_own_witness:
  "(''alertname'', ''KubePodCrashLooping'') \<in> set (silenceStart pod_alert ''cluster'') \<and>
   (\<exists>l. (l, ''api-0'') \<in> set (silenceStart pod_alert ''cluster''))"
proof -
  have a: "label pod_alert ''alertname'' = ''KubePodCrashLooping''" "label pod_alert ''cluster'' = ''c1''" by code_simp+
  have t: "t_name (plain_target ''Pod'' (Some ''web'') ''api-0'') = ''api-0''" by (simp add: plain_target_def)
  obtain l where l: "label pod_alert l = ''api-0''" "l = ''cluster'' \<or> (l, ''api-0'') \<in> set (silenceStart pod_alert ''cluster'')"
    using silence_is_its_own [of pod_alert "''cluster''"] pod_alert_object t by fastforce
  have "l \<noteq> ''cluster''" using l(1) a(2) by auto
  then show ?thesis using l(2) silence_is_its_own [of pod_alert "''cluster''"] a(1) by auto
qed

text \<open>The alerts of two custom resources of one Kind start the same silence: it mutes the neighbour too.\<close>

definition report_alert :: "string \<Rightarrow> alert_labels" where
  "report_alert n = [''alertname'' \<mapsto> ''ReportFailed'', ''namespace'' \<mapsto> ''web'', ''customresource_kind'' \<mapsto> ''PolicyReport'',
    ''customresource_group'' \<mapsto> ''wgpolicyk8s.io'', ''customresource_version'' \<mapsto> ''v1'', ''name'' \<mapsto> n]"

lemma custom_silence_wide:
  "alertResource (report_alert ''r1'') \<noteq> alertResource (report_alert ''r2'')"
  "silenceStart (report_alert ''r1'') ''cluster'' = silenceStart (report_alert ''r2'') ''cluster''"
  by code_simp+

end
