(* ===== verification/Rbac.thy ===== *)
theory Rbac
  imports Row_Values Comparing
begin

text \<open>
  What a Pod's service account may do: the rules of all its role bindings, as rows of resources and verbs without repetition
  (\<^verbatim>\<open>frontend/src/pages/cluster-view/rbacUtils.ts\<close>). The answer's groups, resources, names and verbs are texts, as the server writes
  them. \<open>lc\<close> stands for \<^verbatim>\<open>localeCompare\<close>.
\<close>

section \<open>Bindings\<close>

definition isAuthenticatedOnlyGrant :: "jval \<Rightarrow> bool" where
  "isAuthenticatedOnlyGrant b = (case jget b ''matched_by'' of
      JArr (m # ms) \<Rightarrow> list_all (\<lambda>m. jget m ''reason'' = JStr ''group:system:authenticated'') (m # ms)
    | _ \<Rightarrow> truthy (jget b ''is_broad''))"

record binding_list =
  bl_read :: bool
  bl_error :: jval
  bl_all :: "jval list"
  bl_normal :: "jval list"
  bl_broad :: "jval list"

definition rbacBindingList :: "jval \<Rightarrow> string \<Rightarrow> binding_list" where
  "rbacBindingList rbac key = (let rows = jget rbac key; xs = elems rows in
     \<lparr>bl_read = is_array rows, bl_error = jor (jget rbac (key @ ''_error'')) (JStr []), bl_all = xs,
      bl_normal = filter (\<lambda>b. \<not> isAuthenticatedOnlyGrant b) xs, bl_broad = filter isAuthenticatedOnlyGrant xs\<rparr>)"

definition rbacApiGroupsText :: "jval \<Rightarrow> string" where
  "rbacApiGroupsText groups = (let s = join '', '' (map (\<lambda>g. if g = JStr [] then ''(core)'' else if nullish g then [] else jstr g) (elems groups)) in
     if s = [] then ''(core)'' else s)"

text \<open>\<^verbatim>\<open>...(v || [])\<close>: a text spreads into its letters, an object or a number that is not nothing throws.\<close>

definition spread_list :: "jval \<Rightarrow> jval list option" where
  "spread_list v = (if \<not> truthy v then Some [] else
     (case v of JArr xs \<Rightarrow> Some xs | JStr s \<Rightarrow> Some (map (\<lambda>c. JStr [c]) s) | _ \<Rightarrow> None))"

section \<open>The rows\<close>

datatype item_kind = Resource | NonResourceURL

record rbac_item =
  ri_kind :: item_kind
  ri_apiGroup :: string
  ri_resource :: string
  ri_names :: "string list option"
  ri_url :: string
  ri_verbs :: "string list"
  ri_verbsList :: "string list"

text \<open>The items, and the two maps from a key to the number of its item.\<close>

record rbac_build =
  items :: "rbac_item list"
  resourceIndex :: "(string \<times> nat) list"
  nonResourceIndex :: "(string \<times> nat) list"

definition no_items :: rbac_build where
  "no_items = \<lparr>items = [], resourceIndex = [], nonResourceIndex = []\<rparr>"

definition add_verbs :: "nat \<Rightarrow> string list \<Rightarrow> rbac_item list \<Rightarrow> rbac_item list" where
  "add_verbs i vs xs = (if i < length xs then xs[i := (xs ! i)\<lparr>ri_verbs := fold set_add vs (ri_verbs (xs ! i))\<rparr>] else xs)"

definition resource_key :: "string \<Rightarrow> string \<Rightarrow> string list option \<Rightarrow> string" where
  "resource_key g r names = g @ ''::'' @ r @ ''::'' @ join '','' (sort (case_option [] id names))"

definition addResource :: "string \<Rightarrow> string \<Rightarrow> string list option \<Rightarrow> string list \<Rightarrow> rbac_build \<Rightarrow> rbac_build" where
  "addResource g r names vs s =
     (let key = resource_key g r names in
      case map_of (resourceIndex s) key of
        Some i \<Rightarrow> s\<lparr>items := add_verbs i vs (items s)\<rparr>
      | None \<Rightarrow> s\<lparr>resourceIndex := AList.update key (length (items s)) (resourceIndex s),
          items := items s @ [\<lparr>ri_kind = Resource, ri_apiGroup = g, ri_resource = r,
            ri_names = (case names of Some (n # ns) \<Rightarrow> Some (sort (n # ns)) | _ \<Rightarrow> None),
            ri_url = [], ri_verbs = uniq vs, ri_verbsList = []\<rparr>]\<rparr>)"

definition addNonResource :: "string \<Rightarrow> string list \<Rightarrow> rbac_build \<Rightarrow> rbac_build" where
  "addNonResource url vs s =
     (case map_of (nonResourceIndex s) url of
        Some i \<Rightarrow> s\<lparr>items := add_verbs i vs (items s)\<rparr>
      | None \<Rightarrow> s\<lparr>nonResourceIndex := AList.update url (length (items s)) (nonResourceIndex s),
          items := items s @ [\<lparr>ri_kind = NonResourceURL, ri_apiGroup = [], ri_resource = [], ri_names = None,
            ri_url = url, ri_verbs = uniq vs, ri_verbsList = []\<rparr>]\<rparr>)"

definition texts :: "jval \<Rightarrow> string list" where
  "texts v = map jstr (elems v)"

text \<open>The texts of a list that say something.\<close>

definition said :: "jval \<Rightarrow> string list" where
  "said v = concat (map (\<lambda>x. case x of JStr s \<Rightarrow> if trim s \<noteq> [] then [s] else [] | _ \<Rightarrow> []) (elems v))"

definition add_rule :: "jval \<Rightarrow> rbac_build \<Rightarrow> rbac_build" where
  "add_rule rule s =
     (let vs = texts (jget rule ''verbs'') in
      if elems (jget rule ''non_resource_urls'') \<noteq> [] then fold (\<lambda>url. addNonResource url vs) (said (jget rule ''non_resource_urls'')) s
      else
        (let groups = (if elems (jget rule ''api_groups'') \<noteq> [] then texts (jget rule ''api_groups'') else [[]]);
             names = (if is_array (jget rule ''resource_names'') then Some (texts (jget rule ''resource_names'')) else None) in
         fold (\<lambda>g. fold (\<lambda>r. addResource (if g = [] then ''(core)'' else g) r names vs) (said (jget rule ''resources''))) groups s))"

definition add_binding :: "jval \<Rightarrow> rbac_build \<Rightarrow> rbac_build" where
  "add_binding b s = fold add_rule (elems (jpath b [''resolved_role'', ''rules''])) s"

record rbac_summary =
  resourceItems :: "rbac_item list"
  nonResourceItems :: "rbac_item list"
  incomplete :: bool

definition with_verbs :: "rbac_item \<Rightarrow> rbac_item" where
  "with_verbs i = i\<lparr>ri_verbsList := sort (ri_verbs i)\<rparr>"

definition compare_resources :: "(string \<Rightarrow> string \<Rightarrow> int) \<Rightarrow> rbac_item \<Rightarrow> rbac_item \<Rightarrow> int" where
  "compare_resources lc a b =
     (let ag = lc (ri_apiGroup a) (ri_apiGroup b); r = lc (ri_resource a) (ri_resource b);
          joined = (\<lambda>i. join '','' (case_option [] id (ri_names i))) in
      if ag \<noteq> 0 then ag else if r \<noteq> 0 then r else lc (joined a) (joined b))"

definition buildRbacPermissionSummary :: "(string \<Rightarrow> string \<Rightarrow> int) \<Rightarrow> jval \<Rightarrow> rbac_summary option" where
  "buildRbacPermissionSummary lc rbac =
     (case (spread_list (jget rbac ''role_bindings''), spread_list (jget rbac ''cluster_role_bindings'')) of
        (Some rs, Some cs) \<Rightarrow>
          (let bindings = rs @ cs; xs = items (fold add_binding bindings no_items) in
           Some \<lparr>resourceItems = js_sort (compare_resources lc) (map with_verbs (filter (\<lambda>i. ri_kind i = Resource) xs)),
             nonResourceItems = js_sort (\<lambda>a b. lc (ri_url a) (ri_url b)) (map with_verbs (filter (\<lambda>i. ri_kind i = NonResourceURL) xs)),
             incomplete = (\<not> bl_read (rbacBindingList rbac ''role_bindings'') \<or> \<not> bl_read (rbacBindingList rbac ''cluster_role_bindings'') \<or>
               list_ex (\<lambda>b. truthy (jpath b [''resolved_role'', ''error''])) bindings)\<rparr>)
      | _ \<Rightarrow> None)"

section \<open>For the floating chat\<close>

definition permissionRows :: "rbac_summary \<Rightarrow> string list" where
  "permissionRows s =
     map (\<lambda>i. ri_apiGroup i @ ''|'' @ ri_resource i @ ''|'' @ join '','' (case_option [] id (ri_names i)) @ ''|'' @ join '','' (ri_verbsList i)) (resourceItems s) @
     map (\<lambda>i. ri_url i @ ''|'' @ join '','' (ri_verbsList i)) (nonResourceItems s)"

definition bindingContextRow :: "jval \<Rightarrow> jval" where
  "bindingContextRow b = JObj
     [(''name'', jget b ''name''),
      (''role'', JStr (jstr (jpath b [''role_ref'', ''kind'']) @ '':'' @ jstr (jpath b [''role_ref'', ''name'']))),
      (''matched_by'', JArr (map (\<lambda>m. jget m ''reason'') (elems (jget b ''matched_by'')))),
      (''rules'', if truthy (jpath b [''resolved_role'', ''error'']) then JUndef else jnn (js_length (jpath b [''resolved_role'', ''rules''])) (JNum 0)),
      (''role_error'', jor (jpath b [''resolved_role'', ''error'']) JUndef)]"

definition binding_props :: "binding_list \<Rightarrow> string \<Rightarrow> (string \<times> jval) list" where
  "binding_props l key = (if bl_read l then
     [(key, JArr (map bindingContextRow (bl_all l))), (key @ ''_total'', JNum (int (length (bl_all l))))] else [])"

definition podRbacAIContext :: "(string \<Rightarrow> string \<Rightarrow> int) \<Rightarrow> jval \<Rightarrow> string \<Rightarrow> string \<Rightarrow> (string \<times> string \<times> jval) option" where
  "podRbacAIContext lc rbac pod ns = (case buildRbacPermissionSummary lc rbac of
      None \<Rightarrow> None
    | Some s \<Rightarrow>
       (let permissions = permissionRows s;
            roleBindings = rbacBindingList rbac ''role_bindings''; clusterRoleBindings = rbacBindingList rbac ''cluster_role_bindings'';
            name = jpath rbac [''service_account'', ''name''];
            count = (\<lambda>l. if bl_read l then show_nat (length (bl_all l)) else ''-'') in
        Some (''PodRbacTab'',
          ''Pod '' @ pod @ '' ('' @ ns @ '') RBAC: ServiceAccount '' @ jstr (jnn name (JStr ''-'')) @ '', RoleBinding '' @ count roleBindings @
            '', ClusterRoleBinding '' @ count clusterRoleBindings @ '', '' @ show_nat (length permissions) @ '' permission rows'' @
            (if incomplete s then '' (some could not be read)'' else []),
          JObj ([(''kind'', JStr ''Pod''), (''name'', JStr pod), (''namespace'', JStr ns),
            (''service_account'', if truthy name then JStr (''system:serviceaccount:'' @ ns @ '':'' @ jstr name) else JNull),
            (''include_authenticated'', JBool (truthy (jget rbac ''include_authenticated''))),
            (''permissions'', JArr (map JStr permissions)), (''permissions_total'', JNum (int (length permissions))),
            (''permissions_format'', JStr ''apiGroup|resource|resourceNames|verbs, url|verbs''),
            (''permissions_incomplete'', JBool (incomplete s))] @
            binding_props roleBindings ''role_bindings'' @ binding_props clusterRoleBindings ''cluster_role_bindings'' @
            [(''errors'', JArr (elems (jget rbac ''errors'')))]))))"

end
