(* ===== verification/Rbac_Props.thy ===== *)
theory Rbac_Props
  imports Rbac
begin

text \<open>The rows of a service account say what its bindings' rules say, each permission in one row.\<close>

section \<open>What the rules say\<close>

text \<open>A row's name: a group, resource and names, or an address.\<close>

type_synonym row_name = "(string \<times> string \<times> string list) + string"

definition ident :: "rbac_item \<Rightarrow> row_name" where
  "ident i = (case ri_kind i of
      Resource \<Rightarrow> Inl (ri_apiGroup i, ri_resource i, case_option [] id (ri_names i))
    | NonResourceURL \<Rightarrow> Inr (ri_url i))"

definition tkey :: "string \<times> string \<times> string list \<Rightarrow> string" where
  "tkey t = (case t of (g, r, ns) \<Rightarrow> resource_key g r (Some ns))"

definition rule_names :: "jval \<Rightarrow> string list" where
  "rule_names rule = sort (texts (jget rule ''resource_names''))"

definition rule_groups :: "jval \<Rightarrow> string list" where
  "rule_groups rule = map (\<lambda>g. if g = [] then ''(core)'' else g)
     (if elems (jget rule ''api_groups'') \<noteq> [] then texts (jget rule ''api_groups'') else [[]])"

definition rule_asks :: "jval \<Rightarrow> row_name set" where
  "rule_asks rule =
     (if elems (jget rule ''non_resource_urls'') \<noteq> [] then Inr ` set (said (jget rule ''non_resource_urls''))
      else {Inl (g, r, rule_names rule) |g r. g \<in> set (rule_groups rule) \<and> r \<in> set (said (jget rule ''resources''))})"

definition rule_grants :: "jval \<Rightarrow> (row_name \<times> string) set" where
  "rule_grants rule = rule_asks rule \<times> set (texts (jget rule ''verbs''))"

definition rbac_rules :: "jval \<Rightarrow> jval list" where
  "rbac_rules rbac = concat (map (\<lambda>b. elems (jpath b [''resolved_role'', ''rules'']))
     (concat (map (\<lambda>k. case spread_list (jget rbac k) of Some xs \<Rightarrow> xs | None \<Rightarrow> []) [''role_bindings'', ''cluster_role_bindings''])))"

section \<open>Items collect\<close>

definition holds :: "rbac_item list \<Rightarrow> (row_name \<times> string) set" where
  "holds xs = (\<Union>i\<in>set xs. {ident i} \<times> set (ri_verbs i))"

definition build_ok :: "(string \<times> string \<times> string list) set \<Rightarrow> rbac_build \<Rightarrow> bool" where
  "build_ok A s \<longleftrightarrow> distinct (map ident (items s)) \<and> (\<forall>i\<in>set (items s). distinct (ri_verbs i)) \<and>
     (\<forall>k n. map_of (resourceIndex s) k = Some n \<longleftrightarrow> n < length (items s) \<and> (\<exists>t. ident (items s ! n) = Inl t \<and> tkey t = k)) \<and>
     (\<forall>u n. map_of (nonResourceIndex s) u = Some n \<longleftrightarrow> n < length (items s) \<and> ident (items s ! n) = Inr u) \<and>
     (\<forall>t. Inl t \<in> ident ` set (items s) \<longrightarrow> t \<in> A)"

lemma ident_verbs [simp]: "ident (i\<lparr>ri_verbs := vs\<rparr>) = ident i" "ident (i\<lparr>ri_verbsList := ws\<rparr>) = ident i"
  by (cases "ri_kind i"; simp add: ident_def)+

lemma map_ident_add_verbs [simp]: "map ident (add_verbs n vs xs) = map ident xs"
  by (auto simp: add_verbs_def list_eq_iff_nth_eq nth_list_update)

lemma length_add_verbs [simp]: "length (add_verbs n vs xs) = length xs"
  by (simp add: add_verbs_def)

lemma nth_ident_add_verbs [simp]: "m < length xs \<Longrightarrow> ident (add_verbs n vs xs ! m) = ident (xs ! m)"
  by (metis length_add_verbs map_ident_add_verbs nth_map)

lemma ident_set_add_verbs [simp]: "ident ` set (add_verbs n vs xs) = ident ` set xs"
  by (metis list.set_map map_ident_add_verbs)

lemma holds_add_verbs:
  assumes "n < length xs"
  shows "holds (add_verbs n vs xs) = holds xs \<union> {ident (xs ! n)} \<times> set vs"
proof -
  have eq: "xs = take n xs @ xs ! n # drop (Suc n) xs" using assms by (rule id_take_nth_drop)
  have "add_verbs n vs xs = take n xs @ (xs ! n)\<lparr>ri_verbs := fold set_add vs (ri_verbs (xs ! n))\<rparr> # drop (Suc n) xs"
    using assms by (simp add: add_verbs_def upd_conv_take_nth_drop)
  moreover have "holds xs = holds (take n xs @ xs ! n # drop (Suc n) xs)" using eq by simp
  ultimately show ?thesis by (auto simp: holds_def set_fold_set_add)
qed

lemma distinct_add_verbs: "\<forall>i\<in>set xs. distinct (ri_verbs i) \<Longrightarrow> \<forall>i\<in>set (add_verbs n vs xs). distinct (ri_verbs i)"
  by (auto simp: add_verbs_def distinct_fold_set_add dest!: set_update_subset_insert [THEN subsetD])

lemma holds_append: "holds (xs @ [i]) = holds xs \<union> {ident i} \<times> set (ri_verbs i)"
  by (auto simp: holds_def)

lemma tkey_names: "resource_key g r names = tkey (g, r, sort (case_option [] id names))"
  by (simp add: tkey_def resource_key_def sorted_sort_id)

lemma addResource_ok:
  assumes "build_ok A s" "inj_on tkey A" "(g, r, sort (case_option [] id names)) \<in> A"
  shows "build_ok A (addResource g r names vs s) \<and>
    holds (items (addResource g r names vs s)) = holds (items s) \<union> {Inl (g, r, sort (case_option [] id names))} \<times> set vs"
proof -
  let ?t = "(g, r, sort (case_option [] id names))"
  show ?thesis
  proof (cases "map_of (resourceIndex s) (tkey ?t)")
    case (Some n)
    then obtain t where n: "n < length (items s)" and t: "ident (items s ! n) = Inl t" "tkey t = tkey ?t"
      using assms(1) unfolding build_ok_def by blast
    have "t \<in> A" using assms(1) n t(1) unfolding build_ok_def by (metis imageI nth_mem)
    then have "t = ?t" using assms(2,3) t(2) by (auto dest: inj_onD)
    moreover have "build_ok A (s\<lparr>items := add_verbs n vs (items s)\<rparr>)"
      using assms(1) distinct_add_verbs [of "items s" n vs] by (simp add: build_ok_def cong: conj_cong)
    ultimately show ?thesis using Some n t(1) by (simp add: addResource_def tkey_names holds_add_verbs)
  next
    case None
    define i where "i = \<lparr>ri_kind = Resource, ri_apiGroup = g, ri_resource = r, ri_names = (case names of Some (n # ns) \<Rightarrow> Some (sort (n # ns)) | _ \<Rightarrow> None),
      ri_url = [], ri_verbs = uniq vs, ri_verbsList = []\<rparr>"
    have i: "ident i = Inl ?t" "ri_verbs i = uniq vs" by (auto simp: i_def ident_def split: option.split list.split)
    have s': "addResource g r names vs s = s\<lparr>resourceIndex := AList.update (tkey ?t) (length (items s)) (resourceIndex s), items := items s @ [i]\<rparr>"
      using None by (simp add: addResource_def tkey_names i_def)
    have new: "Inl t \<notin> ident ` set (items s)" if "tkey t = tkey ?t" for t
      using None assms(1) that unfolding build_ok_def by (metis (no_types, lifting) image_iff in_set_conv_nth option.distinct(1))
    then have other: "tkey t \<noteq> tkey ?t" if "n < length (items s)" "ident (items s ! n) = Inl t" for n t
      using that by (metis image_eqI nth_mem)
    have "build_ok A (addResource g r names vs s)"
      using assms(1,3) i new other unfolding build_ok_def s'
      by (auto simp: update_conv' nth_append less_Suc_eq)
    then show ?thesis using i by (simp add: s' holds_append)
  qed
qed

lemma addNonResource_ok:
  assumes "build_ok A s"
  shows "build_ok A (addNonResource url vs s) \<and> holds (items (addNonResource url vs s)) = holds (items s) \<union> {Inr url} \<times> set vs"
proof (cases "map_of (nonResourceIndex s) url")
  case (Some n)
  then have n: "n < length (items s)" "ident (items s ! n) = Inr url" using assms unfolding build_ok_def by blast+
  have "build_ok A (s\<lparr>items := add_verbs n vs (items s)\<rparr>)"
    using assms distinct_add_verbs [of "items s" n vs] by (simp add: build_ok_def cong: conj_cong)
  then show ?thesis using Some n by (simp add: addNonResource_def holds_add_verbs)
next
  case None
  define i where "i = \<lparr>ri_kind = NonResourceURL, ri_apiGroup = [], ri_resource = [], ri_names = None, ri_url = url, ri_verbs = uniq vs, ri_verbsList = []\<rparr>"
  have i: "ident i = Inr url" "ri_verbs i = uniq vs" by (simp_all add: i_def ident_def)
  have s': "addNonResource url vs s = s\<lparr>nonResourceIndex := AList.update url (length (items s)) (nonResourceIndex s), items := items s @ [i]\<rparr>"
    using None by (simp add: addNonResource_def i_def)
  have other: "ident (items s ! n) \<noteq> Inr url" if "n < length (items s)" for n
    using None assms that unfolding build_ok_def by (metis option.distinct(1))
  then have "Inr url \<notin> ident ` set (items s)" by (metis (no_types, lifting) image_iff in_set_conv_nth)
  then have "build_ok A (addNonResource url vs s)"
    using assms i other unfolding build_ok_def s' by (auto simp: update_conv' nth_append less_Suc_eq)
  then show ?thesis using i by (simp add: s' holds_append)
qed

text \<open>A loop whose steps each add what they hold.\<close>

lemma fold_collects:
  assumes "\<And>x s. x \<in> set xs \<Longrightarrow> I s \<Longrightarrow> I (f x s) \<and> C (f x s) = C s \<union> G x"
  shows "I s \<Longrightarrow> I (fold f xs s) \<and> C (fold f xs s) = C s \<union> (\<Union>x\<in>set xs. G x)"
  using assms
proof (induction xs arbitrary: s)
  case (Cons x xs)
  have step: "I (f x s)" "C (f x s) = C s \<union> G x" using Cons.prems(2) [of x s] Cons.prems(1) by simp_all
  have "I (fold f xs (f x s)) \<and> C (fold f xs (f x s)) = C (f x s) \<union> (\<Union>x\<in>set xs. G x)"
    by (rule Cons.IH [OF step(1)]) (simp add: Cons.prems(2))
  then show ?case using step(2) by auto
qed simp

lemma add_rule_ok:
  assumes "inj_on tkey A" "Inl -` rule_asks rule \<subseteq> A" "build_ok A s"
  shows "build_ok A (add_rule rule s) \<and> holds (items (add_rule rule s)) = holds (items s) \<union> rule_grants rule"
proof (cases "elems (jget rule ''non_resource_urls'') \<noteq> []")
  case True
  let ?vs = "texts (jget rule ''verbs'')"
  have "build_ok A (fold (\<lambda>url. addNonResource url ?vs) (said (jget rule ''non_resource_urls'')) s) \<and>
      holds (items (fold (\<lambda>url. addNonResource url ?vs) (said (jget rule ''non_resource_urls'')) s)) =
      holds (items s) \<union> (\<Union>url\<in>set (said (jget rule ''non_resource_urls'')). {Inr url} \<times> set ?vs)"
    by (rule fold_collects [where I = "build_ok A" and C = "\<lambda>s. holds (items s)"]) (use addNonResource_ok assms(3) in auto)
  then show ?thesis using True by (auto simp: add_rule_def rule_grants_def rule_asks_def)
next
  case False
  let ?vs = "texts (jget rule ''verbs'')" and ?rs = "said (jget rule ''resources'')"
  define gs where "gs = (if elems (jget rule ''api_groups'') \<noteq> [] then texts (jget rule ''api_groups'') else [[]])"
  let ?core = "\<lambda>g. if g = [] then ''(core)'' else g"
  let ?names = "if is_array (jget rule ''resource_names'') then Some (texts (jget rule ''resource_names'')) else None"
  have names: "sort (case_option [] id ?names) = rule_names rule"
    by (cases "jget rule ''resource_names''") (simp_all add: rule_names_def texts_def)
  have asks: "rule_asks rule = (\<Union>g\<in>set gs. \<Union>r\<in>set ?rs. {Inl (?core g, r, rule_names rule)})"
    using False by (auto simp: rule_asks_def rule_groups_def gs_def [symmetric])
  have asked: "(?core g, r, rule_names rule) \<in> A" if "g \<in> set gs" "r \<in> set ?rs" for g r
    proof -
    have "Inl (?core g, r, rule_names rule) \<in> rule_asks rule" unfolding asks using that by blast
    then have "(?core g, r, rule_names rule) \<in> Inl -` rule_asks rule" by (rule vimageI2)
    with assms(2) show ?thesis by (rule subsetD)
  qed
  have inner: "build_ok A (fold (\<lambda>r. addResource (?core g) r ?names ?vs) ?rs s) \<and>
      holds (items (fold (\<lambda>r. addResource (?core g) r ?names ?vs) ?rs s)) =
      holds (items s) \<union> (\<Union>r\<in>set ?rs. {Inl (?core g, r, rule_names rule)} \<times> set ?vs)" if "g \<in> set gs" "build_ok A s" for g s
    by (rule fold_collects [where I = "build_ok A" and C = "\<lambda>s. holds (items s)"])
      (use addResource_ok [OF _ assms(1), of _ _ _ ?names] asked that names in auto)
  have "build_ok A (fold (\<lambda>g. fold (\<lambda>r. addResource (?core g) r ?names ?vs) ?rs) gs s) \<and>
      holds (items (fold (\<lambda>g. fold (\<lambda>r. addResource (?core g) r ?names ?vs) ?rs) gs s)) =
      holds (items s) \<union> (\<Union>g\<in>set gs. \<Union>r\<in>set ?rs. {Inl (?core g, r, rule_names rule)} \<times> set ?vs)"
    by (rule fold_collects [where I = "build_ok A" and C = "\<lambda>s. holds (items s)"]) (use inner assms(3) in auto)
  moreover have "add_rule rule s = fold (\<lambda>g. fold (\<lambda>r. addResource (?core g) r ?names ?vs) ?rs) gs s"
    using False by (simp add: add_rule_def Let_def gs_def)
  moreover have "rule_grants rule = (\<Union>g\<in>set gs. \<Union>r\<in>set ?rs. {Inl (?core g, r, rule_names rule)} \<times> set ?vs)"
    by (auto simp: rule_grants_def asks)
  ultimately show ?thesis by simp
qed

lemma add_bindings_ok:
  assumes "inj_on tkey A" "\<forall>b\<in>set bs. \<forall>rule\<in>set (elems (jpath b [''resolved_role'', ''rules''])). Inl -` rule_asks rule \<subseteq> A" "build_ok A s"
  shows "build_ok A (fold add_binding bs s) \<and>
    holds (items (fold add_binding bs s)) = holds (items s) \<union> (\<Union>b\<in>set bs. \<Union>rule\<in>set (elems (jpath b [''resolved_role'', ''rules''])). rule_grants rule)"
proof (rule fold_collects [where I = "build_ok A" and C = "\<lambda>s. holds (items s)"])
  fix b s assume b: "b \<in> set bs" "build_ok A s"
  show "build_ok A (add_binding b s) \<and> holds (items (add_binding b s)) =
      holds (items s) \<union> (\<Union>rule\<in>set (elems (jpath b [''resolved_role'', ''rules''])). rule_grants rule)"
    unfolding add_binding_def
    by (rule fold_collects [where I = "build_ok A" and C = "\<lambda>s. holds (items s)"]) (use add_rule_ok [OF assms(1)] assms(2) b in auto)
qed (rule assms(3))

lemma build_ok_empty: "build_ok A no_items" "holds (items no_items) = {}"
  by (simp_all add: build_ok_def no_items_def holds_def)

section \<open>The table\<close>

text \<open>The rows of a summary: what each is about, with each of its verbs.\<close>

definition rows_say :: "rbac_item list \<Rightarrow> (row_name \<times> string) set" where
  "rows_say xs = (\<Union>i\<in>set xs. {ident i} \<times> set (ri_verbsList i))"

lemma with_verbs_simps [simp]: "ident (with_verbs i) = ident i" "ri_verbsList (with_verbs i) = sort (ri_verbs i)"
  by (simp_all add: with_verbs_def)

text \<open>Texts that do not run together: groups and resources without colons, names that say something, without commas.\<close>

definition plain_ask :: "string \<times> string \<times> string list \<Rightarrow> bool" where
  "plain_ask t = (case t of (g, r, ns) \<Rightarrow> CHR '':'' \<notin> set g \<union> set r \<and> (\<forall>n\<in>set ns. n \<noteq> [] \<and> CHR '','' \<notin> set n) \<and> sorted ns)"

lemma split_at_first: "a @ c # s = b @ c # t \<Longrightarrow> c \<notin> set a \<Longrightarrow> c \<notin> set b \<Longrightarrow> a = b \<and> s = t"
  by (induction a arbitrary: b) (auto simp: append_eq_Cons_conv Cons_eq_append_conv)

lemma tkey_inj: "inj_on tkey {t. plain_ask t}"
proof (rule inj_onI)
  fix t u assume t: "t \<in> {t. plain_ask t}" and u: "u \<in> {t. plain_ask t}" and eq: "tkey t = tkey u"
  obtain g r ns where tt: "t = (g, r, ns)" by (cases t)
  obtain g' r' ns' where uu: "u = (g', r', ns')" by (cases u)
  have sorts: "sort ns = ns" "sort ns' = ns'" using t u by (auto simp: plain_ask_def tt uu sorted_sort_id)
  have e: "g @ CHR '':'' # CHR '':'' # r @ CHR '':'' # CHR '':'' # join '','' ns = g' @ CHR '':'' # CHR '':'' # r' @ CHR '':'' # CHR '':'' # join '','' ns'"
    using eq sorts by (simp add: tkey_def resource_key_def tt uu)
  have colons: "CHR '':'' \<notin> set g" "CHR '':'' \<notin> set g'" "CHR '':'' \<notin> set r" "CHR '':'' \<notin> set r'"
    using t u by (auto simp: plain_ask_def tt uu)
  from split_at_first [OF e colons(1,2)] have g: "g = g'"
    and e2: "r @ CHR '':'' # CHR '':'' # join '','' ns = r' @ CHR '':'' # CHR '':'' # join '','' ns'" by simp_all
  from split_at_first [OF e2 colons(3,4)] have r: "r = r'" and e3: "join '','' ns = join '','' ns'" by simp_all
  have "ns = ns'" using join_inj [OF e3] t u by (auto simp: plain_ask_def tt uu)
  then show "t = u" using g r by (simp add: tt uu)
qed

text \<open>
  C28: The permission table of a Pod says exactly what the rules of its bindings say: a group, resource and names (or an address) is in the
  table with a verb when a rule gives that verb on it, each is one row, and a row's verbs are sorted, none twice; where groups and
  resources have no colon and names no comma, as the API server's do.
\<close>

theorem rbac_rows_exact:
  assumes "buildRbacPermissionSummary lc rbac = Some s" "\<forall>rule\<in>set (rbac_rules rbac). \<forall>t. Inl t \<in> rule_asks rule \<longrightarrow> plain_ask t"
  shows "rows_say (resourceItems s @ nonResourceItems s) = (\<Union>rule\<in>set (rbac_rules rbac). rule_grants rule) \<and>
    distinct (map ident (resourceItems s @ nonResourceItems s)) \<and>
    (\<forall>i\<in>set (resourceItems s @ nonResourceItems s). sorted (ri_verbsList i) \<and> distinct (ri_verbsList i))"
proof -
  let ?A = "\<Union>rule\<in>set (rbac_rules rbac). Inl -` rule_asks rule"
  have keys: "inj_on tkey ?A" by (rule inj_on_subset [OF tkey_inj]) (use assms(2) in auto)
  obtain rs cs where b: "spread_list (jget rbac ''role_bindings'') = Some rs" "spread_list (jget rbac ''cluster_role_bindings'') = Some cs"
    using assms(1) by (auto simp: buildRbacPermissionSummary_def split: option.splits)
  define xs where "xs = items (fold add_binding (rs @ cs) no_items)"
  have rules: "set (rbac_rules rbac) = (\<Union>b\<in>set (rs @ cs). set (elems (jpath b [''resolved_role'', ''rules''])))"
    by (auto simp: rbac_rules_def b)
  have ok: "build_ok ?A (fold add_binding (rs @ cs) no_items) \<and> holds xs =
      holds (items no_items) \<union> (\<Union>b\<in>set (rs @ cs). \<Union>rule\<in>set (elems (jpath b [''resolved_role'', ''rules''])). rule_grants rule)"
    unfolding xs_def using rules build_ok_empty(1) by (intro add_bindings_ok [OF keys]) auto
  then have d: "distinct (map ident xs)" "\<forall>i\<in>set xs. distinct (ri_verbs i)" by (auto simp: build_ok_def xs_def)
  have h: "holds xs = (\<Union>rule\<in>set (rbac_rules rbac). rule_grants rule)" using ok by (simp only: build_ok_empty(2) rules) auto
  have parts: "resourceItems s = js_sort (compare_resources lc) (map with_verbs (filter (\<lambda>i. ri_kind i = Resource) xs))"
      "nonResourceItems s = js_sort (\<lambda>a b. lc (ri_url a) (ri_url b)) (map with_verbs (filter (\<lambda>i. ri_kind i = NonResourceURL) xs))"
    using assms(1) by (auto simp: buildRbacPermissionSummary_def b xs_def Let_def)
  have kinds: "{i \<in> set xs. ri_kind i = Resource} \<union> {i \<in> set xs. ri_kind i = NonResourceURL} = set xs"
    using item_kind.exhaust by blast
  have all: "set (resourceItems s @ nonResourceItems s) = with_verbs ` set xs"
    by (simp add: parts image_Un [symmetric] kinds)
  have "distinct (map ident (filter P xs))" for P using d(1) by (rule distinct_map_filter)
  moreover have "ident i \<noteq> ident j" if "ri_kind i = Resource" "ri_kind j = NonResourceURL" for i j using that by (simp add: ident_def)
  ultimately have "distinct (map ident (resourceItems s @ nonResourceItems s))" by (auto simp: parts comp_def)
  moreover have "rows_say (resourceItems s @ nonResourceItems s) = holds xs" by (simp only: rows_say_def all) (auto simp: holds_def)
  ultimately show ?thesis using h d(2) all by auto
qed

text \<open>Two bindings that give the same resource in two rules, and one for an address.\<close>

definition list_pods :: jval where
  "list_pods = JObj [(''api_groups'', JArr [JStr []]), (''resources'', JArr [JStr ''pods'']), (''verbs'', JArr [JStr ''list''])]"

definition get_healthz :: jval where
  "get_healthz = JObj [(''non_resource_urls'', JArr [JStr ''/healthz'']), (''verbs'', JArr [JStr ''get''])]"

definition read_pods :: jval where
  "read_pods = JObj [(''api_groups'', JArr [JStr []]), (''resources'', JArr [JStr ''pods'']), (''verbs'', JArr [JStr ''get'', JStr ''list''])]"

definition rbac_example :: jval where
  "rbac_example = JObj
     [(''role_bindings'', JArr [JObj [(''resolved_role'', JObj [(''rules'', JArr [list_pods, get_healthz])])]]),
      (''cluster_role_bindings'', JArr [JObj [(''resolved_role'', JObj [(''rules'', JArr [read_pods])])]])]"

lemma rbac_example_asks: "\<forall>rule\<in>set (rbac_rules rbac_example). \<forall>t. Inl t \<in> rule_asks rule \<longrightarrow> plain_ask t"
proof -
  have "rbac_rules rbac_example = [list_pods, get_healthz, read_pods]"
    by (simp add: rbac_rules_def rbac_example_def spread_list_def)
  moreover have "trim ''pods'' = ''pods''" "trim ''/healthz'' = ''/healthz''" by code_simp+
  ultimately show ?thesis
    by (auto simp: plain_ask_def rule_asks_def rule_groups_def rule_names_def texts_def said_def list_pods_def get_healthz_def read_pods_def)
qed

lemma rbac_example_built: "\<exists>s. buildRbacPermissionSummary (compare_by id) rbac_example = Some s"
  by (simp add: buildRbacPermissionSummary_def rbac_example_def spread_list_def Let_def)

theorem rbac_rows_exact_witness:
  "\<exists>s. buildRbacPermissionSummary (compare_by id) rbac_example = Some s \<and>
     rows_say (resourceItems s @ nonResourceItems s) = (\<Union>rule\<in>set (rbac_rules rbac_example). rule_grants rule)"
proof -
  obtain s where s: "buildRbacPermissionSummary (compare_by id) rbac_example = Some s" using rbac_example_built by blast
  from rbac_rows_exact [OF s rbac_example_asks] s show ?thesis by blast
qed

end
