(* ===== verification/Times.thy ===== *)
theory Times
  imports Row_Values Calendar
begin

text \<open>
  Times on screen (\<^verbatim>\<open>frontend/src/utils/time.ts\<close>): a time is a number of milliseconds since 1970. The viewer's clock is a record: the offset of
  local time at a time, the time of a local one (\<^verbatim>\<open>new Date(y, m, d, h, mi)\<close>), and what \<^verbatim>\<open>new Date(text)\<close> reads.
\<close>

record viewer =
  tz :: "int \<Rightarrow> int"
  from_local :: "int \<Rightarrow> int"
  read_date :: "string \<Rightarrow> int option"

datatype time_input = NoTime | Text string | Ms int

text \<open>Year, month (1 to 12), day, hours, minutes and seconds.\<close>

type_synonym clock_face = "int \<times> int \<times> int \<times> int \<times> int \<times> int"

definition face_of :: "int \<Rightarrow> clock_face" where
  "face_of l = (case date_of (l div 86400000) of (y, m, d) \<Rightarrow>
     (y, m, d, l mod 86400000 div 3600000, l mod 3600000 div 60000, l mod 60000 div 1000))"

definition local_face :: "viewer \<Rightarrow> int \<Rightarrow> clock_face" where
  "local_face v t = face_of (t + tz v t)"

definition toDate :: "viewer \<Rightarrow> time_input \<Rightarrow> int option" where
  "toDate v i =
     (let d = (case i of NoTime \<Rightarrow> None | Text s \<Rightarrow> if s = [] then None else read_date v s | Ms t \<Rightarrow> Some t) in
      case d of None \<Rightarrow> None | Some t \<Rightarrow> if fst (local_face v t) < 1980 then None else Some t)"

definition pad :: "int \<Rightarrow> string" where
  "pad n = (let s = show_int n in replicate (2 - length s) (CHR ''0'') @ s)"

definition ageSeconds :: "viewer \<Rightarrow> int \<Rightarrow> time_input \<Rightarrow> int" where
  "ageSeconds v now i = (case toDate v i of Some d \<Rightarrow> max 0 ((now - d) div 1000) | None \<Rightarrow> 0)"

text \<open>\<^verbatim>\<open>Math.trunc\<close>, and the text of whole seconds.\<close>

definition trunc :: "real \<Rightarrow> int" where
  "trunc x = (if x < 0 then \<lceil>x\<rceil> else \<lfloor>x\<rfloor>)"

definition duration_text :: "int \<Rightarrow> string" where
  "duration_text s =
     (if s < -1 then ''<invalid>''
      else if s < 0 then ''0s''
      else if s < 60 * 2 then show_int s @ ''s''
      else
       (let minutes = s div 60 in
        if minutes < 10 then (if s mod 60 = 0 then show_int minutes @ ''m'' else show_int minutes @ ''m'' @ show_int (s mod 60) @ ''s'')
        else if minutes < 60 * 3 then show_int minutes @ ''m''
        else
         (let hours = s div 3600 in
          if hours < 8 then (if minutes mod 60 = 0 then show_int hours @ ''h'' else show_int hours @ ''h'' @ show_int (minutes mod 60) @ ''m'')
          else if hours < 48 then show_int hours @ ''h''
          else if hours < 24 * 8 then (if hours mod 24 = 0 then show_int (hours div 24) @ ''d'' else show_int (hours div 24) @ ''d'' @ show_int (hours mod 24) @ ''h'')
          else
           (let days = hours div 24 in
            if hours < 24 * 365 * 2 then show_int days @ ''d''
            else if hours < 24 * 365 * 8 then (if days mod 365 = 0 then show_int (days div 365) @ ''y'' else show_int (days div 365) @ ''y'' @ show_int (days mod 365) @ ''d'')
            else show_int (days div 365) @ ''y''))))"

definition humanDuration :: "real \<Rightarrow> string" where
  "humanDuration seconds = duration_text (trunc seconds)"

definition formatAge :: "viewer \<Rightarrow> int \<Rightarrow> time_input \<Rightarrow> string" where
  "formatAge v now i = (case toDate v i of Some d \<Rightarrow> humanDuration (real_of_int (now - d) / 1000) | None \<Rightarrow> ''-'')"

definition formatDate :: "viewer \<Rightarrow> time_input \<Rightarrow> string" where
  "formatDate v i = (case toDate v i of
      Some t \<Rightarrow> (case local_face v t of (y, m, d, _) \<Rightarrow> show_int y @ ''-'' @ pad m @ ''-'' @ pad d)
    | None \<Rightarrow> ''-'')"

definition formatTime :: "viewer \<Rightarrow> time_input \<Rightarrow> string" where
  "formatTime v i = (case toDate v i of
      None \<Rightarrow> ''-''
    | Some t \<Rightarrow> (case local_face v t of (_, _, _, h, mi, s) \<Rightarrow> formatDate v (Ms t) @ '' '' @ pad h @ '':'' @ pad mi @ '':'' @ pad s))"

text \<open>\<^verbatim>\<open>toISOString\<close>: years beyond four digits have a sign and six.\<close>

definition pad_to :: "nat \<Rightarrow> int \<Rightarrow> string" where
  "pad_to k n = (let s = show_int n in replicate (k - length s) (CHR ''0'') @ s)"

definition toISOString :: "int \<Rightarrow> string" where
  "toISOString t = (case face_of t of (y, m, d, h, mi, s) \<Rightarrow>
     (if 0 \<le> y \<and> y \<le> 9999 then pad_to 4 y else (if y < 0 then ''-'' else ''+'') @ pad_to 6 \<bar>y\<bar>) @ ''-'' @ pad m @ ''-'' @ pad d @ ''T'' @
     pad h @ '':'' @ pad mi @ '':'' @ pad s @ ''.'' @ pad_to 3 (t mod 1000) @ ''Z'')"

definition utcTitle :: "viewer \<Rightarrow> time_input \<Rightarrow> string option" where
  "utcTitle v i = map_option (\<lambda>t. take (length (toISOString t) - 5) (toISOString t) @ ''Z'') (toDate v i)"

definition absoluteTitle :: "viewer \<Rightarrow> time_input \<Rightarrow> string option" where
  "absoluteTitle v i = map_option (\<lambda>utc. formatTime v i @ [CHR '' '', char_of (183 :: nat), CHR '' ''] @ utc) (utcTitle v i)"

definition endOfMinuteISO :: "int \<Rightarrow> string" where
  "endOfMinuteISO minute = butlast (toISOString (minute + 59999)) @ ''999Z''"

section \<open>Typed times\<close>

text \<open>A regular expression of digits (\<^verbatim>\<open>d\<close>), a blank or \<^verbatim>\<open>T\<close> (a blank), and itself.\<close>

definition fits :: "string \<Rightarrow> string \<Rightarrow> bool" where
  "fits p s \<longleftrightarrow> list_all2 (\<lambda>p c. if p = CHR ''d'' then is_digit c else if p = CHR '' '' then c = CHR '' '' \<or> c = CHR ''T'' else c = p) p s"

definition number_at :: "nat \<Rightarrow> nat \<Rightarrow> string \<Rightarrow> int" where
  "number_at i k s = int (digits_value (take k (drop i s)))"

text \<open>\<^verbatim>\<open>new Date(y, mo, d, h, mi)\<close>: the month counted from 0, a year below 100 one of the twentieth century.\<close>

definition new_Date :: "viewer \<Rightarrow> int \<Rightarrow> int \<Rightarrow> int \<Rightarrow> int \<Rightarrow> int \<Rightarrow> int" where
  "new_Date v y mo d h mi =
     from_local v (day_number (if 0 \<le> y \<and> y \<le> 99 then 1900 + y else y) mo d * 86400000 + h * 3600000 + mi * 60000)"

definition parseTypedTime :: "viewer \<Rightarrow> string \<Rightarrow> bool \<Rightarrow> int option" where
  "parseTypedTime v s withTime =
     (let m = trim s in
      if \<not> fits (if withTime then ''dddd-dd-dd dd:dd'' else ''dddd-dd-dd'') m then None
      else
        (let y = number_at 0 4 m; mo = number_at 5 2 m; d = number_at 8 2 m;
             h = (if withTime then number_at 11 2 m else 0); mi = (if withTime then number_at 14 2 m else 0);
             date = new_Date v y (mo - 1) d h mi in
         case local_face v date of (y', m', d', h', mi', _) \<Rightarrow>
           if y' \<noteq> y \<or> m' - 1 \<noteq> mo - 1 \<or> d' \<noteq> d then None
           else if h' \<noteq> h \<or> mi' \<noteq> mi then None
           else Some date))"

end
