(* ===== verification/Times_Props.thy ===== *)
theory Times_Props
  imports Times
begin

text \<open>What a duration on screen says of the time it stands for, and that a time on screen is read back as typed.\<close>

section \<open>Digits\<close>

lemma digits_of_is_digit: "list_all is_digit (digits_of n)"
proof (induction n rule: digits_of.induct)
  case (1 n)
  have "is_digit (char_of (48 + n mod 10))" "n < 10 \<Longrightarrow> is_digit (char_of (48 + n))" by (simp_all add: is_digit_def)
  with 1 show ?case by (subst digits_of.simps) simp
qed

lemma digits_value_snoc: "digits_value (s @ [c]) = 10 * digits_value s + (of_char c - 48)"
  by (simp add: digits_value_def)

lemma digits_value_of: "digits_value (digits_of n) = n"
proof (induction n rule: digits_of.induct)
  case (1 n)
  show ?case
  proof (cases "n < 10")
    case True
    then show ?thesis by (subst digits_of.simps) (simp add: digits_value_def)
  next
    case False
    then have "digits_of n = digits_of (n div 10) @ [char_of (48 + n mod 10)]" by (subst digits_of.simps) simp
    then have "digits_value (digits_of n) = 10 * (n div 10) + n mod 10" using 1 [OF False] by (simp add: digits_value_snoc)
    then show ?thesis by simp
  qed
qed

section \<open>Durations\<close>

definition unit_seconds :: "char \<Rightarrow> int" where
  "unit_seconds u = (if u = CHR ''s'' then 1 else if u = CHR ''m'' then 60 else if u = CHR ''h'' then 3600 else if u = CHR ''d'' then 86400
     else if u = CHR ''y'' then 31536000 else 0)"

text \<open>A duration read: numbers with their units, added up.\<close>

function read_units :: "string \<Rightarrow> int" where
  "read_units s = (case dropWhile is_digit s of
      [] \<Rightarrow> 0
    | u # r \<Rightarrow> int (digits_value (takeWhile is_digit s)) * unit_seconds u + read_units r)"
  by pat_completeness auto
termination
proof (relation "measure length")
  fix s u r assume "dropWhile is_digit s = u # r"
  then have "length (u # r) \<le> length s" by (metis length_dropWhile_le)
  then show "(r, s) \<in> measure length" by simp
qed simp

declare read_units.simps [simp del]

lemma read_units_Nil [simp]: "read_units [] = 0"
  by (simp add: read_units.simps)

lemma read_units_step [simp]:
  assumes "0 \<le> n" "\<not> is_digit u"
  shows "read_units (show_int n @ u # r) = n * unit_seconds u + read_units r"
proof -
  have d: "list_all is_digit (show_int n)" "digits_value (show_int n) = nat n"
    using assms(1) by (simp_all add: show_int_def digits_of_is_digit digits_value_of)
  then have "dropWhile is_digit (show_int n @ u # r) = u # r" "takeWhile is_digit (show_int n @ u # r) = show_int n"
    using assms(2) by (auto simp: list_all_iff takeWhile_append2 dropWhile_append2)
  then show ?thesis using d(2) assms(1) by (subst read_units.simps) simp
qed

lemma unit_letters [simp]: "\<not> is_digit (CHR ''s'')" "\<not> is_digit (CHR ''m'')" "\<not> is_digit (CHR ''h'')" "\<not> is_digit (CHR ''d'')" "\<not> is_digit (CHR ''y'')"
  by (simp_all add: is_digit_def)

lemma unit_values [simp]: "unit_seconds (CHR ''s'') = 1" "unit_seconds (CHR ''m'') = 60" "unit_seconds (CHR ''h'') = 3600"
    "unit_seconds (CHR ''d'') = 86400" "unit_seconds (CHR ''y'') = 31536000"
  by (simp_all add: unit_seconds_def)

lemma read_two_units:
  assumes "0 \<le> a" "0 \<le> b" "\<not> is_digit u" "\<not> is_digit w"
  shows "read_units (if b = 0 then show_int a @ [u] else show_int a @ u # show_int b @ [w]) = a * unit_seconds u + b * unit_seconds w"
  using assms read_units_step [of a u "[]"] read_units_step [of a u "show_int b @ [w]"] read_units_step [of b w "[]"] by simp

lemma read_one_unit: "0 \<le> a \<Longrightarrow> \<not> is_digit u \<Longrightarrow> read_units (show_int a @ [u]) = a * unit_seconds u"
  using read_units_step [of a u "[]"] by simp

lemma duration_text_close:
  assumes "0 \<le> s"
  shows "read_units (duration_text s) \<le> s \<and> 8 * (s - read_units (duration_text s)) \<le> s"
proof -
  define mi h d y where "mi = s div 60" and "h = s div 3600" and "d = s div 3600 div 24" and "y = s div 3600 div 24 div 365"
  have m: "mi * 60 \<le> s" "s < mi * 60 + 60" "h * 3600 \<le> s" "s < h * 3600 + 3600" "d * 24 \<le> h" "h < d * 24 + 24" "y * 365 \<le> d" "d < y * 365 + 365"
    using div_bounds [of 60 s] div_bounds [of 3600 s] div_bounds [of 24 h] div_bounds [of 365 d] by (auto simp: mi_def h_def d_def y_def)
  have hm: "h = mi div 60" using zdiv_zmult2_eq [of 60 s 60] by (simp add: h_def mi_def)
  have dh: "d = h div 24" and yd: "y = d div 365" by (simp_all add: h_def d_def y_def)
  have r: "s mod 60 = s - mi * 60" "mi mod 60 = mi - h * 60" "h mod 24 = h - d * 24" "d mod 365 = d - y * 365"
    using minus_div_mult_eq_mod [of s 60] minus_div_mult_eq_mod [of mi 60] minus_div_mult_eq_mod [of h 24] minus_div_mult_eq_mod [of d 365]
    by (simp_all only: mi_def [symmetric] hm [symmetric] d_def [symmetric] dh [symmetric] yd [symmetric])
  have pos: "0 \<le> mi" "0 \<le> h" "0 \<le> d" "0 \<le> y" "0 \<le> s mod 60" "0 \<le> mi mod 60" "0 \<le> h mod 24" "0 \<le> d mod 365" using assms by (auto simp: mi_def h_def d_def y_def)
  note two = read_two_units [OF pos(1) pos(5) unit_letters(2,1)] read_two_units [OF pos(2) pos(6) unit_letters(3,2)]
    read_two_units [OF pos(3) pos(7) unit_letters(4,3)] read_two_units [OF pos(4) pos(8) unit_letters(5,4)]
  note one = read_one_unit [OF assms unit_letters(1)] read_one_unit [OF pos(1) unit_letters(2)] read_one_unit [OF pos(2) unit_letters(3)]
    read_one_unit [OF pos(3) unit_letters(4)] read_one_unit [OF pos(4) unit_letters(5)]
  note def = duration_text_def [of s, unfolded Let_def, folded mi_def h_def, folded d_def [folded h_def], folded y_def [folded h_def, folded d_def [folded h_def]]]
  consider "s < 120" | "120 \<le> s" "mi < 10" | "120 \<le> s" "10 \<le> mi" "mi < 180" | "180 \<le> mi" "h < 8" | "8 \<le> h" "h < 48" | "48 \<le> h" "h < 192"
    | "192 \<le> h" "h < 17520" | "17520 \<le> h" "h < 70080" | "70080 \<le> h" by linarith
  then show ?thesis
  proof cases
    case 1
    then have "duration_text s = show_int s @ ''s''" using assms by (simp add: def)
    then show ?thesis using one(1) assms by simp
  next
    case 2
    then have "duration_text s = (if s mod 60 = 0 then show_int mi @ ''m'' else show_int mi @ ''m'' @ show_int (s mod 60) @ ''s'')" by (simp add: def)
    then have "read_units (duration_text s) = mi * 60 + s mod 60" using two(1) by (simp split: if_splits)
    then show ?thesis using r m assms by simp
  next
    case 3
    then have "duration_text s = show_int mi @ ''m''" by (simp add: def)
    then show ?thesis using one(2) m 3 by simp
  next
    case 4
    then have "duration_text s = (if mi mod 60 = 0 then show_int h @ ''h'' else show_int h @ ''h'' @ show_int (mi mod 60) @ ''m'')" using m by (simp add: def)
    then have "read_units (duration_text s) = h * 3600 + mi mod 60 * 60" using two(2) by (simp split: if_splits)
    then show ?thesis using r m 4 by simp
  next
    case 5
    then have "duration_text s = show_int h @ ''h''" using m by (simp add: def)
    then show ?thesis using one(3) m 5 by simp
  next
    case 6
    then have "duration_text s = (if h mod 24 = 0 then show_int d @ ''d'' else show_int d @ ''d'' @ show_int (h mod 24) @ ''h'')" using m by (simp add: def)
    then have "read_units (duration_text s) = d * 86400 + h mod 24 * 3600" using two(3) by (simp split: if_splits)
    then show ?thesis using r m 6 by simp
  next
    case 7
    then have "duration_text s = show_int d @ ''d''" using m by (simp add: def)
    then show ?thesis using one(4) m 7 by simp
  next
    case 8
    then have "duration_text s = (if d mod 365 = 0 then show_int y @ ''y'' else show_int y @ ''y'' @ show_int (d mod 365) @ ''d'')" using m by (simp add: def)
    then have "read_units (duration_text s) = y * 31536000 + d mod 365 * 86400" using two(4) by (simp split: if_splits)
    then show ?thesis using r m 8 by simp
  next
    case 9
    then have "duration_text s = show_int y @ ''y''" using m by (simp add: def)
    then show ?thesis using one(5) m 9 by simp
  qed
qed

text \<open>
  The age on screen is never more than the true one, and short of it by at most an eighth: read back as numbers with their units, it
  is at most the whole seconds passed, and at least seven eighths of them.
\<close>

theorem human_duration_close:
  assumes "0 \<le> x"
  shows "read_units (humanDuration x) \<le> \<lfloor>x\<rfloor> \<and> 8 * (\<lfloor>x\<rfloor> - read_units (humanDuration x)) \<le> \<lfloor>x\<rfloor>"
  using duration_text_close [of "\<lfloor>x\<rfloor>"] assms by (simp add: humanDuration_def trunc_def)

text \<open>Three hours and 59 seconds.\<close>

theorem human_duration_close_witness: "read_units (humanDuration 10859) \<le> 10859 \<and> 8 * (10859 - read_units (humanDuration 10859)) \<le> 10859"
  using human_duration_close [of 10859] by simp

section \<open>Typed times\<close>

lemma length_digits_of: "length (digits_of n) = (if n < 10 then 1 else Suc (length (digits_of (n div 10))))"
  by (subst digits_of.simps) simp

lemma four_digits:
  assumes "1000 \<le> n" "n < 10000"
  shows "\<exists>a b c e. show_int n = [a, b, c, e] \<and> is_digit a \<and> is_digit b \<and> is_digit c \<and> is_digit e \<and> digits_value [a, b, c, e] = nat n"
proof -
  have b: "1000 \<le> nat n" "nat n < 10000" using assms by simp_all
  then have "\<not> nat n < 10" "\<not> nat n div 10 < 10" "\<not> nat n div 100 < 10" "nat n div 1000 < 10"
    by (simp_all add: not_less less_eq_div_iff_mult_less_eq div_less_iff_less_mult)
  then have "length (digits_of (nat n)) = 4"
    by (simp add: length_digits_of [of "nat n"] length_digits_of [of "nat n div 10"] length_digits_of [of "nat n div 100"] length_digits_of [of "nat n div 1000"]
      div_mult2_eq [symmetric])
  then obtain a b c e where "digits_of (nat n) = [a, b, c, e]" by (auto simp: length_Suc_conv numeral_eq_Suc)
  then show ?thesis using assms digits_of_is_digit [of "nat n"] digits_value_of [of "nat n"] by (auto simp: show_int_def)
qed

lemma two_digits:
  assumes "0 \<le> n" "n < 100"
  shows "\<exists>a b. pad n = [a, b] \<and> is_digit a \<and> is_digit b \<and> digits_value [a, b] = nat n"
proof (cases "n < 10")
  case True
  then have "nat n < 10" by simp
  then have "digits_of (nat n) = [char_of (48 + nat n)]" by (subst digits_of.simps) simp
  then show ?thesis using assms True digits_of_is_digit [of "nat n"] digits_value_of [of "nat n"]
    by (auto simp: pad_def show_int_def is_digit_def digits_value_def)
next
  case False
  then have "\<not> nat n < 10" "nat n div 10 < 10" using assms by (simp_all add: not_less div_less_iff_less_mult)
  then have "length (digits_of (nat n)) = 2" by (simp add: length_digits_of [of "nat n"] length_digits_of [of "nat n div 10"])
  then obtain a b where "digits_of (nat n) = [a, b]" by (auto simp: length_Suc_conv numeral_eq_Suc)
  then show ?thesis using assms digits_of_is_digit [of "nat n"] digits_value_of [of "nat n"] by (auto simp: pad_def show_int_def)
qed

lemma digit_not_ws: "is_digit c \<Longrightarrow> \<not> is_ws c"
  by (auto simp: is_digit_def is_ws_def)

lemma typed_minute:
  assumes "1000 \<le> y" "y < 10000" "0 \<le> m" "m < 100" "0 \<le> d" "d < 100" "0 \<le> h" "h < 100" "0 \<le> mi" "mi < 100"
  defines "s \<equiv> show_int y @ ''-'' @ pad m @ ''-'' @ pad d @ '' '' @ pad h @ '':'' @ pad mi"
  shows "length s = 16 \<and> trim s = s \<and> fits ''dddd-dd-dd dd:dd'' s \<and> number_at 0 4 s = y \<and> number_at 5 2 s = m \<and> number_at 8 2 s = d \<and>
    number_at 11 2 s = h \<and> number_at 14 2 s = mi"
proof -
  obtain a b c e where y: "show_int y = [a, b, c, e]" "is_digit a" "is_digit b" "is_digit c" "is_digit e" "digits_value [a, b, c, e] = nat y"
    using four_digits assms by blast
  obtain m1 m2 where m: "pad m = [m1, m2]" "is_digit m1" "is_digit m2" "digits_value [m1, m2] = nat m" using two_digits assms by blast
  obtain d1 d2 where d: "pad d = [d1, d2]" "is_digit d1" "is_digit d2" "digits_value [d1, d2] = nat d" using two_digits assms by blast
  obtain h1 h2 where h: "pad h = [h1, h2]" "is_digit h1" "is_digit h2" "digits_value [h1, h2] = nat h" using two_digits assms by blast
  obtain i1 i2 where i: "pad mi = [i1, i2]" "is_digit i1" "is_digit i2" "digits_value [i1, i2] = nat mi" using two_digits assms by blast
  note [simp] = y m d h i
  have s: "s = [a, b, c, e, CHR ''-'', m1, m2, CHR ''-'', d1, d2, CHR '' '', h1, h2, CHR '':'', i1, i2]" by (simp add: s_def)
  have "trim s = s" by (rule trim_same) (simp_all add: s digit_not_ws)
  moreover have "fits ''dddd-dd-dd dd:dd'' s" by (simp add: s fits_def)
  ultimately show ?thesis using assms by (simp add: s number_at_def)
qed

lemma month_len_day: "valid_date y m d \<Longrightarrow> 0 \<le> m \<and> m < 100 \<and> 0 \<le> d \<and> d < 100"
  using month_len_bounds(2) [of "leap y" m] by (auto simp: valid_date_def)

text \<open>The start of a local minute.\<close>

definition minute_start :: "viewer \<Rightarrow> int \<Rightarrow> int" where
  "minute_start v t = t - (t + tz v t) mod 60000"

text \<open>
  A time on screen, typed back without its seconds, is read as the minute it shows: the start of the time's local minute, for years of
  four digits, where the clock does not change within the minute and its local time names no other time.
\<close>

theorem typed_time_read_back:
  assumes "1980 \<le> fst (local_face v t)" "fst (local_face v t) < 10000" "tz v (minute_start v t) = tz v t"
    "from_local v (minute_start v t + tz v t) = minute_start v t"
  shows "parseTypedTime v (take 16 (formatTime v (Ms t))) True = Some (minute_start v t)"
proof -
  let ?t0 = "minute_start v t"
  define l where "l = t + tz v t"
  define l0 where "l0 = l - l mod 60000"
  obtain y m d where date: "date_of (l div 86400000) = (y, m, d)" by (cases "date_of (l div 86400000)")
  define h mi s where "h = l mod 86400000 div 3600000" and "mi = l mod 3600000 div 60000" and "s = l mod 60000 div 1000"
  have face: "local_face v t = (y, m, d, h, mi, s)" by (simp add: local_face_def face_of_def l_def [symmetric] date h_def mi_def s_def)
  have l0: "?t0 + tz v t = l0" by (simp add: minute_start_def l0_def l_def)
  have day: "l mod 86400000 = h * 3600000 + l mod 3600000" "l mod 3600000 = mi * 60000 + l mod 60000"
    using div_mult_mod_eq [of "l mod 86400000" 3600000] div_mult_mod_eq [of "l mod 3600000" 60000]
    by (simp_all add: h_def mi_def mod_mod_cancel)
  have whole: "l0 = l div 86400000 * 86400000 + h * 3600000 + mi * 60000"
    using div_mult_mod_eq [of l 86400000] day by (simp add: l0_def)
  have hours: "0 \<le> h" "h < 24" "0 \<le> mi" "mi < 60"
    using pos_mod_bound [of 86400000 l] pos_mod_bound [of 3600000 l] by (auto simp: h_def mi_def)
  have l0_parts: "l0 div 86400000 = l div 86400000" "l0 mod 86400000 = h * 3600000 + mi * 60000" "l0 mod 3600000 = mi * 60000"
  proof -
    have "l0 = (h * 3600000 + mi * 60000) + 86400000 * (l div 86400000)" by (simp add: whole)
    then show "l0 div 86400000 = l div 86400000" "l0 mod 86400000 = h * 3600000 + mi * 60000" using hours by simp_all
    have "l0 = mi * 60000 + 3600000 * (h + 24 * (l div 86400000))" by (simp add: whole)
    then show "l0 mod 3600000 = mi * 60000" using hours by (simp only: mod_mult_self2) simp
  qed
  have face0: "local_face v ?t0 = (y, m, d, h, mi, l0 mod 60000 div 1000)"
    using hours by (simp add: local_face_def assms(3) l0 face_of_def l0_parts date)
  have year: "1980 \<le> y" "y < 10000" using assms(1,2) by (simp_all add: face)
  let ?s = "show_int y @ ''-'' @ pad m @ ''-'' @ pad d @ '' '' @ pad h @ '':'' @ pad mi"
  have typed: "length ?s = 16 \<and> trim ?s = ?s \<and> fits ''dddd-dd-dd dd:dd'' ?s \<and> number_at 0 4 ?s = y \<and> number_at 5 2 ?s = m \<and>
      number_at 8 2 ?s = d \<and> number_at 11 2 ?s = h \<and> number_at 14 2 ?s = mi"
    by (rule typed_minute) (use year hours month_len_day [OF date_of_valid(1) [OF date]] in auto)
  have formatted: "formatTime v (Ms t) = ?s @ '':'' @ pad s" using year by (simp add: formatTime_def formatDate_def toDate_def face)
  have first: "take 16 (w @ r) = w" if "length w = 16" for w r :: string using that by simp
  have shown: "take 16 (formatTime v (Ms t)) = ?s" unfolding formatted by (rule first) (use typed in blast)
  have "new_Date v y (m - 1) d h mi = ?t0" using year date_of_valid(2) [OF date] assms(4) by (simp add: new_Date_def l0 whole)
  then show ?thesis unfolding shown parseTypedTime_def Let_def using typed face0 by simp
qed

text \<open>Nine hours east of UTC, without summer time.\<close>

definition seoul :: viewer where
  "seoul = \<lparr>tz = \<lambda>_. 32400000, from_local = \<lambda>l. l - 32400000, read_date = \<lambda>_. None\<rparr>"

theorem typed_time_read_back_witness:
  "parseTypedTime seoul (take 16 (formatTime seoul (Ms 1772188234567))) True = Some (minute_start seoul 1772188234567)"
proof (rule typed_time_read_back)
  have "fst (local_face seoul 1772188234567) = 2026" by code_simp
  then show "1980 \<le> fst (local_face seoul 1772188234567)" "fst (local_face seoul 1772188234567) < 10000" by simp_all
qed (simp_all add: seoul_def)

end
