(* ===== verification/Modal_Stack.thy ===== *)
theory Modal_Stack
  imports Prelude
begin

text \<open>
  The windows that are open, one above the other (\<^verbatim>\<open>frontend/src/hooks/useModalStack.ts\<close>). A component's effect runs when its \<^verbatim>\<open>active\<close>
  changes (it is off before it is mounted and after it is gone): \<open>set_active\<close> is one such change, and a run is a list of them.
\<close>

record 'c modals =
  stack :: "nat list"
  nextId :: nat
  idRef :: "'c \<Rightarrow> nat option"
  depth :: "'c \<Rightarrow> nat"

definition no_modals :: "'c modals" where
  "no_modals = \<lparr>stack = [], nextId = 1, idRef = (\<lambda>_. None), depth = (\<lambda>_. 0)\<rparr>"

definition Z_BASE :: nat where
  "Z_BASE = 1200"

definition Z_STEP :: nat where
  "Z_STEP = 10"

definition push :: "'c modals \<Rightarrow> nat \<times> 'c modals" where
  "push s = (nextId s, s\<lparr>stack := stack s @ [nextId s], nextId := nextId s + 1\<rparr>)"

definition pop :: "nat \<Rightarrow> 'c modals \<Rightarrow> 'c modals" where
  "pop i s = s\<lparr>stack := filter (\<lambda>x. x \<noteq> i) (stack s)\<rparr>"

definition isTopOf :: "nat \<Rightarrow> 'c modals \<Rightarrow> bool" where
  "isTopOf i s \<longleftrightarrow> stack s \<noteq> [] \<and> last (stack s) = i"

definition modalOpen :: "'c modals \<Rightarrow> bool" where
  "modalOpen s \<longleftrightarrow> stack s \<noteq> []"

definition open_entry :: "'c \<Rightarrow> 'c modals \<Rightarrow> 'c modals" where
  "open_entry c s = (case push s of (i, s') \<Rightarrow>
     s'\<lparr>idRef := (idRef s')(c := Some i), depth := (depth s')(c := case findIndex (\<lambda>x. x = i) (stack s') of Some n \<Rightarrow> n | None \<Rightarrow> 0)\<rparr>)"

definition close_entry :: "'c \<Rightarrow> 'c modals \<Rightarrow> 'c modals" where
  "close_entry c s = (case idRef s c of None \<Rightarrow> s | Some i \<Rightarrow> (pop i s)\<lparr>idRef := (idRef s)(c := None)\<rparr>)"

definition set_active :: "'c \<times> bool \<Rightarrow> 'c modals \<Rightarrow> 'c modals" where
  "set_active e s = (case e of (c, b) \<Rightarrow> if b = (idRef s c \<noteq> None) then s else if b then open_entry c s else close_entry c s)"

definition isTop :: "'c modals \<Rightarrow> 'c \<Rightarrow> bool" where
  "isTop s c = (case idRef s c of None \<Rightarrow> False | Some i \<Rightarrow> isTopOf i s)"

definition zIndex :: "'c modals \<Rightarrow> 'c \<Rightarrow> nat" where
  "zIndex s c = Z_BASE + depth s c * Z_STEP"

section \<open>The top window\<close>

definition modals_ok :: "'c modals \<Rightarrow> bool" where
  "modals_ok s \<longleftrightarrow> sorted_wrt (<) (stack s) \<and> (\<forall>i\<in>set (stack s). i < nextId s) \<and> set (stack s) = ran (idRef s) \<and>
     (\<forall>c d i. idRef s c = Some i \<longrightarrow> idRef s d = Some i \<longrightarrow> c = d)"

text \<open>Each window's depth is its place in the stack, as when windows close from the top.\<close>

definition modals_nested :: "'c modals \<Rightarrow> bool" where
  "modals_nested s \<longleftrightarrow> (\<forall>c i. idRef s c = Some i \<longrightarrow> depth s c < length (stack s) \<and> stack s ! depth s c = i)"

lemma modals_ok_empty: "modals_ok no_modals" "modals_nested no_modals"
  by (simp_all add: modals_ok_def modals_nested_def no_modals_def)

lemma findIndex_snoc: "x \<notin> set xs \<Longrightarrow> findIndex (\<lambda>y. y = x) (xs @ [x]) = Some (length xs)"
  by (induction xs) auto

lemma open_entry_eq:
  assumes "modals_ok s"
  shows "open_entry c s = s\<lparr>stack := stack s @ [nextId s], nextId := nextId s + 1, idRef := (idRef s)(c := Some (nextId s)),
    depth := (depth s)(c := length (stack s))\<rparr>"
proof -
  have "nextId s \<notin> set (stack s)" using assms by (auto simp: modals_ok_def)
  then show ?thesis by (simp add: open_entry_def push_def findIndex_snoc)
qed

lemma modals_okD:
  assumes "modals_ok s"
  shows "set (stack s) = ran (idRef s)" "idRef s c = Some i \<Longrightarrow> idRef s d = Some i \<Longrightarrow> c = d" "idRef s c = Some i \<Longrightarrow> i < nextId s"
    "distinct (stack s)"
  using assms strict_sorted_iff unfolding modals_ok_def by (blast, blast, auto intro: ranI)

lemma modals_ok_open:
  assumes "modals_ok s" "idRef s c = None"
  shows "modals_ok (open_entry c s)"
proof -
  have "ran ((idRef s)(c := Some (nextId s))) = insert (nextId s) (ran (idRef s))" using assms(2) by simp
  moreover have "\<forall>i\<in>set (stack s). i < nextId s" "sorted_wrt (<) (stack s)" using assms(1) by (auto simp: modals_ok_def)
  ultimately show ?thesis using modals_okD [OF assms(1)] unfolding open_entry_eq [OF assms(1)] modals_ok_def
    by (auto simp: sorted_wrt_append less_Suc_eq split: if_splits) (metis less_irrefl)+
qed

lemma modals_ok_close:
  assumes "modals_ok s"
  shows "modals_ok (close_entry c s)"
proof (cases "idRef s c")
  case (Some i)
  then have eq: "close_entry c s = s\<lparr>stack := filter (\<lambda>x. x \<noteq> i) (stack s), idRef := (idRef s)(c := None)\<rparr>"
    by (simp add: close_entry_def pop_def)
  have "ran ((idRef s)(c := None)) = {x. \<exists>a. a \<noteq> c \<and> idRef s a = Some x}" by (auto simp: ran_def)
  also have "\<dots> = ran (idRef s) - {i}"
  proof (intro set_eqI iffI)
    fix x assume "x \<in> {x. \<exists>a. a \<noteq> c \<and> idRef s a = Some x}"
    then obtain a where "a \<noteq> c" "idRef s a = Some x" by blast
    then show "x \<in> ran (idRef s) - {i}" using modals_okD(2) [OF assms Some, of a] by (auto intro: ranI)
  next
    fix x assume "x \<in> ran (idRef s) - {i}"
    then show "x \<in> {x. \<exists>a. a \<noteq> c \<and> idRef s a = Some x}" using Some by (force simp: ran_def)
  qed
  finally show ?thesis using assms by (auto simp: eq modals_ok_def sorted_wrt_filter split: if_splits)
qed (simp add: close_entry_def assms)

lemma modals_ok_step: "modals_ok s \<Longrightarrow> modals_ok (set_active e s)"
  by (cases e) (auto simp: set_active_def intro: modals_ok_open modals_ok_close)

lemma modals_ok_run: "modals_ok s \<Longrightarrow> modals_ok (fold set_active es s)"
  by (induction es arbitrary: s) (auto intro: modals_ok_step)

text \<open>A run in which only the top window closes.\<close>

fun from_the_top :: "('c \<times> bool) list \<Rightarrow> 'c modals \<Rightarrow> bool" where
  "from_the_top [] s \<longleftrightarrow> True"
| "from_the_top ((c, b) # es) s \<longleftrightarrow> (\<not> b \<longrightarrow> idRef s c = None \<or> isTop s c) \<and> from_the_top es (set_active (c, b) s)"

lemma nested_open: "modals_ok s \<Longrightarrow> modals_nested s \<Longrightarrow> modals_nested (open_entry c s)"
  by (auto simp: open_entry_eq modals_nested_def nth_append less_Suc_eq)

lemma nested_close:
  assumes "modals_ok s" "modals_nested s" "isTop s c"
  shows "modals_nested (close_entry c s)"
proof -
  obtain i where i: "idRef s c = Some i" "stack s \<noteq> []" "last (stack s) = i"
    using assms(3) by (auto simp: isTop_def isTopOf_def split: option.splits)
  have d: "distinct (stack s)" using assms(1) strict_sorted_iff by (auto simp: modals_ok_def)
  have split: "stack s = butlast (stack s) @ [i]" using i(2,3) by (metis append_butlast_last_id)
  have "i \<notin> set (butlast (stack s))" using d split by (metis disjoint_iff distinct_append list.set_intros(1))
  then have "filter (\<lambda>x. x \<noteq> i) (butlast (stack s)) = butlast (stack s)" by (metis (mono_tags, lifting) filter_True)
  then have stack: "filter (\<lambda>x. x \<noteq> i) (stack s) = butlast (stack s)" by (subst split) simp
  have "depth s e < length (butlast (stack s)) \<and> butlast (stack s) ! depth s e = j" if "idRef s e = Some j" "e \<noteq> c" for e j
  proof -
    have e: "depth s e < length (stack s)" "stack s ! depth s e = j" using assms(2) that(1) by (auto simp: modals_nested_def)
    have "j \<noteq> i" using assms(1) i(1) that unfolding modals_ok_def by blast
    then have "depth s e \<noteq> length (stack s) - 1" using e(2) i(2,3) by (metis last_conv_nth)
    then show ?thesis using e by (simp add: nth_butlast)
  qed
  then show ?thesis using i by (simp add: close_entry_def pop_def stack modals_nested_def)
qed

lemma nested_run: "from_the_top es s \<Longrightarrow> modals_ok s \<Longrightarrow> modals_nested s \<Longrightarrow> modals_nested (fold set_active es s)"
proof (induction es arbitrary: s)
  case (Cons e es)
  obtain c b where e: "e = (c, b)" by (cases e)
  have n: "modals_nested (set_active e s)" using Cons.prems
    by (auto simp: e set_active_def intro: nested_open nested_close)
  have "from_the_top es (set_active e s)" using Cons.prems(1) by (simp add: e)
  from Cons.IH [OF this modals_ok_step [OF Cons.prems(2)] n] show ?case by simp
qed simp

lemma top_is_active:
  assumes "modals_ok s"
  shows "(modalOpen s \<longleftrightarrow> (\<exists>c. idRef s c \<noteq> None)) \<and> (modalOpen s \<longleftrightarrow> (\<exists>!c. isTop s c)) \<and>
    (\<forall>c d i j. isTop s c \<longrightarrow> idRef s c = Some i \<longrightarrow> idRef s d = Some j \<longrightarrow> j \<le> i)"
proof -
  have ran: "set (stack s) = ran (idRef s)" and inj: "\<And>c d i. idRef s c = Some i \<Longrightarrow> idRef s d = Some i \<Longrightarrow> c = d"
    using assms unfolding modals_ok_def by blast+
  have open_iff: "modalOpen s \<longleftrightarrow> (\<exists>c. idRef s c \<noteq> None)" proof -
    have "modalOpen s \<longleftrightarrow> ran (idRef s) \<noteq> {}" by (simp add: modalOpen_def flip: ran)
    then show ?thesis by (auto simp: ran_def)
  qed
  have one: "\<exists>!c. isTop s c" if o: "modalOpen s"
  proof -
    have "last (stack s) \<in> ran (idRef s)" using o ran by (metis last_in_set modalOpen_def)
    then obtain c where "idRef s c = Some (last (stack s))" by (auto simp: ran_def)
    then show ?thesis using o inj by (intro ex1I [of _ c]) (auto simp: isTop_def isTopOf_def modalOpen_def split: option.splits)
  qed
  have "\<And>c. isTop s c \<Longrightarrow> modalOpen s" by (auto simp: isTop_def isTopOf_def modalOpen_def split: option.splits)
  moreover have "j \<le> i" if "isTop s c" "idRef s c = Some i" "idRef s d = Some j" for c d i j
  proof -
    have i: "stack s \<noteq> []" "i = last (stack s)" using that(1,2) by (auto simp: isTop_def isTopOf_def)
    have "j \<in> set (stack s)" using that(3) ran by (auto simp: ran_def)
    then show ?thesis using assms i by (cases "stack s" rule: rev_cases) (auto simp: modals_ok_def sorted_wrt_append)
  qed
  ultimately show ?thesis using open_iff one by blast
qed

text \<open>
  Whatever windows open and close, one window is the top one exactly while one is open, and it is the one opened last of those open;
  and where only the top window closes, it is drawn above all others: its z-index is the largest, and no two windows share one.
\<close>

theorem one_top_window:
  fixes es :: "('c \<times> bool) list"
  defines "s \<equiv> fold set_active es no_modals"
  shows "(modalOpen s \<longleftrightarrow> (\<exists>c. idRef s c \<noteq> None)) \<and> (modalOpen s \<longleftrightarrow> (\<exists>!c. isTop s c)) \<and>
    (\<forall>c d i j. isTop s c \<longrightarrow> idRef s c = Some i \<longrightarrow> idRef s d = Some j \<longrightarrow> j \<le> i) \<and>
    (from_the_top es no_modals \<longrightarrow>
      (\<forall>c d. isTop s c \<longrightarrow> idRef s d \<noteq> None \<longrightarrow> d \<noteq> c \<longrightarrow> zIndex s d < zIndex s c))"
proof (intro conjI impI)
  have ok: "modals_ok s" unfolding s_def by (rule modals_ok_run [OF modals_ok_empty(1)])
  note top = top_is_active [OF ok]
  then show "modalOpen s \<longleftrightarrow> (\<exists>c. idRef s c \<noteq> None)" "modalOpen s \<longleftrightarrow> (\<exists>!c. isTop s c)"
    "\<forall>c d i j. isTop s c \<longrightarrow> idRef s c = Some i \<longrightarrow> idRef s d = Some j \<longrightarrow> j \<le> i" by blast+
  assume "from_the_top es no_modals"
  then have n: "modals_nested s" unfolding s_def by (rule nested_run [OF _ modals_ok_empty])
  show "\<forall>c d. isTop s c \<longrightarrow> idRef s d \<noteq> None \<longrightarrow> d \<noteq> c \<longrightarrow> zIndex s d < zIndex s c"
  proof (intro allI impI)
    fix c d assume c: "isTop s c" and d: "idRef s d \<noteq> None" "d \<noteq> c"
    obtain i j where i: "idRef s c = Some i" "stack s \<noteq> []" "last (stack s) = i" and j: "idRef s d = Some j"
      using c d(1) by (auto simp: isTop_def isTopOf_def split: option.splits)
    have "i \<noteq> j" using ok i(1) j d(2) unfolding modals_ok_def by blast
    have at: "depth s c < length (stack s)" "stack s ! depth s c = i" "depth s d < length (stack s)" "stack s ! depth s d = j"
      using n i(1) j by (auto simp: modals_nested_def)
    have dist: "distinct (stack s)" using ok strict_sorted_iff by (auto simp: modals_ok_def)
    have "stack s ! (length (stack s) - 1) = i" using i by (metis last_conv_nth)
    then have "depth s c = length (stack s) - 1" using at(1,2) i(2) nth_eq_iff_index_eq [OF dist, of "depth s c" "length (stack s) - 1"] by simp
    moreover have "depth s d \<noteq> depth s c" using at \<open>i \<noteq> j\<close> by auto
    ultimately show "zIndex s d < zIndex s c" using at(3) by (simp add: zIndex_def Z_STEP_def)
  qed
qed

text \<open>A drawer over a list window, and a question over the drawer.\<close>

theorem one_top_window_witness:
  "zIndex (fold set_active [(''list'', True), (''drawer'', True)] no_modals) ''list'' <
   zIndex (fold set_active [(''list'', True), (''drawer'', True)] no_modals) ''drawer''"
proof -
  let ?es = "[(''list'', True), (''drawer'', True)]"
  have a: "from_the_top ?es no_modals" by simp
  have b: "isTop (fold set_active ?es no_modals) ''drawer''" "idRef (fold set_active ?es no_modals) ''list'' \<noteq> None"
    by (simp_all add: set_active_def open_entry_def push_def no_modals_def isTop_def isTopOf_def)
  from one_top_window [of ?es] a b show ?thesis by blast
qed

text \<open>A window that closes below another leaves its place to the next: the two are drawn at one height.\<close>

lemma same_height:
  "let s = fold set_active [(''list'', True), (''drawer'', True), (''list'', False), (''question'', True)] no_modals in
     isTop s ''question'' \<and> zIndex s ''question'' = zIndex s ''drawer''"
  by (simp add: set_active_def open_entry_def close_entry_def pop_def push_def no_modals_def isTop_def isTopOf_def zIndex_def)

end
