(* ===== verification/Saved_Search.thy ===== *)
theory Saved_Search
  imports Prelude
begin

text \<open>
  The saved searches of a browser (\<^verbatim>\<open>frontend/src/components/search/savedSearchStore.ts\<close>). The store is what its entry holds, \<open>None\<close> where
  there is none; \<open>parse\<close> and \<open>stringify\<close> stand for \<^verbatim>\<open>JSON.parse\<close> (\<open>None\<close> where it throws) and \<^verbatim>\<open>JSON.stringify\<close>.
\<close>

definition MAX_SAVED :: nat where
  "MAX_SAVED = 50"

record saved_search =
  sv_id :: string
  sv_name :: string
  sv_query :: string
  sv_resources :: "string list"
  sv_namespace :: string
  sv_createdAt :: int

definition value_of_search :: "saved_search \<Rightarrow> jval" where
  "value_of_search s = JObj [(''id'', JStr (sv_id s)), (''name'', JStr (sv_name s)), (''query'', JStr (sv_query s)),
    (''resources'', JArr (map JStr (sv_resources s))), (''namespace'', JStr (sv_namespace s)), (''createdAt'', JNum (sv_createdAt s))]"

definition normalize_resources :: "jval \<Rightarrow> string list" where
  "normalize_resources v = uniq (concat (map (\<lambda>r. case r of JStr s \<Rightarrow> if s \<noteq> [] then [s] else [] | _ \<Rightarrow> []) (elems v)))"

definition normalize :: "jval \<Rightarrow> saved_search option" where
  "normalize v =
     (if \<not> truthy v \<or> \<not> typeof_object v then None
      else (case (jget v ''id'', jget v ''name'', jget v ''query'', jget v ''createdAt'') of
          (JStr i, JStr n, JStr q, JNum t) \<Rightarrow>
            if trim n = [] \<or> trim q = [] then None
            else Some \<lparr>sv_id = i, sv_name = trim n, sv_query = trim q, sv_resources = normalize_resources (jget v ''resources''),
              sv_namespace = (case jget v ''namespace'' of JStr s \<Rightarrow> s | _ \<Rightarrow> []), sv_createdAt = t\<rparr>
        | _ \<Rightarrow> None))"

text \<open>\<open>getItem\<close> answers \<open>None\<close> where it throws.\<close>

definition readSavedSearches :: "(string \<Rightarrow> jval option) \<Rightarrow> string option option \<Rightarrow> saved_search list" where
  "readSavedSearches parse getItem = (case getItem of
      None \<Rightarrow> []
    | Some raw \<Rightarrow>
       (case (if raw = None \<or> raw = Some [] then Some (JArr []) else parse (the raw)) of
          Some (JArr vs) \<Rightarrow> take MAX_SAVED (concat (map (\<lambda>v. case normalize v of None \<Rightarrow> [] | Some s \<Rightarrow> [s]) vs))
        | _ \<Rightarrow> []))"

text \<open>Writing leaves the entry as it was where \<^verbatim>\<open>setItem\<close> throws (\<open>full\<close>).\<close>

definition writeSavedSearches :: "(jval \<Rightarrow> string) \<Rightarrow> bool \<Rightarrow> saved_search list \<Rightarrow> string option \<Rightarrow> string option" where
  "writeSavedSearches stringify full searches entry =
     (if full then entry else Some (stringify (JArr (map value_of_search (take MAX_SAVED searches)))))"

record search_input =
  in_name :: string
  in_query :: string
  in_resources :: "string list"
  in_namespace :: string

definition addSavedSearch :: "string \<Rightarrow> int \<Rightarrow> search_input \<Rightarrow> saved_search list \<Rightarrow> saved_search list" where
  "addSavedSearch newId now i searches =
     (case normalize (value_of_search \<lparr>sv_id = newId, sv_name = in_name i, sv_query = in_query i, sv_resources = in_resources i,
          sv_namespace = in_namespace i, sv_createdAt = now\<rparr>) of
        None \<Rightarrow> searches
      | Some s \<Rightarrow> take MAX_SAVED (s # searches))"

definition renameSavedSearch :: "string \<Rightarrow> string \<Rightarrow> saved_search list \<Rightarrow> saved_search list" where
  "renameSavedSearch i name searches = (let trimmed = trim name in
     if trimmed = [] then searches else map (\<lambda>s. if sv_id s = i then s\<lparr>sv_name := trimmed\<rparr> else s) searches)"

definition deleteSavedSearch :: "string \<Rightarrow> saved_search list \<Rightarrow> saved_search list" where
  "deleteSavedSearch i searches = filter (\<lambda>s. sv_id s \<noteq> i) searches"

section \<open>What is on screen is what a reload shows\<close>

lemma trim_trim [simp]: "trim (trim s) = trim s"
proof (cases "trim s = []")
  case False
  obtain r where r: "trimStart s = trim s @ r" using trimEnd_prefix [of "trimStart s"] by (auto simp: trim_def)
  have "\<not> is_ws (hd (trim s))" using trimStart_idem [of s] r False by (cases "trim s") auto
  then have "trimStart (trim s) = trim s" by (cases "trim s") (auto simp: trimStart_def)
  moreover have "\<not> is_ws (last (trim s))" using trimEnd_shape [of "trimStart s"] False by (simp add: trim_def)
  then have "trimEnd (trim s) = trim s" using False by (cases "trim s" rule: rev_cases) (auto simp: trimEnd_def)
  ultimately show ?thesis by (simp add: trim_def [of "trim s"])
next
  case True
  have "trim [] = []" by (simp add: trim_def trimStart_def trimEnd_def)
  with True show ?thesis by simp
qed

definition search_ok :: "saved_search \<Rightarrow> bool" where
  "search_ok s \<longleftrightarrow> normalize (value_of_search s) = Some s"

lemma normalize_resources_strings: "normalize_resources (JArr (map JStr rs)) = uniq (filter (\<lambda>r. r \<noteq> []) rs)"
proof -
  have "concat (map (\<lambda>r. case r of JStr s \<Rightarrow> if s \<noteq> [] then [s] else [] | _ \<Rightarrow> []) (map JStr rs)) = filter (\<lambda>r. r \<noteq> []) rs"
    by (induction rs) auto
  then show ?thesis by (simp add: normalize_resources_def)
qed

lemma normalize_resources_shape: "distinct (normalize_resources v) \<and> [] \<notin> set (normalize_resources v)"
  by (auto simp: normalize_resources_def split: jval.splits if_splits)

lemma search_ok_iff: "search_ok s \<longleftrightarrow> sv_name s \<noteq> [] \<and> sv_query s \<noteq> [] \<and> trim (sv_name s) = sv_name s \<and> trim (sv_query s) = sv_query s \<and>
    distinct (sv_resources s) \<and> [] \<notin> set (sv_resources s)"
proof -
  have "uniq (filter (\<lambda>r. r \<noteq> []) rs) = rs \<longleftrightarrow> distinct rs \<and> [] \<notin> set rs" for rs :: "string list"
  proof
    assume eq: "uniq (filter (\<lambda>r. r \<noteq> []) rs) = rs"
    have "distinct (uniq (filter (\<lambda>r. r \<noteq> []) rs)) \<and> [] \<notin> set (uniq (filter (\<lambda>r. r \<noteq> []) rs))" by simp
    then show "distinct rs \<and> [] \<notin> set rs" unfolding eq .
  next
    assume a: "distinct rs \<and> [] \<notin> set rs"
    then have "filter (\<lambda>r. r \<noteq> []) rs = rs" by (auto intro: filter_True)
    then show "uniq (filter (\<lambda>r. r \<noteq> []) rs) = rs" using a by (simp add: uniq_distinct)
  qed
  then show ?thesis
    by (cases s) (auto simp: search_ok_def normalize_def value_of_search_def normalize_resources_strings)
qed

lemma normalize_ok: "normalize v = Some s \<Longrightarrow> search_ok s"
  using normalize_resources_shape by (auto simp: normalize_def search_ok_iff split: if_splits jval.splits)

text \<open>The lists a screen can have: read from the store, then changed by its buttons.\<close>

inductive on_list :: "(string \<Rightarrow> jval option) \<Rightarrow> saved_search list \<Rightarrow> bool" for parse where
  read: "on_list parse (readSavedSearches parse getItem)"
| added: "on_list parse xs \<Longrightarrow> on_list parse (addSavedSearch newId now i xs)"
| renamed: "on_list parse xs \<Longrightarrow> on_list parse (renameSavedSearch i name xs)"
| deleted: "on_list parse xs \<Longrightarrow> on_list parse (deleteSavedSearch i xs)"

lemma on_list_ok: "on_list parse xs \<Longrightarrow> length xs \<le> MAX_SAVED \<and> (\<forall>s\<in>set xs. search_ok s)"
proof (induction rule: on_list.induct)
  case (read getItem)
  then show ?case
    by (auto simp: readSavedSearches_def split: option.splits jval.splits if_splits dest!: in_set_takeD dest: normalize_ok [OF sym])
next
  case (added xs newId now i)
  then show ?case
    by (auto simp: addSavedSearch_def split: option.splits dest!: in_set_takeD dest: normalize_ok)
next
  case (renamed xs i name)
  then show ?case by (auto simp: renameSavedSearch_def Let_def search_ok_iff)
next
  case (deleted xs i)
  then show ?case using le_trans [OF length_filter_le] by (auto simp: deleteSavedSearch_def)
qed

lemma read_values: "\<forall>s\<in>set xs. search_ok s \<Longrightarrow> concat (map (\<lambda>v. case normalize v of None \<Rightarrow> [] | Some s \<Rightarrow> [s]) (map value_of_search xs)) = xs"
  by (induction xs) (auto simp: search_ok_def)

text \<open>
  A reload shows the saved searches as the screen had them: whatever a store held first and however the list was changed since, it has
  at most fifty, and once it is written the store reads as that list, where \<^verbatim>\<open>JSON.parse\<close> reads back what \<^verbatim>\<open>JSON.stringify\<close> wrote.
\<close>

theorem saved_searches_survive:
  assumes "on_list parse xs" "parse (stringify (JArr (map value_of_search xs))) = Some (JArr (map value_of_search xs))"
    "stringify (JArr (map value_of_search xs)) \<noteq> []"
  shows "length xs \<le> MAX_SAVED \<and> readSavedSearches parse (Some (writeSavedSearches stringify False xs entry)) = xs"
proof -
  have ok: "length xs \<le> MAX_SAVED" "\<forall>s\<in>set xs. search_ok s" using on_list_ok [OF assms(1)] by auto
  then show ?thesis using assms(2,3) by (simp add: readSavedSearches_def writeSavedSearches_def read_values del: map_map)
qed

text \<open>A first search, with blanks around its name and a resource twice.\<close>

definition crash_input :: search_input where
  "crash_input = \<lparr>in_name = '' crashes '', in_query = ''status = Failed'', in_resources = [''pods'', ''jobs'', ''pods''], in_namespace = []\<rparr>"

definition crash_search :: saved_search where
  "crash_search = \<lparr>sv_id = ''a1'', sv_name = ''crashes'', sv_query = ''status = Failed'', sv_resources = [''pods'', ''jobs''],
    sv_namespace = [], sv_createdAt = 1772188234567\<rparr>"

lemma crash_added: "addSavedSearch ''a1'' 1772188234567 crash_input [] = [crash_search]"
  by code_simp

theorem saved_searches_survive_witness:
  "readSavedSearches (\<lambda>_. Some (JArr [value_of_search crash_search]))
     (Some (writeSavedSearches (\<lambda>_. ''[...]'') False [crash_search] None)) = [crash_search]"
proof -
  let ?parse = "\<lambda>_. Some (JArr [value_of_search crash_search])"
  have "on_list ?parse (readSavedSearches ?parse (Some None))" by (rule on_list.read)
  moreover have "readSavedSearches ?parse (Some None) = []" by (simp add: readSavedSearches_def)
  ultimately have "on_list ?parse [crash_search]" using on_list.added [of ?parse "[]" "''a1''" 1772188234567 crash_input] by (simp add: crash_added)
  from saved_searches_survive [OF this, of "\<lambda>_. ''[...]''" None] show ?thesis by simp
qed

end
