(* ===== verification/Optimization.thy ===== *)
theory Optimization
  imports Chat_Value
begin

text \<open>
  The dashboard's optimization suggestions: the stream of the server (\<^verbatim>\<open>suggestOptimizationStream\<close> of \<^verbatim>\<open>frontend/src/services/api/ai.ts\<close>)
  and the screen it is typed on (\<^verbatim>\<open>pages/dashboard/hooks/useOptimizationStream.ts\<close>, \<^verbatim>\<open>pages/dashboard/utils.ts\<close>).

  \<^item> A run of the stream has a number, the controller of its signal. \<open>opt_event\<close> is what happens to the screen and its runs: a user's act,
    the answer or a decoded chunk of a run, a run that goes on after its \<^verbatim>\<open>setTimeout(0)\<close>, a tick of the typewriter. An event that cannot be
    leaves all as it is.
  \<^item> A fetch or a read of an aborted signal rejects with \<^verbatim>\<open>AbortError\<close>; between two blocks of one chunk nothing asks the signal.
  \<^item> \<^verbatim>\<open>JSON.parse\<close> (\<open>None\<close> where it throws), the text of an error and that of the missing meta are the record \<open>opt_env\<close>. The animation frame
    and the pending text of the hook are never set, so they are left out.
\<close>

record opt_env =
  parse :: "ustr \<Rightarrow> cval option"
  chatErrorText :: "ustr \<Rightarrow> ustr option \<Rightarrow> cval option \<Rightarrow> ustr"
  missingMeta :: ustr

record opt =
  o_open :: bool
  o_namespace :: ustr
  o_dropdown :: bool
  o_copied :: bool
  o_abort :: "nat option"
  o_streaming :: bool
  o_observed :: ustr
  o_answer :: ustr
  o_error :: ustr
  o_done :: bool
  o_queue :: "ustr list"
  o_typing :: bool
  o_metaReceived :: bool
  o_usageReceived :: bool
  o_usage :: "cval option"
  o_meta :: "cval option"

definition initial_opt :: opt where
  "initial_opt = \<lparr>o_open = False, o_namespace = u ''default'', o_dropdown = False, o_copied = False, o_abort = None, o_streaming = False,
     o_observed = [], o_answer = [], o_error = [], o_done = False, o_queue = [], o_typing = False, o_metaReceived = False,
     o_usageReceived = False, o_usage = None, o_meta = None\<rparr>"

section \<open>The fence around an answer\<close>

definition lower_unit :: "nat \<Rightarrow> nat" where
  "lower_unit c = (if 65 \<le> c \<and> c \<le> 90 then c + 32 else c)"

definition after_word :: "string \<Rightarrow> ustr \<Rightarrow> ustr option" where
  "after_word w s = (if map lower_unit (take (length w) s) = u w \<and> startsWith (drop (length w) s) [10] then Some (drop (length w + 1) s) else None)"

definition unwrapOuterMarkdownFence :: "ustr \<Rightarrow> ustr" where
  "unwrapOuterMarkdownFence text =
     (let trimmed = utrim text; r = drop 3 trimmed;
          inner = (case after_word ''markdown'' r of Some s \<Rightarrow> Some s | None \<Rightarrow>
            (case after_word ''md'' r of Some s \<Rightarrow> Some s | None \<Rightarrow> after_word [] r)) in
      if startsWith trimmed (u ''```'') then
        (case inner of
           Some s \<Rightarrow> if endsWith s (10 # u ''```'') then take (length s - 4) s else text
         | None \<Rightarrow> text)
      else text)"

section \<open>The typewriter\<close>

definition stopOptimizationTypewriter :: "opt \<Rightarrow> opt" where
  "stopOptimizationTypewriter s = s\<lparr>o_typing := False\<rparr>"

definition startOptimizationTypewriter :: "opt \<Rightarrow> opt" where
  "startOptimizationTypewriter s = s\<lparr>o_typing := True\<rparr>"

text \<open>\<^verbatim>\<open>Math.max(1, Math.ceil(n / 8))\<close>.\<close>

definition opt_batch :: "nat \<Rightarrow> nat" where
  "opt_batch n = max 1 ((n + 7) div 8)"

definition drainOptimizationQueue :: "opt \<Rightarrow> opt" where
  "drainOptimizationQueue s =
     (if o_queue s = [] then
        (let s = stopOptimizationTypewriter s in
         if o_done s then s\<lparr>o_done := False, o_answer := unwrapOuterMarkdownFence (o_answer s), o_streaming := False\<rparr> else s)
      else
        (let b = opt_batch (length (o_queue s)) in
         s\<lparr>o_queue := drop b (o_queue s), o_answer := o_answer s @ concat (take b (o_queue s))\<rparr>))"

section \<open>What a run tells the screen\<close>

definition onObserved :: "ustr \<Rightarrow> opt \<Rightarrow> opt" where
  "onObserved c s = s\<lparr>o_observed := o_observed s @ c\<rparr>"

definition onContent :: "ustr \<Rightarrow> opt \<Rightarrow> opt" where
  "onContent chunk s = startOptimizationTypewriter (s\<lparr>o_queue := o_queue s @ code_points chunk\<rparr>)"

definition onUsage :: "cval \<Rightarrow> opt \<Rightarrow> opt" where
  "onUsage v s = s\<lparr>o_usageReceived := True, o_usage := Some v\<rparr>"

definition onMeta :: "cval \<Rightarrow> opt \<Rightarrow> opt" where
  "onMeta v s = s\<lparr>o_metaReceived := True, o_meta := Some v\<rparr>"

definition onError :: "opt_env \<Rightarrow> ustr \<Rightarrow> ustr option \<Rightarrow> cval option \<Rightarrow> opt \<Rightarrow> opt" where
  "onError env message key args s = s\<lparr>o_error := chatErrorText env message key args\<rparr>"

definition onDone :: "opt_env \<Rightarrow> opt \<Rightarrow> opt" where
  "onDone env s =
     (let s1 = (if \<not> o_metaReceived s then s\<lparr>o_error := if o_error s = [] then missingMeta env else o_error s\<rparr> else s);
          s2 = s1\<lparr>o_done := True\<rparr>;
          s3 = (if o_queue s2 = [] then drainOptimizationQueue s2 else s2) in
      s3\<lparr>o_abort := None\<rparr>)"

definition on_rejected :: "ustr \<Rightarrow> opt \<Rightarrow> opt" where
  "on_rejected message s = (stopOptimizationTypewriter (s\<lparr>o_error := message\<rparr>))
     \<lparr>o_queue := [], o_done := False, o_streaming := False, o_abort := None\<rparr>"

text \<open>One parsed payload: the screen after it, and whether it told it anything.\<close>

definition on_parsed :: "opt_env \<Rightarrow> cval \<Rightarrow> opt \<Rightarrow> opt \<times> bool" where
  "on_parsed env v s =
     (let kind = (case cget v ''kind'' of CStr k \<Rightarrow> Some k | _ \<Rightarrow> None) in
      if kind = Some (u ''usage'') \<and> ctruthy (cget v ''usage'') then (onUsage (cget v ''usage'') s, True)
      else if kind = Some (u ''meta'') then
        (onMeta (CObj [(u ''finish_reason'', cget v ''finish_reason''), (u ''max_tokens'', cget v ''max_tokens'')]) s, True)
      else
        (let s1 = (if cnullish (cget v ''error'') then s
               else onError env (cstr (cget v ''error'')) (case cget v ''error_key'' of CStr k \<Rightarrow> Some k | _ \<Rightarrow> None)
                 (if ctruthy (cget v ''error_args'') \<and> ctypeof_object (cget v ''error_args'') then Some (cget v ''error_args'') else None) s) in
         case cget v ''content'' of
           CStr c \<Rightarrow> (if kind = Some (u ''observed'') then onObserved c s1 else onContent c s1, True)
         | _ \<Rightarrow> (s1, False)))"

text \<open>The lines of a block: the screen, whether \<^verbatim>\<open>[DONE]\<close> was one, and whether any told the screen something.\<close>

fun processEventBlock :: "opt_env \<Rightarrow> ustr list \<Rightarrow> opt \<times> bool \<Rightarrow> opt \<times> bool \<times> bool" where
  "processEventBlock env [] (s, emitted) = (s, False, emitted)"
| "processEventBlock env (raw # lines) (s, emitted) =
     (let line = utrim_end raw; payload = utrim (drop 5 line) in
      if \<not> startsWith line (u ''data:'') then processEventBlock env lines (s, emitted)
      else if payload = [] then processEventBlock env lines (s, emitted)
      else if payload = u ''[DONE]'' then (onDone env s, True, emitted)
      else (case parse env payload of
          None \<Rightarrow> processEventBlock env lines (s, emitted)
        | Some v \<Rightarrow> (case on_parsed env v s of (s', b) \<Rightarrow> processEventBlock env lines (s', emitted \<or> b))))"

text \<open>
  A run: waiting for its response, reading with the rest of its buffer, between two blocks of its buffer, or over.
\<close>

datatype run_phase = Fetching | Reading ustr | Between ustr | Over

record run =
  r_phase :: run_phase
  r_aborted :: bool

lemma indexOf_shorter: "indexOf s p = Some i \<Longrightarrow> i \<le> length s"
  by (induction s arbitrary: i) (auto split: if_splits)

lemma indexOf_pair_shorter: "indexOf s [a, b] = Some i \<Longrightarrow> s \<noteq> []"
  by (cases s) auto

text \<open>The blocks of a buffer, up to the first that told the screen something.\<close>

function process_blocks :: "opt_env \<Rightarrow> ustr \<Rightarrow> opt \<Rightarrow> opt \<times> run_phase" where
  "process_blocks env buf s =
     (case indexOf buf [10, 10] of
        None \<Rightarrow> (s, Reading buf)
      | Some i \<Rightarrow>
         (case processEventBlock env (split 10 (take i buf)) (s, False) of
            (s', done, emitted) \<Rightarrow>
              if done then (s', Over)
              else if emitted then (s', Between (drop (i + 2) buf))
              else process_blocks env (drop (i + 2) buf) s'))"
  by pat_completeness auto

termination
  by (relation "measure (\<lambda>(env, buf, s). length buf)") (auto dest: indexOf_pair_shorter)

declare process_blocks.simps [simp del]

section \<open>The screen and its runs\<close>

record opt_world =
  screen :: opt
  runs :: "run list"

definition initial_opt_world :: opt_world where
  "initial_opt_world = \<lparr>screen = initial_opt, runs = []\<rparr>"

text \<open>\<^verbatim>\<open>optimizationAbortRef.current?.abort()\<close>.\<close>

definition abort_run :: "nat option \<Rightarrow> run list \<Rightarrow> run list" where
  "abort_run i rs = (case i of None \<Rightarrow> rs | Some i \<Rightarrow> if i < length rs then rs[i := (rs ! i)\<lparr>r_aborted := True\<rparr>] else rs)"

definition openOptimizationModal :: "ustr \<Rightarrow> opt_world \<Rightarrow> opt_world" where
  "openOptimizationModal ns w = (let s = screen w in
     \<lparr>screen = s\<lparr>o_dropdown := False, o_copied := False, o_abort := None, o_done := False, o_streaming := False, o_observed := [], o_answer := [],
        o_error := [], o_namespace := ns, o_open := True\<rparr>, runs = abort_run (o_abort s) (runs w)\<rparr>)"

definition handleCloseOptimizationModal :: "opt_world \<Rightarrow> opt_world" where
  "handleCloseOptimizationModal w = (let s = screen w in
     \<lparr>screen = s\<lparr>o_open := False, o_dropdown := False, o_copied := False, o_abort := None, o_done := False, o_streaming := False,
        o_observed := [], o_answer := [], o_error := []\<rparr>, runs = abort_run (o_abort s) (runs w)\<rparr>)"

definition handleRunOptimizationSuggestions :: "bool \<Rightarrow> opt_world \<Rightarrow> opt_world" where
  "handleRunOptimizationSuggestions aiEnabled w = (let s = screen w in
     if o_namespace s = [] \<or> \<not> aiEnabled then w
     else
       \<lparr>screen = (stopOptimizationTypewriter (s\<lparr>o_copied := False, o_dropdown := False, o_abort := Some (length (runs w)), o_streaming := True,
          o_observed := [], o_answer := [], o_error := [], o_usage := None, o_meta := None, o_metaReceived := False, o_usageReceived := False,
          o_done := False\<rparr>))\<lparr>o_queue := []\<rparr>,
        runs = abort_run (o_abort s) (runs w) @ [\<lparr>r_phase = Fetching, r_aborted = False\<rparr>]\<rparr>)"

definition handleStopOptimizationSuggestions :: "opt_world \<Rightarrow> opt_world" where
  "handleStopOptimizationSuggestions w =
     (let s = stopOptimizationTypewriter ((screen w)\<lparr>o_abort := None\<rparr>);
          s1 = (if o_queue s \<noteq> [] then s\<lparr>o_queue := [], o_answer := o_answer s @ concat (o_queue s)\<rparr> else s) in
      \<lparr>screen = s1\<lparr>o_done := False, o_streaming := False\<rparr>, runs = abort_run (o_abort (screen w)) (runs w)\<rparr>)"

text \<open>What is copied, and whether the clipboard took it; an empty text is not.\<close>

definition handleCopyOptimizationSuggestions :: "bool \<Rightarrow> opt \<Rightarrow> ustr option \<times> opt" where
  "handleCopyOptimizationSuggestions ok s = (let text = utrim (o_observed s @ unwrapOuterMarkdownFence (o_answer s)) in
     if text = [] then (None, s) else (Some text, s\<lparr>o_copied := ok\<rparr>))"

text \<open>The response of a run: its status and whether it has a body, or a failure of the network.\<close>

datatype opt_response = Response nat bool | NetworkFailure ustr

definition on_opt_response :: "opt_env \<Rightarrow> opt_response \<Rightarrow> run \<Rightarrow> opt \<Rightarrow> opt \<times> run" where
  "on_opt_response env r x s =
     (let failed = (\<lambda>m. (on_rejected m (onError env m None None s), x\<lparr>r_phase := Over\<rparr>)) in
      if r_aborted x then (s, x\<lparr>r_phase := Over\<rparr>)
      else (case r of
          NetworkFailure m \<Rightarrow> (on_rejected m s, x\<lparr>r_phase := Over\<rparr>)
        | Response st body \<Rightarrow>
            if st = 401 then failed (u ''Unauthorized'')
            else if \<not> (200 \<le> st \<and> st \<le> 299) then failed (u ''HTTP '' @ u (show_nat st))
            else if \<not> body then failed (u ''No response body'')
            else (s, x\<lparr>r_phase := Reading []\<rparr>)))"

text \<open>What a read gives: a chunk, the end, or a failure.\<close>

datatype opt_read = Chunk ustr | End | ReadFailure ustr

definition on_opt_read :: "opt_env \<Rightarrow> opt_read \<Rightarrow> ustr \<Rightarrow> run \<Rightarrow> opt \<Rightarrow> opt \<times> run" where
  "on_opt_read env r buf x s =
     (if r_aborted x then (s, x\<lparr>r_phase := Over\<rparr>)
      else (case r of
          Chunk c \<Rightarrow> (case process_blocks env (buf @ c) s of (s', p) \<Rightarrow> (s', x\<lparr>r_phase := p\<rparr>))
        | End \<Rightarrow> (let m = u ''Stream ended unexpectedly (missing [DONE])'' in (on_rejected m (onError env m None None s), x\<lparr>r_phase := Over\<rparr>))
        | ReadFailure m \<Rightarrow> (on_rejected m (onError env m None None s), x\<lparr>r_phase := Over\<rparr>)))"

datatype opt_event =
    OpenModal ustr
  | CloseModal
  | ChooseNamespace ustr
  | RunSuggestions bool
  | StopSuggestions
  | Tick
  | Responded nat opt_response
  | Reads nat opt_read
  | GoesOn nat

definition with_run :: "nat \<Rightarrow> (run \<Rightarrow> opt \<Rightarrow> opt \<times> run) \<Rightarrow> opt_world \<Rightarrow> opt_world" where
  "with_run i f w = (if i < length (runs w) then
     (case f (runs w ! i) (screen w) of (s, x) \<Rightarrow> \<lparr>screen = s, runs = (runs w)[i := x]\<rparr>) else w)"

definition opt_event :: "opt_env \<Rightarrow> opt_event \<Rightarrow> opt_world \<Rightarrow> opt_world" where
  "opt_event env e w = (case e of
      OpenModal ns \<Rightarrow> openOptimizationModal ns w
    | CloseModal \<Rightarrow> handleCloseOptimizationModal w
    | ChooseNamespace ns \<Rightarrow> w\<lparr>screen := (screen w)\<lparr>o_namespace := ns\<rparr>\<rparr>
    | RunSuggestions on \<Rightarrow> handleRunOptimizationSuggestions on w
    | StopSuggestions \<Rightarrow> handleStopOptimizationSuggestions w
    | Tick \<Rightarrow> if o_typing (screen w) then w\<lparr>screen := drainOptimizationQueue (screen w)\<rparr> else w
    | Responded i r \<Rightarrow> with_run i (\<lambda>x s. if r_phase x = Fetching then on_opt_response env r x s else (s, x)) w
    | Reads i r \<Rightarrow> with_run i (\<lambda>x s. case r_phase x of Reading buf \<Rightarrow> on_opt_read env r buf x s | _ \<Rightarrow> (s, x)) w
    | GoesOn i \<Rightarrow> with_run i (\<lambda>x s. case r_phase x of
        Between buf \<Rightarrow> (case process_blocks env buf s of (s', p) \<Rightarrow> (s', x\<lparr>r_phase := p\<rparr>)) | _ \<Rightarrow> (s, x)) w)"

definition opt_run :: "opt_env \<Rightarrow> opt_event list \<Rightarrow> opt_world" where
  "opt_run env es = fold (opt_event env) es initial_opt_world"

end
