(* ===== verification/Optimization_Props.thy ===== *)
theory Optimization_Props
  imports Optimization
begin

text \<open>The suggestions never hang: letters that wait are typed, and a stream that is shown as going on has a run or letters to end it.\<close>

definition live :: "run \<Rightarrow> bool" where
  "live x \<longleftrightarrow> \<not> r_aborted x \<and> r_phase x \<noteq> Over"

definition typed_on :: "opt \<Rightarrow> bool" where
  "typed_on s \<longleftrightarrow> (o_queue s \<noteq> [] \<or> o_done s \<longrightarrow> o_typing s)"

definition opt_ok :: "opt_world \<Rightarrow> bool" where
  "opt_ok w \<longleftrightarrow> typed_on (screen w) \<and> (o_streaming (screen w) \<longrightarrow> o_done (screen w) \<or> (\<exists>x\<in>set (runs w). live x))"

text \<open>What a run may do to the screen: it keeps the letters typed, and goes on, or ends what is shown, or leaves letters to end it.\<close>

definition told :: "opt \<Rightarrow> opt \<Rightarrow> bool" where
  "told s s' \<longleftrightarrow> typed_on s' \<and> (o_streaming s' \<longrightarrow> o_streaming s) \<and> (o_done s \<longrightarrow> o_done s' \<or> \<not> o_streaming s')"

definition ended :: "opt \<Rightarrow> bool" where
  "ended s \<longleftrightarrow> \<not> o_streaming s \<or> o_done s"

named_theorems opt_defs \<open>the screen's operations\<close>

lemmas opt_op_defs [opt_defs] = onObserved_def onContent_def onUsage_def onMeta_def onError_def startOptimizationTypewriter_def
  stopOptimizationTypewriter_def Let_def

lemma told_refl: "typed_on s \<Longrightarrow> told s s"
  by (simp add: told_def)

lemma told_trans: "told r s \<Longrightarrow> told s t \<Longrightarrow> told r t"
  by (auto simp: told_def)

lemma told_on_parsed: "typed_on s \<Longrightarrow> told s (fst (on_parsed env v s))"
  by (auto simp: on_parsed_def told_def typed_on_def opt_defs split: cval.splits)

lemma onDone_ended: "typed_on s \<Longrightarrow> told s (onDone env s) \<and> ended (onDone env s)"
  by (auto simp: onDone_def drainOptimizationQueue_def told_def typed_on_def ended_def opt_defs)

lemma told_block:
  "typed_on s \<Longrightarrow> processEventBlock env lines (s, e) = (s', d, e') \<Longrightarrow> told s s' \<and> (d \<longrightarrow> ended s')"
proof (induction lines arbitrary: s e)
  case (Cons raw lines)
  let ?p = "utrim (drop 5 (utrim_end raw))"
  show ?case
  proof (cases "startsWith (utrim_end raw) (u ''data:'') \<and> ?p \<noteq> [] \<and> ?p \<noteq> u ''[DONE]'' \<and> parse env ?p \<noteq> None")
    case True
    then obtain v where v: "parse env ?p = Some v" by blast
    obtain s1 b where s1: "on_parsed env v s = (s1, b)" by (cases "on_parsed env v s")
    have t: "told s s1" using told_on_parsed [OF Cons.prems(1), of env v] s1 by simp
    have "told s1 s' \<and> (d \<longrightarrow> ended s')" using Cons.IH [of s1 "e \<or> b"] Cons.prems(2) t True v s1 by (simp add: told_def Let_def)
    then show ?thesis using told_trans [OF t] by blast
  next
    case False
    then show ?thesis using Cons.IH [of s e] Cons.prems onDone_ended [OF Cons.prems(1), of env]
      by (auto simp: Let_def split: if_splits option.splits prod.splits)
  qed
qed (simp add: told_refl)

lemma told_blocks: "typed_on s \<Longrightarrow> process_blocks env buf s = (s', p) \<Longrightarrow> told s s' \<and> (p = Over \<longrightarrow> ended s')"
proof (induction env buf s arbitrary: s' p rule: process_blocks.induct)
  case (1 env buf s)
  show ?case
  proof (cases "indexOf buf [10, 10]")
    case None
    then show ?thesis using 1(2,3) by (auto simp: process_blocks.simps told_refl)
  next
    case (Some i)
    obtain s1 d e where b: "processEventBlock env (split 10 (take i buf)) (s, False) = (s1, d, e)" by (metis prod_cases3)
    have t: "told s s1 \<and> (d \<longrightarrow> ended s1)" by (rule told_block [OF 1(2) b])
    show ?thesis
    proof (cases "d \<or> e")
      case True
      then show ?thesis using 1(3) t Some b by (subst (asm) process_blocks.simps) (auto split: if_splits)
    next
      case False
      then have "process_blocks env (drop (i + 2) buf) s1 = (s', p)" using 1(3) Some b by (subst (asm) process_blocks.simps) simp
      then have "told s1 s' \<and> (p = Over \<longrightarrow> ended s')" using 1(1) [OF Some b [symmetric]] False t by (auto simp: told_def)
      then show ?thesis using t told_trans by blast
    qed
  qed
qed

lemma rejected_ended: "typed_on (on_rejected m s) \<and> ended (on_rejected m s) \<and> told s (on_rejected m s)"
  by (auto simp: on_rejected_def typed_on_def ended_def told_def opt_defs)

text \<open>A run's event keeps a live run live or ends what is shown.\<close>

definition run_ok :: "run \<Rightarrow> opt \<Rightarrow> opt \<times> run \<Rightarrow> bool" where
  "run_ok x s r \<longleftrightarrow> (case r of (s', x') \<Rightarrow> told s s' \<and> (live x \<longrightarrow> live x' \<or> ended s'))"

lemma run_ok_response: "typed_on s \<Longrightarrow> run_ok x s (on_opt_response env r x s)"
  using rejected_ended [of _ s] rejected_ended [of _ "onError env _ None None s"]
  by (auto simp: run_ok_def on_opt_response_def Let_def told_refl live_def told_def onError_def split: opt_response.split)

lemma run_ok_blocks:
  assumes "typed_on s"
  shows "run_ok x s (case process_blocks env buf s of (s', p) \<Rightarrow> (s', x\<lparr>r_phase := p\<rparr>))"
  using told_blocks [OF assms, of env buf] by (cases "process_blocks env buf s") (auto simp: run_ok_def live_def)

lemma run_ok_read: "typed_on s \<Longrightarrow> run_ok x s (on_opt_read env r buf x s)"
proof (cases "r_aborted x \<or> (\<forall>c. r \<noteq> Chunk c)")
  case True
  then show "typed_on s \<Longrightarrow> run_ok x s (on_opt_read env r buf x s)" using rejected_ended [of _ "onError env _ None None s"]
    by (auto simp: run_ok_def on_opt_read_def Let_def told_refl live_def told_def onError_def split: opt_read.split)
next
  case False
  then obtain c where "r = Chunk c" "\<not> r_aborted x" by blast
  then show "typed_on s \<Longrightarrow> run_ok x s (on_opt_read env r buf x s)" using run_ok_blocks [of s x env "buf @ c"]
    by (simp add: on_opt_read_def)
qed

lemma with_run_ok:
  assumes "opt_ok w" "\<And>x. run_ok x (screen w) (f x (screen w))"
  shows "opt_ok (with_run i f w)"
proof (cases "i < length (runs w)")
  case True
  obtain s x where f: "f (runs w ! i) (screen w) = (s, x)" by (cases "f (runs w ! i) (screen w)")
  have r: "told (screen w) s" "live (runs w ! i) \<Longrightarrow> live x \<or> ended s" using assms(2) [of "runs w ! i"] by (auto simp: run_ok_def f)
  have "o_done s \<or> (\<exists>x'\<in>set ((runs w)[i := x]). live x')" if st: "o_streaming s"
  proof (cases "o_done (screen w)")
    case False
    then obtain y where y: "y \<in> set (runs w)" "live y" using assms(1) r(1) st by (auto simp: opt_ok_def told_def)
    then obtain j where j: "j < length (runs w)" "runs w ! j = y" by (auto simp: in_set_conv_nth)
    show ?thesis
    proof (cases "j = i")
      case True
      then show ?thesis using r(2) y(2) j st \<open>i < length (runs w)\<close> by (auto simp: ended_def intro: set_update_memI)
    next
      case False
      then have "(runs w)[i := x] ! j = y" using j by simp
      then show ?thesis using j y(2) by (metis length_list_update nth_mem)
    qed
  qed (use r(1) st in \<open>auto simp: told_def\<close>)
  then show ?thesis using True f r(1) by (auto simp: with_run_def opt_ok_def told_def)
qed (simp add: with_run_def assms(1))

lemma run_ok_same: "typed_on s \<Longrightarrow> run_ok x s (s, x)"
  by (simp add: run_ok_def told_refl)

lemma opt_ok_event:
  assumes "opt_ok w"
  shows "opt_ok (opt_event env e w)"
proof -
  have t: "typed_on (screen w)" using assms by (simp add: opt_ok_def)
  show ?thesis
  proof (cases e)
    case (Responded i r)
    then show ?thesis using assms t by (auto simp: opt_event_def intro!: with_run_ok run_ok_response run_ok_same)
  next
    case (Reads i r)
    then show ?thesis using assms t by (auto simp: opt_event_def intro!: with_run_ok run_ok_read run_ok_same split: run_phase.split)
  next
    case (GoesOn i)
    have "run_ok x (screen w) (case r_phase x of Between buf \<Rightarrow> (case process_blocks env buf (screen w) of (s', p) \<Rightarrow> (s', x\<lparr>r_phase := p\<rparr>)) | _ \<Rightarrow> (screen w, x))" for x
      using run_ok_blocks [OF t] run_ok_same [OF t] by (cases "r_phase x") simp_all
    then show ?thesis using GoesOn assms by (auto simp: opt_event_def intro!: with_run_ok)
  next
    case Tick
    then show ?thesis using assms by (auto simp: opt_event_def opt_ok_def typed_on_def drainOptimizationQueue_def opt_defs)
  next
    case (RunSuggestions on)
    then show ?thesis using assms by (auto simp: opt_event_def opt_ok_def typed_on_def handleRunOptimizationSuggestions_def live_def opt_defs)
  qed (use assms in \<open>auto simp: opt_event_def opt_ok_def typed_on_def openOptimizationModal_def handleCloseOptimizationModal_def
        handleStopOptimizationSuggestions_def opt_defs\<close>)
qed

lemma opt_ok_run: "opt_ok (opt_run env es)"
proof -
  have "opt_ok (fold (opt_event env) es w)" if "opt_ok w" for w
    using that by (induction es arbitrary: w) (auto intro: opt_ok_event)
  moreover have "opt_ok initial_opt_world" by (simp add: opt_ok_def initial_opt_world_def initial_opt_def typed_on_def)
  ultimately show ?thesis by (simp add: opt_run_def)
qed

section \<open>The end of an answer\<close>

lemma ticks_over: "\<not> o_typing (screen w) \<Longrightarrow> (opt_event env Tick ^^ n) w = w"
  by (induction n) (simp_all add: opt_event_def)

lemma ticks_end:
  assumes "o_done (screen w)" "o_typing (screen w)" "length (o_queue (screen w)) < n"
  shows "(opt_event env Tick ^^ n) w = w\<lparr>screen := (screen w)\<lparr>o_queue := [], o_typing := False, o_done := False, o_streaming := False,
    o_answer := unwrapOuterMarkdownFence (o_answer (screen w) @ concat (o_queue (screen w)))\<rparr>\<rparr>"
  using assms
proof (induction n arbitrary: w)
  case (Suc n)
  show ?case
  proof (cases "o_queue (screen w) = []")
    case True
    then have "opt_event env Tick w = w\<lparr>screen := (screen w)\<lparr>o_queue := [], o_typing := False, o_done := False, o_streaming := False,
        o_answer := unwrapOuterMarkdownFence (o_answer (screen w))\<rparr>\<rparr>"
      using Suc.prems by (simp add: opt_event_def drainOptimizationQueue_def opt_defs)
    then show ?thesis using True by (simp add: ticks_over funpow_Suc_right del: funpow.simps)
  next
    case False
    let ?q = "o_queue (screen w)" and ?b = "opt_batch (length (o_queue (screen w)))"
    let ?w = "w\<lparr>screen := (screen w)\<lparr>o_queue := drop ?b ?q, o_answer := o_answer (screen w) @ concat (take ?b ?q)\<rparr>\<rparr>"
    have tick: "opt_event env Tick w = ?w" using False Suc.prems by (simp add: opt_event_def drainOptimizationQueue_def opt_defs)
    have "length (drop ?b ?q) < n" using False Suc.prems(3) by (cases ?q) (auto simp: opt_batch_def)
    then have "(opt_event env Tick ^^ n) ?w = ?w\<lparr>screen := (screen ?w)\<lparr>o_queue := [], o_typing := False, o_done := False, o_streaming := False,
        o_answer := unwrapOuterMarkdownFence (o_answer (screen ?w) @ concat (o_queue (screen ?w)))\<rparr>\<rparr>"
      using Suc.prems by (intro Suc.IH) simp_all
    moreover have "concat (take ?b ?q) @ concat (drop ?b ?q) = concat ?q" by (simp flip: concat_append)
    ultimately show ?thesis by (simp add: tick funpow_Suc_right del: funpow.simps)
  qed
qed simp

text \<open>
  C35: Whatever the user does and whatever comes of the runs, letters that wait are being typed, and a stream the screen shows as going on
  has a run that was not aborted and is not over, or has had its end and is typed to it: after as many ticks as letters wait, and one
  more, it is shown as over, with every letter and without the fence around it.
\<close>

theorem suggestions_never_hang:
  fixes env :: opt_env and es :: "opt_event list"
  defines "w \<equiv> opt_run env es"
  shows "(o_queue (screen w) \<noteq> [] \<longrightarrow> o_typing (screen w)) \<and>
    (o_streaming (screen w) \<longrightarrow> o_done (screen w) \<or> (\<exists>x\<in>set (runs w). \<not> r_aborted x \<and> r_phase x \<noteq> Over)) \<and>
    (o_done (screen w) \<longrightarrow> (\<forall>n > length (o_queue (screen w)).
      (opt_event env Tick ^^ n) w = w\<lparr>screen := (screen w)\<lparr>o_queue := [], o_typing := False, o_done := False, o_streaming := False,
        o_answer := unwrapOuterMarkdownFence (o_answer (screen w) @ concat (o_queue (screen w)))\<rparr>\<rparr>))"
proof -
  have "opt_ok w" unfolding w_def by (rule opt_ok_run)
  then show ?thesis using ticks_end [of w _ env] by (auto simp: opt_ok_def typed_on_def live_def)
qed

text \<open>A run whose one chunk holds a letter and the end of the stream.\<close>

definition echo :: opt_env where
  "echo = \<lparr>parse = \<lambda>p. Some (CObj [(u ''content'', CStr p)]), chatErrorText = \<lambda>m _ _. m, missingMeta = []\<rparr>"

definition letter_block :: "nat \<Rightarrow> ustr" where
  "letter_block c = [100, 97, 116, 97, 58, c, 10, 10]"

definition done_block :: ustr where
  "done_block = [100, 97, 116, 97, 58, 91, 68, 79, 78, 69, 93, 10, 10]"

lemma letter_block_read:
  assumes "\<not> ws_unit c"
  shows "process_blocks echo (letter_block c @ rest) s = (onContent [c] s, Between rest)"
proof -
  have c: "c \<noteq> 10" using assms by (auto simp: ws_unit_def)
  have i: "indexOf (letter_block c @ rest) [10, 10] = Some 6" using c by (simp add: letter_block_def startsWith_def)
  have l: "split 10 (take 6 (letter_block c @ rest)) = [[100, 97, 116, 97, 58, c]]" using c by (simp add: letter_block_def)
  have "u ''data:'' = [100, 97, 116, 97, 58]" "u ''kind'' = [107, 105, 110, 100]" "u ''usage'' = [117, 115, 97, 103, 101]"
      "u ''error'' = [101, 114, 114, 111, 114]" "u ''content'' = [99, 111, 110, 116, 101, 110, 116]" "u ''[DONE]'' = [91, 68, 79, 78, 69, 93]"
    by (simp_all add: u_def)
  then have b: "processEventBlock echo [[100, 97, 116, 97, 58, c]] (s, False) = (onContent [c] s, False, True)"
    using assms by (simp add: utrim_end_def utrim_def utrim_start_def startsWith_def echo_def on_parsed_def)
  show ?thesis by (subst process_blocks.simps) (simp only: i l b option.case prod.case if_True if_False, simp add: letter_block_def)
qed

lemma done_block_read: "process_blocks echo (done_block @ rest) s = (onDone echo s, Over)"
proof -
  have i: "indexOf (done_block @ rest) [10, 10] = Some 11" by (simp add: done_block_def startsWith_def)
  have l: "split 10 (take 11 (done_block @ rest)) = [[100, 97, 116, 97, 58, 91, 68, 79, 78, 69, 93]]" by (simp add: done_block_def)
  have "u ''data:'' = [100, 97, 116, 97, 58]" "u ''[DONE]'' = [91, 68, 79, 78, 69, 93]" by (simp_all add: u_def)
  then have b: "processEventBlock echo [[100, 97, 116, 97, 58, 91, 68, 79, 78, 69, 93]] (s, False) = (onDone echo s, True, False)"
    by (simp add: utrim_end_def utrim_def utrim_start_def startsWith_def ws_unit_def)
  show ?thesis by (subst process_blocks.simps) (simp only: i l b option.case prod.case if_True if_False)
qed

lemmas block_reads = letter_block_read letter_block_read [of _ "[]", simplified] done_block_read done_block_read [of "[]", simplified]

lemma letters_not_blank [simp]: "\<not> ws_unit 97" "\<not> ws_unit 98"
  by (simp_all add: ws_unit_def)

lemmas run_evals = opt_run_def opt_event_def with_run_def initial_opt_world_def initial_opt_def openOptimizationModal_def
  handleCloseOptimizationModal_def handleRunOptimizationSuggestions_def handleStopOptimizationSuggestions_def abort_run_def
  on_opt_response_def on_opt_read_def block_reads opt_defs onDone_def drainOptimizationQueue_def opt_batch_def

definition one_letter :: "opt_event list" where
  "one_letter = [OpenModal [110], RunSuggestions True, Responded 0 (Response 200 True), Reads 0 (Chunk (letter_block 97 @ done_block)), GoesOn 0]"

lemma one_letter_done:
  "o_done (screen (opt_run echo one_letter))" "o_queue (screen (opt_run echo one_letter)) = [[97]]" "o_answer (screen (opt_run echo one_letter)) = []"
  by (simp_all add: one_letter_def run_evals)

theorem suggestions_never_hang_witness:
  "\<not> o_streaming (screen (fold (opt_event echo) [Tick, Tick] (opt_run echo one_letter)))"
proof -
  have "(opt_event echo Tick ^^ 2) (opt_run echo one_letter) =
      (opt_run echo one_letter)\<lparr>screen := (screen (opt_run echo one_letter))\<lparr>o_queue := [], o_typing := False, o_done := False, o_streaming := False,
        o_answer := unwrapOuterMarkdownFence (o_answer (screen (opt_run echo one_letter)) @ concat (o_queue (screen (opt_run echo one_letter))))\<rparr>\<rparr>"
    using suggestions_never_hang [where env = echo and es = one_letter] one_letter_done by simp
  then show ?thesis by (simp add: numeral_2_eq_2)
qed

section \<open>Where the hook falls short\<close>

text \<open>Letters come after a stop: the run goes on with the rest of its chunk.\<close>

lemma letters_after_stop:
  "o_queue (screen (opt_run echo [OpenModal [110], RunSuggestions True, Responded 0 (Response 200 True),
     Reads 0 (Chunk (letter_block 97 @ letter_block 98)), StopSuggestions, GoesOn 0])) = [[98]]"
  by (simp add: run_evals)

text \<open>The end of a run that was replaced ends the new one on screen, and a stop no longer aborts it.\<close>

lemma end_of_replaced_run:
  "let w = opt_run echo [OpenModal [110], RunSuggestions True, Responded 0 (Response 200 True),
     Reads 0 (Chunk (letter_block 97 @ done_block)), RunSuggestions True, GoesOn 0, StopSuggestions] in
   \<not> o_streaming (screen w) \<and> \<not> r_aborted (runs w ! 1) \<and> r_phase (runs w ! 1) = Fetching"
  by (simp add: run_evals)

text \<open>Letters that wait when the window closes are typed into the next one.\<close>

lemma letters_after_close:
  "o_answer (screen (opt_run echo [OpenModal [110], RunSuggestions True, Responded 0 (Response 200 True),
     Reads 0 (Chunk (letter_block 97)), CloseModal, OpenModal [110], Tick])) = [97]"
  by (simp add: run_evals)

text \<open>An answer that begins with one block of code and ends with another loses the fences of both.\<close>

lemma two_fences_lost:
  "unwrapOuterMarkdownFence (u ''```'' @ [10, 97, 10] @ u ''```'' @ [10, 98, 10] @ u ''```'' @ [10, 99, 10] @ u ''```'') =
     [97, 10] @ u ''```'' @ [10, 98, 10] @ u ''```'' @ [10, 99]"
  by (simp add: unwrapOuterMarkdownFence_def after_word_def utrim_def utrim_start_def utrim_end_def ws_unit_def u_def startsWith_def endsWith_def lower_unit_def)

end
