(* ===== verification/Tool_Export.thy ===== *)
theory Tool_Export
  imports Chat_History Times
begin

text \<open>
  The tool results of an answer as a ZIP (\<^verbatim>\<open>frontend/src/pages/ai-chat/exportToolCalls.ts\<close>): which calls are taken, the answer's own or a
  saved message's, and the file each becomes. A conversation that cannot be read is \<open>None\<close>; a message's \<^verbatim>\<open>tool_calls\<close> is a list or absent.
\<close>

section \<open>The calls\<close>

definition TRUNCATED_MARKER :: ustr where
  "TRUNCATED_MARKER = u ''... (truncated) ...''"

definition text_or_empty :: "cval \<Rightarrow> ustr" where
  "text_or_empty v = (case v of CStr s \<Rightarrow> s | _ \<Rightarrow> [])"

definition calls_of :: "cval \<Rightarrow> cval list" where
  "calls_of m = (case cget m ''tool_calls'' of CArr xs \<Rightarrow> xs | _ \<Rightarrow> [])"

definition hasTruncatedToolCalls :: "cval list \<Rightarrow> bool" where
  "hasTruncatedToolCalls calls = list_ex (\<lambda>tc. ctruthy tc \<and>
     (contains (text_or_empty (cget tc ''result'')) TRUNCATED_MARKER \<or> contains (text_or_empty (cget tc ''display'')) TRUNCATED_MARKER)) calls"

record export_message =
  em_id :: "int option"
  em_toolCalls :: "cval list"
  em_content :: ustr

definition id_of :: "cval \<Rightarrow> int option" where
  "id_of m = (case cget m ''id'' of CNum n \<Rightarrow> Some n | _ \<Rightarrow> None)"

definition tool_messages :: "cval list \<Rightarrow> cval list" where
  "tool_messages messages = filter (\<lambda>m. cget m ''role'' = CStr (u ''assistant'') \<and> calls_of m \<noteq> []) messages"

text \<open>\<^verbatim>\<open>String(tc?.function || '')\<close> of the saved calls, and the texts of the answer's.\<close>

definition saved_names :: "cval \<Rightarrow> ustr list" where
  "saved_names m = filter (\<lambda>f. f \<noteq> []) (map (\<lambda>tc. cstr_or_empty (cget tc ''function'')) (calls_of m))"

definition current_names :: "cval list \<Rightarrow> ustr list" where
  "current_names calls = filter (\<lambda>f. f \<noteq> []) (map (\<lambda>tc. text_or_empty (cget tc ''function'')) calls)"

definition or_else :: "'a option \<Rightarrow> 'a option \<Rightarrow> 'a option" where
  "or_else a b = (case a of None \<Rightarrow> b | Some x \<Rightarrow> Some x)"

definition last_of :: "'a list \<Rightarrow> 'a option" where
  "last_of xs = (if xs = [] then None else Some (last xs))"

text \<open>The saved message of an answer; \<open>uiIndex\<close> is the answer's place among the screen's answers with calls.\<close>

definition named_message :: "cval list \<Rightarrow> ustr list \<Rightarrow> cval option" where
  "named_message candidates names =
     or_else (if names \<noteq> [] then List.find (\<lambda>m. saved_names m = names) candidates else None)
       (or_else (if names \<noteq> [] then List.find (\<lambda>m. length (saved_names m) = length names \<and> set (saved_names m) = set names) candidates else None)
         (last_of candidates))"

definition placed_message :: "cval list \<Rightarrow> nat option \<Rightarrow> ustr \<Rightarrow> cval option" where
  "placed_message candidates uiIndex text =
     or_else (case uiIndex of Some i \<Rightarrow> item candidates i | None \<Rightarrow> None)
       (or_else (let hint = take 200 (utrim text) in
           if candidates \<noteq> [] \<and> text \<noteq> [] \<and> length hint \<ge> 20
           then List.find (\<lambda>m. case cget m ''content'' of CStr c \<Rightarrow> contains c hint | _ \<Rightarrow> False) candidates else None)
         (last_of candidates))"

definition dbMessage :: "export_message \<Rightarrow> nat option \<Rightarrow> cval list \<Rightarrow> cval option" where
  "dbMessage m uiIndex messages =
     (let candidates = tool_messages messages in
      or_else (case em_id m of Some i \<Rightarrow> List.find (\<lambda>x. id_of x = Some i) messages | None \<Rightarrow> None)
        (or_else (named_message candidates (current_names (em_toolCalls m))) (placed_message candidates uiIndex (em_content m))))"

definition resolveToolCallsForDownload :: "export_message \<Rightarrow> nat option \<Rightarrow> cval list option \<Rightarrow> cval list" where
  "resolveToolCallsForDownload m uiIndex session = (case session of
      None \<Rightarrow> em_toolCalls m
    | Some messages \<Rightarrow>
        if olderThanNewestPage (em_id m) (map id_of messages) then em_toolCalls m
        else (case dbMessage m uiIndex messages of
            None \<Rightarrow> em_toolCalls m
          | Some x \<Rightarrow> if calls_of x \<noteq> [] then calls_of x else em_toolCalls m))"

text \<open>The calls of the download; the conversation is read again where some are cut.\<close>

definition calls_for_download :: "export_message \<Rightarrow> nat option \<Rightarrow> cval list option \<Rightarrow> cval list option \<Rightarrow> cval list" where
  "calls_for_download m uiIndex session again =
     (let calls = resolveToolCallsForDownload m uiIndex session in
      if \<not> hasTruncatedToolCalls calls then calls
      else (case again of
          None \<Rightarrow> calls
        | Some messages \<Rightarrow>
           (let candidates = (if olderThanNewestPage (em_id m) (map id_of messages) then [] else rev (tool_messages messages)) in
            case List.find (\<lambda>x. \<not> hasTruncatedToolCalls (calls_of x)) candidates of
              None \<Rightarrow> calls
            | Some x \<Rightarrow> calls_of x)))"

section \<open>The files\<close>

text \<open>The time of the download, from the viewer's clock.\<close>

definition timestamp_of :: "clock_face \<Rightarrow> ustr" where
  "timestamp_of f = (case f of (y, m, d, h, mi, s) \<Rightarrow> u (show_int y @ pad m @ pad d @ ''-'' @ pad h @ pad mi @ pad s))"

definition name_unit :: "nat \<Rightarrow> bool" where
  "name_unit c \<longleftrightarrow> (97 \<le> c \<and> c \<le> 122) \<or> (65 \<le> c \<and> c \<le> 90) \<or> (48 \<le> c \<and> c \<le> 57) \<or> c = 46 \<or> c = 95 \<or> c = 45"

text \<open>\<^verbatim>\<open>replace(/[^a-zA-Z0-9._-]+/g, '_')\<close>.\<close>

fun replace_runs :: "ustr \<Rightarrow> ustr" where
  "replace_runs [] = []"
| "replace_runs [c] = (if name_unit c then [c] else [95])"
| "replace_runs (c # d # s) = (if name_unit c then c # replace_runs (d # s) else if name_unit d then 95 # replace_runs (d # s) else replace_runs (d # s))"

definition sanitizeName :: "ustr \<Rightarrow> ustr" where
  "sanitizeName value =
     (let s = replace_runs value; bare = rev (dropWhile (\<lambda>c. c = 95) (rev (dropWhile (\<lambda>c. c = 95) s))); short = take 40 bare in
      if short = [] then u ''tool'' else short)"

definition getUniqueBase :: "ustr \<Rightarrow> (ustr \<times> nat) list \<Rightarrow> ustr \<times> (ustr \<times> nat) list" where
  "getUniqueBase base nameCounts = (let n = (case map_of nameCounts base of None \<Rightarrow> 0 | Some n \<Rightarrow> n) + 1 in
     (if n > 1 then base @ u ''_'' @ u (show_nat n) else base, AList.update base n nameCounts))"

definition param_part :: "string \<Rightarrow> cval \<Rightarrow> ustr list" where
  "param_part l v = (if cnullish v then [] else
     (let trimmed = utrim (cstr v) in if trimmed = [] then [] else [u l @ u ''-'' @ take 40 trimmed]))"

definition buildParamSuffix :: "cval \<Rightarrow> ustr" where
  "buildParamSuffix args =
     (if \<not> ctruthy args \<or> \<not> ctypeof_object args then []
      else
        (let parts = concat (map (\<lambda>(l, k). param_part l (cget args k))
               [(''ns'', ''namespace''), (''type'', ''resource_type''), (''name'', ''resource_name''), (''pod'', ''pod_name''),
                (''svc'', ''service_name''), (''name'', ''name''), (''out'', ''output''), (''ctr'', ''container'')]) in
         if parts = [] then []
         else (let safe = take 60 (sanitizeName (ujoin (u ''_'') (take 4 parts))) in if safe = [] then [] else u ''_'' @ safe)))"

definition call_function :: "cval \<Rightarrow> ustr" where
  "call_function tc = (case cget tc ''function'' of CStr f \<Rightarrow> f | _ \<Rightarrow> u ''tool'')"

definition extension :: "cval \<Rightarrow> ustr" where
  "extension tc =
     (if call_function tc = u ''get_pod_logs'' \<or> call_function tc = u ''k8s_get_pod_logs'' then u ''log''
      else if ctruthy (cget tc ''is_yaml'') then u ''yaml''
      else if ctruthy (cget tc ''is_json'') then u ''json''
      else u ''txt'')"

definition file_content :: "cval \<Rightarrow> ustr" where
  "file_content tc = (case cget tc ''result'' of CStr s \<Rightarrow> s
    | v \<Rightarrow> json_pretty [] (if cnullish v then CNull else v))"

text \<open>The files of the calls with their texts, in order; a ZIP keeps the last of a name (\<^verbatim>\<open>zip.file\<close>).\<close>

fun call_files :: "ustr \<Rightarrow> (ustr \<times> nat) list \<Rightarrow> cval list \<Rightarrow> (ustr \<times> ustr) list" where
  "call_files timestamp counts [] = []"
| "call_files timestamp counts (tc # tcs) =
     (if \<not> ctruthy tc then call_files timestamp counts tcs
      else (case getUniqueBase (sanitizeName (call_function tc)) counts of
          (uniqueBase, counts') \<Rightarrow>
            (uniqueBase @ buildParamSuffix (if ctruthy (cget tc ''args'') then cget tc ''args'' else CObj []) @ u ''_'' @ timestamp @ u ''.'' @ extension tc,
             file_content tc) # call_files timestamp counts' tcs))"

definition zip_of :: "(ustr \<times> ustr) list \<Rightarrow> (ustr \<times> ustr) list" where
  "zip_of files = fold (\<lambda>(n, c). AList.update n c) files []"

definition exportToolCallsAsZip :: "ustr \<Rightarrow> export_message \<Rightarrow> nat option \<Rightarrow> cval list option \<Rightarrow> cval list option \<Rightarrow> (ustr \<times> ustr) list option" where
  "exportToolCallsAsZip timestamp m uiIndex session again =
     (if em_toolCalls m = [] then None
      else Some (zip_of (call_files timestamp [] (calls_for_download m uiIndex session again))))"

section \<open>Names that are no paths\<close>

lemma digits_units: "c \<in> set (digits_of n) \<Longrightarrow> 48 \<le> (of_char c :: nat) \<and> (of_char c :: nat) \<le> 57"
proof (induction n rule: digits_of.induct)
  case (1 n)
  show ?case
  proof (cases "n < 10")
    case True
    then show ?thesis using 1(2) by (subst (asm) digits_of.simps) simp
  next
    case False
    then show ?thesis using 1 by (subst (asm) (2) digits_of.simps) (auto split: if_splits)
  qed
qed

definition plain_name :: "ustr \<Rightarrow> bool" where
  "plain_name s \<longleftrightarrow> (\<forall>c\<in>set s. name_unit c)"

lemma plain_name_simps [simp]: "plain_name []" "plain_name (a @ b) \<longleftrightarrow> plain_name a \<and> plain_name b" "plain_name (c # s) \<longleftrightarrow> name_unit c \<and> plain_name s"
  by (auto simp: plain_name_def)

lemma plain_digits: "plain_name (u (digits_of n))"
  using digits_units by (fastforce simp: plain_name_def u_def name_unit_def)

lemma plain_show_int [simp]: "plain_name (u (show_int i))"
proof -
  have "u (CHR ''-'' # s) = 45 # u s" for s by (simp add: u_def)
  then show ?thesis using plain_digits by (auto simp: show_int_def name_unit_def)
qed

lemma u_dash [simp]: "u (CHR ''-'' # s) = 45 # u s" "name_unit 45"
  by (simp_all add: u_def name_unit_def)

lemma u_append [simp]: "u (a @ b) = u a @ u b"
  by (simp add: u_def)

lemma plain_pad [simp]: "plain_name (u (pad n))"
proof -
  have "plain_name (u (replicate k (CHR ''0'')))" for k by (auto simp: plain_name_def u_def name_unit_def)
  then show ?thesis by (simp add: pad_def Let_def)
qed

lemma plain_words [simp]: "plain_name (u ''_'')" "plain_name (u ''.'')" "plain_name (u ''-'')" "plain_name (u ''tool'')"
    "plain_name (u ''log'')" "plain_name (u ''yaml'')" "plain_name (u ''json'')" "plain_name (u ''txt'')"
  by (simp_all add: plain_name_def u_def name_unit_def)

lemma plain_replace_runs: "plain_name (replace_runs s)"
  by (induction s rule: replace_runs.induct) (auto simp: name_unit_def)

lemma plain_sub: "plain_name s \<Longrightarrow> set t \<subseteq> set s \<Longrightarrow> plain_name t"
  by (auto simp: plain_name_def)

lemma plain_sanitize [simp]: "plain_name (sanitizeName s)"
  unfolding sanitizeName_def Let_def
  using plain_sub [OF plain_replace_runs [of s]]
  by (auto dest!: in_set_takeD set_dropWhileD intro!: plain_sub [OF plain_replace_runs [of s]])

lemma plain_suffix [simp]: "plain_name (buildParamSuffix args)"
proof -
  have "plain_name (take 60 (sanitizeName s))" for s using plain_sub [OF plain_sanitize] set_take_subset by metis
  then show ?thesis by (simp add: buildParamSuffix_def Let_def)
qed

lemma plain_files: "(n, c) \<in> set (call_files (timestamp_of f) counts calls) \<Longrightarrow> plain_name n"
proof (induction "timestamp_of f" counts calls rule: call_files.induct)
  case (2 counts tc tcs)
  have t: "plain_name (timestamp_of f)" by (cases f) (simp add: timestamp_of_def)
  have e: "plain_name (extension tc)" by (simp add: extension_def)
  obtain b counts' where b: "getUniqueBase (sanitizeName (call_function tc)) counts = (b, counts')" by (cases "getUniqueBase (sanitizeName (call_function tc)) counts")
  have "plain_name b" using b by (auto simp: getUniqueBase_def Let_def show_nat_def plain_digits split: if_splits)
  then show ?case using 2 t e b by (auto split: if_splits)
qed simp

lemma zip_of_files: "set (zip_of files) \<subseteq> set files \<and> distinct (map fst (zip_of files)) \<and> fst ` set (zip_of files) = fst ` set files"
proof -
  have "set (fold (\<lambda>(n, c). AList.update n c) files acc) \<subseteq> set files \<union> set acc \<and>
      (distinct (map fst acc) \<longrightarrow> distinct (map fst (fold (\<lambda>(n, c). AList.update n c) files acc))) \<and>
      fst ` set (fold (\<lambda>(n, c). AList.update n c) files acc) = fst ` set files \<union> fst ` set acc" for acc
  proof (induction files arbitrary: acc)
    case (Cons x xs)
    obtain n c where x: "x = (n, c)" by (cases x)
    have "set (AList.update n c acc) \<subseteq> insert (n, c) (set acc)" by (induction acc) auto
    moreover have "fst ` set (AList.update n c acc) = insert n (fst ` set acc)" by (induction acc) auto
    ultimately show ?case using Cons.IH [of "AList.update n c acc"] distinct_update [of acc n c] by (auto simp: x)
  qed simp
  from this [of "[]"] show ?thesis by (simp add: zip_of_def)
qed

text \<open>
  The names of the exported files are no paths: whatever the tools are called and whatever their arguments say, a name has only letters,
  digits, dots, dashes and underscores; the names are distinct and every call's name is among them.
\<close>

theorem exported_names_plain:
  "(\<forall>(n, c)\<in>set (zip_of (call_files (timestamp_of f) [] calls)). \<forall>x\<in>set n. name_unit x) \<and>
   distinct (map fst (zip_of (call_files (timestamp_of f) [] calls))) \<and>
   fst ` set (zip_of (call_files (timestamp_of f) [] calls)) = fst ` set (call_files (timestamp_of f) [] calls)"
proof -
  let ?files = "call_files (timestamp_of f) [] calls"
  have "plain_name n" if "(n, c) \<in> set (zip_of ?files)" for n c
    using that zip_of_files [of ?files] plain_files [of n c f "[]" calls] by blast
  then show ?thesis using zip_of_files [of ?files] by (auto simp: plain_name_def)
qed

text \<open>Two calls of a tool named by a path.\<close>

definition path_call :: cval where
  "path_call = CObj [(u ''function'', CStr (u ''../x''))]"

theorem exported_names_plain_witness:
  "47 \<notin> \<Union> (set ` fst ` set (zip_of (call_files (timestamp_of (2026, 1, 2, 3, 4, 5)) [] [path_call, path_call]))) \<and>
   distinct (map fst (zip_of (call_files (timestamp_of (2026, 1, 2, 3, 4, 5)) [] [path_call, path_call])))"
  using exported_names_plain [of "(2026, 1, 2, 3, 4, 5)" "[path_call, path_call]"] by (fastforce simp: name_unit_def)

section \<open>Whose calls\<close>

text \<open>The message saved under the answer's id gives the calls, unless some are cut.\<close>

lemma saved_calls_taken:
  assumes "em_id m = Some i" "List.find (\<lambda>x. id_of x = Some i) messages = Some x" "calls_of x \<noteq> []" "\<not> hasTruncatedToolCalls (calls_of x)"
    "\<not> olderThanNewestPage (Some i) (map id_of messages)"
  shows "calls_for_download m uiIndex (Some messages) again = calls_of x"
  using assms by (simp add: calls_for_download_def resolveToolCallsForDownload_def dbMessage_def or_else_def Let_def)

text \<open>The place on screen and the letters of an answer are never asked: a message with calls is taken before them.\<close>

lemma place_never_asked:
  "dbMessage m uiIndex messages = or_else (case em_id m of Some i \<Rightarrow> List.find (\<lambda>x. id_of x = Some i) messages | None \<Rightarrow> None)
     (named_message (tool_messages messages) (current_names (em_toolCalls m)))"
proof -
  have none: "placed_message [] uiIndex s = None" for s
    by (auto simp: placed_message_def or_else_def item_def last_of_def Let_def split: option.splits)
  show ?thesis
  proof (cases "tool_messages messages = []")
    case True
    then show ?thesis using none by (auto simp: dbMessage_def or_else_def Let_def split: option.splits)
  next
    case False
    then have "named_message (tool_messages messages) (current_names (em_toolCalls m)) \<noteq> None"
      by (auto simp: named_message_def or_else_def last_of_def split: option.splits)
    then obtain x where "named_message (tool_messages messages) (current_names (em_toolCalls m)) = Some x" by blast
    then show ?thesis by (auto simp: dbMessage_def or_else_def Let_def split: option.splits)
  qed
qed

text \<open>An answer whose calls are cut is downloaded with another answer's calls when those are whole.\<close>

definition saved_answer :: "int \<Rightarrow> cval list \<Rightarrow> cval" where
  "saved_answer i tcs = CObj [(u ''id'', CNum i), (u ''role'', CStr (u ''assistant'')), (u ''tool_calls'', CArr tcs)]"

lemma other_answer_taken:
  assumes "hasTruncatedToolCalls [a]" "\<not> hasTruncatedToolCalls [b]"
  shows "calls_for_download \<lparr>em_id = Some 1, em_toolCalls = [a], em_content = []\<rparr> i
     (Some [saved_answer 1 [a], saved_answer 2 [b]]) (Some [saved_answer 1 [a], saved_answer 2 [b]]) = [b]"
proof -
  have keys: "u ''id'' = [105, 100]" "u ''role'' = [114, 111, 108, 101]" "u ''tool_calls'' = [116, 111, 111, 108, 95, 99, 97, 108, 108, 115]"
    by (simp_all add: u_def)
  have c: "calls_of (saved_answer n tcs) = tcs" "id_of (saved_answer n tcs) = Some n" for n tcs
    by (simp_all add: calls_of_def id_of_def saved_answer_def keys)
  have t: "tool_messages [saved_answer 1 [a], saved_answer 2 [b]] = [saved_answer 1 [a], saved_answer 2 [b]]"
    using c by (simp add: tool_messages_def) (simp add: saved_answer_def keys)
  show ?thesis using assms
    by (simp add: calls_for_download_def resolveToolCallsForDownload_def dbMessage_def olderThanNewestPage_def or_else_def c t Let_def)
qed

text \<open>Two calls of a tool and one of a tool that is called as the second's file: a file is lost.\<close>

lemma names_collide:
  defines "calls \<equiv> map (\<lambda>f. CObj [(u ''function'', CStr f)]) [[97], [97], [97, 95, 50]]"
  shows "length (call_files [] [] calls) = 3" "length (zip_of (call_files [] [] calls)) = 2"
proof -
  have k: "u ''function'' = [102, 117, 110, 99, 116, 105, 111, 110]" "u ''args'' = [97, 114, 103, 115]" "u ''_'' = [95]" "u (show_nat 2) = [50]"
    by (simp_all add: u_def show_nat_def digits_of.simps)
  have "call_files [] [] calls = [([97, 95, 46] @ u ''txt'', u ''null''), ([97, 95, 50, 95, 46] @ u ''txt'', u ''null''), ([97, 95, 50, 95, 46] @ u ''txt'', u ''null'')]"
    by (simp add: calls_def getUniqueBase_def sanitizeName_def call_function_def extension_def file_content_def buildParamSuffix_def param_part_def
      name_unit_def k numeral_2_eq_2 [symmetric]) (simp add: u_def)
  then show "length (call_files [] [] calls) = 3" "length (zip_of (call_files [] [] calls)) = 2" by (simp_all add: zip_of_def)
qed

end
