(* ===== verification/Issues.thy ===== *)
theory Issues
  imports Drawer_Target
begin

text \<open>
  The issues of a cluster as the dashboard lists them (\<^verbatim>\<open>frontend/src/pages/dashboard/issues.ts\<close>): searched, ordered, grouped by kind and
  counted. \<open>lc\<close> stands for \<^verbatim>\<open>localeCompare\<close>.
\<close>

datatype severity = Critical | Warning | Info

definition severity_text :: "severity \<Rightarrow> string" where
  "severity_text s = (case s of Critical \<Rightarrow> ''critical'' | Warning \<Rightarrow> ''warning'' | Info \<Rightarrow> ''info'')"

record cluster_issue =
  c_id :: string
  c_kind :: string
  c_namespace :: "string option"
  c_name :: string
  c_severity :: severity
  c_reason :: "string option"
  c_message :: "string option"
  c_last_seen :: "string option"
  c_restarts :: "int option"
  c_failed :: "int option"
  c_events :: "int option"
  c_api_version :: "string option"

record issue_item =
  i_id :: string
  i_kind :: string
  i_severity :: severity
  i_title :: string
  i_subtitle :: "string option"
  i_namespace :: "string option"
  i_name :: string
  i_lastSeen :: "string option"
  i_restarts :: "int option"
  i_failed :: "int option"
  i_events :: "int option"
  i_apiVersion :: "string option"

definition SEVERITY_RANK :: "severity \<Rightarrow> nat" where
  "SEVERITY_RANK s = (case s of Critical \<Rightarrow> 0 | Warning \<Rightarrow> 1 | Info \<Rightarrow> 2)"

definition KIND_ORDER :: "string list" where
  "KIND_ORDER = [''Node'', ''Deployment'', ''StatefulSet'', ''DaemonSet'', ''Job'', ''CronJob'',
    ''HorizontalPodAutoscaler'', ''PersistentVolumeClaim'', ''Pod'', ''Collector'']"

definition kindRank :: "string \<Rightarrow> nat" where
  "kindRank kind = (case findIndex (\<lambda>k. k = kind) KIND_ORDER of None \<Rightarrow> length KIND_ORDER | Some i \<Rightarrow> i)"

text \<open>The texts that say something, joined (\<^verbatim>\<open>filter(Boolean).join(sep)\<close>), and \<^verbatim>\<open>x || undefined\<close>.\<close>

definition join_said :: "string \<Rightarrow> string option list \<Rightarrow> string" where
  "join_said sep xs = join sep (filter (\<lambda>s. s \<noteq> []) (map (case_option [] id) xs))"

definition or_undefined :: "string option \<Rightarrow> string option" where
  "or_undefined s = (if s = Some [] then None else s)"

definition toIssueItem :: "cluster_issue \<Rightarrow> issue_item" where
  "toIssueItem i = \<lparr>i_id = c_id i, i_kind = c_kind i, i_severity = c_severity i, i_title = c_name i,
     i_subtitle = or_undefined (Some (join_said [CHR '' '', char_of (183 :: nat), CHR '' ''] [c_reason i, c_message i])),
     i_namespace = or_undefined (c_namespace i), i_name = c_name i, i_lastSeen = c_last_seen i, i_restarts = c_restarts i,
     i_failed = c_failed i, i_events = c_events i, i_apiVersion = c_api_version i\<rparr>"

definition issueTarget :: "issue_item \<Rightarrow> target option" where
  "issueTarget i = (if i_kind i = ''Collector'' \<or> i_name i = [] then None
     else Some (detailTarget (i_kind i) (i_name i) (i_namespace i) (i_apiVersion i) None))"

definition found_by :: "string \<Rightarrow> issue_item \<Rightarrow> bool" where
  "found_by q i \<longleftrightarrow> q = [] \<or> contains (toLowerCase (join_said '' ''
     [Some (i_kind i), Some (severity_text (i_severity i)), i_namespace i, Some (i_name i), i_subtitle i])) q"

definition compare_issues :: "(string \<Rightarrow> string \<Rightarrow> int) \<Rightarrow> issue_item \<Rightarrow> issue_item \<Rightarrow> int" where
  "compare_issues lc = lex_compare (\<lambda>a b. int (SEVERITY_RANK (i_severity a)) - int (SEVERITY_RANK (i_severity b)))
     (lex_compare (\<lambda>a b. int (kindRank (i_kind a)) - int (kindRank (i_kind b)))
       (lex_compare (\<lambda>a b. lc (i_kind a) (i_kind b)) (\<lambda>a b. lc (i_id a) (i_id b))))"

definition compare_kinds :: "(string \<Rightarrow> string \<Rightarrow> int) \<Rightarrow> string \<Rightarrow> string \<Rightarrow> int" where
  "compare_kinds lc = lex_compare (\<lambda>a b. int (kindRank a) - int (kindRank b)) lc"

text \<open>\<^verbatim>\<open>(issuesByKind[it.kind] ??= []).push(it)\<close>.\<close>

definition push_issue :: "issue_item \<Rightarrow> (string \<times> issue_item list) list \<Rightarrow> (string \<times> issue_item list) list" where
  "push_issue i m = AList.update (i_kind i) ((case map_of m (i_kind i) of None \<Rightarrow> [] | Some xs \<Rightarrow> xs) @ [i]) m"

record issues_summary =
  n_total :: nat
  n_critical :: nat
  n_warning :: nat
  n_info :: nat
  n_all :: nat

definition count_issue :: "issue_item \<Rightarrow> issues_summary \<Rightarrow> issues_summary" where
  "count_issue i acc = (let a = acc\<lparr>n_total := n_total acc + 1\<rparr> in
     case i_severity i of
       Critical \<Rightarrow> a\<lparr>n_critical := n_critical a + 1\<rparr>
     | Warning \<Rightarrow> a\<lparr>n_warning := n_warning a + 1\<rparr>
     | Info \<Rightarrow> a\<lparr>n_info := n_info a + 1\<rparr>)"

record derived_issues =
  sortedIssues :: "issue_item list"
  issuesByKind :: "(string \<times> issue_item list) list"
  kinds :: "string list"
  issuesSummary :: issues_summary

definition deriveIssues :: "(string \<Rightarrow> string \<Rightarrow> int) \<Rightarrow> cluster_issue list option \<Rightarrow> string \<Rightarrow> derived_issues" where
  "deriveIssues lc issues query =
     (let q = toLowerCase (trim query);
          all = case_option [] id issues;
          sorted = js_sort (compare_issues lc) (filter (found_by q) (map toIssueItem all));
          byKind = fold push_issue sorted [] in
      \<lparr>sortedIssues = sorted, issuesByKind = byKind, kinds = js_sort (compare_kinds lc) (map fst byKind),
       issuesSummary = fold count_issue sorted \<lparr>n_total = 0, n_critical = 0, n_warning = 0, n_info = 0, n_all = length all\<rparr>\<rparr>)"

section \<open>The list, its groups and its counts\<close>

lemma map_of_push1: "map_of (push_issue x m) k = (if k = i_kind x then Some ((case map_of m k of None \<Rightarrow> [] | Some ys \<Rightarrow> ys) @ [x]) else map_of m k)"
  by (simp add: push_issue_def update_conv')

lemma map_of_push: "map_of (fold push_issue xs m) k =
    (let new = filter (\<lambda>i. i_kind i = k) xs in
     if new = [] then map_of m k else Some ((case map_of m k of None \<Rightarrow> [] | Some ys \<Rightarrow> ys) @ new))"
proof (induction xs arbitrary: m)
  case (Cons x xs)
  show ?case by (auto simp: Cons.IH map_of_push1 Let_def split: option.split)
qed simp

lemma keys_push: "distinct (map fst m) \<Longrightarrow> distinct (map fst (fold push_issue xs m)) \<and>
    set (map fst (fold push_issue xs m)) = set (map fst m) \<union> i_kind ` set xs"
proof (induction xs arbitrary: m)
  case (Cons x xs)
  have "distinct (map fst (push_issue x m))" "set (map fst (push_issue x m)) = insert (i_kind x) (set (map fst m))"
    using Cons.prems by (auto simp: push_issue_def distinct_update fst_AList_update)
  then show ?case using Cons.IH [of "push_issue x m"] by auto
qed simp

lemma count_issue_step: "count_issue i acc = acc\<lparr>n_total := n_total acc + 1, n_critical := n_critical acc + (if i_severity i = Critical then 1 else 0),
    n_warning := n_warning acc + (if i_severity i = Warning then 1 else 0), n_info := n_info acc + (if i_severity i = Info then 1 else 0)\<rparr>"
  by (cases "i_severity i") (simp_all add: count_issue_def Let_def)

lemma counts: "fold count_issue xs acc = acc\<lparr>n_total := n_total acc + length xs,
    n_critical := n_critical acc + length (filter (\<lambda>i. i_severity i = Critical) xs),
    n_warning := n_warning acc + length (filter (\<lambda>i. i_severity i = Warning) xs),
    n_info := n_info acc + length (filter (\<lambda>i. i_severity i = Info) xs)\<rparr>"
proof (induction xs arbitrary: acc)
  case (Cons x xs)
  show ?case unfolding fold.simps comp_apply Cons.IH by (cases "i_severity x") (simp_all add: count_issue_step)
qed simp

lemma severity_split: "length (filter (\<lambda>i. i_severity i = Critical) xs) + length (filter (\<lambda>i. i_severity i = Warning) xs) +
    length (filter (\<lambda>i. i_severity i = Info) xs) = length xs"
proof (induction xs)
  case (Cons x xs)
  then show ?case by (cases "i_severity x") auto
qed simp

lemma compare_issues_consistent:
  assumes "consistent lc"
  shows "consistent (compare_issues lc)"
  unfolding compare_issues_def
  by (rule lex_consistent [OF difference_consistent lex_consistent [OF difference_consistent
    lex_consistent [OF consistent_on [OF assms] consistent_on [OF assms]]]])

text \<open>
  The dashboard's issues are those the search finds, each as often as the server sent it, the critical first, then warnings, then
  the others; a kind's group holds exactly its issues in that order and each kind has one; the total is the sum of the three counts and
  each counts what is listed, while the last says how many the check found.
\<close>

theorem derived_issues_right:
  assumes "consistent lc"
  shows "(let d = deriveIssues lc issues query; s = issuesSummary d; found = filter (found_by (toLowerCase (trim query))) (map toIssueItem (case_option [] id issues)) in
    (\<forall>P. length (filter P (sortedIssues d)) = length (filter P found)) \<and>
    sorted (map (\<lambda>i. SEVERITY_RANK (i_severity i)) (sortedIssues d)) \<and>
    distinct (kinds d) \<and> set (kinds d) = i_kind ` set found \<and>
    (\<forall>k\<in>set (kinds d). map_of (issuesByKind d) k = Some (filter (\<lambda>i. i_kind i = k) (sortedIssues d))) \<and>
    n_total s = n_critical s + n_warning s + n_info s \<and> n_critical s = length (filter (\<lambda>i. i_severity i = Critical) found) \<and>
    n_warning s = length (filter (\<lambda>i. i_severity i = Warning) found) \<and> n_total s = length found \<and> n_all s = length (case_option [] id issues))"
proof -
  define found where "found = filter (found_by (toLowerCase (trim query))) (map toIssueItem (case_option [] id issues))"
  define xs where "xs = js_sort (compare_issues lc) found"
  have ok: "comparing (compare_issues lc)" using compare_issues_consistent [OF assms] by (simp add: consistent_def)
  have d: "deriveIssues lc issues query = \<lparr>sortedIssues = xs, issuesByKind = fold push_issue xs [], kinds = js_sort (compare_kinds lc) (map fst (fold push_issue xs [])),
      issuesSummary = fold count_issue xs \<lparr>n_total = 0, n_critical = 0, n_warning = 0, n_info = 0, n_all = length (case_option [] id issues)\<rparr>\<rparr>"
    by (simp only: deriveIssues_def Let_def found_def [symmetric] xs_def [symmetric])
  have same: "length (filter P xs) = length (filter P found)" for P by (simp add: xs_def filter_js_sort_length)
  have len: "length xs = length found" by (simp add: xs_def)
  have "sorted_wrt (\<lambda>x y. compare_issues lc x y \<le> 0) xs" unfolding xs_def by (rule comparing.sort_sorted [OF ok])
  then have "sorted_wrt (\<lambda>x y. SEVERITY_RANK (i_severity x) \<le> SEVERITY_RANK (i_severity y)) xs"
    by (rule sorted_wrt_mono_rel [rotated]) (auto simp: compare_issues_def lex_compare_def split: if_splits)
  then have sorted: "sorted (map (\<lambda>i. SEVERITY_RANK (i_severity i)) xs)" by (simp add: sorted_map)
  have keys: "distinct (map fst (fold push_issue xs []))" "set (map fst (fold push_issue xs [])) = i_kind ` set found"
    using keys_push [of "[]" xs] by (simp_all add: xs_def)
  have group: "map_of (fold push_issue xs []) k = Some (filter (\<lambda>i. i_kind i = k) xs)" if "k \<in> i_kind ` set found" for k
  proof -
    have "filter (\<lambda>i. i_kind i = k) xs \<noteq> []" using that by (auto simp: filter_empty_conv xs_def)
    then show ?thesis by (simp add: map_of_push)
  qed
  have kinds: "distinct (js_sort (compare_kinds lc) (map fst (fold push_issue xs [])))" using distinct_js_sort [of id "compare_kinds lc" "map fst (fold push_issue xs [])"] keys(1) by simp
  show ?thesis using same sorted kinds keys(2) group len severity_split [of found]
    by (simp add: Let_def d found_def [symmetric] counts del: set_map)
qed

text \<open>A warning and a critical issue of Pods, searched for nothing.\<close>

definition pod_issue :: "string \<Rightarrow> severity \<Rightarrow> cluster_issue" where
  "pod_issue n s = \<lparr>c_id = n, c_kind = ''Pod'', c_namespace = Some ''web'', c_name = n, c_severity = s, c_reason = Some ''BackOff'', c_message = None,
    c_last_seen = None, c_restarts = Some 3, c_failed = None, c_events = None, c_api_version = None\<rparr>"

theorem derived_issues_right_witness:
  "sorted (map (\<lambda>i. SEVERITY_RANK (i_severity i)) (sortedIssues (deriveIssues (compare_by id) (Some [pod_issue ''a'' Warning, pod_issue ''b'' Critical]) [])))"
  using derived_issues_right [OF compare_by_consistent, of id "Some [pod_issue ''a'' Warning, pod_issue ''b'' Critical]" "[]"] unfolding Let_def by blast

end
