(* ===== verification/Node_Metrics.thy ===== *)
theory Node_Metrics
  imports Prelude
begin

text \<open>
  The PromQL of a node's and of the cluster's values (\<^verbatim>\<open>frontend/src/utils/nodeMetrics.ts\<close>): every query is the one of node-exporter or
  that of the OpenTelemetry Collector's hostmetrics receiver. Texts have code units below 256, as node names and addresses have.
\<close>

section \<open>Selectors\<close>

definition BACKSLASH :: char where
  "BACKSLASH = CHR 0x5C"

definition QUOTE :: char where
  "QUOTE = CHR 0x22"

definition regex_special :: "char \<Rightarrow> bool" where
  "regex_special c \<longleftrightarrow> c \<in> set ''.*+?^${}()|[]'' \<or> c = BACKSLASH"

definition escapeRegex :: "string \<Rightarrow> string" where
  "escapeRegex s = concat (map (\<lambda>c. if regex_special c then [BACKSLASH, c] else [c]) s)"

definition promString :: "string \<Rightarrow> string" where
  "promString s = [QUOTE] @ concat (map (\<lambda>c. if c = BACKSLASH \<or> c = QUOTE then [BACKSLASH, c] else [c]) s) @ [QUOTE]"

definition node_hosts :: "string \<Rightarrow> string list \<Rightarrow> string list" where
  "node_hosts name addresses = filter (\<lambda>h. h \<noteq> []) (uniq (name # addresses))"

definition host_regex :: "string \<Rightarrow> string" where
  "host_regex h = (if CHR '':'' \<in> set h then [BACKSLASH, CHR ''[''] @ escapeRegex h @ [BACKSLASH, CHR '']''] else escapeRegex h)"

definition nodeInstanceSelector :: "string \<Rightarrow> string list \<Rightarrow> string" where
  "nodeInstanceSelector name addresses =
     ''instance=~'' @ promString (''(?:'' @ join ''|'' (map host_regex (node_hosts name addresses)) @ '')(?::[0-9]+)?'')"

definition nodeNameSelector :: "string \<Rightarrow> string" where
  "nodeNameSelector name = ''k8s_node_name='' @ promString name"

definition DISK_EXCLUDE :: string where
  "DISK_EXCLUDE = promString (''(z?ram|loop|fd|(h|s|v|xv)d[a-z]|nvme'' @ [BACKSLASH] @ ''d+n'' @ [BACKSLASH] @ ''d+p)'' @ [BACKSLASH] @ ''d+'')"

section \<open>Queries\<close>

record queries =
  q_cpu :: string
  q_memory :: string
  q_disk_read :: string
  q_disk_write :: string
  q_network_rx :: string
  q_network_tx :: string
  q_load1 :: string
  q_filesystem :: string

text \<open>The matchers that are set, and \<^verbatim>\<open>k="v"\<close>.\<close>

definition m :: "string list \<Rightarrow> string" where
  "m matchers = (let st = filter (\<lambda>x. x \<noteq> []) matchers in if st \<noteq> [] then ''{'' @ join '','' st @ ''}'' else [])"

definition is_value :: "string \<Rightarrow> string \<Rightarrow> string" where
  "is_value k v = k @ ''='' @ [QUOTE] @ v @ [QUOTE]"

definition is_not :: "string \<Rightarrow> string \<Rightarrow> string" where
  "is_not k v = k @ ''!='' @ [QUOTE] @ v @ [QUOTE]"

definition nodeExporter :: "string \<Rightarrow> queries" where
  "nodeExporter sel = \<lparr>
    q_cpu = ''100 - (avg(rate(node_cpu_seconds_total'' @ m [is_value ''mode'' ''idle'', sel] @ ''[5m])) * 100)'',
    q_memory = ''(1 - sum(node_memory_MemAvailable_bytes'' @ m [sel] @ '') / sum(node_memory_MemTotal_bytes'' @ m [sel] @ '')) * 100'',
    q_disk_read = ''sum(rate(node_disk_read_bytes_total'' @ m [sel] @ ''[5m]))'',
    q_disk_write = ''sum(rate(node_disk_written_bytes_total'' @ m [sel] @ ''[5m]))'',
    q_network_rx = ''sum(rate(node_network_receive_bytes_total'' @ m [is_not ''device'' ''lo'', sel] @ ''[5m]))'',
    q_network_tx = ''sum(rate(node_network_transmit_bytes_total'' @ m [is_not ''device'' ''lo'', sel] @ ''[5m]))'',
    q_load1 = ''max(node_load1'' @ m [sel] @ '')'',
    q_filesystem = ''(1 - sum(node_filesystem_avail_bytes'' @ m [is_value ''mountpoint'' ''/'', sel] @ '') / sum(node_filesystem_size_bytes'' @
      m [is_value ''mountpoint'' ''/'', sel] @ '')) * 100''\<rparr>"

definition one :: "string \<Rightarrow> string" where
  "one q = ''max without (otel_scope_name, otel_scope_version) ('' @ q @ '')''"

definition disk :: "string \<Rightarrow> string \<Rightarrow> string" where
  "disk sel dir = ''sum('' @ one (''rate(system_disk_io_bytes_total'' @ m [is_value ''direction'' dir, ''device!~'' @ DISK_EXCLUDE, sel] @ ''[5m])'') @ '')''"

definition net :: "string \<Rightarrow> string \<Rightarrow> string" where
  "net sel dir = ''sum('' @ one (''rate(system_network_io_bytes_total'' @ m [is_value ''direction'' dir, is_not ''device'' ''lo'', sel] @ ''[5m])'') @ '')''"

definition hostmetrics :: "string \<Rightarrow> queries" where
  "hostmetrics sel = \<lparr>
    q_cpu = ''100 * (1 - sum('' @ one (''rate(system_cpu_time_seconds_total'' @ m [is_value ''state'' ''idle'', sel] @ ''[5m])'') @ '') / sum('' @
      one (''system_cpu_logical_count'' @ m [sel]) @ ''))'',
    q_memory = ''100 * sum('' @ one (''system_memory_usage_bytes'' @ m [is_value ''state'' ''used'', sel]) @ '') / sum('' @
      one (''system_memory_limit_bytes'' @ m [sel]) @ '')'',
    q_disk_read = disk sel ''read'',
    q_disk_write = disk sel ''write'',
    q_network_rx = net sel ''receive'',
    q_network_tx = net sel ''transmit'',
    q_load1 = ''max(system_cpu_load_average_1m'' @ m [sel] @ '')'',
    q_filesystem = ''100 * (1 - sum('' @ one (''system_filesystem_usage_bytes'' @ m [is_value ''state'' ''free'', is_value ''mountpoint'' ''/'', sel]) @
      '') / sum('' @ one (''system_filesystem_usage_bytes'' @ m [is_value ''mountpoint'' ''/'', sel]) @ ''))''\<rparr>"

definition either_query :: "string \<Rightarrow> string \<Rightarrow> string" where
  "either_query a b = ''('' @ a @ '') or ('' @ b @ '')''"

definition either :: "queries \<Rightarrow> queries \<Rightarrow> queries" where
  "either a b = \<lparr>q_cpu = either_query (q_cpu a) (q_cpu b), q_memory = either_query (q_memory a) (q_memory b),
    q_disk_read = either_query (q_disk_read a) (q_disk_read b), q_disk_write = either_query (q_disk_write a) (q_disk_write b),
    q_network_rx = either_query (q_network_rx a) (q_network_rx b), q_network_tx = either_query (q_network_tx a) (q_network_tx b),
    q_load1 = either_query (q_load1 a) (q_load1 b), q_filesystem = either_query (q_filesystem a) (q_filesystem b)\<rparr>"

definition nodeQueries :: "string \<Rightarrow> string list \<Rightarrow> queries" where
  "nodeQueries name addresses = either (nodeExporter (nodeInstanceSelector name addresses)) (hostmetrics (nodeNameSelector name))"

text \<open>The processor, memory and file systems of all nodes.\<close>

definition clusterNodeQueries :: "string \<times> string \<times> string" where
  "clusterNodeQueries = (let q = either (nodeExporter []) (hostmetrics []) in (q_cpu q, q_memory q, q_filesystem q))"

section \<open>A selector names its node\<close>

text \<open>
  How Prometheus reads a quoted text: a backslash before a backslash or a quote stands for that, any other is refused here. And how a
  regular expression of alternatives of letters is read: an escaped special letter is itself, a bar ends an alternative, any other
  special letter is refused.
\<close>

fun read_quoted :: "string \<Rightarrow> (string \<times> string) option" where
  "read_quoted [] = None"
| "read_quoted (c # s) =
     (if c = QUOTE then Some ([], s)
      else if c = BACKSLASH then
        (case s of [] \<Rightarrow> None
         | d # s' \<Rightarrow> if d = BACKSLASH \<or> d = QUOTE then map_option (\<lambda>(a, r). (d # a, r)) (read_quoted s') else None)
      else map_option (\<lambda>(a, r). (c # a, r)) (read_quoted s))"

definition unquote :: "string \<Rightarrow> (string \<times> string) option" where
  "unquote s = (case s of c # r \<Rightarrow> if c = QUOTE then read_quoted r else None | [] \<Rightarrow> None)"

fun read_alternatives :: "string \<Rightarrow> string list option" where
  "read_alternatives [] = Some [[]]"
| "read_alternatives (c # s) =
     (if c = CHR ''|'' then map_option (Cons []) (read_alternatives s)
      else if c = BACKSLASH then
        (case s of [] \<Rightarrow> None
         | d # s' \<Rightarrow> map_option (\<lambda>ws. case ws of [] \<Rightarrow> [] | w # ws \<Rightarrow> (d # w) # ws) (read_alternatives s'))
      else if regex_special c then None
      else map_option (\<lambda>ws. case ws of [] \<Rightarrow> [] | w # ws \<Rightarrow> (c # w) # ws) (read_alternatives s))"

lemma unquote_promString: "unquote (promString s @ r) = Some (s, r)"
proof -
  have "read_quoted (concat (map (\<lambda>c. if c = BACKSLASH \<or> c = QUOTE then [BACKSLASH, c] else [c]) s) @ QUOTE # r) = Some (s, r)"
    by (induction s) (auto simp: BACKSLASH_def QUOTE_def)
  then show ?thesis by (simp add: unquote_def promString_def)
qed

lemma read_escaped: "read_alternatives (escapeRegex w @ s) = map_option (\<lambda>ws. case ws of [] \<Rightarrow> [] | v # vs \<Rightarrow> (w @ v) # vs) (read_alternatives s)"
proof (induction w)
  case Nil
  then show ?case by (cases "read_alternatives s") (auto simp: escapeRegex_def split: list.split)
next
  case (Cons c w)
  have step: "escapeRegex (c # w) = (if regex_special c then [BACKSLASH, c] else [c]) @ escapeRegex w" by (simp add: escapeRegex_def)
  have bar: "regex_special (CHR ''|'')" "regex_special BACKSLASH" "BACKSLASH \<noteq> CHR ''|''" by (auto simp: regex_special_def BACKSLASH_def)
  show ?case unfolding step using Cons.IH bar by (cases "read_alternatives s") (auto split: list.split)
qed

definition host_name :: "string \<Rightarrow> string" where
  "host_name h = (if CHR '':'' \<in> set h then ''['' @ h @ '']'' else h)"

lemma read_host: "read_alternatives (host_regex h @ s) = map_option (\<lambda>ws. case ws of [] \<Rightarrow> [] | v # vs \<Rightarrow> (host_name h @ v) # vs) (read_alternatives s)"
proof -
  have b: "BACKSLASH \<noteq> CHR ''|''" by (simp add: BACKSLASH_def)
  show ?thesis using b by (cases "read_alternatives s") (auto simp: host_regex_def host_name_def read_escaped split: list.split)
qed

lemma read_hosts: "hs \<noteq> [] \<Longrightarrow> read_alternatives (join ''|'' (map host_regex hs)) = Some (map host_name hs)"
proof (induction hs rule: induct_list012)
  case (2 h)
  then show ?case using read_host [of h "[]"] by simp
next
  case (3 h h' hs)
  then show ?case by (simp add: read_host)
qed simp



end
