(* ===== verification/Infer_Types.thy ===== *)
theory Infer_Types
  imports Prelude
begin

text \<open>
  The types the search editor offers of the objects it has read (\<^verbatim>\<open>frontend/src/components/search/inferTypes.ts\<close>): every value is counted
  into a tree of nodes, and the tree is written as TypeScript declarations. A node is reached from one place only, so that a mutated node
  is a node returned; a \<^verbatim>\<open>Set\<close> is a distinct list and a \<^verbatim>\<open>Map\<close> an association list, in insertion order (the keys of an object are taken in
  the order of its list; JavaScript puts a key that is an array index first, which only moves nodes that are written sorted).
\<close>

section \<open>Nodes\<close>

definition MAX_STRING_LITERALS :: nat where
  "MAX_STRING_LITERALS = 200"

definition MAX_STRING_LITERAL_LENGTH :: nat where
  "MAX_STRING_LITERAL_LENGTH = 20"

record type_info =
  primitiveTypes :: "string list"
  stringLiterals :: "string list"
  hasStringType :: bool
  isArray :: bool
  isObject :: bool
  presenceCount :: nat
  parentObjectCount :: nat

datatype type_node = TypeNode (node_info: type_info) (arrayElementInfo: "type_node option") (objectProperties: "(string \<times> type_node) list")

definition createTypeInfoNode :: type_node where
  "createTypeInfoNode = TypeNode \<lparr>primitiveTypes = [], stringLiterals = [], hasStringType = False, isArray = False, isObject = False,
     presenceCount = 0, parentObjectCount = 0\<rparr> None []"

text \<open>The node of a place that may have none yet.\<close>

definition node_or_new :: "type_node option \<Rightarrow> type_node" where
  "node_or_new t = (case t of None \<Rightarrow> createTypeInfoNode | Some t \<Rightarrow> t)"

definition set_parents :: "nat \<Rightarrow> type_node \<Rightarrow> type_node" where
  "set_parents n t = TypeNode (node_info t\<lparr>parentObjectCount := n\<rparr>) (arrayElementInfo t) (objectProperties t)"

text \<open>The two counts, and the types of a value that is neither array nor object.\<close>

definition count_value :: "nat \<Rightarrow> type_info \<Rightarrow> type_info" where
  "count_value parents i = i\<lparr>presenceCount := presenceCount i + 1, parentObjectCount := parents\<rparr>"

definition add_type :: "string \<Rightarrow> type_info \<Rightarrow> type_info" where
  "add_type t i = i\<lparr>primitiveTypes := set_add t (primitiveTypes i)\<rparr>"

definition add_literal :: "string \<Rightarrow> string list \<Rightarrow> string list" where
  "add_literal s lits =
     (if length lits < MAX_STRING_LITERALS then (if length s < MAX_STRING_LITERAL_LENGTH then set_add s lits else lits) else [])"

definition add_text :: "string \<Rightarrow> type_info \<Rightarrow> type_info" where
  "add_text s i = (let i' = add_type ''string'' (i\<lparr>hasStringType := True\<rparr>) in i'\<lparr>stringLiterals := add_literal s (stringLiterals i')\<rparr>)"

text \<open>The properties an object did not have.\<close>

definition absent_props :: "string list \<Rightarrow> nat \<Rightarrow> (string \<times> type_node) list \<Rightarrow> (string \<times> type_node) list" where
  "absent_props keys n ps = map (\<lambda>(k, t). (k, if k \<in> set keys then t else set_parents n t)) ps"

fun aggregateTypeInfo :: "jval \<Rightarrow> type_node \<Rightarrow> nat \<Rightarrow> type_node"
and elements_into :: "jval list \<Rightarrow> type_node \<Rightarrow> nat \<Rightarrow> type_node"
and props_into :: "(string \<times> jval) list \<Rightarrow> (string \<times> type_node) list \<Rightarrow> nat \<Rightarrow> (string \<times> type_node) list" where
  "aggregateTypeInfo JUndef (TypeNode i el ps) n = TypeNode (count_value n i) el ps"
| "aggregateTypeInfo JNull (TypeNode i el ps) n = TypeNode (add_type ''null'' (count_value n i)) el ps"
| "aggregateTypeInfo (JBool b) (TypeNode i el ps) n = TypeNode (add_type ''boolean'' (count_value n i)) el ps"
| "aggregateTypeInfo (JNum x) (TypeNode i el ps) n = TypeNode (add_type ''number'' (count_value n i)) el ps"
| "aggregateTypeInfo JNaN (TypeNode i el ps) n = TypeNode (add_type ''number'' (count_value n i)) el ps"
| "aggregateTypeInfo (JStr s) (TypeNode i el ps) n = TypeNode (add_text s (count_value n i)) el ps"
| "aggregateTypeInfo (JArr vs) (TypeNode i el ps) n =
     (let i' = (count_value n i)\<lparr>isArray := True\<rparr>; c = presenceCount i' in
      TypeNode i' (Some (set_parents c (elements_into vs (node_or_new el) c))) ps)"
| "aggregateTypeInfo (JObj kvs) (TypeNode i el ps) n =
     (let i' = (count_value n i)\<lparr>isObject := True\<rparr>; c = presenceCount i' in
      TypeNode i' el (absent_props (map fst kvs) c (props_into kvs ps c)))"
| "elements_into [] t n = t"
| "elements_into (v # vs) t n = elements_into vs (aggregateTypeInfo v t n) n"
| "props_into [] ps n = ps"
| "props_into ((k, v) # kvs) ps n = props_into kvs (AList.update k (aggregateTypeInfo v (node_or_new (map_of ps k)) n) ps) n"

section \<open>Declarations\<close>

text \<open>\<^verbatim>\<open>/^[a-zA-Z_$][a-zA-Z0-9_$]*$/\<close>\<close>

definition letter :: "char \<Rightarrow> bool" where
  "letter c \<longleftrightarrow> (CHR ''a'' \<le> c \<and> c \<le> CHR ''z'') \<or> (CHR ''A'' \<le> c \<and> c \<le> CHR ''Z'') \<or> c = CHR ''_'' \<or> c = CHR ''$''"

definition validIdentifier :: "string \<Rightarrow> bool" where
  "validIdentifier s = (case s of [] \<Rightarrow> False | c # r \<Rightarrow> letter c \<and> (\<forall>d\<in>set r. letter d \<or> (CHR ''0'' \<le> d \<and> d \<le> CHR ''9'')))"

definition QUOTE_MARK :: char where
  "QUOTE_MARK = CHR 0x22"

definition quoted_literal :: "string \<Rightarrow> string" where
  "quoted_literal s = [QUOTE_MARK] @ concat (map (\<lambda>c. if c = CHR 0x5C \<or> c = QUOTE_MARK then [CHR 0x5C, c] else [c]) s) @ [QUOTE_MARK]"

definition isOptional :: "type_node \<Rightarrow> bool" where
  "isOptional t \<longleftrightarrow> 0 < parentObjectCount (node_info t) \<and> presenceCount (node_info t) < parentObjectCount (node_info t)"

definition primitive_texts :: "type_info \<Rightarrow> string list" where
  "primitive_texts i = filter (\<lambda>t. t \<noteq> ''string'') (primitiveTypes i) @
     (if hasStringType i then
        (if 0 < length (stringLiterals i) \<and> length (stringLiterals i) < MAX_STRING_LITERALS then map quoted_literal (stringLiterals i)
         else [''string''])
      else [])"

definition said_something :: "type_node \<Rightarrow> bool" where
  "said_something e \<longleftrightarrow> 0 < presenceCount (node_info e) \<or> primitiveTypes (node_info e) \<noteq> [] \<or> stringLiterals (node_info e) \<noteq> [] \<or>
     isObject (node_info e) \<or> isArray (node_info e)"

definition array_text :: "string \<Rightarrow> string" where
  "array_text s = (if CHR ''|'' \<in> set s \<or> startsWith s ''{'' \<or> CHR ''&'' \<in> set s then ''('' @ s @ '')[]'' else s @ ''[]'')"

definition union_text :: "string list \<Rightarrow> string" where
  "union_text ts = (case ts of [] \<Rightarrow> ''any'' | [t] \<Rightarrow> t | _ \<Rightarrow> join '' | '' (sort ts))"

definition LF :: string where
  "LF = [CHR 0x0A]"

lemma prop_smaller: "(k, t) \<in> set ps \<Longrightarrow> size t < Suc (n + size_list (size_prod (\<lambda>_. 0) size) ps)"
  by (induction ps) auto

function generateTypeString :: "type_node \<Rightarrow> string \<Rightarrow> nat \<Rightarrow> string" where
  "generateTypeString (TypeNode i el ps) indentation maxKeys =
     (let deeper = indentation @ ''  '';
          lines = map (\<lambda>(k, t). deeper @ (if validIdentifier k then k else [QUOTE_MARK] @ k @ [QUOTE_MARK]) @ (if isOptional t then ''?'' else []) @
            '': '' @ generateTypeString t deeper maxKeys @ '';'') (sort_key fst ps);
          objects =
            (if isObject i \<and> 0 < length ps \<and> length ps < maxKeys then [''{'' @ LF @ join LF lines @ LF @ indentation @ ''}'']
             else if isObject i then [''Record<string, any>''] else []);
          arrays =
            (if isArray i then
               [case el of None \<Rightarrow> ''any[]''
                | Some e \<Rightarrow> if said_something e then array_text (generateTypeString e indentation 25) else ''any[]'']
             else [])
      in union_text (primitive_texts i @ objects @ arrays))"
  by pat_completeness auto

termination
  by (relation "measure (\<lambda>(t, _, _). size t)") (auto dest: prop_smaller)

declare generateTypeString.simps [simp del]

text \<open>\<^verbatim>\<open>typeof obj === 'object' && obj !== null && !Array.isArray(obj)\<close>: the objects of which properties are read.\<close>

fun record_props :: "jval \<Rightarrow> (string \<times> jval) list option" where
  "record_props (JObj kvs) = Some kvs"
| "record_props _ = None"

definition top_nodes :: "jval list \<Rightarrow> (string \<times> type_node) list" where
  "top_nodes objs = fold (\<lambda>ob ps. case record_props ob of None \<Rightarrow> ps | Some kvs \<Rightarrow> props_into kvs ps 1) objs []"

definition validObjectCount :: "jval list \<Rightarrow> nat" where
  "validObjectCount objs = length (filter (\<lambda>ob. record_props ob \<noteq> None) objs)"

definition declaration_of :: "nat \<Rightarrow> string \<times> type_node \<Rightarrow> string list" where
  "declaration_of maxKeys = (\<lambda>(k, t).
     if validIdentifier k then
       (let t' = set_parents (presenceCount (node_info t)) t; s = generateTypeString t' [] maxKeys in
        if s \<noteq> ''any'' \<or> 0 < presenceCount (node_info t') then [''declare var '' @ k @ '': '' @ s @ '';''] else [])
     else [])"

definition generateGlobalVarDeclarations :: "jval list \<Rightarrow> nat option \<Rightarrow> string" where
  "generateGlobalVarDeclarations objs maxKeysPerObject =
     (if objs = [] \<or> validObjectCount objs = 0 then []
      else join (LF @ LF) (concat (map (declaration_of (case maxKeysPerObject of None \<Rightarrow> 25 | Some n \<Rightarrow> n)) (sort_key fst (top_nodes objs)))))"

section \<open>A node describes the values it has counted\<close>

text \<open>What a value adds to the primitive types, and the values objects have at a key.\<close>

fun primitive :: "jval \<Rightarrow> string set" where
  "primitive JNull = {''null''}"
| "primitive (JBool _) = {''boolean''}"
| "primitive (JNum _) = {''number''}"
| "primitive JNaN = {''number''}"
| "primitive (JStr _) = {''string''}"
| "primitive _ = {}"

definition values_at :: "string \<Rightarrow> jval list \<Rightarrow> jval list" where
  "values_at k vs = List.map_filter (\<lambda>v. map_of (props v) k) vs"

definition keys_of :: "jval list \<Rightarrow> string set" where
  "keys_of vs = (\<Union>v\<in>set vs. fst ` set (props v))"

definition is_record :: "jval \<Rightarrow> bool" where
  "is_record v \<longleftrightarrow> record_props v \<noteq> None"

text \<open>How many of the values there were when the last object came.\<close>

definition last_object :: "jval list \<Rightarrow> nat" where
  "last_object vs = length (dropWhile (\<lambda>v. \<not> is_record v) (rev vs))"

definition info_describes :: "type_info \<Rightarrow> jval list \<Rightarrow> bool" where
  "info_describes i vs \<longleftrightarrow> presenceCount i = length vs \<and> set (primitiveTypes i) = (\<Union>v\<in>set vs. primitive v) \<and>
     (hasStringType i \<longleftrightarrow> (\<exists>s. JStr s \<in> set vs)) \<and> (isArray i \<longleftrightarrow> (\<exists>xs. JArr xs \<in> set vs)) \<and> (isObject i \<longleftrightarrow> (\<exists>v\<in>set vs. is_record v))"

function describes :: "type_node \<Rightarrow> jval list \<Rightarrow> bool" where
  "describes (TypeNode i el ps) vs \<longleftrightarrow> info_describes i vs \<and>
     (case el of None \<Rightarrow> \<not> isArray i | Some e \<Rightarrow> isArray i \<and> describes e (concat (map elems vs))) \<and>
     distinct (map fst ps) \<and> fst ` set ps = keys_of vs \<and>
     (\<forall>(k, t)\<in>set ps. parentObjectCount (node_info t) = last_object vs \<and> describes t (values_at k vs))"
  by pat_completeness auto

termination
  by (relation "measure (\<lambda>(t, _). size t)") (auto dest: prop_smaller)

declare describes.simps [simp del]

lemma describes_new: "describes createTypeInfoNode []"
  by (simp add: createTypeInfoNode_def describes.simps info_describes_def keys_of_def)

lemma describes_set_parents [simp]: "describes (set_parents n t) vs \<longleftrightarrow> describes t vs"
  by (cases t) (simp add: set_parents_def describes.simps info_describes_def split: option.split)

lemma describes_node_or_new: "describes (node_or_new None) []" "node_or_new (Some t) = t"
  by (simp_all add: node_or_new_def describes_new)

text \<open>A value as JSON has them: no key twice in an object, no undefined.\<close>

fun plain :: "jval \<Rightarrow> bool" where
  "plain JUndef = False"
| "plain (JArr vs) = (\<forall>v\<in>set vs. plain v)"
| "plain (JObj kvs) = (distinct (map fst kvs) \<and> (\<forall>kv\<in>set kvs. plain (snd kv)))"
| "plain _ = True"

lemma last_object_snoc [simp]: "last_object (vs @ [v]) = (if is_record v then Suc (length vs) else last_object vs)"
  by (simp add: last_object_def)

lemma is_record_simps [simp]: "is_record (JObj kvs)" "\<not> is_record JUndef" "\<not> is_record JNull" "\<not> is_record (JBool b)" "\<not> is_record (JNum n)"
  "\<not> is_record JNaN" "\<not> is_record (JStr s)" "\<not> is_record (JArr xs)"
  by (simp_all add: is_record_def)

lemma not_record_props: "\<not> is_record v \<Longrightarrow> props v = []"
  by (cases v) auto

lemma values_at_snoc: "values_at k (vs @ [v]) = values_at k vs @ (case map_of (props v) k of None \<Rightarrow> [] | Some x \<Rightarrow> [x])"
  by (simp add: values_at_def map_filter_simps List.map_filter_def split: option.split)

lemma keys_of_snoc: "keys_of (vs @ [v]) = fst ` set (props v) \<union> keys_of vs"
  by (simp add: keys_of_def)

lemma values_at_absent: "k \<notin> keys_of vs \<Longrightarrow> values_at k vs = []"
  unfolding keys_of_def by (induction vs) (auto simp: values_at_def map_filter_simps map_of_eq_None_iff split: option.split)

lemma parents_aggregate: "parentObjectCount (node_info (aggregateTypeInfo v t n)) = n"
  by (cases v; cases t) (simp_all add: add_type_def add_text_def count_value_def Let_def)

lemma describes_info: "describes (TypeNode i el ps) vs \<Longrightarrow> info_describes i vs"
  by (simp add: describes.simps)

lemma describes_flat:
  assumes "describes (TypeNode i el ps) vs" "info_describes i vs \<Longrightarrow> info_describes i' (vs @ [v])" "\<not> is_record v" "\<not> is_array v"
  shows "describes (TypeNode i' el ps) (vs @ [v])"
proof -
  have "info_describes i vs" "info_describes i' (vs @ [v])" using assms(1,2) describes_info by blast+
  then show ?thesis using assms by (cases v) (auto simp: describes.simps info_describes_def keys_of_snoc values_at_snoc split: option.splits)
qed

lemma map_of_update: "map_of (AList.update k x ps) k' = (if k' = k then Some x else map_of ps k')"
  by (simp add: update_conv')

lemma keys_props_into:
  "distinct (map fst ps) \<Longrightarrow> distinct (map fst (props_into kvs ps n)) \<and> fst ` set (props_into kvs ps n) = fst ` set ps \<union> fst ` set kvs"
proof (induction kvs arbitrary: ps)
  case (Cons kv kvs)
  obtain k v where kv: "kv = (k, v)" by (cases kv)
  let ?ps = "AList.update k (aggregateTypeInfo v (node_or_new (map_of ps k)) n) ps"
  have "fst ` set ?ps = insert k (fst ` set ps)" using fst_AList_update [of k "aggregateTypeInfo v (node_or_new (map_of ps k)) n" ps]
    by (simp flip: set_map) (auto simp: insert_absorb)
  then show ?case using Cons.IH [of ?ps] Cons.prems by (simp add: kv distinct_update)
qed simp

lemma map_of_props_into_other: "k \<notin> fst ` set kvs \<Longrightarrow> map_of (props_into kvs ps n) k = map_of ps k"
  by (induction kvs arbitrary: ps) (auto simp: map_of_update)

lemma keys_absent_props [simp]: "map fst (absent_props keys n ps) = map fst ps" "fst ` set (absent_props keys n ps) = fst ` set ps"
  by (force simp: absent_props_def)+

lemma set_parents_info [simp]: "parentObjectCount (node_info (set_parents n t)) = n"
  by (simp add: set_parents_def)

lemma not_array_elems: "(\<forall>xs. JArr xs \<noteq> v) \<Longrightarrow> elems v = []"
  by (cases v) auto

lemma no_elems: "(\<forall>xs. JArr xs \<notin> set vs) \<Longrightarrow> concat (map elems vs) = []"
  by (induction vs) (auto intro: not_array_elems)

lemma element_describes: "describes (TypeNode i el ps) vs \<Longrightarrow> describes (node_or_new el) (concat (map elems vs))"
  by (cases el) (auto simp: describes.simps info_describes_def describes_node_or_new no_elems)

lemma prop_describes: "describes (TypeNode i el ps) vs \<Longrightarrow> describes (node_or_new (map_of ps k)) (values_at k vs)"
proof (cases "map_of ps k")
  case None
  assume d: "describes (TypeNode i el ps) vs"
  have "k \<notin> keys_of vs" using d None by (simp add: describes.simps map_of_eq_None_iff)
  then show ?thesis by (simp add: None values_at_absent describes_node_or_new)
next
  case (Some t)
  assume d: "describes (TypeNode i el ps) vs"
  then show ?thesis using map_of_SomeD [OF Some] by (auto simp: Some describes_node_or_new describes.simps)
qed

lemma object_describes:
  assumes "describes (TypeNode i el ps) vs" "distinct (map fst kvs)" "c = Suc (length vs)"
    and new: "\<forall>(k, v)\<in>set kvs. \<exists>t. map_of (props_into kvs ps c) k = Some t \<and> parentObjectCount (node_info t) = c \<and> describes t (values_at k vs @ [v])"
    and info: "info_describes i' (vs @ [JObj kvs])" "isArray i' = isArray i"
  shows "describes (TypeNode i' el (absent_props (map fst kvs) c (props_into kvs ps c))) (vs @ [JObj kvs])"
proof -
  have old: "distinct (map fst ps)" "fst ` set ps = keys_of vs" "\<forall>(k, t)\<in>set ps. describes t (values_at k vs)"
    using assms(1) by (auto simp: describes.simps)
  note keys = keys_props_into [OF old(1), of kvs c]
  have entry: "parentObjectCount (node_info t) = c \<and> describes t (values_at k (vs @ [JObj kvs]))"
    if kt: "(k, t) \<in> set (absent_props (map fst kvs) c (props_into kvs ps c))" for k t
  proof -
    obtain t0 where t0: "(k, t0) \<in> set (props_into kvs ps c)" "t = (if k \<in> fst ` set kvs then t0 else set_parents c t0)"
      using kt by (auto simp: absent_props_def)
    then have m: "map_of (props_into kvs ps c) k = Some t0" using keys by simp
    show ?thesis
    proof (cases "k \<in> fst ` set kvs")
      case True
      then obtain v where v: "(k, v) \<in> set kvs" by auto
      then show ?thesis using new m t0(2) True assms(2) by (auto simp: values_at_snoc)
    next
      case False
      then have "(k, t0) \<in> set ps" using m by (simp add: map_of_props_into_other map_of_SomeD)
      moreover have "map_of kvs k = None" using False by (simp add: map_of_eq_None_iff)
      ultimately show ?thesis using old(3) t0(2) False by (auto simp: values_at_snoc)
    qed
  qed
  show ?thesis using assms(1,3) info keys entry old(2) by (auto simp: describes.simps keys_of_snoc split: option.splits)
qed

lemma aggregate_describes:
  "plain v \<Longrightarrow> describes t vs \<Longrightarrow> describes (aggregateTypeInfo v t n) (vs @ [v])"
  "(\<forall>u\<in>set us. plain u) \<Longrightarrow> describes t vs \<Longrightarrow> describes (elements_into us t n) (vs @ us)"
  "distinct (map fst kvs) \<Longrightarrow> (\<forall>kv\<in>set kvs. plain (snd kv)) \<Longrightarrow> (\<forall>k\<in>fst ` set kvs. describes (node_or_new (map_of ps k)) (seen k)) \<Longrightarrow>
     \<forall>(k, v)\<in>set kvs. \<exists>t. map_of (props_into kvs ps n) k = Some t \<and> parentObjectCount (node_info t) = n \<and> describes t (seen k @ [v])"
proof (induction v t n and us t n and kvs ps n arbitrary: vs and vs and seen rule: aggregateTypeInfo_elements_into_props_into.induct)
  case (7 us i el ps n)
  have e: "describes (elements_into us (node_or_new el) (Suc (presenceCount i))) (concat (map elems vs) @ us)"
    using 7 element_describes [OF 7(3)] by (simp add: count_value_def)
  show ?case using 7(3) e
    by (auto simp: Let_def count_value_def describes.simps info_describes_def keys_of_snoc values_at_snoc)
next
  case (8 kvs i el ps n)
  have c: "presenceCount i = length vs" using 8(3) by (simp add: describes.simps info_describes_def)
  have new: "\<forall>(k, v)\<in>set kvs. \<exists>t. map_of (props_into kvs ps (Suc (length vs))) k = Some t \<and> parentObjectCount (node_info t) = Suc (length vs) \<and>
      describes t (values_at k vs @ [v])"
    using 8(1) [OF refl refl, of "\<lambda>k. values_at k vs"] 8(2) prop_describes [OF 8(3)] c by (simp add: count_value_def)
  have "info_describes ((count_value n i)\<lparr>isObject := True\<rparr>) (vs @ [JObj kvs])"
    using 8(3) by (auto simp: describes.simps info_describes_def count_value_def)
  then show ?case using object_describes [OF 8(3) _ refl new, of "(count_value n i)\<lparr>isObject := True\<rparr>"] 8(2) c
    by (simp add: Let_def count_value_def)
next
  case (10 v us t n)
  then show ?case by simp (metis append.assoc append_Cons append_Nil)
next
  case (12 k v kvs ps n)
  let ?a = "aggregateTypeInfo v (node_or_new (map_of ps k)) n"
  have k: "k \<notin> fst ` set kvs" using 12(3) by simp
  have a: "describes ?a (seen k @ [v])" using 12 by simp
  have rest: "\<forall>(k', v)\<in>set kvs. \<exists>t. map_of (props_into kvs (AList.update k ?a ps) n) k' = Some t \<and> parentObjectCount (node_info t) = n \<and> describes t (seen k' @ [v])"
    using 12 k by (intro 12(2)) (auto simp: map_of_update)
  show ?case using a rest by (simp add: map_of_props_into_other [OF k] map_of_update parents_aggregate)
qed (auto intro!: describes_flat simp: info_describes_def count_value_def add_type_def add_text_def Let_def)

section \<open>A type admits what it was made of\<close>

text \<open>
  How a written type reads a value. A text belongs to it where a text was seen (the listed texts are another matter, below); an object may
  have no keys but those listed, and lacks only keys written with a question mark.
\<close>

function admits :: "type_node \<Rightarrow> jval \<Rightarrow> bool" where
  "admits (TypeNode i el ps) v \<longleftrightarrow>
     (case v of
        JUndef \<Rightarrow> False
      | JStr s \<Rightarrow> hasStringType i
      | JArr xs \<Rightarrow> isArray i \<and> (case el of None \<Rightarrow> xs = [] | Some e \<Rightarrow> \<forall>x\<in>set xs. admits e x)
      | JObj kvs \<Rightarrow> isObject i \<and> fst ` set kvs \<subseteq> fst ` set ps \<and>
          (\<forall>(k, t)\<in>set ps. case map_of kvs k of None \<Rightarrow> isOptional t | Some x \<Rightarrow> admits t x)
      | _ \<Rightarrow> primitive v \<subseteq> set (primitiveTypes i))"
  by pat_completeness auto

termination
  by (relation "measure (\<lambda>(t, _). size t)") (auto dest: prop_smaller)

declare admits.simps [simp del]

lemma values_at_mem: "v \<in> set vs \<Longrightarrow> map_of (props v) k = Some x \<Longrightarrow> x \<in> set (values_at k vs)"
  by (induction vs) (auto simp: values_at_def map_filter_simps split: option.split)

text \<open>A key that some object lacks has been counted less often than there are values up to the last object.\<close>

lemma last_object_counts: "length (filter is_record vs) \<le> last_object vs"
  by (induction vs rule: rev_induct) (auto simp: last_object_def)

lemma values_at_plain: "v \<in> set (values_at k vs) \<Longrightarrow> \<forall>ob\<in>set vs. plain ob \<Longrightarrow> plain v"
proof (induction vs)
  case (Cons ob vs)
  have "plain x" if "map_of (props ob) k = Some x" for x
    using that Cons.prems(2) map_of_SomeD [OF that] by (cases ob) force+
  then show ?case using Cons by (auto simp: values_at_def map_filter_simps split: option.splits)
qed (simp add: values_at_def)

lemma values_at_length: "length (values_at k vs) = length (filter (\<lambda>v. map_of (props v) k \<noteq> None) vs)"
  by (induction vs) (auto simp: values_at_def map_filter_simps split: option.splits)

lemma lacking_fewer:
  assumes "v \<in> set vs" "is_record v" "map_of (props v) k = None"
  shows "length (values_at k vs) < last_object vs"
proof -
  have "filter (\<lambda>v. map_of (props v) k \<noteq> None) vs = filter (\<lambda>v. map_of (props v) k \<noteq> None) (filter is_record vs)"
    by (auto intro!: filter_cong simp: not_record_props split: if_splits) (metis map_of.simps(1) not_record_props option.distinct(1))
  moreover have "length (filter (\<lambda>v. map_of (props v) k \<noteq> None) (filter is_record vs)) < length (filter is_record vs)"
    using assms by (intro length_filter_less [of v]) auto
  ultimately show ?thesis using last_object_counts [of vs] by (simp add: values_at_length)
qed

lemma described_admits: "describes t vs \<Longrightarrow> v \<in> set vs \<Longrightarrow> plain v \<Longrightarrow> admits t v"
proof (induction t v arbitrary: vs rule: admits.induct)
  case (1 i el ps v)
  note d = 1(3) [unfolded describes.simps info_describes_def]
  have prim: "primitive v \<subseteq> set (primitiveTypes i)" using d 1(4) by (elim conjE) (simp add: UN_upper)
  have said: "hasStringType i" if "v = JStr s" for s using d 1(4) that by blast
  show ?case
  proof (cases v)
    case (JArr xs)
    then obtain e where e: "el = Some e" "describes e (concat (map elems vs))" "isArray i" using d 1(4) by (auto split: option.splits)
    have "admits e x" if "x \<in> set xs" for x
    proof (rule 1(1) [OF JArr e(1) that e(2)])
      show "x \<in> set (concat (map elems vs))" using 1(4) JArr that by force
      show "plain x" using 1(5) JArr that by simp
    qed
    then show ?thesis using e(1,3) JArr by (simp add: admits.simps)
  next
    case (JObj kvs)
    have r: "is_record v" by (simp add: JObj)
    have "fst ` set (props v) \<subseteq> keys_of vs" using 1(4) unfolding keys_of_def by (rule UN_upper)
    moreover have "fst ` set ps = keys_of vs" using d by (elim conjE)
    ultimately have keys: "fst ` set kvs \<subseteq> fst ` set ps" using JObj by simp
    have "case map_of kvs k of None \<Rightarrow> isOptional t | Some x \<Rightarrow> admits t x" if kt: "(k, t) \<in> set ps" for k t
    proof (cases "map_of kvs k")
      case None
      have t: "parentObjectCount (node_info t) = last_object vs" "describes t (values_at k vs)" using d kt by auto
      then have "presenceCount (node_info t) = length (values_at k vs)" by (cases t) (auto simp: describes.simps info_describes_def)
      then show ?thesis using lacking_fewer [OF 1(4) r, of k] t(1) None by (simp add: isOptional_def JObj)
    next
      case (Some x)
      have "describes t (values_at k vs)" using d kt by auto
      moreover have "x \<in> set (values_at k vs)" using values_at_mem [OF 1(4), of k x] Some JObj by simp
      moreover have "plain x" using 1(5) JObj map_of_SomeD [OF Some] by force
      ultimately show ?thesis using 1(2) [OF JObj kt refl Some] Some by simp
    qed
    moreover have "isObject i" using d 1(4) r by blast
    ultimately show ?thesis using keys JObj by (auto simp: admits.simps)
  qed (use prim said 1(5) in \<open>auto simp: admits.simps\<close>)
qed

section \<open>The declarations\<close>

lemma record_props_Some: "record_props v = Some kvs \<longleftrightarrow> v = JObj kvs"
  by (cases v) auto

lemma top_nodes_snoc: "top_nodes (objs @ [v]) = (case record_props v of None \<Rightarrow> top_nodes objs | Some kvs \<Rightarrow> props_into kvs (top_nodes objs) 1)"
  by (simp add: top_nodes_def split: option.split)

lemma no_record_props: "record_props v = None \<Longrightarrow> props v = []"
  by (cases v) auto

lemma top_nodes_describe:
  "\<forall>v\<in>set objs. plain v \<Longrightarrow> distinct (map fst (top_nodes objs)) \<and> fst ` set (top_nodes objs) = keys_of objs \<and>
     (\<forall>(k, t)\<in>set (top_nodes objs). describes t (values_at k objs))"
proof (induction objs rule: rev_induct)
  case Nil
  then show ?case by (simp add: top_nodes_def keys_of_def)
next
  case (snoc v objs)
  have IH: "distinct (map fst (top_nodes objs))" "fst ` set (top_nodes objs) = keys_of objs" "\<forall>(k, t)\<in>set (top_nodes objs). describes t (values_at k objs)"
    using snoc by auto
  show ?case
  proof (cases "record_props v")
    case None
    then show ?thesis using IH no_record_props [OF None] by (simp add: top_nodes_snoc keys_of_snoc values_at_snoc)
  next
    case (Some kvs)
    then have v: "v = JObj kvs" by (simp add: record_props_Some)
    have kvs: "distinct (map fst kvs)" "\<forall>kv\<in>set kvs. plain (snd kv)" using snoc.prems v by auto
    have old: "\<forall>k\<in>fst ` set kvs. describes (node_or_new (map_of (top_nodes objs) k)) (values_at k objs)"
    proof
      fix k
      show "describes (node_or_new (map_of (top_nodes objs) k)) (values_at k objs)"
      proof (cases "map_of (top_nodes objs) k")
        case None
        then have "k \<notin> keys_of objs" using IH(2) by (simp add: map_of_eq_None_iff)
        then show ?thesis by (simp add: None values_at_absent describes_node_or_new)
      next
        case (Some t)
        then show ?thesis using IH(3) map_of_SomeD [OF Some] by (auto simp: describes_node_or_new)
      qed
    qed
    note new = aggregate_describes(3) [OF kvs old, of 1]
    note keys = keys_props_into [OF IH(1), of kvs 1]
    have "describes t (values_at k (objs @ [v]))" if kt: "(k, t) \<in> set (props_into kvs (top_nodes objs) 1)" for k t
    proof (cases "map_of kvs k")
      case (Some x)
      then obtain t' where t': "map_of (props_into kvs (top_nodes objs) 1) k = Some t'" "describes t' (values_at k objs @ [x])"
        using new map_of_SomeD [OF Some] by blast
      moreover have "map_of (props_into kvs (top_nodes objs) 1) k = Some t" using keys kt by simp
      ultimately show ?thesis using Some by (simp add: v values_at_snoc)
    next
      case None
      then have "map_of (top_nodes objs) k = Some t" using keys kt by (auto simp: map_of_eq_None_iff simp flip: map_of_props_into_other [of k kvs _ 1])
      then show ?thesis using IH(3) None by (auto simp: v values_at_snoc dest: map_of_SomeD)
    qed
    then show ?thesis using keys IH(2) by (auto simp: v top_nodes_snoc keys_of_snoc)
  qed
qed

text \<open>The keys declared, with their types.\<close>

definition declared :: "jval list \<Rightarrow> (string \<times> type_node) list" where
  "declared objs = filter (\<lambda>(k, t). validIdentifier k) (map (\<lambda>(k, t). (k, set_parents (presenceCount (node_info t)) t)) (sort_key fst (top_nodes objs)))"

definition declaration_text :: "nat \<Rightarrow> string \<times> type_node \<Rightarrow> string" where
  "declaration_text maxKeys = (\<lambda>(k, t). ''declare var '' @ k @ '': '' @ generateTypeString t [] maxKeys @ '';'')"

lemma node_counts: "describes t vs \<Longrightarrow> presenceCount (node_info t) = length vs"
  by (cases t) (simp add: describes.simps info_describes_def)

lemma values_at_present: "k \<in> keys_of vs \<Longrightarrow> values_at k vs \<noteq> []"
  by (induction vs) (auto simp: keys_of_def values_at_def map_filter_simps map_of_eq_None_iff split: option.splits)

lemma declarations_texts:
  assumes "\<forall>(k, t)\<in>set ps. 0 < presenceCount (node_info t)"
  shows "concat (map (declaration_of n) ps) =
     map (declaration_text n) (filter (\<lambda>(k, t). validIdentifier k) (map (\<lambda>(k, t). (k, set_parents (presenceCount (node_info t)) t)) ps))"
  using assms by (induction ps) (auto simp: declaration_of_def declaration_text_def Let_def set_parents_def)


text \<open>A Pod and a Service: a node that only the Pod has, ports that only the Service has.\<close>

definition two_objects :: "jval list" where
  "two_objects = [JObj [(''spec'', JObj [(''node'', JStr ''n1'')])], JObj [(''spec'', JObj [(''ports'', JArr [JNum 80])])]]"


text \<open>
  The texts listed are not all texts seen: one of twenty letters or more is left out of the list, though it was read. And the list starts
  anew when the two hundredth text has come, so that a later type lists the texts since then only.
\<close>

lemma long_text_left_out:
  "generateGlobalVarDeclarations [JObj [(''a'', JStr ''x'')], JObj [(''a'', JStr ''a-name-of-many-letters'')]] None = ''declare var a: '' @ quoted_literal ''x'' @ '';''"
  by code_simp

lemma texts_start_anew:
  assumes "length lits = MAX_STRING_LITERALS" "length t < MAX_STRING_LITERAL_LENGTH"
  shows "add_literal t (add_literal s lits) = [t]"
  using assms by (simp add: add_literal_def MAX_STRING_LITERALS_def set_add_def)

end
