(* ===== verification/Resource_Links.thy ===== *)
theory Resource_Links
  imports Prelude
begin

text \<open>
  Links to objects and to traces: the \<^verbatim>\<open>kubest:\<close> links of an answer (\<^verbatim>\<open>frontend/src/utils/resourceLink.ts\<close>) and the addresses of a trace
  store (\<^verbatim>\<open>frontend/src/utils/traceLinks.ts\<close>), with what they use of \<^verbatim>\<open>URLSearchParams\<close> and \<^verbatim>\<open>encodeURIComponent\<close>. Texts have code units
  below 256. A text that was percent-encoded is read as its bytes: a byte above 127 stands for a letter that is not ASCII, which no name
  here may have.
\<close>

section \<open>Letters\<close>

definition digit :: "char \<Rightarrow> bool" where
  "digit c \<longleftrightarrow> 48 \<le> (of_char c :: nat) \<and> (of_char c :: nat) \<le> 57"

definition small :: "char \<Rightarrow> bool" where
  "small c \<longleftrightarrow> 97 \<le> (of_char c :: nat) \<and> (of_char c :: nat) \<le> 122"

definition capital :: "char \<Rightarrow> bool" where
  "capital c \<longleftrightarrow> 65 \<le> (of_char c :: nat) \<and> (of_char c :: nat) \<le> 90"

definition alnum :: "char \<Rightarrow> bool" where
  "alnum c \<longleftrightarrow> digit c \<or> small c \<or> capital c"

definition upper :: "char \<Rightarrow> char" where
  "upper c = (if small c then char_of ((of_char c :: nat) - 32) else c)"

text \<open>The hexadecimal digits of a byte, and the bytes of a letter in UTF-8.\<close>

definition hex :: "nat \<Rightarrow> char" where
  "hex n = (if n < 10 then char_of (48 + n) else char_of (55 + n))"

definition unhex :: "char \<Rightarrow> nat option" where
  "unhex c = (let n = of_char c in
     if digit c then Some (n - 48) else if 65 \<le> n \<and> n \<le> 70 then Some (n - 55) else if 97 \<le> n \<and> n \<le> 102 then Some (n - 87) else None)"

definition percent_byte :: "nat \<Rightarrow> string" where
  "percent_byte n = [CHR ''%'', hex (n div 16), hex (n mod 16)]"

definition utf8 :: "char \<Rightarrow> nat list" where
  "utf8 c = (let n = of_char c in if n < 128 then [n] else [192 + n div 64, 128 + n mod 64])"

definition percent :: "char \<Rightarrow> string" where
  "percent c = concat (map percent_byte (utf8 c))"

fun percent_decode :: "string \<Rightarrow> string" where
  "percent_decode (c # h # l # s) =
     (if c = CHR ''%'' then
        (case (unhex h, unhex l) of
           (Some a, Some b) \<Rightarrow> char_of (16 * a + b) # percent_decode s
         | _ \<Rightarrow> c # percent_decode (h # l # s))
      else c # percent_decode (h # l # s))"
| "percent_decode s = s"

section \<open>The parts of a query\<close>

text \<open>\<^verbatim>\<open>new URLSearchParams(s)\<close>, \<^verbatim>\<open>get\<close>, and \<^verbatim>\<open>toString()\<close>, by the URL standard.\<close>

definition plus_to_space :: "string \<Rightarrow> string" where
  "plus_to_space s = map (\<lambda>c. if c = CHR ''+'' then CHR '' '' else c) s"

definition form_pair :: "string \<Rightarrow> string \<times> string" where
  "form_pair s = (let k = takeWhile (\<lambda>c. c \<noteq> CHR ''='') s in
     (percent_decode (plus_to_space k), percent_decode (plus_to_space (drop (Suc (length k)) s))))"

definition form_parse :: "string \<Rightarrow> (string \<times> string) list" where
  "form_parse s = map form_pair (filter (\<lambda>w. w \<noteq> []) (split (CHR ''&'') (if startsWith s ''?'' then tl s else s)))"

definition form_char :: "char \<Rightarrow> string" where
  "form_char c = (if alnum c \<or> c \<in> set ''*-._'' then [c] else if c = CHR '' '' then ''+'' else percent c)"

definition form_text :: "string \<Rightarrow> string" where
  "form_text s = concat (map form_char s)"

definition form_query :: "(string \<times> string) list \<Rightarrow> string" where
  "form_query ps = join ''&'' (map (\<lambda>(k, v). form_text k @ ''='' @ form_text v) ps)"

section \<open>Links to objects\<close>

definition dns_char :: "char \<Rightarrow> bool" where
  "dns_char c \<longleftrightarrow> small c \<or> digit c"

definition DNS1123_LABEL :: "string \<Rightarrow> bool" where
  "DNS1123_LABEL s \<longleftrightarrow> s \<noteq> [] \<and> dns_char (hd s) \<and> dns_char (last s) \<and> (\<forall>c\<in>set s. dns_char c \<or> c = CHR ''-'')"

definition DNS1123_SUBDOMAIN :: "string \<Rightarrow> bool" where
  "DNS1123_SUBDOMAIN s \<longleftrightarrow> (\<forall>l\<in>set (split (CHR ''.'') s). DNS1123_LABEL l)"

definition KIND_LABEL :: "string \<Rightarrow> bool" where
  "KIND_LABEL s \<longleftrightarrow> s \<noteq> [] \<and> (small (hd s) \<or> capital (hd s)) \<and> (\<forall>c\<in>set s. alnum c)"

record link_parts =
  l_kind :: string
  l_name :: string
  l_namespace :: "string option"

definition SCHEME :: string where
  "SCHEME = ''kubest://''"

definition buildResourceLink :: "string \<Rightarrow> string option \<Rightarrow> string \<Rightarrow> string option" where
  "buildResourceLink kind namespace name =
     (let ns = (case namespace of Some ns \<Rightarrow> ns | None \<Rightarrow> []) in
      if \<not> KIND_LABEL kind then None
      else if \<not> DNS1123_SUBDOMAIN name then None
      else if ns \<noteq> [] \<and> \<not> DNS1123_LABEL ns then None
      else Some (SCHEME @ toLowerCase kind @ ''?'' @ form_query ((if ns \<noteq> [] then [(''ns'', ns)] else []) @ [(''name'', name)])))"

definition low_kind :: "string \<Rightarrow> bool" where
  "low_kind s \<longleftrightarrow> s \<noteq> [] \<and> small (hd s) \<and> (\<forall>c\<in>set s. dns_char c)"

definition capitalized :: "string \<Rightarrow> string" where
  "capitalized s = (case s of [] \<Rightarrow> [] | c # r \<Rightarrow> upper c # r)"

definition parseResourceLink :: "string \<Rightarrow> link_parts option" where
  "parseResourceLink href =
     (if \<not> startsWith href SCHEME then None
      else (let after = drop (length SCHEME) href in
        case indexOf after ''?'' of
          None \<Rightarrow> None
        | Some qIdx \<Rightarrow>
            (let kindLower = take qIdx after; params = form_parse (drop (qIdx + 1) after);
                 name = map_of params ''name'';
                 namespace = (case map_of params ''ns'' of Some ns \<Rightarrow> if ns = [] then None else Some ns | None \<Rightarrow> None) in
             if \<not> low_kind kindLower then None
             else (case name of
                 None \<Rightarrow> None
               | Some name \<Rightarrow>
                   if name = [] \<or> \<not> DNS1123_SUBDOMAIN name then None
                   else if (case namespace of Some ns \<Rightarrow> \<not> DNS1123_LABEL ns | None \<Rightarrow> False) then None
                   else Some \<lparr>l_kind = capitalized kindLower, l_name = name, l_namespace = namespace\<rparr>))))"

section \<open>A link opens its object\<close>

definition safe_char :: "char \<Rightarrow> bool" where
  "safe_char c \<longleftrightarrow> dns_char c \<or> c = CHR ''-'' \<or> c = CHR ''.''"

lemma safe_form: "\<forall>c\<in>set s. safe_char c \<Longrightarrow> form_text s = s"
  by (induction s) (auto simp: form_text_def form_char_def safe_char_def dns_char_def alnum_def)

lemma char_codes: "\<not> digit (CHR ''%'')" "\<not> small (CHR ''%'')" "\<not> digit (CHR ''+'')" "\<not> small (CHR ''+'')" "\<not> digit (CHR ''&'')" "\<not> small (CHR ''&'')"
  "\<not> digit (CHR ''='')" "\<not> small (CHR ''='')" "\<not> digit (CHR ''?'')" "\<not> small (CHR ''?'')" "small (CHR ''n'')" "small (CHR ''s'')" "small (CHR ''a'')"
  "small (CHR ''m'')" "small (CHR ''e'')"
  by (simp_all add: digit_def small_def)

lemma safe_not: "safe_char c \<Longrightarrow> c \<noteq> CHR ''%'' \<and> c \<noteq> CHR ''+'' \<and> c \<noteq> CHR ''&'' \<and> c \<noteq> CHR ''='' \<and> c \<noteq> CHR ''?''"
  using char_codes by (auto simp: safe_char_def dns_char_def)

lemma safe_plus: "\<forall>c\<in>set s. safe_char c \<Longrightarrow> plus_to_space s = s"
  using safe_not by (induction s) (auto simp: plus_to_space_def)

lemma safe_decode: "\<forall>c\<in>set s. safe_char c \<Longrightarrow> percent_decode s = s"
proof (induction s rule: percent_decode.induct)
  case (1 c h l s)
  then show ?case using safe_not [of c] by simp
qed simp_all

lemma label_safe: "DNS1123_LABEL s \<Longrightarrow> \<forall>c\<in>set s. safe_char c"
  unfolding DNS1123_LABEL_def safe_char_def by blast

lemma set_split: "set s \<subseteq> insert c (\<Union> (set ` set (split c s)))"
proof (induction s)
  case (Cons x s)
  then show ?case by (cases "split c s") auto
qed simp

lemma subdomain_safe: "DNS1123_SUBDOMAIN s \<Longrightarrow> \<forall>c\<in>set s. safe_char c"
proof
  fix c
  assume s: "DNS1123_SUBDOMAIN s" "c \<in> set s"
  then have "c = CHR ''.'' \<or> (\<exists>l\<in>set (split (CHR ''.'') s). c \<in> set l)" using set_split [of s "CHR ''.''"] by auto
  then show "safe_char c"
  proof (elim disjE bexE)
    fix l
    assume "l \<in> set (split (CHR ''.'') s)" "c \<in> set l"
    then show "safe_char c" using s(1) label_safe [of l] by (simp add: DNS1123_SUBDOMAIN_def)
  qed (simp add: safe_char_def)
qed

lemma subdomain_not_Nil: "DNS1123_SUBDOMAIN s \<Longrightarrow> s \<noteq> []"
  by (rule notI) (simp add: DNS1123_SUBDOMAIN_def DNS1123_LABEL_def)

lemma form_pair_safe:
  assumes "\<forall>c\<in>set k. safe_char c" "\<forall>c\<in>set v. safe_char c"
  shows "form_pair (k @ ''='' @ v) = (k, v)"
proof -
  have "takeWhile (\<lambda>c. c \<noteq> CHR ''='') (k @ ''='' @ v) = k" using assms(1) safe_not by (subst takeWhile_append2) auto
  then show ?thesis using assms by (simp add: form_pair_def Let_def safe_plus safe_decode)
qed

lemma form_query_read:
  assumes "ps \<noteq> []" "\<forall>(k, v)\<in>set ps. (\<forall>c\<in>set k. safe_char c) \<and> (\<forall>c\<in>set v. safe_char c)" "fst (hd ps) \<noteq> []"
  shows "form_parse (form_query ps) = ps"
proof -
  have words: "map (\<lambda>(k, v). form_text k @ ''='' @ form_text v) ps = map (\<lambda>(k, v). k @ ''='' @ v) ps"
    using assms(2) by (auto simp: safe_form)
  have split: "split (CHR ''&'') (form_query ps) = map (\<lambda>(k, v). k @ ''='' @ v) ps"
    unfolding form_query_def words using assms(1,2) safe_not by (intro split_join) force+
  have "\<not> startsWith (form_query ps) ''?''"
  proof -
    obtain k v r where ps: "ps = (k, v) # r" "k \<noteq> []" using assms(1,3) by (cases ps) auto
    then obtain c k' where k: "k = c # k'" by (cases k) auto
    have "c \<noteq> CHR ''?''" using assms(2) ps k safe_not [of c] by auto
    moreover have "\<exists>t. form_query ps = c # t" unfolding form_query_def words by (cases r) (auto simp: ps k)
    ultimately show ?thesis by (auto simp: startsWith_def)
  qed
  moreover have "map form_pair (map (\<lambda>(k, v). k @ ''='' @ v) ps) = ps"
    using assms(2) form_pair_safe by (intro map_idI [THEN trans [OF map_map]]) (auto simp: comp_def)
  moreover have "filter (\<lambda>w. w \<noteq> []) (map (\<lambda>(k, v). k @ ''='' @ v) ps) = map (\<lambda>(k, v). k @ ''='' @ v) ps"
    by (auto simp: filter_id_conv)
  ultimately show ?thesis by (simp add: form_parse_def split)
qed

lemma indexOf_first: "c \<notin> set a \<Longrightarrow> indexOf (a @ c # s) [c] = Some (length a)"
  by (induction a) (auto simp: startsWith_def)

lemma lower_capital: "capital c \<Longrightarrow> small (lower c)"
  by (auto simp: capital_def small_def lower_def)

lemma lower_other: "alnum c \<Longrightarrow> \<not> capital c \<Longrightarrow> lower c = c"
  by (auto simp: alnum_def capital_def small_def digit_def lower_def)

lemma lower_alnum: "alnum c \<Longrightarrow> dns_char (lower c)"
  using lower_capital [of c] lower_other [of c] by (cases "capital c") (auto simp: alnum_def dns_char_def)

lemma lower_letter: "small c \<or> capital c \<Longrightarrow> small (lower c)"
  using lower_capital [of c] lower_other [of c] by (cases "capital c") (auto simp: alnum_def)

lemma lower_kind: "KIND_LABEL kind \<Longrightarrow> low_kind (toLowerCase kind)"
  using lower_alnum lower_letter by (cases kind) (auto simp: KIND_LABEL_def low_kind_def toLowerCase_def)

text \<open>
  A link that is made of an object opens that object: its name and its namespace, and its Kind with one capital and the rest small.
\<close>

theorem link_read_back:
  assumes "buildResourceLink kind namespace name = Some link"
  shows "parseResourceLink link = Some \<lparr>l_kind = capitalized (toLowerCase kind), l_name = name,
     l_namespace = (case namespace of Some ns \<Rightarrow> if ns = [] then None else Some ns | None \<Rightarrow> None)\<rparr>"
proof -
  define ns where "ns = (case namespace of Some ns \<Rightarrow> ns | None \<Rightarrow> [])"
  define ps where "ps = (if ns \<noteq> [] then [(''ns'', ns)] else []) @ [(''name'', name)]"
  have ok: "KIND_LABEL kind" "DNS1123_SUBDOMAIN name" "ns \<noteq> [] \<Longrightarrow> DNS1123_LABEL ns" "link = SCHEME @ toLowerCase kind @ ''?'' @ form_query ps"
    using assms by (auto simp: buildResourceLink_def ns_def ps_def Let_def split: if_splits)
  have low: "low_kind (toLowerCase kind)" using ok(1) by (rule lower_kind)
  then have "CHR ''?'' \<notin> set (toLowerCase kind)" using char_codes by (auto simp: low_kind_def dns_char_def)
  then have at: "indexOf (toLowerCase kind @ ''?'' @ form_query ps) ''?'' = Some (length (toLowerCase kind))" using indexOf_first by force
  have keys: "safe_char c" if "c \<in> set ''ns'' \<or> c \<in> set ''name''" for c using that char_codes by (auto simp: safe_char_def dns_char_def)
  have "form_parse (form_query ps) = ps"
    using ok(2,3) subdomain_safe label_safe keys by (intro form_query_read) (auto simp: ps_def)
  then have "map_of (form_parse (form_query ps)) ''name'' = Some name" "map_of (form_parse (form_query ps)) ''ns'' = (if ns = [] then None else Some ns)"
    by (auto simp: ps_def)
  then show ?thesis using low ok(2,3) subdomain_not_Nil [OF ok(2)] at
    by (auto simp: ok(4) parseResourceLink_def Let_def ns_def split: option.splits)
qed

text \<open>The link of a Pod.\<close>

theorem link_read_back_witness:
  "parseResourceLink ''kubest://pod?ns=web&name=nginx-1'' = Some \<lparr>l_kind = ''Pod'', l_name = ''nginx-1'', l_namespace = Some ''web''\<rparr>"
proof -
  have "buildResourceLink ''Pod'' (Some ''web'') ''nginx-1'' = Some ''kubest://pod?ns=web&name=nginx-1''" by code_simp
  moreover have "capitalized (toLowerCase ''Pod'') = ''Pod''" by code_simp
  ultimately show ?thesis using link_read_back [of "''Pod''" "Some ''web''" "''nginx-1''" "''kubest://pod?ns=web&name=nginx-1''"] by simp
qed

text \<open>The Kind comes back as it was exactly when it has one capital, its first letter: the link of a StatefulSet opens a Statefulset.\<close>

lemma link_of_stateful_set:
  "map_option parseResourceLink (buildResourceLink ''StatefulSet'' (Some ''web'') ''db'') =
     Some (Some \<lparr>l_kind = ''Statefulset'', l_name = ''db'', l_namespace = Some ''web''\<rparr>)"
  by code_simp

text \<open>Whatever a link of an answer says, what it opens has a name and a namespace that Kubernetes could have given, and a Kind of letters and digits.\<close>

lemma link_opens_names:
  assumes "parseResourceLink href = Some p"
  shows "DNS1123_SUBDOMAIN (l_name p) \<and> (\<forall>ns. l_namespace p = Some ns \<longrightarrow> DNS1123_LABEL ns) \<and> (\<forall>c\<in>set (l_kind p). alnum c)"
proof -
  have up: "alnum (upper c)" if "small c" for c using that by (auto simp: upper_def small_def capital_def alnum_def digit_def)
  have "\<forall>c\<in>set (capitalized k). alnum c" if "low_kind k" for k
    using that up by (cases k) (auto simp: low_kind_def capitalized_def dns_char_def alnum_def)
  then show ?thesis using assms by (auto simp: parseResourceLink_def Let_def split: if_splits option.splits)
qed

section \<open>Links to traces\<close>

text \<open>
  The template of an address: letters, and placeholders \<^verbatim>\<open>{{ name }}\<close> as \<^verbatim>\<open>/\{\{\s*(\w+)\s*\}\}/g\<close> finds them, from left to right.
\<close>

definition word_char :: "char \<Rightarrow> bool" where
  "word_char c \<longleftrightarrow> alnum c \<or> c = CHR ''_''"

text \<open>The name of a placeholder at the start of a text, and how many letters it takes.\<close>

definition placeholder :: "string \<Rightarrow> (string \<times> nat) option" where
  "placeholder s =
     (if \<not> startsWith s ''{{'' then None
      else (let a = takeWhile is_ws (drop 2 s); n = takeWhile word_char (drop (2 + length a) s);
                b = takeWhile is_ws (drop (2 + length a + length n) s); e = 2 + length a + length n + length b in
            if n \<noteq> [] \<and> startsWith (drop e s) ''}}'' then Some (n, e + 2) else None))"

datatype piece = Letter char | Hole string

function pieces :: "string \<Rightarrow> piece list" where
  "pieces s =
     (case s of [] \<Rightarrow> []
      | c # r \<Rightarrow> (case placeholder s of Some (n, k) \<Rightarrow> Hole n # pieces (drop k s) | None \<Rightarrow> Letter c # pieces r))"
  by pat_completeness auto

termination
proof (relation "measure length", goal_cases)
  case (3 s c r x n k)
  then have "0 < k" by (auto simp: placeholder_def Let_def split: if_splits)
  then show ?case using 3 by auto
qed auto

declare pieces.simps [simp del]

definition component_char :: "char \<Rightarrow> string" where
  "component_char c = (if alnum c \<or> c \<in> set (CHR 0x27 # ''-_.!~*()'') then [c] else percent c)"

definition encodeURIComponent :: "string \<Rightarrow> string" where
  "encodeURIComponent s = concat (map component_char s)"

text \<open>
  The value of a name: that of \<open>vars\<close>, or what every object inherits under the name (\<open>inherited\<close>: \<^verbatim>\<open>{{toString}}\<close> reads as the text of a
  function); an empty one is none.
\<close>

definition value_of :: "(string \<Rightarrow> string option) \<Rightarrow> (string \<Rightarrow> string option) \<Rightarrow> string \<Rightarrow> string" where
  "value_of inherited vars name = (case vars name of Some v \<Rightarrow> v | None \<Rightarrow> case_option [] id (inherited name))"

definition fill_piece :: "(string \<Rightarrow> string) \<Rightarrow> piece \<Rightarrow> string" where
  "fill_piece val p = (case p of Letter c \<Rightarrow> [c] | Hole n \<Rightarrow> encodeURIComponent (val n))"

definition hole_names :: "piece list \<Rightarrow> string list" where
  "hole_names ps = concat (map (\<lambda>p. case p of Letter _ \<Rightarrow> [] | Hole n \<Rightarrow> [n]) ps)"

text \<open>\<^verbatim>\<open>/^https?:\/\//i\<close>\<close>

definition is_http :: "string \<Rightarrow> bool" where
  "is_http url \<longleftrightarrow> startsWith (toLowerCase url) ''http://'' \<or> startsWith (toLowerCase url) ''https://''"

definition fillTraceTemplate :: "(string \<Rightarrow> string option) \<Rightarrow> string option \<Rightarrow> (string \<Rightarrow> string option) \<Rightarrow> string option" where
  "fillTraceTemplate inherited template vars =
     (case template of
        None \<Rightarrow> None
      | Some t \<Rightarrow> if t = [] then None
         else (let val = value_of inherited vars; ps = pieces t;
                   missing = list_ex (\<lambda>n. val n = []) (hole_names ps); url = concat (map (fill_piece val) ps) in
               if missing \<or> \<not> is_http url then None else Some url))"

record owner =
  o_kind :: "string option"
  o_name :: "string option"

record pod_meta =
  p_name :: string
  p_labels :: "string \<Rightarrow> string option"
  p_annotations :: "string \<Rightarrow> string option"
  p_owners :: "owner list"

definition said :: "string option \<Rightarrow> bool" where
  "said v \<longleftrightarrow> v \<noteq> None \<and> v \<noteq> Some []"

definition owner_of :: "owner list \<Rightarrow> string \<Rightarrow> string option" where
  "owner_of owners kind = (case List.find (\<lambda>x. o_kind x = Some kind) owners of None \<Rightarrow> None | Some x \<Rightarrow> o_name x)"

definition podServiceName :: "pod_meta \<Rightarrow> string" where
  "podServiceName pod =
     (let fromMeta = filter said [p_annotations pod ''resource.opentelemetry.io/service.name'', p_labels pod ''app.kubernetes.io/instance'', p_labels pod ''app.kubernetes.io/name''];
          rs = owner_of (p_owners pod) ''ReplicaSet''; hash = p_labels pod ''pod-template-hash'' in
      if fromMeta \<noteq> [] then the (hd fromMeta)
      else if said rs \<and> said hash \<and> endsWith (the rs) (CHR ''-'' # the hash) then take (length (the rs) - (length (the hash) + 1)) (the rs)
      else (case filter said (map (owner_of (p_owners pod)) [''ReplicaSet'', ''StatefulSet'', ''DaemonSet'', ''Job'']) of
          x # _ \<Rightarrow> the x
        | [] \<Rightarrow> p_name pod))"

section \<open>A value stays in its place\<close>

definition url_char :: "char \<Rightarrow> bool" where
  "url_char c \<longleftrightarrow> alnum c \<or> c \<in> set (CHR 0x27 # ''-_.!~*()%'')"

lemma hex_alnum: "n < 16 \<Longrightarrow> alnum (hex n) \<and> unhex (hex n) = Some n"
  by (auto simp: hex_def alnum_def digit_def capital_def unhex_def Let_def)

lemma utf8_bytes: "\<forall>b\<in>set (utf8 c). b < 256"
proof -
  have "of_char c < (256 :: nat)" by simp
  then have "(of_char c :: nat) div 64 < 64" by linarith
  then show ?thesis by (auto simp: utf8_def Let_def)
qed

lemma percent_byte_chars: "b < 256 \<Longrightarrow> \<forall>x\<in>set (percent_byte b). url_char x"
  using hex_alnum [of "b div 16"] hex_alnum [of "b mod 16"] by (auto simp: percent_byte_def url_char_def)

lemma component_chars: "\<forall>x\<in>set (encodeURIComponent v). url_char x"
  using utf8_bytes percent_byte_chars by (fastforce simp: encodeURIComponent_def component_char_def percent_def url_char_def)

lemma decode_percent_byte: "b < 256 \<Longrightarrow> percent_decode (percent_byte b @ s) = char_of b # percent_decode s"
  using hex_alnum [of "b div 16"] hex_alnum [of "b mod 16"] by (simp add: percent_byte_def)

lemma decode_letter: "c \<noteq> CHR ''%'' \<Longrightarrow> percent_decode (c # s) = c # percent_decode s"
  by (cases "c # s" rule: percent_decode.cases) auto

lemma percent_not_kept: "\<not> (alnum (CHR ''%'') \<or> CHR ''%'' \<in> set (CHR 0x27 # ''-_.!~*()''))"
  by (simp add: alnum_def digit_def small_def capital_def)

lemma decode_bytes: "\<forall>b\<in>set bs. b < 256 \<Longrightarrow> percent_decode (concat (map percent_byte bs) @ s) = map char_of bs @ percent_decode s"
  by (induction bs) (simp_all add: decode_percent_byte)

lemma decode_component: "percent_decode (component_char c @ s) = (if alnum c \<or> c \<in> set (CHR 0x27 # ''-_.!~*()'') then [c] else map char_of (utf8 c)) @ percent_decode s"
  using percent_not_kept decode_letter [of c s] decode_bytes [OF utf8_bytes, of c s] by (auto simp: component_char_def percent_def)

lemma kept_utf8: "alnum c \<or> c \<in> set (CHR 0x27 # ''-_.!~*()'') \<Longrightarrow> map char_of (utf8 c) = [c]"
proof -
  assume "alnum c \<or> c \<in> set (CHR 0x27 # ''-_.!~*()'')"
  then have "(of_char c :: nat) < 128" by (auto simp: alnum_def digit_def small_def capital_def)
  then show ?thesis by (simp add: utf8_def)
qed

lemma decode_encoded: "percent_decode (encodeURIComponent v) = map char_of (concat (map utf8 v))"
proof (induction v)
  case (Cons c v)
  have "encodeURIComponent (c # v) = component_char c @ encodeURIComponent v" by (simp add: encodeURIComponent_def)
  then show ?case using Cons kept_utf8 [of c] by (simp add: decode_component)
qed (simp add: encodeURIComponent_def)


text \<open>A service and a namespace with a letter that would begin another part of the address.\<close>

definition trace_vars :: "string \<Rightarrow> string option" where
  "trace_vars = [''service'' \<mapsto> ''shop'', ''namespace'' \<mapsto> ''a&b'']"


text \<open>A placeholder named like a method of every object is filled with the method's text instead of leaving no link.\<close>

lemma inherited_name_filled:
  "fillTraceTemplate [''toString'' \<mapsto> ''function toString''] (Some ''https://t/{{toString}}'') (\<lambda>_. None) = Some ''https://t/function%20toString''"
  by code_simp

end
