(* ===== verification/GPU.thy ===== *)
theory GPU
  imports Comparing
begin

text \<open>
  The numbers of the GPU screens (\<^verbatim>\<open>frontend/src/pages/gpu/gpuNumbers.ts\<close>, with \<^verbatim>\<open>frontend/src/utils/nodeStatus.ts\<close>). Counts of GPUs are
  integers, measured values and their means are reals; an absent text and an empty one read alike where the code asks \<^verbatim>\<open>||\<close>.
  \<open>number\<close> is \<^verbatim>\<open>Number\<close> of a count's text.
\<close>

section \<open>A node's status\<close>

datatype readiness = Ready | NotReady | Unknown

definition nodeStatusParts :: "string option \<Rightarrow> string list" where
  "nodeStatusParts status = filter (\<lambda>s. s \<noteq> []) (map trim (split (CHR '','') (case_option [] id status)))"

definition nodeReadiness :: "string option \<Rightarrow> readiness" where
  "nodeReadiness status = (case nodeStatusParts status of
      p # _ \<Rightarrow> if p = ''Ready'' then Ready else if p = ''NotReady'' then NotReady else Unknown
    | [] \<Rightarrow> Unknown)"

definition nodeCordoned :: "string option \<Rightarrow> bool" where
  "nodeCordoned status \<longleftrightarrow> ''SchedulingDisabled'' \<in> set (nodeStatusParts status)"

definition nodeStatusBadge :: "string \<Rightarrow> string" where
  "nodeStatusBadge part = (let low = trim (toLowerCase part) in
     if low = ''ready'' then ''badge-success''
     else if low = ''schedulingdisabled'' then ''badge-warning''
     else if contains low ''notready'' \<or> contains low ''unknown'' then ''badge-error''
     else if contains low ''ready'' then ''badge-success'' else ''badge-info'')"

section \<open>Tables by key\<close>

text \<open>\<^verbatim>\<open>by.set(k, f(by.get(k) ?? d))\<close>.\<close>

definition bump :: "'e \<Rightarrow> ('e \<Rightarrow> 'e) \<Rightarrow> 'k \<Rightarrow> ('k \<times> 'e) list \<Rightarrow> ('k \<times> 'e) list" where
  "bump d f k m = AList.update k (f (case map_of m k of None \<Rightarrow> d | Some e \<Rightarrow> e)) m"

text \<open>A loop that bumps, and the table it makes: every key's entry is made of that key's things, in their order.\<close>

definition tally :: "'e \<Rightarrow> ('x \<Rightarrow> 'k) \<Rightarrow> ('x \<Rightarrow> 'e \<Rightarrow> 'e) \<Rightarrow> 'x list \<Rightarrow> ('k \<times> 'e) list" where
  "tally d key add xs = fold (\<lambda>x. bump d (add x) (key x)) xs []"

lemma tally_snoc: "tally d key add (xs @ [x]) = bump d (add x) (key x) (tally d key add xs)"
  by (simp add: tally_def)

lemma map_of_bump: "map_of (bump d f k m) k' = (if k' = k then Some (f (case map_of m k of None \<Rightarrow> d | Some e \<Rightarrow> e)) else map_of m k')"
  by (simp add: bump_def update_conv')

lemma map_of_tally:
  "map_of (tally d key add xs) k = (if k \<in> key ` set xs then Some (fold add (filter (\<lambda>x. key x = k) xs) d) else None)"
proof (induction xs rule: rev_induct)
  case (snoc x xs)
  have none: "filter (\<lambda>x. key x = k) xs = []" if "k \<notin> key ` set xs" using that by (auto simp: filter_empty_conv)
  show ?case using snoc none by (auto simp: tally_snoc map_of_bump)
qed (simp add: tally_def)

lemma keys_tally: "distinct (map fst (tally d key add xs)) \<and> set (map fst (tally d key add xs)) = key ` set xs"
  by (induction xs rule: rev_induct) (auto simp: tally_snoc bump_def distinct_update fst_AList_update tally_def)

lemma in_tally: "(k, e) \<in> set (tally d key add xs) \<longleftrightarrow> k \<in> key ` set xs \<and> e = fold add (filter (\<lambda>x. key x = k) xs) d"
proof -
  have "(k, e) \<in> set (tally d key add xs) \<longleftrightarrow> map_of (tally d key add xs) k = Some e" using keys_tally [of d key add xs] by (simp add: map_of_eq_Some_iff)
  then show ?thesis by (auto simp: map_of_tally)
qed

text \<open>A sum of entries counts every thing once.\<close>

lemma sum_bump:
  fixes g :: "'e \<Rightarrow> 'n :: comm_monoid_add"
  assumes "distinct (map fst m)" "\<And>e. g (f e) = g e + c" "g d = 0"
  shows "(\<Sum>(k, e)\<leftarrow>bump d f k m. g e) = (\<Sum>(k, e)\<leftarrow>m. g e) + c"
  using assms(1)
proof (induction m)
  case (Cons a m)
  obtain k' e where a: "a = (k', e)" by (cases a)
  show ?case
  proof (cases "k' = k")
    case True
    then show ?thesis by (simp add: bump_def a assms(2) add_ac)
  next
    case False
    then show ?thesis using Cons by (simp add: bump_def a add_ac)
  qed
qed (simp add: bump_def assms(2,3))

lemma sum_tally:
  fixes g :: "'e \<Rightarrow> 'n :: comm_monoid_add"
  assumes "\<And>x e. g (add x e) = g e + c x" "g d = 0"
  shows "(\<Sum>(k, e)\<leftarrow>tally d key add xs. g e) = sum_list (map c xs)"
proof (induction xs rule: rev_induct)
  case (snoc x xs)
  have "(\<Sum>(k, e)\<leftarrow>bump d (add x) (key x) (tally d key add xs). g e) = (\<Sum>(k, e)\<leftarrow>tally d key add xs. g e) + c x"
    by (rule sum_bump) (use keys_tally [of d key add xs] assms in auto)
  then show ?case using snoc by (simp add: tally_snoc)
qed (simp add: tally_def)

section \<open>Vendors and labels\<close>

datatype vendor = NVIDIA | AMD | Intel

definition GPU_VENDORS :: "vendor list" where
  "GPU_VENDORS = [NVIDIA, AMD, Intel]"

definition vendor_name :: "vendor \<Rightarrow> string" where
  "vendor_name v = (case v of NVIDIA \<Rightarrow> ''NVIDIA'' | AMD \<Rightarrow> ''AMD'' | Intel \<Rightarrow> ''Intel'')"

definition all_digits :: "string \<Rightarrow> bool" where
  "all_digits s \<longleftrightarrow> s \<noteq> [] \<and> (\<forall>c\<in>set s. CHR ''0'' \<le> c \<and> c \<le> CHR ''9'')"

text \<open>\<^verbatim>\<open>/^amd\.com\/(spx|dpx|tpx|qpx|cpx)_nps[0-9]+$/\<close>\<close>

definition AMD_PARTITION :: "string \<Rightarrow> bool" where
  "AMD_PARTITION s \<longleftrightarrow> list_ex (\<lambda>m. startsWith s (''amd.com/'' @ m @ ''_nps'') \<and> all_digits (drop (length (''amd.com/'' @ m @ ''_nps'')) s))
     [''spx'', ''dpx'', ''tpx'', ''qpx'', ''cpx'']"

definition gpuVendorOf :: "string \<Rightarrow> vendor option" where
  "gpuVendorOf name =
     (if name = ''nvidia.com/gpu'' \<or> name = ''nvidia.com/gpu.shared'' \<or> startsWith name ''nvidia.com/mig-'' then Some NVIDIA
      else if name = ''amd.com/gpu'' \<or> AMD_PARTITION name then Some AMD
      else if name = ''gpu.intel.com/i915'' \<or> name = ''gpu.intel.com/xe'' then Some Intel else None)"

type_synonym labels = "(string \<times> string) list"

text \<open>The vendors of the screens' order that a table has, with their entries.\<close>

definition in_order :: "(vendor \<times> 'e) list \<Rightarrow> (vendor \<times> 'e) list" where
  "in_order by = concat (map (\<lambda>v. case map_of by v of None \<Rightarrow> [] | Some e \<Rightarrow> [(v, e)]) GPU_VENDORS)"

definition gpuCountsByVendor :: "(string \<Rightarrow> int) \<Rightarrow> labels option \<Rightarrow> (vendor \<times> int) list" where
  "gpuCountsByVendor number resources =
     in_order (fold (\<lambda>(name, value) by. case gpuVendorOf name of None \<Rightarrow> by | Some v \<Rightarrow> bump 0 (\<lambda>n. n + number value) v by)
       (case_option [] id resources) [])"

definition gpuCountOf :: "(string \<Rightarrow> int) \<Rightarrow> labels option \<Rightarrow> int option" where
  "gpuCountOf number resources = (let counts = gpuCountsByVendor number resources in
     if counts \<noteq> [] then Some (fold (\<lambda>(_, n) s. s + n) counts 0) else None)"

definition has_text :: "string option \<Rightarrow> bool" where
  "has_text v \<longleftrightarrow> v \<noteq> None \<and> v \<noteq> Some []"

definition amdLabel :: "labels \<Rightarrow> string \<Rightarrow> string option" where
  "amdLabel labels name =
     (let prefixes = [''amd.com/gpu.'', ''beta.amd.com/gpu.''];
          written = filter has_text (map (\<lambda>p. map_of labels (p @ name)) prefixes);
          values = (\<lambda>p. sort (map (drop (length (p @ name @ ''.''))) (filter (\<lambda>k. startsWith k (p @ name @ ''.'')) (map fst labels))));
          listed = filter (\<lambda>vs. vs \<noteq> []) (map values prefixes) in
      case written of
        v # _ \<Rightarrow> v
      | [] \<Rightarrow> (case listed of vs # _ \<Rightarrow> Some (join '', '' vs) | [] \<Rightarrow> None))"

definition gfdMemory :: "string option \<Rightarrow> string option" where
  "gfdMemory label = (case label of None \<Rightarrow> None | Some l \<Rightarrow> Some (if all_digits l then l @ '' MiB'' else l))"

definition gfdVersion :: "labels \<Rightarrow> string \<Rightarrow> string \<Rightarrow> string list \<Rightarrow> string option" where
  "gfdVersion labels name old parts =
     (let full = map_of labels (''nvidia.com/'' @ name @ ''.full''); major = map_of labels (''nvidia.com/'' @ old @ ''.major'') in
      if has_text full then full
      else if \<not> has_text major then None
      else Some (join ''.'' (map the (major # filter has_text (map (\<lambda>p. map_of labels (''nvidia.com/'' @ old @ ''.'' @ p)) parts)))))"

definition driverVersion :: "labels \<Rightarrow> string option" where
  "driverVersion labels = gfdVersion labels ''cuda.driver-version'' ''cuda.driver'' [''minor'', ''rev'']"

definition cudaVersion :: "labels \<Rightarrow> string option" where
  "cudaVersion labels = gfdVersion labels ''cuda.runtime-version'' ''cuda.runtime'' [''minor'']"

record vendor_labels =
  l_model :: "string option"
  l_memory :: "string option"
  l_driver :: "string option"
  l_family :: "string option"

definition gpuVendorLabels :: "vendor \<Rightarrow> labels \<Rightarrow> vendor_labels" where
  "gpuVendorLabels v labels = (case v of
      NVIDIA \<Rightarrow> \<lparr>l_model = map_of labels ''nvidia.com/gpu.product'', l_memory = gfdMemory (map_of labels ''nvidia.com/gpu.memory''),
        l_driver = driverVersion labels, l_family = map_of labels ''nvidia.com/gpu.family''\<rparr>
    | AMD \<Rightarrow> \<lparr>l_model = amdLabel labels ''product-name'', l_memory = amdLabel labels ''vram'',
        l_driver = map_of labels ''amd.com/gpu.driver-version'', l_family = amdLabel labels ''family''\<rparr>
    | Intel \<Rightarrow> \<lparr>l_model = map_of labels ''gpu.intel.com/product'', l_memory = None, l_driver = None, l_family = map_of labels ''gpu.intel.com/family''\<rparr>)"

definition vendorNames :: "vendor list option \<Rightarrow> string" where
  "vendorNames vendors = join '', '' (map vendor_name (case_option [] id vendors))"

definition nodeGpuRows :: "(string \<Rightarrow> int) \<Rightarrow> labels \<Rightarrow> labels \<Rightarrow> labels \<Rightarrow> (string \<times> string) list" where
  "nodeGpuRows number labels capacity allocatable =
     (let withGpus = map fst (gpuCountsByVendor number (Some capacity));
          vendors = filter (\<lambda>v. v \<in> set withGpus \<or> has_text (l_model (gpuVendorLabels v labels))) GPU_VENDORS;
          each = (\<lambda>pick. Some (join '', '' (map the (filter has_text (map (\<lambda>v. pick (gpuVendorLabels v labels)) vendors)))));
          count = (\<lambda>r. case gpuCountOf number (Some r) of None \<Rightarrow> Some [] | Some n \<Rightarrow> Some (show_int n));
          major = map_of labels ''nvidia.com/gpu.compute.major'';
          minor = map_of labels ''nvidia.com/gpu.compute.minor'';
          rows = [(''GPU Vendor'', Some (join '', '' (map vendor_name vendors))),
            (''GPU Product'', each l_model), (''GPU Memory'', each l_memory),
            (''GPU Count (Capacity)'', count capacity), (''GPU Count (Allocatable)'', count allocatable),
            (''MIG Strategy'', map_of labels ''nvidia.com/mig.strategy''), (''CUDA Version'', cudaVersion labels),
            (''Driver Version'', each l_driver), (''GPU Family'', each l_family),
            (''GPU Compute Capability'', if has_text major then Some (the major @ ''.'' @ (if has_text minor then the minor else ''0'')) else None)] in
      map (\<lambda>(k, v). (k, the v)) (filter (\<lambda>(k, v). has_text v) rows))"

section \<open>Nodes\<close>

record gpu_node_vendor =
  v_vendor :: vendor
  v_capacity :: int
  v_allocatable :: int
  v_used :: int
  v_model :: "string option"

record gpu_node =
  n_name :: string
  n_vendors :: "gpu_node_vendor list option"
  n_status :: string

definition vendors_of :: "gpu_node list \<Rightarrow> gpu_node_vendor list" where
  "vendors_of nodes = concat (map (\<lambda>n. case_option [] id (n_vendors n)) nodes)"

record model_entry =
  m_count :: nat
  totalCapacity :: int
  totalAllocatable :: int
  totalUsed :: int

definition no_gpus :: model_entry where
  "no_gpus = \<lparr>m_count = 0, totalCapacity = 0, totalAllocatable = 0, totalUsed = 0\<rparr>"

definition add_gpus :: "gpu_node_vendor \<Rightarrow> model_entry \<Rightarrow> model_entry" where
  "add_gpus v e = \<lparr>m_count = m_count e + 1, totalCapacity = totalCapacity e + v_capacity v,
     totalAllocatable = totalAllocatable e + v_allocatable v, totalUsed = totalUsed e + v_used v\<rparr>"

definition model_name :: "gpu_node_vendor \<Rightarrow> string" where
  "model_name v = (if has_text (v_model v) then the (v_model v) else ''Unknown'')"

definition by_capacity :: "string \<times> model_entry \<Rightarrow> string \<times> model_entry \<Rightarrow> int" where
  "by_capacity a b = totalCapacity (snd b) - totalCapacity (snd a)"

definition gpuModels :: "gpu_node list \<Rightarrow> (string \<times> model_entry) list" where
  "gpuModels nodes = js_sort by_capacity (tally no_gpus model_name add_gpus (vendors_of nodes))"

record node_counts =
  nc_total :: nat
  nc_ready :: nat
  nc_notReady :: int

definition gpuNodeCounts :: "gpu_node list \<Rightarrow> node_counts" where
  "gpuNodeCounts nodes = (let ready = length (filter (\<lambda>n. nodeReadiness (Some (n_status n)) = Ready) nodes) in
     \<lparr>nc_total = length nodes, nc_ready = ready, nc_notReady = int (length nodes) - int ready\<rparr>)"

definition gpuVendorCounts :: "gpu_node list \<Rightarrow> (vendor \<times> model_entry) list" where
  "gpuVendorCounts nodes = in_order (tally no_gpus v_vendor add_gpus (vendors_of nodes))"

section \<open>Pods\<close>

record gpu_pod =
  g_name :: string
  g_namespace :: string
  g_node :: "string option"
  g_requested :: int
  g_vendors :: "(vendor \<times> int) list option"
  g_status :: string
  g_phase :: "string option"

definition statusNamesError :: "string \<Rightarrow> bool" where
  "statusNamesError status = list_ex (contains (toLowerCase status)) [''error'', ''failed'', ''backoff'', ''errimagepull'', ''oomkilled'']"

definition ended :: "gpu_pod \<Rightarrow> bool" where
  "ended p \<longleftrightarrow> g_phase p = Some ''Succeeded'' \<or> g_phase p = Some ''Failed''"

definition failing :: "gpu_pod \<Rightarrow> bool" where
  "failing p \<longleftrightarrow> g_phase p = Some ''Failed'' \<or> statusNamesError (g_status p)"

record pod_counts =
  c_total :: nat
  c_running :: nat
  c_pending :: nat
  c_failed :: int
  c_requested :: int
  c_namespaces :: nat

definition gpuPodCounts :: "gpu_pod list \<Rightarrow> pod_counts" where
  "gpuPodCounts pods = (let healthy = filter (\<lambda>p. \<not> failing p) pods in
     \<lparr>c_total = length pods, c_running = length (filter (\<lambda>p. g_phase p = Some ''Running'') healthy),
      c_pending = length (filter (\<lambda>p. g_phase p = Some ''Pending'') healthy), c_failed = int (length pods) - int (length healthy),
      c_requested = fold (\<lambda>p s. s + g_requested p) (filter (\<lambda>p. \<not> ended p) pods) 0, c_namespaces = length (uniq (map g_namespace pods))\<rparr>)"

definition gpuPodStatuses :: "gpu_pod list \<Rightarrow> (string \<times> nat) list" where
  "gpuPodStatuses pods = js_sort (\<lambda>a b. int (snd b) - int (snd a)) (tally 0 g_status (\<lambda>_ n. n + 1) pods)"

definition node_of :: "gpu_pod \<Rightarrow> string" where
  "node_of p = case_option [] id (g_node p)"

definition gpuPodsByNode :: "gpu_pod list \<Rightarrow> (string \<times> nat \<times> int) list" where
  "gpuPodsByNode pods = js_sort (\<lambda>a b. snd (snd b) - snd (snd a)) (tally (0, 0) node_of (\<lambda>p (n, g). (n + 1, g + g_requested p)) pods)"

definition gpuPodVendorCounts :: "gpu_pod list \<Rightarrow> (vendor \<times> nat \<times> int) list" where
  "gpuPodVendorCounts pods =
     in_order (tally (0, 0) (\<lambda>(p, v, _). v) (\<lambda>(p, _, r) (n, g). (n + 1, g + (if ended p then 0 else r)))
       (concat (map (\<lambda>p. map (\<lambda>v. (p, v)) (case_option [] id (g_vendors p))) pods)))"

section \<open>Device plugins\<close>

record device_plugin =
  dp_vendor :: vendor
  dp_found :: bool
  dp_desired :: "int option"
  dp_ready :: "int option"

datatype plugin_state = Healthy | Unhealthy | Missing

definition devicePluginState :: "device_plugin option \<Rightarrow> plugin_state" where
  "devicePluginState plugin = (case plugin of
      None \<Rightarrow> Missing
    | Some p \<Rightarrow> if \<not> dp_found p then Missing
        else if case_option 0 id (dp_desired p) \<le> case_option 0 id (dp_ready p) then Healthy else Unhealthy)"

record plugin_badge =
  b_vendor :: "vendor option"
  b_state :: plugin_state
  b_plugin :: "device_plugin option"

definition devicePluginBadges :: "device_plugin list option \<Rightarrow> plugin_badge list" where
  "devicePluginBadges plugins = (let list = case_option [] id plugins in
     if length list = 0 then [\<lparr>b_vendor = None, b_state = Missing, b_plugin = None\<rparr>]
     else map (\<lambda>p. \<lparr>b_vendor = (if 1 < length list then Some (dp_vendor p) else None), b_state = devicePluginState (Some p), b_plugin = Some p\<rparr>) list)"

definition missingPluginVendors :: "plugin_badge list \<Rightarrow> vendor list" where
  "missingPluginVendors badges = concat (map (\<lambda>b. case b_plugin b of Some p \<Rightarrow> if b_state b = Missing then [dp_vendor p] else [] | None \<Rightarrow> []) badges)"

section \<open>Measured values\<close>

record device_metric =
  d_util :: "real option"
  d_used :: "real option"
  d_memory :: "real option"
  d_percent :: "real option"
  d_pod :: "string option"
  d_namespace :: "string option"

definition pod_key :: "string \<Rightarrow> string \<Rightarrow> string" where
  "pod_key namespace name = namespace @ ''/'' @ name"

definition gpuHolderPods :: "gpu_pod list \<Rightarrow> (string \<times> string) list option \<Rightarrow> string list" where
  "gpuHolderPods gpu_pods dra_pods =
     uniq (map (\<lambda>(ns, n). pod_key ns n) (map (\<lambda>p. (g_namespace p, g_name p)) gpu_pods @ case_option [] id dra_pods))"

definition text_of :: "string option \<Rightarrow> string" where
  "text_of s = case_option ''undefined'' id s"

definition gpuSeriesPod :: "device_metric \<Rightarrow> string list \<Rightarrow> string" where
  "gpuSeriesPod gpu holders = (let key = pod_key (text_of (d_namespace gpu)) (text_of (d_pod gpu)) in
     if has_text (d_pod gpu) \<and> key \<in> set holders then key else [])"

definition gpuRealtimeAverages :: "int \<Rightarrow> real option \<Rightarrow> real option \<Rightarrow> real option \<Rightarrow> real option \<times> real option" where
  "gpuRealtimeAverages gpu_count avg_gpu_util avg_memory_util total_memory_mb =
     (if 0 < gpu_count then avg_gpu_util else None, if 0 < case_option 0 id total_memory_mb then avg_memory_util else None)"

text \<open>\<^verbatim>\<open>Math.round\<close>: half upwards.\<close>

definition gpuPercentText :: "real option \<Rightarrow> string" where
  "gpuPercentText value = (case value of None \<Rightarrow> ''-'' | Some v \<Rightarrow> show_int \<lfloor>v + 1 / 2\<rfloor> @ ''%'')"

definition gpusReportingUtil :: "device_metric list \<Rightarrow> nat" where
  "gpusReportingUtil gpus = length (filter (\<lambda>g. d_util g \<noteq> None) gpus)"

definition meanOf :: "real option list \<Rightarrow> real option" where
  "meanOf values = (let read = map the (filter (\<lambda>v. v \<noteq> None) values) in
     if 0 < length read then Some (fold (\<lambda>v s. s + v) read 0 / real (length read)) else None)"

definition gpuHostAverages :: "device_metric list \<Rightarrow> real option \<times> real option" where
  "gpuHostAverages gpus = (meanOf (map d_util gpus), meanOf (map d_percent gpus))"

record usage_sums =
  s_n :: nat
  s_reporting :: nat
  s_util :: real
  s_used :: real
  s_total :: real

definition no_usage :: usage_sums where
  "no_usage = \<lparr>s_n = 0, s_reporting = 0, s_util = 0, s_used = 0, s_total = 0\<rparr>"

definition add_usage :: "device_metric \<Rightarrow> usage_sums \<Rightarrow> usage_sums" where
  "add_usage g s =
     (let s1 = s\<lparr>s_n := s_n s + 1\<rparr>;
          s2 = (case d_util g of None \<Rightarrow> s1 | Some v \<Rightarrow> s1\<lparr>s_reporting := s_reporting s1 + 1, s_util := s_util s1 + v\<rparr>) in
      case d_memory g of None \<Rightarrow> s2 | Some t \<Rightarrow> s2\<lparr>s_used := s_used s2 + case_option 0 id (d_used g), s_total := s_total s2 + t\<rparr>)"

record pod_usage =
  pu_gpus :: nat
  pu_util :: "real option"
  pu_memory :: "real option"

definition usage_of_sums :: "usage_sums \<Rightarrow> pod_usage" where
  "usage_of_sums s = \<lparr>pu_gpus = s_n s, pu_util = (if 0 < s_reporting s then Some (s_util s / real (s_reporting s)) else None),
     pu_memory = (if 0 < s_total s then Some (s_used s / s_total s * 100) else None)\<rparr>"

definition names_pod :: "device_metric \<Rightarrow> bool" where
  "names_pod g \<longleftrightarrow> has_text (d_pod g) \<and> has_text (d_namespace g)"

definition metric_key :: "device_metric \<Rightarrow> string" where
  "metric_key g = pod_key (text_of (d_namespace g)) (text_of (d_pod g))"

definition podGpuUsage :: "device_metric list option \<Rightarrow> (string \<times> pod_usage) list" where
  "podGpuUsage gpus = map (\<lambda>(k, s). (k, usage_of_sums s)) (tally no_usage metric_key add_usage (filter names_pod (case_option [] id gpus)))"

section \<open>The tables count everything once\<close>

lemma gpus_of: "fold add_gpus vs e = \<lparr>m_count = m_count e + length vs, totalCapacity = totalCapacity e + (\<Sum>v\<leftarrow>vs. v_capacity v),
    totalAllocatable = totalAllocatable e + (\<Sum>v\<leftarrow>vs. v_allocatable v), totalUsed = totalUsed e + (\<Sum>v\<leftarrow>vs. v_used v)\<rparr>"
  by (induction vs arbitrary: e) (simp_all add: add_gpus_def)

text \<open>
  Each model of the GPU dashboard has one entry, which adds up exactly the GPUs of that model on the nodes (those without a model are
  one, Unknown); the entries go down in capacity, and together they are the capacity, the allocatable and the used GPUs of all nodes.
\<close>

theorem gpu_models_conserve:
  "let ms = gpuModels nodes; vs = vendors_of nodes in
   distinct (map fst ms) \<and>
   (\<forall>(k, e)\<in>set ms. m_count e = length (filter (\<lambda>v. model_name v = k) vs) \<and> totalCapacity e = (\<Sum>v\<leftarrow>filter (\<lambda>v. model_name v = k) vs. v_capacity v)) \<and>
   sorted_wrt (\<lambda>a b. totalCapacity (snd b) \<le> totalCapacity (snd a)) ms \<and>
   (\<Sum>(k, e)\<leftarrow>ms. totalCapacity e) = (\<Sum>v\<leftarrow>vs. v_capacity v) \<and>
   (\<Sum>(k, e)\<leftarrow>ms. totalAllocatable e) = (\<Sum>v\<leftarrow>vs. v_allocatable v) \<and>
   (\<Sum>(k, e)\<leftarrow>ms. totalUsed e) = (\<Sum>v\<leftarrow>vs. v_used v)"
proof -
  let ?t = "tally no_gpus model_name add_gpus (vendors_of nodes)"
  have "comparing by_capacity" by unfold_locales (auto simp: by_capacity_def)
  then have sorted: "sorted_wrt (\<lambda>a b. by_capacity a b \<le> 0) (gpuModels nodes)" unfolding gpuModels_def by (rule comparing.sort_sorted)
  have entries: "m_count e = length (filter (\<lambda>v. model_name v = k) (vendors_of nodes)) \<and>
      totalCapacity e = (\<Sum>v\<leftarrow>filter (\<lambda>v. model_name v = k) (vendors_of nodes). v_capacity v)" if "(k, e) \<in> set (gpuModels nodes)" for k e
    using that by (simp add: gpuModels_def in_tally gpus_of no_gpus_def)
  have total: "(\<Sum>(k, e)\<leftarrow>gpuModels nodes. g e) = (\<Sum>v\<leftarrow>vendors_of nodes. c v)"
    if "\<And>v e. g (add_gpus v e) = g e + c v" "g no_gpus = 0" for g :: "model_entry \<Rightarrow> int" and c
    unfolding gpuModels_def sum_list_js_sort by (rule sum_tally) (use that in auto)
  show ?thesis
    using sorted entries total [of totalCapacity v_capacity] total [of totalAllocatable v_allocatable] total [of totalUsed v_used] keys_tally [of no_gpus model_name add_gpus]
    by (auto simp: Let_def by_capacity_def add_gpus_def no_gpus_def gpuModels_def)
qed

lemma sums_of: "fold add_usage gs s = \<lparr>s_n = s_n s + length gs, s_reporting = s_reporting s + length (filter (\<lambda>g. d_util g \<noteq> None) gs),
    s_util = s_util s + (\<Sum>g\<leftarrow>gs. case_option 0 id (d_util g)),
    s_used = s_used s + (\<Sum>g\<leftarrow>filter (\<lambda>g. d_memory g \<noteq> None) gs. case_option 0 id (d_used g)),
    s_total = s_total s + (\<Sum>g\<leftarrow>gs. case_option 0 id (d_memory g))\<rparr>"
  by (induction gs arbitrary: s) (auto simp: add_usage_def Let_def split: option.splits)

lemma readings_bound:
  assumes "\<forall>g\<in>set gs. \<forall>v. d_util g = Some v \<longrightarrow> 0 \<le> v \<and> v \<le> 100"
  shows "0 \<le> (\<Sum>g\<leftarrow>gs. case_option 0 id (d_util g)) \<and> (\<Sum>g\<leftarrow>gs. case_option 0 id (d_util g)) \<le> 100 * real (length (filter (\<lambda>g. d_util g \<noteq> None) gs))"
  using assms
proof (induction gs)
  case (Cons g gs)
  then show ?case by (cases "d_util g") (auto simp: algebra_simps)
qed simp

lemma memory_bound:
  assumes "\<forall>g\<in>set gs. \<forall>t. d_memory g = Some t \<longrightarrow> 0 \<le> case_option 0 id (d_used g) \<and> case_option 0 id (d_used g) \<le> t"
  shows "0 \<le> (\<Sum>g\<leftarrow>filter (\<lambda>g. d_memory g \<noteq> None) gs. case_option 0 id (d_used g)) \<and>
    (\<Sum>g\<leftarrow>filter (\<lambda>g. d_memory g \<noteq> None) gs. case_option 0 id (d_used g)) \<le> (\<Sum>g\<leftarrow>gs. case_option 0 id (d_memory g))"
  using assms
proof (induction gs)
  case (Cons g gs)
  then show ?case by (cases "d_memory g") auto
qed simp

text \<open>
  C40: The table of the pods' GPUs has one row for each pod that some GPU's series names, with the number of those GPUs; where GPUs report
  percentages and no more memory used than there is, the row's are percentages too: the mean of the GPUs that report, none where none does.
\<close>

theorem pod_usage_in_bounds:
  assumes "\<forall>g\<in>set gpus. (\<forall>v. d_util g = Some v \<longrightarrow> 0 \<le> v \<and> v \<le> 100) \<and>
    (\<forall>t. d_memory g = Some t \<longrightarrow> 0 \<le> case_option 0 id (d_used g) \<and> case_option 0 id (d_used g) \<le> t)"
  shows "distinct (map fst (podGpuUsage (Some gpus))) \<and> fst ` set (podGpuUsage (Some gpus)) = metric_key ` {g \<in> set gpus. names_pod g} \<and>
    (\<forall>(k, u)\<in>set (podGpuUsage (Some gpus)). let gs = filter (\<lambda>g. names_pod g \<and> metric_key g = k) gpus in
       pu_gpus u = length gs \<and> 0 < pu_gpus u \<and> (pu_util u = None \<longleftrightarrow> (\<forall>g\<in>set gs. d_util g = None)) \<and>
       (\<forall>v. pu_util u = Some v \<longrightarrow> 0 \<le> v \<and> v \<le> 100 \<and> v * real (gpusReportingUtil gs) = (\<Sum>g\<leftarrow>gs. case_option 0 id (d_util g))) \<and>
       (\<forall>v. pu_memory u = Some v \<longrightarrow> 0 \<le> v \<and> v \<le> 100))"
proof -
  have keys: "map fst (podGpuUsage (Some gpus)) = map fst (tally no_usage metric_key add_usage (filter names_pod gpus))"
    by (simp add: podGpuUsage_def comp_def case_prod_unfold)
  note tally = keys_tally [of no_usage metric_key add_usage "filter names_pod gpus"]
  have names: "fst ` set (podGpuUsage (Some gpus)) = metric_key ` {g \<in> set gpus. names_pod g}"
    using arg_cong [OF keys, of set] tally by simp
  have row: "let gs = filter (\<lambda>g. names_pod g \<and> metric_key g = k) gpus in
      pu_gpus u = length gs \<and> 0 < pu_gpus u \<and> (pu_util u = None \<longleftrightarrow> (\<forall>g\<in>set gs. d_util g = None)) \<and>
      (\<forall>v. pu_util u = Some v \<longrightarrow> 0 \<le> v \<and> v \<le> 100 \<and> v * real (gpusReportingUtil gs) = (\<Sum>g\<leftarrow>gs. case_option 0 id (d_util g))) \<and>
      (\<forall>v. pu_memory u = Some v \<longrightarrow> 0 \<le> v \<and> v \<le> 100)" if ku: "(k, u) \<in> set (podGpuUsage (Some gpus))" for k u
  proof -
    define gs where "gs = filter (\<lambda>g. names_pod g \<and> metric_key g = k) gpus"
    have "filter (\<lambda>g. metric_key g = k) (filter names_pod gpus) = gs" by (auto simp: gs_def intro: filter_cong)
    then have u: "u = usage_of_sums (fold add_usage gs no_usage)" using ku by (auto simp: podGpuUsage_def in_tally)
    have "k \<in> metric_key ` {g \<in> set gpus. names_pod g}" using ku names by force
    then have "gs \<noteq> []" by (auto simp: gs_def filter_empty_conv)
    moreover have "\<forall>g\<in>set gs. \<forall>v. d_util g = Some v \<longrightarrow> 0 \<le> v \<and> v \<le> 100" using assms by (auto simp: gs_def)
    note util = readings_bound [OF this]
    have "\<forall>g\<in>set gs. \<forall>t. d_memory g = Some t \<longrightarrow> 0 \<le> case_option 0 id (d_used g) \<and> case_option 0 id (d_used g) \<le> t" using assms by (auto simp: gs_def)
    note memory = memory_bound [OF this]
    show ?thesis unfolding Let_def gs_def [symmetric] u
      using \<open>gs \<noteq> []\<close> util memory
      by (auto simp: usage_of_sums_def sums_of no_usage_def gpusReportingUtil_def filter_empty_conv divide_le_eq pos_divide_le_eq zero_le_divide_iff)
  qed
  show ?thesis using names row tally unfolding keys by blast
qed

text \<open>Two GPUs of a pod, of which one reports.\<close>

definition two_gpus :: "device_metric list" where
  "two_gpus = [\<lparr>d_util = Some 40, d_used = Some 2, d_memory = Some 8, d_percent = Some 25, d_pod = Some ''p'', d_namespace = Some ''web''\<rparr>,
     \<lparr>d_util = None, d_used = None, d_memory = None, d_percent = None, d_pod = Some ''p'', d_namespace = Some ''web''\<rparr>]"

theorem pod_usage_in_bounds_witness:
  "distinct (map fst (podGpuUsage (Some two_gpus))) \<and> fst ` set (podGpuUsage (Some two_gpus)) = {''web/p''}"
proof -
  have h: "\<forall>g\<in>set two_gpus. (\<forall>v. d_util g = Some v \<longrightarrow> 0 \<le> v \<and> v \<le> 100) \<and>
      (\<forall>t. d_memory g = Some t \<longrightarrow> 0 \<le> case_option 0 id (d_used g) \<and> case_option 0 id (d_used g) \<le> t)" by (simp add: two_gpus_def)
  have "{g \<in> set two_gpus. names_pod g} = set two_gpus" by (auto simp: two_gpus_def names_pod_def has_text_def)
  moreover have "metric_key ` set two_gpus = {''web/p''}" by (simp add: two_gpus_def metric_key_def pod_key_def text_of_def)
  moreover have "distinct (map fst (podGpuUsage (Some two_gpus)))" "fst ` set (podGpuUsage (Some two_gpus)) = metric_key ` {g \<in> set two_gpus. names_pod g}"
    using pod_usage_in_bounds [OF h] by blast+
  ultimately show ?thesis by simp
qed

section \<open>Every pod in one card\<close>

text \<open>A pod counts as failed, as running or as pending, never as two; those of another phase count in the total only.\<close>

lemma pod_cards_apart:
  "let c = gpuPodCounts pods in c_failed c = int (length (filter failing pods)) \<and> c_running c + c_pending c + nat (c_failed c) \<le> c_total c"
proof -
  let ?h = "filter (\<lambda>p. \<not> failing p) pods"
  have parts: "length (filter failing pods) + length ?h = length pods" by (rule sum_length_filter_compl)
  have "length (filter (\<lambda>p. g_phase p = Some ''Running'') ?h) + length (filter (\<lambda>p. g_phase p = Some ''Pending'') ?h) \<le> length ?h"
    by (induction pods) auto
  then show ?thesis using parts by (simp add: gpuPodCounts_def Let_def)
qed

lemma node_counts_split: "nc_notReady (gpuNodeCounts nodes) = int (length (filter (\<lambda>n. nodeReadiness (Some (n_status n)) \<noteq> Ready) nodes))"
  using sum_length_filter_compl [of "\<lambda>n. nodeReadiness (Some (n_status n)) = Ready" nodes] by (simp add: gpuNodeCounts_def Let_def)

end
