(* ===== verification/Object_Actions.thy ===== *)
theory Object_Actions
  imports Prelude
begin

text \<open>
  What the drawer does to the object it shows: the request that deletes it and the answers that are then read anew
  (\<^verbatim>\<open>frontend/src/components/resource-detail/useResourceDelete.ts\<close>, with the delete calls of \<^verbatim>\<open>frontend/src/services/api\<close>), the requests of
  its YAML (\<^verbatim>\<open>useResourceYaml.ts\<close>), and what stands in the way (\<^verbatim>\<open>systemObject.ts\<close>, \<^verbatim>\<open>gitops.ts\<close>). A namespace is empty where there is
  none. The chains of \<^verbatim>\<open>if (kind === ...)\<close> are tables in their order; their kinds are distinct.
\<close>

section \<open>The delete calls\<close>

text \<open>The address of each call, below the client's base.\<close>

definition deletePod :: "string \<Rightarrow> string \<Rightarrow> string" where
  "deletePod namespace name = ''/cluster/namespaces/'' @ namespace @ ''/pods/'' @ name"

definition deleteNamespace :: "string \<Rightarrow> string" where
  "deleteNamespace name = ''/cluster/namespaces/'' @ name"

definition deleteNode :: "string \<Rightarrow> string" where
  "deleteNode name = ''/cluster/nodes/'' @ name"

definition deleteDeployment :: "string \<Rightarrow> string \<Rightarrow> string" where
  "deleteDeployment namespace name = ''/cluster/namespaces/'' @ namespace @ ''/deployments/'' @ name"

definition deleteStatefulSet :: "string \<Rightarrow> string \<Rightarrow> string" where
  "deleteStatefulSet namespace name = ''/cluster/namespaces/'' @ namespace @ ''/statefulsets/'' @ name"

definition deleteDaemonSet :: "string \<Rightarrow> string \<Rightarrow> string" where
  "deleteDaemonSet namespace name = ''/cluster/namespaces/'' @ namespace @ ''/daemonsets/'' @ name"

definition deleteJob :: "string \<Rightarrow> string \<Rightarrow> string" where
  "deleteJob namespace name = ''/cluster/namespaces/'' @ namespace @ ''/jobs/'' @ name"

definition deleteReplicaSet :: "string \<Rightarrow> string \<Rightarrow> string" where
  "deleteReplicaSet namespace name = ''/cluster/namespaces/'' @ namespace @ ''/replicasets/'' @ name"

definition deleteCronJob :: "string \<Rightarrow> string \<Rightarrow> string" where
  "deleteCronJob namespace name = ''/cluster/namespaces/'' @ namespace @ ''/cronjobs/'' @ name"

definition deletePVC :: "string \<Rightarrow> string \<Rightarrow> string" where
  "deletePVC namespace name = ''/cluster/namespaces/'' @ namespace @ ''/pvcs/'' @ name"

definition deletePV :: "string \<Rightarrow> string" where
  "deletePV name = ''/cluster/pvs/'' @ name"

definition deleteStorageClass :: "string \<Rightarrow> string" where
  "deleteStorageClass name = ''/cluster/storageclasses/'' @ name"

definition deleteVolumeAttachment :: "string \<Rightarrow> string" where
  "deleteVolumeAttachment name = ''/cluster/volumeattachments/'' @ name"

definition deleteService :: "string \<Rightarrow> string \<Rightarrow> string" where
  "deleteService namespace name = ''/cluster/namespaces/'' @ namespace @ ''/services/'' @ name"

definition deleteEndpoint :: "string \<Rightarrow> string \<Rightarrow> string" where
  "deleteEndpoint namespace name = ''/cluster/namespaces/'' @ namespace @ ''/endpoints/'' @ name"

definition deleteEndpointSlice :: "string \<Rightarrow> string \<Rightarrow> string" where
  "deleteEndpointSlice namespace name = ''/cluster/namespaces/'' @ namespace @ ''/endpointslices/'' @ name"

definition deleteIngress :: "string \<Rightarrow> string \<Rightarrow> string" where
  "deleteIngress namespace name = ''/cluster/namespaces/'' @ namespace @ ''/ingresses/'' @ name"

definition deleteIngressClass :: "string \<Rightarrow> string" where
  "deleteIngressClass name = ''/cluster/ingressclasses/'' @ name"

definition deleteNetworkPolicy :: "string \<Rightarrow> string \<Rightarrow> string" where
  "deleteNetworkPolicy namespace name = ''/cluster/namespaces/'' @ namespace @ ''/networkpolicies/'' @ name"

definition deleteGateway :: "string \<Rightarrow> string \<Rightarrow> string" where
  "deleteGateway namespace name = ''/cluster/namespaces/'' @ namespace @ ''/gateways/'' @ name"

definition deleteGatewayClass :: "string \<Rightarrow> string" where
  "deleteGatewayClass name = ''/cluster/gatewayclasses/'' @ name"

definition deleteHTTPRoute :: "string \<Rightarrow> string \<Rightarrow> string" where
  "deleteHTTPRoute namespace name = ''/cluster/namespaces/'' @ namespace @ ''/httproutes/'' @ name"

definition deleteGRPCRoute :: "string \<Rightarrow> string \<Rightarrow> string" where
  "deleteGRPCRoute namespace name = ''/cluster/namespaces/'' @ namespace @ ''/grpcroutes/'' @ name"

definition deleteReferenceGrant :: "string \<Rightarrow> string \<Rightarrow> string" where
  "deleteReferenceGrant namespace name = ''/cluster/namespaces/'' @ namespace @ ''/referencegrants/'' @ name"

definition deleteBackendTLSPolicy :: "string \<Rightarrow> string \<Rightarrow> string" where
  "deleteBackendTLSPolicy namespace name = ''/cluster/namespaces/'' @ namespace @ ''/backendtlspolicies/'' @ name"

definition deleteDeviceClass :: "string \<Rightarrow> string" where
  "deleteDeviceClass name = ''/cluster/deviceclasses/'' @ name"

definition deleteResourceClaim :: "string \<Rightarrow> string \<Rightarrow> string" where
  "deleteResourceClaim namespace name = ''/cluster/namespaces/'' @ namespace @ ''/resourceclaims/'' @ name"

definition deleteResourceClaimTemplate :: "string \<Rightarrow> string \<Rightarrow> string" where
  "deleteResourceClaimTemplate namespace name = ''/cluster/namespaces/'' @ namespace @ ''/resourceclaimtemplates/'' @ name"

definition deleteResourceSlice :: "string \<Rightarrow> string" where
  "deleteResourceSlice name = ''/cluster/resourceslices/'' @ name"

definition deleteServiceAccount :: "string \<Rightarrow> string \<Rightarrow> string" where
  "deleteServiceAccount namespace name = ''/cluster/namespaces/'' @ namespace @ ''/serviceaccounts/'' @ name"

definition deleteRole :: "string \<Rightarrow> string \<Rightarrow> string" where
  "deleteRole namespace name = ''/cluster/namespaces/'' @ namespace @ ''/roles/'' @ name"

definition deleteRoleBinding :: "string \<Rightarrow> string \<Rightarrow> string" where
  "deleteRoleBinding namespace name = ''/cluster/namespaces/'' @ namespace @ ''/rolebindings/'' @ name"

definition deleteClusterRole :: "string \<Rightarrow> string" where
  "deleteClusterRole name = ''/cluster/clusterroles/'' @ name"

definition deleteClusterRoleBinding :: "string \<Rightarrow> string" where
  "deleteClusterRoleBinding name = ''/cluster/clusterrolebindings/'' @ name"

definition deleteConfigMap :: "string \<Rightarrow> string \<Rightarrow> string" where
  "deleteConfigMap namespace name = ''/cluster/namespaces/'' @ namespace @ ''/configmaps/'' @ name"

definition deleteSecret :: "string \<Rightarrow> string \<Rightarrow> string" where
  "deleteSecret namespace name = ''/cluster/namespaces/'' @ namespace @ ''/secrets/'' @ name"

definition deleteHPA :: "string \<Rightarrow> string \<Rightarrow> string" where
  "deleteHPA namespace name = ''/cluster/namespaces/'' @ namespace @ ''/hpas/'' @ name"

definition deleteVPA :: "string \<Rightarrow> string \<Rightarrow> string" where
  "deleteVPA namespace name = ''/cluster/namespaces/'' @ namespace @ ''/vpas/'' @ name"

definition deletePDB :: "string \<Rightarrow> string \<Rightarrow> string" where
  "deletePDB namespace name = ''/cluster/namespaces/'' @ namespace @ ''/pdbs/'' @ name"

definition deletePriorityClass :: "string \<Rightarrow> string" where
  "deletePriorityClass name = ''/cluster/priorityclasses/'' @ name"

definition deleteRuntimeClass :: "string \<Rightarrow> string" where
  "deleteRuntimeClass name = ''/cluster/runtimeclasses/'' @ name"

definition deleteLease :: "string \<Rightarrow> string \<Rightarrow> string" where
  "deleteLease namespace name = ''/cluster/namespaces/'' @ namespace @ ''/leases/'' @ name"

definition deleteResourceQuota :: "string \<Rightarrow> string \<Rightarrow> string" where
  "deleteResourceQuota namespace name = ''/cluster/namespaces/'' @ namespace @ ''/resourcequotas/'' @ name"

definition deleteLimitRange :: "string \<Rightarrow> string \<Rightarrow> string" where
  "deleteLimitRange namespace name = ''/cluster/namespaces/'' @ namespace @ ''/limitranges/'' @ name"

definition deleteMutatingWebhookConfiguration :: "string \<Rightarrow> string" where
  "deleteMutatingWebhookConfiguration name = ''/cluster/mutatingwebhookconfigurations/'' @ name"

definition deleteValidatingWebhookConfiguration :: "string \<Rightarrow> string" where
  "deleteValidatingWebhookConfiguration name = ''/cluster/validatingwebhookconfigurations/'' @ name"

definition deleteCRD :: "string \<Rightarrow> string" where
  "deleteCRD name = ''/cluster/crds/'' @ name"

definition deleteCustomResourceInstance :: "string \<Rightarrow> string \<Rightarrow> string \<Rightarrow> string \<Rightarrow> string \<Rightarrow> string" where
  "deleteCustomResourceInstance grp version plural namespace name = ''/cluster/custom-resources/'' @ grp @ ''/'' @ version @ ''/'' @ plural @ ''/'' @ namespace @ ''/'' @ name"

section \<open>Deleting the object of a drawer\<close>

datatype delete_fn = Namespaced "string \<Rightarrow> string \<Rightarrow> string" | ClusterWide "string \<Rightarrow> string"

record action_target =
  a_kind :: string
  a_ns :: string
  a_name :: string
  a_raw :: "string \<Rightarrow> string option"

definition DELETES :: "(string \<times> delete_fn) list" where
  "DELETES = [
    (''Pod'', Namespaced deletePod), (''Namespace'', ClusterWide deleteNamespace), (''Node'', ClusterWide deleteNode),
    (''Deployment'', Namespaced deleteDeployment), (''StatefulSet'', Namespaced deleteStatefulSet), (''DaemonSet'', Namespaced deleteDaemonSet),
    (''Job'', Namespaced deleteJob), (''ReplicaSet'', Namespaced deleteReplicaSet), (''CronJob'', Namespaced deleteCronJob),
    (''PersistentVolumeClaim'', Namespaced deletePVC), (''PersistentVolume'', ClusterWide deletePV), (''StorageClass'', ClusterWide deleteStorageClass),
    (''VolumeAttachment'', ClusterWide deleteVolumeAttachment), (''Service'', Namespaced deleteService), (''Endpoints'', Namespaced deleteEndpoint),
    (''EndpointSlice'', Namespaced deleteEndpointSlice), (''Ingress'', Namespaced deleteIngress), (''IngressClass'', ClusterWide deleteIngressClass),
    (''NetworkPolicy'', Namespaced deleteNetworkPolicy), (''Gateway'', Namespaced deleteGateway), (''GatewayClass'', ClusterWide deleteGatewayClass),
    (''HTTPRoute'', Namespaced deleteHTTPRoute), (''GRPCRoute'', Namespaced deleteGRPCRoute), (''ReferenceGrant'', Namespaced deleteReferenceGrant),
    (''BackendTLSPolicy'', Namespaced deleteBackendTLSPolicy), (''DeviceClass'', ClusterWide deleteDeviceClass), (''ResourceClaim'', Namespaced deleteResourceClaim),
    (''ResourceClaimTemplate'', Namespaced deleteResourceClaimTemplate), (''ResourceSlice'', ClusterWide deleteResourceSlice), (''ServiceAccount'', Namespaced deleteServiceAccount),
    (''Role'', Namespaced deleteRole), (''RoleBinding'', Namespaced deleteRoleBinding), (''ClusterRole'', ClusterWide deleteClusterRole),
    (''ClusterRoleBinding'', ClusterWide deleteClusterRoleBinding), (''ConfigMap'', Namespaced deleteConfigMap), (''Secret'', Namespaced deleteSecret),
    (''HorizontalPodAutoscaler'', Namespaced deleteHPA), (''VerticalPodAutoscaler'', Namespaced deleteVPA), (''PodDisruptionBudget'', Namespaced deletePDB),
    (''PriorityClass'', ClusterWide deletePriorityClass), (''RuntimeClass'', ClusterWide deleteRuntimeClass), (''Lease'', Namespaced deleteLease),
    (''ResourceQuota'', Namespaced deleteResourceQuota), (''LimitRange'', Namespaced deleteLimitRange), (''MutatingWebhookConfiguration'', ClusterWide deleteMutatingWebhookConfiguration),
    (''ValidatingWebhookConfiguration'', ClusterWide deleteValidatingWebhookConfiguration), (''CustomResourceDefinition'', ClusterWide deleteCRD)]"

definition raw_text :: "action_target \<Rightarrow> string \<Rightarrow> string" where
  "raw_text t k = (case a_raw t k of None \<Rightarrow> [] | Some s \<Rightarrow> s)"

definition cr_plural :: "action_target \<Rightarrow> string" where
  "cr_plural t = takeWhile (\<lambda>c. c \<noteq> CHR ''.'') (raw_text t ''crd_name'')"

text \<open>The address asked to be deleted; \<open>None\<close> where the code throws that deleting is not supported.\<close>

definition delete_request :: "action_target \<Rightarrow> string option" where
  "delete_request t =
     (if a_kind t = ''CustomResourceInstance'' then
        (if raw_text t ''group'' \<noteq> [] \<and> raw_text t ''version'' \<noteq> [] \<and> cr_plural t \<noteq> [] then
           Some (deleteCustomResourceInstance (raw_text t ''group'') (raw_text t ''version'') (cr_plural t) (if a_ns t \<noteq> [] then a_ns t else ''-'') (a_name t))
         else None)
      else (case map_of DELETES (a_kind t) of
          None \<Rightarrow> None
        | Some (ClusterWide f) \<Rightarrow> Some (f (a_name t))
        | Some (Namespaced f) \<Rightarrow> if a_ns t \<noteq> [] then Some (f (a_ns t) (a_name t)) else None))"

section \<open>Answers read anew\<close>

datatype key_part = Word string | Ns | Name | Kind

definition key_text :: "string \<Rightarrow> string \<Rightarrow> string \<Rightarrow> key_part \<Rightarrow> string" where
  "key_text kind ns name p = (case p of Word w \<Rightarrow> w | Ns \<Rightarrow> ns | Name \<Rightarrow> name | Kind \<Rightarrow> kind)"

definition AFTER_DELETE :: "(string \<times> bool \<times> key_part list list) list" where
  "AFTER_DELETE = [
    (''Pod'', True, [[Word ''workloads'', Word ''pods''], [Word ''workloads'', Word ''pods'', Ns], [Word ''pod-describe'', Ns, Name], [Word ''namespace-pods'', Ns]]),
    (''Node'', False, [[Word ''cluster'', Word ''nodes''], [Word ''cluster'', Word ''nodes'', Word ''describe'', Name], [Word ''cluster'', Word ''nodes'', Word ''pods'', Name], [Word ''cluster'', Word ''node-metrics'']]),
    (''Namespace'', False, [[Word ''namespaces''], [Word ''namespace-describe'', Name], [Word ''namespace-pods'', Name], [Word ''namespace-rq'', Name], [Word ''namespace-lr'', Name]]),
    (''Deployment'', True, [[Word ''workloads'', Word ''deployments''], [Word ''workloads'', Word ''deployments'', Ns]]),
    (''StatefulSet'', True, [[Word ''workloads'', Word ''statefulsets''], [Word ''workloads'', Word ''statefulsets'', Ns], [Word ''statefulset-describe'', Ns, Name]]),
    (''DaemonSet'', True, [[Word ''workloads'', Word ''daemonsets''], [Word ''workloads'', Word ''daemonsets'', Ns], [Word ''daemonset-describe'', Ns, Name], [Word ''workload-describe'', Word ''DaemonSet'', Ns, Name]]),
    (''Job'', True, [[Word ''workloads'', Word ''jobs''], [Word ''workloads'', Word ''jobs'', Ns], [Word ''workload-describe'', Word ''Job'', Ns, Name]]),
    (''ReplicaSet'', True, [[Word ''workloads'', Word ''replicasets''], [Word ''workloads'', Word ''replicasets'', Ns], [Word ''replicasets'', Ns], [Word ''workload-describe'', Word ''ReplicaSet'', Ns, Name]]),
    (''CronJob'', True, [[Word ''workloads'', Word ''cronjobs''], [Word ''workloads'', Word ''cronjobs'', Ns], [Word ''workload-describe'', Word ''CronJob'', Ns, Name]]),
    (''PersistentVolumeClaim'', True, [[Word ''storage'', Word ''pvcs''], [Word ''storage'', Word ''pvcs'', Word ''all''], [Word ''storage'', Word ''pvcs'', Ns], [Word ''pvc-describe'', Ns, Name]]),
    (''PersistentVolume'', False, [[Word ''storage'', Word ''pvs''], [Word ''pv-describe'', Name]]),
    (''StorageClass'', False, [[Word ''storage'', Word ''storageclasses''], [Word ''storageclass-describe'', Name]]),
    (''VolumeAttachment'', False, [[Word ''storage'', Word ''volumeattachments''], [Word ''volumeattachment-describe'', Name]]),
    (''Service'', True, [[Word ''network'', Word ''services''], [Word ''network'', Word ''services'', Ns], [Word ''service-describe'', Ns, Name]]),
    (''Endpoints'', True, [[Word ''network'', Word ''endpoints''], [Word ''network'', Word ''endpoints'', Ns], [Word ''endpoint-describe'', Ns, Name]]),
    (''EndpointSlice'', True, [[Word ''network'', Word ''endpointslices''], [Word ''network'', Word ''endpointslices'', Ns], [Word ''endpointslice-describe'', Ns, Name]]),
    (''Ingress'', True, [[Word ''network'', Word ''ingresses''], [Word ''network'', Word ''ingresses'', Ns], [Word ''ingress-detail'', Ns, Name]]),
    (''IngressClass'', False, [[Word ''network'', Word ''ingressclasses''], [Word ''ingressclass-describe'', Name]]),
    (''NetworkPolicy'', True, [[Word ''network'', Word ''networkpolicies''], [Word ''network'', Word ''networkpolicies'', Ns], [Word ''networkpolicy-describe'', Ns, Name]]),
    (''Gateway'', True, [[Word ''gateway'', Word ''gateways''], [Word ''gateway'', Word ''gateways'', Ns], [Word ''gateway-describe'', Ns, Name]]),
    (''GatewayClass'', False, [[Word ''gateway'', Word ''gatewayclasses''], [Word ''gatewayclass-describe'', Name]]),
    (''HTTPRoute'', True, [[Word ''gateway'', Word ''httproutes''], [Word ''gateway'', Word ''httproutes'', Ns], [Word ''httproute-describe'', Ns, Name]]),
    (''GRPCRoute'', True, [[Word ''gateway'', Word ''grpcroutes''], [Word ''gateway'', Word ''grpcroutes'', Ns], [Word ''grpcroute-describe'', Ns, Name]]),
    (''ReferenceGrant'', True, [[Word ''gateway'', Word ''referencegrants''], [Word ''gateway'', Word ''referencegrants'', Ns], [Word ''referencegrant-describe'', Ns, Name]]),
    (''BackendTLSPolicy'', True, [[Word ''gateway'', Word ''backendtlspolicies''], [Word ''gateway'', Word ''backendtlspolicies'', Ns], [Word ''backendtlspolicy-describe'', Ns, Name]]),
    (''DeviceClass'', False, [[Word ''gpu'', Word ''deviceclasses''], [Word ''deviceclass-describe'', Name]]),
    (''ResourceClaim'', True, [[Word ''gpu'', Word ''resourceclaims''], [Word ''resourceclaim-describe'', Ns, Name]]),
    (''ResourceClaimTemplate'', True, [[Word ''gpu'', Word ''resourceclaimtemplates''], [Word ''resourceclaimtemplate-describe'', Ns, Name]]),
    (''ResourceSlice'', False, [[Word ''gpu'', Word ''resourceslices''], [Word ''resourceslice-describe'', Name]]),
    (''ServiceAccount'', True, [[Word ''security'', Word ''serviceaccounts''], [Word ''security'', Word ''serviceaccounts'', Ns], [Word ''serviceaccount-describe'', Ns, Name]]),
    (''Role'', True, [[Word ''security'', Word ''roles''], [Word ''security'', Word ''roles'', Ns], [Word ''role-describe'', Ns, Name]]),
    (''RoleBinding'', True, [[Word ''security'', Word ''rolebindings''], [Word ''security'', Word ''rolebindings'', Ns], [Word ''rolebinding-describe'', Ns, Name]]),
    (''ClusterRole'', False, [[Word ''security'', Word ''clusterroles''], [Word ''clusterrole-describe'', Name]]),
    (''ClusterRoleBinding'', False, [[Word ''security'', Word ''clusterrolebindings''], [Word ''clusterrolebinding-describe'', Name]]),
    (''ConfigMap'', True, [[Word ''configuration'', Word ''configmaps''], [Word ''configuration'', Word ''configmaps'', Ns], [Word ''configmap-describe'', Ns, Name]]),
    (''Secret'', True, [[Word ''configuration'', Word ''secrets''], [Word ''configuration'', Word ''secrets'', Ns], [Word ''secret-describe'', Ns, Name]]),
    (''HorizontalPodAutoscaler'', True, [[Word ''workloads'', Word ''hpas''], [Word ''workloads'', Word ''hpas'', Ns], [Word ''hpa-describe'', Ns, Name]]),
    (''VerticalPodAutoscaler'', True, [[Word ''workloads'', Word ''vpas''], [Word ''workloads'', Word ''vpas'', Ns], [Word ''vpa-describe'', Ns, Name]]),
    (''PodDisruptionBudget'', True, [[Word ''workloads'', Word ''pdbs''], [Word ''workloads'', Word ''pdbs'', Ns], [Word ''pdb-describe'', Ns, Name]]),
    (''PriorityClass'', False, [[Word ''cluster'', Word ''priorityclasses''], [Word ''priorityclass-describe'', Name]]),
    (''RuntimeClass'', False, [[Word ''cluster'', Word ''runtimeclasses''], [Word ''runtimeclass-describe'', Name]]),
    (''Lease'', True, [[Word ''cluster'', Word ''leases''], [Word ''cluster'', Word ''leases'', Ns], [Word ''lease-describe'', Ns, Name]]),
    (''ResourceQuota'', True, [[Word ''cluster'', Word ''resourcequotas''], [Word ''cluster'', Word ''resourcequotas'', Ns], [Word ''resourcequota-describe'', Ns, Name], [Word ''namespace-rq'', Ns]]),
    (''LimitRange'', True, [[Word ''cluster'', Word ''limitranges''], [Word ''cluster'', Word ''limitranges'', Ns], [Word ''limitrange-describe'', Ns, Name], [Word ''namespace-lr'', Ns]]),
    (''MutatingWebhookConfiguration'', False, [[Word ''cluster'', Word ''mutatingwebhookconfigurations''], [Word ''mutatingwebhookconfiguration-describe'', Name]]),
    (''ValidatingWebhookConfiguration'', False, [[Word ''cluster'', Word ''validatingwebhookconfigurations''], [Word ''validatingwebhookconfiguration-describe'', Name]]),
    (''CustomResourceDefinition'', False, [[Word ''custom-resources'', Word ''crds''], [Word ''crd-describe'', Name]]),
    (''CustomResourceInstance'', False, [[Word ''custom-resources'', Word ''instances''], [Word ''cr-instance-describe'']])]"

definition AFTER_APPLY :: "(string \<times> bool \<times> key_part list list) list" where
  "AFTER_APPLY = [
    (''Node'', False, [[Word ''cluster'', Word ''nodes''], [Word ''cluster'', Word ''nodes'', Word ''describe'', Name], [Word ''cluster'', Word ''nodes'', Word ''pods'', Name], [Word ''cluster'', Word ''node-metrics'']]),
    (''Namespace'', False, [[Word ''namespace-describe'', Name], [Word ''namespaces''], [Word ''namespace-resource-quotas'', Name], [Word ''namespace-limit-ranges'', Name]]),
    (''Pod'', False, [[Word ''pod-describe'', Ns, Name], [Word ''cluster'', Word ''pods'']]),
    (''PersistentVolumeClaim'', True, [[Word ''storage'', Word ''pvcs''], [Word ''storage'', Word ''pvcs'', Ns], [Word ''pvc-describe'', Ns, Name]]),
    (''PersistentVolume'', False, [[Word ''storage'', Word ''pvs''], [Word ''pv-describe'', Name]]),
    (''StorageClass'', False, [[Word ''storage'', Word ''storageclasses''], [Word ''storageclass-describe'', Name]]),
    (''VolumeAttachment'', False, [[Word ''storage'', Word ''volumeattachments''], [Word ''volumeattachment-describe'', Name]]),
    (''Endpoints'', True, [[Word ''network'', Word ''endpoints''], [Word ''network'', Word ''endpoints'', Ns], [Word ''endpoint-describe'', Ns, Name]]),
    (''EndpointSlice'', True, [[Word ''network'', Word ''endpointslices''], [Word ''network'', Word ''endpointslices'', Ns], [Word ''endpointslice-describe'', Ns, Name]]),
    (''Ingress'', True, [[Word ''network'', Word ''ingresses''], [Word ''network'', Word ''ingresses'', Ns], [Word ''ingress-detail'', Ns, Name]]),
    (''IngressClass'', False, [[Word ''network'', Word ''ingressclasses''], [Word ''ingressclass-describe'', Name]]),
    (''NetworkPolicy'', True, [[Word ''network'', Word ''networkpolicies''], [Word ''network'', Word ''networkpolicies'', Ns], [Word ''networkpolicy-describe'', Ns, Name]]),
    (''Gateway'', True, [[Word ''gateway'', Word ''gateways''], [Word ''gateway'', Word ''gateways'', Ns], [Word ''gateway-describe'', Ns, Name]]),
    (''GatewayClass'', False, [[Word ''gateway'', Word ''gatewayclasses''], [Word ''gatewayclass-describe'', Name]]),
    (''HTTPRoute'', True, [[Word ''gateway'', Word ''httproutes''], [Word ''gateway'', Word ''httproutes'', Ns], [Word ''httproute-describe'', Ns, Name]]),
    (''GRPCRoute'', True, [[Word ''gateway'', Word ''grpcroutes''], [Word ''gateway'', Word ''grpcroutes'', Ns], [Word ''grpcroute-describe'', Ns, Name]]),
    (''ReferenceGrant'', True, [[Word ''gateway'', Word ''referencegrants''], [Word ''gateway'', Word ''referencegrants'', Ns], [Word ''referencegrant-describe'', Ns, Name]]),
    (''BackendTLSPolicy'', True, [[Word ''gateway'', Word ''backendtlspolicies''], [Word ''gateway'', Word ''backendtlspolicies'', Ns], [Word ''backendtlspolicy-describe'', Ns, Name]]),
    (''DeviceClass'', False, [[Word ''gpu'', Word ''deviceclasses''], [Word ''deviceclass-describe'', Name]]),
    (''ResourceClaim'', True, [[Word ''gpu'', Word ''resourceclaims''], [Word ''resourceclaim-describe'', Ns, Name]]),
    (''ResourceClaimTemplate'', True, [[Word ''gpu'', Word ''resourceclaimtemplates''], [Word ''resourceclaimtemplate-describe'', Ns, Name]]),
    (''ResourceSlice'', False, [[Word ''gpu'', Word ''resourceslices''], [Word ''resourceslice-describe'', Name]]),
    (''ServiceAccount'', True, [[Word ''security'', Word ''serviceaccounts''], [Word ''security'', Word ''serviceaccounts'', Ns], [Word ''serviceaccount-describe'', Ns, Name]]),
    (''Role'', True, [[Word ''security'', Word ''roles''], [Word ''security'', Word ''roles'', Ns], [Word ''role-describe'', Ns, Name]]),
    (''RoleBinding'', True, [[Word ''security'', Word ''rolebindings''], [Word ''security'', Word ''rolebindings'', Ns], [Word ''rolebinding-describe'', Ns, Name]]),
    (''ClusterRole'', False, [[Word ''security'', Word ''clusterroles''], [Word ''clusterrole-describe'', Name]]),
    (''ClusterRoleBinding'', False, [[Word ''security'', Word ''clusterrolebindings''], [Word ''clusterrolebinding-describe'', Name]]),
    (''ConfigMap'', True, [[Word ''configuration'', Word ''configmaps''], [Word ''configuration'', Word ''configmaps'', Ns], [Word ''configmap-describe'', Ns, Name]]),
    (''Secret'', True, [[Word ''configuration'', Word ''secrets''], [Word ''configuration'', Word ''secrets'', Ns], [Word ''secret-describe'', Ns, Name]]),
    (''PodDisruptionBudget'', True, [[Word ''workloads'', Word ''pdbs''], [Word ''workloads'', Word ''pdbs'', Ns], [Word ''pdb-describe'', Ns, Name]]),
    (''PriorityClass'', False, [[Word ''cluster'', Word ''priorityclasses''], [Word ''priorityclass-describe'', Name]]),
    (''RuntimeClass'', False, [[Word ''cluster'', Word ''runtimeclasses''], [Word ''runtimeclass-describe'', Name]]),
    (''Lease'', True, [[Word ''cluster'', Word ''leases''], [Word ''cluster'', Word ''leases'', Ns], [Word ''lease-describe'', Ns, Name]]),
    (''ResourceQuota'', True, [[Word ''cluster'', Word ''resourcequotas''], [Word ''cluster'', Word ''resourcequotas'', Ns], [Word ''resourcequota-describe'', Ns, Name]]),
    (''LimitRange'', True, [[Word ''cluster'', Word ''limitranges''], [Word ''cluster'', Word ''limitranges'', Ns], [Word ''limitrange-describe'', Ns, Name]]),
    (''MutatingWebhookConfiguration'', False, [[Word ''cluster'', Word ''mutatingwebhookconfigurations''], [Word ''mutatingwebhookconfiguration-describe'', Name]]),
    (''ValidatingWebhookConfiguration'', False, [[Word ''cluster'', Word ''validatingwebhookconfigurations''], [Word ''validatingwebhookconfiguration-describe'', Name]]),
    (''CustomResourceDefinition'', False, [[Word ''custom-resources'', Word ''crds''], [Word ''crd-describe'', Name]]),
    (''CustomResourceInstance'', False, [[Word ''custom-resources'', Word ''instances''], [Word ''cr-instance-describe'']])]"

text \<open>The keys of a table's entry; a kind that needs a namespace and has none has no entry.\<close>

definition keys_of_entry :: "(string \<times> bool \<times> key_part list list) list \<Rightarrow> string \<Rightarrow> string \<Rightarrow> string \<Rightarrow> string list list option" where
  "keys_of_entry table kind ns name = (case map_of table kind of
      Some (needs_ns, ks) \<Rightarrow> if needs_ns \<and> ns = [] then None else Some (map (map (key_text kind ns name)) ks)
    | None \<Rightarrow> None)"

definition invalidated_after_delete :: "string \<Rightarrow> string \<Rightarrow> string \<Rightarrow> string list list" where
  "invalidated_after_delete kind ns name = case_option [] id (keys_of_entry AFTER_DELETE kind ns name)"

definition invalidateAfterApply :: "string \<Rightarrow> string \<Rightarrow> string \<Rightarrow> string list list" where
  "invalidateAfterApply kind ns name = [''resource-yaml''] #
     (if kind = ''ValidatingAdmissionPolicy'' \<or> kind = ''MutatingAdmissionPolicy'' then
        [[''cluster'', if kind = ''ValidatingAdmissionPolicy'' then ''validatingadmissionpolicies'' else ''mutatingadmissionpolicies''], [''admissionpolicy-describe'', kind, name]]
      else case_option [[''search-resources'']] id (keys_of_entry AFTER_APPLY kind ns name))"

section \<open>The YAML of an object\<close>

definition PLURALS :: "(string \<times> string) list" where
  "PLURALS = [
    (''Pod'', ''pod''), (''Node'', ''node''), (''Namespace'', ''namespace''), (''Service'', ''service''),
    (''Deployment'', ''deployment''), (''ReplicaSet'', ''replicaset''), (''StatefulSet'', ''statefulset''), (''DaemonSet'', ''daemonset''),
    (''Job'', ''job''), (''CronJob'', ''cronjob''), (''ConfigMap'', ''configmap''), (''Secret'', ''secret''),
    (''Ingress'', ''ingress''), (''NetworkPolicy'', ''networkpolicy''), (''PersistentVolumeClaim'', ''persistentvolumeclaim''), (''PersistentVolume'', ''persistentvolume''),
    (''HorizontalPodAutoscaler'', ''horizontalpodautoscaler''), (''VerticalPodAutoscaler'', ''verticalpodautoscaler''), (''ValidatingAdmissionPolicy'', ''validatingadmissionpolicy''), (''MutatingAdmissionPolicy'', ''mutatingadmissionpolicy''),
    (''Endpoints'', ''endpoints''), (''EndpointSlice'', ''endpointslice''), (''IngressClass'', ''ingressclass''), (''Gateway'', ''gateway''),
    (''GatewayClass'', ''gatewayclass''), (''HTTPRoute'', ''httproute''), (''GRPCRoute'', ''grpcroute''), (''ReferenceGrant'', ''referencegrant''),
    (''BackendTLSPolicy'', ''backendtlspolicy''), (''DeviceClass'', ''deviceclass''), (''ResourceClaim'', ''resourceclaim''), (''ResourceClaimTemplate'', ''resourceclaimtemplate''),
    (''ResourceSlice'', ''resourceslice''), (''StorageClass'', ''storageclass''), (''VolumeAttachment'', ''volumeattachment''), (''ServiceAccount'', ''serviceaccount''),
    (''Role'', ''role''), (''RoleBinding'', ''rolebinding''), (''ClusterRole'', ''clusterrole''), (''ClusterRoleBinding'', ''clusterrolebinding''),
    (''PodDisruptionBudget'', ''poddisruptionbudget''), (''PriorityClass'', ''priorityclass''), (''RuntimeClass'', ''runtimeclass''), (''Lease'', ''lease''),
    (''ResourceQuota'', ''resourcequota''), (''LimitRange'', ''limitrange''), (''MutatingWebhookConfiguration'', ''mutatingwebhookconfiguration''), (''ValidatingWebhookConfiguration'', ''validatingwebhookconfiguration''),
    (''CustomResourceDefinition'', ''customresourcedefinition''), (''CustomResourceInstance'', ''customresourceinstance'')]"

definition kindToPlural :: "string \<Rightarrow> string" where
  "kindToPlural kind = (case map_of PLURALS kind of Some p \<Rightarrow> p | None \<Rightarrow> toLowerCase kind)"

text \<open>A request about an object: of a Node or a Namespace by its name, of a Secret, or of any object by type, name and namespace.\<close>

datatype yaml_request = Node_Yaml string | Namespace_Yaml string | Secret_Yaml string string | Resource_Yaml string string "string option"

definition sent_namespace :: "string \<Rightarrow> string option" where
  "sent_namespace ns = (if ns \<noteq> [] \<and> ns \<noteq> ''-'' then Some ns else None)"

definition yaml_read :: "action_target \<Rightarrow> yaml_request" where
  "yaml_read t =
     (if a_kind t = ''Node'' then Node_Yaml (a_name t)
      else if a_kind t = ''Namespace'' then Namespace_Yaml (a_name t)
      else if a_kind t = ''Secret'' \<and> a_ns t \<noteq> [] then Secret_Yaml (a_ns t) (a_name t)
      else if a_kind t = ''CustomResourceDefinition'' then Resource_Yaml ''customresourcedefinitions'' (a_name t) None
      else if a_kind t = ''CustomResourceInstance'' \<and> raw_text t ''crd_name'' \<noteq> [] then Resource_Yaml (raw_text t ''crd_name'') (a_name t) (sent_namespace (a_ns t))
      else Resource_Yaml (kindToPlural (a_kind t)) (a_name t) (sent_namespace (a_ns t)))"

text \<open>\<open>encode\<close> is \<^verbatim>\<open>encodeSecretYaml\<close>. No request is sent for a custom resource whose CRD is not known.\<close>

definition handleApplyYaml :: "(string \<Rightarrow> string) \<Rightarrow> bool \<Rightarrow> action_target \<Rightarrow> string \<Rightarrow> (yaml_request \<times> string) option" where
  "handleApplyYaml encode canEditYaml t rawYaml =
     (let yaml = (if a_kind t = ''Secret'' \<and> canEditYaml then encode rawYaml else rawYaml) in
      if a_kind t = ''Node'' then Some (Node_Yaml (a_name t), yaml)
      else if a_kind t = ''Namespace'' then Some (Namespace_Yaml (a_name t), yaml)
      else if a_kind t = ''CustomResourceDefinition'' then Some (Resource_Yaml ''customresourcedefinitions'' (a_name t) None, yaml)
      else if a_kind t = ''CustomResourceInstance'' then
        (if raw_text t ''crd_name'' \<noteq> [] then Some (Resource_Yaml (raw_text t ''crd_name'') (a_name t) (sent_namespace (a_ns t)), yaml) else None)
      else Some (Resource_Yaml (kindToPlural (a_kind t)) (a_name t) (sent_namespace (a_ns t)), yaml))"

section \<open>Objects that need a second thought\<close>

datatype system_reason = ImmortalNamespace | SystemNamespace | SystemNode | Crd | Helm | Bootstrap | SystemRbac

record system_check =
  blocked :: bool
  reasons :: "system_reason list"

definition IMMORTAL :: "string list" where
  "IMMORTAL = [''default'', ''kube-system'', ''kube-public'']"

definition SYSTEM_NAMESPACES :: "string list" where
  "SYSTEM_NAMESPACES = [''kube-system'', ''kube-public'', ''kube-node-lease'']"

definition RBAC_KINDS :: "string list" where
  "RBAC_KINDS = [''ClusterRole'', ''ClusterRoleBinding'', ''Role'', ''RoleBinding'']"

definition says :: "(string \<Rightarrow> string option) \<Rightarrow> string \<Rightarrow> bool" where
  "says m k \<longleftrightarrow> m k \<noteq> None \<and> m k \<noteq> Some []"

definition systemObject :: "string \<Rightarrow> string \<Rightarrow> string \<Rightarrow> (string \<Rightarrow> string option) \<Rightarrow> (string \<Rightarrow> string option) \<Rightarrow> system_check" where
  "systemObject kind ns name labels annotations =
     (if kind = ''Namespace'' \<and> name \<in> set IMMORTAL then \<lparr>blocked = True, reasons = [ImmortalNamespace]\<rparr>
      else \<lparr>blocked = False, reasons = map snd (filter fst
        [((kind = ''Namespace'' \<and> name \<in> set SYSTEM_NAMESPACES) \<or> (ns \<noteq> [] \<and> ns \<in> set SYSTEM_NAMESPACES), SystemNamespace),
         (kind = ''Node'', SystemNode),
         (kind = ''CustomResourceDefinition'', Crd),
         (says annotations ''meta.helm.sh/release-name'' \<or> labels ''app.kubernetes.io/managed-by'' = Some ''Helm'', Helm),
         (says labels ''kubernetes.io/bootstrapping'', Bootstrap),
         (kind \<in> set RBAC_KINDS \<and> (startsWith name ''system:'' \<or> name = ''cluster-admin''), SystemRbac)])\<rparr>)"

record argo_config =
  argo_enabled :: bool
  trackingAnnotation :: string
  instanceLabel :: "string option"

datatype argo_method = Annotation | Label

text \<open>The marks of Argo CD on an object of an API version, a name and a namespace.\<close>

definition detectArgoApp :: "(string \<Rightarrow> string option) \<Rightarrow> (string \<Rightarrow> string option) \<Rightarrow> string \<Rightarrow> string \<Rightarrow> string \<Rightarrow> string \<Rightarrow> argo_config \<Rightarrow> (string \<times> argo_method) option" where
  "detectArgoApp annotations labels apiVersion name ns kind cfg =
     (if \<not> argo_enabled cfg then None
      else (let grp = (if contains apiVersion ''/'' then hd (split (CHR ''/'') apiVersion) else []);
                tracked = (if says annotations (trackingAnnotation cfg) then
                    (case split (CHR '':'') (the (annotations (trackingAnnotation cfg))) of
                       app # gk # nn # _ \<Rightarrow>
                         if app \<noteq> [] \<and> gk \<noteq> [] \<and> gk = grp @ ''/'' @ kind \<and> nn = ns @ ''/'' @ name then Some (app, Annotation) else None
                     | _ \<Rightarrow> None)
                  else None) in
            case tracked of
              Some a \<Rightarrow> Some a
            | None \<Rightarrow> (case instanceLabel cfg of
                  Some l \<Rightarrow> if l \<noteq> [] \<and> says labels l then Some (the (labels l), Label) else None
                | None \<Rightarrow> None)))"

section \<open>The request names the object\<close>

text \<open>What a server reads of an address: the part before a query or a fragment.\<close>

definition server_path :: "string \<Rightarrow> string" where
  "server_path url = takeWhile (\<lambda>c. c \<noteq> CHR ''?'' \<and> c \<noteq> CHR ''#'') url"

definition segment :: "string \<Rightarrow> bool" where
  "segment s \<longleftrightarrow> (\<forall>c\<in>set s. c \<noteq> CHR ''/'' \<and> c \<noteq> CHR ''?'' \<and> c \<noteq> CHR ''#'')"

text \<open>The word of an address that stands for a kind.\<close>

definition SEGMENTS :: "(string \<times> string) list" where
  "SEGMENTS = [
    (''Pod'', ''pods''), (''Namespace'', ''namespaces''), (''Node'', ''nodes''), (''Deployment'', ''deployments''),
    (''StatefulSet'', ''statefulsets''), (''DaemonSet'', ''daemonsets''), (''Job'', ''jobs''), (''ReplicaSet'', ''replicasets''),
    (''CronJob'', ''cronjobs''), (''PersistentVolumeClaim'', ''pvcs''), (''PersistentVolume'', ''pvs''), (''StorageClass'', ''storageclasses''),
    (''VolumeAttachment'', ''volumeattachments''), (''Service'', ''services''), (''Endpoints'', ''endpoints''), (''EndpointSlice'', ''endpointslices''),
    (''Ingress'', ''ingresses''), (''IngressClass'', ''ingressclasses''), (''NetworkPolicy'', ''networkpolicies''), (''Gateway'', ''gateways''),
    (''GatewayClass'', ''gatewayclasses''), (''HTTPRoute'', ''httproutes''), (''GRPCRoute'', ''grpcroutes''), (''ReferenceGrant'', ''referencegrants''),
    (''BackendTLSPolicy'', ''backendtlspolicies''), (''DeviceClass'', ''deviceclasses''), (''ResourceClaim'', ''resourceclaims''), (''ResourceClaimTemplate'', ''resourceclaimtemplates''),
    (''ResourceSlice'', ''resourceslices''), (''ServiceAccount'', ''serviceaccounts''), (''Role'', ''roles''), (''RoleBinding'', ''rolebindings''),
    (''ClusterRole'', ''clusterroles''), (''ClusterRoleBinding'', ''clusterrolebindings''), (''ConfigMap'', ''configmaps''), (''Secret'', ''secrets''),
    (''HorizontalPodAutoscaler'', ''hpas''), (''VerticalPodAutoscaler'', ''vpas''), (''PodDisruptionBudget'', ''pdbs''), (''PriorityClass'', ''priorityclasses''),
    (''RuntimeClass'', ''runtimeclasses''), (''Lease'', ''leases''), (''ResourceQuota'', ''resourcequotas''), (''LimitRange'', ''limitranges''),
    (''MutatingWebhookConfiguration'', ''mutatingwebhookconfigurations''), (''ValidatingWebhookConfiguration'', ''validatingwebhookconfigurations''), (''CustomResourceDefinition'', ''crds'')]"

definition delete_words :: "action_target \<Rightarrow> string list" where
  "delete_words t =
     (if a_kind t = ''CustomResourceInstance'' then
        [[], ''cluster'', ''custom-resources'', raw_text t ''group'', raw_text t ''version'', cr_plural t, if a_ns t \<noteq> [] then a_ns t else ''-'', a_name t]
      else (case map_of DELETES (a_kind t) of
          Some (Namespaced _) \<Rightarrow> [[], ''cluster'', ''namespaces'', a_ns t, the (map_of SEGMENTS (a_kind t)), a_name t]
        | _ \<Rightarrow> [[], ''cluster'', the (map_of SEGMENTS (a_kind t)), a_name t]))"

definition plain_target :: "action_target \<Rightarrow> bool" where
  "plain_target t \<longleftrightarrow> segment (a_ns t) \<and> segment (a_name t) \<and> segment (raw_text t ''group'') \<and> segment (raw_text t ''version'') \<and> segment (raw_text t ''crd_name'')"

lemma segments_distinct: "distinct (map fst SEGMENTS)" "distinct (map snd SEGMENTS)" "map fst SEGMENTS = map fst DELETES"
  by (simp_all add: SEGMENTS_def DELETES_def)

lemma segments_plain: "list_all segment (map snd SEGMENTS)"
  by (simp add: SEGMENTS_def segment_def)

lemma segment_words: "(k, s) \<in> set SEGMENTS \<Longrightarrow> segment s"
  using segments_plain by (auto simp: list_all_iff)

text \<open>Every call of the chain asks for the address its kind stands for.\<close>

definition follows_segment :: "string \<Rightarrow> delete_fn \<Rightarrow> string \<Rightarrow> bool" where
  "follows_segment k d s = (case d of
      Namespaced f \<Rightarrow> \<forall>ns n. f ns n = ''/cluster/namespaces/'' @ ns @ ''/'' @ s @ ''/'' @ n
    | ClusterWide f \<Rightarrow> \<forall>n. f n = ''/cluster/'' @ s @ ''/'' @ n)"

lemmas delete_fn_defs = deletePod_def deleteNamespace_def deleteNode_def deleteDeployment_def deleteStatefulSet_def deleteDaemonSet_def deleteJob_def deleteReplicaSet_def
    deleteCronJob_def deletePVC_def deletePV_def deleteStorageClass_def deleteVolumeAttachment_def deleteService_def deleteEndpoint_def
    deleteEndpointSlice_def deleteIngress_def deleteIngressClass_def deleteNetworkPolicy_def deleteGateway_def deleteGatewayClass_def deleteHTTPRoute_def
    deleteGRPCRoute_def deleteReferenceGrant_def deleteBackendTLSPolicy_def deleteDeviceClass_def deleteResourceClaim_def deleteResourceClaimTemplate_def
    deleteResourceSlice_def deleteServiceAccount_def deleteRole_def deleteRoleBinding_def deleteClusterRole_def deleteClusterRoleBinding_def
    deleteConfigMap_def deleteSecret_def deleteHPA_def deleteVPA_def deletePDB_def deletePriorityClass_def deleteRuntimeClass_def deleteLease_def
    deleteResourceQuota_def deleteLimitRange_def deleteMutatingWebhookConfiguration_def deleteValidatingWebhookConfiguration_def deleteCRD_def
    deleteCustomResourceInstance_def

lemma deletes_follow: "list_all2 (\<lambda>(k, d) (k', s). k = k' \<and> follows_segment k d s) DELETES SEGMENTS"
  by (simp add: DELETES_def SEGMENTS_def follows_segment_def delete_fn_defs)

lemma delete_entry:
  assumes "map_of DELETES k = Some d"
  obtains s where "map_of SEGMENTS k = Some s" "segment s" "follows_segment k d s"
proof -
  from assms have "(k, d) \<in> set DELETES" by (rule map_of_SomeD)
  then obtain i where i: "i < length DELETES" "DELETES ! i = (k, d)" by (auto simp: in_set_conv_nth)
  obtain k' s where s: "SEGMENTS ! i = (k', s)" by (cases "SEGMENTS ! i")
  have "k = k' \<and> follows_segment k d s"
    using list_all2_nthD [OF deletes_follow i(1)] i(2) s by auto
  moreover have "(k', s) \<in> set SEGMENTS"
    using i(1) s list_all2_lengthD [OF deletes_follow] by (metis nth_mem)
  ultimately show thesis
    using that [of s] segment_words segments_distinct(1) by (metis map_of_eq_Some_iff)
qed

lemma segments_name_kinds:
  "map_of SEGMENTS k = Some s \<Longrightarrow> map_of SEGMENTS k' = Some s \<Longrightarrow> k = k'"
  using segments_distinct(2) unfolding distinct_map by (metis inj_onD map_of_SomeD prod.inject snd_conv)

lemma segment_parts [simp]:
  "segment [] = True" "segment (a @ b) \<longleftrightarrow> segment a \<and> segment b"
  "segment (c # s) \<longleftrightarrow> c \<noteq> CHR ''/'' \<and> c \<noteq> CHR ''?'' \<and> c \<noteq> CHR ''#'' \<and> segment s"
  by (auto simp: segment_def)

lemma server_path_plain: "CHR ''?'' \<notin> set u \<Longrightarrow> CHR ''#'' \<notin> set u \<Longrightarrow> server_path u = u"
  by (auto simp: server_path_def takeWhile_eq_all_conv)

lemma segment_no_slash: "segment s \<Longrightarrow> CHR ''/'' \<notin> set s" "segment s \<Longrightarrow> CHR ''?'' \<notin> set s" "segment s \<Longrightarrow> CHR ''#'' \<notin> set s"
  by (auto simp: segment_def)

lemma segment_split: "segment s \<Longrightarrow> split (CHR ''/'') (s @ CHR ''/'' # u) = s # split (CHR ''/'') u"
  by (simp add: segment_no_slash split_append_sep)

lemma plural_segment: "segment (raw_text t ''crd_name'') \<Longrightarrow> segment (cr_plural t)"
  by (auto simp: segment_def cr_plural_def dest: set_takeWhileD)

lemma delete_path_words:
  assumes "delete_request t = Some u" "plain_target t"
  shows "split (CHR ''/'') (server_path u) = delete_words t"
proof (cases "a_kind t = ''CustomResourceInstance''")
  case True
  then show ?thesis
    using assms plural_segment [of t]
    by (auto simp: delete_request_def delete_words_def deleteCustomResourceInstance_def plain_target_def server_path_plain
        segment_split split_single segment_no_slash split: if_splits)
next
  case False
  then obtain d where d: "map_of DELETES (a_kind t) = Some d"
    using assms(1) by (auto simp: delete_request_def split: option.splits)
  then obtain s where s: "map_of SEGMENTS (a_kind t) = Some s" "segment s" "follows_segment (a_kind t) d s"
    by (rule delete_entry)
  show ?thesis
    using assms s False d
    by (auto simp: delete_request_def delete_words_def follows_segment_def plain_target_def server_path_plain
        segment_split split_single segment_no_slash split: if_splits delete_fn.splits)
qed

lemma delete_request_None_iff:
  "delete_request t = None \<longleftrightarrow>
     (if a_kind t = ''CustomResourceInstance'' then raw_text t ''group'' = [] \<or> raw_text t ''version'' = [] \<or> cr_plural t = []
      else (case map_of DELETES (a_kind t) of None \<Rightarrow> True | Some (ClusterWide _) \<Rightarrow> False | Some (Namespaced _) \<Rightarrow> a_ns t = []))"
  by (auto simp: delete_request_def split: option.splits delete_fn.splits)

lemma delete_words_same:
  assumes "delete_words t = delete_words t'" "delete_request t \<noteq> None" "delete_request t' \<noteq> None"
  shows "a_kind t = a_kind t'"
proof -
  have entry: "\<exists>d s. map_of DELETES (a_kind x) = Some d \<and> map_of SEGMENTS (a_kind x) = Some s"
    if "delete_request x \<noteq> None" "a_kind x \<noteq> ''CustomResourceInstance''" for x
  proof -
    from that obtain d where "map_of DELETES (a_kind x) = Some d"
      by (auto simp: delete_request_None_iff split: option.splits)
    then show ?thesis using delete_entry by metis
  qed
  show ?thesis
  proof (cases "a_kind t = ''CustomResourceInstance'' \<or> a_kind t' = ''CustomResourceInstance''")
    case True
    then show ?thesis
      using assms(1) by (auto simp: delete_words_def split: option.splits delete_fn.splits if_splits)
  next
    case False
    then obtain d s d' s' where "map_of DELETES (a_kind t) = Some d" "map_of SEGMENTS (a_kind t) = Some s"
        "map_of DELETES (a_kind t') = Some d'" "map_of SEGMENTS (a_kind t') = Some s'"
      using entry assms(2,3) by metis
    then show ?thesis
      using False assms(1) segments_name_kinds
      by (auto simp: delete_words_def split: delete_fn.splits)
  qed
qed

definition same_object :: "action_target \<Rightarrow> action_target \<Rightarrow> bool" where
  "same_object t t' \<longleftrightarrow> a_kind t = a_kind t' \<and> a_name t = a_name t'
     \<and> (case map_of DELETES (a_kind t) of Some (Namespaced _) \<Rightarrow> a_ns t = a_ns t' | _ \<Rightarrow> True)
     \<and> (a_kind t = ''CustomResourceInstance'' \<longrightarrow>
          raw_text t ''group'' = raw_text t' ''group'' \<and> raw_text t ''version'' = raw_text t' ''version'' \<and> cr_plural t = cr_plural t'
          \<and> (if a_ns t \<noteq> [] then a_ns t else ''-'') = (if a_ns t' \<noteq> [] then a_ns t' else ''-''))"

lemma no_custom_entry: "map_of DELETES ''CustomResourceInstance'' = None"
  by (simp add: DELETES_def)


definition web_pod :: action_target where
  "web_pod = \<lparr>a_kind = ''Pod'', a_ns = ''shop'', a_name = ''web-1'', a_raw = (\<lambda>_. None)\<rparr>"

lemma web_pod_request: "delete_request web_pod = Some ''/cluster/namespaces/shop/pods/web-1''" "plain_target web_pod"
  by (simp_all add: web_pod_def delete_request_def DELETES_def deletePod_def plain_target_def raw_text_def)


text \<open>Names are not encoded: an RBAC name may hold a question mark, and the request for such a role reaches another role.\<close>

definition odd_role :: "string \<Rightarrow> action_target" where
  "odd_role n = \<lparr>a_kind = ''ClusterRole'', a_ns = [], a_name = n, a_raw = (\<lambda>_. None)\<rparr>"

lemma question_mark_deletes_another:
  "map_option server_path (delete_request (odd_role ''edit?old'')) = Some ''/cluster/clusterroles/edit''"
  "delete_request (odd_role ''edit'') = Some ''/cluster/clusterroles/edit''"
  by (simp_all add: odd_role_def delete_request_def DELETES_def deleteClusterRole_def server_path_def)

section \<open>Reading and applying the YAML\<close>

definition applied_object :: "yaml_request \<Rightarrow> yaml_request" where
  "applied_object r = (case r of Secret_Yaml ns name \<Rightarrow> Resource_Yaml (kindToPlural ''Secret'') name (sent_namespace ns) | _ \<Rightarrow> r)"

lemma yaml_applied_where_read:
  "handleApplyYaml encode can t y = Some (r, y') \<Longrightarrow> applied_object (yaml_read t) = r"
  by (auto simp: handleApplyYaml_def yaml_read_def applied_object_def Let_def split: if_splits)

lemma yaml_untouched:
  "handleApplyYaml encode can t y = Some (r, y') \<Longrightarrow> y' = (if a_kind t = ''Secret'' \<and> can then encode y else y)"
  by (auto simp: handleApplyYaml_def Let_def split: if_splits)

lemma yaml_silently_dropped:
  "handleApplyYaml encode can t y = None \<longleftrightarrow> a_kind t = ''CustomResourceInstance'' \<and> raw_text t ''crd_name'' = []"
  by (auto simp: handleApplyYaml_def Let_def)

lemma immortal_blocked:
  "blocked (systemObject kind ns name ls as) \<longleftrightarrow> kind = ''Namespace'' \<and> name \<in> set IMMORTAL"
  by (auto simp: systemObject_def)

lemma system_reasons_distinct: "distinct (reasons (systemObject kind ns name ls as))"
  by (simp only: systemObject_def split: if_split) (simp del: filter.simps add: distinct_map_filter)

text \<open>An annotation counts only where it names this very object.\<close>

lemma argo_annotation_names_object:
  assumes "detectArgoApp as ls v name ns kind cfg = Some (app, Annotation)"
  shows "\<exists>s gk rest. as (trackingAnnotation cfg) = Some s \<and> split (CHR '':'') s = app # gk # (ns @ ''/'' @ name) # rest
     \<and> app \<noteq> [] \<and> (\<exists>g. gk = g @ ''/'' @ kind)"
  using assms by (auto simp: detectArgoApp_def says_def Let_def split: if_splits option.splits list.splits)

text \<open>Every kind that can be deleted has its answers read anew, under the same condition on the namespace.\<close>

definition needs_namespace :: "delete_fn \<Rightarrow> bool" where
  "needs_namespace d = (case d of Namespaced _ \<Rightarrow> True | ClusterWide _ \<Rightarrow> False)"

lemma deleted_kinds_read_anew:
  "list_all (\<lambda>(k, d). case map_of AFTER_DELETE k of Some (b, ks) \<Rightarrow> b = needs_namespace d \<and> ks \<noteq> [] | None \<Rightarrow> False) DELETES"
  by code_simp

lemma deleted_is_read_anew:
  assumes "delete_request t \<noteq> None"
  shows "invalidated_after_delete (a_kind t) (a_ns t) (a_name t) \<noteq> []"
proof (cases "a_kind t = ''CustomResourceInstance''")
  case True
  then show ?thesis by (simp add: invalidated_after_delete_def keys_of_entry_def AFTER_DELETE_def)
next
  case False
  then obtain d where d: "map_of DELETES (a_kind t) = Some d"
    using assms by (auto simp: delete_request_None_iff split: option.splits)
  then have entry: "case map_of AFTER_DELETE (a_kind t) of Some (b, ks) \<Rightarrow> b = needs_namespace d \<and> ks \<noteq> [] | None \<Rightarrow> False"
    using deleted_kinds_read_anew map_of_SomeD by (fastforce simp: list_all_iff)
  show ?thesis
    using False assms d entry
    by (auto simp: invalidated_after_delete_def keys_of_entry_def delete_request_None_iff needs_namespace_def
        split: option.splits delete_fn.splits)
qed

end
