(* ===== verification/Bulk_Users.thy ===== *)
theory Bulk_Users
  imports Prelude "HOL-Library.Word"
begin

text \<open>
  Accounts created from a CSV file: the template a person fills in, the reading of its rows, and what is said of the accounts left out
  (\<^verbatim>\<open>frontend/src/pages/admin-users/bulkCreate.ts\<close>). Texts are of code units below 256; \<open>tr\<close> stands for the translation \<^verbatim>\<open>t\<close>.
\<close>

section \<open>The template\<close>

record csv_user =
  u_name :: string
  u_email :: string
  u_password :: string
  u_role_id :: int
  u_team :: "string option"

datatype failure_reason = MissingFields | NameReason | PasswordReason | RoleReason | CeilingReason | TeamReason | ExistsReason | FailedReason

record create_failure =
  f_email :: string
  f_reason :: failure_reason
  f_detail :: "string option"

record parsed_csv =
  p_users :: "csv_user list"
  p_failed :: "create_failure list"

record role =
  r_id :: int
  r_name :: string

definition BULK_CSV_HEADER :: string where
  "BULK_CSV_HEADER = ''name,email,password,role,team''"

definition DEFAULT_ROLE :: string where
  "DEFAULT_ROLE = ''Member''"

text \<open>The letters of a password made of random bytes: two hexadecimal digits each.\<close>

definition hex_digit :: "nat \<Rightarrow> char" where
  "hex_digit d = (if d < 10 then char_of (48 + d) else char_of (87 + d))"

definition hex_byte :: "8 word \<Rightarrow> string" where
  "hex_byte b = [hex_digit (unat b div 16), hex_digit (unat b mod 16)]"

definition exampleBulkPassword :: "8 word list \<Rightarrow> string" where
  "exampleBulkPassword bytes = concat (map hex_byte bytes)"

definition newline :: string where
  "newline = [CHR 0x0A]"

definition bulkCsvTemplate :: "string list \<Rightarrow> string list \<Rightarrow> string \<Rightarrow> string" where
  "bulkCsvTemplate teamNames roleNames password =
     (let named = join '', '' (filter (\<lambda>n. n \<in> set [''Admin'', ''Member'']) roleNames);
          levels = (if named \<noteq> [] then named else ''Admin, Member'') in
      join newline
       [''# Available Team: '' @ (if teamNames \<noteq> [] then join '', '' teamNames else ''(none registered)''),
        ''# role (account level): '' @ levels,
        BULK_CSV_HEADER,
        ''Hong Gildong,hong@example.com,'' @ password @ '','' @ DEFAULT_ROLE @ '','' @ (case teamNames of [] \<Rightarrow> [] | t # _ \<Rightarrow> t),
        []])"

section \<open>The rows\<close>

definition csv_lines :: "string \<Rightarrow> string list" where
  "csv_lines s = filter (\<lambda>l. l \<noteq> [] \<and> \<not> startsWith l ''#'') (map trim (split (CHR 0x0A) s))"

text \<open>The column at a place, empty where the row ends before it.\<close>

definition column :: "string list \<Rightarrow> nat \<Rightarrow> string" where
  "column cs i = (if i < length cs then cs ! i else [])"

definition columns_of :: "string \<Rightarrow> string list" where
  "columns_of l = map trim (split (CHR '','') l)"

definition role_column :: "string list \<Rightarrow> string" where
  "role_column cs = (if column cs 3 \<noteq> [] then column cs 3 else DEFAULT_ROLE)"

definition read_row :: "role list \<Rightarrow> string \<Rightarrow> parsed_csv \<Rightarrow> parsed_csv" where
  "read_row roles l p =
     (let cs = columns_of l; name = column cs 0; email = column cs 1; password = column cs 2; roleName = role_column cs; team = column cs 4 in
      if name = [] \<or> email = [] \<or> password = [] then p\<lparr>p_failed := p_failed p @ [\<lparr>f_email = email, f_reason = MissingFields, f_detail = None\<rparr>]\<rparr>
      else (case find (\<lambda>r. r_name r = roleName) roles of
          None \<Rightarrow> p\<lparr>p_failed := p_failed p @ [\<lparr>f_email = email, f_reason = RoleReason, f_detail = Some roleName\<rparr>]\<rparr>
        | Some r \<Rightarrow> p\<lparr>p_users := p_users p @ [\<lparr>u_name = name, u_email = email, u_password = password, u_role_id = r_id r,
            u_team = (if team \<noteq> [] then Some team else None)\<rparr>]\<rparr>))"

definition parseBulkCsv :: "string \<Rightarrow> role list \<Rightarrow> parsed_csv" where
  "parseBulkCsv s roles = fold (read_row roles) (drop 1 (csv_lines s)) \<lparr>p_users = [], p_failed = []\<rparr>"

section \<open>What is said of the accounts left out\<close>

definition bulkCreateFailures :: "jval \<Rightarrow> jval list" where
  "bulkCreateFailures err = elems (jpath err [''response'', ''data'', ''failed''])"

definition readBulkCreateAnswer :: "jval \<Rightarrow> jval \<times> jval" where
  "readBulkCreateAnswer data = (jnn (jget data ''created'') (JArr []), jnn (jget data ''failed'') (JArr []))"

fun reasonText :: "(string \<Rightarrow> string \<Rightarrow> string) \<Rightarrow> failure_reason \<Rightarrow> string" where
  "reasonText tr MissingFields = tr ''adminUsers.bulkFailure.missingFields'' ''name, email and password are required''"
| "reasonText tr NameReason = tr ''adminUsers.bulkFailure.name'' ''this name cannot be a Kubernetes user: no colon, space or control character''"
| "reasonText tr PasswordReason = tr ''adminUsers.bulkFailure.password'' ''the password does not meet the policy''"
| "reasonText tr RoleReason = tr ''adminUsers.bulkFailure.role'' ''no such role''"
| "reasonText tr CeilingReason = tr ''adminUsers.bulkFailure.ceiling'' ''the role gives permissions you do not hold''"
| "reasonText tr TeamReason = tr ''adminUsers.bulkFailure.team'' ''no such team''"
| "reasonText tr ExistsReason = tr ''adminUsers.bulkFailure.exists'' ''this email already has an account''"
| "reasonText tr FailedReason = tr ''adminUsers.bulkFailure.failed'' ''the creation failed, the audit log says why''"

definition createRefusalText :: "(string \<Rightarrow> string \<Rightarrow> string) \<Rightarrow> failure_reason \<Rightarrow> string option \<Rightarrow> string" where
  "createRefusalText tr reason detail = reasonText tr reason @ (case detail of Some (c # d) \<Rightarrow> '': '' @ c # d | _ \<Rightarrow> [])"

definition bulkCreateFailureRows :: "(string \<Rightarrow> string \<Rightarrow> string) \<Rightarrow> create_failure list \<Rightarrow> string list" where
  "bulkCreateFailureRows tr failed = map (\<lambda>f. (if f_email f \<noteq> [] then f_email f else ''-'') @ '': '' @ createRefusalText tr (f_reason f) (f_detail f)) failed"

section \<open>No row is lost\<close>

lemma read_row_counts:
  "length (p_users (read_row roles l p)) + length (p_failed (read_row roles l p)) = Suc (length (p_users p) + length (p_failed p))"
  by (simp add: read_row_def Let_def split: option.split)

lemma rows_counted:
  "length (p_users (fold (read_row roles) ls p)) + length (p_failed (fold (read_row roles) ls p)) = length ls + length (p_users p) + length (p_failed p)"
  by (induction ls arbitrary: p) (simp_all add: read_row_counts)

theorem every_row_answered:
  "length (p_users (parseBulkCsv s roles)) + length (p_failed (parseBulkCsv s roles)) = length (csv_lines s) - 1"
  by (simp add: parseBulkCsv_def rows_counted)

text \<open>An account that is sent has its fields and the role its row names, letter for letter.\<close>

definition account_of_row :: "role list \<Rightarrow> string list \<Rightarrow> csv_user \<Rightarrow> bool" where
  "account_of_row roles cs u \<longleftrightarrow> u_name u = column cs 0 \<and> u_email u = column cs 1 \<and> u_password u = column cs 2
     \<and> u_name u \<noteq> [] \<and> u_email u \<noteq> [] \<and> u_password u \<noteq> [] \<and> u_team u \<noteq> Some []
     \<and> (\<exists>r\<in>set roles. r_name r = role_column cs \<and> u_role_id u = r_id r)"

lemma read_row_users:
  "u \<in> set (p_users (read_row roles l p)) \<Longrightarrow> u \<in> set (p_users p) \<or> account_of_row roles (columns_of l) u"
  by (auto simp: read_row_def account_of_row_def Let_def find_Some_iff split: if_splits option.splits)

lemma users_of_rows:
  "u \<in> set (p_users (fold (read_row roles) ls p)) \<Longrightarrow> u \<in> set (p_users p) \<or> (\<exists>l\<in>set ls. account_of_row roles (columns_of l) u)"
  by (induction ls arbitrary: p) (fastforce dest: read_row_users)+

theorem accounts_as_written:
  assumes "u \<in> set (p_users (parseBulkCsv s roles))"
  shows "\<exists>l\<in>set (csv_lines s). account_of_row roles (columns_of l) u"
  using users_of_rows [of u roles "drop 1 (csv_lines s)" "\<lparr>p_users = [], p_failed = []\<rparr>"] assms
  by (auto simp: parseBulkCsv_def dest: in_set_dropD)

section \<open>The template is read back\<close>

text \<open>A column whose letters are its own: no comma, no end of line, nothing trimmed away.\<close>

definition plain_column :: "string \<Rightarrow> bool" where
  "plain_column s \<longleftrightarrow> CHR '','' \<notin> set s \<and> CHR 0x0A \<notin> set s \<and> trim s = s"

declare trim_Nil [simp]

lemma split_newline_join:
  "ws \<noteq> [] \<Longrightarrow> \<forall>w\<in>set ws. CHR 0x0A \<notin> set w \<Longrightarrow> split (CHR 0x0A) (join newline ws) = ws"
  unfolding newline_def by (rule split_join)

lemma not_in_join: "c \<notin> set sep \<Longrightarrow> \<forall>w\<in>set ws. c \<notin> set w \<Longrightarrow> c \<notin> set (join sep ws)"
  by (induction sep ws rule: join.induct) auto

lemma dropWhile_last: "\<not> p c \<Longrightarrow> \<exists>t. dropWhile p (ys @ [c]) = t @ [c]"
  by (induction ys) auto

lemma trim_first: "\<not> is_ws c \<Longrightarrow> \<exists>s'. trim (c # s) = c # s'"
proof -
  assume c: "\<not> is_ws c"
  obtain t where "dropWhile is_ws (rev s @ [c]) = t @ [c]" using dropWhile_last [of is_ws, OF c] by blast
  then show ?thesis using c by (simp add: trim_def trimStart_def trimEnd_def)
qed

lemma comment_skipped: "startsWith (trim (CHR ''#'' # s)) ''#''"
  using trim_first [of "CHR ''#''" s] by (auto simp: is_ws_def startsWith_def)

text \<open>The example row goes up as it stands: whatever teams and roles there are, the template is read back as one account of the role Member.\<close>

theorem template_read_back:
  assumes "plain_column password" "password \<noteq> []" "\<forall>t\<in>set teamNames. CHR 0x0A \<notin> set t"
    and "teamNames \<noteq> [] \<longrightarrow> plain_column (hd teamNames)"
    and "find (\<lambda>r. r_name r = ''Member'') roles = Some r"
  shows "parseBulkCsv (bulkCsvTemplate teamNames roleNames password) roles =
    \<lparr>p_users = [\<lparr>u_name = ''Hong Gildong'', u_email = ''hong@example.com'', u_password = password, u_role_id = r_id r,
       u_team = (if teamNames \<noteq> [] \<and> hd teamNames \<noteq> [] then Some (hd teamNames) else None)\<rparr>], p_failed = []\<rparr>"
proof -
  define team where "team = (case teamNames of [] \<Rightarrow> [] | t # _ \<Rightarrow> t)"
  define row where "row = ''Hong Gildong,hong@example.com,'' @ password @ '','' @ DEFAULT_ROLE @ '','' @ team"
  have team: "plain_column team" "team = (if teamNames \<noteq> [] then hd teamNames else [])"
    using assms(4) by (auto simp: team_def plain_column_def split: list.split)
  obtain a b where lines: "split (CHR 0x0A) (bulkCsvTemplate teamNames roleNames password) = [CHR ''#'' # a, CHR ''#'' # b, BULK_CSV_HEADER, row, []]"
  proof -
    define named where "named = join '', '' (filter (\<lambda>n. n \<in> set [''Admin'', ''Member'']) roleNames)"
    define a where "a = '' Available Team: '' @ (if teamNames \<noteq> [] then join '', '' teamNames else ''(none registered)'')"
    define b where "b = '' role (account level): '' @ (if named \<noteq> [] then named else ''Admin, Member'')"
    have named: "CHR 0x0A \<notin> set named"
      unfolding named_def by (rule not_in_join) auto
    have no_end: "CHR 0x0A \<notin> set a" "CHR 0x0A \<notin> set b" "CHR 0x0A \<notin> set row"
      using not_in_join [of _ "'', ''" teamNames] assms(1,3) team(1) named
      by (auto simp: a_def b_def row_def plain_column_def DEFAULT_ROLE_def)
    have "bulkCsvTemplate teamNames roleNames password = join newline [CHR ''#'' # a, CHR ''#'' # b, BULK_CSV_HEADER, row, []]"
      by (simp add: bulkCsvTemplate_def a_def b_def named_def row_def team_def Let_def)
    then have "split (CHR 0x0A) (bulkCsvTemplate teamNames roleNames password) = [CHR ''#'' # a, CHR ''#'' # b, BULK_CSV_HEADER, row, []]"
      using no_end by (simp only:) (rule split_newline_join, simp_all add: BULK_CSV_HEADER_def)
    then show thesis by (rule that)
  qed
  have row: "trim row = row" "row \<noteq> []" "\<not> startsWith row ''#''"
  proof -
    show "row \<noteq> []" "\<not> startsWith row ''#''" by (simp_all add: row_def startsWith_def)
    show "trim row = row"
      using trim_ended [of team] team(1) by (intro trim_same) (auto simp: row_def is_ws_def plain_column_def last_append)
  qed
  have header: "trim BULK_CSV_HEADER = BULK_CSV_HEADER" "BULK_CSV_HEADER \<noteq> []" "\<not> startsWith BULK_CSV_HEADER ''#''"
    by (simp_all add: BULK_CSV_HEADER_def trim_same is_ws_def startsWith_def)
  have data: "csv_lines (bulkCsvTemplate teamNames roleNames password) = [BULK_CSV_HEADER, row]"
    using row header by (simp add: csv_lines_def lines comment_skipped)
  have columns: "columns_of row = [''Hong Gildong'', ''hong@example.com'', password, DEFAULT_ROLE, team]"
    using assms(1) team(1)
    by (simp add: columns_of_def row_def DEFAULT_ROLE_def plain_column_def split_append_sep split_single trim_same is_ws_def)
  show ?thesis
    using assms(2,5) team(2)
    by (simp add: parseBulkCsv_def data read_row_def columns column_def role_column_def DEFAULT_ROLE_def Let_def)
qed

text \<open>A team's name with a comma is cut there, so the example names another team.\<close>

lemma team_with_comma:
  "map u_team (p_users (parseBulkCsv (bulkCsvTemplate [''dev,ops''] [] ''pw'') [\<lparr>r_id = 3, r_name = ''Member''\<rparr>])) = [Some ''dev'']"
  by code_simp

text \<open>The password of the example is one plain column, and different bytes give different passwords.\<close>

lemma hex_digit_cases:
  assumes "d < 16"
  shows "hex_digit d \<in> set ''0123456789abcdef''"
proof -
  have "list_all (\<lambda>d. hex_digit d \<in> set ''0123456789abcdef'') [0..<16]" by code_simp
  then show ?thesis using assms by (simp only: list_all_iff set_upt) simp
qed

lemma hex_digit_inj:
  assumes "hex_digit d = hex_digit e" "d < 16" "e < 16"
  shows "d = e"
proof -
  have "distinct (map hex_digit [0..<16])" by code_simp
  then show ?thesis using assms by (simp only: distinct_map set_upt inj_on_def) simp
qed

lemma byte_less: "unat (b :: 8 word) < 256"
proof -
  have "unat b < 2 ^ LENGTH(8)" by (rule unsigned_less)
  then show ?thesis by simp
qed

lemma hex_byte_inj: "hex_byte a = hex_byte b \<Longrightarrow> a = b"
proof -
  assume "hex_byte a = hex_byte b"
  moreover have "unat a < 16 * 16" "unat b < 16 * 16" using byte_less [of a] byte_less [of b] by simp_all
  ultimately have "unat a div 16 = unat b div 16" "unat a mod 16 = unat b mod 16"
    by (auto simp: hex_byte_def dest!: hex_digit_inj [rotated 0] simp: less_mult_imp_div_less)
  then have "unat a = unat b" by (metis div_mult_mod_eq)
  then show "a = b" by (simp add: word_unat_eq_iff)
qed

lemma hex_byte_letters: "set (hex_byte b) \<subseteq> set ''0123456789abcdef''"
proof -
  have "unat b < 16 * 16" using byte_less [of b] by simp
  then show ?thesis using hex_digit_cases [of "unat b div 16"] hex_digit_cases [of "unat b mod 16"]
    by (simp only: hex_byte_def list.set) (simp add: less_mult_imp_div_less)
qed

lemma password_letters: "set (exampleBulkPassword bs) \<subseteq> set ''0123456789abcdef''"
  using hex_byte_letters by (auto simp: exampleBulkPassword_def simp del: list.set)

lemma password_length: "length (exampleBulkPassword bs) = 2 * length bs"
  by (induction bs) (simp_all add: exampleBulkPassword_def hex_byte_def)

lemma password_plain: "plain_column (exampleBulkPassword bs)"
proof -
  have no: "c \<notin> set (exampleBulkPassword bs)" if "c \<notin> set ''0123456789abcdef''" for c
    using password_letters [of bs] that by blast
  have "\<not> is_ws c" if "c \<in> set (exampleBulkPassword bs)" for c
  proof -
    have "list_all (\<lambda>c. \<not> is_ws c) ''0123456789abcdef''" by code_simp
    then show ?thesis using password_letters [of bs] that by (auto simp only: list_all_iff)
  qed
  then have "trim (exampleBulkPassword bs) = exampleBulkPassword bs"
    by (cases "exampleBulkPassword bs = []") (simp_all add: trim_same)
  then show ?thesis using no by (simp add: plain_column_def)
qed

lemma password_inj: "length as = length bs \<Longrightarrow> exampleBulkPassword as = exampleBulkPassword bs \<Longrightarrow> as = bs"
proof (induction as bs rule: list_induct2)
  case (Cons a as b bs)
  then show ?case using hex_byte_inj [of a b] by (simp add: exampleBulkPassword_def hex_byte_def)
qed simp

end
