(* ===== verification/Chat_Chart.thy ===== *)
theory Chat_Chart
  imports Complex_Main Prelude
begin

text \<open>
  The charts of a chat answer: which charts a message draws, the ranges of its axes, and the point under the pointer
  (\<^verbatim>\<open>frontend/src/utils/chatChart.ts\<close>). Times and values are reals, \<open>None\<close> for a value that is not a finite number.
\<close>

section \<open>The charts of a message\<close>

definition drawable :: "jval \<Rightarrow> bool" where
  "drawable c \<longleftrightarrow> is_array (jget c ''series'')
     \<and> list_ex (\<lambda>x. is_array (jget x ''points'') \<and> elems (jget x ''points'') \<noteq> []) (elems (jget c ''series''))"

fun last_of_titles :: "jval list \<Rightarrow> jval list" where
  "last_of_titles [] = []"
| "last_of_titles (c # cs) =
     (if list_ex (\<lambda>later. js_eq (jget later ''title'') (jget c ''title'')) cs then last_of_titles cs else c # last_of_titles cs)"

definition chartsOf :: "jval list option \<Rightarrow> jval list" where
  "chartsOf toolCalls = last_of_titles (filter drawable (map (\<lambda>tc. jget tc ''chart'') (case toolCalls of None \<Rightarrow> [] | Some tcs \<Rightarrow> tcs)))"

section \<open>The ranges of the axes\<close>

record ranges =
  t0 :: real
  t1 :: real
  v0 :: real
  v1 :: real

type_synonym chart_point = "real option \<times> real option"

text \<open>A range before any point is infinite; its state is \<open>None\<close>.\<close>

fun widen :: "chart_point \<Rightarrow> ranges option \<Rightarrow> ranges option" where
  "widen (Some t, Some v) None = Some \<lparr>t0 = t, t1 = t, v0 = v, v1 = v\<rparr>"
| "widen (Some t, Some v) (Some r) = Some \<lparr>t0 = min (t0 r) t, t1 = max (t1 r) t, v0 = min (v0 r) v, v1 = max (v1 r) v\<rparr>"
| "widen _ r = r"

definition extent :: "chart_point list list \<Rightarrow> ranges" where
  "extent series = (case fold (fold widen) series None of
      None \<Rightarrow> \<lparr>t0 = 0, t1 = 1, v0 = 0, v1 = 1\<rparr>
    | Some r \<Rightarrow>
        let b = (if t1 r = t0 r then t0 r + 1 else t1 r);
            l = min 0 (v0 r);
            h = (if v1 r \<le> l then l + 1 else v1 r)
        in \<lparr>t0 = t0 r, t1 = b, v0 = l, v1 = h\<rparr>)"

section \<open>The nearest point\<close>

function bisect :: "(real \<times> 'v) list \<Rightarrow> real \<Rightarrow> nat \<Rightarrow> nat \<Rightarrow> nat \<times> nat" where
  "bisect points t lo hi =
     (if hi - lo > 1 then
        let mid = (lo + hi) div 2 in
        if fst (points ! mid) \<le> t then bisect points t mid hi else bisect points t lo mid
      else (lo, hi))"
  by pat_completeness auto
termination
  by (relation "measure (\<lambda>(_, _, lo, hi). hi - lo)") auto

declare bisect.simps [simp del]

definition nearest :: "(real \<times> 'v) list \<Rightarrow> real \<Rightarrow> (real \<times> 'v) option" where
  "nearest points t =
     (if points = [] then None
      else (case bisect points t 0 (length points - 1) of
          (lo, hi) \<Rightarrow> Some (if \<bar>fst (points ! lo) - t\<bar> \<le> \<bar>fst (points ! hi) - t\<bar> then points ! lo else points ! hi)))"

section \<open>One chart per title, the last one\<close>

lemma charts_subset: "c \<in> set (last_of_titles cs) \<Longrightarrow> c \<in> set cs"
  by (induction cs) (auto split: if_splits)

lemma last_of_titles_distinct:
  "sorted_wrt (\<lambda>a b. \<not> js_eq (jget b ''title'') (jget a ''title'')) (last_of_titles cs)"
  by (induction cs) (auto simp: list_ex_iff dest: charts_subset)

theorem one_chart_per_title:
  "sorted_wrt (\<lambda>a b. \<not> js_eq (jget b ''title'') (jget a ''title'')) (chartsOf tcs)"
  by (simp add: chartsOf_def last_of_titles_distinct)

lemma last_of_titles_keeps:
  "\<exists>c\<in>set cs. jget c ''title'' = JStr s \<Longrightarrow> \<exists>c\<in>set (last_of_titles cs). jget c ''title'' = JStr s"
  by (induction cs) (auto simp: list_ex_iff, blast?)

theorem redone_chart_last:
  assumes "filter drawable (map (\<lambda>tc. jget tc ''chart'') tcs) = xs @ c # ys" "\<forall>d\<in>set ys. jget d ''title'' \<noteq> jget c ''title''"
  shows "c \<in> set (chartsOf (Some tcs))"
proof -
  have "c \<in> set (last_of_titles (xs @ c # ys))"
    using assms(2) by (induction xs) (auto simp: list_ex_iff dest: js_eqD)
  then show ?thesis using assms(1) by (simp add: chartsOf_def)
qed

section \<open>Every point lies inside the axes\<close>

definition inside :: "chart_point \<Rightarrow> ranges \<Rightarrow> bool" where
  "inside p r = (case p of (Some t, Some v) \<Rightarrow> t0 r \<le> t \<and> t \<le> t1 r \<and> v0 r \<le> v \<and> v \<le> v1 r | _ \<Rightarrow> True)"

definition grows :: "ranges option \<Rightarrow> ranges option \<Rightarrow> bool" where
  "grows r r' = (case r of None \<Rightarrow> True | Some a \<Rightarrow> (case r' of None \<Rightarrow> False
    | Some b \<Rightarrow> t0 b \<le> t0 a \<and> t1 a \<le> t1 b \<and> v0 b \<le> v0 a \<and> v1 a \<le> v1 b))"

lemma grows_refl [simp]: "grows r r"
  by (cases r) (simp_all add: grows_def)

lemma grows_trans: "grows a b \<Longrightarrow> grows b c \<Longrightarrow> grows a c"
  by (cases a; cases b; cases c) (auto simp: grows_def)

lemma widen_grows: "grows r (widen p r)"
  by (cases "(p, r)" rule: widen.cases) (auto simp: grows_def)

lemma fold_widen_grows: "grows r (fold widen ps r)"
  by (induction ps arbitrary: r) (auto intro: grows_trans widen_grows)

lemma folds_widen_grows: "grows r (fold (fold widen) ss r)"
  by (induction ss arbitrary: r) (auto intro: grows_trans fold_widen_grows)

definition covers :: "ranges option \<Rightarrow> chart_point \<Rightarrow> bool" where
  "covers r p = (case r of None \<Rightarrow> fst p = None \<or> snd p = None | Some a \<Rightarrow> inside p a)"

lemma covers_grows: "covers r p \<Longrightarrow> grows r r' \<Longrightarrow> covers r' p"
  by (cases p; cases r; cases r') (auto simp: covers_def grows_def inside_def split: option.splits)

lemma widen_covers: "covers (widen p r) p"
  by (cases "(p, r)" rule: widen.cases) (auto simp: covers_def inside_def split: option.split)

lemma fold_widen_covers: "p \<in> set ps \<Longrightarrow> covers (fold widen ps r) p"
  by (induction ps arbitrary: r) (auto intro: covers_grows [OF widen_covers fold_widen_grows])

lemma folds_widen_covers: "s \<in> set ss \<Longrightarrow> p \<in> set s \<Longrightarrow> covers (fold (fold widen) ss r) p"
  by (induction ss arbitrary: r) (auto intro: covers_grows [OF fold_widen_covers folds_widen_grows])

definition proper :: "ranges option \<Rightarrow> bool" where
  "proper r = (case r of None \<Rightarrow> True | Some a \<Rightarrow> t0 a \<le> t1 a \<and> v0 a \<le> v1 a)"

lemma widen_proper: "proper r \<Longrightarrow> proper (widen p r)"
  by (cases "(p, r)" rule: widen.cases) (auto simp: proper_def)

lemma fold_widen_proper: "proper r \<Longrightarrow> proper (fold widen ps r)"
  by (induction ps arbitrary: r) (auto intro: widen_proper)

lemma folds_widen_proper: "proper r \<Longrightarrow> proper (fold (fold widen) ss r)"
  by (induction ss arbitrary: r) (auto intro: fold_widen_proper)

theorem points_on_chart:
  assumes "s \<in> set series" "p \<in> set s"
  shows "inside p (extent series)"
  using folds_widen_covers [OF assms, of None]
  by (auto simp: extent_def covers_def inside_def Let_def split: option.splits)

theorem axes_not_empty: "t0 (extent series) < t1 (extent series) \<and> v0 (extent series) < v1 (extent series) \<and> v0 (extent series) \<le> 0"
  using folds_widen_proper [of None series]
  by (auto simp: extent_def proper_def Let_def split: option.splits)

section \<open>The point found is the nearest\<close>

text \<open>The search ends at two neighbours around the time, or at an end of the series.\<close>

lemma bisect_brackets:
  assumes "lo \<le> hi" "hi < length points" "lo = 0 \<or> fst (points ! lo) \<le> t" "hi = length points - 1 \<or> t \<le> fst (points ! hi)"
    and "bisect points t lo hi = (a, b)"
  shows "a \<le> b \<and> b \<le> a + 1 \<and> b < length points \<and> (a = 0 \<or> fst (points ! a) \<le> t) \<and> (b = length points - 1 \<or> t \<le> fst (points ! b))"
  using assms
proof (induction points t lo hi rule: bisect.induct)
  case (1 points t lo hi)
  show ?case
  proof (cases "hi - lo > 1")
    case True
    let ?mid = "(lo + hi) div 2"
    show ?thesis
    proof (cases "fst (points ! ?mid) \<le> t")
      case m: True
      then have "bisect points t ?mid hi = (a, b)"
        using "1.prems"(5) True by (simp add: bisect.simps [of points t lo hi] Let_def)
      then show ?thesis using "1.IH"(1) [OF True refl m] "1.prems" True m by auto
    next
      case m: False
      then have "bisect points t lo ?mid = (a, b)"
        using "1.prems"(5) True by (simp add: bisect.simps [of points t lo hi] Let_def)
      then show ?thesis using "1.IH"(2) [OF True refl m] "1.prems" True m by auto
    qed
  next
    case False
    then show ?thesis using "1.prems" by (auto simp: bisect.simps [of points t lo hi])
  qed
qed

theorem nearest_is_nearest:
  assumes "sorted (map fst points)" "points \<noteq> []"
  obtains p where "nearest points t = Some p" "p \<in> set points" "\<forall>q\<in>set points. \<bar>fst p - t\<bar> \<le> \<bar>fst q - t\<bar>"
proof -
  obtain a b where ab: "bisect points t 0 (length points - 1) = (a, b)" by (cases "bisect points t 0 (length points - 1)")
  have br: "a \<le> b \<and> b \<le> a + 1 \<and> b < length points \<and> (a = 0 \<or> fst (points ! a) \<le> t) \<and> (b = length points - 1 \<or> t \<le> fst (points ! b))"
    using assms(2) by (intro bisect_brackets [OF _ _ _ _ ab]) auto
  have le: "fst (points ! i) \<le> fst (points ! j)" if "i \<le> j" "j < length points" for i j
    using sorted_nth_mono [OF assms(1), of i j] that by simp
  have side: "\<bar>fst (points ! a) - t\<bar> \<le> \<bar>fst (points ! i) - t\<bar> \<or> \<bar>fst (points ! b) - t\<bar> \<le> \<bar>fst (points ! i) - t\<bar>"
    if "i < length points" for i
  proof (cases "i \<le> a")
    case True
    then show ?thesis using br le [of i a] by (cases "i = a") auto
  next
    case False
    then have "b \<le> i" using br by linarith
    then show ?thesis using br le [of b i] that by (cases "i = b") auto
  qed
  let ?p = "if \<bar>fst (points ! a) - t\<bar> \<le> \<bar>fst (points ! b) - t\<bar> then points ! a else points ! b"
  show thesis
  proof (rule that)
    show "nearest points t = Some ?p" using assms(2) ab by (simp add: nearest_def)
    show "?p \<in> set points" using br by auto
    show "\<forall>q\<in>set points. \<bar>fst ?p - t\<bar> \<le> \<bar>fst q - t\<bar>" using side by (fastforce simp: in_set_conv_nth)
  qed
qed

end
