(* ===== verification/Bindings.thy ===== *)
theory Bindings
  imports Comparing "HOL-Library.List_Lexorder" "HOL-Library.Char_ord" "HOL-Library.Multiset"
begin

text \<open>
  The bindings a ServiceAccount's drawer and a role's drawer list: those that apply to the account
  (\<^verbatim>\<open>frontend/src/components/resource-detail/service-account-info/useEffectivePermissions.ts\<close>), with the role each one asks for, and those that
  reference a role (\<^verbatim>\<open>frontend/src/components/resource-detail/role-info/referencedBy.ts\<close>). The names of bindings, namespaces and roles are
  texts, as the lists have them.
\<close>

section \<open>Bindings of a ServiceAccount\<close>

datatype binding_kind = RoleBinding | ClusterRoleBinding

record subject =
  s_kind :: jval
  s_name :: jval
  s_namespace :: jval

record normalized =
  b_kind :: binding_kind
  b_name :: jval
  b_namespace :: jval
  role_ref_kind :: jval
  role_ref_name :: jval
  subjects :: "subject list"
  matched_by :: "string list"

definition read_subject :: "jval \<Rightarrow> subject" where
  "read_subject s = \<lparr>s_kind = jnn (jget s ''kind'') JNull, s_name = jnn (jget s ''name'') JNull, s_namespace = jnn (jget s ''namespace'') JNull\<rparr>"

definition meta_of :: "jval \<Rightarrow> jval" where
  "meta_of item = jnn (jget item ''metadata'') item"

definition role_ref_of :: "jval \<Rightarrow> jval" where
  "role_ref_of item = jnn (jget item ''roleRef'') (jnn (jget item ''role_ref'') (JObj []))"

definition normalizeRb :: "binding_kind \<Rightarrow> jval \<Rightarrow> normalized option" where
  "normalizeRb defaultKind item =
     (let name = jnn (jget (meta_of item) ''name'') (jget item ''name'') in
      if \<not> truthy item \<or> \<not> truthy name then None
      else Some \<lparr>b_kind = defaultKind, b_name = name,
        b_namespace = jnn (jget (meta_of item) ''namespace'') (jget item ''namespace''),
        role_ref_kind = jnn (jget (role_ref_of item) ''kind'') (jnn (jget item ''role_ref_kind'') (JStr [])),
        role_ref_name = jnn (jget (role_ref_of item) ''name'') (jnn (jget item ''role_ref_name'') (JStr [])),
        subjects = map read_subject (elems (jget item ''subjects'')), matched_by = []\<rparr>)"

definition namesServiceAccount :: "subject \<Rightarrow> normalized \<Rightarrow> string \<Rightarrow> string \<Rightarrow> bool" where
  "namesServiceAccount s b ns saName \<longleftrightarrow>
     s_kind s = JStr ''ServiceAccount'' \<and> s_name s = JStr saName \<and> jor (s_namespace s) (b_namespace b) = JStr ns"

definition includesServiceAccount :: "subject \<Rightarrow> string \<Rightarrow> string \<Rightarrow> bool" where
  "includesServiceAccount s ns saName =
     (if s_kind s = JStr ''User'' then s_name s = JStr (''system:serviceaccount:'' @ ns @ '':'' @ saName)
      else if s_kind s = JStr ''Group'' then s_name s = JStr ''system:serviceaccounts'' \<or> s_name s = JStr (''system:serviceaccounts:'' @ ns)
      else False)"

definition match_binding :: "string \<Rightarrow> string \<Rightarrow> normalized \<Rightarrow> normalized list" where
  "match_binding ns name b =
     (let others = filter (\<lambda>s. includesServiceAccount s ns name) (subjects b);
          direct = list_ex (\<lambda>s. namesServiceAccount s b ns name) (subjects b) in
      if \<not> direct \<and> others = [] then []
      else [b\<lparr>matched_by := (if direct then [] else map (\<lambda>s. jstr (s_kind s) @ '' '' @ jstr (s_name s)) others)\<rparr>])"

definition matched :: "string \<Rightarrow> string \<Rightarrow> jval \<Rightarrow> binding_kind \<Rightarrow> normalized list" where
  "matched ns name lst kind = concat (map (match_binding ns name) (List.map_filter (normalizeRb kind) (elems lst)))"

definition serviceAccountBindings :: "jval \<Rightarrow> jval \<Rightarrow> string \<Rightarrow> string \<Rightarrow> normalized list" where
  "serviceAccountBindings rbList crbList ns name = matched ns name rbList RoleBinding @ matched ns name crbList ClusterRoleBinding"

section \<open>The role of a binding, and its rules\<close>

datatype role_query = Describe_ClusterRole jval | Describe_Role jval jval

definition is_cluster_role :: "normalized \<Rightarrow> bool" where
  "is_cluster_role b \<longleftrightarrow> role_ref_kind b = JStr ''ClusterRole''"

definition role_query_of :: "normalized \<Rightarrow> role_query" where
  "role_query_of b = (if is_cluster_role b then Describe_ClusterRole (role_ref_name b) else Describe_Role (jnn (b_namespace b) (JStr [])) (role_ref_name b))"

record rule_entry =
  apiGroups :: "jval list"
  resources :: "jval list"
  verbs :: "jval list"
  resourceNames :: "jval list option"

definition normalizeRules :: "jval \<Rightarrow> rule_entry list" where
  "normalizeRules rulesRaw = map (\<lambda>r. \<lparr>
     apiGroups = (if is_array (jget r ''apiGroups'') then elems (jget r ''apiGroups'') else elems (jget r ''api_groups'')),
     resources = elems (jget r ''resources''), verbs = elems (jget r ''verbs''),
     resourceNames = (if is_array (jget r ''resourceNames'') then Some (elems (jget r ''resourceNames''))
       else if is_array (jget r ''resource_names'') then Some (elems (jget r ''resource_names'')) else None)\<rparr>) (elems rulesRaw)"

text \<open>The answer to a role's query: data, still on its way, or an error's text.\<close>

datatype role_answer = Data jval | Loading | Failed string | Not_Asked

record bound_role =
  binding :: normalized
  role_is_cluster :: bool
  role_namespace :: "jval option"
  rules :: "rule_entry list"
  loading :: bool
  bound_error :: "string option"

definition bound_of :: "(role_query \<Rightarrow> role_answer) \<Rightarrow> normalized \<Rightarrow> bound_role" where
  "bound_of answer b =
     (let q = (if truthy (role_ref_name b) then answer (role_query_of b) else Not_Asked) in
      \<lparr>binding = b, role_is_cluster = is_cluster_role b,
       role_namespace = (if is_cluster_role b \<or> nullish (b_namespace b) then None else Some (b_namespace b)),
       rules = (case q of Data d \<Rightarrow> normalizeRules (jget d ''rules'') | _ \<Rightarrow> []),
       loading = (q = Loading), bound_error = (case q of Failed e \<Rightarrow> Some e | _ \<Rightarrow> None)\<rparr>)"

text \<open>Which binding lists could not be read; the status of an error is that of its answer.\<close>

definition unreadable :: "nat option option \<Rightarrow> nat option option \<Rightarrow> string list \<times> bool" where
  "unreadable rbError crbError =
     (let failed = filter (\<lambda>(_, e). e \<noteq> None) [(''RoleBinding'', rbError), (''ClusterRoleBinding'', crbError)] in
      (map fst failed, list_ex (\<lambda>(_, e). e = Some (Some 403)) failed))"

section \<open>Bindings that reference a role\<close>

record reverse_binding =
  rv_name :: jval
  rv_namespace :: jval
  rv_ref_kind :: jval
  rv_ref_name :: jval
  rv_subjects :: "subject list"
  rv_count :: jval

definition normalizeBinding :: "jval \<Rightarrow> reverse_binding option" where
  "normalizeBinding item =
     (let name = jnn (jget (meta_of item) ''name'') (jget item ''name''); ss = map read_subject (elems (jget item ''subjects'')) in
      if \<not> truthy item \<or> \<not> truthy name then None
      else Some \<lparr>rv_name = name,
        rv_namespace = jnn (jget (meta_of item) ''namespace'') (jnn (jget item ''namespace'') (JStr [])),
        rv_ref_kind = jnn (jget (role_ref_of item) ''kind'') (jget item ''role_ref_kind''),
        rv_ref_name = jnn (jget (role_ref_of item) ''name'') (jnn (jget item ''role_ref_name'') (JStr [])),
        rv_subjects = ss,
        rv_count = (if ss \<noteq> [] then JNum (int (length ss)) else jor (jget item ''subjects_count'') (JNum 0))\<rparr>)"

definition binding_order :: "reverse_binding \<Rightarrow> string" where
  "binding_order b = jstr (rv_namespace b) @ ''/'' @ jstr (rv_name b)"

definition referencingBindings :: "jval \<Rightarrow> string \<Rightarrow> string \<Rightarrow> reverse_binding list" where
  "referencingBindings items kind name =
     js_sort (compare_by binding_order)
       (filter (\<lambda>b. rv_ref_name b = JStr name \<and> rv_ref_kind b = JStr kind) (List.map_filter normalizeBinding (elems items)))"

definition subjectsText :: "subject list \<Rightarrow> string" where
  "subjectsText ss = (if ss = [] then ''-''
     else join '', '' (map (\<lambda>s. jstr (jor (s_kind s) (JStr ''?'')) @ ''/'' @ jstr (jor (s_name s) (JStr ''-''))) ss))"

section \<open>Exactly the bindings the API server applies\<close>

text \<open>
  How the API server reads a subject for the account's user: its user name, its groups but for system:authenticated, or the account in
  the subject's namespace, which for a RoleBinding is its own when the subject has none.
\<close>

definition applies_to :: "string \<Rightarrow> string \<Rightarrow> normalized \<Rightarrow> subject \<Rightarrow> bool" where
  "applies_to ns sa b s \<longleftrightarrow>
     s_kind s = JStr ''User'' \<and> s_name s = JStr (''system:serviceaccount:'' @ ns @ '':'' @ sa)
   \<or> s_kind s = JStr ''Group'' \<and> s_name s \<in> {JStr ''system:serviceaccounts'', JStr (''system:serviceaccounts:'' @ ns)}
   \<or> s_kind s = JStr ''ServiceAccount'' \<and> s_name s = JStr sa \<and> (if truthy (s_namespace s) then s_namespace s else b_namespace b) = JStr ns"

lemma applies_to_iff: "applies_to ns sa b s \<longleftrightarrow> namesServiceAccount s b ns sa \<or> includesServiceAccount s ns sa"
  by (auto simp: applies_to_def namesServiceAccount_def includesServiceAccount_def jor_def)

definition applied_through :: "string \<Rightarrow> string \<Rightarrow> normalized \<Rightarrow> string list" where
  "applied_through ns sa b = (if \<exists>s\<in>set (subjects b). namesServiceAccount s b ns sa then []
     else map (\<lambda>s. jstr (s_kind s) @ '' '' @ jstr (s_name s)) (filter (\<lambda>s. includesServiceAccount s ns sa) (subjects b)))"

definition applies :: "string \<Rightarrow> string \<Rightarrow> normalized \<Rightarrow> bool" where
  "applies ns sa b \<longleftrightarrow> (\<exists>s\<in>set (subjects b). applies_to ns sa b s)"

lemma match_binding_shape:
  "match_binding ns sa b = (if applies ns sa b then [b\<lparr>matched_by := applied_through ns sa b\<rparr>] else [])"
proof -
  have "filter (\<lambda>s. includesServiceAccount s ns sa) (subjects b) = [] \<longleftrightarrow> (\<forall>s\<in>set (subjects b). \<not> includesServiceAccount s ns sa)"
    by (simp add: filter_empty_conv)
  then show ?thesis
    unfolding match_binding_def applied_through_def applies_def applies_to_iff Let_def list_ex_iff by auto
qed

lemma matched_exact:
  "matched ns sa lst kind =
     map (\<lambda>b. b\<lparr>matched_by := applied_through ns sa b\<rparr>) (filter (applies ns sa) (List.map_filter (normalizeRb kind) (elems lst)))"
proof -
  have "concat (map (match_binding ns sa) bs) = map (\<lambda>b. b\<lparr>matched_by := applied_through ns sa b\<rparr>) (filter (applies ns sa) bs)" for bs
    by (induction bs) (simp_all add: match_binding_shape)
  then show ?thesis by (simp add: matched_def)
qed

theorem account_bindings_exact:
  "serviceAccountBindings rbs crbs ns sa =
     map (\<lambda>b. b\<lparr>matched_by := applied_through ns sa b\<rparr>)
       (filter (applies ns sa) (List.map_filter (normalizeRb RoleBinding) (elems rbs) @ List.map_filter (normalizeRb ClusterRoleBinding) (elems crbs)))"
  by (simp add: serviceAccountBindings_def matched_exact)

text \<open>Nothing stands beside a binding exactly when a subject names the account itself.\<close>

lemma named_directly_iff:
  assumes "applies ns sa b"
  shows "applied_through ns sa b = [] \<longleftrightarrow> (\<exists>s\<in>set (subjects b). namesServiceAccount s b ns sa)"
  using assms by (auto simp: applied_through_def applies_def applies_to_iff filter_empty_conv)

text \<open>A subject without a namespace is the RoleBinding's own account, and in a ClusterRoleBinding nobody's.\<close>

lemma cluster_subject_without_namespace:
  assumes "b_namespace b = JUndef" "\<not> truthy (s_namespace s)"
  shows "\<not> namesServiceAccount s b ns sa"
  using assms by (simp add: namesServiceAccount_def jor_def)

lemma own_subject_without_namespace:
  assumes "b_namespace b = JStr ns" "\<not> truthy (s_namespace s)" "s_kind s = JStr ''ServiceAccount''"
  shows "namesServiceAccount s b ns' sa \<longleftrightarrow> ns' = ns \<and> s_name s = JStr sa"
  using assms by (auto simp: namesServiceAccount_def jor_def)

section \<open>A role is asked for where it lives\<close>

lemma role_query_shared:
  "role_query_of a = role_query_of b \<longleftrightarrow>
     is_cluster_role a = is_cluster_role b \<and> role_ref_name a = role_ref_name b
     \<and> (is_cluster_role a \<or> jnn (b_namespace a) (JStr []) = jnn (b_namespace b) (JStr []))"
  by (auto simp: role_query_of_def)

lemma rules_only_when_read:
  "rules (bound_of answer b) \<noteq> [] \<Longrightarrow> \<not> loading (bound_of answer b) \<and> bound_error (bound_of answer b) = None"
  by (auto simp: bound_of_def Let_def split: role_answer.splits if_splits)

lemma refused_list_not_empty_answer:
  "fst (unreadable rbError crbError) = [] \<longleftrightarrow> rbError = None \<and> crbError = None"
  "snd (unreadable rbError crbError) \<longleftrightarrow> rbError = Some (Some 403) \<or> crbError = Some (Some 403)"
  by (auto simp: unreadable_def Let_def)

section \<open>The bindings that reference a role\<close>

lemma mset_js_insert: "mset (js_insert c x xs) = add_mset x (mset xs)"
  by (induction xs) auto

lemma mset_js_sort: "mset (js_sort c xs) = mset xs"
  by (induction xs) (simp_all add: mset_js_insert)

theorem referencing_exact:
  "mset (referencingBindings items kind name) =
     mset (filter (\<lambda>b. rv_ref_name b = JStr name \<and> rv_ref_kind b = JStr kind) (List.map_filter normalizeBinding (elems items)))"
  "sorted (map binding_order (referencingBindings items kind name))"
proof -
  show "mset (referencingBindings items kind name) =
      mset (filter (\<lambda>b. rv_ref_name b = JStr name \<and> rv_ref_kind b = JStr kind) (List.map_filter normalizeBinding (elems items)))"
    by (simp add: referencingBindings_def mset_js_sort)
  have "sorted_wrt (\<lambda>a b. compare_by binding_order a b \<le> 0) (referencingBindings items kind name)"
    unfolding referencingBindings_def by (rule by_key.sort_sorted)
  then show "sorted (map binding_order (referencingBindings items kind name))"
    by (simp add: sorted_map) (erule sorted_wrt_mono_rel [rotated], auto simp: compare_by_def split: if_splits)
qed

text \<open>A Role and a ClusterRole of one name are told apart.\<close>

lemma kinds_apart:
  "b \<in> set (referencingBindings items ''Role'' name) \<Longrightarrow> b \<notin> set (referencingBindings items ''ClusterRole'' name)"
  by (simp add: referencingBindings_def)

end
