(* ===== verification/Setup_Wizard.thy ===== *)
theory Setup_Wizard
  imports Prelude
begin

text \<open>
  The first page of the setup: a cluster's configuration is sent, the service restarts, and the page asks until the cluster is connected
  (\<^verbatim>\<open>frontend/src/pages/setup/useClusterSubmit.ts\<close>). The hook's state and refs are a record; its polling loop is the one its effect
  started, with the request or the timer it waits for. An effect whose state changed runs before the next event, as React commits before
  an answer arrives: a loop that its effect ended is no longer written to, and its request that still is under way (\<open>stale\<close>) changes
  nothing. Times are milliseconds.
\<close>

section \<open>State\<close>

datatype phase = Validate | Save | Rollout | Connect

datatype setup_mode = In_Cluster | External

text \<open>\<^verbatim>\<open>submitMutation\<close>: not running, in the first pause, or sent.\<close>

datatype mutation_state = Idle | Pausing | Sent

datatype loop_at = Ask_Rollout | Ask_Health | Waiting nat

record poll_loop =
  startedAt :: nat
  rolloutDone :: bool
  loop_at :: loop_at

record setup_state =
  setup_error :: "string option"
  isApplying :: bool
  currentStep :: "phase option"
  completedSteps :: "phase list"
  mutation :: mutation_state
  pollingRef :: bool
  navigating :: bool
  cleanup_set :: bool
  live :: "poll_loop option"
  stale :: nat
  closing :: "nat option"
  connected :: nat

definition timeoutMs :: nat where
  "timeoutMs = 120000"

definition intervalMs :: nat where
  "intervalMs = 3000"

definition TIMED_OUT :: string where
  "TIMED_OUT = ''Cluster connection timed out. Please check the kubeconfig and try again.''"

definition fresh_setup :: setup_state where
  "fresh_setup = \<lparr>setup_error = None, isApplying = False, currentStep = None, completedSteps = [], mutation = Idle, pollingRef = False,
     navigating = False, cleanup_set = False, live = None, stale = 0, closing = None, connected = 0\<rparr>"

section \<open>Operations\<close>

definition markComplete :: "phase \<Rightarrow> setup_state \<Rightarrow> setup_state" where
  "markComplete p s = s\<lparr>completedSteps := set_add p (completedSteps s)\<rparr>"

definition isBusy :: "setup_state \<Rightarrow> bool" where
  "isBusy s \<longleftrightarrow> mutation s \<noteq> Idle \<or> isApplying s"

definition canSubmit :: "setup_mode \<Rightarrow> string \<Rightarrow> bool" where
  "canSubmit mode kubeconfigText = (case mode of External \<Rightarrow> trim kubeconfigText \<noteq> [] | In_Cluster \<Rightarrow> True)"

text \<open>The effect on \<^verbatim>\<open>[isApplying, currentStep]\<close>: the last one's cleanup, then a loop of its own, whose first request goes out at once.\<close>

definition effect_cleanup :: "setup_state \<Rightarrow> setup_state" where
  "effect_cleanup s = (if cleanup_set s then
     s\<lparr>pollingRef := False, cleanup_set := False, live := None,
       stale := stale s + (case live s of Some l \<Rightarrow> (case loop_at l of Waiting _ \<Rightarrow> 0 | _ \<Rightarrow> 1) | None \<Rightarrow> 0)\<rparr> else s)"

definition effect_start :: "nat \<Rightarrow> setup_state \<Rightarrow> setup_state" where
  "effect_start now s =
     (if \<not> isApplying s then s
      else if currentStep s \<noteq> Some Rollout \<and> currentStep s \<noteq> Some Connect then s
      else if navigating s then s
      else if pollingRef s then s
      else s\<lparr>pollingRef := True, cleanup_set := True,
        live := Some (let d = (currentStep s = Some Connect) in
          \<lparr>startedAt = now, rolloutDone = d, loop_at = (if d then Ask_Health else Ask_Rollout)\<rparr>)\<rparr>)"

definition run_effect :: "nat \<Rightarrow> setup_state \<Rightarrow> setup_state \<Rightarrow> setup_state" where
  "run_effect now before s =
     (if isApplying s = isApplying before \<and> currentStep s = currentStep before then s else effect_start now (effect_cleanup s))"

definition handleClusterSubmit :: "setup_mode \<Rightarrow> string \<Rightarrow> nat \<Rightarrow> setup_state \<Rightarrow> setup_state" where
  "handleClusterSubmit mode kubeconfigText now s =
     (if \<not> canSubmit mode kubeconfigText \<or> isBusy s then s
      else run_effect now s (s\<lparr>setup_error := None, completedSteps := [], mutation := Pausing, currentStep := Some Validate, isApplying := True\<rparr>))"

text \<open>The pause of the mutation ends, and its request succeeds or fails.\<close>

definition pause_over :: "nat \<Rightarrow> setup_state \<Rightarrow> setup_state" where
  "pause_over now s = run_effect now s ((markComplete Validate s)\<lparr>currentStep := Some Save, mutation := Sent\<rparr>)"

definition onSuccess :: "nat \<Rightarrow> setup_state \<Rightarrow> setup_state" where
  "onSuccess now s = run_effect now s ((markComplete Save s)\<lparr>currentStep := Some Rollout, mutation := Idle\<rparr>)"

definition onError :: "string \<Rightarrow> nat \<Rightarrow> setup_state \<Rightarrow> setup_state" where
  "onError detail now s =
     run_effect now s (s\<lparr>setup_error := Some detail, isApplying := False, currentStep := None, completedSteps := [], mutation := Idle\<rparr>)"

text \<open>The end of a round of the loop: time out, or wait for the next one.\<close>

definition round_over :: "nat \<Rightarrow> poll_loop \<Rightarrow> setup_state \<Rightarrow> setup_state" where
  "round_over now l s =
     (if timeoutMs \<le> now - startedAt l then
        s\<lparr>isApplying := False, currentStep := None, pollingRef := False, setup_error := Some TIMED_OUT, live := None\<rparr>
      else s\<lparr>live := Some (l\<lparr>loop_at := Waiting (now + intervalMs)\<rparr>)\<rparr>)"

text \<open>The answer to \<^verbatim>\<open>getRolloutStatus\<close>, false also where it failed; ready, the same round goes on to ask for the health.\<close>

definition rollout_answer :: "bool \<Rightarrow> nat \<Rightarrow> poll_loop \<Rightarrow> setup_state \<Rightarrow> setup_state" where
  "rollout_answer ready now l s = run_effect now s
     (if ready then (markComplete Rollout s)\<lparr>currentStep := Some Connect, live := Some (l\<lparr>rolloutDone := True, loop_at := Ask_Health\<rparr>)\<rparr>
      else round_over now l s)"

text \<open>The answer to \<^verbatim>\<open>getHealth\<close>: healthy with a connected cluster, or not (yet). The window closes 600 ms later.\<close>

definition health_answer :: "bool \<Rightarrow> nat \<Rightarrow> poll_loop \<Rightarrow> setup_state \<Rightarrow> setup_state" where
  "health_answer healthy now l s = run_effect now s
     (if healthy then
        (if \<not> navigating s then (markComplete Connect s)\<lparr>live := None, closing := Some (now + 600)\<rparr> else s\<lparr>live := None\<rparr>)
      else round_over now l s)"

definition poll :: "poll_loop \<Rightarrow> setup_state \<Rightarrow> setup_state" where
  "poll l s = (if navigating s then s\<lparr>live := None\<rparr>
     else s\<lparr>live := Some (l\<lparr>loop_at := (if rolloutDone l then Ask_Health else Ask_Rollout)\<rparr>)\<rparr>)"

definition close_window :: "nat \<Rightarrow> setup_state \<Rightarrow> setup_state" where
  "close_window now s = run_effect now s
     (s\<lparr>isApplying := False, currentStep := None, pollingRef := False, closing := None, connected := connected s + 1\<rparr>)"

section \<open>Steps\<close>

text \<open>A state and the time of the last event.\<close>

type_synonym moment = "setup_state \<times> nat"

text \<open>What the page does by itself: pauses and timers that end, answers that come.\<close>

inductive own_step :: "moment \<Rightarrow> moment \<Rightarrow> bool" where
  Pause: "c \<le> now \<Longrightarrow> mutation s = Pausing \<Longrightarrow> own_step (s, c) (pause_over now s, now)"
| Success: "c \<le> now \<Longrightarrow> mutation s = Sent \<Longrightarrow> own_step (s, c) (onSuccess now s, now)"
| Failure: "c \<le> now \<Longrightarrow> mutation s = Sent \<Longrightarrow> own_step (s, c) (onError detail now s, now)"
| Rollout_Answer: "c \<le> now \<Longrightarrow> live s = Some l \<Longrightarrow> loop_at l = Ask_Rollout \<Longrightarrow> own_step (s, c) (rollout_answer ready now l s, now)"
| Health_Answer: "c \<le> now \<Longrightarrow> live s = Some l \<Longrightarrow> loop_at l = Ask_Health \<Longrightarrow> own_step (s, c) (health_answer healthy now l s, now)"
| Poll: "c \<le> now \<Longrightarrow> live s = Some l \<Longrightarrow> loop_at l = Waiting due \<Longrightarrow> due \<le> now \<Longrightarrow> own_step (s, c) (poll l s, now)"
| Close: "c \<le> now \<Longrightarrow> closing s = Some due \<Longrightarrow> due \<le> now \<Longrightarrow> own_step (s, c) (close_window now s, now)"
| Stale_Answer: "c \<le> now \<Longrightarrow> 0 < stale s \<Longrightarrow> own_step (s, c) (s\<lparr>stale := stale s - 1\<rparr>, now)"

text \<open>What a person does: the button, and leaving for another page.\<close>

inductive click :: "moment \<Rightarrow> moment \<Rightarrow> bool" where
  Submit: "c \<le> now \<Longrightarrow> click (s, c) (handleClusterSubmit mode kubeconfigText now s, now)"
| Navigate: "c \<le> now \<Longrightarrow> click (s, c) (s\<lparr>navigating := True\<rparr>, now)"

inductive wizard_reach :: "moment \<Rightarrow> bool" where
  start: "wizard_reach (fresh_setup, c)"
| own: "wizard_reach m \<Longrightarrow> own_step m m' \<Longrightarrow> wizard_reach m'"
| click: "wizard_reach m \<Longrightarrow> click m m' \<Longrightarrow> wizard_reach m'"

inductive_cases own_stepE: "own_step m m'"

text \<open>A part of one submission: it is under way all the time; the steps of the page itself are counted.\<close>

inductive submission_run :: "nat \<Rightarrow> moment \<Rightarrow> moment \<Rightarrow> bool" where
  here: "isApplying (fst m) \<Longrightarrow> submission_run 0 m m"
| own: "submission_run n m m' \<Longrightarrow> own_step m' m'' \<Longrightarrow> isApplying (fst m'') \<Longrightarrow> submission_run (Suc n) m m''"
| click: "submission_run n m m' \<Longrightarrow> click m' m'' \<Longrightarrow> submission_run n m m''"

section \<open>The invariant\<close>

definition done_before :: "phase option \<Rightarrow> phase list" where
  "done_before p = (case p of Some Validate \<Rightarrow> [] | Some Save \<Rightarrow> [Validate] | Some Rollout \<Rightarrow> [Validate, Save]
     | Some Connect \<Rightarrow> [Validate, Save, Rollout] | None \<Rightarrow> [])"

definition loop_fits :: "nat \<Rightarrow> setup_state \<Rightarrow> poll_loop \<Rightarrow> bool" where
  "loop_fits c s l \<longleftrightarrow> startedAt l \<le> c \<and> currentStep s = Some (if rolloutDone l then Connect else Rollout)
     \<and> (loop_at l = Ask_Rollout \<longrightarrow> \<not> rolloutDone l) \<and> (loop_at l = Ask_Health \<longrightarrow> rolloutDone l)
     \<and> (\<forall>due. loop_at l = Waiting due \<longrightarrow> due < startedAt l + timeoutMs + intervalMs)"

definition wizard_inv :: "moment \<Rightarrow> bool" where
  "wizard_inv m = (case m of (s, c) \<Rightarrow>
     (isApplying s \<longleftrightarrow> currentStep s \<noteq> None)
   \<and> (mutation s = Pausing \<longleftrightarrow> currentStep s = Some Validate) \<and> (mutation s = Sent \<longleftrightarrow> currentStep s = Some Save)
   \<and> (cleanup_set s \<longleftrightarrow> pollingRef s)
   \<and> (pollingRef s \<longrightarrow> currentStep s = Some Rollout \<or> currentStep s = Some Connect)
   \<and> (live s \<noteq> None \<longrightarrow> pollingRef s \<and> closing s = None \<and> loop_fits c s (the (live s)))
   \<and> (closing s \<noteq> None \<longrightarrow> pollingRef s \<and> currentStep s = Some Connect)
   \<and> (isApplying s \<and> mutation s = Idle \<and> \<not> navigating s \<longrightarrow> live s \<noteq> None \<or> closing s \<noteq> None)
   \<and> (isApplying s \<longrightarrow> setup_error s = None \<and> completedSteps s = done_before (currentStep s) @ (if closing s \<noteq> None then [Connect] else [])))"

lemmas wizard_defs = run_effect_def effect_start_def effect_cleanup_def markComplete_def set_add_def done_before_def loop_fits_def

lemma fresh_inv: "wizard_inv (fresh_setup, c)"
  by (simp add: wizard_inv_def fresh_setup_def)

lemma submit_inv: "wizard_inv (s, c) \<Longrightarrow> c \<le> now \<Longrightarrow> wizard_inv (handleClusterSubmit mode k now s, now)"
  by (auto simp: wizard_inv_def handleClusterSubmit_def isBusy_def wizard_defs split: option.splits)

lemma pause_inv: "wizard_inv (s, c) \<Longrightarrow> mutation s = Pausing \<Longrightarrow> wizard_inv (pause_over now s, now)"
  by (auto simp: wizard_inv_def pause_over_def wizard_defs split: option.splits)

lemma success_inv: "wizard_inv (s, c) \<Longrightarrow> mutation s = Sent \<Longrightarrow> wizard_inv (onSuccess now s, now)"
  by (auto simp: wizard_inv_def onSuccess_def wizard_defs Let_def split: option.splits)

lemma failure_inv: "wizard_inv (s, c) \<Longrightarrow> mutation s = Sent \<Longrightarrow> wizard_inv (onError d now s, now)"
  by (auto simp: wizard_inv_def onError_def wizard_defs Let_def split: option.splits)

lemma round_over_inv:
  "wizard_inv (s, c) \<Longrightarrow> c \<le> now \<Longrightarrow> live s = Some l \<Longrightarrow> wizard_inv (run_effect now s (round_over now l s), now)"
  by (auto simp: wizard_inv_def round_over_def wizard_defs Let_def split: option.splits)

lemma inv_live:
  "wizard_inv (s, c) \<Longrightarrow> live s = Some l \<Longrightarrow> closing s = None \<and> pollingRef s \<and> cleanup_set s \<and> loop_fits c s l"
  by (simp add: wizard_inv_def)

lemma inv_connect:
  assumes "wizard_inv (s, c)" "currentStep s = Some Connect" "closing s = None"
  shows "isApplying s" "mutation s = Idle" "completedSteps s = [Validate, Save, Rollout]" "setup_error s = None"
proof -
  show a: "isApplying s" using assms by (simp add: wizard_inv_def)
  show "mutation s = Idle" using assms(1,2) by (cases "mutation s") (simp_all add: wizard_inv_def)
  show "completedSteps s = [Validate, Save, Rollout]" "setup_error s = None"
    using assms a by (simp_all add: wizard_inv_def done_before_def)
qed

lemma rollout_inv:
  assumes "wizard_inv (s, c)" "c \<le> now" "live s = Some l" "loop_at l = Ask_Rollout"
  shows "wizard_inv (rollout_answer ready now l s, now)"
proof (cases ready)
  case True
  then show ?thesis using assms by (auto simp: wizard_inv_def rollout_answer_def wizard_defs Let_def)
next
  case False
  then show ?thesis using round_over_inv [OF assms(1-3)] by (simp add: rollout_answer_def)
qed

lemma health_inv:
  assumes "wizard_inv (s, c)" "c \<le> now" "live s = Some l" "loop_at l = Ask_Health"
  shows "wizard_inv (health_answer healthy now l s, now)"
proof (cases healthy)
  case True
  have eq: "health_answer True now l s =
      (if \<not> navigating s then (markComplete Connect s)\<lparr>live := None, closing := Some (now + 600)\<rparr> else s\<lparr>live := None\<rparr>)"
    by (simp add: health_answer_def run_effect_def markComplete_def)
  have fits: "loop_fits c s l" and s: "closing s = None" "pollingRef s" "cleanup_set s"
    using inv_live [OF assms(1,3)] by simp_all
  have step: "currentStep s = Some Connect" using fits assms(4) by (simp add: loop_fits_def)
  note rest = inv_connect [OF assms(1) step s(1)]
  show ?thesis using True s step rest by (simp add: eq wizard_inv_def markComplete_def set_add_def done_before_def)
next
  case False
  then show ?thesis using round_over_inv [OF assms(1-3)] by (simp add: health_answer_def)
qed

lemma poll_inv:
  "wizard_inv (s, c) \<Longrightarrow> c \<le> now \<Longrightarrow> live s = Some l \<Longrightarrow> wizard_inv (poll l s, now)"
  by (auto simp: wizard_inv_def poll_def wizard_defs)

lemma close_inv: "wizard_inv (s, c) \<Longrightarrow> c \<le> now \<Longrightarrow> closing s = Some due \<Longrightarrow> wizard_inv (close_window now s, now)"
  by (auto simp: wizard_inv_def close_window_def wizard_defs split: option.splits)

lemma loop_fits_later: "loop_fits c s l \<Longrightarrow> c \<le> now \<Longrightarrow> loop_fits now s l"
  by (simp add: loop_fits_def)

lemma loop_fits_same [simp]: "loop_fits c (s\<lparr>stale := n\<rparr>) = loop_fits c s" "loop_fits c (s\<lparr>navigating := b\<rparr>) = loop_fits c s"
  by (simp_all add: loop_fits_def fun_eq_iff)

lemma inv_later: "wizard_inv (s, c) \<Longrightarrow> c \<le> now \<Longrightarrow> wizard_inv (s, now)"
  unfolding wizard_inv_def using loop_fits_later by (simp only: prod.case) blast

lemma stale_inv: "wizard_inv (s, c) \<Longrightarrow> c \<le> now \<Longrightarrow> wizard_inv (s\<lparr>stale := n\<rparr>, now)"
  by (drule inv_later, assumption) (simp add: wizard_inv_def)

lemma navigate_inv: "wizard_inv (s, c) \<Longrightarrow> c \<le> now \<Longrightarrow> wizard_inv (s\<lparr>navigating := True\<rparr>, now)"
  by (drule inv_later, assumption) (simp add: wizard_inv_def)

lemma wizard_step_inv: "own_step m m' \<Longrightarrow> wizard_inv m \<Longrightarrow> wizard_inv m'"
  by (induction rule: own_step.induct)
    (blast intro: pause_inv success_inv failure_inv rollout_inv health_inv poll_inv close_inv stale_inv)+

lemma click_inv: "click m m' \<Longrightarrow> wizard_inv m \<Longrightarrow> wizard_inv m'"
  by (induction rule: click.induct) (blast intro: submit_inv navigate_inv)+

lemma reach_inv: "wizard_reach m \<Longrightarrow> wizard_inv m"
  by (induction rule: wizard_reach.induct) (auto intro: fresh_inv wizard_step_inv click_inv)

section \<open>How long a submission takes\<close>

text \<open>The rounds a loop still has at a time, and a rank that every step of the page lowers.\<close>

definition rounds_left :: "nat \<Rightarrow> poll_loop \<Rightarrow> nat" where
  "rounds_left c l = (startedAt l + timeoutMs - c + (intervalMs - 1)) div intervalMs"

definition loop_rank :: "nat \<Rightarrow> poll_loop \<Rightarrow> nat" where
  "loop_rank c l = (case loop_at l of Waiting due \<Rightarrow> 2 * rounds_left due l + 4 | _ \<Rightarrow> 2 * rounds_left c l + 3)"

definition stage_rank :: "phase option \<Rightarrow> nat" where
  "stage_rank p = (case p of Some Validate \<Rightarrow> 400 | Some Save \<Rightarrow> 300 | Some Rollout \<Rightarrow> 200 | Some Connect \<Rightarrow> 100 | None \<Rightarrow> 0)"

definition wizard_rank :: "moment \<Rightarrow> nat" where
  "wizard_rank m = (case m of (s, c) \<Rightarrow> stage_rank (currentStep s) + stale s
     + (case live s of Some l \<Rightarrow> loop_rank c l | None \<Rightarrow> if closing s \<noteq> None then 1 else 0))"

lemma rounds_left_mono: "c \<le> now \<Longrightarrow> rounds_left now l \<le> rounds_left c l"
  unfolding rounds_left_def by (intro div_le_mono) simp

lemma rounds_left_next:
  assumes "\<not> timeoutMs \<le> now - startedAt l" "startedAt l \<le> now"
  shows "rounds_left (now + intervalMs) l + 1 = rounds_left now l"
proof -
  define d where "d = startedAt l + timeoutMs - now"
  have d: "0 < d" using assms by (simp add: d_def)
  have "(d - 3000 + 2999) div 3000 + 1 = (d + 2999) div (3000 :: nat)"
  proof (cases "d < 3000")
    case True
    then have "(d + 2999) div 3000 = 1" using d by (intro div_nat_eqI) auto
    then show ?thesis using True by simp
  next
    case False
    then have "d + 2999 = d - 3000 + 2999 + 3000" by simp
    then show ?thesis by (metis div_add_self2 zero_neq_numeral)
  qed
  moreover have "startedAt l + timeoutMs - (now + intervalMs) = d - 3000" by (simp add: d_def intervalMs_def)
  ultimately show ?thesis by (simp add: rounds_left_def intervalMs_def flip: d_def)
qed

lemma rounds_left_start: "startedAt l = c \<Longrightarrow> rounds_left c l = 40"
  by (simp add: rounds_left_def timeoutMs_def intervalMs_def)

lemma rounds_left_at [simp]: "rounds_left c (l\<lparr>loop_at := a\<rparr>) = rounds_left c l" "rounds_left c (l\<lparr>rolloutDone := b\<rparr>) = rounds_left c l"
  by (simp_all add: rounds_left_def)

lemma loop_rank_later: "c \<le> now \<Longrightarrow> loop_rank now l \<le> loop_rank c l"
  using rounds_left_mono [of c now l] by (auto simp: loop_rank_def split: loop_at.split)

lemma rank_later: "c \<le> now \<Longrightarrow> wizard_rank (s, now) \<le> wizard_rank (s, c)"
  using loop_rank_later by (auto simp: wizard_rank_def split: option.split)

lemma rank_navigating [simp]: "wizard_rank (s\<lparr>navigating := b\<rparr>, c) = wizard_rank (s, c)"
  by (auto simp: wizard_rank_def)

lemma click_rank: "click m m' \<Longrightarrow> isApplying (fst m) \<Longrightarrow> isApplying (fst m') \<and> wizard_rank m' \<le> wizard_rank m"
  by (induction rule: click.induct) (auto simp: handleClusterSubmit_def isBusy_def rank_later)

lemma stage_steps: "stage_rank (Some Validate) = 400" "stage_rank (Some Save) = 300" "stage_rank (Some Rollout) = 200" "stage_rank (Some Connect) = 100"
  "stage_rank None = 0"
  by (simp_all add: stage_rank_def)

text \<open>A round that ends lowers the rank of its loop, unless it ends the submission.\<close>

lemma round_over_rank:
  assumes "wizard_inv (s, c)" "c \<le> now" "live s = Some l" "\<And>due. loop_at l \<noteq> Waiting due"
    and "isApplying (run_effect now s (round_over now l s))"
  shows "wizard_rank (run_effect now s (round_over now l s), now) < wizard_rank (s, c)"
proof -
  have fits: "loop_fits c s l" and "isApplying s" "closing s = None"
    using assms(1,3) by (auto simp: wizard_inv_def loop_fits_def)
  have late: "\<not> timeoutMs \<le> now - startedAt l"
    using assms(5) \<open>isApplying s\<close> by (auto simp: round_over_def run_effect_def effect_start_def effect_cleanup_def split: if_splits)
  then have s': "run_effect now s (round_over now l s) = s\<lparr>live := Some (l\<lparr>loop_at := Waiting (now + intervalMs)\<rparr>)\<rparr>"
    by (simp add: round_over_def run_effect_def)
  have "rounds_left (now + intervalMs) l + 1 \<le> rounds_left c l"
    using rounds_left_next [OF late] rounds_left_mono [OF assms(2)] fits assms(2) by (simp add: loop_fits_def)
  then have "loop_rank now (l\<lparr>loop_at := Waiting (now + intervalMs)\<rparr>) < loop_rank c l"
    using assms(4) by (auto simp: loop_rank_def split: loop_at.split)
  then show ?thesis using assms(3) by (simp add: s' wizard_rank_def)
qed

text \<open>The first round of a loop just started.\<close>

lemma started_rank:
  assumes "live s = None" "closing s = None" "\<not> pollingRef s"
  shows "wizard_rank (effect_start now s, now) \<le> stage_rank (currentStep s) + stale s + 83"
  using assms by (auto simp: effect_start_def wizard_rank_def loop_rank_def Let_def rounds_left_start)

lemma inv_mutation:
  assumes "wizard_inv (s, c)" "mutation s \<noteq> Idle"
  shows "live s = None" "closing s = None" "\<not> pollingRef s" "\<not> cleanup_set s" "isApplying s"
    "currentStep s = Some (if mutation s = Pausing then Validate else Save)"
proof -
  show c: "currentStep s = Some (if mutation s = Pausing then Validate else Save)"
    using assms by (cases "mutation s") (simp_all add: wizard_inv_def)
  show "isApplying s" "\<not> pollingRef s" using assms c by (auto simp: wizard_inv_def split: if_splits)
  then show "live s = None" "closing s = None" "\<not> cleanup_set s" using assms by (auto simp: wizard_inv_def)
qed

lemma pause_rank: "wizard_inv (s, c) \<Longrightarrow> mutation s = Pausing \<Longrightarrow> wizard_rank (pause_over now s, now) < wizard_rank (s, c)"
  using inv_mutation [of s c]
  by (simp add: pause_over_def run_effect_def effect_cleanup_def effect_start_def markComplete_def wizard_rank_def stage_steps)

lemma success_rank:
  assumes "wizard_inv (s, c)" "mutation s = Sent"
  shows "wizard_rank (onSuccess now s, now) < wizard_rank (s, c)"
proof -
  let ?t = "(markComplete Save s)\<lparr>currentStep := Some Rollout, mutation := Idle\<rparr>"
  note m = inv_mutation [OF assms(1)]
  have "onSuccess now s = effect_start now ?t"
    using m assms(2) by (simp add: onSuccess_def run_effect_def effect_cleanup_def markComplete_def)
  moreover have "wizard_rank (effect_start now ?t, now) \<le> 283 + stale s"
    using started_rank [of ?t now] m assms(2) by (simp add: markComplete_def stage_steps)
  moreover have "wizard_rank (s, c) = 300 + stale s" using m assms(2) by (simp add: wizard_rank_def stage_steps)
  ultimately show ?thesis by simp
qed

lemma rollout_rank:
  assumes "wizard_inv (s, c)" "c \<le> now" "live s = Some l" "loop_at l = Ask_Rollout" "isApplying (rollout_answer ready now l s)"
  shows "wizard_rank (rollout_answer ready now l s, now) < wizard_rank (s, c)"
proof (cases ready)
  case False
  then show ?thesis using round_over_rank [OF assms(1-3)] assms(4,5) by (simp add: rollout_answer_def)
next
  case True
  have fits: "loop_fits c s l" and s: "closing s = None" "pollingRef s" "cleanup_set s"
    using inv_live [OF assms(1,3)] by simp_all
  have step: "currentStep s = Some Rollout" using fits assms(4) by (simp add: loop_fits_def)
  let ?t = "(markComplete Rollout s)\<lparr>currentStep := Some Connect, pollingRef := False, cleanup_set := False, live := None, stale := stale s + 1\<rparr>"
  have "rollout_answer True now l s = effect_start now ?t"
    using s step by (simp add: rollout_answer_def run_effect_def effect_cleanup_def markComplete_def)
  moreover have "wizard_rank (effect_start now ?t, now) \<le> 184 + stale s"
    using started_rank [of ?t now] s by (simp add: markComplete_def stage_steps)
  moreover have "200 + stale s \<le> wizard_rank (s, c)" using step by (simp add: wizard_rank_def stage_steps)
  ultimately show ?thesis using True by simp
qed

lemma health_rank:
  assumes "wizard_inv (s, c)" "c \<le> now" "live s = Some l" "loop_at l = Ask_Health" "isApplying (health_answer healthy now l s)"
  shows "wizard_rank (health_answer healthy now l s, now) < wizard_rank (s, c)"
proof (cases healthy)
  case False
  then show ?thesis using round_over_rank [OF assms(1-3)] assms(4,5) by (simp add: health_answer_def)
next
  case True
  have "closing s = None" using inv_live [OF assms(1,3)] by simp
  then show ?thesis
    using True assms(3,4) by (simp add: health_answer_def run_effect_def markComplete_def wizard_rank_def loop_rank_def)
qed

lemma poll_rank:
  assumes "wizard_inv (s, c)" "c \<le> now" "live s = Some l" "loop_at l = Waiting due" "due \<le> now"
  shows "wizard_rank (poll l s, now) < wizard_rank (s, c)"
  using inv_live [OF assms(1,3)] rounds_left_mono [OF assms(5), of l] assms(3,4)
  by (simp add: poll_def wizard_rank_def loop_rank_def)

lemma own_rank: "own_step m m' \<Longrightarrow> wizard_inv m \<Longrightarrow> isApplying (fst m') \<Longrightarrow> wizard_rank m' < wizard_rank m"
proof (induction rule: own_step.induct)
  case (Close c now s due)
  then show ?case by (simp add: close_window_def run_effect_def effect_start_def effect_cleanup_def split: if_splits)
next
  case (Failure c now s detail)
  then show ?case by (simp add: onError_def run_effect_def effect_start_def effect_cleanup_def split: if_splits)
next
  case (Stale_Answer c now s)
  then have "wizard_rank (s\<lparr>stale := stale s - 1\<rparr>, now) < wizard_rank (s, now)" by (auto simp: wizard_rank_def)
  then show ?case using rank_later [OF Stale_Answer(1)] by (rule less_le_trans)
qed (auto intro: pause_rank success_rank rollout_rank health_rank poll_rank)

lemma run_rank: "submission_run n m m' \<Longrightarrow> wizard_inv m \<Longrightarrow> wizard_inv m' \<and> isApplying (fst m') \<and> n + wizard_rank m' \<le> wizard_rank m"
proof (induction rule: submission_run.induct)
  case (own n m m' m'')
  then show ?case using own_rank [of m' m''] wizard_step_inv [of m' m''] by auto
next
  case (click n m m' m'')
  then show ?case using click_rank [of m' m''] click_inv [of m' m''] by force
qed simp

section \<open>The submission ends\<close>

text \<open>What the page waits for: its pause, an answer, a timer.\<close>

definition under_way :: "setup_state \<Rightarrow> bool" where
  "under_way s \<longleftrightarrow> mutation s \<noteq> Idle \<or> live s \<noteq> None \<or> closing s \<noteq> None"

lemma submitted_rank:
  assumes "wizard_inv (s, c)" "currentStep s = Some Validate"
  shows "wizard_rank (s, c) = 400 + stale s"
proof -
  have "mutation s = Pausing" using assms by (simp add: wizard_inv_def)
  then show ?thesis using inv_mutation [OF assms(1)] assms(2) by (simp add: wizard_rank_def stage_steps)
qed

text \<open>
  C24: A submission of the setup ends: once it is sent, after at most 400 answers and timers (and the answers to older requests still under
  way) the page has connected or says why not; until then, unless the person left, the page waits for an answer or a timer that will come,
  no error is shown, and the steps ticked off are those before the one under way.
\<close>

theorem submission_ends:
  assumes "wizard_reach (s, c)" "currentStep s = Some Validate" "submission_run n (s, c) (s', c')"
  shows "n \<le> 400 + stale s \<and> (under_way s' \<or> navigating s') \<and> setup_error s' = None
    \<and> completedSteps s' = done_before (currentStep s') @ (if closing s' \<noteq> None then [Connect] else [])"
proof -
  have inv: "wizard_inv (s, c)" using assms(1) by (rule reach_inv)
  have "wizard_inv (s', c')" "isApplying s'" "n + wizard_rank (s', c') \<le> wizard_rank (s, c)"
    using run_rank [OF assms(3) inv] by simp_all
  moreover have "wizard_rank (s, c) = 400 + stale s" using inv assms(2) by (rule submitted_rank)
  ultimately show ?thesis by (auto simp: wizard_inv_def under_way_def)
qed

definition submitted :: setup_state where
  "submitted = handleClusterSubmit In_Cluster [] 0 fresh_setup"

theorem submission_ends_witness: "under_way (onSuccess 401 (pause_over 400 submitted)) \<and> setup_error (onSuccess 401 (pause_over 400 submitted)) = None"
proof -
  have s: "currentStep submitted = Some Validate" "mutation submitted = Pausing" "isApplying submitted"
    by (simp_all add: submitted_def handleClusterSubmit_def canSubmit_def isBusy_def fresh_setup_def run_effect_def effect_cleanup_def effect_start_def)
  have reach: "wizard_reach (submitted, 0)"
    unfolding submitted_def by (rule wizard_reach.click [OF wizard_reach.start click.Submit]) simp
  have p: "mutation (pause_over 400 submitted) = Sent" "isApplying (pause_over 400 submitted)"
    using s by (simp_all add: pause_over_def run_effect_def effect_cleanup_def effect_start_def markComplete_def)
  have r: "isApplying (onSuccess 401 (pause_over 400 submitted))"
    using p by (simp add: onSuccess_def run_effect_def effect_cleanup_def effect_start_def markComplete_def)
  have nav: "\<not> navigating (onSuccess 401 (pause_over 400 submitted))"
    by (simp add: onSuccess_def pause_over_def submitted_def handleClusterSubmit_def canSubmit_def isBusy_def fresh_setup_def
        run_effect_def effect_cleanup_def effect_start_def markComplete_def)
  have "own_step (submitted, 0) (pause_over 400 submitted, 400)" using s(2) by (intro own_step.Pause) simp_all
  then have "submission_run 1 (submitted, 0) (pause_over 400 submitted, 400)"
    using submission_run.own [OF submission_run.here] s(3) p(2) by simp
  moreover have "own_step (pause_over 400 submitted, 400) (onSuccess 401 (pause_over 400 submitted), 401)"
    using p(1) by (intro own_step.Success) simp_all
  ultimately have "submission_run 2 (submitted, 0) (onSuccess 401 (pause_over 400 submitted), 401)"
    using submission_run.own r by (metis Suc_1 fst_conv)
  from submission_ends [OF reach s(1) this] nav show ?thesis by simp
qed

text \<open>The page moves on once, with every step ticked off: the cluster is connected.\<close>

lemma close_only_connected:
  "wizard_inv (s, c) \<Longrightarrow> closing s = Some due \<Longrightarrow> completedSteps s = [Validate, Save, Rollout, Connect]"
  by (auto simp: wizard_inv_def done_before_def)

lemma own_connected:
  "own_step (s, c) m' \<Longrightarrow> connected (fst m') = connected s \<or> connected (fst m') = connected s + 1 \<and> closing s \<noteq> None"
  by (erule own_step.cases)
    (auto simp: pause_over_def onSuccess_def onError_def rollout_answer_def health_answer_def round_over_def poll_def close_window_def
      run_effect_def effect_cleanup_def effect_start_def markComplete_def)

end
