(* ===== verification/Model_Form.thy ===== *)
theory Model_Form
  imports Times_Props
begin

text \<open>
  The form of an AI model's configuration: opening it on a stored one, changing the provider, and what saving sends
  (\<^verbatim>\<open>frontend/src/pages/admin-ai-models/useModelForm.ts\<close>, \<^verbatim>\<open>helpers.ts\<close>, \<^verbatim>\<open>frontend/src/constants/modelCatalog.ts\<close>). A configuration's
  options are an object's entries. \<open>stringify\<close> and \<open>parse\<close> stand for \<^verbatim>\<open>JSON.stringify(o, null, 2)\<close> and \<^verbatim>\<open>JSON.parse\<close>, which throws
  where it is \<open>None\<close>.
\<close>

section \<open>The catalog of providers\<close>

record model_def =
  m_name :: string
  m_label :: "string option"
  m_note :: "string option"
  functionCalling :: bool

record provider_def =
  p_id :: string
  p_label :: string
  p_models :: "model_def list"
  needsApiKey :: bool
  needsBaseUrl :: bool
  defaultBaseUrl :: "string option"
  defaultApiKeyEnv :: string

definition model :: "string \<Rightarrow> string option \<Rightarrow> string option \<Rightarrow> bool \<Rightarrow> model_def" where
  "model n l t f = \<lparr>m_name = n, m_label = l, m_note = t, functionCalling = f\<rparr>"

definition PROVIDER_CATALOG :: "provider_def list" where
  "PROVIDER_CATALOG = [
    \<lparr>p_id = ''openai'', p_label = ''OpenAI'', p_models = [model ''gpt-5.5'' None None True, model ''gpt-5.4'' None None True,
        model ''gpt-5.4-mini'' None None True, model ''gpt-5'' None None True,
        model ''gpt-5-mini'' None None True, model ''gpt-4o'' None None True,
        model ''gpt-4o-mini'' None None True, model ''o4-mini'' None None True],
      needsApiKey = True, needsBaseUrl = False, defaultBaseUrl = None, defaultApiKeyEnv = ''OPENAI_API_KEY''\<rparr>,
    \<lparr>p_id = ''anthropic'', p_label = ''Anthropic'', p_models = [model ''claude-sonnet-5-5'' (Some ''Claude Sonnet 5.5'') (Some ''recommended'') True, model ''claude-opus-5-5'' (Some ''Claude Opus 5.5'') None True,
        model ''claude-haiku-5-5'' (Some ''Claude Haiku 5.5'') (Some ''lowest cost'') True, model ''claude-fable-5-1'' (Some ''Claude Fable 5.1'') (Some ''most capable'') True,
        model ''claude-opus-5'' (Some ''Claude Opus 5'') None True, model ''claude-sonnet-5'' (Some ''Claude Sonnet 5'') None True,
        model ''claude-fable-5'' (Some ''Claude Fable 5'') None True, model ''claude-opus-4-8'' (Some ''Claude Opus 4.8'') None True,
        model ''claude-opus-4-7'' (Some ''Claude Opus 4.7'') None True, model ''claude-sonnet-4-6'' (Some ''Claude Sonnet 4.6'') None True,
        model ''claude-haiku-4-5'' (Some ''Claude Haiku 4.5'') None True],
      needsApiKey = True, needsBaseUrl = False, defaultBaseUrl = None, defaultApiKeyEnv = ''ANTHROPIC_API_KEY''\<rparr>,
    \<lparr>p_id = ''claude-code'', p_label = ''Claude subscription'', p_models = [model ''claude-sonnet-5-5'' (Some ''Claude Sonnet 5.5'') (Some ''recommended'') True, model ''claude-opus-5-5'' (Some ''Claude Opus 5.5'') None True,
        model ''claude-haiku-5-5'' (Some ''Claude Haiku 5.5'') (Some ''uses the least'') True],
      needsApiKey = True, needsBaseUrl = False, defaultBaseUrl = None, defaultApiKeyEnv = ''CLAUDE_CODE_OAUTH_TOKEN''\<rparr>,
    \<lparr>p_id = ''gemini'', p_label = ''Google Gemini'', p_models = [model ''gemini-3.1-pro'' (Some ''Gemini 3.1 Pro'') None True, model ''gemini-3.5-flash'' (Some ''Gemini 3.5 Flash'') None True,
        model ''gemini-3-flash'' (Some ''Gemini 3 Flash'') None True, model ''gemini-3.1-flash-lite'' (Some ''Gemini 3.1 Flash-Lite'') None True,
        model ''gemini-2.5-flash'' (Some ''Gemini 2.5 Flash'') (Some ''legacy'') True],
      needsApiKey = True, needsBaseUrl = False, defaultBaseUrl = None, defaultApiKeyEnv = ''GEMINI_API_KEY''\<rparr>,
    \<lparr>p_id = ''azure'', p_label = ''Azure OpenAI'', p_models = [],
      needsApiKey = True, needsBaseUrl = True, defaultBaseUrl = None, defaultApiKeyEnv = ''KUBEAST_AI_KEY_AZURE''\<rparr>,
    \<lparr>p_id = ''ollama'', p_label = ''Ollama (Local)'', p_models = [model ''qwen2.5'' (Some ''qwen2.5'') (Some ''7b, tools'') True, model ''qwen2.5:14b'' (Some ''qwen2.5:14b'') (Some ''14b, tools'') True,
        model ''llama3.3'' None None True, model ''llama3.1'' None None True,
        model ''llama3.2'' None None True, model ''qwen2.5-coder'' None None True,
        model ''mistral-nemo'' None None True, model ''mistral'' None None True,
        model ''gemma2'' None None False],
      needsApiKey = False, needsBaseUrl = True, defaultBaseUrl = Some ''http://localhost:11434'', defaultApiKeyEnv = ''''\<rparr>,
    \<lparr>p_id = ''custom'', p_label = ''Custom / Other'', p_models = [],
      needsApiKey = True, needsBaseUrl = True, defaultBaseUrl = None, defaultApiKeyEnv = ''OPENAI_API_KEY''\<rparr>]"

definition getProvider :: "string \<Rightarrow> provider_def option" where
  "getProvider i = find (\<lambda>p. p_id p = i) PROVIDER_CATALOG"

definition getDefaultModel :: "string \<Rightarrow> string" where
  "getDefaultModel i = (case getProvider i of Some p \<Rightarrow> (case p_models p of m # _ \<Rightarrow> m_name m | [] \<Rightarrow> []) | None \<Rightarrow> [])"

definition getModelLabel :: "string \<Rightarrow> string \<Rightarrow> string" where
  "getModelLabel i n = (case getProvider i of
      Some p \<Rightarrow> (case find (\<lambda>m. m_name m = n) (p_models p) of Some m \<Rightarrow> (case m_label m of Some l \<Rightarrow> l | None \<Rightarrow> n) | None \<Rightarrow> n)
    | None \<Rightarrow> n)"

definition currentProviderDef :: "string \<Rightarrow> provider_def" where
  "currentProviderDef i = (case getProvider i of Some p \<Rightarrow> p | None \<Rightarrow> hd PROVIDER_CATALOG)"

section \<open>The options and the limits\<close>

type_synonym options = "(string \<times> jval) list"

datatype limit_key = Max_Tokens | Tool_Result_Chars

datatype limits_error = Limit limit_key | In_Json

fun key_name :: "limit_key \<Rightarrow> string" where
  "key_name Max_Tokens = ''max_tokens''"
| "key_name Tool_Result_Chars = ''tool_result_chars''"

fun LIMIT_RANGES :: "limit_key \<Rightarrow> nat \<times> nat" where
  "LIMIT_RANGES Max_Tokens = (1, 1000000)"
| "LIMIT_RANGES Tool_Result_Chars = (1000, 200000)"

record split_limits =
  maxTokens :: string
  toolResultChars :: string
  rest :: "options option"

definition limit_text :: "jval \<Rightarrow> string" where
  "limit_text v = (if nullish v then [] else jstr v)"

definition without_limits :: "options \<Rightarrow> options" where
  "without_limits o1 = filter (\<lambda>(k, _). k \<noteq> key_name Max_Tokens \<and> k \<noteq> key_name Tool_Result_Chars) o1"

definition splitLimits :: "options option \<Rightarrow> split_limits" where
  "splitLimits options = (let o1 = (case options of Some o2 \<Rightarrow> o2 | None \<Rightarrow> []); r = without_limits o1 in
     \<lparr>maxTokens = limit_text (jget (JObj o1) ''max_tokens''), toolResultChars = limit_text (jget (JObj o1) ''tool_result_chars''),
      rest = (if r \<noteq> [] then Some r else None)\<rparr>)"

text \<open>A limit's text: empty, a number within the range, or neither.\<close>

datatype limit_value = Unset | Bad | Value nat

definition limitValue :: "limit_key \<Rightarrow> string \<Rightarrow> limit_value" where
  "limitValue key s =
     (let v = filter (\<lambda>c. \<not> (c = CHR '','' \<or> c = CHR ''_'' \<or> is_ws c)) s; (lo, hi) = LIMIT_RANGES key in
      if v = [] then Unset
      else if list_all is_digit v \<and> lo \<le> digits_value v \<and> digits_value v \<le> hi then Value (digits_value v) else Bad)"

definition set_option :: "string \<Rightarrow> jval \<Rightarrow> options \<Rightarrow> options" where
  "set_option k v o1 = (if k \<in> fst ` set o1 then map (\<lambda>(k', v'). (k', if k' = k then v else v')) o1 else o1 @ [(k, v)])"

definition set_limit :: "limit_key \<Rightarrow> string \<Rightarrow> options \<Rightarrow> limits_error + options" where
  "set_limit key s o1 = (case limitValue key s of
      Bad \<Rightarrow> Inl (Limit key) | Unset \<Rightarrow> Inr o1 | Value n \<Rightarrow> Inr (set_option (key_name key) (JNum (int n)) o1))"

definition buildOptions :: "options option \<Rightarrow> string \<Rightarrow> string \<Rightarrow> limits_error + options option" where
  "buildOptions r maxT toolChars =
     (let o1 = (case r of Some o2 \<Rightarrow> o2 | None \<Rightarrow> []) in
      if key_name Max_Tokens \<in> fst ` set o1 \<or> key_name Tool_Result_Chars \<in> fst ` set o1 then Inl In_Json
      else (case set_limit Max_Tokens maxT o1 of Inl e \<Rightarrow> Inl e
        | Inr o2 \<Rightarrow> (case set_limit Tool_Result_Chars toolChars o2 of Inl e \<Rightarrow> Inl e
          | Inr o3 \<Rightarrow> Inr (if o3 \<noteq> [] then Some o3 else None))))"

section \<open>The list of models\<close>

record fetched_model =
  fm_name :: string
  fm_label :: "string option"

record model_option =
  mo_value :: string
  mo_label :: string
  listHint :: "string option"
  hint :: "string option"

definition built_in_option :: "model_def \<Rightarrow> model_option" where
  "built_in_option m = \<lparr>mo_value = m_name m, mo_label = case_option (m_name m) id (m_label m), listHint = m_note m,
     hint = (if functionCalling m then None else Some ''no tools'')\<rparr>"

definition fetched_option :: "provider_def \<Rightarrow> fetched_model \<Rightarrow> model_option" where
  "fetched_option provDef f = (let known = find (\<lambda>m. m_name m = fm_name f) (p_models provDef) in
     \<lparr>mo_value = fm_name f,
      mo_label = (case fm_label f of Some l \<Rightarrow> l | None \<Rightarrow> (case Option.bind known m_label of Some l \<Rightarrow> l | None \<Rightarrow> fm_name f)),
      listHint = (case fm_label f of Some (c # l) \<Rightarrow> None | _ \<Rightarrow> Option.bind known m_note),
      hint = (case known of Some m \<Rightarrow> if functionCalling m then None else Some ''no tools'' | None \<Rightarrow> None)\<rparr>)"

definition modelOptions :: "provider_def \<Rightarrow> fetched_model list \<Rightarrow> model_option list" where
  "modelOptions provDef fetched = (if fetched = [] then map built_in_option (p_models provDef) else map (fetched_option provDef) fetched)"

section \<open>The form\<close>

record model_config =
  c_id :: nat
  c_name :: string
  c_provider :: string
  c_model :: string
  c_base_url :: "string option"
  c_api_key_env :: "string option"
  c_enabled :: bool
  c_is_default :: bool
  c_tier :: string
  c_ca_cert :: "string option"
  c_options :: "options option"

record model_form =
  editingId :: "nat option"
  isCreating :: bool
  formName :: string
  formProvider :: string
  formModel :: string
  formCustomModel :: bool
  formBaseUrl :: string
  formApiKeyEnv :: string
  formEnabled :: bool
  formIsDefault :: bool
  formTier :: string
  formCaCert :: string
  formOptions :: string
  formOptionsError :: "string option"
  formMaxTokens :: string
  formToolResultChars :: string
  formLimitsError :: "limits_error option"

definition resetForm :: model_form where
  "resetForm = \<lparr>editingId = None, isCreating = False, formName = [], formProvider = ''openai'', formModel = [], formCustomModel = False,
     formBaseUrl = [], formApiKeyEnv = defaultApiKeyEnv (hd PROVIDER_CATALOG), formEnabled = True, formIsDefault = False, formTier = ''default'',
     formCaCert = [], formOptions = [], formOptionsError = None, formMaxTokens = [], formToolResultChars = [], formLimitsError = None\<rparr>"

definition openCreateForm :: model_form where
  "openCreateForm = resetForm\<lparr>isCreating := True\<rparr>"

definition filled :: "string option \<Rightarrow> string" where
  "filled v = (case v of Some s \<Rightarrow> s | None \<Rightarrow> [])"

definition openEditForm :: "(options \<Rightarrow> string) \<Rightarrow> model_config \<Rightarrow> model_form" where
  "openEditForm stringify cfg =
     (let provDef = getProvider (c_provider cfg); limits = splitLimits (c_options cfg) in
      \<lparr>editingId = Some (c_id cfg), isCreating = False, formName = c_name cfg, formProvider = c_provider cfg, formModel = c_model cfg,
       formCustomModel = \<not> (case provDef of Some p \<Rightarrow> list_ex (\<lambda>m. m_name m = c_model cfg) (p_models p) | None \<Rightarrow> False),
       formBaseUrl = filled (c_base_url cfg),
       formApiKeyEnv = (if filled (c_api_key_env cfg) \<noteq> [] then filled (c_api_key_env cfg) else (case provDef of Some p \<Rightarrow> defaultApiKeyEnv p | None \<Rightarrow> [])),
       formEnabled = c_enabled cfg, formIsDefault = c_is_default cfg, formTier = (if c_tier cfg = ''economy'' then ''economy'' else ''default''),
       formCaCert = filled (c_ca_cert cfg), formOptions = (case rest limits of Some r \<Rightarrow> stringify r | None \<Rightarrow> []), formOptionsError = None,
       formMaxTokens = maxTokens limits, formToolResultChars = toolResultChars limits, formLimitsError = None\<rparr>)"

definition handleProviderChange :: "string \<Rightarrow> model_form \<Rightarrow> model_form" where
  "handleProviderChange newProvider f = (let f = f\<lparr>formProvider := newProvider\<rparr> in
     case getProvider newProvider of
       Some p \<Rightarrow> f\<lparr>formModel := getDefaultModel newProvider, formCustomModel := False, formBaseUrl := filled (defaultBaseUrl p), formApiKeyEnv := defaultApiKeyEnv p\<rparr>
     | None \<Rightarrow> f)"

text \<open>A new configuration starts on the provider's first listed model when the form's is not one of them.\<close>

definition start_on_listed :: "fetched_model list \<Rightarrow> model_form \<Rightarrow> model_form" where
  "start_on_listed fetched f = (if isCreating f \<and> \<not> formCustomModel f \<and> fetched \<noteq> [] \<and> \<not> list_ex (\<lambda>m. fm_name m = formModel f) fetched
     then f\<lparr>formModel := fm_name (hd fetched)\<rparr> else f)"

section \<open>Saving\<close>

text \<open>A field of the request: left out (as \<^verbatim>\<open>undefined\<close> is), null, or a value.\<close>

datatype 'a sent = Left_Out | Null | Sent 'a

record payload =
  y_name :: string
  y_provider :: string
  y_model :: string
  y_base_url :: "string sent"
  y_enabled :: bool
  y_is_default :: bool
  y_tier :: string
  y_api_key_env :: "string sent"
  y_ca_cert :: "string sent"
  y_options :: "options sent"

datatype save_request = Create payload | Update nat payload

definition parsed_options :: "(string \<Rightarrow> jval option) \<Rightarrow> string \<Rightarrow> string + options option" where
  "parsed_options parse s = (if trim s = [] then Inr None
     else (case parse (trim s) of
        None \<Rightarrow> Inl ''Invalid JSON''
      | Some (JObj r) \<Rightarrow> Inr (Some r)
      | Some _ \<Rightarrow> Inl ''Options must be a JSON object, e.g. {\"temperature\": 0.7}''))"

definition payload_of :: "model_form \<Rightarrow> options option \<Rightarrow> payload" where
  "payload_of f built = (let editing = editingId f \<noteq> None \<and> editingId f \<noteq> Some 0 in
     \<lparr>y_name = formName f, y_provider = formProvider f, y_model = formModel f,
      y_base_url = (if formBaseUrl f \<noteq> [] then Sent (formBaseUrl f) else Left_Out),
      y_enabled = formEnabled f, y_is_default = formIsDefault f, y_tier = formTier f,
      y_api_key_env = (if needsApiKey (currentProviderDef (formProvider f))
        then (if trim (formApiKeyEnv f) \<noteq> [] then Sent (trim (formApiKeyEnv f)) else Null) else Left_Out),
      y_ca_cert = (if trim (formCaCert f) \<noteq> [] then Sent (trim (formCaCert f)) else if editing then Null else Left_Out),
      y_options = (case built of Some b \<Rightarrow> Sent b | None \<Rightarrow> if editing then Null else Left_Out)\<rparr>)"

definition handleSubmit :: "(string \<Rightarrow> jval option) \<Rightarrow> model_form \<Rightarrow> model_form \<times> save_request option" where
  "handleSubmit parse f = (case parsed_options parse (formOptions f) of
      Inl e \<Rightarrow> (f\<lparr>formOptionsError := Some e\<rparr>, None)
    | Inr r \<Rightarrow> (let f = (if r \<noteq> None then f\<lparr>formOptionsError := None\<rparr> else f) in
        case buildOptions r (formMaxTokens f) (formToolResultChars f) of
          Inl e \<Rightarrow> (f\<lparr>formLimitsError := Some e\<rparr>, None)
        | Inr built \<Rightarrow> (f\<lparr>formLimitsError := None\<rparr>,
            Some (case editingId f of Some i \<Rightarrow> if i \<noteq> 0 then Update i (payload_of f built) else Create (payload_of f built)
              | None \<Rightarrow> Create (payload_of f built)))))"

section \<open>The limits\<close>

text \<open>Options that are saved hold only limits within their ranges, and everything else of the JSON field.\<close>

lemma map_of_set_option: "map_of (set_option k v o1) = (map_of o1)(k \<mapsto> v)"
proof (rule ext)
  fix x
  have there: "map_of (map (\<lambda>(k', v'). (k', if k' = k then v else v')) o1) x = (if x = k then map_option (\<lambda>_. v) (map_of o1 k) else map_of o1 x)"
    by (induction o1) (auto split: prod.split)
  have away: "k \<notin> fst ` set o1 \<Longrightarrow> map_of (o1 @ [(k, v)]) x = ((map_of o1)(k \<mapsto> v)) x"
    by (induction o1) auto
  show "map_of (set_option k v o1) x = ((map_of o1)(k \<mapsto> v)) x"
    using there away map_of_eq_None_iff [of o1 k] by (cases "map_of o1 k") (auto simp: set_option_def)
qed

lemma set_option_not_Nil [simp]: "set_option k v o1 \<noteq> []"
  by (auto simp: set_option_def)

lemma set_limit_map:
  "set_limit key s o1 = Inr o2 \<Longrightarrow>
     map_of o2 = (case limitValue key s of Value n \<Rightarrow> (map_of o1)(key_name key \<mapsto> JNum (int n)) | _ \<Rightarrow> map_of o1)"
  by (auto simp: set_limit_def map_of_set_option split: limit_value.splits)

lemma set_limit_ok: "limitValue key s \<noteq> Bad \<Longrightarrow> \<exists>o2. set_limit key s o1 = Inr o2"
  by (auto simp: set_limit_def split: limit_value.splits)

lemma limitValue_range: "limitValue key s = Value n \<Longrightarrow> fst (LIMIT_RANGES key) \<le> n \<and> n \<le> snd (LIMIT_RANGES key)"
  by (auto simp: limitValue_def Let_def split: if_splits prod.splits)

definition entries :: "options option \<Rightarrow> string \<rightharpoonup> jval" where
  "entries x = map_of (case x of Some o1 \<Rightarrow> o1 | None \<Rightarrow> [])"

definition limit_entry :: "limit_key \<Rightarrow> string \<Rightarrow> jval option" where
  "limit_entry key s = (case limitValue key s of Value n \<Rightarrow> Some (JNum (int n)) | _ \<Rightarrow> None)"

lemma buildOptions_entries:
  assumes "buildOptions r a b = Inr built"
  shows "entries built = (\<lambda>k. if k = key_name Max_Tokens then limit_entry Max_Tokens a
     else if k = key_name Tool_Result_Chars then limit_entry Tool_Result_Chars b else entries r k)"
    "built \<noteq> Some []"
proof -
  let ?o1 = "case r of Some o2 \<Rightarrow> o2 | None \<Rightarrow> []"
  have keys: "map_of ?o1 (key_name Max_Tokens) = None" "map_of ?o1 (key_name Tool_Result_Chars) = None"
    using assms by (auto simp: buildOptions_def map_of_eq_None_iff simp del: key_name.simps split: if_splits)
  obtain o2 o3 where o: "set_limit Max_Tokens a ?o1 = Inr o2" "set_limit Tool_Result_Chars b o2 = Inr o3" "built = (if o3 \<noteq> [] then Some o3 else None)"
    using assms by (auto simp: buildOptions_def Let_def simp del: key_name.simps split: if_splits sum.splits)
  have "entries built = map_of o3" using o(3) by (simp add: entries_def)
  then show "entries built = (\<lambda>k. if k = key_name Max_Tokens then limit_entry Max_Tokens a
     else if k = key_name Tool_Result_Chars then limit_entry Tool_Result_Chars b else entries r k)"
    using set_limit_map [OF o(1)] set_limit_map [OF o(2)] keys
    by (auto simp: limit_entry_def entries_def fun_eq_iff split: limit_value.splits)
  show "built \<noteq> Some []" using o(3) by simp
qed

theorem saved_limits_in_range:
  assumes "buildOptions r a b = Inr built" "entries built (key_name key) = Some v"
  shows "\<exists>n. v = JNum (int n) \<and> fst (LIMIT_RANGES key) \<le> n \<and> n \<le> snd (LIMIT_RANGES key)"
proof -
  have "entries built (key_name key) = limit_entry key (if key = Max_Tokens then a else b)"
    using buildOptions_entries(1) [OF assms(1)] by (cases key) simp_all
  then show ?thesis using assms(2) limitValue_range by (auto simp: limit_entry_def simp del: LIMIT_RANGES.simps split: limit_value.splits)
qed

section \<open>A configuration opened and saved is the one it was\<close>

text \<open>The answer to the update: a field left out stays, the others are set (\<^verbatim>\<open>update_model_config\<close> of \<^verbatim>\<open>services/ai-service/app/database.py\<close>).\<close>

definition patched :: "'a option \<Rightarrow> 'a sent \<Rightarrow> 'a option" where
  "patched old x = (case x of Left_Out \<Rightarrow> old | Null \<Rightarrow> None | Sent v \<Rightarrow> Some v)"

definition apply_update :: "model_config \<Rightarrow> payload \<Rightarrow> model_config" where
  "apply_update cfg y = \<lparr>c_id = c_id cfg, c_name = y_name y, c_provider = y_provider y, c_model = y_model y,
     c_base_url = patched (c_base_url cfg) (y_base_url y), c_api_key_env = patched (c_api_key_env cfg) (y_api_key_env y),
     c_enabled = y_enabled y, c_is_default = y_is_default y, c_tier = y_tier y,
     c_ca_cert = patched (c_ca_cert cfg) (y_ca_cert y), c_options = patched (c_options cfg) (y_options y)\<rparr>"

text \<open>Two configurations that differ at most in the order of their options.\<close>

definition same_config :: "model_config \<Rightarrow> model_config \<Rightarrow> bool" where
  "same_config a b \<longleftrightarrow> a\<lparr>c_options := None\<rparr> = b\<lparr>c_options := None\<rparr> \<and> (c_options a = None \<longleftrightarrow> c_options b = None)
     \<and> entries (c_options a) = entries (c_options b)"

definition limit_kept :: "limit_key \<Rightarrow> jval option \<Rightarrow> bool" where
  "limit_kept key v \<longleftrightarrow> (case v of None \<Rightarrow> True
     | Some (JNum n) \<Rightarrow> int (fst (LIMIT_RANGES key)) \<le> n \<and> n \<le> int (snd (LIMIT_RANGES key)) | _ \<Rightarrow> False)"

definition well_kept :: "model_config \<Rightarrow> bool" where
  "well_kept cfg \<longleftrightarrow> c_id cfg \<noteq> 0 \<and> c_tier cfg \<in> {''default'', ''economy''}
     \<and> (needsApiKey (currentProviderDef (c_provider cfg)) \<longrightarrow> filled (c_api_key_env cfg) \<noteq> [] \<and> trim (filled (c_api_key_env cfg)) = filled (c_api_key_env cfg))
     \<and> c_ca_cert cfg \<noteq> Some [] \<and> trim (filled (c_ca_cert cfg)) = filled (c_ca_cert cfg)
     \<and> c_options cfg \<noteq> Some [] \<and> (\<forall>key. limit_kept key (entries (c_options cfg) (key_name key)))"

lemma limit_text_read:
  assumes "limit_kept key v"
  shows "limit_entry key (limit_text (case v of Some x \<Rightarrow> x | None \<Rightarrow> JUndef)) = v" "limitValue key (limit_text (case v of Some x \<Rightarrow> x | None \<Rightarrow> JUndef)) \<noteq> Bad"
proof -
  have digits: "limitValue key (digits_of n) = Value n" if "fst (LIMIT_RANGES key) \<le> n" "n \<le> snd (LIMIT_RANGES key)" for n
  proof -
    have "\<not> (c = CHR '','' \<or> c = CHR ''_'' \<or> is_ws c)" if "is_digit c" for c
      using that by (auto simp: is_digit_def is_ws_def)
    then have "filter (\<lambda>c. \<not> (c = CHR '','' \<or> c = CHR ''_'' \<or> is_ws c)) (digits_of n) = digits_of n"
      using digits_of_is_digit [of n] by (auto simp: list_all_iff intro: filter_True)
    moreover have "digits_of n \<noteq> []" by (subst digits_of.simps) simp
    ultimately show ?thesis
      using that digits_of_is_digit [of n] digits_value_of [of n]
      by (cases "LIMIT_RANGES key") (simp add: limitValue_def Let_def del: LIMIT_RANGES.simps)
  qed
  have empty: "limitValue key [] = Unset" by (simp add: limitValue_def split: prod.split)
  show "limit_entry key (limit_text (case v of Some x \<Rightarrow> x | None \<Rightarrow> JUndef)) = v" "limitValue key (limit_text (case v of Some x \<Rightarrow> x | None \<Rightarrow> JUndef)) \<noteq> Bad"
    using assms digits empty
    by (auto simp: limit_kept_def limit_entry_def limit_text_def show_int_def nat_le_iff le_nat_iff
        simp del: LIMIT_RANGES.simps split: option.splits jval.splits)
qed

lemma without_limits_map:
  "map_of (without_limits o1) k = (if k = key_name Max_Tokens \<or> k = key_name Tool_Result_Chars then None else map_of o1 k)"
  by (induction o1) (auto simp: without_limits_def)

lemma split_build:
  assumes "\<forall>key. limit_kept key (entries x (key_name key))"
  shows "\<exists>built. buildOptions (rest (splitLimits x)) (maxTokens (splitLimits x)) (toolResultChars (splitLimits x)) = Inr built
     \<and> entries built = entries x \<and> built \<noteq> Some []"
proof -
  let ?o = "case x of Some o1 \<Rightarrow> o1 | None \<Rightarrow> []"
  let ?r = "rest (splitLimits x)" let ?a = "maxTokens (splitLimits x)" let ?b = "toolResultChars (splitLimits x)"
  have r: "(case ?r of Some o2 \<Rightarrow> o2 | None \<Rightarrow> []) = without_limits ?o" by (simp add: splitLimits_def Let_def)
  have a: "limitValue Max_Tokens ?a \<noteq> Bad" "limit_entry Max_Tokens ?a = entries x (key_name Max_Tokens)"
    using limit_text_read [OF assms [rule_format, of Max_Tokens]] by (simp_all add: splitLimits_def Let_def entries_def)
  have b: "limitValue Tool_Result_Chars ?b \<noteq> Bad" "limit_entry Tool_Result_Chars ?b = entries x (key_name Tool_Result_Chars)"
    using limit_text_read [OF assms [rule_format, of Tool_Result_Chars]] by (simp_all add: splitLimits_def Let_def entries_def)
  have keys: "key_name key \<notin> fst ` set (without_limits ?o)" for key
    by (cases key) (auto simp: without_limits_def)
  obtain o2 where o2: "set_limit Max_Tokens ?a (without_limits ?o) = Inr o2" using set_limit_ok [OF a(1)] by blast
  obtain o3 where "set_limit Tool_Result_Chars ?b o2 = Inr o3" using set_limit_ok [OF b(1)] by blast
  then have "buildOptions ?r ?a ?b = Inr (if o3 \<noteq> [] then Some o3 else None)"
    using o2 keys by (simp add: buildOptions_def r Let_def del: key_name.simps)
  then obtain built where built: "buildOptions ?r ?a ?b = Inr built" by blast
  have "entries ?r = map_of (without_limits ?o)" using r by (simp add: entries_def)
  then have "entries built = entries x"
    using buildOptions_entries(1) [OF built] a(2) b(2)
    by (auto simp: fun_eq_iff without_limits_map entries_def simp del: key_name.simps)
  then show ?thesis using built buildOptions_entries(2) [OF built] by blast
qed

definition read_back :: "(options \<Rightarrow> string) \<Rightarrow> (string \<Rightarrow> jval option) \<Rightarrow> options option \<Rightarrow> bool" where
  "read_back stringify parse r = (case r of None \<Rightarrow> True
     | Some r \<Rightarrow> trim (stringify r) \<noteq> [] \<and> parse (trim (stringify r)) = Some (JObj r))"

declare trim_Nil [simp]

lemma entries_empty: "entries x = Map.empty \<longleftrightarrow> x = None \<or> x = Some []"
  by (auto simp: entries_def split: option.splits)

lemma same_after_update:
  assumes "well_kept cfg" "entries built = entries (c_options cfg)" "built \<noteq> Some []"
  shows "same_config (apply_update cfg (payload_of (openEditForm stringify cfg) built)) cfg"
proof -
  let ?f = "openEditForm stringify cfg"
  have f: "formName ?f = c_name cfg" "formProvider ?f = c_provider cfg" "formModel ?f = c_model cfg" "formEnabled ?f = c_enabled cfg"
      "formIsDefault ?f = c_is_default cfg" "formTier ?f = c_tier cfg" "formBaseUrl ?f = filled (c_base_url cfg)" "formCaCert ?f = filled (c_ca_cert cfg)"
      "editingId ?f = Some (c_id cfg)" "filled (c_api_key_env cfg) \<noteq> [] \<Longrightarrow> formApiKeyEnv ?f = filled (c_api_key_env cfg)"
    using assms(1) by (auto simp: openEditForm_def Let_def well_kept_def)
  have opts: "built = None \<longleftrightarrow> c_options cfg = None"
    using entries_empty [of built] entries_empty [of "c_options cfg"] assms by (auto simp: well_kept_def)
  have key: "patched (c_api_key_env cfg) (y_api_key_env (payload_of ?f built)) = c_api_key_env cfg"
    using assms(1) f(10) by (auto simp: well_kept_def payload_of_def Let_def f patched_def filled_def split: option.splits)
  have ca: "patched (c_ca_cert cfg) (y_ca_cert (payload_of ?f built)) = c_ca_cert cfg"
    using assms(1) by (auto simp: well_kept_def payload_of_def Let_def f patched_def filled_def split: option.splits)
  have url: "patched (c_base_url cfg) (y_base_url (payload_of ?f built)) = c_base_url cfg"
    by (auto simp: payload_of_def Let_def f patched_def filled_def split: option.splits)
  have sent: "patched (c_options cfg) (y_options (payload_of ?f built)) = built"
    using assms(1) by (auto simp: well_kept_def payload_of_def Let_def f patched_def split: option.splits)
  have "y_name (payload_of ?f built) = c_name cfg \<and> y_provider (payload_of ?f built) = c_provider cfg \<and> y_model (payload_of ?f built) = c_model cfg
     \<and> y_enabled (payload_of ?f built) = c_enabled cfg \<and> y_is_default (payload_of ?f built) = c_is_default cfg \<and> y_tier (payload_of ?f built) = c_tier cfg"
    by (simp add: payload_of_def Let_def f)
  then have "apply_update cfg (payload_of ?f built) = cfg\<lparr>c_options := built\<rparr>"
    by (intro model_config.equality) (simp_all add: apply_update_def key ca url sent)
  then show ?thesis using opts assms(2) by (simp add: same_config_def)
qed


definition kept_model :: model_config where
  "kept_model = \<lparr>c_id = 7, c_name = ''prod'', c_provider = ''openai'', c_model = ''gpt-5'', c_base_url = None, c_api_key_env = Some ''OPENAI_API_KEY'',
     c_enabled = True, c_is_default = False, c_tier = ''economy'', c_ca_cert = None, c_options = Some [(''max_tokens'', JNum 32000), (''top_k'', JNum 5)]\<rparr>"

definition top_k_text :: string where
  "top_k_text = ''{ top_k: 5 }''"

lemma kept_model_well: "well_kept kept_model"
proof -
  have "limit_kept key (entries (c_options kept_model) (key_name key))" for key
    by (cases key) (simp_all add: kept_model_def entries_def limit_kept_def)
  moreover have "trim ''OPENAI_API_KEY'' = ''OPENAI_API_KEY''" by code_simp
  ultimately show ?thesis by (simp add: well_kept_def kept_model_def filled_def)
qed


text \<open>An address taken out of the form stays: the request leaves the field out, as it does where nothing was to change.\<close>

theorem address_not_removed:
  assumes "well_kept cfg" "c_options cfg = None" "getProvider p = Some d" "defaultBaseUrl d = None"
  shows "\<exists>y. snd (handleSubmit parse (handleProviderChange p (openEditForm stringify cfg))) = Some (Update (c_id cfg) y)
    \<and> c_provider (apply_update cfg y) = p \<and> c_base_url (apply_update cfg y) = c_base_url cfg"
proof -
  let ?f = "handleProviderChange p (openEditForm stringify cfg)"
  have f: "editingId ?f = Some (c_id cfg)" "formMaxTokens ?f = []" "formToolResultChars ?f = []" "formOptions ?f = []" "formProvider ?f = p" "formBaseUrl ?f = []"
    using assms(2-4) by (simp_all add: handleProviderChange_def openEditForm_def Let_def splitLimits_def without_limits_def limit_text_def filled_def)
  have none: "buildOptions None [] [] = Inr None" by (simp add: buildOptions_def set_limit_def limitValue_def)
  have id: "c_id cfg \<noteq> 0" using assms(1) by (simp add: well_kept_def)
  have "snd (handleSubmit parse ?f) = Some (Update (c_id cfg) (payload_of ?f None))"
    using id by (simp add: handleSubmit_def parsed_options_def f none Let_def)
  moreover have "c_provider (apply_update cfg (payload_of ?f None)) = p" "c_base_url (apply_update cfg (payload_of ?f None)) = c_base_url cfg"
    by (simp_all add: apply_update_def payload_of_def f Let_def patched_def)
  ultimately show ?thesis by blast
qed

end
