(* ===== verification/Workload_Words.thy ===== *)
theory Workload_Words
  imports Row_Values
begin

text \<open>
  The words of a workload's and a Pod's window: ports, mounts, probes, tolerations, volumes and where a container's environment comes from
  (\<^verbatim>\<open>frontend/src/components/resource-detail/workload-info/workloadInfoFormatters.ts\<close>, \<^verbatim>\<open>pod-info/podInfoFormatters.ts\<close>). The functions
  both files have under one name are told apart by \<open>pod_\<close>, unless they are the same.
\<close>

section \<open>Both windows\<close>

text \<open>\<^verbatim>\<open>xs.join(sep)\<close> of an array's elements, and the truthy text of a value.\<close>

definition jjoin :: "string \<Rightarrow> jval list \<Rightarrow> string" where
  "jjoin sep xs = join sep (map (\<lambda>x. if nullish x then [] else jstr x) xs)"

definition formatContainerCommand :: "jval \<Rightarrow> jval \<Rightarrow> string" where
  "formatContainerCommand command args = (let merged = filter truthy (elems command @ elems args) in
     if merged \<noteq> [] then jjoin '' '' merged else ''-'')"

definition toEntryPairs :: "jval \<Rightarrow> (string \<times> string) list" where
  "toEntryPairs v = (if \<not> truthy v \<or> \<not> typeof_object v then [] else map (\<lambda>(k, x). (k, jstr x)) (spread v))"

definition port_text :: "jval \<Rightarrow> jval \<Rightarrow> jval \<Rightarrow> string" where
  "port_text first second p = jstr (jnns [first, second, JStr ''-'']) @ '' / '' @ jstr (jor (jget p ''protocol'') (JStr ''TCP''))"

definition mount_text :: "jval \<Rightarrow> jval \<Rightarrow> jval \<Rightarrow> string" where
  "mount_text first second m = jstr (jor (jget m ''name'') (JStr ''-'')) @ '' -> '' @ jstr (jnns [first, second, JStr ''-''])"

definition timing :: "jval \<Rightarrow> string list" where
  "timing probe = concat (map (\<lambda>(k, word, unit). if nullish (jget probe k) then [] else [word @ ''='' @ jstr (jget probe k) @ unit])
     [(''initialDelaySeconds'', ''delay'', ''s''), (''periodSeconds'', ''period'', ''s''), (''timeoutSeconds'', ''timeout'', ''s''),
      (''successThreshold'', ''success'', []), (''failureThreshold'', ''failure'', [])])"

definition probe_text :: "string list \<Rightarrow> jval \<Rightarrow> string" where
  "probe_text parts probe = join '' | '' (parts @ (if timing probe \<noteq> [] then [join '' '' (timing probe)] else []))"

section \<open>A workload's window\<close>

definition boolText :: "jval \<Rightarrow> string" where
  "boolText v = (if truthy v then ''Yes'' else ''No'')"

definition toPorts :: "jval \<Rightarrow> string list" where
  "toPorts v = filter (\<lambda>s. trim s \<noteq> ''- / TCP'') (map (\<lambda>p. port_text (jget p ''container_port'') (jget p ''containerPort'') p) (elems v))"

definition toMounts :: "jval \<Rightarrow> string list" where
  "toMounts v = filter (\<lambda>s. trim s \<noteq> ''- -> -'') (map (\<lambda>m. mount_text (jget m ''mount_path'') (jget m ''mountPath'') m) (elems v))"

definition formatToleration :: "jval \<Rightarrow> string" where
  "formatToleration tol = (let seconds = jnn (jget tol ''toleration_seconds'') (jget tol ''tolerationSeconds'') in
     trim (jstr (jor (jget tol ''key'') (JStr ''*'')) @ '' '' @ jstr (jor (jget tol ''operator'') (JStr ''Equal'')) @ '' ''
       @ jstr (jor (jget tol ''value'') (JStr [])) @ '' '' @ jstr (jor (jget tol ''effect'') (JStr []))
       @ (if nullish seconds then [] else '' ('' @ jstr seconds @ ''s)'')))"

definition probe_parts :: "jval \<Rightarrow> string list" where
  "probe_parts probe =
     (let h = jget probe ''httpGet''; t = jget probe ''tcpSocket''; e = jget probe ''exec''; g = jget probe ''grpc'' in
      if truthy h then [''httpGet '' @ jstr (jnn (jget h ''scheme'') (JStr ''HTTP'')) @ ''://:'' @ jstr (jnn (jget h ''port'') (JStr ''?'')) @ jstr (jnn (jget h ''path'') (JStr ''/''))]
      else if truthy t then [''tcpSocket :'' @ jstr (jnn (jget t ''port'') (JStr ''?''))]
      else if truthy e then [''exec ['' @ jjoin '' '' (elems (jget e ''command'')) @ '']'']
      else if truthy g then [''grpc :'' @ jstr (jnn (jget g ''port'') (JStr ''?'')) @ (if truthy (jget g ''service'') then '' svc='' @ jstr (jget g ''service'') else [])]
      else [])"

definition formatProbe :: "jval \<Rightarrow> string" where
  "formatProbe probe = (if \<not> truthy probe \<or> \<not> typeof_object probe then [] else probe_text (probe_parts probe) probe)"

definition formatCapabilities :: "jval \<Rightarrow> string" where
  "formatCapabilities caps = (if \<not> truthy caps \<or> \<not> typeof_object caps then []
     else join '' | '' (concat (map (\<lambda>k. if elems (jget caps k) \<noteq> [] then [k @ '': '' @ jjoin '', '' (elems (jget caps k))] else []) [''add'', ''drop''])))"

definition formatLabelSelector :: "jval \<Rightarrow> string" where
  "formatLabelSelector sel = (if \<not> truthy sel \<or> \<not> typeof_object sel then ''-''
     else (let labels = jget sel ''matchLabels'';
               parts = (if truthy labels \<and> typeof_object labels then map (\<lambda>(k, v). k @ ''='' @ jstr v) (spread labels) else [])
                 @ map (\<lambda>e. jstr (jor (jget e ''key'') (JStr ''?'')) @ '' '' @ jstr (jor (jget e ''operator'') (JStr ''?'')) @ '' ['' @ jjoin '', '' (elems (jget e ''values'')) @ '']'')
                     (elems (jget sel ''matchExpressions'')) in
           if parts \<noteq> [] then join '', '' parts else ''-''))"

section \<open>A Pod's window\<close>

definition pod_toPorts :: "jval \<Rightarrow> string list" where
  "pod_toPorts v = filter (\<lambda>s. trim s \<noteq> ''- / TCP'') (map (\<lambda>p. port_text (jget p ''containerPort'') (jget p ''container_port'') p) (elems v))"

definition pod_toMounts :: "jval \<Rightarrow> string list" where
  "pod_toMounts v = filter (\<lambda>s. trim s \<noteq> ''- -> -'') (map (\<lambda>m. mount_text (jget m ''mountPath'') (jget m ''mount_path'') m) (elems v))"

definition pod_probe_parts :: "jval \<Rightarrow> string list" where
  "pod_probe_parts probe =
     (let h = jget probe ''httpGet''; t = jget probe ''tcpSocket''; e = jget probe ''exec''; g = jget probe ''grpc'' in
      if truthy h then [''httpGet '' @ jstr (jor (jget h ''path'') (JStr ''/'')) @ '':'' @ jstr (jnn (jget h ''port'') (JStr ''-''))]
      else if truthy t then [''tcpSocket :'' @ jstr (jnn (jget t ''port'') (JStr ''-''))]
      else if truthy e then [''exec ['' @ (if is_array (jget e ''command'') then jjoin '' '' (elems (jget e ''command'')) else ''-'') @ '']'']
      else if truthy g then [''grpc :'' @ jstr (jnn (jget g ''port'') (JStr ''-''))]
      else [])"

definition pod_formatProbe :: "jval \<Rightarrow> string option" where
  "pod_formatProbe probe = (if \<not> truthy probe then None else Some (probe_text (pod_probe_parts probe) probe))"

text \<open>A volume's type and its detail: of the describe answer, else of the Pod's spec. A volume is an object.\<close>

definition getVolumeDetail :: "jval \<Rightarrow> string \<times> string" where
  "getVolumeDetail v =
     (let or_dash = (\<lambda>x. jstr (jor x (JStr ''-''))); named = jnns [jget v ''config_map'', jget v ''secret'', jget v ''pvc'', jget v ''path''];
          pvc = jget v ''persistentVolumeClaim''; empty = jget v ''emptyDir''; host = jget v ''hostPath''; proj = jget v ''projected'' in
      if is_string (jget v ''type'') then (jstr (jget v ''type''), if is_string named \<and> truthy named then jstr named else ''-'')
      else if truthy (jget v ''configMap'') then (''ConfigMap'', or_dash (jget (jget v ''configMap'') ''name''))
      else if truthy (jget v ''secret'') then (''Secret'', or_dash (jget (jget v ''secret'') ''secretName''))
      else if truthy pvc then (''PVC'', or_dash (jget pvc ''claimName'') @ (if truthy (jget pvc ''readOnly'') then '' (ro)'' else []))
      else if truthy empty then (''EmptyDir'',
        let parts = (if truthy (jget empty ''medium'') then [''medium='' @ jstr (jget empty ''medium'')] else [])
          @ (if truthy (jget empty ''sizeLimit'') then [''limit='' @ jstr (jget empty ''sizeLimit'')] else []) in
        if parts \<noteq> [] then join '', '' parts else ''(default)'')
      else if truthy host then (''HostPath'', or_dash (jget host ''path'') @ (if truthy (jget host ''type'') then '' ('' @ jstr (jget host ''type'') @ '')'' else []))
      else if truthy proj then (''Projected'', if is_array (jget proj ''sources'') then join ''; '' (map (\<lambda>s. join '','' (map fst (spread s))) (elems (jget proj ''sources''))) else ''-'')
      else if truthy (jget v ''downwardAPI'') then (''DownwardAPI'', ''Downward API'')
      else (case find (\<lambda>k. k \<noteq> ''name'') (map fst (spread v)) of Some k \<Rightarrow> if k \<noteq> [] then k else ''unknown'' | None \<Rightarrow> ''unknown'', ''-''))"

definition formatContainerSecurityContext :: "jval \<Rightarrow> (string \<times> string) list" where
  "formatContainerSecurityContext sc =
     (let row = (\<lambda>word v. if nullish v then [] else [(word, jstr v)]); get = (\<lambda>camel snake. jnn (jget sc camel) (jget sc snake)); caps = jget sc ''capabilities'' in
      if \<not> truthy sc then []
      else row ''Privileged'' (jget sc ''privileged'') @ row ''Run As User'' (get ''runAsUser'' ''run_as_user'')
        @ row ''Run As Group'' (get ''runAsGroup'' ''run_as_group'') @ row ''Run As Non-Root'' (get ''runAsNonRoot'' ''run_as_non_root'')
        @ row ''Read-Only Root FS'' (get ''readOnlyRootFilesystem'' ''read_only_root_filesystem'')
        @ row ''Allow Privilege Escalation'' (get ''allowPrivilegeEscalation'' ''allow_privilege_escalation'')
        @ (if elems (jget caps ''add'') \<noteq> [] then [(''Capabilities (add)'', jjoin '', '' (elems (jget caps ''add'')))] else [])
        @ (if elems (jget caps ''drop'') \<noteq> [] then [(''Capabilities (drop)'', jjoin '', '' (elems (jget caps ''drop'')))] else []))"

datatype env_kind = Env_ConfigMap | Env_Secret

record env_from =
  e_kind :: env_kind
  e_name :: jval
  e_prefix :: jval
  e_optional :: jval

definition backend_env :: "jval \<Rightarrow> env_from list" where
  "backend_env ef = (if truthy (jget ef ''config_map'') then [\<lparr>e_kind = Env_ConfigMap, e_name = jget ef ''config_map'', e_prefix = jget ef ''prefix'', e_optional = jget ef ''optional''\<rparr>]
     else if truthy (jget ef ''secret'') then [\<lparr>e_kind = Env_Secret, e_name = jget ef ''secret'', e_prefix = jget ef ''prefix'', e_optional = jget ef ''optional''\<rparr>] else [])"

definition spec_env :: "jval \<Rightarrow> env_from list" where
  "spec_env ef = (let c = jget ef ''configMapRef''; s = jget ef ''secretRef'' in
     if truthy (jget c ''name'') then [\<lparr>e_kind = Env_ConfigMap, e_name = jget c ''name'', e_prefix = jget ef ''prefix'', e_optional = jget c ''optional''\<rparr>]
     else if truthy (jget s ''name'') then [\<lparr>e_kind = Env_Secret, e_name = jget s ''name'', e_prefix = jget ef ''prefix'', e_optional = jget s ''optional''\<rparr>] else [])"

definition normalizeEnvFrom :: "jval \<Rightarrow> env_from list" where
  "normalizeEnvFrom c = (if is_array (jget c ''env_from'') then concat (map backend_env (elems (jget c ''env_from'')))
     else concat (map spec_env (elems (jget c ''envFrom''))))"

section \<open>Both spellings say the same\<close>

text \<open>A value written in one spelling only reads the same in both windows.\<close>

lemma port_spelling:
  assumes "jget p ''containerPort'' = JUndef \<or> jget p ''container_port'' = JUndef"
  shows "port_text (jget p ''containerPort'') (jget p ''container_port'') p = port_text (jget p ''container_port'') (jget p ''containerPort'') p"
  using assms by (auto simp: port_text_def)

theorem ports_agree:
  assumes "\<forall>p\<in>set (elems v). jget p ''containerPort'' = JUndef \<or> jget p ''container_port'' = JUndef"
  shows "pod_toPorts v = toPorts v"
proof -
  have "map (\<lambda>p. port_text (jget p ''containerPort'') (jget p ''container_port'') p) (elems v)
      = map (\<lambda>p. port_text (jget p ''container_port'') (jget p ''containerPort'') p) (elems v)"
    using assms port_spelling by (intro map_cong) auto
  then show ?thesis by (simp only: pod_toPorts_def toPorts_def)
qed

text \<open>What the server makes of a spec's entry.\<close>

definition served_env :: "jval \<Rightarrow> jval" where
  "served_env ef = (let c = jget ef ''configMapRef''; s = jget ef ''secretRef'' in
     if truthy (jget c ''name'') then JObj [(''config_map'', jget c ''name''), (''prefix'', jget ef ''prefix''), (''optional'', jget c ''optional'')]
     else if truthy (jget s ''name'') then JObj [(''secret'', jget s ''name''), (''prefix'', jget ef ''prefix''), (''optional'', jget s ''optional'')]
     else JObj [])"

theorem env_shapes_agree:
  "normalizeEnvFrom (JObj [(''env_from'', JArr (map served_env efs))]) = normalizeEnvFrom (JObj [(''envFrom'', JArr efs)])"
proof -
  have "backend_env (served_env ef) = spec_env ef" for ef
    by (simp add: backend_env_def served_env_def spec_env_def Let_def)
  then show ?thesis by (simp add: normalizeEnvFrom_def comp_def)
qed

text \<open>No volume is without a type, and only texts of the spec's own keys stand there.\<close>

lemma volume_has_type: "fst (getVolumeDetail v) \<noteq> [] \<or> jget v ''type'' = JStr []"
  by (cases "jget v ''type''") (auto simp: getVolumeDetail_def Let_def split: option.split)

end
