(* ===== verification/Workload_Layer.thy ===== *)
theory Workload_Layer
  imports Workload_Words AI_Summaries Resource_Links Times Comparing
begin

text \<open>
  What the floating chat is told of a workload's window, and the rows the window and the chat share
  (\<^verbatim>\<open>frontend/src/components/resource-detail/workload-info/workloadLayer.ts\<close>, \<^verbatim>\<open>workloadPodsLayer.ts\<close>, with the rows of a Job and a CronJob of
  \<^verbatim>\<open>frontend/src/pages/workloads/jobs/jobHelpers.ts\<close> and \<^verbatim>\<open>cronjobs/cronJobHelpers.ts\<close>). The summary's line is kept as its parts. An entry
  whose value is undefined is left out of the JSON. \<open>layer_env\<close> holds the browser: the milliseconds of a date's text, the moment now, the
  next run's text (\<open>nextCronRun\<close> of \<open>Cron_Run\<close>) and \<^verbatim>\<open>localeCompare\<close>.
\<close>

section \<open>The pods of the window\<close>

type_synonym entries = "(string \<times> jval) list"

record layer_env =
  time_of :: "string \<Rightarrow> int option"
  now :: int
  next_run :: "entries \<Rightarrow> string option"
  lc :: "string \<Rightarrow> string \<Rightarrow> int"

definition text_or_empty :: "jval \<Rightarrow> string" where
  "text_or_empty v = (case v of JStr s \<Rightarrow> s | _ \<Rightarrow> [])"

definition words_of :: "jval \<Rightarrow> pod_words" where
  "words_of p = \<lparr>p_status = text_or_empty (jget p ''status''), p_phase = text_or_empty (jget p ''phase''), restart_count = 0\<rparr>"

definition not_running :: "jval \<Rightarrow> bool" where
  "not_running p = podNotRunning (words_of p)"

definition ownedDisplayPods :: "jval \<Rightarrow> jval list \<Rightarrow> bool \<Rightarrow> jval list" where
  "ownedDisplayPods describe pods podsEnabled = (if podsEnabled \<and> pods \<noteq> [] then pods else elems (jget describe ''owned_pods''))"

record pods_layer =
  pl_known :: bool
  pl_total :: nat
  pl_notRunning :: nat
  pl_items :: "jval list"

definition link_value :: "string \<Rightarrow> string option \<Rightarrow> string \<Rightarrow> jval" where
  "link_value kind namespace name = (case buildResourceLink kind namespace name of Some l \<Rightarrow> JStr l | None \<Rightarrow> JNull)"

definition pod_item :: "string option \<Rightarrow> jval \<Rightarrow> jval" where
  "pod_item namespace p = JObj (map (\<lambda>k. (k, jget p k)) [''name'', ''status'', ''phase'', ''restart_count'', ''ready'', ''node_name'']
     @ [(''_link'', case (namespace, jget p ''name'') of (Some (c # ns), JStr (d # name)) \<Rightarrow> link_value ''Pod'' (Some (c # ns)) (d # name) | _ \<Rightarrow> JUndef)])"

definition workloadPodsLayer :: "jval \<Rightarrow> jval list \<Rightarrow> bool \<Rightarrow> bool \<Rightarrow> string option \<Rightarrow> pods_layer" where
  "workloadPodsLayer describe owned podsEnabled podsLoaded namespace =
     (let pods = ownedDisplayPods describe owned podsEnabled in
      \<lparr>pl_known = podsLoaded \<or> is_array (jget describe ''owned_pods''), pl_total = length pods, pl_notRunning = length (filter not_running pods),
       pl_items = map (pod_item namespace) (take 20 (filter not_running pods @ filter (\<lambda>p. \<not> not_running p) pods))\<rparr>)"

section \<open>The rows of a Job and of a CronJob\<close>

definition row :: "jval \<Rightarrow> string \<Rightarrow> jval" where
  "row v unit = (if nullish v then JUndef else JStr (jstr v @ unit))"

definition filled_row :: "jval \<Rightarrow> jval" where
  "filled_row v = (if truthy v then JStr (jstr v) else JUndef)"

definition yes_no :: "jval \<Rightarrow> jval" where
  "yes_no v = (if nullish v then JUndef else JStr (boolText v))"

definition formatDuration :: "int option \<Rightarrow> string" where
  "formatDuration d = (case d of None \<Rightarrow> ''-'' | Some s \<Rightarrow> if s < 0 then ''-'' else humanDuration (real_of_int s))"

definition jobDurationSeconds :: "layer_env \<Rightarrow> jval \<Rightarrow> jval \<Rightarrow> int option" where
  "jobDurationSeconds env start_time completion_time =
     (if \<not> truthy start_time then None
      else (case (time_of env (jstr start_time), if truthy completion_time then time_of env (jstr completion_time) else Some (now env)) of
          (Some start, Some end1) \<Rightarrow> if end1 < start then None else Some ((end1 - start) div 1000)
        | _ \<Rightarrow> None))"

definition hasFailedPods :: "jval \<Rightarrow> bool" where
  "hasFailedPods failed = (case failed of JNum n \<Rightarrow> 0 < n | _ \<Rightarrow> False)"

definition jobNeedsALook :: "string \<Rightarrow> jval \<Rightarrow> bool" where
  "jobNeedsALook status failed \<longleftrightarrow> status = ''Failed'' \<or> status = ''FailureTarget'' \<or> (status = ''Running'' \<and> hasFailedPods failed)"

definition jobDrawerCompletions :: "jval \<Rightarrow> jval \<Rightarrow> string" where
  "jobDrawerCompletions describe spec =
     (if truthy describe then (if nullish (jget describe ''completions'') then ''<unset>'' else jstr (jget describe ''completions''))
      else if nullish (jget spec ''completions'') then ''-'' else jstr (jget spec ''completions''))"

definition jobDrawerInfo :: "layer_env \<Rightarrow> jval \<Rightarrow> jval \<Rightarrow> jval \<Rightarrow> entries" where
  "jobDrawerInfo env describe spec status =
     (let d = jget describe; start = filled_row (d ''start_time''); completion = filled_row (d ''completion_time'') in
      [(''completions'', JStr (jobDrawerCompletions describe spec)),
       (''parallelism'', JStr (jstr (jnns [d ''parallelism'', jget spec ''parallelism'', JStr ''-'']))),
       (''active'', JStr (jstr (jnns [d ''active'', jget status ''active'', JNum 0]))),
       (''succeeded'', JStr (jstr (jnns [d ''succeeded'', jget status ''succeeded'', JNum 0]))),
       (''failed'', JStr (jstr (jnns [d ''failed'', jget status ''failed'', JNum 0]))),
       (''status'', filled_row (d ''status'')), (''start_time'', start), (''completion_time'', completion),
       (''duration'', if truthy start then JStr (formatDuration (jobDurationSeconds env start completion)) else JUndef),
       (''backoff_limit'', row (d ''backoff_limit'') []), (''active_deadline'', row (d ''active_deadline_seconds'') ''s''),
       (''ttl_after_finished'', row (d ''ttl_seconds_after_finished'') ''s''), (''completion_mode'', filled_row (d ''completion_mode'')),
       (''suspend'', yes_no (d ''suspend'')), (''manual_selector'', yes_no (d ''manual_selector''))])"

definition field :: "entries \<Rightarrow> string \<Rightarrow> jval" where
  "field info k = jget (JObj info) k"

definition jobLayerHeadline :: "entries \<Rightarrow> string" where
  "jobLayerHeadline info =
     (let counts = ''Completions '' @ jstr (field info ''completions'') @ '', Parallelism '' @ jstr (field info ''parallelism'') @ '', Active ''
        @ jstr (field info ''active'') @ '', Succeeded '' @ jstr (field info ''succeeded'') @ '', Failed '' @ jstr (field info ''failed'') in
      if truthy (field info ''status'') then ''Status '' @ jstr (field info ''status'') @ '', '' @ counts else counts)"

definition jobLayerNeedsALook :: "entries \<Rightarrow> bool" where
  "jobLayerNeedsALook info = jobNeedsALook (jstr (jnn (field info ''status'') (JStr []))) (to_number (field info ''failed''))"

definition cronJobNextRunFields :: "jval \<Rightarrow> jval \<Rightarrow> jval \<Rightarrow> entries" where
  "cronJobNextRunFields describe spec status = (let d = jget describe in
     [(''schedule'', JStr (jstr (jnns [d ''schedule'', jget spec ''schedule'', JStr []]))), (''suspend'', bool_of (jnn (d ''suspend'') (jget spec ''suspend''))),
      (''time_zone'', if truthy (d ''time_zone'') then JStr (jstr (d ''time_zone'')) else JNull),
      (''last_schedule_time'', jnns [d ''last_schedule_time'', jget status ''lastScheduleTime'', JNull]),
      (''created_at'', if truthy (d ''created_at'') then JStr (jstr (d ''created_at'')) else JNull)])"

definition nextRunOf :: "layer_env \<Rightarrow> entries \<Rightarrow> string option" where
  "nextRunOf env cronjob = (if truthy (field cronjob ''suspend'') then None else next_run env cronjob)"

definition cronJobDrawerInfo :: "layer_env \<Rightarrow> jval \<Rightarrow> jval \<Rightarrow> jval \<Rightarrow> entries" where
  "cronJobDrawerInfo env describe spec status = (let d = jget describe in
     [(''schedule'', JStr (jstr (jnns [d ''schedule'', jget spec ''schedule'', JStr ''-'']))),
      (''suspend'', JStr (boolText (jnn (d ''suspend'') (jget spec ''suspend'')))),
      (''concurrency_policy'', JStr (jstr (jnns [d ''concurrency_policy'', jget spec ''concurrencyPolicy'', JStr ''-'']))),
      (''starting_deadline'', row (jnn (d ''starting_deadline_seconds'') (jget spec ''startingDeadlineSeconds'')) ''s''),
      (''successful_jobs_history'', row (d ''successful_jobs_history_limit'') []), (''failed_jobs_history'', row (d ''failed_jobs_history_limit'') []),
      (''time_zone'', filled_row (d ''time_zone'')),
      (''next_run'', case nextRunOf env (cronJobNextRunFields describe spec status) of Some t \<Rightarrow> JStr t | None \<Rightarrow> JUndef),
      (''active_jobs'', JStr (jstr (jnn (d ''active'') (JNum (int (length (elems (jget status ''active''))))))) ),
      (''last_schedule'', row (jnn (d ''last_schedule_time'') (jget status ''lastScheduleTime'')) []),
      (''last_successful'', row (jnn (d ''last_successful_time'') (jget status ''lastSuccessfulTime'')) [])])"

definition cronJobLayerFields :: "entries \<Rightarrow> string \<Rightarrow> entries" where
  "cronJobLayerFields info controllerZone = AList.update ''time_zone'' (jnn (field info ''time_zone'') (JStr controllerZone)) info"

definition cronJobLayerHeadline :: "entries \<Rightarrow> string" where
  "cronJobLayerHeadline info = join '', ''
     ([''Schedule '' @ jstr (field info ''schedule''), ''Suspend '' @ jstr (field info ''suspend''), ''Concurrency Policy '' @ jstr (field info ''concurrency_policy''),
       ''Active Jobs '' @ jstr (field info ''active_jobs'')]
      @ (if truthy (field info ''next_run'') then [''Next Run '' @ jstr (field info ''next_run'')] else [])
      @ (if truthy (field info ''last_schedule'') then [''Last Schedule '' @ jstr (field info ''last_schedule'')] else []))"

definition cronJobLayerNeedsALook :: "entries \<Rightarrow> bool" where
  "cronJobLayerNeedsALook info =
     (if \<not> truthy (field info ''last_schedule'') \<or> js_less (JNum 0) (to_number (field info ''active_jobs'')) then False
      else \<not> truthy (field info ''last_successful'') \<or> js_less (field info ''last_successful'') (field info ''last_schedule''))"

definition ownedDisplayJobs :: "jval list option \<Rightarrow> bool \<Rightarrow> jval \<Rightarrow> jval list" where
  "ownedDisplayJobs jobs jobsEnabled ownedJobs = (case jobs of Some (j # js) \<Rightarrow> if jobsEnabled then j # js else elems ownedJobs | _ \<Rightarrow> elems ownedJobs)"

section \<open>Replicas, strategy and settings\<close>

definition counts_of :: "jval \<Rightarrow> jval \<Rightarrow> entries" where
  "counts_of v updated = [(''desired'', jnn (jget v ''desired'') (JNum 0)), (''current'', jnn (jget v ''current'') (JNum 0)), (''ready'', jnn (jget v ''ready'') (JNum 0)),
     (''updated'', jnn (jget v ''updated'') updated), (''available'', jnn (jget v ''available'') (JNum 0))]"

definition is_counts :: "jval \<Rightarrow> bool" where
  "is_counts v \<longleftrightarrow> truthy v \<and> typeof_object v"

definition workloadReplicaView :: "string \<Rightarrow> jval \<Rightarrow> jval \<Rightarrow> jval \<Rightarrow> entries" where
  "workloadReplicaView kind describe spec status =
     (let ds = (kind = ''DaemonSet''); st = (\<lambda>k d. jnn (jget status k) d) in
      if is_counts (jget describe ''replicas_status'') then counts_of (jget describe ''replicas_status'') (JStr ''-'')
      else if ds \<and> is_counts (jget describe ''daemonset_status'') then counts_of (jget describe ''daemonset_status'') (JNum 0)
      else if is_counts (jget describe ''replicas'') then counts_of (jget describe ''replicas'') (JNum 0)
      else if ds then [(''desired'', st ''desiredNumberScheduled'' (JNum 0)), (''current'', st ''currentNumberScheduled'' (JNum 0)), (''ready'', st ''numberReady'' (JNum 0)),
        (''updated'', st ''updatedNumberScheduled'' (JNum 0)), (''available'', st ''numberAvailable'' (JNum 0))]
      else [(''desired'', jnn (jget spec ''replicas'') (JStr ''-'')), (''current'', st ''replicas'' (JStr ''-'')), (''ready'', st ''readyReplicas'' (JNum 0)),
        (''updated'', st ''updatedReplicas'' (JNum 0)), (''available'', st ''availableReplicas'' (JNum 0))])"

definition workloadDaemonSetStatus :: "jval \<Rightarrow> jval \<Rightarrow> entries \<Rightarrow> jval \<times> jval" where
  "workloadDaemonSetStatus describe status view =
     (let d = jget describe ''daemonset_status'' in
      if is_counts d then (jnn (jget d ''misscheduled'') (JNum 0), jnn (jget d ''unavailable'') (JNum 0))
      else (jnn (jget status ''numberMisscheduled'') (JNum 0),
            jnn (jget status ''numberUnavailable'') (js_max (js_sub (field view ''desired'') (field view ''ready'')) (JNum 0))))"

definition workloadStrategy :: "string \<Rightarrow> jval \<Rightarrow> jval \<Rightarrow> jval \<times> jval" where
  "workloadStrategy kind describe spec =
     (let us = jget describe ''update_strategy''; st = jget describe ''strategy''; sus = jget spec ''updateStrategy''; sst = jget spec ''strategy'' in
      if kind = ''DaemonSet'' \<or> kind = ''StatefulSet'' then
        (jnns [jget us ''type'', jget sus ''type'', JStr ''-''], jnn (jget us ''rolling_update'') (jget sus ''rollingUpdate''))
      else if kind = ''Deployment'' then
        (jnns [jget st ''type'', jget sst ''type'', JStr ''-''], jnn (jget st ''rolling_update'') (jget sst ''rollingUpdate''))
      else (jnns [jget sst ''type'', jget sus ''type'', JStr ''-''], jnn (jget sst ''rollingUpdate'') (jget sus ''rollingUpdate'')))"

definition owner_reference :: "jval list \<Rightarrow> jval" where
  "owner_reference refs = jnn (jfind (\<lambda>r. truthy (jget r ''controller'')) refs) (jhead refs)"

definition replicaSetOwner :: "jval \<Rightarrow> jval" where
  "replicaSetOwner rs = (let ref = owner_reference (elems (jnn (jget rs ''owner_references'') (JArr []))) in
     if \<not> truthy (jget ref ''name'') then jor (jget rs ''owner_deployment'') (JStr ''-'')
     else if jget ref ''kind'' = JStr ''Deployment'' then jget ref ''name'' else JStr (jstr (jget ref ''kind'') @ ''/'' @ jstr (jget ref ''name'')))"

definition replicaSetOwnerRow :: "jval \<Rightarrow> jval" where
  "replicaSetOwnerRow describe = (if \<not> truthy describe \<or> elems (jnn (jget describe ''owner_references'') (JArr [])) = [] then JNull
     else if replicaSetOwner describe = JStr ''-'' then JNull else replicaSetOwner describe)"

definition settings_rows :: "string \<Rightarrow> jval \<Rightarrow> jval \<Rightarrow> jval \<times> jval \<Rightarrow> entries" where
  "settings_rows kind describe spec ds =
     (let d = jget describe; minReady = row (d ''min_ready_seconds'') []; limit = row (d ''revision_history_limit'') []; collisions = row (d ''collision_count'') [] in
      if kind = ''Deployment'' then
        [(''revision'', filled_row (d ''revision'')), (''paused'', yes_no (d ''paused'')), (''min_ready_seconds'', minReady),
         (''progress_deadline'', row (d ''progress_deadline_seconds'') ''s''), (''revision_history_limit'', limit)]
      else if kind = ''StatefulSet'' then
        [(''service_name'', filled_row (jor (d ''service_name'') (jget spec ''serviceName''))),
         (''pod_management_policy'', filled_row (jor (d ''pod_management_policy'') (jget spec ''podManagementPolicy''))),
         (''min_ready_seconds'', minReady), (''revision_history_limit'', limit), (''current_revision'', filled_row (d ''current_revision'')),
         (''update_revision'', filled_row (d ''update_revision'')), (''collision_count'', collisions)]
      else if kind = ''DaemonSet'' then
        [(''min_ready_seconds'', minReady), (''revision_history_limit'', limit), (''collision_count'', collisions),
         (''misscheduled_pods'', JStr (jstr (fst ds))), (''unavailable_pods'', JStr (jstr (snd ds)))]
      else if kind = ''ReplicaSet'' then
        [(''owner'', jnn (replicaSetOwnerRow describe) JUndef), (''revision'', filled_row (d ''revision'')), (''min_ready_seconds'', minReady),
         (''fully_labeled_replicas'', row (d ''fully_labeled_replicas'') [])]
      else [])"

definition workloadSettingsInfo :: "string \<Rightarrow> jval \<Rightarrow> jval \<Rightarrow> jval \<times> jval \<Rightarrow> entries" where
  "workloadSettingsInfo kind describe spec ds = filter (\<lambda>(_, v). v \<noteq> JUndef) (settings_rows kind describe spec ds)"

section \<open>The strategy, the template and the Jobs\<close>

definition nonEmpty :: "jval \<Rightarrow> jval" where
  "nonEmpty v = (if truthy v \<and> typeof_object v \<and> spread v \<noteq> [] then v else JUndef)"

definition listed :: "jval list \<Rightarrow> jval" where
  "listed items = (if items \<noteq> [] then JArr items else JUndef)"

definition strategyLayer :: "jval \<times> jval \<Rightarrow> jval" where
  "strategyLayer strategy = (case strategy of (type, rolling) \<Rightarrow>
     if type = JStr ''-'' then JUndef
     else JObj [(''type'', type), (''max_unavailable'', jnn (jget rolling ''max_unavailable'') (jget rolling ''maxUnavailable'')),
       (''max_surge'', jnn (jget rolling ''max_surge'') (jget rolling ''maxSurge'')), (''partition'', jget rolling ''partition'')])"

definition expression_text :: "jval \<Rightarrow> string" where
  "expression_text e = trim (jstr (jor (jget e ''key'') (JStr ''-'')) @ '' '' @ jstr (jor (jget e ''operator'') (JStr ''-'')) @ '' '' @ jjoin '', '' (elems (jget e ''values'')))"

definition claim_item :: "jval \<Rightarrow> jval" where
  "claim_item v = JObj [(''name'', jget v ''name''), (''storage_class'', jor (jget v ''storage_class_name'') (jpath v [''spec'', ''storageClassName''])),
     (''access_modes'', jor (jget v ''access_modes'') (jpath v [''spec'', ''accessModes''])),
     (''requests'', jnn (jget v ''requests'') (jpath v [''spec'', ''resources'', ''requests'']))]"

definition container_item :: "jval \<Rightarrow> jval" where
  "container_item c = JObj [(''name'', jget c ''name''), (''image'', jget c ''image''), (''ports'', listed (map JStr (toPorts (jget c ''ports'')))),
     (''requests'', nonEmpty (jget c ''requests'')), (''limits'', nonEmpty (jget c ''limits'')), (''env_count'', jget c ''env_count'')]"

definition templateLayer :: "jval \<Rightarrow> jval \<Rightarrow> jval \<Rightarrow> entries" where
  "templateLayer template selectorExpressions volumeClaimTemplates =
     [(''service_account'', jor (jget template ''service_account_name'') JUndef), (''priority_class'', jor (jget template ''priority_class_name'') JUndef),
      (''node_selector'', nonEmpty (jget template ''node_selector'')), (''pod_security_context'', nonEmpty (jget template ''securityContext'')),
      (''selector_expressions'', listed (map (\<lambda>e. JStr (expression_text e)) (elems selectorExpressions))),
      (''tolerations'', listed (map (\<lambda>t. JStr (formatToleration t)) (elems (jget template ''tolerations'')))),
      (''volume_claim_templates'', listed (map claim_item (elems volumeClaimTemplates))),
      (''containers'', listed (map container_item (elems (jget template ''containers''))))]"

definition start_text :: "jval \<Rightarrow> string" where
  "start_text j = jstr (jnn (jget j ''start_time'') (JStr []))"

definition job_item :: "layer_env \<Rightarrow> jval \<Rightarrow> jval" where
  "job_item env j = JObj [(''name'', jget j ''name''), (''status'', jget j ''status''), (''start_time'', jget j ''start_time''),
     (''duration'', JStr (formatDuration (jobDurationSeconds env (jget j ''start_time'') (jget j ''completion_time''))))]"

definition ownedJobsLayer :: "layer_env \<Rightarrow> jval list \<Rightarrow> entries" where
  "ownedJobsLayer env jobs = [(''owned_jobs_total'', JNum (int (length jobs))),
     (''owned_jobs'', JArr (map (job_item env) (take 10 (js_sort (\<lambda>a b. lc env (start_text b) (start_text a)) jobs))))]"

section \<open>The layer\<close>

record layer_input =
  kind :: string
  name :: string
  namespace :: "string option"
  describe :: jval
  spec :: jval
  status :: jval
  selector :: jval
  owned_pods :: "jval list"
  podsEnabled :: bool
  podsLoaded :: bool
  owned_jobs :: "jval list option"
  jobsEnabled :: bool
  ownedJobs :: jval
  controllerZone :: string
  createdAt :: jval
  labels :: jval
  selectorExpressions :: jval
  podTemplate :: jval
  volumeClaimTemplates :: jval

record layer_summary =
  ls_look :: bool
  ls_name :: "string \<times> string \<times> string option"
  ls_headline :: string
  ls_pods :: "(nat \<times> nat) option"

definition replica_view :: "layer_input \<Rightarrow> entries option" where
  "replica_view inp = (if kind inp = ''Job'' \<or> kind inp = ''CronJob'' then None
     else Some (workloadReplicaView (kind inp) (describe inp) (spec inp) (status inp)))"

definition daemonset_counts :: "layer_input \<Rightarrow> jval \<times> jval" where
  "daemonset_counts inp = (case replica_view inp of
      Some view \<Rightarrow> if kind inp = ''DaemonSet'' then workloadDaemonSetStatus (describe inp) (status inp) view else (JNum 0, JNum 0)
    | None \<Rightarrow> (JNum 0, JNum 0))"

definition counted :: "layer_input \<Rightarrow> bool" where
  "counted inp = (case replica_view inp of None \<Rightarrow> False
    | Some view \<Rightarrow> field view ''desired'' \<noteq> JStr ''-''
        \<and> (kind inp \<noteq> ''DaemonSet'' \<or> truthy (describe inp) \<or> \<not> nullish (jget (status inp) ''desiredNumberScheduled'')))"

definition job_info :: "layer_env \<Rightarrow> layer_input \<Rightarrow> entries option" where
  "job_info env inp = (if kind inp = ''Job'' then Some (jobDrawerInfo env (describe inp) (spec inp) (status inp)) else None)"

definition cronjob_info :: "layer_env \<Rightarrow> layer_input \<Rightarrow> entries option" where
  "cronjob_info env inp = (if kind inp = ''CronJob'' then Some (cronJobDrawerInfo env (describe inp) (spec inp) (status inp)) else None)"

definition view_field :: "layer_input \<Rightarrow> string \<Rightarrow> jval" where
  "view_field inp k = (case replica_view inp of Some view \<Rightarrow> field view k | None \<Rightarrow> JUndef)"

definition short_of :: "layer_input \<Rightarrow> bool" where
  "short_of inp = (let desired = to_number (view_field inp ''desired''); ready = to_number (view_field inp ''ready'') in
     counted inp \<and> js_less (JNum 0) desired \<and> js_less ready desired)"

definition pods_of :: "layer_input \<Rightarrow> pods_layer" where
  "pods_of inp = workloadPodsLayer (describe inp) (owned_pods inp) (podsEnabled inp) (podsLoaded inp) (namespace inp)"

definition summary_of :: "layer_env \<Rightarrow> layer_input \<Rightarrow> layer_summary" where
  "summary_of env inp =
     (let pods = pods_of inp in
      \<lparr>ls_look = (0 < pl_notRunning pods \<or> short_of inp \<or> (\<exists>job\<in>set_option (job_info env inp). jobLayerNeedsALook job)
                    \<or> (\<exists>cj\<in>set_option (cronjob_info env inp). cronJobLayerNeedsALook cj)),
       ls_name = (kind inp, name inp, namespace inp),
       ls_headline = (case (job_info env inp, cronjob_info env inp) of
            (Some job, _) \<Rightarrow> jobLayerHeadline job
          | (None, Some cj) \<Rightarrow> cronJobLayerHeadline cj
          | (None, None) \<Rightarrow> if counted inp then ''replicas '' @ jstr (view_field inp ''ready'') @ ''/'' @ jstr (view_field inp ''desired'') else ''replicas ?/?''),
       ls_pods = (if pl_known pods then Some (pl_total pods, pl_notRunning pods) else None)\<rparr>)"

definition count_of :: "layer_input \<Rightarrow> jval \<Rightarrow> jval" where
  "count_of inp v = (if counted inp \<and> v \<noteq> JStr ''-'' then v else JUndef)"

definition replicas_entries :: "layer_input \<Rightarrow> entries" where
  "replicas_entries inp =
     (if replica_view inp = None then []
      else let v = view_field inp; ds = (kind inp = ''DaemonSet'') in
        [(''replicas'', count_of inp (v ''desired'')), (''ready_replicas'', count_of inp (v ''ready'')), (''current_replicas'', count_of inp (v ''current'')),
         (''updated_replicas'', count_of inp (v ''updated'')), (''available_replicas'', count_of inp (v ''available'')),
         (''unavailable_replicas'', if ds then count_of inp (snd (daemonset_counts inp))
            else jnn (jget (describe inp) ''unavailable_replicas'') (jget (status inp) ''unavailableReplicas'')),
         (''misscheduled_replicas'', if ds then count_of inp (fst (daemonset_counts inp)) else JUndef)])"

definition layer_conditions :: "layer_input \<Rightarrow> jval list" where
  "layer_conditions inp = (if is_array (jget (describe inp) ''conditions'') then elems (jget (describe inp) ''conditions'')
     else elems (jget (status inp) ''conditions''))"

definition live_jobs :: "layer_input \<Rightarrow> bool" where
  "live_jobs inp = (jobsEnabled inp \<and> (case owned_jobs inp of Some (_ # _) \<Rightarrow> True | _ \<Rightarrow> False))"

definition layer_data :: "layer_env \<Rightarrow> layer_input \<Rightarrow> entries" where
  "layer_data env inp = (let d = jget (describe inp) in
     [(''kind'', JStr (kind inp)), (''name'', JStr (name inp)), (''namespace'', case namespace inp of Some n \<Rightarrow> JStr n | None \<Rightarrow> JUndef),
      (''_link'', link_value (kind inp) (namespace inp) (name inp)), (''created_at'', jnn (createdAt inp) (d ''created_at'')), (''uid'', d ''uid''),
      (''resource_version'', d ''resource_version''), (''generation'', d ''generation''), (''observed_generation'', d ''observed_generation'')]
     @ replicas_entries inp
     @ [(''strategy'', strategyLayer (workloadStrategy (kind inp) (describe inp) (spec inp)))]
     @ workloadSettingsInfo (kind inp) (describe inp) (spec inp) (daemonset_counts inp)
     @ (case job_info env inp of Some job \<Rightarrow> job | None \<Rightarrow> [])
     @ (case cronjob_info env inp of Some cj \<Rightarrow> cronJobLayerFields cj (controllerZone inp) | None \<Rightarrow> [])
     @ [(''selector'', selector inp), (''labels'', nonEmpty (labels inp))]
     @ templateLayer (podTemplate inp) (selectorExpressions inp) (volumeClaimTemplates inp)
     @ [(''conditions'', JArr (take 8 (layer_conditions inp))), (''pods'', JArr (pl_items (pods_of inp))), (''recent_events'', JArr (take 10 (elems (d ''events''))))]
     @ (if kind inp = ''CronJob'' \<and> (is_array (ownedJobs inp) \<or> live_jobs inp)
        then ownedJobsLayer env (ownedDisplayJobs (owned_jobs inp) (jobsEnabled inp) (ownedJobs inp)) else []))"

definition workloadLayer :: "layer_env \<Rightarrow> layer_input \<Rightarrow> layer_summary \<times> entries" where
  "workloadLayer env inp = (summary_of env inp, layer_data env inp)"

section \<open>What the layer does not tell\<close>

text \<open>An object without the entries the test refuses.\<close>

definition keeping :: "(string \<Rightarrow> bool) \<Rightarrow> jval \<Rightarrow> jval" where
  "keeping keep v = (case v of JObj kvs \<Rightarrow> JObj (filter (\<lambda>(k, _). keep k) kvs) | _ \<Rightarrow> v)"

text \<open>A template whose containers hold no more than their name, image, ports, requests, limits and count of environment entries.\<close>

definition told_keys :: "string list" where
  "told_keys = [''name'', ''image'', ''ports'', ''requests'', ''limits'', ''env_count'']"

definition bare_entry :: "string \<Rightarrow> jval \<Rightarrow> jval" where
  "bare_entry k v = (case v of JArr cs \<Rightarrow> if k = ''containers'' then JArr (map (keeping (\<lambda>k. k \<in> set told_keys)) cs) else v | _ \<Rightarrow> v)"

definition bare_template :: "jval \<Rightarrow> jval" where
  "bare_template t = (case t of JObj kvs \<Rightarrow> JObj (map (\<lambda>(k, v). (k, bare_entry k v)) kvs) | _ \<Rightarrow> t)"

lemma jget_keeping: "keep k \<Longrightarrow> jget (keeping keep v) k = jget v k"
proof (cases v)
  case (JObj kvs)
  assume "keep k"
  then have "map_of (filter (\<lambda>(k, _). keep k) kvs) k = map_of kvs k" by (induction kvs) auto
  then show ?thesis by (simp add: keeping_def JObj)
qed (simp_all add: keeping_def)

lemma truthy_keeping [simp]: "truthy (keeping keep v) = truthy v"
  by (cases v) (simp_all add: keeping_def)

lemma container_item_bare: "container_item (keeping (\<lambda>k. k \<in> set told_keys) c) = container_item c"
  by (simp add: container_item_def jget_keeping told_keys_def)

lemma jget_bare: "jget (bare_template t) k = bare_entry k (jget t k)"
proof (cases t)
  case (JObj kvs)
  have "map_of (map (\<lambda>(k, v). (k, bare_entry k v)) kvs) k = map_option (bare_entry k) (map_of kvs k)" by (induction kvs) auto
  moreover have "bare_entry k JUndef = JUndef" by (simp add: bare_entry_def)
  ultimately show ?thesis by (simp add: bare_template_def JObj split: option.split)
qed (simp_all add: bare_template_def bare_entry_def)

lemma jget_bare_other: "k \<noteq> ''containers'' \<Longrightarrow> jget (bare_template t) k = jget t k"
  by (simp add: jget_bare bare_entry_def split: jval.split)

lemma bare_containers: "map container_item (elems (jget (bare_template t) ''containers'')) = map container_item (elems (jget t ''containers''))"
  by (cases "jget t ''containers''") (simp_all add: jget_bare bare_entry_def container_item_bare)

lemma template_bare: "templateLayer (bare_template t) e v = templateLayer t e v"
  by (simp add: templateLayer_def bare_containers jget_bare_other)

abbreviation unannotated :: "jval \<Rightarrow> jval" where
  "unannotated \<equiv> keeping (\<lambda>k. k \<noteq> ''annotations'')"

text \<open>
  C14: What the chat is told of a workload's window does not depend on the containers' command lines, arguments, environment values, probes
  and mounts, nor on the annotations of the describe answer: the layer of an input without them is the same.
\<close>

theorem layer_tells_no_commands:
  "workloadLayer env (inp\<lparr>podTemplate := bare_template (podTemplate inp), describe := unannotated (describe inp)\<rparr>) = workloadLayer env inp"
  (is "workloadLayer env ?bare = _")
proof -
  have view: "replica_view ?bare = replica_view inp"
    by (simp add: replica_view_def workloadReplicaView_def jget_keeping Let_def)
  have daemon: "daemonset_counts ?bare = daemonset_counts inp"
    by (simp add: daemonset_counts_def view workloadDaemonSetStatus_def jget_keeping Let_def split: option.split)
  have counted: "counted ?bare = counted inp"
    by (simp add: counted_def view split: option.split)
  have jobs: "job_info env ?bare = job_info env inp" "cronjob_info env ?bare = cronjob_info env inp"
    by (simp_all add: job_info_def cronjob_info_def jobDrawerInfo_def jobDrawerCompletions_def cronJobDrawerInfo_def cronJobNextRunFields_def
        jget_keeping Let_def)
  have pods: "pods_of ?bare = pods_of inp"
    by (simp add: pods_of_def workloadPodsLayer_def ownedDisplayPods_def jget_keeping Let_def)
  have field: "view_field ?bare = view_field inp"
    by (simp add: fun_eq_iff view_field_def view split: option.split)
  have replicas: "replicas_entries ?bare = replicas_entries inp"
    by (simp add: replicas_entries_def view field count_of_def counted daemon jget_keeping Let_def)
  have owner: "replicaSetOwnerRow (unannotated d) = replicaSetOwnerRow d" for d
  proof -
    have "replicaSetOwner (unannotated d) = replicaSetOwner d" by (simp add: replicaSetOwner_def Let_def jget_keeping)
    then show ?thesis by (simp add: replicaSetOwnerRow_def jget_keeping)
  qed
  have settings: "workloadSettingsInfo (kind inp) (unannotated (describe inp)) (spec inp) ds = workloadSettingsInfo (kind inp) (describe inp) (spec inp) ds" for ds
    by (simp add: workloadSettingsInfo_def settings_rows_def owner jget_keeping Let_def)
  have strategy: "workloadStrategy (kind inp) (unannotated (describe inp)) (spec inp) = workloadStrategy (kind inp) (describe inp) (spec inp)"
    by (simp add: workloadStrategy_def jget_keeping Let_def)
  have summary: "summary_of env ?bare = summary_of env inp"
    by (simp add: summary_of_def short_of_def counted field jobs pods Let_def cong: option.case_cong)
  have live: "live_jobs ?bare = live_jobs inp" by (simp add: live_jobs_def)
  have conditions: "layer_conditions ?bare = layer_conditions inp" by (simp add: layer_conditions_def jget_keeping)
  have "layer_data env ?bare = layer_data env inp"
    by (auto simp add: layer_data_def replicas settings strategy daemon jobs pods template_bare live conditions jget_keeping Let_def cong: option.case_cong)
  with summary show ?thesis by (simp add: workloadLayer_def)
qed

end
