(* ===== verification/Spec2Isabelle.thy ===== *)
theory Spec2Isabelle
  imports Access Chat_Stream Watch_List Watch_Multiplexer Rows_Feeds Cron_Run Api_Client Traffic_Props Row_Reads Secret_Props AI_Summaries Follower Chat_History_Props Drawer_Props Rbac_Props Times_Props Modal_Stack Saved_Search Optimization_Props Tool_Export Issues Node_Metrics Infer_Types Resource_Links GPU Object_Actions Bulk_Users Chat_Chart Bindings Setup_Wizard Model_Form Workload_Layer
begin

text \<open>
  Kubeast is a web console for Kubernetes clusters: a single-page application in TypeScript (\<^verbatim>\<open>frontend/src\<close>) over services in Go and
  Python. This library models the application's own logic, the part the browser decides by itself, and proves what makes it correct.
  Paths below are under \<^verbatim>\<open>frontend/src\<close>.

  \<^bold>\<open>How the parts work together.\<close> A page asks the server for a list through the shared client (\<open>Api_Client\<close>), which names the cluster and
  turns a refused or failed answer into a redirect or a notice. What a list's last answer was is kept per list (\<open>Watch_Stores\<close>). The page
  then subscribes its list (\<open>Watch_List\<close>) at the tab's one WebSocket (\<open>Watch_Multiplexer\<close>); a frame that comes is applied to the rows
  (\<open>Watch_Rows\<close>) with the page's writer of rows (\<open>Rows_*\<close>). A row opens in the drawer as an object (\<open>Row_Objects\<close>) by a link
  (\<open>Drawer_Target\<close>), the drawer follows that object (\<open>Follower\<close>), and a Secret is edited as letters (\<open>Secret_*\<close>). What the screen lets a
  person do is decided by the permission matrix (\<open>Access\<close>) within the tab's session (\<open>Session\<close>). The chat sends what the screens show
  (\<open>AI_*\<close>), streams its answer (\<open>Chat_Stream\<close> over \<open>Chat_Text\<close>, \<open>Chat_Blocks\<close>, \<open>Tool_Access\<close>) into a conversation kept in pages
  (\<open>Chat_History\<close>), and exports the results of its tools (\<open>Tool_Export\<close>). The remaining theories are the computations of single screens.

  \<^bold>\<open>Shared.\<close>
  \<^item> \<open>Prelude\<close>: JSON values, the operators of JavaScript on them, texts, \<^verbatim>\<open>Map\<close> and \<^verbatim>\<open>Set\<close> as lists; lemmas on splitting and joining.
  \<^item> \<open>Chat_Value\<close>: texts as UTF-16 code units and JSON values over them, for the chat. \<open>Calendar\<close>: \<^verbatim>\<open>Date\<close> in UTC as day numbers.
  \<^item> \<open>Comparing\<close>: \<^verbatim>\<open>sort\<close> by a comparator; the locales \<open>comparing\<close> and \<open>consistent\<close> say what JavaScript asks of one.

  \<^bold>\<open>Live lists.\<close>
  \<^item> \<open>Watch_Rows\<close> (\<^verbatim>\<open>services/useKubeWatchList.ts\<close>, \<^verbatim>\<open>applyRowEvent.ts\<close>): the locale of a list fed by events; a list is the map of
    the objects its events describe, one row each, in order. \<open>Rows_Workloads\<close>, \<open>Rows_Network\<close>, \<open>Rows_Storage\<close>, \<open>Rows_Cluster\<close>
    (\<^verbatim>\<open>pages/**/*WatchNormalize.ts\<close>): the row of each kind. \<open>Rows_Feeds\<close> interprets the locale on every one of them.
  \<^item> \<open>Api_Types\<close> (\<^verbatim>\<open>services/api/types.ts\<close>), \<open>Row_Objects\<close> (\<^verbatim>\<open>pages/**/*Helpers.ts\<close>), \<open>Row_Reads\<close>: the types of rows, the objects
    they are written back as, and that a row read from its own object is the row again.
  \<^item> \<open>Watch_List\<close> (\<^verbatim>\<open>useKubeWatchList.ts\<close>, \<^verbatim>\<open>useHelmWatchList.ts\<close>): subscriptions, frames gathered for a moment, releases of Helm by
    revision. \<open>Watch_Multiplexer\<close> (\<^verbatim>\<open>watchMultiplexer.ts\<close>): the class as a step relation with the server's asked watches; its
    invariant, and that the server is asked for exactly what is listened to. \<open>Watch_Stores\<close>: notices of the page.

  \<^bold>\<open>Chat.\<close>
  \<^item> \<open>Chat_Text\<close> (\<^verbatim>\<open>services/chatTextUtils.ts\<close>), \<open>Chat_Blocks\<close> and \<open>Chat_Stream\<close> (\<^verbatim>\<open>chatStreamManager.ts\<close>), \<open>Tool_Access\<close>: the scanners of
    fences, the blocks of tool calls, and the class as operations of a step relation: nothing hangs, no letter is lost, a result lands in
    its own block. \<open>Chat_History\<close>, \<open>Chat_History_Props\<close> (\<^verbatim>\<open>sessionMessages.ts\<close>, \<^verbatim>\<open>turnsOnScreen.ts\<close>, \<^verbatim>\<open>useChatSessions.ts\<close>).
    \<open>Tool_Export\<close> (\<^verbatim>\<open>pages/ai-chat/exportToolCalls.ts\<close>).
  \<^item> \<open>AI_Layers\<close>, \<open>AI_Props\<close>, \<open>AI_Objects\<close>, \<open>AI_Summaries\<close> (\<^verbatim>\<open>hooks/useAIContext.ts\<close>, \<^verbatim>\<open>utils/aiContext/*\<close>,
    \<^verbatim>\<open>drawerObjectLayer.ts\<close>): what of the screens the chat is told, within which size, and that a Secret's values are not.

  \<^bold>\<open>Access and session.\<close> \<open>Access\<close> (\<^verbatim>\<open>utils/permissions.ts\<close> and its neighbours), \<open>Session\<close> (\<^verbatim>\<open>services/auth.ts\<close>), \<open>Api_Client\<close>
  (\<^verbatim>\<open>services/api/client.ts\<close>), \<open>Rbac\<close> and \<open>Rbac_Props\<close> (\<^verbatim>\<open>pages/cluster-view/rbacUtils.ts\<close>).

  \<^bold>\<open>Screens.\<close>
  \<^item> \<open>Cron\<close>, \<open>Cron_Parse\<close>, \<open>Cron_Next\<close>, \<open>Cron_Run\<close> (\<^verbatim>\<open>utils/cron.ts\<close>): the schedule's parser and the search for the next run.
  \<^item> \<open>Traffic\<close>, \<open>Traffic_Props\<close> (\<^verbatim>\<open>pages/resource-graph/traffic.ts\<close>); \<open>Secret_Bytes\<close>, \<open>Secret_Yaml\<close>, \<open>Secret_Quotes\<close>, \<open>Secret_Props\<close>
    (\<^verbatim>\<open>components/resource-detail/utils.ts\<close>); \<open>Follower\<close>, \<open>Drawer_Target\<close>, \<open>Alert_Inbox\<close>, \<open>Drawer_Props\<close>; \<open>Times\<close>, \<open>Times_Props\<close>
    (\<^verbatim>\<open>utils/time.ts\<close>); \<open>Modal_Stack\<close>; \<open>Saved_Search\<close>, \<open>Infer_Types\<close> (\<^verbatim>\<open>components/search\<close>); \<open>Optimization\<close>, \<open>Optimization_Props\<close>,
    \<open>Issues\<close> (\<^verbatim>\<open>pages/dashboard\<close>); \<open>Node_Metrics\<close> (\<^verbatim>\<open>utils/nodeMetrics.ts\<close>);
    \<open>GPU\<close> (\<^verbatim>\<open>pages/gpu/gpuNumbers.ts\<close>, \<^verbatim>\<open>utils/nodeStatus.ts\<close>): counts of GPUs, the pods that use them, the usage of a pod within 0 and 100.
  \<^item> \<open>Resource_Links\<close> (\<^verbatim>\<open>utils/resourceLink.ts\<close>, \<^verbatim>\<open>utils/traceLinks.ts\<close>): links written and read back, templates of trace stores.
  \<^item> \<open>Object_Actions\<close> (\<^verbatim>\<open>components/resource-detail/useResourceDelete.ts\<close>, \<^verbatim>\<open>useResourceYaml.ts\<close>, \<^verbatim>\<open>systemObject.ts\<close>, \<^verbatim>\<open>gitops.ts\<close>,
    with the delete calls of \<^verbatim>\<open>services/api\<close>): the requests about the drawer's object; a delete request names that object and no other.
  \<^item> \<open>Workload_Words\<close>, \<open>Workload_Layer\<close> (\<^verbatim>\<open>components/resource-detail/workload-info\<close>, \<^verbatim>\<open>pod-info/podInfoFormatters.ts\<close>,
    \<^verbatim>\<open>pages/workloads/jobs/jobHelpers.ts\<close>, \<^verbatim>\<open>cronjobs/cronJobHelpers.ts\<close>): the words of a workload's window and what the chat is
    told of it; command lines, probes, mounts and annotations are not told.
  \<^item> \<open>Bindings\<close> (\<^verbatim>\<open>components/resource-detail/service-account-info/useEffectivePermissions.ts\<close>, \<^verbatim>\<open>role-info/referencedBy.ts\<close>): the bindings
    and rules of a ServiceAccount, the bindings of a role.
  \<^item> \<open>Setup_Wizard\<close> (\<^verbatim>\<open>pages/setup/useClusterSubmit.ts\<close>): the steps of connecting a cluster; a submission ends.
  \<^item> \<open>Model_Form\<close> (\<^verbatim>\<open>pages/admin-ai-models/useModelForm.ts\<close>, \<^verbatim>\<open>helpers.ts\<close>, \<^verbatim>\<open>constants/modelCatalog.ts\<close>): the form of an AI model
    configuration; what is opened and saved as it is stays what it was.
  \<^item> \<open>Bulk_Users\<close> (\<^verbatim>\<open>pages/admin-users/bulkCreate.ts\<close>): accounts of a CSV file. \<open>Chat_Chart\<close> (\<^verbatim>\<open>utils/chatChart.ts\<close>): which charts an
    answer draws, their ranges and nearest points.

  \<^bold>\<open>State and steps.\<close> A class or a module's variables are a record, an operation a function on it; where the browser decides the order
  (sockets, timers, answers), an \<open>inductive\<close> relation has one rule per operation and per event of the environment, and what holds of every
  reachable state is proved by rule induction. Errors are values: an answer of the client, an end of a stream, a text that does not parse.

  \<^bold>\<open>Bounds and fuel.\<close> No definition runs on fuel. A loop of the code is a recursion with a proof that it ends; the search of
  \<open>Cron_Next\<close> ends because each pass moves to a later second and the code itself gives up after five years, so the answer that there is no
  run says so of these five years.

  \<^bold>\<open>Parameters.\<close> What is not the repository's code is an argument: \<^verbatim>\<open>JSON.parse\<close> and \<^verbatim>\<open>JSON.stringify\<close> of stored texts, \<open>time_of\<close> for the
  parsing of a date's text, the viewer's time zone (\<open>viewer\<close>, \<open>known_zone\<close>), \<open>lc\<close> for \<^verbatim>\<open>localeCompare\<close>, the moment now, the answers of
  the server and the state of the query library. Where a property needs something of one, it says so as a hypothesis (that a comparator
  is one, that a text written is read back), and its witness names a function that has it.

  \<^bold>\<open>Where the models are coarser.\<close> Numbers of JSON are integers; counts of bytes and widths of the graph are reals, not floating point.
  Names, labels and paths are texts of code units below 256; texts of people are lists of code units. Components of React, their effects
  and the timers behind them are events whose order is arbitrary.

  \<^bold>\<open>Not modelled.\<close> The pages and components as they are drawn (\<^verbatim>\<open>*.tsx\<close>), their styles, particles and graphs; the hooks that only wire
  a query to a page; the modules of \<^verbatim>\<open>services/api\<close> that send one request each; the translations; the tests; the charts and scripts. The
  services in Go and Python are programs of their own, in other languages, that the application calls over HTTP.
\<close>

end
